(* ===== verification/Prelude.thy ===== *)
theory Prelude
  imports Complex_Main "HOL-Library.Sublist" "HOL-Library.Word"
begin

text \<open>
  Shared vocabulary of the development: the machine types of the Rust sources, the result
  type and its \<open>?\<close> operator, the byte-string operations of the Rust standard library that
  the sources call (\<open>split_once\<close>, \<open>rsplit_once\<close>, \<open>find\<close>, \<open>rfind\<close>, \<open>strip_prefix\<close>), and
  the list facts the component theories share.  A Rust \<open>&str\<close> is modelled by its bytes, a
  \<^typ>\<open>string\<close>; every separator the sources search for is ASCII, so byte offsets and character
  boundaries agree.
\<close>

unbundle bit_operations_syntax

named_theorems frame_simps \<open>fields an operation does not write\<close>
named_theorems inv_intros \<open>an operation keeps an invariant\<close>

section \<open>Machine integers and results\<close>

type_synonym u8 = "8 word"
type_synonym u32 = "32 word"
type_synonym u64 = "64 word"
type_synonym i64 = "64 word"

type_synonym ('e, 'a) result = "'e + 'a"

definition and_then :: "('e, 'a) result \<Rightarrow> ('a \<Rightarrow> ('e, 'b) result) \<Rightarrow> ('e, 'b) result" where
  "and_then r f = (case r of Inl e \<Rightarrow> Inl e | Inr x \<Rightarrow> f x)"

definition map_err :: "('e \<Rightarrow> 'f) \<Rightarrow> ('e, 'a) result \<Rightarrow> ('f, 'a) result" where
  "map_err g r = (case r of Inl e \<Rightarrow> Inl (g e) | Inr x \<Rightarrow> Inr x)"

definition ok_or :: "'e \<Rightarrow> 'a option \<Rightarrow> ('e, 'a) result" where
  "ok_or e r = (case r of None \<Rightarrow> Inl e | Some x \<Rightarrow> Inr x)"

lemma and_then_simps [simp]:
  "and_then (Inl e) f = Inl e" "and_then (Inr x) f = f x"
  by (simp_all add: and_then_def)

lemma and_then_cong [fundef_cong]:
  "r = r' \<Longrightarrow> (\<And>x. r' = Inr x \<Longrightarrow> f x = g x) \<Longrightarrow> and_then r f = and_then r' g"
  by (cases r') auto

lemma map_err_simps [simp]:
  "map_err g (Inl e) = Inl (g e)" "map_err g (Inr x) = Inr x"
  by (simp_all add: map_err_def)

lemma ok_or_simps [simp]: "ok_or e None = Inl e" "ok_or e (Some x) = Inr x"
  by (simp_all add: ok_or_def)

lemma and_then_Inr: "and_then r f = Inr y \<longleftrightarrow> (\<exists>x. r = Inr x \<and> f x = Inr y)"
  by (cases r) auto

lemma and_then_Inl: "and_then r f = Inl e \<longleftrightarrow> r = Inl e \<or> (\<exists>x. r = Inr x \<and> f x = Inl e)"
  by (cases r) auto

lemma map_err_Inr: "map_err g r = Inr y \<longleftrightarrow> r = Inr y"
  by (cases r) auto

lemma map_err_Inl: "map_err g r = Inl e' \<longleftrightarrow> (\<exists>e. r = Inl e \<and> e' = g e)"
  by (cases r) auto

text \<open>\<open>iter().map(f).collect::<Result<Vec<_>, _>>()\<close>: the first error wins.\<close>

fun collect_results :: "('a \<Rightarrow> ('e, 'b) result) \<Rightarrow> 'a list \<Rightarrow> ('e, 'b list) result" where
  "collect_results f [] = Inr []"
| "collect_results f (x # xs) =
     and_then (f x) (\<lambda>y. and_then (collect_results f xs) (\<lambda>ys. Inr (y # ys)))"

text \<open>What code that may panic comes to.\<close>

datatype 'a outcome = Panics | Returns 'a

text \<open>\<open>iter().find_map(f)\<close>: the first \<^const>\<open>Some\<close>.\<close>

fun find_map :: "('a \<Rightarrow> 'b option) \<Rightarrow> 'a list \<Rightarrow> 'b option" where
  "find_map f [] = None"
| "find_map f (x # xs) = (case f x of Some y \<Rightarrow> Some y | None \<Rightarrow> find_map f xs)"

lemma find_map_None: "find_map f xs = None \<longleftrightarrow> (\<forall>x\<in>set xs. f x = None)"
  by (induction xs) (auto split: option.splits)

lemma find_map_Some: "find_map f xs = Some y \<Longrightarrow> \<exists>x\<in>set xs. f x = Some y"
  by (induction xs) (auto split: option.splits)

lemma find_map_cong [fundef_cong]:
  "xs = ys \<Longrightarrow> (\<And>x. x \<in> set ys \<Longrightarrow> f x = g x) \<Longrightarrow> find_map f xs = find_map g ys"
  by (induction ys arbitrary: xs) (auto split: option.splits)

lemma unat_plus_one: "Suc (unat (x :: u64)) < 2 ^ 64 \<Longrightarrow> unat (x + 1) = Suc (unat x)"
  by (simp add: unat_word_ariths)

section \<open>Byte strings\<close>

text \<open>\<open>str::split_once(pat)\<close>: around the first occurrence of the pattern.\<close>

fun split_once :: "string \<Rightarrow> string \<Rightarrow> (string \<times> string) option" where
  "split_once pat [] = (if pat = [] then Some ([], []) else None)"
| "split_once pat (c # cs) =
     (if prefix pat (c # cs) then Some ([], drop (length pat) (c # cs))
      else map_option (\<lambda>(a, b). (c # a, b)) (split_once pat cs))"

text \<open>\<open>str::rsplit_once(char)\<close>: around the last occurrence of the byte.\<close>

fun rsplit_once :: "char \<Rightarrow> string \<Rightarrow> (string \<times> string) option" where
  "rsplit_once d [] = None"
| "rsplit_once d (c # cs) =
     (case rsplit_once d cs of
        Some (a, b) \<Rightarrow> Some (c # a, b)
      | None \<Rightarrow> if c = d then Some ([], cs) else None)"

text \<open>\<open>str::find\<close> and \<open>str::rfind\<close> with a character predicate: a byte offset.\<close>

fun find_char :: "(char \<Rightarrow> bool) \<Rightarrow> string \<Rightarrow> nat option" where
  "find_char p [] = None"
| "find_char p (c # cs) = (if p c then Some 0 else map_option Suc (find_char p cs))"

fun rfind_char :: "(char \<Rightarrow> bool) \<Rightarrow> string \<Rightarrow> nat option" where
  "rfind_char p [] = None"
| "rfind_char p (c # cs) =
     (case rfind_char p cs of Some i \<Rightarrow> Some (Suc i) | None \<Rightarrow> if p c then Some 0 else None)"

text \<open>\<open>str::find\<close> with a string pattern.\<close>

fun find_str :: "string \<Rightarrow> string \<Rightarrow> nat option" where
  "find_str pat [] = (if pat = [] then Some 0 else None)"
| "find_str pat (c # cs) =
     (if prefix pat (c # cs) then Some 0 else map_option Suc (find_str pat cs))"

definition strip_prefix :: "string \<Rightarrow> string \<Rightarrow> string option" where
  "strip_prefix pre s = (if prefix pre s then Some (drop (length pre) s) else None)"

definition to_ascii_lowercase :: "string \<Rightarrow> string" where
  "to_ascii_lowercase s =
     map (\<lambda>c. if 65 \<le> (of_char c :: nat) \<and> (of_char c :: nat) \<le> 90
               then char_of ((of_char c :: nat) + 32) else c) s"

text \<open>\<open>Display\<close> of an unsigned integer: its decimal digits.\<close>

fun dec :: "nat \<Rightarrow> string" where
  "dec n = (if n < 10 then [char_of (48 + n)] else dec (n div 10) @ [char_of (48 + n mod 10)])"

declare dec.simps [simp del]

text \<open>\<open>Display\<close> of a signed integer.\<close>

definition int_text :: "int \<Rightarrow> string" where
  "int_text i = (if i < 0 then CHR ''-'' # dec (nat (- i)) else dec (nat i))"

text \<open>Decimal digits and their value; a number is read back from its text.\<close>

definition is_digit :: "char \<Rightarrow> bool" where
  "is_digit c \<longleftrightarrow> 48 \<le> (of_char c :: nat) \<and> (of_char c :: nat) \<le> 57"

definition digits_value :: "string \<Rightarrow> nat" where
  "digits_value s = foldl (\<lambda>n c. 10 * n + (of_char c - 48)) 0 s"

lemma digit_char: "n < 10 \<Longrightarrow> (of_char (char_of (48 + n :: nat)) :: nat) = 48 + n"
  by simp

lemma digits_value_append: "digits_value (s @ [c]) = 10 * digits_value s + (of_char c - 48)"
  by (simp add: digits_value_def)

lemma dec_digits: "list_all is_digit (dec n) \<and> digits_value (dec n) = n \<and> dec n \<noteq> []"
proof (induction n rule: dec.induct)
  case (1 n)
  show ?case
  proof (cases "n < 10")
    case True
    then show ?thesis
      by (simp add: dec.simps [of n] is_digit_def digits_value_def)
  next
    case False
    have "is_digit (char_of (48 + n mod 10))" "of_char (char_of (48 + n mod 10)) - 48 = n mod 10"
      using digit_char [of "n mod 10"] by (auto simp: is_digit_def)
    with 1 [OF False] False show ?thesis
      by (simp add: dec.simps [of n] digits_value_append)
  qed
qed

lemma dec_first_digit: "\<exists>c cs. dec n = c # cs \<and> is_digit c"
  using dec_digits [of n] by (cases "dec n") auto

lemma not_sign: "is_digit c \<Longrightarrow> c \<noteq> CHR ''-'' \<and> c \<noteq> CHR ''+'' \<and> c \<noteq> CHR '',''"
  by (auto simp: is_digit_def)

lemma dec_inj: "dec m = dec n \<longleftrightarrow> m = n"
  using dec_digits [of m] dec_digits [of n] by metis

lemma int_text_inj: "int_text i = int_text j \<longleftrightarrow> i = j"
proof -
  have "CHR ''-'' # s \<noteq> dec n" for s n
    using dec_first_digit [of n] not_sign by (metis list.inject)
  then show ?thesis
    unfolding int_text_def by (metis dec_inj eq_nat_nat_iff list.inject neg_equal_iff_equal not_less neg_0_le_iff_le less_imp_le)
qed

lemma split_once_Some: "split_once pat s = Some (a, b) \<Longrightarrow> s = a @ pat @ b"
proof (induction s arbitrary: a)
  case (Cons c cs)
  then show ?case
    by (auto simp: prefix_def split: if_splits)
qed (auto split: if_splits)

lemma rsplit_once_Some:
  "rsplit_once d s = Some (a, b) \<Longrightarrow> s = a @ d # b \<and> d \<notin> set b"
proof (induction s arbitrary: a b)
  case (Cons c cs)
  show ?case
  proof (cases "rsplit_once d cs")
    case None
    moreover from None have "d \<notin> set cs"
      by (induction cs) (auto split: option.splits if_splits)
    ultimately show ?thesis using Cons.prems by (auto split: if_splits)
  next
    case (Some p)
    with Cons show ?thesis by (cases p) auto
  qed
qed simp

lemma rsplit_once_None: "rsplit_once d s = None \<longleftrightarrow> d \<notin> set s"
  by (induction s) (auto split: option.splits)

lemma find_char_Some:
  "find_char p s = Some i \<Longrightarrow> i < length s \<and> p (s ! i) \<and> (\<forall>c\<in>set (take i s). \<not> p c)"
proof (induction s arbitrary: i)
  case (Cons c cs)
  then show ?case by (cases i) (auto split: if_splits)
qed simp

lemma find_char_None: "find_char p s = None \<longleftrightarrow> (\<forall>c\<in>set s. \<not> p c)"
  by (induction s) auto

lemma find_str_Some:
  "find_str pat s = Some i \<Longrightarrow>
     i + length pat \<le> length s \<and> prefix pat (drop i s) \<and> (\<forall>j<i. \<not> prefix pat (drop j s))"
proof (induction s arbitrary: i)
  case (Cons c cs)
  show ?case
  proof (cases "prefix pat (c # cs)")
    case True
    with Cons.prems show ?thesis by (auto dest: prefix_length_le)
  next
    case False
    with Cons obtain k where k: "i = Suc k" "find_str pat cs = Some k" by auto
    with Cons.IH [OF k(2)] False show ?thesis by (auto simp: less_Suc_eq_0_disj)
  qed
qed (auto split: if_splits)

lemma find_str_None: "find_str pat s = None \<longleftrightarrow> \<not> sublist pat s"
  by (induction s) (auto simp: sublist_Cons_right)

lemma split_once_None: "split_once pat s = None \<longleftrightarrow> \<not> sublist pat s"
  by (induction s) (auto simp: sublist_Cons_right)

lemma rfind_char_Some:
  "rfind_char p s = Some i \<Longrightarrow> i < length s \<and> p (s ! i) \<and> (\<forall>c\<in>set (drop (Suc i) s). \<not> p c)"
proof (induction s arbitrary: i)
  case (Cons c cs)
  show ?case
  proof (cases "rfind_char p cs")
    case None
    then have "\<forall>x\<in>set cs. \<not> p x" by (induction cs) (auto split: option.splits if_splits)
    with None Cons.prems show ?thesis by (auto split: if_splits)
  next
    case (Some k)
    with Cons show ?thesis by auto
  qed
qed simp

lemma rfind_char_None: "rfind_char p s = None \<longleftrightarrow> (\<forall>c\<in>set s. \<not> p c)"
  by (induction s) (auto split: option.splits)

section \<open>Lists updated in place\<close>

text \<open>
  \<open>touched f u xs ys\<close>: \<open>ys\<close> is \<open>xs\<close> with some of the elements that satisfy \<open>f\<close> replaced by
  their image under \<open>u\<close>; which ones is left open.
\<close>

definition touched :: "('a \<Rightarrow> bool) \<Rightarrow> ('a \<Rightarrow> 'a) \<Rightarrow> 'a list \<Rightarrow> 'a list \<Rightarrow> bool" where
  "touched f u xs ys \<longleftrightarrow> list_all2 (\<lambda>x y. y = x \<or> f x \<and> y = u x) xs ys"

lemma touched_refl [simp, intro]: "touched f u xs xs"
  by (simp add: touched_def list_all2_refl)

lemma touched_update [intro]: "i < length xs \<Longrightarrow> f (xs ! i) \<Longrightarrow> touched f u xs (xs[i := u (xs ! i)])"
  by (auto simp: touched_def list_all2_conv_all_nth nth_list_update)

lemma touched_map [intro]: "touched f u xs (map (\<lambda>x. if f x then u x else x) xs)"
  by (auto simp: touched_def list_all2_conv_all_nth)

lemma touched_mono:
  "touched f u xs ys \<Longrightarrow> (\<And>x. x \<in> set xs \<Longrightarrow> f x \<Longrightarrow> R x (u x)) \<Longrightarrow>
     list_all2 (\<lambda>x y. y = x \<or> R x y) xs ys"
  unfolding touched_def by (erule list.rel_mono_strong) auto

lemma touched_all:
  "touched f u xs ys \<Longrightarrow> (\<And>x. P x \<Longrightarrow> f x \<Longrightarrow> P (u x)) \<Longrightarrow> \<forall>x\<in>set xs. P x \<Longrightarrow> \<forall>y\<in>set ys. P y"
  unfolding touched_def list_all2_conv_all_nth by (metis in_set_conv_nth)

lemma touched_map_eq:
  "touched f u xs ys \<Longrightarrow> (\<And>x. f x \<Longrightarrow> g (u x) = g x) \<Longrightarrow> map g ys = map g xs"
  unfolding touched_def list_all2_conv_all_nth by (auto intro!: nth_equalityI)

lemma touched_length: "touched f u xs ys \<Longrightarrow> length ys = length xs"
  by (simp add: touched_def list_all2_lengthD)

lemma distinct_key_nth:
  "distinct (map g xs) \<Longrightarrow> i < length xs \<Longrightarrow> j < length xs \<Longrightarrow> g (xs ! i) = g (xs ! j) \<Longrightarrow> i = j"
  by (metis distinct_conv_nth length_map nth_map)

text \<open>A sorted arrangement of elements with distinct keys is unique.\<close>

lemma sorted_by_key_unique:
  fixes k :: "'a \<Rightarrow> 'b::linorder"
  assumes "sorted (map k ds)" "sorted_wrt (<) (map k xs)" "set ds = set xs" "length ds = length xs"
  shows "ds = xs"
proof -
  have str: "sorted (map k xs)" "distinct (map k xs)"
    using assms(2) strict_sorted_iff by blast+
  then have "distinct xs" by (simp add: distinct_map)
  then have "distinct ds" using assms(3,4) by (metis card_distinct distinct_card)
  moreover have inj: "inj_on k (set ds)" using str(2) assms(3) by (simp add: distinct_map)
  ultimately have "distinct (map k ds)" by (simp add: distinct_map)
  then have "map k ds = map k xs"
    using assms(1,3) str by (intro sorted_distinct_set_unique) auto
  then show ?thesis using inj assms(3) by (simp add: inj_on_map_eq_map)
qed

text \<open>
  One element through a sequence of conditional writes, any of which may not have been applied
  to it.
\<close>

fun rewritten :: "(('a \<Rightarrow> bool) \<times> ('a \<Rightarrow> 'a)) list \<Rightarrow> 'a \<Rightarrow> 'a \<Rightarrow> bool" where
  "rewritten [] x y = (y = x)"
| "rewritten ((f, u) # ws) x y = (rewritten ws x y \<or> f x \<and> rewritten ws (u x) y)"

lemma rewritten_refl [simp]: "rewritten ws x x"
  by (induction ws) auto

lemma touched_rewritten: "touched f u xs ys \<Longrightarrow> list_all2 (rewritten [(f, u)]) xs ys"
  unfolding touched_def by (erule list.rel_mono_strong) auto

lemma touched_rewritten_Cons:
  "touched f u xs ys \<Longrightarrow> list_all2 (rewritten ws) ys zs \<Longrightarrow> list_all2 (rewritten ((f, u) # ws)) xs zs"
  unfolding touched_def
proof -
  assume a: "list_all2 (\<lambda>x y. y = x \<or> f x \<and> y = u x) xs ys" and b: "list_all2 (rewritten ws) ys zs"
  show ?thesis by (rule list_all2_trans [OF _ a b]) auto
qed

lemma list_all2_rewritten_refl [simp]: "list_all2 (rewritten ws) xs xs"
  by (simp add: list_all2_refl)

lemma list_all2_map_eq:
  "list_all2 R xs ys \<Longrightarrow> (\<And>x y. R x y \<Longrightarrow> g y = g x) \<Longrightarrow> map g ys = map g xs"
  by (induction rule: list_all2_induct) auto

lemma list_all2_all:
  "list_all2 R xs ys \<Longrightarrow> (\<And>x y. R x y \<Longrightarrow> P x \<Longrightarrow> P y) \<Longrightarrow> \<forall>x\<in>set xs. P x \<Longrightarrow> \<forall>y\<in>set ys. P y"
  by (induction rule: list_all2_induct) auto

lemma list_all2_find:
  "list_all2 R xs ys \<Longrightarrow> (\<And>x y. R x y \<Longrightarrow> g y = g x) \<Longrightarrow>
     rel_option R (find (\<lambda>x. g x = k) xs) (find (\<lambda>x. g x = k) ys)"
  by (induction rule: list_all2_induct) auto

text \<open>The signal-to-noise threshold of a detection (\<open>src/utils/lightcurves.rs\<close>).\<close>

definition SNT :: real where "SNT = 3"

end
