(* ===== verification/Json.thy ===== *)
theory Json
  imports Prelude
begin

text \<open>
  The values the sources inspect: \<open>serde_json::Value\<close> and \<open>bson::Bson\<close>.  An object is the list
  of its entries in iteration order (the lock file builds \<open>serde_json\<close> with \<open>preserve_order\<close>,
  and a BSON document keeps insertion order too).  A number keeps the three representations
  that \<open>serde_json\<close> compares separately: \<open>1\<close> and \<open>1.0\<close> are different values to \<open>==\<close>.  Finite
  floats are taken as the reals they denote.  The BSON variants that the sources only copy are
  one constructor with an arbitrary payload.
\<close>

datatype number = PosInt nat | NegInt int | Float real

datatype json =
    JNull
  | JBool bool
  | JNumber number
  | JString string
  | JArray "json list"
  | JObject "(string \<times> json) list"

datatype 'x bson =
    BString string
  | BDocument "(string \<times> 'x bson) list"
  | BArray "'x bson list"
  | BOther 'x

type_synonym 'x bson_document = "(string \<times> 'x bson) list"

lemma json_induct [case_names null bool number string array object]:
  assumes "P JNull" "\<And>b. P (JBool b)" "\<And>n. P (JNumber n)" "\<And>s. P (JString s)"
    and "\<And>xs. (\<And>x. x \<in> set xs \<Longrightarrow> P x) \<Longrightarrow> P (JArray xs)"
    and "\<And>kvs. (\<And>kv. kv \<in> set kvs \<Longrightarrow> P (snd kv)) \<Longrightarrow> P (JObject kvs)"
  shows "P v"
proof (induction v)
  case (JObject kvs)
  then show ?case
    by (intro assms(6)) (metis prod.collapse snds.intros)
qed (use assms in auto)

text \<open>The accessors of \<open>serde_json::Value\<close>.\<close>

fun jget :: "string \<Rightarrow> json \<Rightarrow> json option" where
  "jget k (JObject kvs) = map_of kvs k"
| "jget k _ = None"

fun as_str :: "json \<Rightarrow> string option" where
  "as_str (JString s) = Some s"
| "as_str _ = None"

fun as_array :: "json \<Rightarrow> json list option" where
  "as_array (JArray xs) = Some xs"
| "as_array _ = None"

fun as_object :: "json \<Rightarrow> (string \<times> json) list option" where
  "as_object (JObject kvs) = Some kvs"
| "as_object _ = None"

text \<open>\<open>Map::insert\<close> on an ordered map: an existing key keeps its place.\<close>

fun obj_insert :: "string \<Rightarrow> 'v \<Rightarrow> (string \<times> 'v) list \<Rightarrow> (string \<times> 'v) list" where
  "obj_insert k v [] = [(k, v)]"
| "obj_insert k v ((k', v') # kvs) = (if k = k' then (k, v) # kvs else (k', v') # obj_insert k v kvs)"

lemma map_of_obj_insert: "map_of (obj_insert k v kvs) = (map_of kvs)(k \<mapsto> v)"
  by (induction k v kvs rule: obj_insert.induct) auto

lemma keys_obj_insert: "set (map fst (obj_insert k v kvs)) = insert k (set (map fst kvs))"
  by (induction k v kvs rule: obj_insert.induct) auto

lemma distinct_obj_insert:
  "distinct (map fst kvs) \<Longrightarrow> distinct (map fst (obj_insert k v kvs))"
proof (induction k v kvs rule: obj_insert.induct)
  case (2 k v k' v' kvs)
  then show ?case using keys_obj_insert [of k v kvs] by auto
qed simp

end
