(* ===== verification/Task_Models.thy ===== *)
theory Task_Models
  imports Json
begin

text \<open>
  The stored shape of a task run (\<open>src/src/tasks/models.rs\<close>): the status enum and its wire
  names, the actor and trigger, the \<open>Task\<close> document, a log chunk with its expiry, and the
  well-formedness of a run that the queue keeps.  Timestamps are the seconds of an \<open>f64\<close>,
  taken as reals; the clock is an argument of every operation that reads it.
\<close>

datatype task_status = Queued | Running | Succeeded | Failed | Canceled

fun status_as_str :: "task_status \<Rightarrow> string" where
  "status_as_str Queued = ''queued''"
| "status_as_str Running = ''running''"
| "status_as_str Succeeded = ''succeeded''"
| "status_as_str Failed = ''failed''"
| "status_as_str Canceled = ''canceled''"

fun is_terminal :: "task_status \<Rightarrow> bool" where
  "is_terminal Succeeded = True"
| "is_terminal Failed = True"
| "is_terminal Canceled = True"
| "is_terminal _ = False"

record actor =
  user_id :: string
  username :: string

definition actor_system :: actor where
  "actor_system = \<lparr>user_id = ''system'', username = ''system''\<rparr>"

datatype trigger = Api | Schedule

record progress =
  prog_done :: u64
  prog_total :: u64
  prog_message :: string

definition default_progress :: progress where
  "default_progress = \<lparr>prog_done = 0, prog_total = 0, prog_message = ''''\<rparr>"

record task =
  tid :: string
  task_type :: string
  params :: json
  status :: task_status
  task_actor :: actor
  task_trigger :: trigger
  requested_at :: real
  started_at :: "real option"
  finished_at :: "real option"
  task_progress :: progress
  worker :: "string option"
  lease_expires_at :: "real option"
  cancel_requested :: bool
  task_error :: "string option"
  attempts :: nat

record task_log_line =
  line_ts :: real
  line_level :: string
  line_message :: string

record task_log_chunk =
  chunk_task_id :: string
  chunk_seq :: u64
  chunk_ts :: real
  expires_at :: int
  chunk_lines :: "task_log_line list"

definition LOG_RETENTION_DAYS :: int where "LOG_RETENTION_DAYS = 90"

definition FAILED_LOG_RETENTION_DAYS :: int where "FAILED_LOG_RETENTION_DAYS = 365"

text \<open>\<open>expires_in_days\<close>: milliseconds since the epoch, from the clock's milliseconds.\<close>

definition expires_in_days :: "int \<Rightarrow> int \<Rightarrow> int" where
  "expires_in_days now_ms days = now_ms + days * 24 * 60 * 60 * 1000"

text \<open>
  What the rest of the system relies on of a stored run: a queued run is nobody's, a running
  run has an owner, a lease and a start, and a finished run holds no lease, so that the reaper
  does not see it.
\<close>

fun task_ok :: "task \<Rightarrow> bool" where
  "task_ok t =
     (case status t of
        Queued \<Rightarrow> worker t = None \<and> lease_expires_at t = None \<and> finished_at t = None
      | Running \<Rightarrow> worker t \<noteq> None \<and> lease_expires_at t \<noteq> None \<and> started_at t \<noteq> None \<and>
                   finished_at t = None \<and> 0 < attempts t
      | _ \<Rightarrow> lease_expires_at t = None \<and> finished_at t \<noteq> None)"

definition tasks_ok :: "task list \<Rightarrow> bool" where
  "tasks_ok ts \<longleftrightarrow> distinct (map tid ts) \<and> (\<forall>t\<in>set ts. task_ok t)"

lemma status_as_str_inj: "status_as_str a = status_as_str b \<longleftrightarrow> a = b"
  by (cases a; cases b) auto

lemma is_terminal_iff: "is_terminal s \<longleftrightarrow> s \<noteq> Queued \<and> s \<noteq> Running"
  by (cases s) auto

lemma expires_mono: "d \<le> d' \<Longrightarrow> expires_in_days n d \<le> expires_in_days n d'"
  by (simp add: expires_in_days_def)

declare task_ok.simps [simp del]

lemma task_ok_Queued:
  "status t = Queued \<Longrightarrow>
     task_ok t \<longleftrightarrow> worker t = None \<and> lease_expires_at t = None \<and> finished_at t = None"
  by (simp add: task_ok.simps)

lemma task_ok_Running:
  "status t = Running \<Longrightarrow>
     task_ok t \<longleftrightarrow> worker t \<noteq> None \<and> lease_expires_at t \<noteq> None \<and> started_at t \<noteq> None \<and>
                   finished_at t = None \<and> 0 < attempts t"
  by (simp add: task_ok.simps)

lemma task_ok_terminal:
  "is_terminal (status t) \<Longrightarrow> task_ok t \<longleftrightarrow> lease_expires_at t = None \<and> finished_at t \<noteq> None"
  by (cases "status t") (simp_all add: task_ok.simps)

lemmas task_ok_iffs = task_ok_Queued task_ok_Running task_ok_terminal

end
