(* ===== verification/Doc_Store.thy ===== *)
theory Doc_Store
  imports Prelude
begin

text \<open>
  The MongoDB driver as a parameter.  The sources call a collection through a handful of
  operations; the driver and the server are not part of this repository, so every model that
  talks to the database takes a \<open>collection\<close> record of those operations and the locale
  \<open>doc_store\<close> states what the sources rely on: an update touches only documents its filter
  matches, \<open>update_one\<close> and \<open>find_one_and_update\<close> touch exactly one when there is one,
  \<open>update_many\<close> touches all of them, a sorted find returns them in order, and the \<open>_id\<close> index
  refuses a duplicate.  Which of several matching documents is taken is left open.  A call that
  reports an error may still have been applied, fully or in part.  \<open>docs\<close> is the abstraction:
  the documents of the collection, in insertion order.
\<close>

datatype mongo_error = MongoError string

fun mongo_text :: "mongo_error \<Rightarrow> string" where
  "mongo_text (MongoError m) = m"

record ('db, 'd) collection =
  docs :: "'db \<Rightarrow> 'd list"
  doc_id :: "'d \<Rightarrow> string option"
  insert_one :: "'d \<Rightarrow> 'db \<Rightarrow> (mongo_error, unit) result \<times> 'db"
  find_docs :: "('d \<Rightarrow> bool) \<Rightarrow> ('d \<Rightarrow> real) option \<Rightarrow> int option \<Rightarrow> 'db \<Rightarrow> (mongo_error, 'd list) result"
  find_one :: "('d \<Rightarrow> bool) \<Rightarrow> ('d \<Rightarrow> real) option \<Rightarrow> 'db \<Rightarrow> (mongo_error, 'd option) result"
  find_one_and_update ::
    "('d \<Rightarrow> bool) \<Rightarrow> ('d \<Rightarrow> 'd) \<Rightarrow> ('d \<Rightarrow> real) option \<Rightarrow> 'db \<Rightarrow> (mongo_error, 'd option) result \<times> 'db"
  update_one :: "('d \<Rightarrow> bool) \<Rightarrow> ('d \<Rightarrow> 'd) \<Rightarrow> 'db \<Rightarrow> (mongo_error, nat) result \<times> 'db"
  update_many :: "('d \<Rightarrow> bool) \<Rightarrow> ('d \<Rightarrow> 'd) \<Rightarrow> 'db \<Rightarrow> (mongo_error, nat) result \<times> 'db"
  delete_many :: "('d \<Rightarrow> bool) \<Rightarrow> 'db \<Rightarrow> (mongo_error, unit) result \<times> 'db"
  delete_one :: "('d \<Rightarrow> bool) \<Rightarrow> 'db \<Rightarrow> (mongo_error, nat) result \<times> 'db"

text \<open>
  The count that \<open>delete_one\<close> returns is its \<open>deleted_count\<close>, the one that \<open>update_one\<close> returns is its \<open>matched_count\<close>, the one of \<open>update_many\<close> its
  \<open>modified_count\<close>.  A sort key orders ascending; a descending sort negates it.
\<close>

definition fresh_id :: "('db, 'd) collection \<Rightarrow> 'd \<Rightarrow> 'd list \<Rightarrow> bool" where
  "fresh_id M d ds \<longleftrightarrow> doc_id M d = None \<or> doc_id M d \<notin> doc_id M ` set ds"

definition one_updated :: "('d \<Rightarrow> bool) \<Rightarrow> ('d \<Rightarrow> 'd) \<Rightarrow> 'd list \<Rightarrow> nat \<Rightarrow> 'd list \<Rightarrow> bool" where
  "one_updated f u ds i ds' \<longleftrightarrow> i < length ds \<and> f (ds ! i) \<and> ds' = ds[i := u (ds ! i)]"

definition one_deleted :: "('d \<Rightarrow> bool) \<Rightarrow> 'd list \<Rightarrow> 'd list \<Rightarrow> bool" where
  "one_deleted f ds ds' \<longleftrightarrow> (\<exists>i<length ds. f (ds ! i) \<and> ds' = take i ds @ drop (Suc i) ds)"

definition least_key :: "('d \<Rightarrow> bool) \<Rightarrow> ('d \<Rightarrow> real) option \<Rightarrow> 'd list \<Rightarrow> 'd \<Rightarrow> bool" where
  "least_key f k ds d \<longleftrightarrow> (case k of None \<Rightarrow> True | Some key \<Rightarrow> \<forall>x\<in>set ds. f x \<longrightarrow> key d \<le> key x)"

definition sorted_by :: "('d \<Rightarrow> real) option \<Rightarrow> 'd list \<Rightarrow> bool" where
  "sorted_by k ds \<longleftrightarrow> (case k of None \<Rightarrow> True | Some key \<Rightarrow> sorted (map key ds))"

definition limited :: "int option \<Rightarrow> 'd list \<Rightarrow> 'd list \<Rightarrow> bool" where
  "limited lmt ds r \<longleftrightarrow> (case lmt of None \<Rightarrow> r = ds | Some n \<Rightarrow> 0 < n \<longrightarrow> r = take (nat n) ds)"

lemma one_deleted_gone: "one_deleted c xs ys \<Longrightarrow> x \<in> set xs \<Longrightarrow> x \<notin> set ys \<Longrightarrow> c x"
proof -
  assume "one_deleted c xs ys" "x \<in> set xs" "x \<notin> set ys"
  then obtain i where i: "i < length xs" "c (xs ! i)" "ys = take i xs @ drop (Suc i) xs"
    by (auto simp: one_deleted_def)
  then have "set xs = insert (xs ! i) (set ys)"
    by (metis Un_insert_right id_take_nth_drop list.simps(15) set_append)
  with i \<open>x \<in> set xs\<close> \<open>x \<notin> set ys\<close> show "c x" by auto
qed

lemma one_deleted_subset: "one_deleted c xs ys \<Longrightarrow> set ys \<subseteq> set xs"
  by (auto simp: one_deleted_def dest: in_set_takeD in_set_dropD)

locale doc_store =
  fixes M :: "('db, 'd) collection"
  assumes insert_law:
    "insert_one M d s = (ri, s') \<Longrightarrow>
       (case ri of Inr _ \<Rightarrow> fresh_id M d (docs M s) \<and> docs M s' = docs M s @ [d]
        | Inl _ \<Rightarrow> docs M s' = docs M s \<or> fresh_id M d (docs M s) \<and> docs M s' = docs M s @ [d])"
  and find_docs_law:
    "find_docs M f k lmt s = Inr rf \<Longrightarrow>
       \<exists>ds. set ds = {d \<in> set (docs M s). f d} \<and> length ds = length (filter f (docs M s)) \<and>
            sorted_by k ds \<and> limited lmt ds rf"
  and find_one_law:
    "find_one M f k s = Inr ro \<Longrightarrow>
       (case ro of None \<Rightarrow> \<forall>d\<in>set (docs M s). \<not> f d
        | Some d \<Rightarrow> d \<in> set (docs M s) \<and> f d \<and> least_key f k (docs M s) d)"
  and find_one_and_update_law:
    "find_one_and_update M f u k s = (ru, s') \<Longrightarrow>
       (case ru of
          Inr None \<Rightarrow> (\<forall>d\<in>set (docs M s). \<not> f d) \<and> docs M s' = docs M s
        | Inr (Some d) \<Rightarrow> \<exists>i. one_updated f u (docs M s) i (docs M s') \<and> d = u (docs M s ! i) \<and>
                            least_key f k (docs M s) (docs M s ! i)
        | Inl _ \<Rightarrow> docs M s' = docs M s \<or> (\<exists>i. one_updated f u (docs M s) i (docs M s')))"
  and update_one_law:
    "update_one M f u s = (rn, s') \<Longrightarrow>
       (case rn of
          Inr n \<Rightarrow> (n = 0 \<and> (\<forall>d\<in>set (docs M s). \<not> f d) \<and> docs M s' = docs M s) \<or>
                   (n = 1 \<and> (\<exists>i. one_updated f u (docs M s) i (docs M s')))
        | Inl _ \<Rightarrow> docs M s' = docs M s \<or> (\<exists>i. one_updated f u (docs M s) i (docs M s')))"
  and update_many_law:
    "update_many M f u s = (rn, s') \<Longrightarrow>
       (case rn of
          Inr n \<Rightarrow> docs M s' = map (\<lambda>d. if f d then u d else d) (docs M s) \<and>
                   n = length (filter (\<lambda>d. f d \<and> u d \<noteq> d) (docs M s))
        | Inl _ \<Rightarrow> touched f u (docs M s) (docs M s'))"
  and delete_many_law:
    "delete_many M f s = (rd, s') \<Longrightarrow>
       (case rd of Inr _ \<Rightarrow> docs M s' = filter (\<lambda>d. \<not> f d) (docs M s)
        | Inl _ \<Rightarrow> \<exists>g. docs M s' = filter (\<lambda>d. \<not> (f d \<and> g d)) (docs M s))"
  and delete_one_law:
    "delete_one M f s = (rc, s') \<Longrightarrow>
       (case rc of
          Inr n \<Rightarrow> n = 0 \<and> (\<forall>d\<in>set (docs M s). \<not> f d) \<and> docs M s' = docs M s \<or>
                   n = 1 \<and> one_deleted f (docs M s) (docs M s')
        | Inl _ \<Rightarrow> docs M s' = docs M s \<or> one_deleted f (docs M s) (docs M s'))"
begin

text \<open>Whatever an update call reports, the documents it left are the old ones, touched.\<close>

lemma one_updated_touched: "one_updated f u ds i ds' \<Longrightarrow> touched f u ds ds'"
  by (auto simp: one_updated_def)

lemma update_one_touched:
  assumes "update_one M f u s = (r, s')"
  shows "touched f u (docs M s) (docs M s')"
  using update_one_law [OF assms] by (auto split: sum.splits dest: one_updated_touched)

lemma find_one_and_update_touched:
  assumes "find_one_and_update M f u k s = (r, s')"
  shows "touched f u (docs M s) (docs M s')"
  using find_one_and_update_law [OF assms]
  by (auto split: sum.splits option.splits dest: one_updated_touched)

lemma update_many_touched:
  assumes "update_many M f u s = (r, s')"
  shows "touched f u (docs M s) (docs M s')"
  using update_many_law [OF assms] by (auto split: sum.splits)

lemma update_one_ok:
  assumes "update_one M f u s = (Inr n, s')"
  shows "n = 0 \<and> (\<forall>d\<in>set (docs M s). \<not> f d) \<and> docs M s' = docs M s \<or>
         n = 1 \<and> (\<exists>i. one_updated f u (docs M s) i (docs M s'))"
  using update_one_law [OF assms] by simp

lemma update_many_ok:
  assumes "update_many M f u s = (Inr n, s')"
  shows "docs M s' = map (\<lambda>d. if f d then u d else d) (docs M s)"
    and "n = length (filter (\<lambda>d. f d \<and> u d \<noteq> d) (docs M s))"
  using update_many_law [OF assms] by simp_all

lemma update_one_no_match:
  assumes "update_one M f u s = (r, s')" "\<forall>d\<in>set (docs M s). \<not> f d"
  shows "docs M s' = docs M s"
  using update_one_law [OF assms(1)] assms(2)
  by (auto simp: one_updated_def split: sum.splits)

end

section \<open>A collection held as a list\<close>

text \<open>
  One store that satisfies the laws, on which the witnesses evaluate: the documents in
  insertion order, calls that never fail, the first match taken.
\<close>

fun update_first :: "('d \<Rightarrow> bool) \<Rightarrow> ('d \<Rightarrow> 'd) \<Rightarrow> 'd list \<Rightarrow> 'd option \<times> 'd list" where
  "update_first f u [] = (None, [])"
| "update_first f u (d # ds) =
     (if f d then (Some (u d), u d # ds)
      else (case update_first f u ds of (r, ds') \<Rightarrow> (r, d # ds')))"

fun delete_first :: "('d \<Rightarrow> bool) \<Rightarrow> 'd list \<Rightarrow> nat \<times> 'd list" where
  "delete_first f [] = (0, [])"
| "delete_first f (d # ds) =
     (if f d then (1, ds) else (case delete_first f ds of (n, ds') \<Rightarrow> (n, d # ds')))"

lemma delete_first_cases:
  "delete_first f ds = (n, ds') \<Longrightarrow>
   n = 0 \<and> (\<forall>d\<in>set ds. \<not> f d) \<and> ds' = ds \<or> n = 1 \<and> one_deleted f ds ds'"
proof (induction ds arbitrary: ds')
  case (Cons d ds)
  show ?case
  proof (cases "f d")
    case True
    with Cons.prems show ?thesis
      by (auto simp: one_deleted_def intro!: exI [of _ 0])
  next
    case False
    with Cons.prems obtain zs where z: "delete_first f ds = (n, zs)" "ds' = d # zs"
      by (auto split: prod.splits)
    from Cons.IH [OF z(1)] show ?thesis
    proof
      assume "n = 1 \<and> one_deleted f ds zs"
      then obtain i where "i < length ds" "f (ds ! i)" "zs = take i ds @ drop (Suc i) ds" "n = 1"
        by (auto simp: one_deleted_def)
      then show ?thesis
        using z(2) by (auto simp: one_deleted_def intro!: exI [of _ "Suc i"])
    qed (use False z in auto)
  qed
qed simp

definition sort_docs :: "('d \<Rightarrow> real) option \<Rightarrow> 'd list \<Rightarrow> 'd list" where
  "sort_docs k ds = (case k of None \<Rightarrow> ds | Some key \<Rightarrow> sort_key key ds)"

definition limit_docs :: "int option \<Rightarrow> 'd list \<Rightarrow> 'd list" where
  "limit_docs lmt ds = (case lmt of None \<Rightarrow> ds | Some n \<Rightarrow> if 0 < n then take (nat n) ds else ds)"

definition first_by :: "('d \<Rightarrow> bool) \<Rightarrow> ('d \<Rightarrow> real) option \<Rightarrow> 'd list \<Rightarrow> ('d \<Rightarrow> bool)" where
  "first_by f k ds = (case k of None \<Rightarrow> f | Some key \<Rightarrow>
     (\<lambda>d. f d \<and> list_all (\<lambda>x. f x \<longrightarrow> key d \<le> key x) ds))"

definition list_coll :: "('d \<Rightarrow> string option) \<Rightarrow> ('d list, 'd) collection" where
  "list_coll idf = \<lparr>
     docs = (\<lambda>s. s),
     doc_id = idf,
     insert_one = (\<lambda>d s. if idf d \<noteq> None \<and> list_ex (\<lambda>x. idf x = idf d) s
                         then (Inl (MongoError ''E11000 duplicate key error''), s)
                         else (Inr (), s @ [d])),
     find_docs = (\<lambda>f k lmt s. Inr (limit_docs lmt (sort_docs k (filter f s)))),
     find_one = (\<lambda>f k s. Inr (find (first_by f k s) s)),
     find_one_and_update = (\<lambda>f u k s. case update_first (first_by f k s) u s of (r, s') \<Rightarrow> (Inr r, s')),
     update_one = (\<lambda>f u s. case update_first f u s of
        (r, s') \<Rightarrow> (Inr (case r of None \<Rightarrow> 0 | Some _ \<Rightarrow> 1), s')),
     update_many = (\<lambda>f u s.
        (Inr (length (filter (\<lambda>d. f d \<and> u d \<noteq> d) s)), map (\<lambda>d. if f d then u d else d) s)),
     delete_many = (\<lambda>f s. (Inr (), filter (\<lambda>d. \<not> f d) s)),
     delete_one = (\<lambda>f s. case delete_first f s of (n, s') \<Rightarrow> (Inr n, s')) \<rparr>"

lemma list_coll_docs: "docs (list_coll idf) s = s"
  by (simp add: list_coll_def)

lemma update_first_None:
  "update_first f u ds = (None, ds') \<Longrightarrow> (\<forall>d\<in>set ds. \<not> f d) \<and> ds' = ds"
  by (induction ds arbitrary: ds') (auto split: if_splits prod.splits)

lemma update_first_Some:
  "update_first f u ds = (Some d, ds') \<Longrightarrow> \<exists>i. one_updated f u ds i ds' \<and> d = u (ds ! i)"
proof (induction ds arbitrary: ds')
  case (Cons x xs)
  show ?case
  proof (cases "f x")
    case True
    with Cons.prems show ?thesis by (intro exI [of _ 0]) (auto simp: one_updated_def)
  next
    case False
    with Cons obtain i zs where "one_updated f u xs i zs" "d = u (xs ! i)" "ds' = x # zs"
      by (auto split: prod.splits)
    then show ?thesis by (intro exI [of _ "Suc i"]) (auto simp: one_updated_def)
  qed
qed simp

lemma first_by_imp: "first_by f k ds d \<Longrightarrow> f d \<and> least_key f k ds d"
  by (auto simp: first_by_def least_key_def list_all_iff split: option.splits)

lemma first_by_ex: "d \<in> set ds \<Longrightarrow> f d \<Longrightarrow> \<exists>m\<in>set ds. first_by f k ds m"
proof (cases k)
  case (Some key)
  assume "d \<in> set ds" "f d"
  let ?S = "{x \<in> set ds. f x}"
  have S: "finite (key ` ?S)" "key ` ?S \<noteq> {}" using \<open>d \<in> set ds\<close> \<open>f d\<close> by auto
  then obtain m where "m \<in> ?S" "key m = Min (key ` ?S)" by (metis (no_types, lifting) Min_in imageE)
  with S Some show ?thesis by (auto simp: first_by_def list_all_iff intro!: bexI [of _ m])
qed (auto simp: first_by_def)

lemma one_updated_mono: "one_updated (first_by f k ds) u ds i ds' \<Longrightarrow> one_updated f u ds i ds' \<and> least_key f k ds (ds ! i)"
  by (auto simp: one_updated_def dest: first_by_imp)

interpretation list_store: doc_store "list_coll idf"
proof (unfold_locales, goal_cases)
  case (1 d s r s')
  then show ?case
    by (auto simp: list_coll_def fresh_id_def list_ex_iff image_iff split: if_splits)
next
  case (2 f k lmt s r)
  then show ?case
    by (intro exI [of _ "sort_docs k (filter f s)"])
       (auto simp: list_coll_def sort_docs_def sorted_by_def limited_def limit_docs_def
             split: option.splits)
next
  case (3 f k s r)
  then show ?case
    using first_by_ex [of _ s f k]
    by (auto simp: list_coll_def find_None_iff find_Some_iff dest: first_by_imp split: option.splits)
next
  case (4 f u k s r s')
  obtain z s1 where z: "update_first (first_by f k s) u s = (z, s1)" by fastforce
  with 4 have rs: "r = Inr z" "s1 = s'" by (auto simp: list_coll_def)
  show ?case
  proof (cases z)
    case None
    with z rs update_first_None first_by_ex [of _ s f k] show ?thesis
      by (fastforce simp: list_coll_def)
  next
    case (Some d)
    with z rs obtain i where "one_updated (first_by f k s) u s i s'" "d = u (s ! i)"
      using update_first_Some by metis
    with Some rs show ?thesis
      by (auto simp: list_coll_def dest: one_updated_mono)
  qed
next
  case (5 f u s r s')
  then show ?case
    by (auto simp: list_coll_def split: prod.splits option.splits
             dest!: update_first_None update_first_Some)
next
  case (6 f u s r s')
  then show ?case by (auto simp: list_coll_def)
next
  case (7 f s r s')
  then show ?case by (auto simp: list_coll_def)
next
  case (8 f s r s')
  then show ?case
    using delete_first_cases [of f s] by (auto simp: list_coll_def split: prod.splits)
qed

end
