(* ===== verification/Task_Ledger.thy ===== *)
theory Task_Ledger
  imports Task_Redact Task_Models Doc_Store
begin

text \<open>
  The append-only record of mutations (\<open>src/src/tasks/ledger.rs\<close>): its entries, the builder that
  masks the details, the append and the history read.  The last part states append-onliness
  over sequences of the ledger's operations.
\<close>

datatype source_kind = SourceTask | SourceMigration | SourcePipeline

datatype operation = Ingest | Backfill | Recompute | DeleteDocs | Index | Drop

record mutation_target =
  target_database :: string
  target_collection :: string
  target_catalog :: "string option"
  target_survey :: "string option"

record 'x mutation_record =
  mutation_id :: string
  mut_source_kind :: source_kind
  source_id :: string
  mut_task_type :: "string option"
  mut_actor :: actor
  mut_trigger :: trigger
  mut_target :: mutation_target
  mut_operation :: operation
  details :: "'x bson_document"
  recorded_at :: real

datatype ledger_error = LedgerError mongo_error

definition record_entry ::
  "('m, 'x mutation_record) collection \<Rightarrow> 'x mutation_record \<Rightarrow> 'm \<Rightarrow> (ledger_error, unit) result \<times> 'm"
where
  "record_entry M entry db = (case insert_one M entry db of (r, db') \<Rightarrow> (map_err LedgerError r, db'))"

text \<open>\<open>for_task\<close>; the fresh id and the clock are arguments.\<close>

definition for_task ::
  "string \<Rightarrow> real \<Rightarrow> string \<Rightarrow> string \<Rightarrow> actor \<Rightarrow> trigger \<Rightarrow> mutation_target \<Rightarrow> operation \<Rightarrow>
     'x bson_document \<Rightarrow> 'x mutation_record" where
  "for_task uuid now task_id ty who trig target op ds =
     \<lparr>mutation_id = uuid, mut_source_kind = SourceTask, source_id = task_id, mut_task_type = Some ty,
      mut_actor = who, mut_trigger = trig, mut_target = target, mut_operation = op,
      details = redact_document ds, recorded_at = now\<rparr>"

definition history ::
  "('m, 'x mutation_record) collection \<Rightarrow> string option \<Rightarrow> int \<Rightarrow> 'm \<Rightarrow>
     (ledger_error, 'x mutation_record list) result" where
  "history M name lmt db =
     map_err LedgerError
       (find_docs M (\<lambda>r. case name of Some n \<Rightarrow> target_collection (mut_target r) = n | None \<Rightarrow> True)
          (Some (\<lambda>r. - recorded_at r)) (Some lmt) db)"

text \<open>An entry is clean when masking its details again changes nothing.\<close>

definition entry_clean :: "'x mutation_record \<Rightarrow> bool" where
  "entry_clean r \<longleftrightarrow> redact_document (details r) = details r"

lemma for_task_clean: "entry_clean (for_task uuid now i ty who trig target op ds)"
  by (simp add: entry_clean_def for_task_def document_mask.idem)

fun record_all ::
  "('m, 'x mutation_record) collection \<Rightarrow> 'x mutation_record list \<Rightarrow> 'm \<Rightarrow> 'm" where
  "record_all M [] db = db"
| "record_all M (e # es) db = record_all M es (snd (record_entry M e db))"

locale ledger_store = doc_store M for M :: "('m, 'x mutation_record) collection"
begin

lemma record_entry_appends:
  assumes "record_entry M e db = (r, db')"
  shows "docs M db' = docs M db \<or> docs M db' = docs M db @ [e]"
    and "r = Inr () \<Longrightarrow> docs M db' = docs M db @ [e]"
  using assms insert_law [of e db] by (auto simp: record_entry_def map_err_def split: prod.splits sum.splits)

lemma record_all_appends: "\<exists>es'. docs M (record_all M es db) = docs M db @ es' \<and> subseq es' es"
proof (induction es arbitrary: db)
  case (Cons e es)
  obtain r db' where rec: "record_entry M e db = (r, db')" by fastforce
  from Cons.IH [of db'] obtain es' where es': "docs M (record_all M es db') = docs M db' @ es'" "subseq es' es"
    by blast
  from record_entry_appends(1) [OF rec] show ?case
  proof
    assume "docs M db' = docs M db"
    with es' rec show ?thesis by (auto intro!: exI [of _ es'])
  next
    assume "docs M db' = docs M db @ [e]"
    with es' rec show ?thesis by (auto intro!: exI [of _ "e # es'"])
  qed
qed (auto intro: exI [of _ "[]"])

end

interpretation list_ledger: ledger_store "list_coll (\<lambda>r. Some (mutation_id r))"
  by unfold_locales

text \<open>
  The ledger is append-only: recording entries, whatever calls to the database fail, keeps
  every earlier entry unchanged and in place, and adds only entries that were recorded, in
  their order; an append that reports success is there.
\<close>

theorem ledger_is_append_only:
  assumes "doc_store M"
  shows "\<exists>es'. docs M (record_all M es db) = docs M db @ es' \<and> subseq es' es \<and>
    (fst (record_entry M e db) = Inr () \<longrightarrow> docs M (snd (record_entry M e db)) = docs M db @ [e])"
  using ledger_store.record_all_appends [OF ledger_store.intro [OF assms]]
    ledger_store.record_entry_appends(2) [OF ledger_store.intro [OF assms]]
  by (metis prod.collapse)

abbreviation list_mutations :: "('x mutation_record list, 'x mutation_record) collection" where
  "list_mutations \<equiv> list_coll (\<lambda>r. Some (mutation_id r))"

definition demo_entry :: "string \<Rightarrow> unit mutation_record" where
  "demo_entry i = for_task i 5 ''run'' ''copy_cutouts'' actor_system Api
     \<lparr>target_database = ''boom'', target_collection = ''ZTF_alerts'', target_catalog = None,
      target_survey = Some ''ZTF''\<rparr> Backfill [(''dst_uri'', BString ''mongodb://u:p@h/db'')]"

theorem ledger_is_append_only_witness:
  "\<exists>es'. docs list_mutations (record_all list_mutations [demo_entry ''a'', demo_entry ''a'', demo_entry ''b''] []) = es' \<and>
     subseq es' [demo_entry ''a'', demo_entry ''a'', demo_entry ''b'']"
  using ledger_is_append_only [OF list_store.doc_store_axioms [where idf = "\<lambda>r. Some (mutation_id r)"],
    where db = "[]" and e = "demo_entry ''a''" and es = "[demo_entry ''a'', demo_entry ''a'', demo_entry ''b'']"]
  by (simp only: list_coll_docs append_Nil) blast

text \<open>
  No password given to the ledger in a URI-named field is ever stored: an entry built for a
  task carries its details masked, so that masking them again changes nothing, keeps the run,
  the actor and the target as given, and keeps the details' keys, order and nesting.
\<close>

theorem ledger_entries_are_masked:
  "entry_clean (for_task uuid now i ty who trig target op ds) \<and>
   uri_strings k (BDocument (details (for_task uuid now i ty who trig target op ds))) =
     redact_uri ` uri_strings k (BDocument ds) \<and>
   shape (BDocument (details (for_task uuid now i ty who trig target op ds))) = shape (BDocument ds) \<and>
   source_id (for_task uuid now i ty who trig target op ds) = i \<and>
   mut_actor (for_task uuid now i ty who trig target op ds) = who \<and>
   mut_target (for_task uuid now i ty who trig target op ds) = target"
proof -
  have doc: "BDocument (redact_document ds) = redact_value k (BDocument ds)"
    by (simp add: redact_document_def)
  show ?thesis
    using for_task_clean uri_strings_redacted [of k "BDocument ds"] shape_redact_value [of k "BDocument ds"]
    unfolding doc [symmetric] by (simp add: for_task_def)
qed

end
