(* ===== verification/Task_Registry.thy ===== *)
theory Task_Registry
  imports Task_Models
begin

text \<open>
  The task registry (\<open>src/src/tasks/mod.rs\<close>): the task types, the table \<open>TASKS\<close>, the retry
  rule, parameter validation, the single-flight key and the dispatch.  The parameter types and
  the bodies of the individual tasks are the fields of a \<open>task_bodies\<close> record: decoding from
  JSON, the type's own validation, and the body, which may return, be cancelled, fail or panic.
\<close>

datatype task_fault =
    ErrFailed string
  | ErrCanceled
  | UnknownType string string
  | InvalidParams string

datatype task_kind =
    CatalogIngest | StreamKowalskiAlerts | CopyCutouts | SsoBaselines
  | MpcorbIngest | EnrichReprocess | PrepareCatalog | ExportCatalog
  | LinkTracks | BackfillDetectionSpan | BackfillHostGalaxy | BackfillHpx
  | BackfillTrackElements | RepairPhotometry | ReprocessCrossmatch | MigrateSnr
  | MigrateFpFlux

definition ALL_TASK_TYPES :: "task_kind list" where
  "ALL_TASK_TYPES = [CatalogIngest, StreamKowalskiAlerts, CopyCutouts, SsoBaselines, MpcorbIngest,
     EnrichReprocess, PrepareCatalog, ExportCatalog, LinkTracks,
     BackfillDetectionSpan, BackfillHostGalaxy, BackfillHpx, BackfillTrackElements,
     RepairPhotometry, ReprocessCrossmatch, MigrateSnr, MigrateFpFlux]"

fun task_type_as_str :: "task_kind \<Rightarrow> string" where
  "task_type_as_str CatalogIngest = ''catalog_ingest''"
| "task_type_as_str StreamKowalskiAlerts = ''stream_kowalski_alerts''"
| "task_type_as_str CopyCutouts = ''copy_cutouts''"
| "task_type_as_str SsoBaselines = ''sso_baselines''"
| "task_type_as_str MpcorbIngest = ''mpcorb_ingest''"
| "task_type_as_str EnrichReprocess = ''enrich_reprocess''"
| "task_type_as_str PrepareCatalog = ''prepare_catalog''"
| "task_type_as_str ExportCatalog = ''export_catalog''"
| "task_type_as_str LinkTracks = ''link_tracks''"
| "task_type_as_str BackfillDetectionSpan = ''backfill_detection_span''"
| "task_type_as_str BackfillHostGalaxy = ''backfill_host_galaxy''"
| "task_type_as_str BackfillHpx = ''backfill_hpx''"
| "task_type_as_str BackfillTrackElements = ''backfill_track_elements''"
| "task_type_as_str RepairPhotometry = ''repair_photometry''"
| "task_type_as_str ReprocessCrossmatch = ''reprocess_crossmatch''"
| "task_type_as_str MigrateSnr = ''migrate_snr''"
| "task_type_as_str MigrateFpFlux = ''migrate_fp_flux''"

record task_spec =
  spec_id :: string
  title :: string
  idempotent :: bool
  destructive :: bool

definition TASKS :: "task_spec list" where
  "TASKS =
    [\<lparr>spec_id = ''catalog_ingest'',
       title = ''Ingest an archival catalog'',
       idempotent = True, destructive = True\<rparr>,
     \<lparr>spec_id = ''backfill_track_elements'',
       title = ''Backfill track orbital elements'',
       idempotent = True, destructive = False\<rparr>,
     \<lparr>spec_id = ''stream_kowalski_alerts'',
       title = ''Back-fill BOOM from a Kowalski deployment'',
       idempotent = True, destructive = False\<rparr>,
     \<lparr>spec_id = ''copy_cutouts'',
       title = ''Copy alert cutouts between deployments'',
       idempotent = True, destructive = False\<rparr>,
     \<lparr>spec_id = ''sso_baselines'',
       title = ''Fit solar system phase-curve baselines'',
       idempotent = True, destructive = False\<rparr>,
     \<lparr>spec_id = ''mpcorb_ingest'',
       title = ''Refresh MPC orbital elements'',
       idempotent = True, destructive = False\<rparr>,
     \<lparr>spec_id = ''enrich_reprocess'',
       title = ''Re-run enrichment over a selection of alerts'',
       idempotent = True, destructive = False\<rparr>,
     \<lparr>spec_id = ''prepare_catalog'',
       title = ''Prepare an imported collection for crossmatching'',
       idempotent = True, destructive = False\<rparr>,
     \<lparr>spec_id = ''export_catalog'',
       title = ''Export a catalog collection to files'',
       idempotent = True, destructive = False\<rparr>,
     \<lparr>spec_id = ''link_tracks'',
       title = ''Link moving-object tracks'',
       idempotent = True, destructive = True\<rparr>,
     \<lparr>spec_id = ''backfill_detection_span'',
       title = ''Backfill the activity span on existing alerts'',
       idempotent = True, destructive = False\<rparr>,
     \<lparr>spec_id = ''backfill_host_galaxy'',
       title = ''Backfill host galaxy associations'',
       idempotent = True, destructive = False\<rparr>,
     \<lparr>spec_id = ''backfill_hpx'',
       title = ''Backfill HEALPix indexes on existing alerts'',
       idempotent = True, destructive = False\<rparr>,
     \<lparr>spec_id = ''repair_photometry'',
       title = ''Repair out-of-order photometry timeseries'',
       idempotent = True, destructive = True\<rparr>,
     \<lparr>spec_id = ''reprocess_crossmatch'',
       title = ''Reprocess crossmatches against archival catalogs'',
       idempotent = True, destructive = False\<rparr>,
     \<lparr>spec_id = ''migrate_snr'',
       title = ''Recompute signal-to-noise for ZTF and LSST'',
       idempotent = True, destructive = False\<rparr>,
     \<lparr>spec_id = ''migrate_fp_flux'',
       title = ''Migrate ZTF forced photometry to a fixed zeropoint'',
       idempotent = True, destructive = False\<rparr>]"

definition find_task :: "string \<Rightarrow> task_spec option" where
  "find_task i = find (\<lambda>t. spec_id t = i) TASKS"

definition is_retryable :: "string \<Rightarrow> bool" where
  "is_retryable ty = (case find_task ty of None \<Rightarrow> False | Some spec \<Rightarrow> idempotent spec)"

definition retryable_task_types :: "string list" where
  "retryable_task_types = map spec_id (filter idempotent TASKS)"

fun join_strings :: "string \<Rightarrow> string list \<Rightarrow> string" where
  "join_strings sep [] = []"
| "join_strings sep [x] = x"
| "join_strings sep (x # y # ys) = x @ sep @ join_strings sep (y # ys)"

definition known_types :: string where
  "known_types = join_strings '', '' (map spec_id TASKS)"

section \<open>Validation and dispatch\<close>

datatype body_outcome = Returned "(task_fault, json) result" | Panicked "string option"

record ('p, 's) task_bodies =
  deserialize :: "task_kind \<Rightarrow> json \<Rightarrow> (string, 'p) result"
  validate :: "task_kind \<Rightarrow> 'p \<Rightarrow> (string, unit) result"
  run_body :: "task_kind \<Rightarrow> 'p \<Rightarrow> 's \<Rightarrow> body_outcome \<times> 's"

definition check_params :: "('p, 's) task_bodies \<Rightarrow> task_kind \<Rightarrow> json \<Rightarrow> (task_fault, unit) result" where
  "check_params B k p =
     and_then (map_err InvalidParams (deserialize B k p))
       (\<lambda>parsed. map_err InvalidParams (validate B k parsed))"

definition validate_params ::
  "('p, 's) task_bodies \<Rightarrow> string \<Rightarrow> json \<Rightarrow> (task_fault, unit) result" where
  "validate_params B ty p =
     (if ty = ''catalog_ingest'' then check_params B CatalogIngest p
      else if ty = ''backfill_track_elements'' then check_params B BackfillTrackElements p
      else if ty = ''stream_kowalski_alerts'' then check_params B StreamKowalskiAlerts p
      else if ty = ''copy_cutouts'' then check_params B CopyCutouts p
      else if ty = ''sso_baselines'' then check_params B SsoBaselines p
      else if ty = ''mpcorb_ingest'' then check_params B MpcorbIngest p
      else if ty = ''enrich_reprocess'' then check_params B EnrichReprocess p
      else if ty = ''prepare_catalog'' then check_params B PrepareCatalog p
      else if ty = ''reprocess_crossmatch'' then check_params B ReprocessCrossmatch p
      else if ty = ''migrate_snr'' then check_params B MigrateSnr p
      else if ty = ''migrate_fp_flux'' then check_params B MigrateFpFlux p
      else if ty = ''export_catalog'' then check_params B ExportCatalog p
      else if ty = ''link_tracks'' then check_params B LinkTracks p
      else if ty = ''backfill_detection_span'' then check_params B BackfillDetectionSpan p
      else if ty = ''backfill_host_galaxy'' then check_params B BackfillHostGalaxy p
      else if ty = ''backfill_hpx'' then check_params B BackfillHpx p
      else if ty = ''repair_photometry'' then check_params B RepairPhotometry p
      else Inl (UnknownType ty known_types))"

definition run_with_params ::
  "('p, 's) task_bodies \<Rightarrow> task_kind \<Rightarrow> json \<Rightarrow> 's \<Rightarrow> body_outcome \<times> 's" where
  "run_with_params B k p s =
     (case deserialize B k p of
        Inl e \<Rightarrow> (Returned (Inl (InvalidParams e)), s)
      | Inr parsed \<Rightarrow> run_body B k parsed s)"

definition dispatch ::
  "('p, 's) task_bodies \<Rightarrow> string \<Rightarrow> json \<Rightarrow> 's \<Rightarrow> body_outcome \<times> 's" where
  "dispatch B ty p s =
     (if ty = ''catalog_ingest'' then run_with_params B CatalogIngest p s
      else if ty = ''backfill_track_elements'' then run_with_params B BackfillTrackElements p s
      else if ty = ''stream_kowalski_alerts'' then run_with_params B StreamKowalskiAlerts p s
      else if ty = ''copy_cutouts'' then run_with_params B CopyCutouts p s
      else if ty = ''export_catalog'' then run_with_params B ExportCatalog p s
      else if ty = ''link_tracks'' then run_with_params B LinkTracks p s
      else if ty = ''backfill_detection_span'' then run_with_params B BackfillDetectionSpan p s
      else if ty = ''backfill_host_galaxy'' then run_with_params B BackfillHostGalaxy p s
      else if ty = ''backfill_hpx'' then run_with_params B BackfillHpx p s
      else if ty = ''repair_photometry'' then run_with_params B RepairPhotometry p s
      else if ty = ''sso_baselines'' then run_with_params B SsoBaselines p s
      else if ty = ''mpcorb_ingest'' then run_with_params B MpcorbIngest p s
      else if ty = ''enrich_reprocess'' then run_with_params B EnrichReprocess p s
      else if ty = ''prepare_catalog'' then run_with_params B PrepareCatalog p s
      else if ty = ''reprocess_crossmatch'' then run_with_params B ReprocessCrossmatch p s
      else if ty = ''migrate_snr'' then run_with_params B MigrateSnr p s
      else if ty = ''migrate_fp_flux'' then run_with_params B MigrateFpFlux p s
      else (Returned (Inl (UnknownType ty known_types)), s))"

section \<open>Single flight\<close>

text \<open>The fields of the key are looked up under \<open>params.\<close>; all of them are strings.\<close>

definition str_field :: "string \<Rightarrow> json \<Rightarrow> string option" where
  "str_field k p = Option.bind (jget k p) as_str"

definition keyed_or_empty :: "string \<Rightarrow> json \<Rightarrow> (string \<times> string) list" where
  "keyed_or_empty k p = (case str_field k p of None \<Rightarrow> [] | Some v \<Rightarrow> [(k, v)])"

definition single_flight_key :: "string \<Rightarrow> json \<Rightarrow> (string \<times> string) list option" where
  "single_flight_key ty p =
     (if ty = ''catalog_ingest'' then map_option (\<lambda>c. [(''catalog'', c)]) (str_field ''catalog'' p)
      else if ty = ''backfill_track_elements'' then Some []
      else if ty = ''migrate_fp_flux'' then Some []
      else if ty = ''stream_kowalski_alerts'' then Some []
      else if ty = ''copy_cutouts'' then
        (case (str_field ''dst_uri'' p, str_field ''survey'' p) of
           (Some dst, Some survey) \<Rightarrow> Some [(''dst_uri'', dst), (''survey'', survey)]
         | _ \<Rightarrow> Some [])
      else if ty = ''sso_baselines'' then Some []
      else if ty = ''mpcorb_ingest'' then Some []
      else if ty = ''enrich_reprocess'' then Some (keyed_or_empty ''survey'' p)
      else if ty = ''prepare_catalog'' then map_option (\<lambda>c. [(''catalog'', c)]) (str_field ''catalog'' p)
      else if ty = ''reprocess_crossmatch'' then Some (keyed_or_empty ''survey'' p)
      else if ty = ''migrate_snr'' then Some []
      else if ty = ''link_tracks'' then Some []
      else if ty = ''export_catalog'' then Some (keyed_or_empty ''collection'' p)
      else if ty = ''backfill_detection_span'' then Some (keyed_or_empty ''survey'' p)
      else if ty = ''backfill_host_galaxy'' then Some (keyed_or_empty ''survey'' p)
      else if ty = ''backfill_hpx'' then Some []
      else if ty = ''repair_photometry'' then Some (keyed_or_empty ''survey'' p)
      else None)"

section \<open>The tables agree\<close>

definition registered :: "string \<Rightarrow> bool" where
  "registered ty \<longleftrightarrow> ty \<in> spec_id ` set TASKS"

lemma spec_ids: "set (map spec_id TASKS) = set (map task_type_as_str ALL_TASK_TYPES)"
  by code_simp

lemma registered_iff: "registered ty \<longleftrightarrow> ty \<in> set (map task_type_as_str ALL_TASK_TYPES)"
  unfolding registered_def spec_ids [symmetric] by simp

lemma find_task_None: "find_task ty = None \<longleftrightarrow> \<not> registered ty"
  by (auto simp: find_task_def registered_def find_None_iff)

lemma all_idempotent: "t \<in> set TASKS \<Longrightarrow> idempotent t"
  by (auto simp: TASKS_def)

lemma is_retryable_iff: "is_retryable ty \<longleftrightarrow> ty \<in> set retryable_task_types"
proof -
  have "idempotent t" if "find_task ty = Some t" for t
    using that by (auto simp: find_task_def find_Some_iff all_idempotent)
  then have "is_retryable ty \<longleftrightarrow> registered ty"
    using find_task_None [of ty] by (auto simp: is_retryable_def split: option.splits)
  then show ?thesis by (auto simp: retryable_task_types_def registered_def all_idempotent)
qed

lemma is_retryable_registered: "is_retryable ty \<longleftrightarrow> registered ty"
  by (auto simp: is_retryable_iff retryable_task_types_def registered_def all_idempotent)

lemma check_params_not_unknown: "check_params B k p \<noteq> Inl (UnknownType a b)"
  by (auto simp: check_params_def map_err_def and_then_def split: sum.splits)

lemma task_type_as_str_inj: "task_type_as_str a = task_type_as_str b \<Longrightarrow> a = b"
  by (cases a; cases b) simp_all

lemma ALL_TASK_TYPES_complete: "k \<in> set ALL_TASK_TYPES"
  by (cases k) (simp_all add: ALL_TASK_TYPES_def)

lemma validate_known: "validate_params B (task_type_as_str k) p = check_params B k p"
  by (cases k) (simp_all add: validate_params_def)

lemma dispatch_known: "dispatch B (task_type_as_str k) p s = run_with_params B k p s"
  by (cases k) (simp_all add: dispatch_def)

lemma validate_unknown: "\<not> registered ty \<Longrightarrow> validate_params B ty p = Inl (UnknownType ty known_types)"
  by (simp add: registered_iff ALL_TASK_TYPES_def validate_params_def)

lemma dispatch_unknown:
  "\<not> registered ty \<Longrightarrow> dispatch B ty p s = (Returned (Inl (UnknownType ty known_types)), s)"
  by (simp add: registered_iff ALL_TASK_TYPES_def dispatch_def)

lemma registered_cases: "registered ty \<Longrightarrow> \<exists>k. ty = task_type_as_str k"
  by (auto simp: registered_iff)

text \<open>
  The registry is consistent: ids are unique and are the names of the enum's variants; an
  unregistered type is refused as unknown by the validation, has no single-flight key, and its
  dispatch leaves the state alone; a registered type names exactly one variant, and validation
  and dispatch resolve it to that same task; and a type may be retried exactly when it is
  registered, every registered one being declared idempotent.
\<close>

theorem registry_consistent:
  "distinct (map spec_id TASKS) \<and>
   set (map spec_id TASKS) = set (map task_type_as_str ALL_TASK_TYPES) \<and>
   ((\<exists>a b. validate_params B ty p = Inl (UnknownType a b)) \<longleftrightarrow> find_task ty = None) \<and>
   (case find_task ty of
      None \<Rightarrow> dispatch B ty p s = (Returned (Inl (UnknownType ty known_types)), s) \<and>
        single_flight_key ty p = None
    | Some spec \<Rightarrow> spec \<in> set TASKS \<and> spec_id spec = ty \<and> (\<exists>!k. ty = task_type_as_str k) \<and>
        (\<exists>k. ty = task_type_as_str k \<and> validate_params B ty p = check_params B k p \<and>
             dispatch B ty p s = run_with_params B k p s)) \<and>
   is_retryable ty = (find_task ty \<noteq> None)"
proof (intro conjI)
  show "distinct (map spec_id TASKS)" by (simp add: TASKS_def)
  show "set (map spec_id TASKS) = set (map task_type_as_str ALL_TASK_TYPES)"
    by (rule spec_ids)
  show "(\<exists>a b. validate_params B ty p = Inl (UnknownType a b)) \<longleftrightarrow> find_task ty = None"
    using registered_cases [of ty] validate_unknown [of ty B p] check_params_not_unknown
    by (metis find_task_None validate_known)
  show "is_retryable ty = (find_task ty \<noteq> None)"
    by (simp add: is_retryable_registered find_task_None)
  show "case find_task ty of
      None \<Rightarrow> dispatch B ty p s = (Returned (Inl (UnknownType ty known_types)), s) \<and>
        single_flight_key ty p = None
    | Some spec \<Rightarrow> spec \<in> set TASKS \<and> spec_id spec = ty \<and> (\<exists>!k. ty = task_type_as_str k) \<and>
        (\<exists>k. ty = task_type_as_str k \<and> validate_params B ty p = check_params B k p \<and>
             dispatch B ty p s = run_with_params B k p s)"
  proof (cases "find_task ty")
    case None
    then have unreg: "\<not> registered ty" by (simp add: find_task_None)
    moreover have "single_flight_key ty p = None"
      using unreg by (simp add: registered_iff ALL_TASK_TYPES_def single_flight_key_def)
    ultimately show ?thesis using None dispatch_unknown by simp
  next
    case (Some spec)
    then have "registered ty" "spec \<in> set TASKS" "spec_id spec = ty"
      by (auto simp: find_task_def registered_def find_Some_iff)
    then obtain k where "ty = task_type_as_str k" using registered_cases by blast
    with Some \<open>spec \<in> set TASKS\<close> \<open>spec_id spec = ty\<close> show ?thesis
      using task_type_as_str_inj validate_known [of B k p] dispatch_known [of B k p s] by auto
  qed
qed

end
