(* ===== verification/Task_Logs.thy ===== *)
theory Task_Logs
  imports Task_Models Doc_Store
begin

text \<open>
  The log copy the admin page tails (\<open>src/src/tasks/logs.rs\<close>): the sink that buffers a run's
  lines and writes them as numbered chunks, the read behind the tail, retention and deletion.
  One sink is one attempt at a run; a resumed run gets a new one, which continues the sequence
  of the stored chunks.  The locks and atomics of the sink order its operations, so a sink is
  a state passed through them: \<open>line\<close> and \<open>flush\<close> are the steps that interleave.  Sequence
  numbers are 64-bit words, as stored.
\<close>

section \<open>The sink\<close>

definition FLUSH_AT_LINES :: nat where "FLUSH_AT_LINES = 50"

definition MAX_LINES_PER_RUN :: u64 where "MAX_LINES_PER_RUN = 100000"

record log_sink =
  sink_db :: bool
  sink_task_id :: string
  buffer :: "task_log_line list"
  seq :: u64
  seq_seeded :: bool
  written :: u64
  truncation_reported :: bool

definition new_sink :: "string \<Rightarrow> log_sink" where
  "new_sink i = \<lparr>sink_db = True, sink_task_id = i, buffer = [], seq = 0, seq_seeded = False,
     written = 0, truncation_reported = False\<rparr>"

definition detached_sink :: log_sink where
  "detached_sink = \<lparr>sink_db = False, sink_task_id = [], buffer = [], seq = 0, seq_seeded = False,
     written = 0, truncation_reported = False\<rparr>"

text \<open>\<open>LogSink::line\<close>; the flag says that a detached flush was spawned.\<close>

definition line :: "real \<Rightarrow> string \<Rightarrow> string \<Rightarrow> log_sink \<Rightarrow> log_sink \<times> bool" where
  "line ts level msg s =
     (if \<not> sink_db s then (s, False)
      else if MAX_LINES_PER_RUN \<le> written s then (s\<lparr>truncation_reported := True\<rparr>, False)
      else
        let buf = buffer s @ [\<lparr>line_ts = ts, line_level = level, line_message = msg\<rparr>]
        in (s\<lparr>buffer := buf\<rparr>, FLUSH_AT_LINES \<le> length buf))"

definition sink_info :: "real \<Rightarrow> string \<Rightarrow> log_sink \<Rightarrow> log_sink \<times> bool" where
  "sink_info ts = line ts ''info''"

definition sink_warn :: "real \<Rightarrow> string \<Rightarrow> log_sink \<Rightarrow> log_sink \<times> bool" where
  "sink_warn ts = line ts ''warn''"

definition sink_error :: "real \<Rightarrow> string \<Rightarrow> log_sink \<Rightarrow> log_sink \<times> bool" where
  "sink_error ts = line ts ''error''"

definition seq_key :: "task_log_chunk \<Rightarrow> real" where
  "seq_key c = real (unat (chunk_seq c))"

definition seed_sequence :: "('l, task_log_chunk) collection \<Rightarrow> 'l \<Rightarrow> log_sink \<Rightarrow> log_sink" where
  "seed_sequence L db s =
     (if seq_seeded s then s
      else
        let s = s\<lparr>seq_seeded := True\<rparr>
        in case find_one L (\<lambda>c. chunk_task_id c = sink_task_id s) (Some (\<lambda>c. - seq_key c)) db of
             Inr (Some c) \<Rightarrow> s\<lparr>seq := chunk_seq c + 1\<rparr>
           | Inr None \<Rightarrow> s
           | Inl e \<Rightarrow> s)"

definition flush ::
  "('l, task_log_chunk) collection \<Rightarrow> real \<Rightarrow> int \<Rightarrow> log_sink \<times> 'l \<Rightarrow> log_sink \<times> 'l" where
  "flush L now now_ms = (\<lambda>(s, db).
     if \<not> sink_db s then (s, db)
     else
       let s = seed_sequence L db s
       in if buffer s = [] then (s, db)
          else
            let count = (of_nat (length (buffer s)) :: u64);
                chunk = \<lparr>chunk_task_id = sink_task_id s, chunk_seq = seq s, chunk_ts = now,
                  expires_at = expires_in_days now_ms LOG_RETENTION_DAYS, chunk_lines = buffer s\<rparr>;
                s = s\<lparr>buffer := [], seq := seq s + 1\<rparr>
            in (case insert_one L chunk db of
                  (Inl e, db') \<Rightarrow> (s, db')
                | (Inr _, db') \<Rightarrow> (s\<lparr>written := written s + count\<rparr>, db')))"

section \<open>Reading, retention, deletion\<close>

text \<open>The cursor is compared as an \<open>i64\<close>, the stored sequence is a non-negative one.\<close>

definition after_filter :: "string \<Rightarrow> u64 option \<Rightarrow> task_log_chunk \<Rightarrow> bool" where
  "after_filter i after_seq c \<longleftrightarrow>
     chunk_task_id c = i \<and>
     (case after_seq of None \<Rightarrow> True | Some q \<Rightarrow> sint q < int (unat (chunk_seq c)))"

lemma after_filter_None: "after_filter i None = (\<lambda>c. chunk_task_id c = i)"
  by (rule ext) (simp add: after_filter_def)

definition read_after ::
  "('l, task_log_chunk) collection \<Rightarrow> 'l \<Rightarrow> string \<Rightarrow> u64 option \<Rightarrow> (mongo_error, task_log_chunk list) result"
where
  "read_after L db i after_seq = find_docs L (after_filter i after_seq) (Some seq_key) None db"

definition extend_retention ::
  "('l, task_log_chunk) collection \<Rightarrow> int \<Rightarrow> string \<Rightarrow> int \<Rightarrow> 'l \<Rightarrow> 'l" where
  "extend_retention L now_ms i days db =
     snd (update_many L (\<lambda>c. chunk_task_id c = i)
            (\<lambda>c. c\<lparr>expires_at := expires_in_days now_ms days\<rparr>) db)"

definition delete_for_run ::
  "('l, task_log_chunk) collection \<Rightarrow> string \<Rightarrow> 'l \<Rightarrow> (mongo_error, unit) result \<times> 'l" where
  "delete_for_run L i db = delete_many L (\<lambda>c. chunk_task_id c = i) db"

section \<open>Histories of a run's log\<close>

text \<open>
  What one run does to its log: lines, flushes in any order between them, and a new attempt,
  whose sink starts fresh.
\<close>

datatype log_op = LogLine real string string | LogFlush real int | LogAttempt

fun log_step ::
  "('l, task_log_chunk) collection \<Rightarrow> log_op \<Rightarrow> log_sink \<times> 'l \<Rightarrow> log_sink \<times> 'l" where
  "log_step L (LogLine ts level msg) (s, db) = (fst (line ts level msg s), db)"
| "log_step L (LogFlush now now_ms) (s, db) = flush L now now_ms (s, db)"
| "log_step L LogAttempt (s, db) = (new_sink (sink_task_id s), db)"

fun log_run ::
  "('l, task_log_chunk) collection \<Rightarrow> log_op list \<Rightarrow> log_sink \<times> 'l \<Rightarrow> log_sink \<times> 'l" where
  "log_run L [] x = x"
| "log_run L (op # ops) x = log_run L ops (log_step L op x)"

definition run_chunks :: "string \<Rightarrow> task_log_chunk list \<Rightarrow> task_log_chunk list" where
  "run_chunks i cs = filter (\<lambda>c. chunk_task_id c = i) cs"

definition run_lines :: "string \<Rightarrow> task_log_chunk list \<Rightarrow> task_log_line list" where
  "run_lines i cs = concat (map chunk_lines (run_chunks i cs))"

text \<open>The stored numbers of a run, in storage order.\<close>

definition run_seqs :: "string \<Rightarrow> task_log_chunk list \<Rightarrow> nat list" where
  "run_seqs i cs = map (\<lambda>c. unat (chunk_seq c)) (run_chunks i cs)"

text \<open>
  A run's log is well numbered below \<open>n\<close>: the chunks are strictly increasing in storage order,
  and a sink that has looked them up stands past all of them.
\<close>

definition log_numbered :: "nat \<Rightarrow> log_sink \<Rightarrow> task_log_chunk list \<Rightarrow> bool" where
  "log_numbered n s cs \<longleftrightarrow>
     sorted_wrt (<) (run_seqs (sink_task_id s) cs) \<and>
     (\<forall>q \<in> set (run_seqs (sink_task_id s) cs). q < n) \<and> unat (seq s) \<le> n \<and>
     (seq_seeded s \<longrightarrow> (\<forall>q \<in> set (run_seqs (sink_task_id s) cs). q < unat (seq s)))"

text \<open>The lines a sink takes: those logged while its budget lasts.\<close>

fun taken :: "('l, task_log_chunk) collection \<Rightarrow> log_op list \<Rightarrow> log_sink \<times> 'l \<Rightarrow> task_log_line list" where
  "taken L [] x = []"
| "taken L (op # ops) x =
     (case op of
        LogLine ts level msg \<Rightarrow>
          if sink_db (fst x) \<and> written (fst x) < MAX_LINES_PER_RUN
          then [\<lparr>line_ts = ts, line_level = level, line_message = msg\<rparr>] else []
      | _ \<Rightarrow> []) @ taken L ops (log_step L op x)"

text \<open>The reads that seed the numbers of an attempt, one at its first flush, succeed; other reads may
  fail.\<close>

definition seed_read :: "('l, task_log_chunk) collection \<Rightarrow> log_sink \<Rightarrow> 'l \<Rightarrow> bool" where
  "seed_read L s db \<longleftrightarrow> sink_db s \<longrightarrow> seq_seeded s \<or>
     \<not> isl (find_one L (\<lambda>c. chunk_task_id c = sink_task_id s) (Some (\<lambda>c. - seq_key c)) db)"

fun seeds_read :: "('l, task_log_chunk) collection \<Rightarrow> log_op list \<Rightarrow> log_sink \<times> 'l \<Rightarrow> bool" where
  "seeds_read L [] x = True"
| "seeds_read L (op # ops) x =
     ((case op of LogFlush _ _ \<Rightarrow> seed_read L (fst x) (snd x) | _ \<Rightarrow> True) \<and> seeds_read L ops (log_step L op x))"

definition inserts_never_fail :: "('db, 'd) collection \<Rightarrow> bool" where
  "inserts_never_fail M \<longleftrightarrow> (\<forall>d db. \<exists>db'. insert_one M d db = (Inr (), db'))"

lemma run_chunks_append [simp]: "run_chunks i (a @ b) = run_chunks i a @ run_chunks i b"
  by (simp add: run_chunks_def)

lemma run_seqs_append [simp]: "run_seqs i (a @ b) = run_seqs i a @ run_seqs i b"
  by (simp add: run_seqs_def)

lemma run_lines_append [simp]: "run_lines i (a @ b) = run_lines i a @ run_lines i b"
  by (simp add: run_lines_def)

lemma seq_key_less: "seq_key c < seq_key d \<longleftrightarrow> unat (chunk_seq c) < unat (chunk_seq d)"
  unfolding seq_key_def by (rule of_nat_less_iff)

lemma seq_key_le: "seq_key c \<le> seq_key d \<longleftrightarrow> unat (chunk_seq c) \<le> unat (chunk_seq d)"
  unfolding seq_key_def by (rule of_nat_le_iff)

lemma line_frame [frame_simps]:
  "sink_task_id (fst (line ts l m s)) = sink_task_id s" "sink_db (fst (line ts l m s)) = sink_db s"
  "seq (fst (line ts l m s)) = seq s" "seq_seeded (fst (line ts l m s)) = seq_seeded s"
  "written (fst (line ts l m s)) = written s"
  by (simp_all add: line_def Let_def)

lemma seed_frame [frame_simps]:
  "sink_task_id (seed_sequence L db s) = sink_task_id s" "sink_db (seed_sequence L db s) = sink_db s"
  "buffer (seed_sequence L db s) = buffer s" "written (seed_sequence L db s) = written s"
  "seq_seeded (seed_sequence L db s)"
  by (simp_all add: seed_sequence_def Let_def split: sum.splits option.splits)

text \<open>What a flush does to the log: nothing, or one chunk at the end.\<close>

definition flush_chunk :: "real \<Rightarrow> int \<Rightarrow> log_sink \<Rightarrow> task_log_chunk" where
  "flush_chunk now now_ms s = \<lparr>chunk_task_id = sink_task_id s, chunk_seq = seq s, chunk_ts = now,
     expires_at = expires_in_days now_ms LOG_RETENTION_DAYS, chunk_lines = buffer s\<rparr>"

lemma flush_cases:
  obtains (detached) "\<not> sink_db s" "flush L now now_ms (s, db) = (s, db)"
  | (idle) "sink_db s" "buffer s = []" "flush L now now_ms (s, db) = (seed_sequence L db s, db)"
  | (failed) e db' where "sink_db s" "buffer s \<noteq> []"
      "insert_one L (flush_chunk now now_ms (seed_sequence L db s)) db = (Inl e, db')"
      "flush L now now_ms (s, db) =
         ((seed_sequence L db s)\<lparr>buffer := [], seq := seq (seed_sequence L db s) + 1\<rparr>, db')"
  | (stored) db' where "sink_db s" "buffer s \<noteq> []"
      "insert_one L (flush_chunk now now_ms (seed_sequence L db s)) db = (Inr (), db')"
      "flush L now now_ms (s, db) =
         ((seed_sequence L db s)\<lparr>buffer := [], seq := seq (seed_sequence L db s) + 1,
            written := written s + of_nat (length (buffer s))\<rparr>, db')"
proof (cases "sink_db s \<and> buffer s \<noteq> []")
  case True
  obtain r db' where ins: "insert_one L (flush_chunk now now_ms (seed_sequence L db s)) db = (r, db')"
    by fastforce
  with True show thesis
    using failed stored
    by (cases r) (simp_all add: flush_def Let_def flush_chunk_def frame_simps)
next
  case False
  then show thesis using detached idle
    by (auto simp: flush_def Let_def frame_simps)
qed

section \<open>What the store promises the log\<close>

locale log_store = doc_store L for L :: "('l, task_log_chunk) collection"
begin

lemma seed_numbered:
  assumes fnf: "seed_read L s db" "sink_db s" and num: "log_numbered n s (docs L db)" and "n < 2 ^ 64"
  shows "log_numbered n (seed_sequence L db s) (docs L db)"
proof (cases "seq_seeded s")
  case True
  with num show ?thesis by (simp add: seed_sequence_def)
next
  case False
  let ?f = "\<lambda>c. chunk_task_id c = sink_task_id s"
  obtain r where r: "find_one L ?f (Some (\<lambda>c. - seq_key c)) db = Inr r"
    using fnf False unfolding seed_read_def by (auto simp: isl_def) (meson Inl_Inr_False sum.exhaust)
  note law = find_one_law [OF r]
  show ?thesis
  proof (cases r)
    case None
    with law have "run_seqs (sink_task_id s) (docs L db) = []"
      by (auto simp: run_seqs_def run_chunks_def filter_empty_conv)
    with num False r None show ?thesis by (simp add: seed_sequence_def log_numbered_def)
  next
    case (Some c)
    with law have c: "c \<in> set (docs L db)" "?f c"
      "\<forall>x\<in>set (docs L db). ?f x \<longrightarrow> unat (chunk_seq x) \<le> unat (chunk_seq c)"
      by (auto simp: least_key_def seq_key_le)
    then have "unat (chunk_seq c) < n"
      using num by (auto simp: log_numbered_def run_seqs_def run_chunks_def)
    with \<open>n < 2 ^ 64\<close> have "unat (chunk_seq c + 1) = Suc (unat (chunk_seq c))"
      by (intro unat_plus_one) simp
    with c num r Some False \<open>unat (chunk_seq c) < n\<close> show ?thesis
      by (auto simp: seed_sequence_def log_numbered_def run_seqs_def run_chunks_def less_Suc_eq_le)
  qed
qed

lemma store_numbered:
  assumes "log_numbered n s ds" "seq_seeded s" "Suc n < 2 ^ 64"
    and "chunk_task_id c = sink_task_id s" "chunk_seq c = seq s"
  shows "log_numbered (Suc n) (s\<lparr>buffer := [], seq := seq s + 1, written := w\<rparr>) (ds @ [c])"
    and "log_numbered (Suc n) (s\<lparr>buffer := [], seq := seq s + 1, written := w\<rparr>) ds"
proof -
  have "unat (seq s) \<le> n" using assms(1) by (simp add: log_numbered_def)
  then have "unat (seq s + 1) = Suc (unat (seq s))"
    using assms(3) by (intro unat_plus_one) simp
  with assms \<open>unat (seq s) \<le> n\<close>
  show "log_numbered (Suc n) (s\<lparr>buffer := [], seq := seq s + 1, written := w\<rparr>) (ds @ [c])"
    "log_numbered (Suc n) (s\<lparr>buffer := [], seq := seq s + 1, written := w\<rparr>) ds"
    by (auto simp: log_numbered_def run_seqs_def run_chunks_def sorted_wrt_append less_Suc_eq)
qed

lemma log_numbered_mono: "log_numbered n s ds \<Longrightarrow> n \<le> m \<Longrightarrow> log_numbered m s ds"
  by (auto simp: log_numbered_def)

lemma log_numbered_buffer [simp]:
  "log_numbered n (s\<lparr>written := w\<rparr>) ds = log_numbered n s ds"
  by (simp add: log_numbered_def)

lemma flush_numbered:
  assumes "seed_read L s db" "log_numbered n s (docs L db)" "Suc n < 2 ^ 64"
    and "flush L now now_ms (s, db) = (s', db')"
  shows "log_numbered (Suc n) s' (docs L db')"
proof (cases "sink_db s")
  case True
  have seed: "log_numbered n (seed_sequence L db s) (docs L db)"
    using seed_numbered [OF assms(1) True assms(2)] assms(3) by simp
  note st = store_numbered [OF seed _ assms(3), where c = "flush_chunk now now_ms (seed_sequence L db s)"]
  show ?thesis
  proof (rule flush_cases [of s L now now_ms db])
    fix e db''
    assume "insert_one L (flush_chunk now now_ms (seed_sequence L db s)) db = (Inl e, db'')"
      "flush L now now_ms (s, db) =
         ((seed_sequence L db s)\<lparr>buffer := [], seq := seq (seed_sequence L db s) + 1\<rparr>, db'')"
    with insert_law [OF this(1)] assms(4) st [where w = "written s"] show ?thesis
      by (auto simp: frame_simps flush_chunk_def log_numbered_def)
  next
    fix db''
    assume "insert_one L (flush_chunk now now_ms (seed_sequence L db s)) db = (Inr (), db'')"
      "flush L now now_ms (s, db) =
         ((seed_sequence L db s)\<lparr>buffer := [], seq := seq (seed_sequence L db s) + 1,
            written := written s + of_nat (length (buffer s))\<rparr>, db'')"
    with insert_law [OF this(1)] assms(4) st(1) [where w = "written s + of_nat (length (buffer s))"]
    show ?thesis by (auto simp: frame_simps flush_chunk_def)
  qed (use assms(2,4) seed log_numbered_mono [of n _ "docs L db" "Suc n"] in auto)
next
  case False
  with assms(2,4) show ?thesis
    by (auto simp: flush_def log_numbered_def less_SucI)
qed

lemma flush_appends:
  assumes "flush L now now_ms (s, db) = (s', db')"
  shows "sink_task_id s' = sink_task_id s \<and> sink_db s' = sink_db s \<and>
    (\<exists>new. docs L db' = docs L db @ new)"
  by (rule flush_cases [of s L now now_ms db])
     (use assms in \<open>auto simp: frame_simps dest!: insert_law\<close>)

lemma log_step_numbered:
  assumes "seeds_read L [op] (s, db)" "log_numbered n s (docs L db)" "Suc n < 2 ^ 64"
    and "log_step L op (s, db) = (s', db')"
  shows "log_numbered (Suc n) s' (docs L db')"
proof (cases op)
  case (LogLine ts level msg)
  with assms(2,4) show ?thesis by (auto simp: log_numbered_def frame_simps less_SucI)
next
  case (LogFlush now now_ms)
  with assms flush_numbered show ?thesis by simp
next
  case LogAttempt
  with assms(2,4) show ?thesis by (auto simp: log_numbered_def new_sink_def less_SucI)
qed

lemma log_step_appends:
  assumes "log_step L op (s, db) = (s', db')"
  shows "sink_task_id s' = sink_task_id s \<and> (\<exists>new. docs L db' = docs L db @ new)"
  using assms flush_appends by (cases op) (auto simp: frame_simps new_sink_def)

lemma log_run_numbered:
  assumes "seeds_read L ops (s, db)" "log_numbered n s (docs L db)" "n + length ops < 2 ^ 64"
    and "log_run L ops (s, db) = (s', db')"
  shows "log_numbered (n + length ops) s' (docs L db') \<and> sink_task_id s' = sink_task_id s \<and>
    (\<exists>new. docs L db' = docs L db @ new)"
  using assms
proof (induction ops arbitrary: n s db)
  case (Cons op ops)
  obtain s1 db1 where st: "log_step L op (s, db) = (s1, db1)" by fastforce
  from log_step_numbered [OF _ Cons.prems(2) _ st] Cons.prems(1,3)
  have "log_numbered (Suc n) s1 (docs L db1)" by simp
  from Cons.IH [OF _ this] Cons.prems(1,3,4) st log_step_appends [OF st] show ?case by auto
qed simp

text \<open>The tail: a sorted read of well-numbered chunks is the chunks themselves.\<close>

lemma read_after_eq:
  assumes "read_after L db i after_seq = Inr r" "sorted_wrt (<) (run_seqs i (docs L db))"
  shows "r = filter (after_filter i after_seq) (docs L db)"
proof -
  let ?xs = "filter (after_filter i after_seq) (docs L db)"
  obtain ds where ds: "set ds = set ?xs" "length ds = length ?xs" "sorted (map seq_key ds)" "r = ds"
    using find_docs_law [of "after_filter i after_seq" "Some seq_key" None db r] assms(1)
    by (auto simp: read_after_def sorted_by_def limited_def)
  have eq: "?xs = filter (\<lambda>c. case after_seq of None \<Rightarrow> True | Some q \<Rightarrow> sint q < int (unat (chunk_seq c)))
      (run_chunks i (docs L db))"
    by (auto simp: run_chunks_def after_filter_def intro!: filter_cong)
  have "sorted_wrt (\<lambda>c d. seq_key c < seq_key d) (run_chunks i (docs L db))"
    using assms(2) by (simp add: run_seqs_def sorted_wrt_map seq_key_less)
  then have "sorted_wrt (<) (map seq_key ?xs)"
    unfolding eq by (simp add: sorted_wrt_map sorted_wrt_filter)
  then show ?thesis using sorted_by_key_unique [of seq_key ds ?xs] ds by simp
qed

lemma log_step_lines:
  assumes "inserts_never_fail L" "sink_db s" "log_step L op (s, db) = (s', db')" "op \<noteq> LogAttempt"
  shows "sink_db s' \<and> sink_task_id s' = sink_task_id s \<and>
    run_lines (sink_task_id s) (docs L db') @ buffer s' =
      run_lines (sink_task_id s) (docs L db) @ buffer s @ taken L [op] (s, db)"
proof (cases op)
  case (LogLine ts level msg)
  with assms show ?thesis by (auto simp: line_def Let_def)
next
  case (LogFlush now now_ms)
  with assms(3) have fl: "flush L now now_ms (s, db) = (s', db')" by simp
  show ?thesis
  proof (rule flush_cases [of s L now now_ms db])
    fix e db''
    assume "insert_one L (flush_chunk now now_ms (seed_sequence L db s)) db = (Inl e, db'')"
    with assms(1) show ?thesis by (metis Inl_Inr_False inserts_never_fail_def prod.inject)
  next
    fix db''
    assume "insert_one L (flush_chunk now now_ms (seed_sequence L db s)) db = (Inr (), db'')"
      "flush L now now_ms (s, db) =
         ((seed_sequence L db s)\<lparr>buffer := [], seq := seq (seed_sequence L db s) + 1,
            written := written s + of_nat (length (buffer s))\<rparr>, db'')"
    with insert_law [OF this(1)] assms(2) fl LogFlush show ?thesis
      by (auto simp: frame_simps flush_chunk_def run_lines_def run_chunks_def)
  qed (use assms(2) fl LogFlush in \<open>auto simp: frame_simps\<close>)
qed (use assms(4) in simp)

lemma log_run_lines:
  assumes "inserts_never_fail L" "sink_db s" "LogAttempt \<notin> set ops" "log_run L ops (s, db) = (s', db')"
  shows "run_lines (sink_task_id s) (docs L db') @ buffer s' =
      run_lines (sink_task_id s) (docs L db) @ buffer s @ taken L ops (s, db)"
  using assms(2-4)
proof (induction ops arbitrary: s db)
  case (Cons op ops)
  obtain s1 db1 where st: "log_step L op (s, db) = (s1, db1)" by fastforce
  from log_step_lines [OF assms(1) Cons.prems(1) st] Cons.prems(2)
  have one: "sink_db s1" "sink_task_id s1 = sink_task_id s"
    "run_lines (sink_task_id s) (docs L db1) @ buffer s1 =
       run_lines (sink_task_id s) (docs L db) @ buffer s @ taken L [op] (s, db)" by auto
  from Cons.IH [OF one(1)] Cons.prems(2,3) st one(2)
  have "run_lines (sink_task_id s) (docs L db') @ buffer s' =
      (run_lines (sink_task_id s) (docs L db1) @ buffer s1) @ taken L ops (s1, db1)" by simp
  also have "\<dots> = run_lines (sink_task_id s) (docs L db) @ buffer s @ taken L (op # ops) (s, db)"
    unfolding one(3) using st by (simp split: log_op.splits)
  finally show ?case .
qed simp

lemma extend_retention_touched:
  "touched (\<lambda>c. chunk_task_id c = i) (\<lambda>c. c\<lparr>expires_at := expires_in_days now_ms days\<rparr>)
     (docs L db) (docs L (extend_retention L now_ms i days db))"
  unfolding extend_retention_def by (rule update_many_touched) (rule prod.collapse [symmetric])

end

interpretation list_logs: log_store "list_coll (\<lambda>_. None)"
  by unfold_locales

section \<open>Properties\<close>

lemma sint_small: "unat (q :: u64) < 2 ^ 63 \<Longrightarrow> sint q = int (unat q)"
proof -
  assume "unat q < 2 ^ 63"
  then have "int (unat q) < 2 ^ 63" by (metis of_nat_less_iff of_nat_numeral of_nat_power)
  then have "uint q < 2 ^ 63" by simp
  then have "signed_take_bit 63 (uint q) = uint q"
    by (intro signed_take_bit_int_eq_self) (use uint_ge_0 [of q] in linarith)+
  then show ?thesis by (simp add: sint_uint)
qed

text \<open>A history on the list store: two lines of one attempt, one of the next.\<close>

definition demo_ops :: "log_op list" where
  "demo_ops = [LogLine 1 ''info'' ''a'', LogLine 2 ''warn'' ''b'', LogFlush 3 3000, LogAttempt,
     LogLine 4 ''info'' ''c'', LogFlush 5 5000]"

definition demo_chunk :: "u64 \<Rightarrow> real \<Rightarrow> int \<Rightarrow> task_log_line list \<Rightarrow> task_log_chunk" where
  "demo_chunk q ts ms ls = \<lparr>chunk_task_id = ''r'', chunk_seq = q, chunk_ts = ts,
     expires_at = ms + 7776000000, chunk_lines = ls\<rparr>"

abbreviation list_log :: "(task_log_chunk list, task_log_chunk) collection" where
  "list_log \<equiv> list_coll (\<lambda>_. None)"

lemma list_log_total: "seeds_read list_log ops x" "inserts_never_fail list_log"
  by (induction ops arbitrary: x) (auto simp: seed_read_def inserts_never_fail_def list_coll_def split: log_op.split)

lemma demo_run:
  "log_run list_log demo_ops (new_sink ''r'', []) =
     ((new_sink ''r'')\<lparr>seq := 2, seq_seeded := True, written := 1\<rparr>,
      [demo_chunk 0 3 3000 [\<lparr>line_ts = 1, line_level = ''info'', line_message = ''a''\<rparr>,
                            \<lparr>line_ts = 2, line_level = ''warn'', line_message = ''b''\<rparr>],
       demo_chunk 1 5 5000 [\<lparr>line_ts = 4, line_level = ''info'', line_message = ''c''\<rparr>]])"
  by (simp add: demo_ops_def demo_chunk_def new_sink_def line_def flush_def seed_sequence_def
      list_coll_def first_by_def MAX_LINES_PER_RUN_def FLUSH_AT_LINES_def expires_in_days_def
      LOG_RETENTION_DAYS_def seq_key_def Let_def)

lemma demo_ops_length: "length demo_ops = 6"
  by (simp add: demo_ops_def)

lemma new_sink_task: "sink_task_id (new_sink i) = i" "sink_db (new_sink i)" "buffer (new_sink i) = []"
  by (simp_all add: new_sink_def)

text \<open>
  A run's chunks are numbered strictly upwards over any history of lines, flushes, failed
  writes and new attempts, as long as the reads that seed an attempt succeed: an attempt
  continues the numbers of the one before, and a chunk is only ever added at the end.
\<close>

theorem log_sequence_survives_attempts:
  assumes "doc_store L" "seeds_read L ops (s, db)" "log_numbered n s (docs L db)" "n + length ops < 2 ^ 64"
    and "log_run L ops (s, db) = (s', db')"
  shows "log_numbered (n + length ops) s' (docs L db') \<and>
    sorted_wrt (<) (run_seqs (sink_task_id s) (docs L db')) \<and> (\<exists>new. docs L db' = docs L db @ new)"
proof -
  note run = log_store.log_run_numbered [OF log_store.intro [OF assms(1)] assms(2-5)]
  then show ?thesis by (metis log_numbered_def)
qed

theorem log_sequence_survives_attempts_witness:
  "sorted_wrt (<) (run_seqs ''r'' (snd (log_run list_log demo_ops (new_sink ''r'', [])))) \<and>
   length (run_seqs ''r'' (snd (log_run list_log demo_ops (new_sink ''r'', [])))) = 2"
proof -
  have "log_numbered 0 (new_sink ''r'') (docs list_log [])"
    by (simp add: log_numbered_def new_sink_def run_seqs_def run_chunks_def list_coll_def)
  from log_sequence_survives_attempts [OF list_store.doc_store_axioms list_log_total(1) this _ surjective_pairing, of demo_ops]
  show ?thesis
    by (simp add: demo_ops_length list_coll_docs new_sink_task demo_run run_seqs_def run_chunks_def demo_chunk_def)
qed

text \<open>
  C20: The admin page's tail never misses a chunk and never sees one twice, as long as each
  attempt succeeds in reading the last stored number before its first chunk, and one attempt
  writes at a time: a client whose cursor is the last chunk it was given receives exactly the
  chunks stored since, in order, across any history of lines, flushes, failed writes and new
  attempts.  Where that read fails the attempt starts again from 0 and a client may miss its
  lines (\<open>failed_seed_hides_lines\<close> below).
\<close>

theorem tail_never_misses:
  assumes "doc_store L" "seeds_read L ops (s, db)" "log_numbered n s (docs L db)" "n + length ops < 2 ^ 63"
    and "log_run L ops (s, db) = (s', db')"
    and "cursor = (if run_chunks (sink_task_id s) (docs L db) = [] then None
                   else Some (chunk_seq (last (run_chunks (sink_task_id s) (docs L db)))))"
    and "read_after L db' (sink_task_id s) cursor = Inr r"
  shows "run_chunks (sink_task_id s) (docs L db') = run_chunks (sink_task_id s) (docs L db) @ r"
proof -
  let ?i = "sink_task_id s"
  have ls: "log_store L" by (rule log_store.intro [OF assms(1)])
  have "n + length ops < 2 ^ 64" using assms(4) by simp
  note run = log_store.log_run_numbered [OF ls assms(2,3) this assms(5)]
  then obtain new where new: "docs L db' = docs L db @ new" by blast
  have num: "sorted_wrt (<) (run_seqs ?i (docs L db'))" "\<forall>q\<in>set (run_seqs ?i (docs L db')). q < 2 ^ 63"
  proof -
    from run have "log_numbered (n + length ops) s' (docs L db')" "sink_task_id s' = sink_task_id s"
      by blast+
    then have "sorted_wrt (<) (run_seqs ?i (docs L db'))"
      "\<forall>q\<in>set (run_seqs ?i (docs L db')). q < n + length ops"
      unfolding log_numbered_def by simp_all
    then show "sorted_wrt (<) (run_seqs ?i (docs L db'))" "\<forall>q\<in>set (run_seqs ?i (docs L db')). q < 2 ^ 63"
      using assms(4) by (blast intro: order.strict_trans)+
  qed
  have r: "r = filter (after_filter ?i cursor) (docs L db')"
    by (rule log_store.read_after_eq [OF ls assms(7) num(1)])
  have split: "sorted_wrt (<) (run_seqs ?i (docs L db))"
    "\<forall>p\<in>set (run_seqs ?i (docs L db)). \<forall>q\<in>set (run_seqs ?i new). p < q"
    using num(1) unfolding new by (simp_all add: sorted_wrt_append)
  show ?thesis
  proof (cases "run_chunks ?i (docs L db) = []")
    case True
    then show ?thesis using assms(6) r by (simp add: after_filter_None run_chunks_def)
  next
    case False
    then obtain old c where oc: "run_chunks ?i (docs L db) = old @ [c]" by (metis append_butlast_last_id)
    with assms(6) have cur: "cursor = Some (chunk_seq c)" by simp
    have c: "unat (chunk_seq c) < 2 ^ 63" using num(2) oc by (simp add: new run_seqs_def)
    have "filter (after_filter ?i cursor) (docs L db) =
        filter (\<lambda>x. unat (chunk_seq c) < unat (chunk_seq x)) (run_chunks ?i (docs L db))"
      unfolding run_chunks_def filter_filter
      by (intro filter_cong) (simp_all add: cur after_filter_def sint_small [OF c] flip: word_less_nat_alt word_less_def)
    also have "\<dots> = []"
      using split(1) oc by (auto simp: run_seqs_def sorted_wrt_append filter_empty_conv)
    finally have "filter (after_filter ?i cursor) (docs L db) = []" .
    moreover have "filter (after_filter ?i cursor) new =
        filter (\<lambda>x. unat (chunk_seq c) < unat (chunk_seq x)) (run_chunks ?i new)"
      unfolding run_chunks_def filter_filter
      by (intro filter_cong) (simp_all add: cur after_filter_def sint_small [OF c] flip: word_less_nat_alt word_less_def)
    moreover have "\<dots> = run_chunks ?i new"
      using split(2) oc by (intro filter_True) (simp add: run_seqs_def)
    ultimately show ?thesis using r new by simp
  qed
qed

theorem tail_never_misses_witness:
  "read_after list_log (snd (log_run list_log (drop 3 demo_ops)
       (log_run list_log (take 3 demo_ops) (new_sink ''r'', [])))) ''r'' (Some 0) =
     Inr [demo_chunk 1 5 5000 [\<lparr>line_ts = 4, line_level = ''info'', line_message = ''c''\<rparr>]]"
proof -
  define s1 where "s1 = (new_sink ''r'')\<lparr>seq := 1, seq_seeded := True, written := 2\<rparr>"
  define c0 where "c0 = demo_chunk 0 3 3000 [\<lparr>line_ts = 1, line_level = ''info'', line_message = ''a''\<rparr>,
                            \<lparr>line_ts = 2, line_level = ''warn'', line_message = ''b''\<rparr>]"
  have one: "log_run list_log (take 3 demo_ops) (new_sink ''r'', []) = (s1, [c0])"
    by (simp add: demo_ops_def demo_chunk_def c0_def s1_def new_sink_def line_def flush_def seed_sequence_def
      list_coll_def MAX_LINES_PER_RUN_def FLUSH_AT_LINES_def expires_in_days_def
      LOG_RETENTION_DAYS_def Let_def)
  have two: "log_run list_log (drop 3 demo_ops) (s1, [c0]) = log_run list_log demo_ops (new_sink ''r'', [])"
    unfolding one [symmetric] by (simp add: demo_ops_def)
  have num: "log_numbered 1 s1 (docs list_log [c0])" and task: "sink_task_id s1 = ''r''"
    by (simp_all add: log_numbered_def s1_def c0_def demo_chunk_def new_sink_def run_seqs_def run_chunks_def list_coll_def)
  obtain r where r: "read_after list_log (snd (log_run list_log demo_ops (new_sink ''r'', []))) ''r'' (Some 0) = Inr r"
    by (simp add: read_after_def list_coll_def)
  have "run_chunks ''r'' (docs list_log (snd (log_run list_log (drop 3 demo_ops) (s1, [c0])))) =
      run_chunks ''r'' (docs list_log [c0]) @ r"
    using tail_never_misses [OF list_store.doc_store_axioms list_log_total(1) num _ surjective_pairing refl, of "drop 3 demo_ops" r]
    using r unfolding two task
    by (simp add: demo_ops_length list_coll_docs run_chunks_def c0_def demo_chunk_def)
  then show ?thesis
    using r unfolding one two by (simp add: demo_run list_coll_docs run_chunks_def demo_chunk_def c0_def)
qed

text \<open>
  The exception: the second attempt of the example, with its seeding read failing, numbers its
  chunk 0 again, and the client that has read the first attempt's never gets it.
\<close>

definition deaf_log :: "(task_log_chunk list, task_log_chunk) collection" where
  "deaf_log = list_log\<lparr>find_one := \<lambda>f k db. Inl (MongoError ''timeout'')\<rparr>"

theorem failed_seed_hides_lines:
  "case log_run deaf_log (drop 3 demo_ops) (log_run list_log (take 3 demo_ops) (new_sink ''r'', [])) of (s, db) \<Rightarrow>
     map chunk_seq db = [0, 0] \<and>
     run_lines ''r'' (drop 1 db) = [\<lparr>line_ts = 4, line_level = ''info'', line_message = ''c''\<rparr>] \<and>
     read_after list_log db ''r'' (Some 0) = Inr []"
  by (simp add: demo_ops_def deaf_log_def new_sink_def line_def flush_def seed_sequence_def read_after_def after_filter_def
      list_coll_def MAX_LINES_PER_RUN_def FLUSH_AT_LINES_def run_lines_def run_chunks_def
      limit_docs_def sort_docs_def Let_def)

text \<open>
  While writes succeed, a sink neither loses, repeats nor reorders a line: what is stored
  of the run followed by what is still buffered is exactly the lines it took, those logged
  before its budget of lines was written.
\<close>

theorem log_lines_kept_in_order:
  assumes "doc_store L" "inserts_never_fail L" "sink_db s" "LogAttempt \<notin> set ops"
    and "log_run L ops (s, db) = (s', db')"
  shows "run_lines (sink_task_id s) (docs L db') @ buffer s' =
      run_lines (sink_task_id s) (docs L db) @ buffer s @ taken L ops (s, db)"
  by (rule log_store.log_run_lines [OF log_store.intro [OF assms(1)] assms(2-5)])

theorem log_lines_kept_in_order_witness:
  "map line_message (run_lines ''r'' (snd (log_run list_log (take 3 demo_ops) (new_sink ''r'', [])))) =
     [''a'', ''b'']"
proof -
  have "LogAttempt \<notin> set (take 3 demo_ops)" by (simp add: demo_ops_def)
  from log_lines_kept_in_order [OF list_store.doc_store_axioms list_log_total(2) new_sink_task(2) this surjective_pairing]
  show ?thesis
    by (simp add: demo_ops_def new_sink_def line_def flush_def seed_sequence_def run_lines_def run_chunks_def
      list_coll_def MAX_LINES_PER_RUN_def FLUSH_AT_LINES_def expires_in_days_def Let_def)
qed

end
