(* ===== verification/Task_Queue.thy ===== *)
theory Task_Queue
  imports Task_Registry Task_Logs
begin

text \<open>
  Claiming, leasing and finishing runs (\<open>src/src/tasks/queue.rs\<close>), on a collection of tasks and
  a collection of log chunks; each operation is the filter and the update it sends, in the
  order it sends them, with the early return at every \<open>?\<close>.  Each reading of the clock is an
  argument of its own.  The second half holds the life cycle of a run as a step relation and
  the proof that every operation refines it.  In the histories an operation is one step: the
  calls of \<open>request_cancel\<close>, which are two updates and a read, and those of \<open>requeue_expired\<close> are not
  interleaved with other operations.  The counters of \<open>report_progress\<close> are cast to \<open>i64\<close> for the
  database, which keeps their 64 bits; the cast is not written out.
\<close>

section \<open>The operations\<close>

definition LEASE_SECONDS :: real where "LEASE_SECONDS = 60"

datatype queue_error = Mongo mongo_error | Serialize string | Deserialize string

definition submit ::
  "('t, task) collection \<Rightarrow> task \<Rightarrow> 't \<Rightarrow> (queue_error, unit) result \<times> 't" where
  "submit T t db = (case insert_one T t db of (r, db') \<Rightarrow> (map_err Mongo r, db'))"

definition claim_update :: "string \<Rightarrow> real \<Rightarrow> real \<Rightarrow> task \<Rightarrow> task" where
  "claim_update w now1 now2 t = t\<lparr>status := Running, started_at := Some now1, worker := Some w,
     lease_expires_at := Some (now2 + LEASE_SECONDS), attempts := attempts t + 1\<rparr>"

definition claim_next ::
  "('t, task) collection \<Rightarrow> string \<Rightarrow> real \<Rightarrow> real \<Rightarrow> 't \<Rightarrow> (queue_error, task option) result \<times> 't"
where
  "claim_next T w now1 now2 db =
     (case find_one_and_update T (\<lambda>t. status t = Queued) (claim_update w now1 now2)
             (Some requested_at) db of
        (r, db') \<Rightarrow> (map_err Mongo r, db'))"

definition owned_by :: "string \<Rightarrow> string \<Rightarrow> task \<Rightarrow> bool" where
  "owned_by i w t \<longleftrightarrow> tid t = i \<and> worker t = Some w \<and> status t = Running"

definition heartbeat ::
  "('t, task) collection \<Rightarrow> string \<Rightarrow> string \<Rightarrow> real \<Rightarrow> 't \<Rightarrow> (queue_error, bool option) result \<times> 't"
where
  "heartbeat T i w now db =
     (case find_one_and_update T (owned_by i w)
             (\<lambda>t. t\<lparr>lease_expires_at := Some (now + LEASE_SECONDS)\<rparr>) None db of
        (r, db') \<Rightarrow>
          (case r of Inl e \<Rightarrow> Inl (Mongo e) | Inr updated \<Rightarrow> Inr (map_option cancel_requested updated), db'))"

definition report_progress ::
  "('t, task) collection \<Rightarrow> string \<Rightarrow> u64 \<Rightarrow> u64 \<Rightarrow> string \<Rightarrow> 't \<Rightarrow> (queue_error, unit) result \<times> 't"
where
  "report_progress T i dn tot msg db =
     (case update_one T (\<lambda>t. tid t = i)
             (\<lambda>t. t\<lparr>task_progress := \<lparr>prog_done = dn, prog_total = tot, prog_message = msg\<rparr>\<rparr>) db of
        (Inl e, db') \<Rightarrow> (Inl (Mongo e), db')
      | (Inr n, db') \<Rightarrow> (Inr (), db'))"

definition finish_update :: "task_status \<Rightarrow> string option \<Rightarrow> real \<Rightarrow> task \<Rightarrow> task" where
  "finish_update st err now t =
     t\<lparr>status := st, finished_at := Some now, task_error := err, lease_expires_at := None\<rparr>"

definition finish ::
  "('t, task) collection \<Rightarrow> string \<Rightarrow> task_status \<Rightarrow> string option \<Rightarrow> real \<Rightarrow> 't \<Rightarrow>
     (queue_error, unit) result \<times> 't" where
  "finish T i st err now db =
     (case update_one T (\<lambda>t. tid t = i) (finish_update st err now) db of
        (Inl e, db') \<Rightarrow> (Inl (Mongo e), db')
      | (Inr n, db') \<Rightarrow> (Inr (), db'))"

definition finish_claimed ::
  "('t, task) collection \<Rightarrow> ('l, task_log_chunk) collection \<Rightarrow> string \<Rightarrow> string \<Rightarrow> task_status \<Rightarrow>
     string option \<Rightarrow> real \<Rightarrow> int \<Rightarrow> 't \<times> 'l \<Rightarrow> (queue_error, bool) result \<times> 't \<times> 'l" where
  "finish_claimed T L i w st err now now_ms = (\<lambda>(ts, ls).
     case update_one T (owned_by i w) (finish_update st err now) ts of
       (Inl e, ts') \<Rightarrow> (Inl (Mongo e), ts', ls)
     | (Inr matched, ts') \<Rightarrow>
         (let ls' = (if st = Failed \<or> st = Canceled
                     then extend_retention L now_ms i FAILED_LOG_RETENTION_DAYS ls else ls)
          in (Inr (matched = 1), ts', ls')))"

definition cancel_queued_update :: "real \<Rightarrow> task \<Rightarrow> task" where
  "cancel_queued_update now t =
     t\<lparr>status := Canceled, finished_at := Some now, task_error := None, lease_expires_at := None\<rparr>"

definition request_cancel ::
  "('t, task) collection \<Rightarrow> string \<Rightarrow> real \<Rightarrow> 't \<Rightarrow> (queue_error, task_status option) result \<times> 't"
where
  "request_cancel T i now db =
     (case update_one T (\<lambda>t. tid t = i \<and> status t = Queued) (cancel_queued_update now) db of
        (Inl e, db1) \<Rightarrow> (Inl (Mongo e), db1)
      | (Inr n, db1) \<Rightarrow>
          if n = 1 then (Inr (Some Canceled), db1)
          else
            (case update_one T (\<lambda>t. tid t = i \<and> status t = Running) (\<lambda>t. t\<lparr>cancel_requested := True\<rparr>) db1 of
               (Inl e, db2) \<Rightarrow> (Inl (Mongo e), db2)
             | (Inr m, db2) \<Rightarrow>
                 if m = 1 then (Inr (Some Running), db2)
                 else
                   (case find_one T (\<lambda>t. tid t = i) None db2 of
                      Inl e \<Rightarrow> (Inl (Mongo e), db2)
                    | Inr r \<Rightarrow> (Inr (map_option status r), db2))))"

record reap_report =
  requeued :: nat
  failed :: nat

definition lease_lapsed :: "real \<Rightarrow> task \<Rightarrow> bool" where
  "lease_lapsed now t \<longleftrightarrow>
     status t = Running \<and> (case lease_expires_at t of None \<Rightarrow> False | Some e \<Rightarrow> e < now)"

definition requeue_update :: "task \<Rightarrow> task" where
  "requeue_update t = t\<lparr>status := Queued, worker := None, lease_expires_at := None\<rparr>"

definition ORPHANED :: string where
  "ORPHANED = ''the worker running this stopped renewing its lease, and this task type is not '' @
     ''declared idempotent, so it was not retried automatically. Check what it had already done '' @
     ''before running it again.''"

definition orphan_update :: "real \<Rightarrow> task \<Rightarrow> task" where
  "orphan_update now t = t\<lparr>status := Failed, finished_at := Some now, task_error := Some ORPHANED,
     worker := None, lease_expires_at := None\<rparr>"

text \<open>
  \<open>requeue_expired\<close>; \<open>now1\<close> and \<open>now2\<close> are the readings of the two filters, \<open>now3\<close> the finishing
  time, and \<open>now_ms i\<close> the reading when the logs of \<open>i\<close> are extended.
\<close>

definition requeue_expired ::
  "('t, task) collection \<Rightarrow> ('l, task_log_chunk) collection \<Rightarrow> real \<Rightarrow> real \<Rightarrow> real \<Rightarrow> (string \<Rightarrow> int) \<Rightarrow>
     't \<times> 'l \<Rightarrow> (queue_error, reap_report) result \<times> 't \<times> 'l" where
  "requeue_expired T L now1 now2 now3 now_ms = (\<lambda>(ts, ls).
     case update_many T (\<lambda>t. lease_lapsed now1 t \<and> task_type t \<in> set retryable_task_types)
            requeue_update ts of
       (Inl e, ts1) \<Rightarrow> (Inl (Mongo e), ts1, ls)
     | (Inr n, ts1) \<Rightarrow>
         (let failing = (\<lambda>t. lease_lapsed now2 t \<and> task_type t \<notin> set retryable_task_types)
          in case find_docs T failing None None ts1 of
               Inl e \<Rightarrow> (Inl (Mongo e), ts1, ls)
             | Inr found \<Rightarrow>
                 (case update_many T failing (orphan_update now3) ts1 of
                    (Inl e, ts2) \<Rightarrow> (Inl (Mongo e), ts2, ls)
                  | (Inr m, ts2) \<Rightarrow>
                      (let ls' = (if 0 < m
                                  then fold (\<lambda>i. extend_retention L (now_ms i) i FAILED_LOG_RETENTION_DAYS)
                                         (map tid found) ls
                                  else ls)
                       in (Inr \<lparr>requeued = n, failed = m\<rparr>, ts2, ls')))))"

definition release ::
  "('t, task) collection \<Rightarrow> string \<Rightarrow> string \<Rightarrow> 't \<Rightarrow> (queue_error, unit) result \<times> 't" where
  "release T i w db =
     (case update_one T (owned_by i w) requeue_update db of
        (Inl e, db') \<Rightarrow> (Inl (Mongo e), db')
      | (Inr n, db') \<Rightarrow> (Inr (), db'))"

definition get_task :: "('t, task) collection \<Rightarrow> string \<Rightarrow> 't \<Rightarrow> (queue_error, task option) result" where
  "get_task T i db = map_err Mongo (find_one T (\<lambda>t. tid t = i) None db)"

definition list_tasks ::
  "('t, task) collection \<Rightarrow> string option \<Rightarrow> int \<Rightarrow> 't \<Rightarrow> (queue_error, task list) result" where
  "list_tasks T ty lmt db =
     map_err Mongo
       (find_docs T (\<lambda>t. case ty of Some k \<Rightarrow> task_type t = k | None \<Rightarrow> True)
          (Some (\<lambda>t. - requested_at t)) (Some lmt) db)"

text \<open>A filter \<open>params.k = v\<close> matches a field that is the string or an array that holds it.\<close>

definition param_matches :: "json \<Rightarrow> string \<times> string \<Rightarrow> bool" where
  "param_matches p = (\<lambda>(k, v). case jget k p of
     None \<Rightarrow> False
   | Some (JArray xs) \<Rightarrow> JString v \<in> set xs
   | Some x \<Rightarrow> x = JString v)"

definition active_match :: "string \<Rightarrow> (string \<times> string) list \<Rightarrow> task \<Rightarrow> bool" where
  "active_match ty key t \<longleftrightarrow> task_type t = ty \<and> (status t = Queued \<or> status t = Running) \<and>
     list_all (param_matches (params t)) key"

definition find_active ::
  "('t, task) collection \<Rightarrow> string \<Rightarrow> (string \<times> string) list \<Rightarrow> 't \<Rightarrow> (queue_error, task option) result"
where
  "find_active T ty key db = map_err Mongo (find_one T (active_match ty key) None db)"

section \<open>Histories of the queue\<close>

datatype queue_op =
    Submit task
  | Claim string real real
  | Heartbeat string string real
  | Progress string u64 u64 string
  | FinishClaimed string string task_status "string option" real int
  | RequestCancel string real
  | Reap real real real "string \<Rightarrow> int"
  | Release string string

fun queue_step ::
  "('t, task) collection \<Rightarrow> ('l, task_log_chunk) collection \<Rightarrow> queue_op \<Rightarrow> 't \<times> 'l \<Rightarrow> 't \<times> 'l" where
  "queue_step T L (Submit t) (ts, ls) = (snd (submit T t ts), ls)"
| "queue_step T L (Claim w now1 now2) (ts, ls) = (snd (claim_next T w now1 now2 ts), ls)"
| "queue_step T L (Heartbeat i w now) (ts, ls) = (snd (heartbeat T i w now ts), ls)"
| "queue_step T L (Progress i dn tot msg) (ts, ls) = (snd (report_progress T i dn tot msg ts), ls)"
| "queue_step T L (FinishClaimed i w st err now now_ms) (ts, ls) =
     snd (finish_claimed T L i w st err now now_ms (ts, ls))"
| "queue_step T L (RequestCancel i now) (ts, ls) = (snd (request_cancel T i now ts), ls)"
| "queue_step T L (Reap now1 now2 now3 now_ms) (ts, ls) =
     snd (requeue_expired T L now1 now2 now3 now_ms (ts, ls))"
| "queue_step T L (Release i w) (ts, ls) = (snd (release T i w ts), ls)"

fun queue_run ::
  "('t, task) collection \<Rightarrow> ('l, task_log_chunk) collection \<Rightarrow> queue_op list \<Rightarrow> 't \<times> 'l \<Rightarrow> 't \<times> 'l" where
  "queue_run T L [] x = x"
| "queue_run T L (op # ops) x = queue_run T L ops (queue_step T L op x)"

text \<open>A fresh run is queued and has not been attempted; a worker finishes with an outcome.\<close>

fun op_ok :: "queue_op \<Rightarrow> bool" where
  "op_ok (Submit t) = (status t = Queued \<and> task_ok t)"
| "op_ok (FinishClaimed i w st err now now_ms) = is_terminal st"
| "op_ok _ = True"

section \<open>The life cycle of a run\<close>

datatype run_state = Waiting | Owned string | Over task_status

datatype who = ByWorker string | ByUser | ByReaper

inductive run_step :: "who \<Rightarrow> run_state \<Rightarrow> run_state \<Rightarrow> bool" where
  claim: "run_step (ByWorker w) Waiting (Owned w)"
| finish: "is_terminal st \<Longrightarrow> run_step (ByWorker w) (Owned w) (Over st)"
| release: "run_step (ByWorker w) (Owned w) Waiting"
| cancel: "run_step ByUser Waiting (Over Canceled)"
| requeue: "run_step ByReaper (Owned w) Waiting"
| orphan: "run_step ByReaper (Owned w) (Over Failed)"

inductive_simps run_step_simps [simp]:
  "run_step p Waiting r" "run_step p (Owned w) r" "run_step p (Over st) r"

fun run_state_of :: "task \<Rightarrow> run_state" where
  "run_state_of t =
     (case status t of
        Queued \<Rightarrow> Waiting
      | Running \<Rightarrow> Owned (case worker t of Some w \<Rightarrow> w | None \<Rightarrow> [])
      | st \<Rightarrow> Over st)"

declare run_state_of.simps [simp del]

fun op_by :: "queue_op \<Rightarrow> who" where
  "op_by (Claim w now1 now2) = ByWorker w"
| "op_by (Heartbeat i w now) = ByWorker w"
| "op_by (FinishClaimed i w st err now now_ms) = ByWorker w"
| "op_by (Release i w) = ByWorker w"
| "op_by (Reap now1 now2 now3 now_ms) = ByReaper"
| "op_by (Submit t) = ByUser"
| "op_by (RequestCancel i now) = ByUser"
| "op_by (Progress i dn tot msg) = ByUser"

section \<open>What each operation writes\<close>

fun op_writes :: "queue_op \<Rightarrow> ((task \<Rightarrow> bool) \<times> (task \<Rightarrow> task)) list" where
  "op_writes (Submit t) = []"
| "op_writes (Claim w now1 now2) = [(\<lambda>t. status t = Queued, claim_update w now1 now2)]"
| "op_writes (Heartbeat i w now) =
     [(owned_by i w, \<lambda>t. t\<lparr>lease_expires_at := Some (now + LEASE_SECONDS)\<rparr>)]"
| "op_writes (Progress i dn tot msg) =
     [(\<lambda>t. tid t = i, \<lambda>t. t\<lparr>task_progress := \<lparr>prog_done = dn, prog_total = tot, prog_message = msg\<rparr>\<rparr>)]"
| "op_writes (FinishClaimed i w st err now now_ms) = [(owned_by i w, finish_update st err now)]"
| "op_writes (RequestCancel i now) =
     [(\<lambda>t. tid t = i \<and> status t = Queued, cancel_queued_update now),
      (\<lambda>t. tid t = i \<and> status t = Running, \<lambda>t. t\<lparr>cancel_requested := True\<rparr>)]"
| "op_writes (Reap now1 now2 now3 now_ms) =
     [(\<lambda>t. lease_lapsed now1 t \<and> task_type t \<in> set retryable_task_types, requeue_update),
      (\<lambda>t. lease_lapsed now2 t \<and> task_type t \<notin> set retryable_task_types, orphan_update now3)]"
| "op_writes (Release i w) = [(owned_by i w, requeue_update)]"

lemmas write_defs = claim_update_def finish_update_def cancel_queued_update_def requeue_update_def
  orphan_update_def owned_by_def lease_lapsed_def

lemma rewritten_frame:
  assumes "rewritten (op_writes op) t t'"
  shows "tid t' = tid t \<and> task_type t' = task_type t \<and> params t' = params t \<and>
         task_actor t' = task_actor t \<and> requested_at t' = requested_at t \<and>
         task_trigger t' = task_trigger t \<and> attempts t \<le> attempts t'"
  using assms by (cases op) (auto simp: write_defs)

lemma rewritten_ok:
  assumes "rewritten (op_writes op) t t'" "op_ok op" "task_ok t"
  shows "task_ok t'"
  using assms by (cases op) (auto simp: write_defs task_ok.simps split: task_status.splits)

lemma rewritten_lifecycle:
  assumes "rewritten (op_writes op) t t'" "op_ok op" "task_ok t"
  shows "run_state_of t' = run_state_of t \<or> run_step (op_by op) (run_state_of t) (run_state_of t')"
  using assms
  by (cases op) (auto simp: write_defs run_state_of.simps task_ok.simps split: task_status.splits)

lemma rewritten_terminal:
  assumes "rewritten (op_writes op) t t'" "is_terminal (status t)"
  shows "\<exists>p. t' = t\<lparr>task_progress := p\<rparr>"
proof -
  have "\<exists>p. t = t\<lparr>task_progress := p\<rparr>" by (intro exI [of _ "task_progress t"]) simp
  then show ?thesis
    using assms by (cases op) (auto simp: is_terminal_iff write_defs)
qed

definition task_at :: "string \<Rightarrow> task list \<Rightarrow> task option" where
  "task_at i ds = find (\<lambda>t. tid t = i) ds"

lemma task_at_Some: "task_at i ds = Some t \<Longrightarrow> t \<in> set ds \<and> tid t = i"
  by (auto simp: task_at_def find_Some_iff)

lemma task_at_unique: "distinct (map tid ds) \<Longrightarrow> t \<in> set ds \<Longrightarrow> task_at (tid t) ds = Some t"
  unfolding task_at_def by (induction ds) (auto simp: image_iff)

lemma task_at_append: "task_at i ds = Some t \<Longrightarrow> task_at i (ds @ es) = Some t"
  by (induction ds) (auto simp: task_at_def)

lemma task_at_None: "task_at i ds = None \<longleftrightarrow> i \<notin> tid ` set ds"
  by (auto simp: task_at_def find_None_iff)

locale task_queue = doc_store T for T :: "('t, task) collection" +
  assumes doc_id_tid: "doc_id T t = Some (tid t)"
begin

lemma submit_docs:
  assumes "submit T t ts = (r, ts')"
  shows "docs T ts' = docs T ts \<or> docs T ts' = docs T ts @ [t] \<and> tid t \<notin> tid ` set (docs T ts)"
    and "r = Inr () \<Longrightarrow> docs T ts' = docs T ts @ [t] \<and> tid t \<notin> tid ` set (docs T ts)"
  using assms insert_law [of t ts]
  by (auto simp: submit_def fresh_id_def doc_id_tid image_iff map_err_def split: prod.splits sum.splits)

lemma claim_touched:
  assumes "claim_next T w now1 now2 ts = (r, ts')"
  shows "touched (\<lambda>t. status t = Queued) (claim_update w now1 now2) (docs T ts) (docs T ts')"
  using assms find_one_and_update_touched by (auto simp: claim_next_def split: prod.splits)

lemma heartbeat_touched:
  assumes "heartbeat T i w now ts = (r, ts')"
  shows "touched (owned_by i w) (\<lambda>t. t\<lparr>lease_expires_at := Some (now + LEASE_SECONDS)\<rparr>) (docs T ts) (docs T ts')"
  using assms find_one_and_update_touched by (auto simp: heartbeat_def split: prod.splits)

lemma progress_touched:
  assumes "report_progress T i dn tot msg ts = (r, ts')"
  shows "touched (\<lambda>t. tid t = i)
    (\<lambda>t. t\<lparr>task_progress := \<lparr>prog_done = dn, prog_total = tot, prog_message = msg\<rparr>\<rparr>) (docs T ts) (docs T ts')"
  using assms update_one_touched by (auto simp: report_progress_def split: prod.splits sum.splits)

lemma finish_claimed_touched:
  assumes "finish_claimed T L i w st err now now_ms (ts, ls) = (r, ts', ls')"
  shows "touched (owned_by i w) (finish_update st err now) (docs T ts) (docs T ts')"
  using assms update_one_touched by (auto simp: finish_claimed_def Let_def split: prod.splits sum.splits)

lemma release_touched:
  assumes "release T i w ts = (r, ts')"
  shows "touched (owned_by i w) requeue_update (docs T ts) (docs T ts')"
  using assms update_one_touched by (auto simp: release_def split: prod.splits sum.splits)

lemma cancel_rewritten:
  assumes "request_cancel T i now ts = (r, ts')"
  shows "list_all2 (rewritten (op_writes (RequestCancel i now))) (docs T ts) (docs T ts')"
proof -
  obtain n ts1 where one: "update_one T (\<lambda>t. tid t = i \<and> status t = Queued) (cancel_queued_update now) ts = (n, ts1)"
    by fastforce
  obtain m ts2 where two: "update_one T (\<lambda>t. tid t = i \<and> status t = Running) (\<lambda>t. t\<lparr>cancel_requested := True\<rparr>) ts1 = (m, ts2)"
    by fastforce
  have "ts' = ts1 \<or> ts' = ts2"
    using assms by (auto simp: request_cancel_def one two split: sum.splits if_splits)
  then have "list_all2 (rewritten [(\<lambda>t. tid t = i \<and> status t = Running, \<lambda>t. t\<lparr>cancel_requested := True\<rparr>)])
      (docs T ts1) (docs T ts')"
    using touched_rewritten [OF update_one_touched [OF two]] list_all2_rewritten_refl by auto
  from touched_rewritten_Cons [OF update_one_touched [OF one] this] show ?thesis by simp
qed

lemma reap_rewritten:
  assumes "requeue_expired T L now1 now2 now3 now_ms (ts, ls) = (r, ts', ls')"
  shows "list_all2 (rewritten (op_writes (Reap now1 now2 now3 now_ms))) (docs T ts) (docs T ts')"
proof -
  let ?f = "\<lambda>t. lease_lapsed now2 t \<and> task_type t \<notin> set retryable_task_types"
  obtain n ts1 where one: "update_many T (\<lambda>t. lease_lapsed now1 t \<and> task_type t \<in> set retryable_task_types)
      requeue_update ts = (n, ts1)" by fastforce
  obtain m ts2 where two: "update_many T ?f (orphan_update now3) ts1 = (m, ts2)" by fastforce
  have "ts' = ts1 \<or> ts' = ts2"
    using assms by (auto simp: requeue_expired_def one two Let_def split: sum.splits)
  then have "list_all2 (rewritten [(?f, orphan_update now3)]) (docs T ts1) (docs T ts')"
    using touched_rewritten [OF update_many_touched [OF two]] list_all2_rewritten_refl by auto
  from touched_rewritten_Cons [OF update_many_touched [OF one] this] show ?thesis by simp
qed

text \<open>Every operation: conditional writes to the stored runs, and at most one new run.\<close>

lemma queue_step_docs:
  assumes "queue_step T L op (ts, ls) = (ts', ls')"
  obtains mid new where "list_all2 (rewritten (op_writes op)) (docs T ts) mid" "docs T ts' = mid @ new"
    and "new = [] \<or> (\<exists>t. op = Submit t \<and> new = [t] \<and> tid t \<notin> tid ` set (docs T ts))"
proof (cases op)
  case (Submit t)
  with assms submit_docs(1) [of t ts] that [of "docs T ts" "[]"] that [of "docs T ts" "[t]"] show thesis
    by (metis append_Nil2 list_all2_rewritten_refl prod.inject prod.collapse queue_step.simps(1))
next
  case (RequestCancel i now)
  with assms cancel_rewritten [of i now ts] that [of "docs T ts'" "[]"] show thesis
    by (metis append_Nil2 prod.inject prod.collapse queue_step.simps(6))
next
  case (Reap now1 now2 now3 now_ms)
  with assms reap_rewritten [of L now1 now2 now3 now_ms ts ls] that [of "docs T ts'" "[]"] show thesis
    by (metis append_Nil2 prod.collapse queue_step.simps(7))
next
  case (Claim w now1 now2)
  with assms touched_rewritten [OF claim_touched [of w now1 now2 ts]] that [of "docs T ts'" "[]"] show thesis
    by (metis append_Nil2 op_writes.simps(2) prod.inject prod.collapse queue_step.simps(2))
next
  case (Heartbeat i w now)
  with assms touched_rewritten [OF heartbeat_touched [of i w now ts]] that [of "docs T ts'" "[]"] show thesis
    by (metis append_Nil2 op_writes.simps(3) prod.inject prod.collapse queue_step.simps(3))
next
  case (Progress i dn tot msg)
  with assms touched_rewritten [OF progress_touched [of i dn tot msg ts]] that [of "docs T ts'" "[]"] show thesis
    by (metis append_Nil2 op_writes.simps(4) prod.inject prod.collapse queue_step.simps(4))
next
  case (FinishClaimed i w st err now now_ms)
  with assms touched_rewritten [OF finish_claimed_touched [of L i w st err now now_ms ts ls]]
    that [of "docs T ts'" "[]"] show thesis
    by (metis append_Nil2 op_writes.simps(5) prod.collapse queue_step.simps(5))
next
  case (Release i w)
  with assms touched_rewritten [OF release_touched [of i w ts]] that [of "docs T ts'" "[]"] show thesis
    by (metis append_Nil2 op_writes.simps(8) prod.inject prod.collapse queue_step.simps(8))
qed

lemma queue_step_ok:
  assumes "queue_step T L op (ts, ls) = (ts', ls')" "op_ok op" "tasks_ok (docs T ts)"
  shows "tasks_ok (docs T ts')"
proof -
  obtain mid new where st: "list_all2 (rewritten (op_writes op)) (docs T ts) mid" "docs T ts' = mid @ new"
    "new = [] \<or> (\<exists>t. op = Submit t \<and> new = [t] \<and> tid t \<notin> tid ` set (docs T ts))"
    using queue_step_docs [OF assms(1)] by blast
  have ids: "map tid mid = map tid (docs T ts)"
    by (rule list_all2_map_eq [OF st(1)]) (simp add: rewritten_frame)
  have "\<forall>t\<in>set mid. task_ok t"
    by (rule list_all2_all [OF st(1)]) (use rewritten_ok assms(2,3) in \<open>auto simp: tasks_ok_def\<close>)
  moreover have "tid ` set mid = tid ` set (docs T ts)" using ids by (metis set_map)
  ultimately show ?thesis
    using st(2,3) assms(2,3) ids by (auto simp: tasks_ok_def) (metis image_eqI)
qed

lemma queue_run_ok:
  assumes "queue_run T L ops (ts, ls) = (ts', ls')" "list_all op_ok ops" "tasks_ok (docs T ts)"
  shows "tasks_ok (docs T ts')"
  using assms
proof (induction ops arbitrary: ts ls)
  case (Cons op ops)
  obtain ts1 ls1 where st: "queue_step T L op (ts, ls) = (ts1, ls1)" by fastforce
  with Cons queue_step_ok [OF st] show ?case by simp
qed simp

text \<open>One run, followed by its id through a step and a history.\<close>

lemma queue_step_task_at:
  assumes "queue_step T L op (ts, ls) = (ts', ls')" "task_at i (docs T ts) = Some t"
  shows "\<exists>t'. task_at i (docs T ts') = Some t' \<and> rewritten (op_writes op) t t'"
proof -
  obtain mid new where st: "list_all2 (rewritten (op_writes op)) (docs T ts) mid" "docs T ts' = mid @ new"
    using queue_step_docs [OF assms(1)] by blast
  have "rel_option (rewritten (op_writes op)) (task_at i (docs T ts)) (task_at i mid)"
    unfolding task_at_def by (rule list_all2_find [OF st(1)]) (simp add: rewritten_frame)
  then obtain t' where "task_at i mid = Some t'" "rewritten (op_writes op) t t'"
    using assms(2) by (auto simp: option_rel_Some1)
  then show ?thesis using st(2) by (auto simp: task_at_append)
qed

lemma queue_run_task_at:
  assumes "queue_run T L ops (ts, ls) = (ts', ls')" "task_at i (docs T ts) = Some t" "P t"
    and "\<And>op t t'. op \<in> set ops \<Longrightarrow> rewritten (op_writes op) t t' \<Longrightarrow> P t \<Longrightarrow> P t'"
  shows "\<exists>t'. task_at i (docs T ts') = Some t' \<and> P t'"
  using assms
proof (induction ops arbitrary: ts ls t)
  case (Cons op ops)
  obtain ts1 ls1 where st: "queue_step T L op (ts, ls) = (ts1, ls1)" by fastforce
  from queue_step_task_at [OF st Cons.prems(2)] obtain t1
    where t1: "task_at i (docs T ts1) = Some t1" "rewritten (op_writes op) t t1" by blast
  with Cons.prems(3,4) have "P t1" by (meson list.set_intros(1))
  moreover have "queue_run T L ops (ts1, ls1) = (ts', ls')" using Cons.prems(1) st by simp
  ultimately show ?case using Cons.IH [OF _ t1(1)] Cons.prems(4) by (meson list.set_intros(2))
qed simp

end

interpretation list_tasks: task_queue "list_coll (\<lambda>t. Some (tid t))"
  by unfold_locales (simp add: list_coll_def)

section \<open>Operations on one run by its id\<close>

lemma task_at_update:
  "distinct (map tid ds) \<Longrightarrow> k < length ds \<Longrightarrow> tid v = tid (ds ! k) \<Longrightarrow>
     task_at j (ds[k := v]) = (if j = tid (ds ! k) then Some v else task_at j ds)"
proof (induction ds arbitrary: k)
  case (Cons d ds)
  show ?case
  proof (cases k)
    case (Suc m)
    have "tid (ds ! m) \<in> tid ` set ds" using Suc Cons.prems(2) by simp
    then have "tid (ds ! m) \<noteq> tid d" using Cons.prems(1) by (metis distinct.simps(2) list.simps(9) set_map)
    with Cons Suc show ?thesis by (auto simp: task_at_def)
  qed (use Cons.prems in \<open>auto simp: task_at_def\<close>)
qed simp

lemma one_updated_at:
  assumes "one_updated f u ds k ds'" "distinct (map tid ds)" "\<And>x. f x \<Longrightarrow> tid x = i" "\<And>x. tid (u x) = tid x"
  shows "task_at i ds = Some (ds ! k) \<and> f (ds ! k) \<and> task_at i ds' = Some (u (ds ! k)) \<and>
    (\<forall>j. j \<noteq> i \<longrightarrow> task_at j ds' = task_at j ds)"
proof -
  from assms(1) have k: "k < length ds" "f (ds ! k)" "ds' = ds[k := u (ds ! k)]" by (auto simp: one_updated_def)
  then have "task_at (tid (ds ! k)) ds = Some (ds ! k)" by (intro task_at_unique assms(2)) simp
  moreover have "tid (ds ! k) = i" using k(2) assms(3) by blast
  ultimately show ?thesis
    using task_at_update [OF assms(2) k(1), of "u (ds ! k)"] k assms(4) by simp
qed

text \<open>
  The effect on the runs of a write aimed at one id: applied if the run is there and the guard
  holds, nothing otherwise.
\<close>

definition written_at ::
  "string \<Rightarrow> (task \<Rightarrow> bool) \<Rightarrow> (task \<Rightarrow> task) \<Rightarrow> task list \<Rightarrow> bool \<Rightarrow> task list \<Rightarrow> bool" where
  "written_at i f u ds hit ds' \<longleftrightarrow>
     hit = (case task_at i ds of Some t \<Rightarrow> f t | None \<Rightarrow> False) \<and>
     (if hit then task_at i ds' = map_option u (task_at i ds) \<and> (\<forall>j. j \<noteq> i \<longrightarrow> task_at j ds' = task_at j ds)
      else ds' = ds)"

definition updates_never_fail :: "('db, 'd) collection \<Rightarrow> bool" where
  "updates_never_fail M \<longleftrightarrow>
     (\<forall>f u k db. \<exists>r db'. find_one_and_update M f u k db = (Inr r, db')) \<and>
     (\<forall>f u db. \<exists>n db'. update_one M f u db = (Inr n, db'))"

context task_queue
begin

lemma update_by_id:
  assumes "update_one T f u ts = (Inr n, ts')" "distinct (map tid (docs T ts))"
    and "\<And>x. f x \<Longrightarrow> tid x = i" "\<And>x. tid (u x) = tid x"
  shows "written_at i f u (docs T ts) (n = 1) (docs T ts') \<and> (n = 0 \<or> n = 1)"
  using update_one_ok [OF assms(1)]
proof (elim disjE conjE exE)
  assume "n = 0" "\<forall>d\<in>set (docs T ts). \<not> f d" "docs T ts' = docs T ts"
  then show ?thesis by (auto simp: written_at_def dest!: task_at_Some split: option.splits)
next
  fix k assume "n = 1" "one_updated f u (docs T ts) k (docs T ts')"
  with one_updated_at [OF this(2) assms(2-4)] show ?thesis by (simp add: written_at_def)
qed

lemma find_and_update_by_id:
  assumes "find_one_and_update T f u k ts = (Inr r, ts')" "distinct (map tid (docs T ts))"
    and "\<And>x. f x \<Longrightarrow> tid x = i" "\<And>x. tid (u x) = tid x"
  shows "written_at i f u (docs T ts) (r \<noteq> None) (docs T ts') \<and> (r \<noteq> None \<longrightarrow> r = task_at i (docs T ts'))"
proof (cases r)
  case None
  with find_one_and_update_law [OF assms(1)] show ?thesis
    by (auto simp: written_at_def dest!: task_at_Some split: option.splits)
next
  case (Some d)
  with find_one_and_update_law [OF assms(1)] obtain m
    where "one_updated f u (docs T ts) m (docs T ts')" "d = u (docs T ts ! m)" by auto
  with one_updated_at [OF this(1) assms(2-4)] Some show ?thesis by (simp add: written_at_def)
qed

lemma claim_result:
  assumes "claim_next T w now1 now2 ts = (Inr r, ts')"
  shows "case r of
      None \<Rightarrow> (\<forall>t\<in>set (docs T ts). status t \<noteq> Queued) \<and> docs T ts' = docs T ts
    | Some t' \<Rightarrow> \<exists>k. one_updated (\<lambda>t. status t = Queued) (claim_update w now1 now2) (docs T ts) k (docs T ts') \<and>
        t' = claim_update w now1 now2 (docs T ts ! k) \<and>
        (\<forall>t\<in>set (docs T ts). status t = Queued \<longrightarrow> requested_at (docs T ts ! k) \<le> requested_at t)"
proof -
  have "find_one_and_update T (\<lambda>t. status t = Queued) (claim_update w now1 now2) (Some requested_at) ts = (Inr r, ts')"
    using assms by (auto simp: claim_next_def map_err_Inr split: prod.splits)
  from find_one_and_update_law [OF this] show ?thesis
    by (auto simp: least_key_def split: option.splits)
qed

lemma heartbeat_result:
  assumes "heartbeat T i w now ts = (Inr r, ts')" "distinct (map tid (docs T ts))"
  shows "written_at i (owned_by i w) (\<lambda>t. t\<lparr>lease_expires_at := Some (now + LEASE_SECONDS)\<rparr>)
           (docs T ts) (r \<noteq> None) (docs T ts') \<and>
         (r \<noteq> None \<longrightarrow> r = map_option cancel_requested (task_at i (docs T ts)))"
proof -
  obtain u where u: "find_one_and_update T (owned_by i w)
      (\<lambda>t. t\<lparr>lease_expires_at := Some (now + LEASE_SECONDS)\<rparr>) None ts = (Inr u, ts')"
    "r = map_option cancel_requested u"
    using assms(1) by (auto simp: heartbeat_def split: prod.splits sum.splits)
  have "written_at i (owned_by i w) (\<lambda>t. t\<lparr>lease_expires_at := Some (now + LEASE_SECONDS)\<rparr>)
      (docs T ts) (u \<noteq> None) (docs T ts') \<and> (u \<noteq> None \<longrightarrow> u = task_at i (docs T ts'))"
    by (rule find_and_update_by_id [OF u(1) assms(2)]) (simp_all add: owned_by_def)
  then show ?thesis unfolding u(2)
    by (auto simp: written_at_def split: option.splits if_splits)
qed

lemma finish_claimed_result:
  assumes "finish_claimed T L i w st err now now_ms (ts, ls) = (Inr ok, ts', ls')" "distinct (map tid (docs T ts))"
  shows "written_at i (owned_by i w) (finish_update st err now) (docs T ts) ok (docs T ts') \<and>
    ls' = (if st = Failed \<or> st = Canceled then extend_retention L now_ms i FAILED_LOG_RETENTION_DAYS ls else ls)"
proof -
  obtain n where n: "update_one T (owned_by i w) (finish_update st err now) ts = (Inr n, ts')" "ok = (n = 1)"
    "ls' = (if st = Failed \<or> st = Canceled then extend_retention L now_ms i FAILED_LOG_RETENTION_DAYS ls else ls)"
    using assms(1) by (auto simp: finish_claimed_def Let_def split: prod.splits sum.splits)
  have "written_at i (owned_by i w) (finish_update st err now) (docs T ts) (n = 1) (docs T ts') \<and> (n = 0 \<or> n = 1)"
    by (rule update_by_id [OF n(1) assms(2)]) (simp_all add: owned_by_def finish_update_def)
  with n(2,3) show ?thesis by simp
qed

lemma release_result:
  assumes "release T i w ts = (Inr (), ts')" "distinct (map tid (docs T ts))"
  shows "\<exists>hit. written_at i (owned_by i w) requeue_update (docs T ts) hit (docs T ts')"
proof -
  obtain n where n: "update_one T (owned_by i w) requeue_update ts = (Inr n, ts')"
    using assms(1) by (auto simp: release_def split: prod.splits sum.splits)
  have "written_at i (owned_by i w) requeue_update (docs T ts) (n = 1) (docs T ts') \<and> (n = 0 \<or> n = 1)"
    by (rule update_by_id [OF n assms(2)]) (simp_all add: owned_by_def requeue_update_def)
  then show ?thesis by blast
qed

lemma get_task_result:
  assumes "get_task T i ts = Inr r" "distinct (map tid (docs T ts))"
  shows "r = task_at i (docs T ts)"
proof -
  from assms(1) have "find_one T (\<lambda>t. tid t = i) None ts = Inr r" by (simp add: get_task_def map_err_Inr)
  note law = find_one_law [OF this]
  show ?thesis
  proof (cases r)
    case None
    with law show ?thesis by (auto simp: task_at_def find_None_iff intro!: sym [of "find _ _"])
  next
    case (Some t)
    with law show ?thesis using task_at_unique [OF assms(2), of t] by simp
  qed
qed

lemma cancel_result:
  assumes "request_cancel T i now ts = (Inr r, ts')" "distinct (map tid (docs T ts))"
  shows "(case task_at i (docs T ts) of
        None \<Rightarrow> r = None \<and> docs T ts' = docs T ts
      | Some t \<Rightarrow>
          (case status t of
             Queued \<Rightarrow> r = Some Canceled \<and> task_at i (docs T ts') = Some (cancel_queued_update now t)
           | Running \<Rightarrow> r = Some Running \<and> task_at i (docs T ts') = Some (t\<lparr>cancel_requested := True\<rparr>)
           | st \<Rightarrow> r = Some st \<and> docs T ts' = docs T ts)) \<and>
     (\<forall>j. j \<noteq> i \<longrightarrow> task_at j (docs T ts') = task_at j (docs T ts))"
proof -
  let ?q = "\<lambda>t. tid t = i \<and> status t = Queued" and ?r = "\<lambda>t. tid t = i \<and> status t = Running"
  obtain n ts1 where one: "update_one T ?q (cancel_queued_update now) ts = (Inr n, ts1)"
    using assms(1) by (auto simp: request_cancel_def split: prod.splits sum.splits)
  have w1: "written_at i ?q (cancel_queued_update now) (docs T ts) (n = 1) (docs T ts1) \<and> (n = 0 \<or> n = 1)"
    by (rule update_by_id [OF one assms(2)]) (simp_all add: cancel_queued_update_def)
  show ?thesis
  proof (cases "n = 1")
    case True
    with assms(1) one w1 show ?thesis
      by (auto simp: request_cancel_def written_at_def split: option.splits)
  next
    case False
    with w1 have same: "docs T ts1 = docs T ts" by (simp add: written_at_def)
    obtain m ts2 where two: "update_one T ?r (\<lambda>t. t\<lparr>cancel_requested := True\<rparr>) ts1 = (Inr m, ts2)"
      using assms(1) one False by (auto simp: request_cancel_def split: prod.splits sum.splits)
    have "written_at i ?r (\<lambda>t. t\<lparr>cancel_requested := True\<rparr>) (docs T ts1) (m = 1) (docs T ts2) \<and> (m = 0 \<or> m = 1)"
      by (rule update_by_id [OF two]) (simp_all add: same assms(2))
    then have w2: "written_at i ?r (\<lambda>t. t\<lparr>cancel_requested := True\<rparr>) (docs T ts) (m = 1) (docs T ts2)"
      by (simp add: same)
    show ?thesis
    proof (cases "m = 1")
      case True
      with assms(1) one two \<open>n \<noteq> 1\<close> w2 show ?thesis
        by (auto simp: request_cancel_def written_at_def split: option.splits)
    next
      case False
      with w2 have same2: "docs T ts2 = docs T ts" by (simp add: written_at_def)
      obtain d where d: "find_one T (\<lambda>t. tid t = i) None ts2 = Inr d" "r = map_option status d" "ts' = ts2"
        using assms(1) one two \<open>n \<noteq> 1\<close> False by (auto simp: request_cancel_def split: sum.splits)
      have "get_task T i ts2 = Inr d" using d(1) by (simp add: get_task_def)
      then have "d = task_at i (docs T ts)" using get_task_result [of i ts2 d] same2 assms(2) by simp
      with d(2,3) w1 w2 \<open>n \<noteq> 1\<close> False same2 show ?thesis
        by (auto simp: written_at_def dest: task_at_Some split: option.splits task_status.splits)
    qed
  qed
qed

end

section \<open>The sweep\<close>

definition requeueable :: "real \<Rightarrow> task \<Rightarrow> bool" where
  "requeueable now t \<longleftrightarrow> lease_lapsed now t \<and> is_retryable (task_type t)"

definition orphaned :: "real \<Rightarrow> task \<Rightarrow> bool" where
  "orphaned now t \<longleftrightarrow> lease_lapsed now t \<and> \<not> is_retryable (task_type t)"

text \<open>What the sweep does to one run.\<close>

definition reaped :: "real \<Rightarrow> real \<Rightarrow> real \<Rightarrow> task \<Rightarrow> task" where
  "reaped now1 now2 now3 t =
     (if requeueable now1 t then requeue_update t
      else if orphaned now2 t then orphan_update now3 t else t)"

context task_queue
begin

lemma reap_result:
  assumes "requeue_expired T L now1 now2 now3 now_ms (ts, ls) = (Inr rep, ts', ls')"
  shows "docs T ts' = map (reaped now1 now2 now3) (docs T ts)"
    and "requeued rep = length (filter (requeueable now1) (docs T ts))"
    and "failed rep = length (filter (orphaned now2) (docs T ts))"
    and "\<exists>found. set found = tid ` {t \<in> set (docs T ts). orphaned now2 t} \<and>
           ls' = (if 0 < failed rep
                  then fold (\<lambda>i. extend_retention L (now_ms i) i FAILED_LOG_RETENTION_DAYS) found ls else ls)"
proof -
  have sets: "(\<lambda>t. lease_lapsed n t \<and> task_type t \<in> set retryable_task_types) = requeueable n"
    "(\<lambda>t. lease_lapsed n t \<and> task_type t \<notin> set retryable_task_types) = orphaned n" for n
    by (auto simp: requeueable_def orphaned_def is_retryable_iff fun_eq_iff)
  obtain n ts1 where one: "update_many T (requeueable now1) requeue_update ts = (Inr n, ts1)"
    using assms by (auto simp: requeue_expired_def sets split: prod.splits sum.splits)
  obtain found where fd: "find_docs T (orphaned now2) None None ts1 = Inr found"
    using assms one by (auto simp: requeue_expired_def sets Let_def split: prod.splits sum.splits)
  obtain m where two: "update_many T (orphaned now2) (orphan_update now3) ts1 = (Inr m, ts')"
    and rep: "rep = \<lparr>requeued = n, failed = m\<rparr>"
    and ls': "ls' = (if 0 < m then fold (\<lambda>i. extend_retention L (now_ms i) i FAILED_LOG_RETENTION_DAYS)
                        (map tid found) ls else ls)"
    using assms one fd
    by (auto simp: requeue_expired_def sets Let_def split: prod.splits sum.splits)
  note u1 = update_many_ok [OF one] and u2 = update_many_ok [OF two]
  have req: "requeue_update t \<noteq> t" "\<not> orphaned now2 (requeue_update t)" if "requeueable now1 t" for t
    using that by (auto simp: requeueable_def orphaned_def write_defs dest!: arg_cong [of _ t status])
  have orp: "orphan_update now3 t \<noteq> t" "\<not> requeueable now1 t" if "orphaned now2 t" for t
    using that by (auto simp: requeueable_def orphaned_def write_defs dest!: arg_cong [of _ t status])
  show docs': "docs T ts' = map (reaped now1 now2 now3) (docs T ts)"
    using req by (auto simp: u1(1) u2(1) reaped_def)
  show "requeued rep = length (filter (requeueable now1) (docs T ts))"
    using req(1) by (auto simp: rep u1(2) intro!: arg_cong [where f = length] filter_cong)
  have "filter (orphaned now2) (map (\<lambda>d. if requeueable now1 d then requeue_update d else d) ds) =
      filter (orphaned now2) ds" for ds
    using req(2) orp(2) by (induction ds) auto
  then have flt: "filter (orphaned now2) (docs T ts1) = filter (orphaned now2) (docs T ts)"
    unfolding u1(1) .
  have "failed rep = length (filter (orphaned now2) (docs T ts1))"
    using orp(1) by (auto simp: rep u2(2) intro!: arg_cong [where f = length] filter_cong)
  then show "failed rep = length (filter (orphaned now2) (docs T ts))" by (simp add: flt)
  from find_docs_law [OF fd] have "set found = {t \<in> set (docs T ts1). orphaned now2 t}"
    by (auto simp: limited_def)
  also have "\<dots> = {t \<in> set (docs T ts). orphaned now2 t}" using flt by (metis set_filter)
  finally show "\<exists>found. set found = tid ` {t \<in> set (docs T ts). orphaned now2 t} \<and>
      ls' = (if 0 < failed rep
             then fold (\<lambda>i. extend_retention L (now_ms i) i FAILED_LOG_RETENTION_DAYS) found ls else ls)"
    using ls' rep by (intro exI [of _ "map tid found"]) simp
qed

end

section \<open>Ownership over histories\<close>

fun hands_over :: "string \<Rightarrow> string \<Rightarrow> queue_op \<Rightarrow> bool" where
  "hands_over i w (Release j v) = (j = i \<and> v = w)"
| "hands_over i w (Reap now1 now2 now3 now_ms) = True"
| "hands_over i w _ = False"

text \<open>
  No step of the history lets the lease go: sweeps read the clock before it ends, heartbeats
  renew it, and its owner does not release it.
\<close>

fun lease_kept :: "string \<Rightarrow> string \<Rightarrow> real \<Rightarrow> queue_op list \<Rightarrow> bool" where
  "lease_kept i w e [] = True"
| "lease_kept i w e (op # ops) =
     (case op of
        Heartbeat j v now \<Rightarrow> lease_kept i w (if j = i \<and> v = w then now + LEASE_SECONDS else e) ops
      | Reap now1 now2 now3 now_ms \<Rightarrow> now1 \<le> e \<and> now2 \<le> e \<and> lease_kept i w e ops
      | Release j v \<Rightarrow> \<not> (j = i \<and> v = w) \<and> lease_kept i w e ops
      | _ \<Rightarrow> lease_kept i w e ops)"

definition kept_by :: "string \<Rightarrow> string \<Rightarrow> nat \<Rightarrow> task \<Rightarrow> bool" where
  "kept_by i w a t \<longleftrightarrow> tid t = i \<and> attempts t = a \<and> (owned_by i w t \<or> is_terminal (status t))"

lemma kept_by_step:
  assumes "rewritten (op_writes op) t t'" "op_ok op" "\<not> hands_over i w op" "kept_by i w a t"
  shows "kept_by i w a t'"
  using assms by (cases op) (auto simp: kept_by_def write_defs)

lemma kept_by_lease:
  assumes "rewritten (op_writes op) t t'" "op_ok op" "kept_by i w a t"
    and "owned_by i w t \<Longrightarrow> lease_expires_at t = Some e" "lease_kept i w e (op # ops)"
    and "\<And>j v n. op = Heartbeat j v n \<Longrightarrow> \<not> (j = i \<and> v = w)"
  shows "kept_by i w a t' \<and> (owned_by i w t' \<longrightarrow> lease_expires_at t' = Some e) \<and> lease_kept i w e ops"
  using assms by (cases op) (auto simp: kept_by_def write_defs)

context task_queue
begin

lemma keeps_run:
  assumes "queue_run T L ops (ts, ls) = (ts', ls')" "list_all op_ok ops"
    and "task_at i (docs T ts) = Some t" "kept_by i w a t" "\<forall>op\<in>set ops. \<not> hands_over i w op"
  shows "\<exists>t'. task_at i (docs T ts') = Some t' \<and> kept_by i w a t'"
  by (rule queue_run_task_at [where P = "kept_by i w a", OF assms(1,3,4)])
     (use kept_by_step assms(2,5) in \<open>metis (full_types) list_all_iff\<close>)

lemma heartbeat_renews:
  assumes "updates_never_fail T" "queue_step T L (Heartbeat i w now) (ts, ls) = (ts', ls')"
    and "distinct (map tid (docs T ts))" "task_at i (docs T ts) = Some t" "owned_by i w t"
  shows "task_at i (docs T ts') = Some (t\<lparr>lease_expires_at := Some (now + LEASE_SECONDS)\<rparr>)"
proof -
  obtain r ts1 where r: "heartbeat T i w now ts = (Inr r, ts1)"
    using assms(1) unfolding updates_never_fail_def heartbeat_def by (metis (mono_tags) case_prod_conv sum.case(2))
  moreover have "ts1 = ts'" using assms(2) r by simp
  ultimately have "written_at i (owned_by i w) (\<lambda>t. t\<lparr>lease_expires_at := Some (now + LEASE_SECONDS)\<rparr>)
      (docs T ts) (r \<noteq> None) (docs T ts')"
    using heartbeat_result [of i w now ts r ts1] assms(3) by simp
  with assms(4,5) show ?thesis by (simp add: written_at_def)
qed

lemma lease_protects:
  assumes "updates_never_fail T" "queue_run T L ops (ts, ls) = (ts', ls')" "list_all op_ok ops"
    and "tasks_ok (docs T ts)" "task_at i (docs T ts) = Some t" "kept_by i w a t"
    and "owned_by i w t \<Longrightarrow> lease_expires_at t = Some e" "lease_kept i w e ops"
  shows "\<exists>t'. task_at i (docs T ts') = Some t' \<and> kept_by i w a t'"
  using assms(2-)
proof (induction ops arbitrary: ts ls t e)
  case (Cons op ops)
  obtain ts1 ls1 where st: "queue_step T L op (ts, ls) = (ts1, ls1)" by fastforce
  with Cons.prems have run: "queue_run T L ops (ts1, ls1) = (ts', ls')" "op_ok op" "list_all op_ok ops" by simp_all
  have ok: "tasks_ok (docs T ts1)" using queue_step_ok [OF st run(2) Cons.prems(3)] .
  from queue_step_task_at [OF st Cons.prems(4)] obtain t1
    where t1: "task_at i (docs T ts1) = Some t1" "rewritten (op_writes op) t t1" by blast
  show ?case
  proof (cases "\<exists>now. op = Heartbeat i w now")
    case True
    then obtain now where op: "op = Heartbeat i w now" by blast
    have "kept_by i w a t1" using kept_by_step [OF t1(2) run(2) _ Cons.prems(5)] op by simp
    moreover have "lease_expires_at t1 = Some (now + LEASE_SECONDS)" if "owned_by i w t1"
    proof -
      have "owned_by i w t"
        using Cons.prems(5) t1(2) op that by (auto simp: kept_by_def write_defs)
      with heartbeat_renews [OF assms(1) st [unfolded op] _ Cons.prems(4)] Cons.prems(3) t1(1)
      show ?thesis by (simp add: tasks_ok_def)
    qed
    moreover have "lease_kept i w (now + LEASE_SECONDS) ops" using Cons.prems(7) op by simp
    ultimately show ?thesis using Cons.IH [OF run(1,3) ok t1(1)] by blast
  next
    case False
    with kept_by_lease [OF t1(2) run(2) Cons.prems(5,6,7)]
    have "kept_by i w a t1" "owned_by i w t1 \<longrightarrow> lease_expires_at t1 = Some e" "lease_kept i w e ops" by blast+
    then show ?thesis using Cons.IH [OF run(1,3) ok t1(1)] by blast
  qed
qed auto

end

section \<open>Properties\<close>

text \<open>A list store with one run, for the witnesses.\<close>

abbreviation list_queue :: "(task list, task) collection" where
  "list_queue \<equiv> list_coll (\<lambda>t. Some (tid t))"

definition demo_task :: "string \<Rightarrow> string \<Rightarrow> real \<Rightarrow> task" where
  "demo_task i ty at_time = \<lparr>tid = i, task_type = ty, params = JObject [], status = Queued,
     task_actor = actor_system, task_trigger = Api, requested_at = at_time, started_at = None,
     finished_at = None, task_progress = default_progress, worker = None, lease_expires_at = None,
     cancel_requested = False, task_error = None, attempts = 0\<rparr>"

lemma demo_task_ok: "status (demo_task i ty at_time) = Queued" "task_ok (demo_task i ty at_time)"
  "tid (demo_task i ty at_time) = i" "worker (demo_task i ty at_time) = None"
  by (simp_all add: demo_task_def task_ok_iffs)

lemma list_queue_total: "updates_never_fail list_queue"
  by (auto simp: updates_never_fail_def list_coll_def split: prod.splits)

text \<open>
  C12: Every operation keeps the stored runs well formed: ids stay unique, a queued run belongs
  to nobody, a running one has an owner, a lease and a start, and a finished one holds no
  lease.  So this holds in every history of submissions, claims, heartbeats, progress, outcomes,
  cancellations, sweeps and releases, whatever calls to the database fail.
\<close>

theorem queue_keeps_runs_well_formed:
  assumes "task_queue T" "list_all op_ok ops" "tasks_ok (docs T ts)" "queue_run T L ops (ts, ls) = (ts', ls')"
  shows "tasks_ok (docs T ts')"
  by (rule task_queue.queue_run_ok [OF assms(1,4,2,3)])

theorem queue_keeps_runs_well_formed_witness:
  "tasks_ok (fst (queue_run list_queue list_log
     [Submit (demo_task ''a'' ''catalog_ingest'' 1), Claim ''w'' 2 2, Reap 100 100 100 (\<lambda>_. 0)] ([], [])))"
proof -
  have "list_all op_ok [Submit (demo_task ''a'' ''catalog_ingest'' 1), Claim ''w'' 2 2, Reap 100 100 100 (\<lambda>_. 0)]"
    by (simp add: demo_task_ok)
  moreover have "tasks_ok (docs list_queue [])" by (simp add: list_coll_docs tasks_ok_def)
  ultimately show ?thesis
    using queue_keeps_runs_well_formed [OF list_tasks.task_queue_axioms _ _ surjective_pairing, where L = list_log and ls = "[]"]
    by (simp only: list_coll_docs)
qed

text \<open>
  C8: Every operation refines the life cycle \<open>run_step\<close>: it keeps each stored run in its place
  with its id, type, parameters, actor and request time, and each run either keeps its state or
  takes one step of the life cycle that the caller of the operation may take (a worker claims,
  finishes or releases, a user cancels, the sweep requeues or fails); only a submission adds a
  run.
\<close>

theorem queue_refines_life_cycle:
  assumes "task_queue T" "op_ok op" "tasks_ok (docs T ts)" "queue_step T L op (ts, ls) = (ts', ls')"
  shows "\<exists>mid new. docs T ts' = mid @ new \<and> (new = [] \<or> (\<exists>t. op = Submit t \<and> new = [t])) \<and>
    list_all2 (\<lambda>t t'. tid t' = tid t \<and> task_type t' = task_type t \<and> params t' = params t \<and>
        task_actor t' = task_actor t \<and> requested_at t' = requested_at t \<and> attempts t \<le> attempts t' \<and>
        (run_state_of t' = run_state_of t \<or> run_step (op_by op) (run_state_of t) (run_state_of t')))
      (docs T ts) mid"
proof -
  obtain mid new where st: "list_all2 (rewritten (op_writes op)) (docs T ts) mid" "docs T ts' = mid @ new"
    "new = [] \<or> (\<exists>t. op = Submit t \<and> new = [t] \<and> tid t \<notin> tid ` set (docs T ts))"
    using task_queue.queue_step_docs [OF assms(1,4)] by blast
  have "list_all2 (\<lambda>t t'. tid t' = tid t \<and> task_type t' = task_type t \<and> params t' = params t \<and>
        task_actor t' = task_actor t \<and> requested_at t' = requested_at t \<and> attempts t \<le> attempts t' \<and>
        (run_state_of t' = run_state_of t \<or> run_step (op_by op) (run_state_of t) (run_state_of t')))
      (docs T ts) mid"
    by (rule list.rel_mono_strong [OF st(1)])
       (use rewritten_frame rewritten_lifecycle [OF _ assms(2)] assms(3) in \<open>auto simp: tasks_ok_def\<close>)
  with st(2,3) show ?thesis by blast
qed

theorem queue_refines_life_cycle_witness:
  "\<exists>t'. docs list_queue (fst (queue_step list_queue list_log (Claim ''w'' 2 2) ([demo_task ''a'' ''catalog_ingest'' 1], []))) = [t'] \<and>
     tid t' = ''a'' \<and> (run_state_of t' = Waiting \<or> run_step (ByWorker ''w'') Waiting (run_state_of t'))"
proof -
  let ?s = "[demo_task ''a'' ''catalog_ingest'' 1]"
  have ok: "tasks_ok (docs list_queue ?s)" by (simp add: list_coll_docs tasks_ok_def demo_task_ok)
  have "run_state_of (demo_task ''a'' ''catalog_ingest'' 1) = Waiting"
    by (simp add: run_state_of.simps demo_task_ok)
  with queue_refines_life_cycle [OF list_tasks.task_queue_axioms _ ok, of "Claim ''w'' 2 2" list_log "[]", OF _ surjective_pairing]
  show ?thesis by (auto simp: list_coll_docs list_all2_Cons1 demo_task_ok)
qed

text \<open>
  An outcome is final: whatever happens to the queue afterwards, a succeeded, failed or
  canceled run keeps its status, its error, its times and its attempts; only a late progress
  report can still change the progress shown with it.
\<close>

theorem outcome_is_final:
  assumes "task_queue T" "task_at i (docs T ts) = Some t" "is_terminal (status t)"
    and "queue_run T L ops (ts, ls) = (ts', ls')"
  shows "\<exists>p. task_at i (docs T ts') = Some (t\<lparr>task_progress := p\<rparr>)"
proof -
  have P: "\<exists>p. t = t\<lparr>task_progress := p\<rparr>" by (intro exI [of _ "task_progress t"]) simp
  have "\<exists>p. t'' = t\<lparr>task_progress := p\<rparr>"
    if w: "rewritten (op_writes op) t' t''" and p: "\<exists>p. t' = t\<lparr>task_progress := p\<rparr>" for op t' t''
    using rewritten_terminal [OF w] p assms(3) by auto
  then have "\<exists>t'. task_at i (docs T ts') = Some t' \<and> (\<exists>p. t' = t\<lparr>task_progress := p\<rparr>)"
    using task_queue.queue_run_task_at [where P = "\<lambda>t'. \<exists>p. t' = t\<lparr>task_progress := p\<rparr>", OF assms(1,4,2) P]
    by blast
  then show ?thesis by blast
qed

theorem outcome_is_final_witness:
  "\<exists>p. task_at ''a'' (docs list_queue (fst (queue_run list_queue list_log
       [Claim ''w'' 5 5, RequestCancel ''a'' 6, Progress ''a'' 1 2 ''late''] ([(demo_task ''a'' ''catalog_ingest'' 1)\<lparr>status := Succeeded\<rparr>], [])))) =
     Some ((demo_task ''a'' ''catalog_ingest'' 1)\<lparr>status := Succeeded, task_progress := p\<rparr>)"
proof -
  let ?t = "(demo_task ''a'' ''catalog_ingest'' 1)\<lparr>status := Succeeded\<rparr>"
  have "task_at ''a'' (docs list_queue [?t]) = Some ?t" "is_terminal (status ?t)"
    by (simp_all add: task_at_def list_coll_docs demo_task_ok)
  from outcome_is_final [OF list_tasks.task_queue_axioms this surjective_pairing, where L = list_log and ls = "[]"]
  show ?thesis by blast
qed

text \<open>
  A claim takes the oldest queued run: it moves exactly that one to running, under the
  claiming worker with a lease of a minute and one more attempt, returns it as it now is, and
  leaves every other run alone; it returns nothing only when nothing is queued.
\<close>

theorem claim_takes_the_oldest:
  assumes "task_queue T" "claim_next T w now1 now2 ts = (Inr r, ts')"
  shows "case r of
      None \<Rightarrow> (\<forall>t\<in>set (docs T ts). status t \<noteq> Queued) \<and> docs T ts' = docs T ts
    | Some t' \<Rightarrow> \<exists>k < length (docs T ts). status (docs T ts ! k) = Queued \<and>
        (\<forall>t\<in>set (docs T ts). status t = Queued \<longrightarrow> requested_at (docs T ts ! k) \<le> requested_at t) \<and>
        t' = (docs T ts ! k)\<lparr>status := Running, started_at := Some now1, worker := Some w,
               lease_expires_at := Some (now2 + 60), attempts := attempts (docs T ts ! k) + 1\<rparr> \<and>
        docs T ts' = (docs T ts)[k := t']"
  using task_queue.claim_result [OF assms]
  by (auto simp: one_updated_def claim_update_def LEASE_SECONDS_def split: option.splits)

theorem claim_takes_the_oldest_witness:
  "claim_next list_queue ''w'' 7 8 [demo_task ''new'' ''catalog_ingest'' 2, demo_task ''old'' ''catalog_ingest'' 1] =
     (Inr (Some ((demo_task ''old'' ''catalog_ingest'' 1)\<lparr>status := Running, started_at := Some 7,
        worker := Some ''w'', lease_expires_at := Some 68, attempts := 1\<rparr>)),
      [demo_task ''new'' ''catalog_ingest'' 2, (demo_task ''old'' ''catalog_ingest'' 1)\<lparr>status := Running,
        started_at := Some 7, worker := Some ''w'', lease_expires_at := Some 68, attempts := 1\<rparr>])"
    (is "?c = (Inr (Some ?t), ?ts)")
proof -
  have c: "?c = (Inr (Some ?t), ?ts)"
    by (simp add: claim_next_def list_coll_def first_by_def demo_task_def claim_update_def LEASE_SECONDS_def)
  from claim_takes_the_oldest [OF list_tasks.task_queue_axioms c] show ?thesis using c by blast
qed

text \<open>
  C16: Claims are exclusive: while a run is running under a worker, it can come to run under
  another worker, or in another attempt, only through a release by its owner or a sweep; no
  sequence of claims, heartbeats, outcomes and cancellations of any worker does it.
\<close>

theorem claims_are_exclusive:
  assumes "task_queue T" "list_all op_ok ops" "queue_run T L ops (ts, ls) = (ts', ls')"
    and "task_at i (docs T ts) = Some t" "owned_by i w t"
    and "task_at i (docs T ts') = Some t'" "owned_by i w' t'" "w' \<noteq> w \<or> attempts t' \<noteq> attempts t"
  shows "\<exists>op\<in>set ops. hands_over i w op"
proof (rule ccontr)
  assume no: "\<not> (\<exists>op\<in>set ops. hands_over i w op)"
  have "kept_by i w (attempts t) t" using assms(4,5) task_at_Some by (auto simp: kept_by_def)
  from task_queue.keeps_run [OF assms(1,3,2,4) this] no assms(6)
  have "kept_by i w (attempts t) t'" by auto
  with assms(7,8) show False by (auto simp: kept_by_def owned_by_def)
qed

theorem claims_are_exclusive_witness:
  "\<exists>op\<in>set [Reap 100 100 100 (\<lambda>_. 0), Claim ''v'' 101 101]. hands_over ''a'' ''w'' op"
proof -
  let ?t = "(demo_task ''a'' ''catalog_ingest'' 1)\<lparr>status := Running, started_at := Some 2, worker := Some ''w'',
     lease_expires_at := Some 62, attempts := 1\<rparr>"
  let ?ops = "[Reap 100 100 100 (\<lambda>_. 0), Claim ''v'' 101 101]"
  have ret: "''catalog_ingest'' \<in> set retryable_task_types"
    by (simp add: retryable_task_types_def TASKS_def)
  have run: "queue_run list_queue list_log ?ops ([?t], []) =
      ([?t\<lparr>started_at := Some 101, worker := Some ''v'', lease_expires_at := Some 161, attempts := 2\<rparr>], [])"
    using ret by (simp add: requeue_expired_def claim_next_def list_coll_def first_by_def lease_lapsed_def
        demo_task_def requeue_update_def claim_update_def LEASE_SECONDS_def limit_docs_def sort_docs_def)
  let ?t' = "?t\<lparr>started_at := Some 101, worker := Some ''v'', lease_expires_at := Some 161, attempts := 2\<rparr>"
  have "list_all op_ok ?ops" by simp
  moreover have "task_at ''a'' (docs list_queue [?t]) = Some ?t" "owned_by ''a'' ''w'' ?t"
    "task_at ''a'' (docs list_queue [?t']) = Some ?t'" "owned_by ''a'' ''v'' ?t'" "''v'' \<noteq> ''w'' \<or> attempts ?t' \<noteq> attempts ?t"
    by (simp_all add: task_at_def list_coll_docs owned_by_def demo_task_def)
  ultimately show ?thesis by (rule claims_are_exclusive [OF list_tasks.task_queue_axioms _ run])
qed

text \<open>
  C13: A renewed lease is never taken: as long as a worker's heartbeats get through and every
  sweep reads the clock before the current lease ends, the run stays with that worker, in the
  same attempt, until it has an outcome, whatever other workers and users do.
\<close>

theorem renewed_lease_is_never_taken:
  assumes "task_queue T" "updates_never_fail T" "tasks_ok (docs T ts)" "list_all op_ok ops"
    and "task_at i (docs T ts) = Some t" "owned_by i w t" "lease_expires_at t = Some e"
    and "lease_kept i w e ops" "queue_run T L ops (ts, ls) = (ts', ls')"
  shows "\<exists>t'. task_at i (docs T ts') = Some t' \<and> attempts t' = attempts t \<and>
    (owned_by i w t' \<or> is_terminal (status t'))"
proof -
  have "kept_by i w (attempts t) t" using assms(5,6) task_at_Some by (auto simp: kept_by_def)
  from task_queue.lease_protects [OF assms(1,2,9,4,3,5) this assms(7,8)] show ?thesis
    by (auto simp: kept_by_def)
qed

theorem renewed_lease_is_never_taken_witness:
  "\<exists>t'. task_at ''a'' (docs list_queue (fst (queue_run list_queue list_log
       [Heartbeat ''a'' ''w'' 50, Reap 100 100 100 (\<lambda>_. 0), Claim ''v'' 101 101]
       ([(demo_task ''a'' ''catalog_ingest'' 1)\<lparr>status := Running, started_at := Some 2, worker := Some ''w'',
          lease_expires_at := Some 62, attempts := 1\<rparr>], [])))) = Some t' \<and> attempts t' = 1 \<and>
    (owned_by ''a'' ''w'' t' \<or> is_terminal (status t'))"
proof -
  let ?t = "(demo_task ''a'' ''catalog_ingest'' 1)\<lparr>status := Running, started_at := Some 2, worker := Some ''w'',
     lease_expires_at := Some 62, attempts := 1\<rparr>"
  let ?ops = "[Heartbeat ''a'' ''w'' 50, Reap 100 100 100 (\<lambda>_. 0), Claim ''v'' 101 101]"
  have "tasks_ok (docs list_queue [?t])"
    by (simp add: tasks_ok_def list_coll_docs task_ok_iffs demo_task_def)
  moreover have "task_at ''a'' (docs list_queue [?t]) = Some ?t" "owned_by ''a'' ''w'' ?t" "lease_expires_at ?t = Some 62"
    by (simp_all add: task_at_def list_coll_docs owned_by_def demo_task_def)
  moreover have "list_all op_ok ?ops" "lease_kept ''a'' ''w'' 62 ?ops"
    by (simp_all add: LEASE_SECONDS_def)
  ultimately have "\<exists>t'. task_at ''a'' (docs list_queue (fst (queue_run list_queue list_log ?ops ([?t], [])))) = Some t' \<and>
      attempts t' = attempts ?t \<and> (owned_by ''a'' ''w'' t' \<or> is_terminal (status t'))"
    using renewed_lease_is_never_taken [OF list_tasks.task_queue_axioms list_queue_total, of "[?t]" ?ops "''a''" ?t "''w''" 62 list_log "[]"]
    by (metis prod.collapse)
  then show ?thesis by simp
qed

text \<open>
  A worker that does not own a run can do nothing to it: its heartbeat tells it to stand
  down, its outcome is refused and its release has no effect; no stored run changes.
\<close>

theorem stale_worker_changes_nothing:
  assumes "task_queue T" "tasks_ok (docs T ts)"
    and "case task_at i (docs T ts) of None \<Rightarrow> True | Some t \<Rightarrow> \<not> owned_by i w t"
  shows "(case heartbeat T i w now ts of (r, ts') \<Rightarrow>
            docs T ts' = docs T ts \<and> (\<forall>b. r = Inr b \<longrightarrow> b = None)) \<and>
         (case finish_claimed T L i w st err now now_ms (ts, ls) of (r, ts', ls') \<Rightarrow>
            docs T ts' = docs T ts \<and> (\<forall>b. r = Inr b \<longrightarrow> b = False)) \<and>
         (case release T i w ts of (r, ts') \<Rightarrow> docs T ts' = docs T ts)"
proof -
  have dist: "distinct (map tid (docs T ts))" using assms(2) by (simp add: tasks_ok_def)
  have none: "\<not> owned_by i w t" if "t \<in> set (docs T ts)" for t
    using task_at_unique [OF dist that] assms(3) by (auto simp: owned_by_def)
  have un: "docs T ts' = docs T ts" if "touched (owned_by i w) u (docs T ts) (docs T ts')" for u ts'
    using touched_mono [OF that, of "\<lambda>_ _. False"] none
    by (auto simp: list_all2_conv_all_nth intro: nth_equalityI)
  obtain r ts1 where hb: "heartbeat T i w now ts = (r, ts1)" by fastforce
  have 1: "docs T ts1 = docs T ts" using un task_queue.heartbeat_touched [OF assms(1) hb] .
  have 2: "b = None" if "r = Inr b" for b
    using task_queue.heartbeat_result [OF assms(1) hb [unfolded that] dist] assms(3)
    by (auto simp: written_at_def split: option.splits if_splits)
  obtain q ts2 ls2 where fc: "finish_claimed T L i w st err now now_ms (ts, ls) = (q, ts2, ls2)" by (metis prod.exhaust)
  have 3: "docs T ts2 = docs T ts" using un task_queue.finish_claimed_touched [OF assms(1) fc] .
  have 4: "b = False" if "q = Inr b" for b
    using task_queue.finish_claimed_result [OF assms(1) fc [unfolded that] dist] assms(3)
    by (auto simp: written_at_def split: option.splits)
  obtain s ts3 where rl: "release T i w ts = (s, ts3)" by fastforce
  have 5: "docs T ts3 = docs T ts" using un task_queue.release_touched [OF assms(1) rl] .
  show ?thesis unfolding hb fc rl using 1 2 3 4 5 by auto
qed

theorem stale_worker_changes_nothing_witness:
  "fst (finish_claimed list_queue list_log ''a'' ''stale'' Failed None 9 9000
          ([(demo_task ''a'' ''catalog_ingest'' 1)\<lparr>status := Running, worker := Some ''w'', started_at := Some 2,
             lease_expires_at := Some 62, attempts := 1\<rparr>], [])) \<noteq> Inr True"
proof -
  let ?t = "(demo_task ''a'' ''catalog_ingest'' 1)\<lparr>status := Running, worker := Some ''w'', started_at := Some 2,
     lease_expires_at := Some 62, attempts := 1\<rparr>"
  have "tasks_ok (docs list_queue [?t])"
    by (simp add: tasks_ok_def list_coll_docs task_ok_iffs demo_task_def)
  moreover have "case task_at ''a'' (docs list_queue [?t]) of None \<Rightarrow> True | Some t \<Rightarrow> \<not> owned_by ''a'' ''stale'' t"
    by (simp add: task_at_def list_coll_docs owned_by_def demo_task_def)
  ultimately show ?thesis
    using stale_worker_changes_nothing [OF list_tasks.task_queue_axioms, where ts = "[?t]" and i = "''a''"
        and w = "''stale''" and L = list_log and st = Failed and err = None and now = 9 and now_ms = 9000
        and ls = "[]"] by (auto split: prod.splits)
qed

text \<open>
  The sweep deals with exactly the runs whose lease has lapsed: a run of a type declared
  idempotent goes back to the queue without its owner, any other one fails with the reason, no
  other run changes, and the report counts both groups.
\<close>

theorem sweep_requeues_or_fails:
  assumes "task_queue T" "requeue_expired T L now1 now2 now3 now_ms (ts, ls) = (Inr rep, ts', ls')"
  shows "docs T ts' = map (\<lambda>t.
            if lease_lapsed now1 t \<and> is_retryable (task_type t)
            then t\<lparr>status := Queued, worker := None, lease_expires_at := None\<rparr>
            else if lease_lapsed now2 t \<and> \<not> is_retryable (task_type t)
            then t\<lparr>status := Failed, finished_at := Some now3, task_error := Some ORPHANED,
                   worker := None, lease_expires_at := None\<rparr>
            else t) (docs T ts) \<and>
         requeued rep = length (filter (\<lambda>t. lease_lapsed now1 t \<and> is_retryable (task_type t)) (docs T ts)) \<and>
         failed rep = length (filter (\<lambda>t. lease_lapsed now2 t \<and> \<not> is_retryable (task_type t)) (docs T ts))"
proof -
  have eqs: "requeueable now1 = (\<lambda>t. lease_lapsed now1 t \<and> is_retryable (task_type t))"
    "orphaned now2 = (\<lambda>t. lease_lapsed now2 t \<and> \<not> is_retryable (task_type t))"
    by (simp_all add: fun_eq_iff requeueable_def orphaned_def)
  show ?thesis
    using task_queue.reap_result(1-3) [OF assms]
    unfolding reaped_def eqs requeue_update_def orphan_update_def by simp
qed

theorem sweep_requeues_or_fails_witness:
  "requeue_expired list_queue list_log 100 101 102 (\<lambda>_. 5)
     ([(demo_task ''a'' ''catalog_ingest'' 1)\<lparr>status := Running, worker := Some ''w'', lease_expires_at := Some 62\<rparr>,
       (demo_task ''b'' ''gone'' 1)\<lparr>status := Running, worker := Some ''w'', lease_expires_at := Some 62\<rparr>], []) =
   (Inr \<lparr>requeued = 1, failed = 1\<rparr>,
     [demo_task ''a'' ''catalog_ingest'' 1,
      (demo_task ''b'' ''gone'' 1)\<lparr>status := Failed, finished_at := Some 102, task_error := Some ORPHANED\<rparr>], [])"
  (is "?l = (Inr ?rep, ?ts, [])")
proof -
  have ret: "''catalog_ingest'' \<in> set retryable_task_types" "''gone'' \<notin> set retryable_task_types"
    by (simp_all add: retryable_task_types_def TASKS_def)
  have l: "?l = (Inr ?rep, ?ts, [])"
    using ret by (simp add: requeue_expired_def list_coll_def lease_lapsed_def demo_task_def requeue_update_def
        orphan_update_def sort_docs_def limit_docs_def extend_retention_def)
  from sweep_requeues_or_fails [OF list_tasks.task_queue_axioms l] show ?thesis using l by blast
qed

text \<open>
  A cancellation answers by the status it finds: a queued run is canceled outright, a running
  one is only asked to stop, a finished one is left as it is and its status returned, and an
  unknown id is reported; no other run changes.
\<close>

theorem cancel_answers_by_status:
  assumes "task_queue T" "tasks_ok (docs T ts)" "request_cancel T i now ts = (Inr r, ts')"
  shows "(case task_at i (docs T ts) of
        None \<Rightarrow> r = None \<and> docs T ts' = docs T ts
      | Some t \<Rightarrow>
          (case status t of
             Queued \<Rightarrow> r = Some Canceled \<and>
               task_at i (docs T ts') = Some (t\<lparr>status := Canceled, finished_at := Some now, task_error := None,
                                               lease_expires_at := None\<rparr>)
           | Running \<Rightarrow> r = Some Running \<and> task_at i (docs T ts') = Some (t\<lparr>cancel_requested := True\<rparr>)
           | st \<Rightarrow> r = Some st \<and> docs T ts' = docs T ts)) \<and>
     (\<forall>j. j \<noteq> i \<longrightarrow> task_at j (docs T ts') = task_at j (docs T ts))"
  using task_queue.cancel_result [OF assms(1,3)] assms(2)
  by (simp add: tasks_ok_def cancel_queued_update_def cong: option.case_cong task_status.case_cong)

theorem cancel_answers_by_status_witness:
  "request_cancel list_queue ''a'' 9 [(demo_task ''a'' ''catalog_ingest'' 1)\<lparr>status := Running, worker := Some ''w'',
       started_at := Some 2, lease_expires_at := Some 62, attempts := 1\<rparr>] =
     (Inr (Some Running), [(demo_task ''a'' ''catalog_ingest'' 1)\<lparr>status := Running, worker := Some ''w'',
       started_at := Some 2, lease_expires_at := Some 62, attempts := 1, cancel_requested := True\<rparr>])"
  (is "?c = (Inr (Some Running), ?ts)")
proof -
  have c: "?c = (Inr (Some Running), ?ts)"
    by (simp add: request_cancel_def list_coll_def demo_task_def)
  have "tasks_ok (docs list_queue [(demo_task ''a'' ''catalog_ingest'' 1)\<lparr>status := Running, worker := Some ''w'',
       started_at := Some 2, lease_expires_at := Some 62, attempts := 1\<rparr>])"
    by (simp add: tasks_ok_def list_coll_docs task_ok_iffs demo_task_def)
  from cancel_answers_by_status [OF list_tasks.task_queue_axioms this c] show ?thesis using c by blast
qed

text \<open>
  A worker's outcome is recorded exactly when it still owns the run: then the status, the
  error and the end are set and the lease is cleared, and no other run changes; otherwise
  nothing is and the answer says so.  The logs of the run are kept for a year when the outcome
  reported is a failure or a cancellation, even when the outcome itself was refused.
\<close>

theorem outcome_recorded_by_owner:
  assumes "task_queue T" "log_store L" "tasks_ok (docs T ts)"
    and "finish_claimed T L i w st err now now_ms (ts, ls) = (Inr recorded, ts', ls')"
  shows "recorded = (case task_at i (docs T ts) of Some t \<Rightarrow> owned_by i w t | None \<Rightarrow> False) \<and>
    (if recorded
     then task_at i (docs T ts') = map_option (\<lambda>t. t\<lparr>status := st, finished_at := Some now, task_error := err,
                                                     lease_expires_at := None\<rparr>) (task_at i (docs T ts)) \<and>
          (\<forall>j. j \<noteq> i \<longrightarrow> task_at j (docs T ts') = task_at j (docs T ts))
     else docs T ts' = docs T ts) \<and>
    (if st = Failed \<or> st = Canceled
     then touched (\<lambda>c. chunk_task_id c = i) (\<lambda>c. c\<lparr>expires_at := now_ms + 31536000000\<rparr>) (docs L ls) (docs L ls')
     else ls' = ls)"
proof -
  have res: "written_at i (owned_by i w) (finish_update st err now) (docs T ts) recorded (docs T ts') \<and>
    ls' = (if st = Failed \<or> st = Canceled then extend_retention L now_ms i FAILED_LOG_RETENTION_DAYS ls else ls)"
    using task_queue.finish_claimed_result [OF assms(1,4)] assms(3) by (simp add: tasks_ok_def)
  moreover have "touched (\<lambda>c. chunk_task_id c = i) (\<lambda>c. c\<lparr>expires_at := now_ms + 31536000000\<rparr>)
      (docs L ls) (docs L (extend_retention L now_ms i FAILED_LOG_RETENTION_DAYS ls))"
    using log_store.extend_retention_touched [OF assms(2), of i now_ms FAILED_LOG_RETENTION_DAYS ls]
    by (simp add: expires_in_days_def FAILED_LOG_RETENTION_DAYS_def)
  moreover have "finish_update st err now = (\<lambda>t. t\<lparr>status := st, finished_at := Some now, task_error := err,
      lease_expires_at := None\<rparr>)" by (rule ext) (simp add: finish_update_def)
  ultimately show ?thesis by (simp add: written_at_def)
qed

theorem outcome_recorded_by_owner_witness:
  "finish_claimed list_queue list_log ''a'' ''stale'' Failed None 9 9000
     ([(demo_task ''a'' ''catalog_ingest'' 1)\<lparr>status := Running, worker := Some ''w'', started_at := Some 2,
        lease_expires_at := Some 62, attempts := 1\<rparr>],
      [\<lparr>chunk_task_id = ''a'', chunk_seq = 0, chunk_ts = 3, expires_at = 100, chunk_lines = []\<rparr>]) =
     (Inr False,
      [(demo_task ''a'' ''catalog_ingest'' 1)\<lparr>status := Running, worker := Some ''w'', started_at := Some 2,
        lease_expires_at := Some 62, attempts := 1\<rparr>],
      [\<lparr>chunk_task_id = ''a'', chunk_seq = 0, chunk_ts = 3, expires_at = 31536009000, chunk_lines = []\<rparr>])"
  (is "finish_claimed _ _ _ _ _ _ _ _ (?ts, ?ls) = (Inr False, _, ?ls')")
proof -
  have c: "finish_claimed list_queue list_log ''a'' ''stale'' Failed None 9 9000 (?ts, ?ls) = (Inr False, ?ts, ?ls')"
    by (simp add: finish_claimed_def list_coll_def owned_by_def demo_task_def extend_retention_def
        expires_in_days_def FAILED_LOG_RETENTION_DAYS_def)
  have "tasks_ok (docs list_queue ?ts)"
    by (simp add: tasks_ok_def list_coll_docs task_ok_iffs demo_task_def)
  from outcome_recorded_by_owner [OF list_tasks.task_queue_axioms list_logs.log_store_axioms this c]
  show ?thesis using c by blast
qed

end
