(* ===== verification/Task_Worker.thy ===== *)
theory Task_Worker
  imports Task_Context
begin

text \<open>
  The task worker (\<open>src/src/bin/task_worker.rs\<close>): the heartbeat that keeps the lease and mirrors
  a cancellation into the task's flag, the execution of one claimed run, and the main loop.  A
  task body is the \<open>run_body\<close> of a \<open>task_bodies\<close> record over the context and the world; what
  other processes and this run's own heartbeat do to the world in the meantime is part of what
  the body returns.  The heartbeat is modelled on its own, tick by tick.
\<close>

section \<open>Messages\<close>

text \<open>\<open>Debug\<close> of a string, for the ASCII range: quoted, with the escapes of \<open>char::escape_debug\<close>.\<close>

definition hex_digit :: "nat \<Rightarrow> char" where
  "hex_digit n = (if n < 10 then char_of (48 + n) else char_of (87 + n))"

definition debug_char :: "char \<Rightarrow> string" where
  "debug_char c =
     (let n = (of_char c :: nat)
      in if n = 34 then [char_of (92::nat), char_of (34::nat)]
         else if n = 92 then [char_of (92::nat), char_of (92::nat)]
         else if n = 0 then char_of (92::nat) # ''0''
         else if n = 9 then char_of (92::nat) # ''t''
         else if n = 10 then char_of (92::nat) # ''n''
         else if n = 13 then char_of (92::nat) # ''r''
         else if n < 16 then char_of (92::nat) # ''u{'' @ [hex_digit n] @ ''}''
         else if n < 32 \<or> n = 127 then char_of (92::nat) # ''u{'' @ [hex_digit (n div 16), hex_digit (n mod 16)] @ ''}''
         else [c])"

definition debug_str :: "string \<Rightarrow> string" where
  "debug_str s = char_of (34::nat) # concat (map debug_char s) @ [char_of (34::nat)]"

fun fault_text :: "task_fault \<Rightarrow> string" where
  "fault_text (ErrFailed m) = m"
| "fault_text ErrCanceled = ''canceled''"
| "fault_text (UnknownType i known) =
     ''unknown task type '' @ debug_str i @ ''; known types are '' @ known"
| "fault_text (InvalidParams m) = ''invalid parameters: '' @ m"

fun body_result :: "body_outcome \<Rightarrow> (task_fault, json) result" where
  "body_result (Returned r) = r"
| "body_result (Panicked detail) =
     Inl (ErrFailed (''task panicked: '' @ (case detail of Some d \<Rightarrow> d | None \<Rightarrow> ''panic with no message'')))"

definition is_err :: "('e, 'a) result \<Rightarrow> bool" where
  "is_err r = (case r of Inl e \<Rightarrow> True | Inr x \<Rightarrow> False)"

definition shutdown_error :: "string \<Rightarrow> string" where
  "shutdown_error ty =
     ''the worker shut down while this was running, and '' @ ty @ '' is not declared idempotent, '' @
     ''so it was not retried automatically. Check what it had already done before running it again.''"

section \<open>The heartbeat\<close>

definition HEARTBEAT_INTERVAL :: real where "HEARTBEAT_INTERVAL = LEASE_SECONDS / 3"

text \<open>
  One turn of the loop in \<open>spawn_heartbeat\<close>, after its sleep: the flag of the task, and whether
  the loop goes on.
\<close>

definition heartbeat_tick ::
  "('t, task) collection \<Rightarrow> string \<Rightarrow> string \<Rightarrow> real \<Rightarrow> bool \<Rightarrow> bool \<Rightarrow> 't \<Rightarrow> bool \<times> bool \<times> 't" where
  "heartbeat_tick T i w now shutting_down canceled db =
     (let canceled = (if shutting_down then True else canceled)
      in case heartbeat T i w now db of
           (Inr (Some True), db') \<Rightarrow> (True, True, db')
         | (Inr (Some False), db') \<Rightarrow> (canceled, True, db')
         | (Inr None, db') \<Rightarrow> (True, False, db')
         | (Inl e, db') \<Rightarrow> (canceled, True, db'))"

text \<open>The loop, with what the rest of the system does to the runs before each tick.\<close>

fun heartbeat_loop ::
  "('t, task) collection \<Rightarrow> string \<Rightarrow> string \<Rightarrow> (('t \<Rightarrow> 't) \<times> real \<times> bool) list \<Rightarrow> bool \<Rightarrow> 't \<Rightarrow> bool \<times> 't"
where
  "heartbeat_loop T i w [] canceled db = (canceled, db)"
| "heartbeat_loop T i w ((others, now, shutting_down) # ticks) canceled db =
     (case heartbeat_tick T i w now shutting_down canceled (others db) of
        (canceled', go_on, db') \<Rightarrow>
          if go_on then heartbeat_loop T i w ticks canceled' db' else (canceled', db'))"

section \<open>One claimed run\<close>

text \<open>The clock as \<open>run_one\<close> reads it, in its order.\<close>

record run_clock =
  at_claimed :: real
  at_flush :: real
  at_flush_ms :: int
  at_outcome :: real
  at_last_flush :: real
  at_last_flush_ms :: int
  at_finish :: real
  at_finish_ms :: int

definition finish_run ::
  "('t, 'l, 'm, 'x) driver \<Rightarrow> string \<Rightarrow> run_clock \<Rightarrow> task \<Rightarrow> task_status \<Rightarrow> string option \<Rightarrow>
     ('t, 'l, 'm) world \<Rightarrow> ('t, 'l, 'm) world" where
  "finish_run D w k t st err s =
     (case finish_claimed (run_coll D) (log_coll D) (tid t) w st err (at_finish k) (at_finish_ms k)
             (runs s, run_logs s) of
        (_, ts, ls) \<Rightarrow> s\<lparr>runs := ts, run_logs := ls\<rparr>)"

text \<open>After the body: what to do with the run, given whether the worker is shutting down.\<close>

definition conclude ::
  "('t, 'l, 'm, 'x) driver \<Rightarrow> (json \<Rightarrow> string) \<Rightarrow> string \<Rightarrow> run_clock \<Rightarrow> bool \<Rightarrow> task \<Rightarrow> body_outcome \<Rightarrow>
     task_context \<times> ('t, 'l, 'm) world \<Rightarrow> ('t, 'l, 'm) world" where
  "conclude D show_json w k shutting_down t outcome = (\<lambda>(c, s).
     let result = body_result outcome;
         (c, s) = flush_logs D (at_flush k) (at_flush_ms k) (c, s)
     in if shutting_down \<and> is_err result then
          (if is_retryable (task_type t)
           then s\<lparr>runs := snd (release (run_coll D) (tid t) w (runs s))\<rparr>
           else finish_run D w k t Failed (Some (shutdown_error (task_type t))) s)
        else
          let (c, st, err) =
                (case result of
                   Inr report \<Rightarrow> (ctx_info (at_outcome k) (''run succeeded: '' @ show_json report) c, Succeeded, None)
                 | Inl ErrCanceled \<Rightarrow> (ctx_warn (at_outcome k) ''run canceled'' c, Canceled, None)
                 | Inl e \<Rightarrow> (ctx_error (at_outcome k) (''run failed: '' @ fault_text e) c, Failed, Some (fault_text e)));
              (c, s) = flush_logs D (at_last_flush k) (at_last_flush_ms k) (c, s)
          in finish_run D w k t st err s)"

text \<open>The context of a run, with the line that says who claimed it.\<close>

definition run_context :: "string \<Rightarrow> run_clock \<Rightarrow> task \<Rightarrow> task_context" where
  "run_context w k t =
     ctx_info (at_claimed k)
       (''run '' @ tid t @ '' claimed by '' @ w @ '' (attempt '' @ dec (attempts t) @ '')'')
       (new_context (tid t) (task_actor t) (task_trigger t))"

definition run_one ::
  "('t, 'l, 'm, 'x) driver \<Rightarrow> ('p, task_context \<times> ('t, 'l, 'm) world) task_bodies \<Rightarrow> (json \<Rightarrow> string) \<Rightarrow>
     string \<Rightarrow> run_clock \<Rightarrow> bool \<Rightarrow> task \<Rightarrow> ('t, 'l, 'm) world \<Rightarrow> ('t, 'l, 'm) world" where
  "run_one D B show_json w k shutting_down t s =
     (case dispatch B (task_type t) (params t) (run_context w k t, s) of
        (outcome, after) \<Rightarrow> conclude D show_json w k shutting_down t outcome after)"

section \<open>The main loop\<close>

text \<open>
  One turn: the shutdown flag at its head, the clock readings of the sweep and the claim, what
  others do while it sleeps, and the flag and clock at the end of a run.
\<close>

record ('t, 'l, 'm) turn =
  stop_first :: bool
  sweep_at1 :: real
  sweep_at2 :: real
  sweep_at3 :: real
  sweep_ms :: "string \<Rightarrow> int"
  claim_at1 :: real
  claim_at2 :: real
  asleep :: "('t, 'l, 'm) world \<Rightarrow> ('t, 'l, 'm) world"
  stop_after :: bool
  clock :: run_clock

fun worker_loop ::
  "('t, 'l, 'm, 'x) driver \<Rightarrow> ('p, task_context \<times> ('t, 'l, 'm) world) task_bodies \<Rightarrow> (json \<Rightarrow> string) \<Rightarrow>
     string \<Rightarrow> ('t, 'l, 'm) turn list \<Rightarrow> ('t, 'l, 'm) world \<Rightarrow> ('t, 'l, 'm) world" where
  "worker_loop D B show_json w [] s = s"
| "worker_loop D B show_json w (u # us) s =
     (if stop_first u then s
      else
        (case requeue_expired (run_coll D) (log_coll D) (sweep_at1 u) (sweep_at2 u) (sweep_at3 u) (sweep_ms u)
                (runs s, run_logs s) of
           (_, ts, ls) \<Rightarrow>
             (case claim_next (run_coll D) w (claim_at1 u) (claim_at2 u) ts of
                (Inl e, ts') \<Rightarrow>
                  worker_loop D B show_json w us (asleep u (s\<lparr>runs := ts', run_logs := ls\<rparr>))
              | (Inr None, ts') \<Rightarrow>
                  worker_loop D B show_json w us (asleep u (s\<lparr>runs := ts', run_logs := ls\<rparr>))
              | (Inr (Some t), ts') \<Rightarrow>
                  worker_loop D B show_json w us
                    (run_one D B show_json w (clock u) (stop_after u) t (s\<lparr>runs := ts', run_logs := ls\<rparr>)))))"

section \<open>What the worker relies on\<close>

text \<open>
  The ownership contract between the worker and the queue: a store of runs with a view of each
  run, a claim that gives the claimer the run it returns, and a settlement that takes effect
  exactly for the owner.
\<close>

locale owned_runs =
  fixes run_at :: "string \<Rightarrow> 's \<Rightarrow> task option"
    and sound :: "'s \<Rightarrow> bool"
    and claim :: "string \<Rightarrow> 's \<Rightarrow> (queue_error, task option) result \<times> 's"
    and settle :: "string \<Rightarrow> string \<Rightarrow> task_status \<Rightarrow> string option \<Rightarrow> 's \<Rightarrow> (queue_error, bool) result \<times> 's"
  assumes claim_owned:
      "sound s \<Longrightarrow> claim w s = (Inr (Some t), s') \<Longrightarrow>
         run_at (tid t) s' = Some t \<and> owned_by (tid t) w t \<and> sound s'"
    and settle_owned:
      "sound s \<Longrightarrow> settle i w st err s = (Inr ok, s') \<Longrightarrow>
         ok = (case run_at i s of Some t \<Rightarrow> owned_by i w t | None \<Rightarrow> False) \<and>
         (ok \<longrightarrow> (\<exists>t. run_at i s' = Some t \<and> status t = st \<and> task_error t = err)) \<and>
         (\<not> ok \<longrightarrow> run_at i s' = run_at i s)"
begin

lemma claim_then_settle:
  assumes "sound s" "claim w s = (Inr (Some t), s')" "settle (tid t) w st err s' = (Inr ok, s'')"
  shows "ok \<and> (\<exists>t'. run_at (tid t) s'' = Some t' \<and> status t' = st \<and> task_error t' = err)"
  using claim_owned [OF assms(1,2)] settle_owned [OF _ assms(3)] by auto

lemma settle_by_other:
  assumes "sound s" "run_at i s = Some t" "owned_by i w t" "w' \<noteq> w" "settle i w' st err s = (Inr ok, s')"
  shows "\<not> ok \<and> run_at i s' = Some t"
  using settle_owned [OF assms(1,5)] assms(2,3,4) by (auto simp: owned_by_def)

lemma settle_after_settle:
  assumes "sound s" "settle i w st err s = (Inr True, s')" "sound s'" "st \<noteq> Running"
    and "settle i w' st' err' s' = (Inr ok, s'')"
  shows "\<not> ok \<and> run_at i s'' = run_at i s'"
  using settle_owned [OF assms(1,2)] settle_owned [OF assms(3,5)] assms(4) by (auto simp: owned_by_def)

end

definition claim_on ::
  "('t, task) collection \<Rightarrow> real \<Rightarrow> real \<Rightarrow> string \<Rightarrow> 't \<times> 'l \<Rightarrow> (queue_error, task option) result \<times> 't \<times> 'l"
where
  "claim_on T now1 now2 w s = (case claim_next T w now1 now2 (fst s) of (r, ts) \<Rightarrow> (r, ts, snd s))"

locale task_system = task_queue T + logs: log_store L
  for T :: "('t, task) collection" and L :: "('l, task_log_chunk) collection"
begin

lemma claim_gives_ownership:
  fixes s :: "'t \<times> 'l"
  assumes "tasks_ok (docs T (fst s))" "claim_on T now1 now2 w s = (Inr (Some t), s')"
  shows "task_at (tid t) (docs T (fst s')) = Some t \<and> owned_by (tid t) w t \<and> tasks_ok (docs T (fst s'))"
proof -
  obtain ts' where cl: "claim_next T w now1 now2 (fst s) = (Inr (Some t), ts')" "s' = (ts', snd s)"
    using assms(2) by (auto simp: claim_on_def split: prod.splits)
  from claim_result [OF cl(1)] obtain k where
    k: "one_updated (\<lambda>t. status t = Queued) (claim_update w now1 now2) (docs T (fst s)) k (docs T ts')"
      "t = claim_update w now1 now2 (docs T (fst s) ! k)" by auto
  have "queue_step T L (Claim w now1 now2) (fst s, snd s) = (ts', snd s)"
    using cl(1) by (simp only: queue_step.simps snd_conv)
  from queue_step_ok [OF this _ assms(1)] have ok: "tasks_ok (docs T ts')" by simp
  moreover have "t \<in> set (docs T ts')"
    using k by (auto simp: one_updated_def set_update_memI)
  ultimately have "task_at (tid t) (docs T ts') = Some t"
    by (intro task_at_unique) (simp add: tasks_ok_def)
  then show ?thesis using ok cl(2) k(2) by (simp add: owned_by_def claim_update_def)
qed

lemma settle_needs_ownership:
  assumes "tasks_ok (docs T (fst s))" "finish_claimed T L i w st err now now_ms s = (Inr ok, s')"
  shows "ok = (case task_at i (docs T (fst s)) of Some t \<Rightarrow> owned_by i w t | None \<Rightarrow> False) \<and>
    (ok \<longrightarrow> (\<exists>t. task_at i (docs T (fst s')) = Some t \<and> status t = st \<and> task_error t = err)) \<and>
    (\<not> ok \<longrightarrow> task_at i (docs T (fst s')) = task_at i (docs T (fst s)))"
proof -
  have "written_at i (owned_by i w) (finish_update st err now) (docs T (fst s)) ok (docs T (fst s'))"
    using finish_claimed_result [of L i w st err now now_ms "fst s" "snd s" ok "fst s'" "snd s'"] assms
    by (simp add: tasks_ok_def)
  then show ?thesis
    by (auto simp: written_at_def finish_update_def split: option.splits if_splits)
qed

end

sublocale task_system \<subseteq> leased: owned_runs "\<lambda>i s. task_at i (docs T (fst s))" "\<lambda>s. tasks_ok (docs T (fst s))"
  "claim_on T now1 now2" "\<lambda>i w st err. finish_claimed T L i w st err now now_ms"
  for now1 now2 now now_ms
  by unfold_locales (use claim_gives_ownership settle_needs_ownership in blast)+

interpretation list_system: task_system list_queue list_log
  by unfold_locales

context task_system
begin

lemma claim_then_finish:
  assumes "tasks_ok (docs T (fst s))" "claim_on T now1 now2 w s = (Inr (Some t), s')"
    and "finish_claimed T L (tid t) w st err now now_ms s' = (Inr ok, s'')"
  shows "ok \<and> (\<exists>t'. task_at (tid t) (docs T (fst s'')) = Some t' \<and> status t' = st \<and> task_error t' = err)"
  by (rule leased.claim_then_settle [OF assms])

lemma second_finish_refused:
  assumes "tasks_ok (docs T (fst s))" "finish_claimed T L i w st err now now_ms s = (Inr True, s')"
    and "tasks_ok (docs T (fst s'))" "st \<noteq> Running"
    and "finish_claimed T L i w' st' err' now now_ms s' = (Inr ok, s'')"
  shows "\<not> ok \<and> task_at i (docs T (fst s'')) = task_at i (docs T (fst s'))"
  by (rule leased.settle_after_settle [OF assms])

end

section \<open>Properties\<close>

lemma flush_logs_runs [simp]: "runs (snd (flush_logs D now now_ms x)) = runs (snd x)"
  by (cases x) (simp add: flush_logs_def split: prod.splits)

text \<open>The run a worker leaves behind, for each outcome of the body.\<close>

definition concluded :: "string \<Rightarrow> run_clock \<Rightarrow> bool \<Rightarrow> body_outcome \<Rightarrow> task \<Rightarrow> task" where
  "concluded ty k shutting_down outcome t =
     (case body_result outcome of
        Inr report \<Rightarrow> finish_update Succeeded None (at_finish k) t
      | Inl e \<Rightarrow>
          if shutting_down then
            (if is_retryable ty then requeue_update t
             else finish_update Failed (Some (shutdown_error ty)) (at_finish k) t)
          else if e = ErrCanceled then finish_update Canceled None (at_finish k) t
          else finish_update Failed (Some (fault_text e)) (at_finish k) t)"

text \<open>The one write that decides it: an update of the run the worker owns.\<close>

lemma finish_run_writes:
  "runs (finish_run D w k t st err s) =
     snd (update_one (run_coll D) (owned_by (tid t) w) (finish_update st err (at_finish k)) (runs s))"
  by (auto simp: finish_run_def finish_claimed_def Let_def split: prod.splits sum.splits)

lemma release_writes: "snd (release T i w ts) = snd (update_one T (owned_by i w) requeue_update ts)"
  by (auto simp: release_def split: prod.splits sum.splits)

lemma conclude_writes:
  "runs (conclude D show_json w k shutting_down t outcome (c, s)) =
     snd (update_one (run_coll D) (owned_by (tid t) w) (concluded (task_type t) k shutting_down outcome) (runs s))"
proof -
  obtain c1 s1 where fl: "flush_logs D (at_flush k) (at_flush_ms k) (c, s) = (c1, s1)" by fastforce
  then have r1: "runs s1 = runs s" by (metis flush_logs_runs snd_conv)
  show ?thesis
  proof (cases "shutting_down \<and> is_err (body_result outcome)")
    case True
    then obtain e where e: "body_result outcome = Inl e" by (auto simp: is_err_def split: sum.splits)
    have "concluded (task_type t) k shutting_down outcome =
        (if is_retryable (task_type t) then requeue_update
         else finish_update Failed (Some (shutdown_error (task_type t))) (at_finish k))"
      using True e by (auto simp: concluded_def fun_eq_iff)
    then show ?thesis
      using True r1 by (simp add: conclude_def fl Let_def finish_run_writes release_writes)
  next
    case False
    define st where "st = (case body_result outcome of Inr _ \<Rightarrow> Succeeded | Inl ErrCanceled \<Rightarrow> Canceled | Inl e \<Rightarrow> Failed)"
    define err where "err = (case body_result outcome of Inr _ \<Rightarrow> None | Inl ErrCanceled \<Rightarrow> None | Inl e \<Rightarrow> Some (fault_text e))"
    have cc: "concluded (task_type t) k shutting_down outcome = finish_update st err (at_finish k)"
      using False
      by (auto simp: concluded_def st_def err_def is_err_def fun_eq_iff split: sum.splits task_fault.splits)
    define c2 where "c2 = (case body_result outcome of
        Inr report \<Rightarrow> ctx_info (at_outcome k) (''run succeeded: '' @ show_json report) c1
      | Inl ErrCanceled \<Rightarrow> ctx_warn (at_outcome k) ''run canceled'' c1
      | Inl e \<Rightarrow> ctx_error (at_outcome k) (''run failed: '' @ fault_text e) c1)"
    have "conclude D show_json w k shutting_down t outcome (c, s) =
        finish_run D w k t st err (snd (flush_logs D (at_last_flush k) (at_last_flush_ms k) (c2, s1)))"
      using False
      by (cases "body_result outcome"; cases "projl (body_result outcome)")
         (auto simp: conclude_def fl Let_def st_def err_def c2_def is_err_def case_prod_beta)
    then show ?thesis
      by (simp add: cc finish_run_writes r1)
  qed
qed

lemma concluded_id [simp]: "tid (concluded ty k shutting_down outcome r) = tid r"
  by (auto simp: concluded_def finish_update_def requeue_update_def split: sum.splits)

lemma conclude_at_answered:
  assumes "task_queue (run_coll D)" "tasks_ok (docs (run_coll D) (runs s))"
    and "update_one (run_coll D) (owned_by (tid t) w) (concluded (task_type t) k shutting_down outcome) (runs s) = (Inr n, db)"
  shows "written_at (tid t) (owned_by (tid t) w) (concluded (task_type t) k shutting_down outcome)
    (docs (run_coll D) (runs s))
    (case task_at (tid t) (docs (run_coll D) (runs s)) of Some x \<Rightarrow> owned_by (tid t) w x | None \<Rightarrow> False)
    (docs (run_coll D) (runs (conclude D show_json w k shutting_down t outcome (c, s))))"
  using task_queue.update_by_id [OF assms(1,3)] assms(2)
  by (auto simp: conclude_writes assms(3) tasks_ok_def owned_by_def written_at_def)

lemma conclude_at:
  assumes "task_queue (run_coll D)" "updates_never_fail (run_coll D)" "tasks_ok (docs (run_coll D) (runs s))"
  shows "written_at (tid t) (owned_by (tid t) w) (concluded (task_type t) k shutting_down outcome)
    (docs (run_coll D) (runs s))
    (case task_at (tid t) (docs (run_coll D) (runs s)) of Some x \<Rightarrow> owned_by (tid t) w x | None \<Rightarrow> False)
    (docs (run_coll D) (runs (conclude D show_json w k shutting_down t outcome (c, s))))"
  using assms(2) conclude_at_answered [OF assms(1,3)] unfolding updates_never_fail_def by meson

text \<open>The same write when the call reports a failure: the database may have applied it or not.\<close>

lemma conclude_at_failed:
  fixes c :: task_context and show_json :: "json \<Rightarrow> string"
  assumes "task_queue (run_coll D)" "tasks_ok (docs (run_coll D) (runs s))"
    and "update_one (run_coll D) (owned_by (tid t) w) (concluded (task_type t) k shutting_down outcome) (runs s) = (Inl e, db)"
    and "task_at (tid t) (docs (run_coll D) (runs s)) = Some cur"
  defines "after \<equiv> docs (run_coll D) (runs (conclude D show_json w k shutting_down t outcome (c, s)))"
  shows "after = docs (run_coll D) (runs s) \<or>
    task_at (tid t) after = Some (concluded (task_type t) k shutting_down outcome cur) \<and>
    (\<forall>j. j \<noteq> tid t \<longrightarrow> task_at j after = task_at j (docs (run_coll D) (runs s)))"
proof -
  have after: "after = docs (run_coll D) db"
    by (simp add: after_def conclude_writes assms(3))
  from doc_store.update_one_law [OF task_queue.axioms(1) [OF assms(1)] assms(3)]
  consider "after = docs (run_coll D) (runs s)"
    | m where "one_updated (owned_by (tid t) w) (concluded (task_type t) k shutting_down outcome) (docs (run_coll D) (runs s)) m after"
    unfolding after by auto
  then show ?thesis
  proof cases
    case 2
    from one_updated_at [OF this, of "tid t"] assms(2,4) show ?thesis
      by (auto simp: tasks_ok_def owned_by_def)
  qed simp
qed

text \<open>Concrete parameters for the witnesses: bodies that all panic, one running run.\<close>

definition panicking_bodies :: "(unit, 's) task_bodies" where
  "panicking_bodies = \<lparr>deserialize = (\<lambda>_ _. Inr ()), validate = (\<lambda>_ _. Inr ()),
     run_body = (\<lambda>_ _ s. (Panicked (Some ''boom''), s))\<rparr>"

definition demo_clock :: run_clock where
  "demo_clock = \<lparr>at_claimed = 3, at_flush = 4, at_flush_ms = 4000, at_outcome = 5, at_last_flush = 6,
     at_last_flush_ms = 6000, at_finish = 7, at_finish_ms = 7000\<rparr>"

definition demo_running :: task where
  "demo_running = (demo_task ''a'' ''catalog_ingest'' 1)\<lparr>status := Running, started_at := Some 2,
     worker := Some ''w'', lease_expires_at := Some 62, attempts := 1\<rparr>"

abbreviation unit_driver :: "(task list, task_log_chunk list, unit mutation_record list, unit) driver" where
  "unit_driver \<equiv> list_driver"

definition demo_world :: "(task list, task_log_chunk list, unit mutation_record list) world" where
  "demo_world = \<lparr>runs = [demo_running], run_logs = [], mutations = []\<rparr>"

lemma demo_running_simps: "tid demo_running = ''a''" "task_type demo_running = ''catalog_ingest''"
  "owned_by ''a'' ''w'' demo_running" "task_ok demo_running" "cancel_requested demo_running = False"
  "worker demo_running = Some ''w''"
  by (simp_all add: demo_running_def demo_task_def owned_by_def task_ok_iffs)

lemma demo_world_simps: "runs demo_world = [demo_running]" "run_coll unit_driver = list_queue"
  by (simp_all add: demo_world_def list_driver_def)

lemma demo_runs: "tasks_ok (docs list_queue [demo_running])" "task_at ''a'' (docs list_queue [demo_running]) = Some demo_running"
  by (simp_all add: tasks_ok_def list_coll_docs task_at_def demo_running_simps)

lemma demo_dispatch: "dispatch panicking_bodies ''catalog_ingest'' p s = (Panicked (Some ''boom''), s)"
  by (simp add: dispatch_def run_with_params_def panicking_bodies_def)

text \<open>
  C19: What a run becomes after its body, while the worker still owns it: a report makes it
  succeeded; a cancellation makes it canceled and any other error or a panic makes it failed
  with its message; but an error while the worker shuts down sends a retryable run back to the
  queue and fails any other one with the reason.  No other run changes.  The only exception is
  a failing write of the outcome itself, which the worker logs and does not repeat: then the
  runs may be left as the body left them, this one running until its lease expires.
\<close>

theorem run_outcome_is_recorded:
  fixes written :: "task \<Rightarrow> task" and show_json :: "json \<Rightarrow> string" and shutting_down :: bool
  assumes "task_queue (run_coll D)"
    and "dispatch B (task_type t) (params t) (run_context w k t, s) = (outcome, c', s')"
    and "tasks_ok (docs (run_coll D) (runs s'))"
    and "task_at (tid t) (docs (run_coll D) (runs s')) = Some cur" "owned_by (tid t) w cur"
  defines "written \<equiv> \<lambda>run. case body_result outcome of
        Inr report \<Rightarrow> finish_update Succeeded None (at_finish k) run
      | Inl e \<Rightarrow>
          if shutting_down then
            (if is_retryable (task_type t) then requeue_update run
             else finish_update Failed (Some (shutdown_error (task_type t))) (at_finish k) run)
          else if e = ErrCanceled then finish_update Canceled None (at_finish k) run
          else finish_update Failed (Some (fault_text e)) (at_finish k) run"
    and "left \<equiv> docs (run_coll D) (runs (run_one D B show_json w k shutting_down t s))"
  shows "task_at (tid t) left = Some (written cur) \<and>
      (\<forall>j. j \<noteq> tid t \<longrightarrow> task_at j left = task_at j (docs (run_coll D) (runs s'))) \<or>
    left = docs (run_coll D) (runs s') \<and>
      (\<exists>e db. update_one (run_coll D) (owned_by (tid t) w) written (runs s') = (Inl e, db))"
proof -
  have w: "written = concluded (task_type t) k shutting_down outcome"
    unfolding written_def by (simp add: fun_eq_iff concluded_def)
  have l: "left = docs (run_coll D) (runs (conclude D show_json w k shutting_down t outcome (c', s')))"
    by (simp add: left_def run_one_def assms(2))
  obtain r db where u: "update_one (run_coll D) (owned_by (tid t) w) written (runs s') = (r, db)"
    by fastforce
  show ?thesis
  proof (cases r)
    case (Inl e)
    with conclude_at_failed [OF assms(1,3) _ assms(4), of w k shutting_down outcome e db show_json c'] u
    show ?thesis by (auto simp: w l)
  next
    case (Inr n)
    with conclude_at_answered [OF assms(1,3), of t w k shutting_down outcome n db show_json c'] u assms(4,5)
    show ?thesis by (simp add: w l written_at_def)
  qed
qed

theorem run_outcome_is_recorded_witness:
  "task_at ''a'' (docs list_queue (runs (run_one unit_driver panicking_bodies (\<lambda>_. []) ''w'' demo_clock False
       demo_running demo_world))) =
     Some (finish_update Failed (Some ''task panicked: boom'') 7 demo_running)"
proof -
  have "dispatch panicking_bodies (task_type demo_running) (params demo_running)
      (run_context ''w'' demo_clock demo_running, demo_world) =
      (Panicked (Some ''boom''), run_context ''w'' demo_clock demo_running, demo_world)"
    by (simp add: demo_running_simps demo_dispatch)
  from run_outcome_is_recorded [OF _ this, where D = unit_driver and shutting_down = False and cur = demo_running
      and show_json = "\<lambda>_. []"]
  have "task_at ''a'' (docs list_queue (runs (run_one unit_driver panicking_bodies (\<lambda>_. []) ''w'' demo_clock False
       demo_running demo_world))) = Some (finish_update Failed (Some ''task panicked: boom'') 7 demo_running) \<or>
     (\<exists>f u db e db'. update_one list_queue f u db = (Inl e, db'))"
    by (auto simp: demo_world_simps list_tasks.task_queue_axioms demo_runs demo_running_simps demo_clock_def)
  moreover have "\<nexists>f u db e db'. update_one list_queue f u db = (Inl e, db')"
    using list_queue_total unfolding updates_never_fail_def by (metis Pair_inject sum.distinct(1))
  ultimately show ?thesis by blast
qed

text \<open>
  A worker that lost its run while the body ran leaves every stored run as the body left
  it, whatever the outcome and whether or not it is shutting down.
\<close>

theorem lost_run_is_left_alone:
  assumes "task_queue (run_coll D)"
    and "dispatch B (task_type t) (params t) (run_context w k t, s) = (outcome, c', s')"
    and "tasks_ok (docs (run_coll D) (runs s'))"
    and "case task_at (tid t) (docs (run_coll D) (runs s')) of None \<Rightarrow> True | Some cur \<Rightarrow> \<not> owned_by (tid t) w cur"
  shows "docs (run_coll D) (runs (run_one D B show_json w k shutting_down t s)) = docs (run_coll D) (runs s')"
proof -
  have "\<forall>x\<in>set (docs (run_coll D) (runs s')). \<not> owned_by (tid t) w x"
    using assms(4) task_at_unique [of "docs (run_coll D) (runs s')"] assms(3)
    by (fastforce simp: tasks_ok_def owned_by_def split: option.splits)
  then show ?thesis
    using doc_store.update_one_no_match [OF task_queue.axioms(1) [OF assms(1)], of "owned_by (tid t) w"]
    by (simp add: run_one_def assms(2) conclude_writes) (metis prod.collapse)
qed

theorem lost_run_is_left_alone_witness:
  "docs list_queue (runs (run_one unit_driver panicking_bodies (\<lambda>_. []) ''stale'' demo_clock True
       demo_running demo_world)) = [demo_running]"
proof -
  have "dispatch panicking_bodies (task_type demo_running) (params demo_running)
      (run_context ''stale'' demo_clock demo_running, demo_world) =
      (Panicked (Some ''boom''), run_context ''stale'' demo_clock demo_running, demo_world)"
    by (simp add: demo_running_simps demo_dispatch)
  moreover have "tasks_ok (docs (run_coll unit_driver) (runs demo_world))"
    by (simp only: demo_world_simps demo_runs)
  moreover have "case task_at (tid demo_running) (docs (run_coll unit_driver) (runs demo_world)) of
      None \<Rightarrow> True | Some cur \<Rightarrow> \<not> owned_by (tid demo_running) ''stale'' cur"
    by (simp only: demo_world_simps demo_runs demo_running_simps option.case) (simp add: owned_by_def demo_running_simps)
  ultimately have "docs (run_coll unit_driver) (runs (run_one unit_driver panicking_bodies (\<lambda>_. []) ''stale'' demo_clock True
       demo_running demo_world)) = docs (run_coll unit_driver) (runs demo_world)"
    by (intro lost_run_is_left_alone) (simp_all only: demo_world_simps list_tasks.task_queue_axioms list_queue_total)
  then show ?thesis by (simp only: demo_world_simps list_coll_docs)
qed

text \<open>
  A heartbeat that reaches the store tells the task to stop exactly when the worker is
  shutting down, a user asked to cancel the run, or the run is no longer this worker's; it goes
  on exactly while the run is this worker's, and the lease it leaves then ends a minute after it.
\<close>

theorem heartbeat_mirrors_cancellation:
  assumes "task_queue T" "updates_never_fail T" "tasks_ok (docs T ts)"
    and "heartbeat_tick T i w now shutting_down canceled ts = (canceled', go_on, ts')"
  shows "go_on = (case task_at i (docs T ts) of Some t \<Rightarrow> owned_by i w t | None \<Rightarrow> False) \<and>
    canceled' = (canceled \<or> shutting_down \<or> \<not> go_on \<or>
      (case task_at i (docs T ts) of Some t \<Rightarrow> cancel_requested t | None \<Rightarrow> False)) \<and>
    (if go_on then task_at i (docs T ts') = map_option (\<lambda>t. t\<lparr>lease_expires_at := Some (now + 60)\<rparr>) (task_at i (docs T ts))
     else docs T ts' = docs T ts)"
proof -
  obtain r db' where fu: "find_one_and_update T (owned_by i w)
      (\<lambda>t. t\<lparr>lease_expires_at := Some (now + LEASE_SECONDS)\<rparr>) None ts = (Inr r, db')"
    using assms(2) unfolding updates_never_fail_def by meson
  then have hb: "heartbeat T i w now ts = (Inr (map_option cancel_requested r), db')"
    by (simp add: heartbeat_def)
  have "distinct (map tid (docs T ts))" using assms(3) by (simp add: tasks_ok_def)
  from task_queue.heartbeat_result [OF assms(1) hb this] assms(4) hb
  show ?thesis
    by (auto simp: heartbeat_tick_def written_at_def LEASE_SECONDS_def split: option.splits if_splits bool.splits)
qed

theorem heartbeat_mirrors_cancellation_witness:
  "heartbeat_tick list_queue ''a'' ''w'' 20 False False [demo_running\<lparr>cancel_requested := True\<rparr>] =
     (True, True, [demo_running\<lparr>cancel_requested := True, lease_expires_at := Some 80\<rparr>])"
proof -
  let ?t = "demo_running\<lparr>cancel_requested := True\<rparr>"
  have ok: "tasks_ok (docs list_queue [?t])" "task_at ''a'' (docs list_queue [?t]) = Some ?t" "owned_by ''a'' ''w'' ?t"
    by (simp_all add: tasks_ok_def list_coll_docs task_at_def demo_running_def demo_task_def task_ok_iffs owned_by_def)
  obtain canceled' go_on ts' where tick: "heartbeat_tick list_queue ''a'' ''w'' 20 False False [?t] = (canceled', go_on, ts')"
    by (metis prod.exhaust)
  have "length ts' = 1"
    using tick by (auto simp: heartbeat_tick_def heartbeat_def list_coll_def first_by_def Let_def
        split: if_splits option.splits bool.splits)
  then obtain t' where "ts' = [t']" by (auto simp: length_Suc_conv)
  with heartbeat_mirrors_cancellation [OF list_tasks.task_queue_axioms list_queue_total ok(1) tick] ok(2,3) tick
  show ?thesis by (simp add: list_coll_docs task_at_def split: if_splits)
qed

text \<open>
  The invariant of the loop: the runs stay well formed if the bodies, and whatever the rest of
  the system does meanwhile, keep them so.
\<close>

definition keeps_runs :: "('t, task) collection \<Rightarrow> (('t, 'l, 'm) world \<Rightarrow> ('t, 'l, 'm) world) \<Rightarrow> bool" where
  "keeps_runs T f \<longleftrightarrow> (\<forall>s. tasks_ok (docs T (runs s)) \<longrightarrow> tasks_ok (docs T (runs (f s))))"

definition bodies_keep_runs ::
  "('t, task) collection \<Rightarrow> ('p, task_context \<times> ('t, 'l, 'm) world) task_bodies \<Rightarrow> bool" where
  "bodies_keep_runs T B \<longleftrightarrow> (\<forall>k p c. keeps_runs T (\<lambda>s. snd (snd (run_body B k p (c, s)))))"

lemma finish_run_ok:
  assumes "task_queue (run_coll D)" "tasks_ok (docs (run_coll D) (runs s))" "is_terminal st"
  shows "tasks_ok (docs (run_coll D) (runs (finish_run D w k t st err s)))"
proof -
  obtain r ts ls where fc: "finish_claimed (run_coll D) (log_coll D) (tid t) w st err (at_finish k) (at_finish_ms k)
      (runs s, run_logs s) = (r, ts, ls)" by (metis prod.exhaust)
  then have "queue_step (run_coll D) (log_coll D) (FinishClaimed (tid t) w st err (at_finish k) (at_finish_ms k))
      (runs s, run_logs s) = (ts, ls)" by simp
  from task_queue.queue_step_ok [OF assms(1) this _ assms(2)] assms(3) fc show ?thesis
    by (simp add: finish_run_def)
qed

lemma conclude_ok:
  assumes "task_queue (run_coll D)" "tasks_ok (docs (run_coll D) (runs s))"
  shows "tasks_ok (docs (run_coll D) (runs (conclude D show_json w k shutting_down t outcome (c, s))))"
proof -
  obtain c1 s1 where fl: "flush_logs D (at_flush k) (at_flush_ms k) (c, s) = (c1, s1)" by fastforce
  then have ok1: "tasks_ok (docs (run_coll D) (runs s1))" using assms(2) by (metis flush_logs_runs snd_conv)
  have fin: "tasks_ok (docs (run_coll D) (runs (finish_run D w k t st err s2)))"
    if "is_terminal st" "runs s2 = runs s1" for st err s2
    using finish_run_ok [OF assms(1) _ that(1)] ok1 that(2) by metis
  have rel: "tasks_ok (docs (run_coll D) (snd (release (run_coll D) (tid t) w (runs s1))))"
    using task_queue.queue_step_ok [OF assms(1), of _ "Release (tid t) w" "runs s1" "run_logs s1", OF surjective_pairing _ ok1]
    by simp
  show ?thesis
    using fin rel
    by (cases "body_result outcome"; cases "projl (body_result outcome)")
       (simp_all add: conclude_def fl Let_def case_prod_beta is_err_def)
qed

lemma run_one_ok:
  assumes "task_queue (run_coll D)" "bodies_keep_runs (run_coll D) B" "tasks_ok (docs (run_coll D) (runs s))"
  shows "tasks_ok (docs (run_coll D) (runs (run_one D B show_json w k shutting_down t s)))"
proof -
  obtain outcome c' s' where ds: "dispatch B (task_type t) (params t) (run_context w k t, s) = (outcome, c', s')"
    by (metis prod.exhaust)
  have "tasks_ok (docs (run_coll D) (runs s'))"
  proof (cases "registered (task_type t)")
    case True
    then obtain kind where kind: "task_type t = task_type_as_str kind" using registered_cases by blast
    have "s' = s \<or> (\<exists>p. s' = snd (snd (run_body B kind p (run_context w k t, s))))"
      using ds unfolding kind dispatch_known run_with_params_def
      by (auto split: sum.splits) (metis snd_conv)
    then show ?thesis using assms(2,3) unfolding bodies_keep_runs_def keeps_runs_def by metis
  next
    case False
    with ds assms(3) show ?thesis by (simp add: dispatch_unknown)
  qed
  from conclude_ok [OF assms(1) this] show ?thesis by (simp add: run_one_def ds)
qed

text \<open>
  The worker's main loop, for any number of turns, keeps every stored run well formed, as
  long as the task bodies and the rest of the system do: sweeping, claiming, running, releasing
  and finishing never leave a run without the owner, the lease or the end its status calls for.
\<close>

theorem worker_loop_keeps_runs:
  assumes "task_queue (run_coll D)" "bodies_keep_runs (run_coll D) B"
    and "list_all (\<lambda>u. keeps_runs (run_coll D) (asleep u)) us" "tasks_ok (docs (run_coll D) (runs s))"
  shows "tasks_ok (docs (run_coll D) (runs (worker_loop D B show_json w us s)))"
  using assms(3,4)
proof (induction us arbitrary: s)
  case (Cons u us)
  let ?T = "run_coll D" and ?L = "log_coll D"
  obtain r ts ls where sw: "requeue_expired ?T ?L (sweep_at1 u) (sweep_at2 u) (sweep_at3 u) (sweep_ms u)
      (runs s, run_logs s) = (r, ts, ls)" by (metis prod.exhaust)
  obtain q ts' where cl: "claim_next ?T w (claim_at1 u) (claim_at2 u) ts = (q, ts')" by fastforce
  have "queue_step ?T ?L (Reap (sweep_at1 u) (sweep_at2 u) (sweep_at3 u) (sweep_ms u)) (runs s, run_logs s) = (ts, ls)"
    using sw by simp
  from task_queue.queue_step_ok [OF assms(1) this _ Cons.prems(2)] have "tasks_ok (docs ?T ts)" by simp
  moreover have "queue_step ?T ?L (Claim w (claim_at1 u) (claim_at2 u)) (ts, ls) = (ts', ls)" using cl by simp
  ultimately have ok: "tasks_ok (docs ?T (runs (s\<lparr>runs := ts', run_logs := ls\<rparr>)))"
    using task_queue.queue_step_ok [OF assms(1), of ?L "Claim w (claim_at1 u) (claim_at2 u)" ts ls ts' ls] by simp
  then have slept: "tasks_ok (docs ?T (runs (asleep u (s\<lparr>runs := ts', run_logs := ls\<rparr>))))"
    using Cons.prems(1) unfolding keeps_runs_def list.pred_inject by blast
  have us: "list_all (\<lambda>u. keeps_runs ?T (asleep u)) us" using Cons.prems(1) by simp
  show ?case
    using Cons.IH [OF us slept] Cons.IH [OF us run_one_ok [OF assms(1,2) ok]] Cons.prems(2)
    by (simp add: sw cl split: sum.splits option.splits)
qed simp

theorem worker_loop_keeps_runs_witness:
  "tasks_ok (docs list_queue (runs (worker_loop unit_driver panicking_bodies (\<lambda>_. []) ''v''
     [\<lparr>stop_first = False, sweep_at1 = 100, sweep_at2 = 100, sweep_at3 = 100, sweep_ms = (\<lambda>_. 0),
       claim_at1 = 101, claim_at2 = 101, asleep = (\<lambda>s. s), stop_after = False, clock = demo_clock\<rparr>] demo_world)))"
proof -
  have "bodies_keep_runs (run_coll unit_driver) panicking_bodies"
    by (simp add: bodies_keep_runs_def keeps_runs_def panicking_bodies_def)
  from worker_loop_keeps_runs [OF _ this, where s = demo_world and w = "''v''" and show_json = "\<lambda>_. []" and
      us = "[\<lparr>stop_first = False, sweep_at1 = 100, sweep_at2 = 100, sweep_at3 = 100, sweep_ms = (\<lambda>_. 0),
       claim_at1 = 101, claim_at2 = 101, asleep = (\<lambda>s. s), stop_after = False, clock = demo_clock\<rparr>]"]
  show ?thesis
    by (simp add: demo_world_simps list_tasks.task_queue_axioms demo_runs keeps_runs_def del: worker_loop.simps)
qed

text \<open>
  The ownership contract of the queue: the worker that a claim answers can record the
  outcome of the run at once, and once an outcome is recorded a second one, from the same or
  any other worker, is refused and changes nothing of the run.
\<close>

theorem first_outcome_wins:
  assumes "task_system T L" "tasks_ok (docs T (fst s))" "claim_on T now1 now2 w s = (Inr (Some t), s1)"
    and "finish_claimed T L (tid t) w st err now now_ms s1 = (Inr ok, s2)" "is_terminal st"
    and "finish_claimed T L (tid t) w' st' err' now now_ms s2 = (Inr again, s3)"
  shows "ok \<and> \<not> again \<and> task_at (tid t) (docs T (fst s3)) = task_at (tid t) (docs T (fst s2)) \<and>
    (\<exists>t'. task_at (tid t) (docs T (fst s2)) = Some t' \<and> status t' = st \<and> task_error t' = err)"
proof -
  have tq: "task_queue T" using assms(1) by (simp add: task_system_def)
  have ok1: "tasks_ok (docs T (fst s1))"
    using task_system.claim_gives_ownership [OF assms(1,2,3)] by blast
  have "queue_step T L (FinishClaimed (tid t) w st err now now_ms) (fst s1, snd s1) = (fst s2, snd s2)"
    using assms(4) by (cases s1) simp
  from task_queue.queue_step_ok [OF tq this _ ok1] have ok2: "tasks_ok (docs T (fst s2))"
    using assms(5) by simp
  have "ok \<and> (\<exists>t'. task_at (tid t) (docs T (fst s2)) = Some t' \<and> status t' = st \<and> task_error t' = err)"
    by (rule task_system.claim_then_finish [OF assms(1,2,3,4)])
  moreover have "\<not> again \<and> task_at (tid t) (docs T (fst s3)) = task_at (tid t) (docs T (fst s2))"
    using task_system.second_finish_refused [OF assms(1) ok1 _ ok2 _ assms(6)] assms(4,5) calculation
    by (auto simp: is_terminal_iff)
  ultimately show ?thesis by blast
qed

theorem first_outcome_wins_witness:
  "fst (finish_claimed list_queue list_log ''a'' ''v'' Failed None 9 9000
     (snd (finish_claimed list_queue list_log ''a'' ''w'' Succeeded None 9 9000
        (snd (claim_on list_queue 2 2 ''w'' ([demo_task ''a'' ''catalog_ingest'' 1], [])))))) = Inr False"
proof -
  let ?s = "([demo_task ''a'' ''catalog_ingest'' 1], [] :: task_log_chunk list)"
  have cl: "claim_on list_queue 2 2 ''w'' ?s = (Inr (Some demo_running), ([demo_running], []))"
    by (simp add: claim_on_def claim_next_def list_coll_def first_by_def claim_update_def demo_running_def
        demo_task_def LEASE_SECONDS_def)
  have fin: "finish_claimed list_queue list_log (tid demo_running) ''w'' Succeeded None 9 9000 ([demo_running], []) =
      (Inr True, [finish_update Succeeded None 9 demo_running], [])"
    by (simp add: finish_claimed_def list_coll_def demo_running_simps)
  have ag: "finish_claimed list_queue list_log (tid demo_running) ''v'' Failed None 9 9000
      ([finish_update Succeeded None 9 demo_running], []) =
      (Inr False, [finish_update Succeeded None 9 demo_running], [])"
    by (simp add: finish_claimed_def list_coll_def extend_retention_def owned_by_def finish_update_def)
  have "tasks_ok (docs list_queue (fst ?s))" by (simp add: list_coll_docs tasks_ok_def demo_task_ok)
  from first_outcome_wins [OF list_system.task_system_axioms this cl fin _ ag] cl fin ag
  show ?thesis by (simp add: demo_running_simps)
qed

end
