(* ===== verification/Api_Response.thy ===== *)
theory Api_Response
  imports Prelude
begin

text \<open>
  The answers of the HTTP routes (\<open>src/src/api/models/response.rs\<close>): the status, the message and,
  where the route gives them, the data.  The encoding into JSON is the web framework's.
\<close>

datatype 'a response =
    Success string 'a
  | Success_Without_Data string
  | Conflict string 'a
  | Unauthorized string
  | Forbidden string
  | BadRequest string
  | NotFound string
  | InternalError string
  | RequestTimeout string
  | ServiceUnavailable string

fun is_success :: "'a response \<Rightarrow> bool" where
  "is_success (Success _ _) = True"
| "is_success (Success_Without_Data _) = True"
| "is_success _ = False"

end
