(* ===== verification/Task_Routes.thy ===== *)
theory Task_Routes
  imports Task_Worker Api_Response
begin

text \<open>
  The admin's view of the task system: who counts as an admin (\<open>src/src/api/admin.rs\<close>) and the
  routes (\<open>src/src/api/routes/tasks.rs\<close>).  A response is its status, its message and its data;
  the JSON encoding of the data is left to the web framework.
\<close>

section \<open>Admins\<close>

record account =
  account_id :: string
  account_username :: string
  is_admin :: bool

record admin_actor =
  realm :: string
  admin_user_id :: string
  admin_username :: string

datatype admin_denied = NotAnAdmin | Unauthenticated

definition as_task_actor :: "admin_actor \<Rightarrow> actor" where
  "as_task_actor a = \<lparr>user_id = realm a @ '':'' @ admin_user_id a, username = admin_username a\<rparr>"

definition resolve_admin :: "account option \<Rightarrow> account option \<Rightarrow> (admin_denied, admin_actor) result" where
  "resolve_admin boom_user babamul_user =
     (case boom_user of
        Some u \<Rightarrow>
          if is_admin u
          then Inr \<lparr>realm = ''boom'', admin_user_id = account_id u, admin_username = account_username u\<rparr>
          else Inl NotAnAdmin
      | None \<Rightarrow>
          (case babamul_user of
             Some u \<Rightarrow>
               if is_admin u
               then Inr \<lparr>realm = ''babamul'', admin_user_id = account_id u, admin_username = account_username u\<rparr>
               else Inl NotAnAdmin
           | None \<Rightarrow> Inl Unauthenticated))"

section \<open>Errors and limits\<close>

fun queue_error_text :: "queue_error \<Rightarrow> string" where
  "queue_error_text (Mongo e) = mongo_text e"
| "queue_error_text (Serialize m) = ''failed to serialize the run: '' @ m"
| "queue_error_text (Deserialize m) = ''failed to deserialize the run: '' @ m"

definition DEFAULT_LIST_LIMIT :: int where "DEFAULT_LIST_LIMIT = 50"
definition MAX_LIST_LIMIT :: int where "MAX_LIST_LIMIT = 500"

definition list_limit :: "int option \<Rightarrow> int" where
  "list_limit lmt =
     (let n = (case lmt of None \<Rightarrow> DEFAULT_LIST_LIMIT | Some n \<Rightarrow> n) in max 1 (min n MAX_LIST_LIMIT))"

definition redacted :: "task \<Rightarrow> task" where
  "redacted t = t\<lparr>params := redact_params (params t)\<rparr>"

section \<open>Submitting a run\<close>

definition queued_task :: "string \<Rightarrow> real \<Rightarrow> admin_actor \<Rightarrow> string \<Rightarrow> json \<Rightarrow> task" where
  "queued_task uuid now admin ty p = \<lparr>tid = uuid, task_type = ty, params = p, status = Queued,
     task_actor = as_task_actor admin, task_trigger = Api, requested_at = now, started_at = None,
     finished_at = None, task_progress = default_progress, worker = None, lease_expires_at = None,
     cancel_requested = False, task_error = None, attempts = 0\<rparr>"

text \<open>
  \<open>submit_task\<close> in the two halves that other requests can interleave with: the checks, which
  answer or let the request through, and the insertion.
\<close>

definition submit_checks ::
  "('t, task) collection \<Rightarrow> ('p, 's) task_bodies \<Rightarrow> string \<Rightarrow> json \<Rightarrow> 't \<Rightarrow> task response option" where
  "submit_checks T B ty p db =
     (case validate_params B ty p of
        Inl e \<Rightarrow> Some (BadRequest (fault_text e))
      | Inr _ \<Rightarrow>
          (case single_flight_key ty p of
             None \<Rightarrow> None
           | Some key \<Rightarrow>
               (case find_active T ty key db of
                  Inr (Some existing) \<Rightarrow>
                    Some (Conflict ''an equivalent run is already queued or running'' (redacted existing))
                | Inr None \<Rightarrow> None
                | Inl e \<Rightarrow> Some (InternalError (''failed to check for active runs: '' @ queue_error_text e)))))"

definition submit_insert ::
  "('t, task) collection \<Rightarrow> string \<Rightarrow> real \<Rightarrow> admin_actor \<Rightarrow> string \<Rightarrow> json \<Rightarrow> 't \<Rightarrow> task response \<times> 't" where
  "submit_insert T uuid now admin ty p db =
     (let t = queued_task uuid now admin ty p
      in case submit T t db of
           (Inr _, db') \<Rightarrow> (Success ''success'' (redacted t), db')
         | (Inl e, db') \<Rightarrow> (InternalError (''failed to queue the task: '' @ queue_error_text e), db'))"

definition submit_task ::
  "('t, task) collection \<Rightarrow> ('p, 's) task_bodies \<Rightarrow> string \<Rightarrow> real \<Rightarrow> admin_actor \<Rightarrow> string \<Rightarrow> json \<Rightarrow> 't \<Rightarrow>
     task response \<times> 't" where
  "submit_task T B uuid now admin ty p db =
     (case submit_checks T B ty p db of
        Some r \<Rightarrow> (r, db)
      | None \<Rightarrow> submit_insert T uuid now admin ty p db)"

section \<open>Reading and cancelling\<close>

definition get_tasks ::
  "('t, task) collection \<Rightarrow> string option \<Rightarrow> int option \<Rightarrow> 't \<Rightarrow> task list response" where
  "get_tasks T ty lmt db =
     (case list_tasks T ty (list_limit lmt) db of
        Inr rs \<Rightarrow> Success ''success'' (map redacted rs)
      | Inl e \<Rightarrow> InternalError (''failed to list runs: '' @ queue_error_text e))"

definition get_task_route :: "('t, task) collection \<Rightarrow> string \<Rightarrow> 't \<Rightarrow> task response" where
  "get_task_route T i db =
     (case get_task T i db of
        Inr (Some t) \<Rightarrow> Success ''success'' (redacted t)
      | Inr None \<Rightarrow> NotFound ''no such run''
      | Inl e \<Rightarrow> InternalError (''failed to read the task: '' @ queue_error_text e))"

definition get_task_logs ::
  "('l, task_log_chunk) collection \<Rightarrow> string \<Rightarrow> u64 option \<Rightarrow> 'l \<Rightarrow> task_log_chunk list response" where
  "get_task_logs L i after_seq db =
     (case read_after L db i after_seq of
        Inr chunks \<Rightarrow> Success ''success'' chunks
      | Inl e \<Rightarrow> InternalError (''failed to read logs: '' @ mongo_text e))"

definition cancel_task ::
  "('t, task) collection \<Rightarrow> string \<Rightarrow> real \<Rightarrow> 't \<Rightarrow> task_status response \<times> 't" where
  "cancel_task T i now db =
     (case request_cancel T i now db of
        (Inr None, db') \<Rightarrow> (NotFound ''no such run'', db')
      | (Inr (Some st), db') \<Rightarrow>
          (let msg = (case st of
                        Running \<Rightarrow> ''cancellation requested; the run will stop at its next safe point''
                      | Canceled \<Rightarrow> ''run canceled''
                      | _ \<Rightarrow> ''run had already finished'')
           in (Success msg st, db'))
      | (Inl e, db') \<Rightarrow> (InternalError (''failed to request cancellation: '' @ queue_error_text e), db'))"

definition get_data_mutations ::
  "('m, 'x mutation_record) collection \<Rightarrow> string option \<Rightarrow> int option \<Rightarrow> 'm \<Rightarrow>
     'x mutation_record list response" where
  "get_data_mutations M name lmt db =
     (case history M name (list_limit lmt) db of
        Inr es \<Rightarrow> Success ''success'' es
      | Inl e \<Rightarrow> InternalError (''failed to read the ledger: '' @ ''failed to record a data mutation''))"

lemma list_limit_bounds: "1 \<le> list_limit lmt \<and> list_limit lmt \<le> 500"
  by (simp add: list_limit_def MAX_LIST_LIMIT_def Let_def)

lemma queued_task_ok: "task_ok (queued_task uuid now admin ty p)" "status (queued_task uuid now admin ty p) = Queued"
  by (simp_all add: queued_task_def task_ok_iffs)

context task_queue
begin

lemma find_active_result:
  assumes "find_active T ty key db = Inr r"
  shows "case r of None \<Rightarrow> \<forall>t\<in>set (docs T db). \<not> active_match ty key t
    | Some t \<Rightarrow> t \<in> set (docs T db) \<and> active_match ty key t"
proof -
  from assms have "find_one T (active_match ty key) None db = Inr r"
    by (simp add: find_active_def map_err_Inr)
  from find_one_law [OF this] show ?thesis by (auto split: option.splits)
qed

lemma submit_checks_result:
  "case submit_checks T B ty p db of
     None \<Rightarrow> validate_params B ty p = Inr () \<and>
       (case single_flight_key ty p of None \<Rightarrow> True
        | Some key \<Rightarrow> \<forall>t\<in>set (docs T db). \<not> active_match ty key t)
   | Some (Conflict msg t) \<Rightarrow> \<exists>key existing. single_flight_key ty p = Some key \<and>
       existing \<in> set (docs T db) \<and> active_match ty key existing \<and> t = redacted existing
   | Some (BadRequest msg) \<Rightarrow> \<exists>e. validate_params B ty p = Inl e \<and> msg = fault_text e
   | Some (InternalError msg) \<Rightarrow> True
   | Some _ \<Rightarrow> False"
proof (cases "validate_params B ty p")
  case (Inr u)
  show ?thesis
  proof (cases "single_flight_key ty p")
    case (Some key)
    show ?thesis
    proof (cases "find_active T ty key db")
      case (Inr r)
      with find_active_result [OF Inr] \<open>validate_params B ty p = Inr u\<close> Some show ?thesis
        by (auto simp: submit_checks_def split: option.splits)
    qed (use Inr Some in \<open>simp add: submit_checks_def\<close>)
  qed (use Inr in \<open>simp add: submit_checks_def\<close>)
qed (simp add: submit_checks_def)

lemma submit_insert_result:
  assumes "submit_insert T uuid now admin ty p db = (r, db')"
  shows "case r of
     Success msg t \<Rightarrow> docs T db' = docs T db @ [queued_task uuid now admin ty p] \<and>
       t = redacted (queued_task uuid now admin ty p)
   | InternalError msg \<Rightarrow> docs T db' = docs T db \<or> docs T db' = docs T db @ [queued_task uuid now admin ty p]
   | _ \<Rightarrow> False"
proof -
  obtain q db1 where sub: "submit T (queued_task uuid now admin ty p) db = (q, db1)" by fastforce
  with submit_docs [OF sub] assms show ?thesis
    by (auto simp: submit_insert_def Let_def split: sum.splits)
qed

end

section \<open>Properties\<close>

text \<open>
  Only an admin is let through, and an account of the main realm that is not one is refused
  without a second chance in the other realm; the actor recorded on a run is qualified by the
  realm, so that equal ids of the two realms stay apart.
\<close>

theorem admin_resolution:
  "(resolve_admin boom_user babamul_user = Inr a \<longleftrightarrow>
      (\<exists>u. boom_user = Some u \<and> is_admin u \<and>
           a = \<lparr>realm = ''boom'', admin_user_id = account_id u, admin_username = account_username u\<rparr>) \<or>
      (\<exists>u. boom_user = None \<and> babamul_user = Some u \<and> is_admin u \<and>
           a = \<lparr>realm = ''babamul'', admin_user_id = account_id u, admin_username = account_username u\<rparr>)) \<and>
   (resolve_admin boom_user babamul_user = Inl Unauthenticated \<longleftrightarrow> boom_user = None \<and> babamul_user = None) \<and>
   user_id (as_task_actor \<lparr>realm = ''boom'', admin_user_id = i, admin_username = n\<rparr>) \<noteq>
   user_id (as_task_actor \<lparr>realm = ''babamul'', admin_user_id = j, admin_username = n\<rparr>)"
  by (auto simp: resolve_admin_def as_task_actor_def split: option.splits)

text \<open>
  A submission has one of four answers: the parameters are refused and nothing is stored;
  an equivalent run is queued or running, which is returned and nothing is stored; the run is
  stored as queued, under the admin who asked, and returned masked, no equivalent run being
  active when that was checked; or the database failed.
\<close>

theorem submission_answers:
  assumes "task_queue T" "submit_task T B uuid now admin ty p db = (r, db')"
  shows "case r of
     Success msg t \<Rightarrow> validate_params B ty p = Inr () \<and>
       (case single_flight_key ty p of None \<Rightarrow> True
        | Some key \<Rightarrow> \<forall>t\<in>set (docs T db). \<not> active_match ty key t) \<and>
       docs T db' = docs T db @ [queued_task uuid now admin ty p] \<and>
       t = redacted (queued_task uuid now admin ty p)
   | Conflict msg t \<Rightarrow> db' = db \<and> (\<exists>key existing. single_flight_key ty p = Some key \<and>
       existing \<in> set (docs T db) \<and> active_match ty key existing \<and> t = redacted existing)
   | BadRequest msg \<Rightarrow> db' = db \<and> (\<exists>e. validate_params B ty p = Inl e \<and> msg = fault_text e)
   | NotFound msg \<Rightarrow> False
   | InternalError msg \<Rightarrow> docs T db' = docs T db \<or> docs T db' = docs T db @ [queued_task uuid now admin ty p]"
proof (cases "submit_checks T B ty p db")
  case None
  with assms(2) have ins: "submit_insert T uuid now admin ty p db = (r, db')" by (simp add: submit_task_def)
  from task_queue.submit_insert_result [OF assms(1) ins] task_queue.submit_checks_result [OF assms(1), of B ty p db] None
  show ?thesis by (cases r) simp_all
next
  case (Some q)
  with assms(2) have "r = q" "db' = db" by (simp_all add: submit_task_def)
  with Some task_queue.submit_checks_result [OF assms(1), of B ty p db] show ?thesis
    by (cases q) simp_all
qed

abbreviation some_bodies :: "(unit, unit) task_bodies" where
  "some_bodies \<equiv> panicking_bodies"

definition demo_admin :: admin_actor where
  "demo_admin = \<lparr>realm = ''boom'', admin_user_id = ''1'', admin_username = ''ann''\<rparr>"

definition catalog_params :: "string \<Rightarrow> json" where
  "catalog_params c = JObject [(''catalog'', JString c)]"

lemma catalog_ingest_checks:
  "validate_params panicking_bodies ''catalog_ingest'' p = Inr ()"
  "single_flight_key ''catalog_ingest'' (catalog_params c) = Some [(''catalog'', c)]"
  by (simp_all add: validate_params_def check_params_def panicking_bodies_def single_flight_key_def
      str_field_def catalog_params_def)

lemma catalog_active:
  "active_match ''catalog_ingest'' [(''catalog'', c)] (queued_task i now admin ''catalog_ingest'' (catalog_params c))"
  by (simp add: active_match_def queued_task_def param_matches_def catalog_params_def)

theorem submission_answers_witness:
  "case submit_task list_queue some_bodies ''b'' 2 demo_admin ''catalog_ingest'' (catalog_params ''ned'')
       [queued_task ''a'' 1 demo_admin ''catalog_ingest'' (catalog_params ''ned'')] of
     (Conflict msg t, db') \<Rightarrow> tid t = ''a'' \<and> length db' = 1 | _ \<Rightarrow> False"
proof -
  let ?a = "queued_task ''a'' 1 demo_admin ''catalog_ingest'' (catalog_params ''ned'')"
  have act: "active_match ''catalog_ingest'' [(''catalog'', ''ned'')] ?a"
    by (simp add: active_match_def queued_task_def param_matches_def catalog_params_def)
  obtain r db' where sub: "submit_task list_queue some_bodies ''b'' 2 demo_admin ''catalog_ingest''
      (catalog_params ''ned'') [?a] = (r, db')" by fastforce
  have "\<exists>msg t. r = Conflict msg t"
    using sub act by (auto simp: submit_task_def submit_checks_def catalog_ingest_checks find_active_def
        list_coll_def first_by_def)
  then obtain msg t where r: "r = Conflict msg t" by blast
  with submission_answers [OF list_tasks.task_queue_axioms sub]
  have "db' = [?a]" "t = redacted ?a" by (auto simp: list_coll_docs)
  then have "tid t = ''a'' \<and> length db' = 1" by (simp add: redacted_def queued_task_def)
  then show ?thesis using sub r by simp
qed

text \<open>
  The single-flight check is not atomic with the insertion: two submissions for the same
  catalog that are both checked before either is stored are both accepted, and leave two
  equivalent runs queued at once.
\<close>

theorem single_flight_can_be_raced:
  assumes "a \<noteq> b" "validate_params B ''catalog_ingest'' (catalog_params c) = Inr ()"
  shows "submit_checks list_queue B ''catalog_ingest'' (catalog_params c) [] = None \<and>
    (case submit_insert list_queue a now_a admin_a ''catalog_ingest'' (catalog_params c) [] of
       (Success _ t, db) \<Rightarrow>
         (case submit_insert list_queue b now_b admin_b ''catalog_ingest'' (catalog_params c) db of
            (Success _ t', db') \<Rightarrow> length (filter (active_match ''catalog_ingest'' [(''catalog'', c)]) db') = 2
          | _ \<Rightarrow> False)
     | _ \<Rightarrow> False)"
proof -
  have ids: "tid (queued_task i now admin ty p) = i" for i now admin ty p by (simp add: queued_task_def)
  have "submit_checks list_queue B ''catalog_ingest'' (catalog_params c) [] = None"
    using assms(2) by (simp add: submit_checks_def catalog_ingest_checks find_active_def list_coll_def)
  then show ?thesis
    using assms(1) by (simp add: submit_insert_def submit_def Let_def list_coll_def ids catalog_active)
qed

theorem single_flight_can_be_raced_witness:
  "submit_checks list_queue some_bodies ''catalog_ingest'' (catalog_params ''ned'') [] = None"
  by (rule single_flight_can_be_raced [where a = "''a''" and b = "''b''", THEN conjunct1])
     (simp_all add: catalog_ingest_checks)

text \<open>
  The run list answers with the newest runs of the type first, each masked, at most as many
  as the limit asked for and never more than 500; a limit of less than one counts as one.
\<close>

theorem run_list_is_bounded_and_masked:
  assumes "doc_store T" "get_tasks T ty lmt db = Success msg ts"
  shows "\<exists>ds. set ds = {t \<in> set (docs T db). case ty of Some k \<Rightarrow> task_type t = k | None \<Rightarrow> True} \<and>
      sorted_wrt (\<lambda>x y. requested_at y \<le> requested_at x) ds \<and>
      ts = map redacted (take (nat (list_limit lmt)) ds) \<and> length ts \<le> 500"
proof -
  let ?f = "\<lambda>t. case ty of Some k \<Rightarrow> task_type t = k | None \<Rightarrow> True"
  obtain rs where rs: "find_docs T ?f (Some (\<lambda>t. - requested_at t)) (Some (list_limit lmt)) db = Inr rs"
    "ts = map redacted rs"
    using assms(2) by (auto simp: get_tasks_def list_tasks_def map_err_def split: sum.splits)
  from doc_store.find_docs_law [OF assms(1) rs(1)] obtain ds where
    ds: "set ds = {t \<in> set (docs T db). ?f t}" "sorted (map (\<lambda>t. - requested_at t) ds)"
      "rs = take (nat (list_limit lmt)) ds"
    using list_limit_bounds [of lmt] by (auto simp: sorted_by_def limited_def)
  then have "sorted_wrt (\<lambda>x y. requested_at y \<le> requested_at x) ds" by (simp add: sorted_wrt_map)
  moreover have "nat (list_limit lmt) \<le> 500" using list_limit_bounds [of lmt] by linarith
  then have "length ts \<le> 500" using rs(2) ds(3) by simp
  ultimately show ?thesis using ds rs(2) by blast
qed

theorem run_list_is_bounded_and_masked_witness:
  "\<exists>ds. set ds = {t \<in> set (docs list_queue [demo_task ''old'' ''t'' 1, demo_task ''new'' ''t'' 2]).
       case None of Some k \<Rightarrow> task_type t = k | None \<Rightarrow> True} \<and>
     sorted_wrt (\<lambda>x y. requested_at y \<le> requested_at x) ds \<and>
     [demo_task ''new'' ''t'' 2] = map redacted (take (nat (list_limit (Some (- 3)))) ds) \<and>
     length [demo_task ''new'' ''t'' 2] \<le> 500"
proof -
  have "get_tasks list_queue None (Some (- 3)) [demo_task ''old'' ''t'' 1, demo_task ''new'' ''t'' 2] =
      Success ''success'' [demo_task ''new'' ''t'' 2]"
    by (simp add: get_tasks_def list_tasks_def list_coll_def sort_docs_def limit_docs_def list_limit_def
        DEFAULT_LIST_LIMIT_def MAX_LIST_LIMIT_def demo_task_def redacted_def)
  then show ?thesis by (rule run_list_is_bounded_and_masked [OF list_store.doc_store_axioms])
qed

text \<open>
  The error of a failed run is stored and answered as the task body gave it: the masking of
  a response covers the parameters only, so a URI in the message shows its password, although
  the log line of the same failure is masked.
\<close>

theorem failure_message_is_not_masked:
  assumes "task_queue (run_coll D)" "updates_never_fail (run_coll D)"
    and "dispatch B (task_type t) (params t) (run_context w k t, s) = (Returned (Inl (ErrFailed m)), c', s')"
    and "tasks_ok (docs (run_coll D) (runs s'))"
    and "task_at (tid t) (docs (run_coll D) (runs s')) = Some cur" "owned_by (tid t) w cur"
    and "get_task_route (run_coll D) (tid t) (runs (run_one D B show_json w k False t s)) = Success msg answer"
    and "tasks_ok (docs (run_coll D) (runs (run_one D B show_json w k False t s)))"
  shows "status answer = Failed \<and> task_error answer = Some m"
proof -
  let ?s = "runs (run_one D B show_json w k False t s)"
  have w: "written_at (tid t) (owned_by (tid t) w) (concluded (task_type t) k False (Returned (Inl (ErrFailed m))))
      (docs (run_coll D) (runs s')) True (docs (run_coll D) ?s)"
    using conclude_at [OF assms(1,2,4), of t w k False "Returned (Inl (ErrFailed m))" show_json c'] assms(3,5,6)
    by (simp add: run_one_def)
  then have at: "task_at (tid t) (docs (run_coll D) ?s) = Some (finish_update Failed (Some m) (at_finish k) cur)"
    using assms(5) by (simp add: written_at_def concluded_def)
  obtain r where r: "get_task (run_coll D) (tid t) ?s = Inr (Some r)" "answer = redacted r"
    using assms(7) by (auto simp: get_task_route_def split: sum.splits option.splits)
  have "Some r = task_at (tid t) (docs (run_coll D) ?s)"
    using task_queue.get_task_result [OF assms(1) r(1)] assms(8) by (simp add: tasks_ok_def)
  then show ?thesis using at r(2) by (simp add: redacted_def finish_update_def)
qed

definition failing_bodies :: "string \<Rightarrow> (unit, 's) task_bodies" where
  "failing_bodies m = \<lparr>deserialize = (\<lambda>_ _. Inr ()), validate = (\<lambda>_ _. Inr ()),
     run_body = (\<lambda>_ _ s. (Returned (Inl (ErrFailed m)), s))\<rparr>"

theorem failure_message_is_not_masked_witness:
  "\<exists>answer. get_task_route list_queue ''a'' (runs (run_one unit_driver (failing_bodies ''mongodb://u:pw@h'') (\<lambda>_. [])
       ''w'' demo_clock False demo_running demo_world)) = Success ''success'' answer \<and>
     task_error answer = Some ''mongodb://u:pw@h''"
proof -
  let ?B = "failing_bodies ''mongodb://u:pw@h''"
  let ?r = "run_one unit_driver ?B (\<lambda>_. []) ''w'' demo_clock False demo_running demo_world"
  have ds: "dispatch ?B (task_type demo_running) (params demo_running)
      (run_context ''w'' demo_clock demo_running, demo_world) =
      (Returned (Inl (ErrFailed ''mongodb://u:pw@h'')), run_context ''w'' demo_clock demo_running, demo_world)"
    by (simp add: demo_running_simps dispatch_def run_with_params_def failing_bodies_def)
  have w: "task_queue (run_coll unit_driver)" "updates_never_fail (run_coll unit_driver)"
    "tasks_ok (docs (run_coll unit_driver) (runs demo_world))"
    "task_at (tid demo_running) (docs (run_coll unit_driver) (runs demo_world)) = Some demo_running"
    "owned_by (tid demo_running) ''w'' demo_running"
    by (simp_all only: demo_world_simps demo_runs demo_running_simps list_tasks.task_queue_axioms list_queue_total)
  have "bodies_keep_runs (run_coll unit_driver) ?B"
    by (simp add: bodies_keep_runs_def keeps_runs_def failing_bodies_def)
  from run_one_ok [OF w(1) this w(3)] have ok: "tasks_ok (docs (run_coll unit_driver) (runs ?r))" .
  have "written_at (tid demo_running) (owned_by (tid demo_running) ''w'')
      (concluded (task_type demo_running) demo_clock False (Returned (Inl (ErrFailed ''mongodb://u:pw@h''))))
      (docs (run_coll unit_driver) (runs demo_world)) True (docs (run_coll unit_driver) (runs ?r))"
    using conclude_at [OF w(1,2,3), of demo_running "''w''" demo_clock False
        "Returned (Inl (ErrFailed ''mongodb://u:pw@h''))" "\<lambda>_. []" "run_context ''w'' demo_clock demo_running"] w(4,5) ds
    by (simp add: run_one_def)
  then obtain t where t: "task_at (tid demo_running) (docs (run_coll unit_driver) (runs ?r)) = Some t"
    using w(4) by (auto simp: written_at_def)
  then have "find (\<lambda>x. tid x = ''a'') (runs ?r) = Some t"
    by (simp add: task_at_def demo_world_simps list_coll_docs demo_running_simps)
  then have "get_task list_queue ''a'' (runs ?r) = Inr (Some t)"
    by (simp add: get_task_def list_coll_def first_by_def)
  then have route: "get_task_route (run_coll unit_driver) (tid demo_running) (runs ?r) = Success ''success'' (redacted t)"
    by (simp add: get_task_route_def demo_world_simps demo_running_simps)
  from failure_message_is_not_masked [OF w(1,2) ds w(3,4,5) route ok] route show ?thesis
    by (simp add: demo_world_simps demo_running_simps)
qed

end
