(* ===== verification/Avro_Header.thy ===== *)
theory Avro_Header
  imports Prelude
begin

text \<open>
  The Avro container header of an alert packet (\<open>src/alert/base.rs\<close>): the variable-length
  integers, the metadata map that holds the writer schema, and the start of the single data
  block; then the schema cache of the alert workers, which reparses the schema only when its
  text changes, and the schema registry client's cache.  A cursor is the buffer and a position.
  The Rust code is compiled without overflow checks in release builds, so negating the most
  negative entry count wraps, as it does on words.  The Avro library (schema parser, datum
  decoder, deserialiser) and the HTTP client are parameters; an error of theirs is its text.
\<close>

section \<open>Errors and the cursor\<close>

datatype schema_registry_error =
    Avro string
  | Reqwest string
  | Io
  | InvalidVersion
  | InvalidSubject
  | InvalidResponse
  | MagicBytesError
  | MalformedHeader
  | Utf8
  | InvalidRecordCount u64
  | IntegerOverflow
  | GithubFetchFailed
  | SchemaResolutionFailed

record cursor =
  buffer :: "u8 list"
  position :: nat

text \<open>\<open>Read::read_exact\<close> of a cursor into a buffer of \<open>n\<close> bytes.\<close>

definition read_exact ::
  "nat \<Rightarrow> cursor \<Rightarrow> (schema_registry_error, u8 list \<times> cursor) result" where
  "read_exact n c =
     (if position c + n \<le> length (buffer c)
      then Inr (take n (drop (position c) (buffer c)), c\<lparr>position := position c + n\<rparr>)
      else Inl Io)"

section \<open>Variable-length integers\<close>

function decode_variable_from ::
  "nat \<Rightarrow> u64 \<Rightarrow> cursor \<Rightarrow> (schema_registry_error, u64 \<times> cursor) result" where
  "decode_variable_from j i c =
     (if 9 < j then Inl IntegerOverflow
      else and_then (read_exact 1 c) (\<lambda>(buf, c).
        let i = i OR push_bit (j * 7) (ucast (buf ! 0 AND 0x7F))
        in if drop_bit 7 (buf ! 0) = 0 then Inr (i, c) else decode_variable_from (j + 1) i c))"
  by pat_completeness auto
termination by (relation "measure (\<lambda>(j, _, _). 10 - j)") auto

declare decode_variable_from.simps [simp del]

definition decode_variable :: "cursor \<Rightarrow> (schema_registry_error, u64 \<times> cursor) result" where
  "decode_variable c = decode_variable_from 0 0 c"

definition decode_long :: "cursor \<Rightarrow> (schema_registry_error, i64 \<times> cursor) result" where
  "decode_long c =
     and_then (decode_variable c) (\<lambda>(z, c).
       if z AND 1 = 0 then Inr (drop_bit 1 z, c) else Inr (NOT (drop_bit 1 z), c))"

text \<open>A range of the buffer is its start and end.\<close>

type_synonym range = "nat \<times> nat"

definition read_byte_range ::
  "cursor \<Rightarrow> (schema_registry_error, range \<times> cursor) result" where
  "read_byte_range c =
     and_then (decode_long c) (\<lambda>(n, c).
       if sint n < 0 then Inl MalformedHeader
       else let start = position c; stop = start + nat (sint n)
            in if stop < 2 ^ 64 \<and> stop \<le> length (buffer c)
               then Inr ((start, stop), c\<lparr>position := stop\<rparr>)
               else Inl MalformedHeader)"

definition bytes_at :: "u8 list \<Rightarrow> range \<Rightarrow> u8 list" where
  "bytes_at bs r = take (snd r - fst r) (drop (fst r) bs)"

section \<open>Progress of the readers\<close>

text \<open>A reader keeps the buffer, moves forward by at least \<open>k\<close> bytes and stays inside it.\<close>

definition advances :: "nat \<Rightarrow> cursor \<Rightarrow> cursor \<Rightarrow> bool" where
  "advances k c c' \<longleftrightarrow>
     buffer c' = buffer c \<and> position c + k \<le> position c' \<and> position c' \<le> length (buffer c)"

lemma advances_trans:
  "advances k c c' \<Longrightarrow> advances m c' c'' \<Longrightarrow> advances (k + m) c c''"
  by (auto simp: advances_def)

lemma advances_mono: "advances k c c' \<Longrightarrow> m \<le> k \<Longrightarrow> advances m c c'"
  by (auto simp: advances_def)

lemma read_exact_advances: "read_exact n c = Inr (bs, c') \<Longrightarrow> advances n c c' \<and> length bs = n"
  by (auto simp: read_exact_def advances_def split: if_splits)

lemma decode_variable_from_advances:
  "(decode_variable_from j i c) = Inr (z, c')
   \<Longrightarrow> advances 1 c c'"
proof (induction "10 - j" arbitrary: j i c rule: less_induct)
  case less
  from less.prems obtain bs d where j: "\<not> 9 < j" 
    and rd: "(read_exact 1 c) = Inr (bs, d)"
    by (subst (asm) decode_variable_from.simps) (auto simp: and_then_Inr split: if_splits)
  have ad: "advances 1 c d"
    using read_exact_advances [OF rd] by simp
  show ?case
  proof (cases "drop_bit 7 (bs ! 0) = 0")
    case True
    then show ?thesis
      using less.prems j rd ad by (subst (asm) decode_variable_from.simps) (simp add: Let_def)
  next
    case False
    with less.prems j rd have
      "decode_variable_from (j + 1) (i OR push_bit (j * 7) (ucast (bs ! 0 AND 0x7F))) d
       = (Inr (z, c'))"
      by (subst (asm) decode_variable_from.simps) (simp add: Let_def)
    from less.hyps [OF _ this] j have "advances 1 d c'"
      by simp
    then show ?thesis
      by (rule advances_mono [OF advances_trans [OF ad]]) simp
  qed
qed

lemma decode_long_advances: "decode_long c = Inr (n, c') \<Longrightarrow> advances 1 c c'"
  by (auto simp: decode_long_def decode_variable_def and_then_Inr
      dest: decode_variable_from_advances split: if_splits)

lemma read_byte_range_advances:
  assumes "read_byte_range c = Inr (r, c')"
  shows "advances 1 c c' \<and> position c \<le> fst r \<and> fst r \<le> snd r \<and> snd r = position c'"
  using assms decode_long_advances
  by (force simp: read_byte_range_def and_then_Inr advances_def Let_def split: if_splits prod.splits)

section \<open>The container header\<close>

definition schema_key :: "u8 list" where
  "schema_key = [0x61, 0x76, 0x72, 0x6F, 0x2E, 0x73, 0x63, 0x68, 0x65, 0x6D, 0x61]"

text \<open>\<open>for _ in 0..nb_entries\<close>: a key and a value, each a byte range; the last value of
  \<open>avro.schema\<close> is kept.\<close>

fun read_entries ::
  "nat \<Rightarrow> cursor \<Rightarrow> range option \<Rightarrow>
   (schema_registry_error, range option \<times> cursor) result" where
  "read_entries 0 c schema = Inr (schema, c)"
| "read_entries (Suc n) c schema =
     and_then (read_byte_range c) (\<lambda>(key, c).
     and_then (read_byte_range c) (\<lambda>(val, c).
       read_entries n c (if bytes_at (buffer c) key = schema_key then Some val else schema)))"

definition range_inside :: "cursor \<Rightarrow> range option \<Rightarrow> bool" where
  "range_inside c r = (case r of None \<Rightarrow> True
     | Some r \<Rightarrow> 4 \<le> fst r \<and> fst r \<le> snd r \<and> snd r \<le> position c)"

lemma range_inside_mono: "range_inside c r \<Longrightarrow> position c \<le> position c' \<Longrightarrow> range_inside c' r"
  by (auto simp: range_inside_def split: option.splits)

lemma read_entries_inside:
  "read_entries n c schema = Inr (r, c') \<Longrightarrow> position c \<le> length (buffer c) \<Longrightarrow>
   4 \<le> position c \<Longrightarrow> range_inside c schema \<Longrightarrow> range_inside c' r"
proof (induction n arbitrary: c schema)
  case 0
  then show ?case by (auto simp: advances_def)
next
  case (Suc n)
  from Suc.prems(1) obtain k c1 v c2 where
    k: "read_byte_range c = (Inr (k, c1))" and
    v: "read_byte_range c1 = (Inr (v, c2))" and
    r: "read_entries n c2 (if bytes_at (buffer c2) k = schema_key then Some v else schema)
          = Inr (r, c')"
    by (auto simp: and_then_Inr)
  note a = read_byte_range_advances [OF k] read_byte_range_advances [OF v]
  then have b: "position c2 \<le> length (buffer c2)" "4 \<le> position c2" "position c \<le> position c2"
    using Suc.prems(3) by (auto simp: advances_def)
  have "4 \<le> fst v" "fst v \<le> snd v" "snd v = position c2"
    using a Suc.prems(3) by (auto simp: advances_def)
  then have "range_inside c2 (if bytes_at (buffer c2) k = schema_key then Some v else schema)"
    using range_inside_mono [OF Suc.prems(4) b(3)] by (simp add: range_inside_def)
  from Suc.IH [OF r b(1,2) this] a show ?case
    by (auto simp: advances_def)
qed

text \<open>The metadata blocks, up to an entry count of 0.  The count of a block may be any 64-bit
  integer; every entry consumes bytes, so the loop ends with the buffer.\<close>

definition block_entries ::
  "i64 \<Rightarrow> cursor \<Rightarrow> (schema_registry_error, nat \<times> cursor) result" where
  "block_entries nb c =
     (if sint nb < 0
      then and_then (decode_long c) (\<lambda>(_, c). Inr (nat (sint (- nb)), c))
      else Inr (nat (sint nb), c))"

lemma block_entries_advances:
  "block_entries nb c = Inr (n, c') \<Longrightarrow> position c \<le> length (buffer c) \<Longrightarrow> advances 0 c c'"
  by (auto simp: block_entries_def and_then_Inr dest!: decode_long_advances
      intro: advances_mono split: if_splits) (auto simp: advances_def)

function read_blocks ::
  "cursor \<Rightarrow> range option \<Rightarrow> (schema_registry_error, range option \<times> cursor) result" where
  "read_blocks c schema =
     and_then (decode_long c) (\<lambda>(nb, c).
       if nb = 0 then Inr (schema, c)
       else and_then (block_entries nb c) (\<lambda>(n, c).
            and_then (read_entries n c schema) (\<lambda>(schema, c). read_blocks c schema)))"
  by pat_completeness auto

lemma read_entries_advances:
  "read_entries n c schema = Inr (r, c') \<Longrightarrow> position c \<le> length (buffer c) \<Longrightarrow> advances 0 c c'"
proof (induction n arbitrary: c schema)
  case 0
  then show ?case by (auto simp: advances_def)
next
  case (Suc n)
  then obtain k c1 v c2 s where
    k: "read_byte_range c = (Inr (k, c1))" and
    v: "read_byte_range c1 = (Inr (v, c2))" and
    r: "read_entries n c2 s = Inr (r, c')"
    by (auto simp: and_then_Inr)
  note a = read_byte_range_advances [OF k] read_byte_range_advances [OF v]
  then have "position c2 \<le> length (buffer c2)"
    by (auto simp: advances_def)
  from Suc.IH [OF r this] a show ?case
    by (auto simp: advances_def)
qed

termination read_blocks
proof (relation "measure (\<lambda>(c, _). length (buffer c) - position c)")
  fix c schema x nb c1 y n c2 z s c3
  assume a: "decode_long c = Inr x" "(nb, c1) = x"
    "nb \<noteq> 0" "block_entries nb c1 = Inr y" "(n, c2) = y"
    "read_entries n c2 schema = Inr z" "(s, c3) = z"
  have 1: "advances 1 c c1"
    using a(1,2) decode_long_advances by metis
  then have 2: "advances 0 c1 c2"
    using a(4,5) block_entries_advances by (metis advances_def)
  with 1 have "position c2 \<le> length (buffer c2)"
    by (auto simp: advances_def)
  then have "advances 0 c2 c3"
    using a(6,7) read_entries_advances by metis
  with 1 2 show "((c3, s), (c, schema)) \<in> measure (\<lambda>(c, _). length (buffer c) - position c)"
    by (auto simp: advances_def)
qed simp

declare read_blocks.simps [simp del]

lemma read_blocks_cases:
  assumes "read_blocks c schema = Inr (r, c')"
  obtains (stop) "decode_long c = Inr (0, c')" "r = schema"
  | (block) nb c1 n c2 s c3 where "decode_long c = Inr (nb, c1)" "nb \<noteq> 0"
      "block_entries nb c1 = Inr (n, c2)" "read_entries n c2 schema = Inr (s, c3)"
      "read_blocks c3 s = Inr (r, c')"
  using assms by (subst (asm) read_blocks.simps) (auto simp: and_then_Inr split: if_splits)

lemma read_blocks_inside:
  "read_blocks c schema = Inr (r, c') \<Longrightarrow> 4 \<le> position c \<Longrightarrow> range_inside c schema \<Longrightarrow>
   advances 1 c c' \<and> range_inside c' r"
proof (induction c schema rule: read_blocks.induct)
  case (1 c schema)
  from "1.prems"(1) show ?case
  proof (cases rule: read_blocks_cases)
    case stop
    then show ?thesis
      using decode_long_advances [OF stop(1)] range_inside_mono [OF "1.prems"(3), of c']
      by (simp add: advances_def)
  next
    case (block nb c1 n c2 s c3)
    note a1 = decode_long_advances [OF block(1)]
    then have a2: "advances 0 c1 c2"
      using block_entries_advances [OF block(3)] by (simp add: advances_def)
    with a1 have c2: "position c2 \<le> length (buffer c2)" "4 \<le> position c2" "position c \<le> position c2"
      using "1.prems"(2) by (auto simp: advances_def)
    note a3 = read_entries_advances [OF block(4) c2(1)]
      read_entries_inside [OF block(4) c2(1,2) range_inside_mono [OF "1.prems"(3) c2(3)]]
    then have "4 \<le> position c3"
      using c2 by (auto simp: advances_def)
    from "1.IH" [OF block(1) refl block(2,3) refl block(4) refl block(5) this] a3 a1 a2 show ?thesis
      by (auto simp: advances_def)
  qed
qed

definition magic :: "u8 list" where
  "magic = [0x4F, 0x62, 0x6A, 1]"

text \<open>\<open>std::str::from_utf8\<close>: the well-formed byte sequences of the Unicode standard.\<close>

definition between :: "u8 \<Rightarrow> u8 \<Rightarrow> u8 \<Rightarrow> bool" where
  "between lo hi b \<longleftrightarrow> lo \<le> b \<and> b \<le> hi"

fun utf8_valid :: "u8 list \<Rightarrow> bool" where
  "utf8_valid [] = True"
| "utf8_valid (a # r) =
     (if a < 0x80 then utf8_valid r
      else case r of
        [] \<Rightarrow> False
      | b # r \<Rightarrow>
        if between 0xC2 0xDF a then between 0x80 0xBF b \<and> utf8_valid r
        else case r of
          [] \<Rightarrow> False
        | c # r \<Rightarrow>
          if between 0xE0 0xEF a
          then between (if a = 0xE0 then 0xA0 else 0x80) (if a = 0xED then 0x9F else 0xBF) b \<and>
               between 0x80 0xBF c \<and> utf8_valid r
          else case r of
            [] \<Rightarrow> False
          | d # r \<Rightarrow>
            between 0xF0 0xF4 a \<and>
            between (if a = 0xF0 then 0x90 else 0x80) (if a = 0xF4 then 0x8F else 0xBF) b \<and>
            between 0x80 0xBF c \<and> between 0x80 0xBF d \<and> utf8_valid r)"

definition get_schema_and_startidx ::
  "u8 list \<Rightarrow> (schema_registry_error, u8 list \<times> nat) result" where
  "get_schema_and_startidx avro_bytes =
     and_then (read_exact 4 \<lparr>buffer = avro_bytes, position = 0\<rparr>) (\<lambda>(buf, c).
       if buf \<noteq> magic then Inl MagicBytesError
       else
       and_then (read_blocks c None) (\<lambda>(schema, c).
       and_then (ok_or MalformedHeader schema) (\<lambda>schema.
       and_then (read_exact 16 c) (\<lambda>(_, c).
       and_then (decode_long c) (\<lambda>(nb_records, c).
       if nb_records \<noteq> 1 then Inl (InvalidRecordCount nb_records)
       else
       and_then (decode_long c) (\<lambda>(_, c).
       let start_idx = position c; text = bytes_at avro_bytes schema
       in if utf8_valid text then Inr (text, start_idx) else Inl Utf8))))))"

lemma bytes_at_split:
  "fst r \<le> snd r \<Longrightarrow> snd r \<le> i \<Longrightarrow> i \<le> length bs \<Longrightarrow>
   bs = take (fst r) bs @ bytes_at bs r @ take (i - snd r) (drop (snd r) bs) @ drop i bs"
proof -
  assume a: "fst r \<le> snd r" "snd r \<le> i" "i \<le> length bs"
  have "drop (fst r) bs = bytes_at bs r @ drop (snd r) bs"
    using a append_take_drop_id [of "snd r - fst r" "drop (fst r) bs"] by (simp add: bytes_at_def)
  moreover have "drop (snd r) bs = take (i - snd r) (drop (snd r) bs) @ drop i bs"
    using a append_take_drop_id [of "i - snd r" "drop (snd r) bs"] by simp
  ultimately show ?thesis
    by (metis append_take_drop_id)
qed

section \<open>The format's encoder, and the round trip\<close>

text \<open>The encodings of the Avro specification: seven bits a byte, least significant group first,
  over the zigzag image of a signed number.\<close>

fun encode_variable :: "nat \<Rightarrow> u8 list" where
  "encode_variable n =
     (if n < 128 then [word_of_nat n]
      else word_of_nat (128 + n mod 128) # encode_variable (n div 128))"

declare encode_variable.simps [simp del]

definition zigzag :: "int \<Rightarrow> nat" where
  "zigzag n = (if 0 \<le> n then nat (2 * n) else nat (- 2 * n - 1))"

definition encode_long :: "int \<Rightarrow> u8 list" where
  "encode_long n = encode_variable (zigzag n)"

lemma unat_of_nat_u64: "x < 2 ^ 64 \<Longrightarrow> unat (word_of_nat x :: u64) = x"
  by (simp only: unsigned_of_nat) (simp add: take_bit_eq_mod)

lemma septet:
  assumes "n < 256"
  shows "unat (ucast ((word_of_nat n :: u8) AND 0x7F) :: u64) = n mod 128"
proof -
  have "(word_of_nat n :: u8) AND 0x7F = take_bit 7 (word_of_nat n)"
    by (simp add: take_bit_eq_mask mask_eq_exp_minus_1)
  moreover have "unat (take_bit 7 (word_of_nat n) :: u8) = n mod 128"
    using assms by (simp only: unsigned_take_bit_eq unsigned_of_nat) (simp add: take_bit_eq_mod)
  ultimately have "unat ((word_of_nat n :: u8) AND 0x7F) = n mod 128"
    by simp
  moreover have "unat (ucast (x :: u8) :: u64) = unat x" for x
    using unsigned_less [of x, where ?'a = nat]
    by (simp add: unsigned_ucast_eq take_bit_nat_eq_self_iff)
  ultimately show ?thesis
    by simp
qed

lemma continuation:
  assumes "n < 256"
  shows "drop_bit 7 (word_of_nat n :: u8) = 0 \<longleftrightarrow> n < 128"
proof -
  have "drop_bit 7 (word_of_nat n :: u8) = 0 \<longleftrightarrow> unat (drop_bit 7 (word_of_nat n :: u8)) = 0"
    by (simp only: unsigned_eq_0_iff)
  also have "unat (drop_bit 7 (word_of_nat n :: u8)) = n div 128"
    using assms by (simp only: unsigned_drop_bit_eq unsigned_of_nat)
      (simp add: take_bit_eq_mod drop_bit_eq_div)
  also have "n div 128 = 0 \<longleftrightarrow> n < 128"
    by (simp add: div_eq_0_iff)
  finally show ?thesis .
qed

lemma unat_or_push_bit:
  fixes i b :: u64
  assumes "unat i < 2 ^ k" "unat b * 2 ^ k < 2 ^ 64"
  shows "unat (i OR push_bit k b) = unat i + unat b * 2 ^ k"
proof -
  have "unat (push_bit k b) = push_bit k (unat b)"
    using assms(2) by (simp only: unsigned_push_bit_eq) (simp add: push_bit_eq_mult take_bit_eq_mod)
  then have "unat (i OR push_bit k b) = unat i OR push_bit k (unat b)"
    by (simp add: unsigned_or_eq)
  also have "\<dots> = unat i + push_bit k (unat b)"
  proof -
    have "take_bit k (unat i) = unat i"
      using assms(1) by (simp add: take_bit_nat_eq_self_iff)
    then have "\<not> bit (unat i) n \<or> \<not> bit (push_bit k (unat b)) n" for n
      by (metis bit_push_bit_iff bit_take_bit_iff linorder_not_less)
    then show ?thesis
      by (metis disjunctive_add)
  qed
  finally show ?thesis
    by (simp add: push_bit_eq_mult)
qed

lemma read_byte:
  assumes "drop (position c) (buffer c) = b # rest"
  shows "read_exact 1 c = Inr ([b], c\<lparr>position := position c + 1\<rparr>)"
    and "drop (Suc (position c)) (buffer c) = rest"
proof -
  have "position c < length (buffer c)"
    using assms by (metis drop_eq_Nil2 linorder_not_le list.distinct(1))
  then show "read_exact 1 c = Inr ([b], c\<lparr>position := position c + 1\<rparr>)"
    using assms by (simp add: read_exact_def)
  show "drop (Suc (position c)) (buffer c) = rest"
    using assms by (metis drop_Suc list.sel(3) tl_drop)
qed

text \<open>The step of the decoder on one byte, as numbers.\<close>

lemma decode_step:
  assumes "drop (position c) (buffer c) = word_of_nat m # rest" "m < 256" "j \<le> 9"
    and "unat i < 2 ^ (7 * j)" "m mod 128 * 2 ^ (7 * j) < 2 ^ 64"
  shows "decode_variable_from j i c =
    (let i' = word_of_nat (unat i + m mod 128 * 2 ^ (7 * j));
         c' = c\<lparr>position := position c + 1\<rparr>
     in if m < 128 then Inr (i', c') else decode_variable_from (j + 1) i' c')"
proof -
  let ?b = "ucast ((word_of_nat m :: u8) AND 0x7F) :: u64"
  have "unat (i OR push_bit (7 * j) ?b) = unat i + m mod 128 * 2 ^ (7 * j)"
    using unat_or_push_bit [of i "7 * j" ?b] assms by (simp only: septet)
  then have "i OR push_bit (7 * j) ?b = word_of_nat (unat i + m mod 128 * 2 ^ (7 * j))"
    by (metis of_nat_unat ucast_id)
  then show ?thesis
    using assms(2,3) read_byte(1) [OF assms(1)] continuation [OF assms(2)]
    by (subst decode_variable_from.simps) (simp add: Let_def mult.commute)
qed

lemma decode_variable_from_encode:
  "drop (position c) (buffer c) = encode_variable n @ rest \<Longrightarrow> j \<le> 9 \<Longrightarrow>
   unat i < 2 ^ (7 * j) \<Longrightarrow> unat i + n * 2 ^ (7 * j) < 2 ^ 64 \<Longrightarrow>
   decode_variable_from j i c =
     Inr (word_of_nat (unat i + n * 2 ^ (7 * j)),
          c\<lparr>position := position c + length (encode_variable n)\<rparr>)"
proof (induction n arbitrary: c i j rule: encode_variable.induct)
  case (1 n)
  show ?case
  proof (cases "n < 128")
    case True
    then have e: "encode_variable n = [word_of_nat n]"
      by (simp add: encode_variable.simps)
    with "1.prems" True show ?thesis
      by (subst decode_step [of _ n rest]) (simp_all add: Let_def)
  next
    case False
    let ?m = "128 + n mod 128" and ?k = "7 * j"
    have e: "encode_variable n = word_of_nat ?m # encode_variable (n div 128)"
      using False by (subst encode_variable.simps) simp
    let ?i = "word_of_nat (unat i + n mod 128 * 2 ^ ?k) :: u64"
    let ?c = "c\<lparr>position := position c + 1\<rparr>"
    have n: "n * 2 ^ ?k = n mod 128 * 2 ^ ?k + n div 128 * 2 ^ (7 * (j + 1))"
    proof -
      have "n * 2 ^ ?k = (n mod 128 + n div 128 * 128) * 2 ^ ?k"
        by (simp only: mod_div_mult_eq)
      also have "\<dots> = n mod 128 * 2 ^ ?k + n div 128 * 2 ^ (7 * (j + 1))"
        by (simp only: add_mult_distrib mult.assoc) (simp add: power_add)
      finally show ?thesis .
    qed
    have "n mod 128 * 2 ^ ?k \<le> 127 * 2 ^ ?k"
      by (intro mult_le_mono1) (use mod_less_divisor [of 128 n] in linarith)
    from add_less_le_mono [OF "1.prems"(3) this]
    have ilt: "unat i + n mod 128 * 2 ^ ?k < 2 ^ (7 * (j + 1))"
      by (simp only: power_add distrib_left) (simp add: mult.commute)
    have ub: "unat ?i = unat i + n mod 128 * 2 ^ ?k"
      by (rule unat_of_nat_u64) (use "1.prems"(4) n in linarith)
    have "(2 :: nat) ^ (7 * (j + 1)) \<le> n div 128 * 2 ^ (7 * (j + 1))"
      using False by simp
    then have "(2 :: nat) ^ (7 * (j + 1)) < 2 ^ 64"
      using "1.prems"(4) n by linarith
    then have "7 * (j + 1) < 64"
      by (rule power_less_imp_less_exp [rotated]) simp
    then have j: "j + 1 \<le> 9"
      by presburger
    have d: "drop (position ?c) (buffer ?c) = encode_variable (n div 128) @ rest"
      using read_byte(2) "1.prems"(1) e by simp
    have "decode_variable_from j i c = decode_variable_from (j + 1) ?i ?c"
      using "1.prems" e n
      by (subst decode_step [of _ ?m "encode_variable (n div 128) @ rest"]) (simp_all add: Let_def)
    also have "\<dots> = Inr (word_of_nat (unat ?i + n div 128 * 2 ^ (7 * (j + 1))),
        ?c\<lparr>position := position ?c + length (encode_variable (n div 128))\<rparr>)"
      using "1.prems"(4) n ilt ub by (intro "1.IH" [OF False d j]) simp_all
    finally show ?thesis
      using n ub by (simp add: e add.assoc)
  qed
qed

lemma zigzag_even: "even (zigzag n) \<longleftrightarrow> 0 \<le> n"
proof -
  have "even (zigzag n) \<longleftrightarrow> even (int (zigzag n))"
    by simp
  also have "int (zigzag n) = (if 0 \<le> n then 2 * n else 2 * (- n) - 1)"
    by (simp add: zigzag_def)
  finally show ?thesis
    by (simp split: if_splits)
qed

lemma unzigzag:
  fixes z :: u64
  assumes "- (2 ^ 63) \<le> n" "n < 2 ^ 63" "z = word_of_nat (zigzag n)"
  shows "(if z AND 1 = 0 then drop_bit 1 z else NOT (drop_bit 1 z)) = word_of_int n"
proof -
  have lt: "zigzag n < 2 ^ 64"
    using assms(1,2) by (auto simp: zigzag_def)
  then have z: "unat z = zigzag n"
    by (simp only: assms(3) unat_of_nat_u64)
  have "z AND 1 = 0 \<longleftrightarrow> unat (z AND 1) = 0"
    by (simp only: unsigned_eq_0_iff)
  also have "unat (z AND 1) = zigzag n mod 2"
    by (simp only: unsigned_and_eq z) (simp add: and_one_eq)
  finally have odd: "z AND 1 = 0 \<longleftrightarrow> 0 \<le> n"
    using zigzag_even [of n] by (simp add: even_iff_mod_2_eq_zero)
  have "take_bit 64 (zigzag n) = zigzag n"
    using lt by (rule take_bit_nat_eq_self)
  then have "unat (drop_bit 1 z) = zigzag n div 2"
    by (simp only: unsigned_drop_bit_eq z) (simp add: drop_bit_eq_div)
  then have h: "drop_bit 1 z = word_of_nat (zigzag n div 2)"
    by (metis of_nat_unat ucast_id)
  show ?thesis
  proof (cases "0 \<le> n")
    case True
    then have "int (zigzag n div 2) = n"
      by (simp add: zigzag_def zdiv_int)
    then show ?thesis
      using odd True h by (metis of_int_of_nat_eq)
  next
    case False
    then have "- int (zigzag n div 2) - 1 = n"
      by (simp add: zigzag_def zdiv_int)
    then have "word_of_int n = - (word_of_nat (zigzag n div 2) :: u64) - 1"
      by (metis of_int_1 of_int_diff of_int_minus of_int_of_nat_eq)
    then show ?thesis
      using odd False h by (simp add: not_eq_complement)
  qed
qed

text \<open>Decoding a 64-bit integer from its Avro encoding gives back the integer and moves the
  cursor just past the encoding, wherever the encoding stands in the buffer and for every value,
  the extreme ones included.\<close>

lemma decode_long_encode:
  assumes "drop (position c) (buffer c) = encode_long n @ rest" "- (2 ^ 63) \<le> n" "n < 2 ^ 63"
  shows "decode_long c =
    Inr (word_of_int n, c\<lparr>position := position c + length (encode_long n)\<rparr>)"
proof -
  have "zigzag n < 2 ^ 64"
    using assms(2,3) by (auto simp: zigzag_def)
  then have "decode_variable c = Inr (word_of_nat (zigzag n),
      c\<lparr>position := position c + length (encode_long n)\<rparr>)"
    unfolding decode_variable_def encode_long_def
    by (subst decode_variable_from_encode [OF assms(1) [unfolded encode_long_def]]) simp_all
  then show ?thesis
    using unzigzag [OF assms(2,3) refl] by (simp add: decode_long_def split: if_splits)
qed

definition encode_bytes :: "u8 list \<Rightarrow> u8 list" where
  "encode_bytes b = encode_long (int (length b)) @ b"

text \<open>A metadata block: its entries, and for the form with a negative count the block size the
  writer gives (which a reader that wants the entries skips).\<close>

datatype avro_block = Counted "(u8 list \<times> u8 list) list" | Sized "(u8 list \<times> u8 list) list" int

fun block_pairs :: "avro_block \<Rightarrow> (u8 list \<times> u8 list) list" where
  "block_pairs (Counted es) = es"
| "block_pairs (Sized es _) = es"

definition encode_entries :: "(u8 list \<times> u8 list) list \<Rightarrow> u8 list" where
  "encode_entries es = concat (map (\<lambda>(k, v). encode_bytes k @ encode_bytes v) es)"

fun encode_block :: "avro_block \<Rightarrow> u8 list" where
  "encode_block (Counted es) = encode_long (int (length es)) @ encode_entries es"
| "encode_block (Sized es sz) =
     encode_long (- int (length es)) @ encode_long sz @ encode_entries es"

definition container :: "avro_block list \<Rightarrow> u8 list \<Rightarrow> int \<Rightarrow> u8 list \<Rightarrow> u8 list" where
  "container blocks sync bsize payload =
     magic @ concat (map encode_block blocks) @ encode_long 0 @ sync @
     encode_long 1 @ encode_long bsize @ payload"

definition i64_range :: "int \<Rightarrow> bool" where
  "i64_range n \<longleftrightarrow> - (2 ^ 63) \<le> n \<and> n < 2 ^ 63"

lemma sint_i64: "i64_range n \<Longrightarrow> sint (word_of_int n :: i64) = n"
  by (simp only: signed_of_int) (simp add: i64_range_def signed_take_bit_int_eq_self)

text \<open>A block a writer can write: not empty, and its size in range.\<close>

fun block_ok :: "avro_block \<Rightarrow> bool" where
  "block_ok (Counted es) \<longleftrightarrow> es \<noteq> []"
| "block_ok (Sized es sz) \<longleftrightarrow> es \<noteq> [] \<and> i64_range sz"

text \<open>The schema of a header: the value of the last entry called \<open>avro.schema\<close>.\<close>

definition writer_schema :: "avro_block list \<Rightarrow> u8 list option" where
  "writer_schema blocks = map_of (rev (concat (map block_pairs blocks))) schema_key"

text \<open>\<open>rd c c' bs\<close>: the cursor \<open>c\<close> stands at the bytes \<open>bs\<close>, and \<open>c'\<close> just past them.\<close>

definition past :: "cursor \<Rightarrow> u8 list \<Rightarrow> cursor" where
  "past c bs = c\<lparr>position := position c + length bs\<rparr>"

definition stands :: "cursor \<Rightarrow> u8 list \<Rightarrow> bool" where
  "stands c bs \<longleftrightarrow> prefix bs (drop (position c) (buffer c)) \<and> length (buffer c) < 2 ^ 63"

lemma past_simps [simp]:
  "buffer (past c bs) = buffer c" "position (past c bs) = position c + length bs"
  "past (past c a) b = past c (a @ b)" "past c [] = c"
  by (simp_all add: past_def)

lemma prefix_append_drop: "prefix (a @ b) xs \<longleftrightarrow> prefix a xs \<and> prefix b (drop (length a) xs)"
  by (auto simp: prefix_def)

lemma stands_append: "stands c (a @ b) \<longleftrightarrow> stands c a \<and> stands (past c a) b"
  by (auto simp: stands_def prefix_append_drop add.commute)

lemma stands_bytes_at: "stands c b \<Longrightarrow> bytes_at (buffer c) (position c, position (past c b)) = b"
  by (auto simp: stands_def bytes_at_def prefix_def)

lemma stands_length:
  assumes "stands c b" "b \<noteq> []"
  shows "position c + length b \<le> length (buffer c)"
proof -
  have "length b \<le> length (buffer c) - position c" "0 < length b"
    using assms prefix_length_le by (fastforce simp: stands_def)+
  then show ?thesis
    by linarith
qed

lemma decode_long_stands:
  "stands c (encode_long n) \<Longrightarrow> i64_range n \<Longrightarrow>
   decode_long c = Inr (word_of_int n, past c (encode_long n))"
  unfolding stands_def prefix_def i64_range_def past_def by (metis decode_long_encode)

lemma read_byte_range_stands:
  assumes "stands c (encode_bytes b)"
  shows "\<exists>r. read_byte_range c = Inr (r, past c (encode_bytes b)) \<and> bytes_at (buffer c) r = b"
proof -
  let ?l = "encode_long (int (length b))"
  have st: "stands c ?l" "stands (past c ?l) b"
    using assms by (simp_all add: encode_bytes_def stands_append)
  have ne: "encode_bytes b \<noteq> []"
    by (simp add: encode_bytes_def encode_long_def, subst encode_variable.simps) simp
  have le: "position c + length ?l + length b \<le> length (buffer c)" "length (buffer c) < 2 ^ 63"
    using stands_length [OF assms ne] st(1) by (simp_all add: encode_bytes_def stands_def)
  then have rg: "i64_range (int (length b))"
    by (simp add: i64_range_def)
  have "sint (word_of_int (int (length b)) :: i64) = int (length b)"
    by (rule sint_i64 [OF rg])
  then have "read_byte_range c =
      Inr ((position c + length ?l, position c + length ?l + length b), past c (?l @ b))"
    using le decode_long_stands [OF st(1) rg]
    by (simp add: read_byte_range_def Let_def past_def)
  then show ?thesis
    using stands_bytes_at [OF st(2)] by (simp add: encode_bytes_def add.assoc)
qed

text \<open>What the loop over entries keeps: the range of the schema read last.\<close>

definition names :: "cursor \<Rightarrow> range option \<Rightarrow> u8 list option \<Rightarrow> bool" where
  "names c r v \<longleftrightarrow> map_option (bytes_at (buffer c)) r = v"

definition entry_schema ::
  "u8 list option \<Rightarrow> (u8 list \<times> u8 list) list \<Rightarrow> u8 list option" where
  "entry_schema = foldl (\<lambda>v (k, b). if k = schema_key then Some b else v)"

lemma read_entries_stands:
  "stands c (encode_entries es) \<Longrightarrow> names c r v \<Longrightarrow>
   \<exists>r'. read_entries (length es) c r = Inr (r', past c (encode_entries es)) \<and>
        names c r' (entry_schema v es)"
proof (induction es arbitrary: c r v)
  case Nil
  then show ?case by (simp add: encode_entries_def entry_schema_def)
next
  case (Cons e es)
  obtain k b where e: "e = (k, b)" by (cases e)
  let ?k = "encode_bytes k" and ?b = "encode_bytes b"
  have enc: "encode_entries (e # es) = ?k @ ?b @ encode_entries es"
    by (simp add: e encode_entries_def)
  with Cons.prems(1) have st: "stands c ?k" "stands (past c ?k) ?b"
    "stands (past c (?k @ ?b)) (encode_entries es)"
    by (simp_all add: stands_append)
  from read_byte_range_stands [OF st(1)] obtain kr where
    kr: "read_byte_range c = Inr (kr, past c ?k)" "bytes_at (buffer c) kr = k" by blast
  from read_byte_range_stands [OF st(2)] obtain br where
    br: "read_byte_range (past c ?k) = Inr (br, past c (?k @ ?b))" "bytes_at (buffer c) br = b" by auto
  let ?r = "if k = schema_key then Some br else r" and ?v = "if k = schema_key then Some b else v"
  have "names (past c (?k @ ?b)) ?r ?v"
    using Cons.prems(2) br(2) by (simp add: names_def)
  from Cons.IH [OF st(3) this] obtain r' where
    "read_entries (length es) (past c (?k @ ?b)) ?r =
       Inr (r', past c (encode_entries (e # es)))" "names c r' (entry_schema ?v es)"
    by (auto simp: enc names_def)
  then show ?case
    using kr br by (simp add: e entry_schema_def)
qed

lemma encode_long_length: "encode_long n \<noteq> []"
  by (simp add: encode_long_def, subst encode_variable.simps) simp

lemma encode_entries_length: "length es \<le> length (encode_entries es)"
proof (induction es)
  case (Cons e es)
  have "1 \<le> length (encode_long (int (length (fst e))))"
    using encode_long_length [of "int (length (fst e))"] by (cases "encode_long (int (length (fst e)))") auto
  with Cons show ?case
    by (cases e) (simp add: encode_entries_def encode_bytes_def)
qed simp

lemma block_entries_stands:
  assumes "stands c (encode_block b)" "block_ok b"
  shows "\<exists>c1 nb c2. decode_long c = Inr (nb, c1) \<and> nb \<noteq> 0 \<and>
    block_entries nb c1 = Inr (length (block_pairs b), c2) \<and>
    stands c2 (encode_entries (block_pairs b)) \<and>
    past c2 (encode_entries (block_pairs b)) = past c (encode_block b) \<and>
    buffer c2 = buffer c"
proof -
  have "length (encode_block b) \<le> length (buffer c)"
    using assms(1) stands_length [of c "encode_block b"] by (cases "encode_block b") auto
  moreover have "length (encode_entries (block_pairs b)) \<le> length (encode_block b)"
    by (cases b) simp_all
  ultimately have "length (block_pairs b) < 2 ^ 63"
    using assms(1) encode_entries_length [of "block_pairs b"] by (simp add: stands_def)
  then have rg: "i64_range (int (length (block_pairs b)))"
      "i64_range (- int (length (block_pairs b)))"
    by (simp_all add: i64_range_def)
  show ?thesis
  proof (cases b)
    case (Counted es)
    then have st: "stands c (encode_long (int (length es)))"
        "stands (past c (encode_long (int (length es)))) (encode_entries es)"
      using assms(1) by (simp_all add: stands_append)
    have s: "sint (word_of_int (int (length es)) :: i64) = int (length es)"
      using sint_i64 [OF rg(1)] by (simp add: Counted)
    then have "(word_of_int (int (length es)) :: i64) \<noteq> 0"
      using assms(2) by (auto simp: Counted)
    then show ?thesis
      using decode_long_stands [OF st(1)] rg(1) st(2) s
      by (simp add: Counted block_entries_def)
  next
    case (Sized es sz)
    then have st: "stands c (encode_long (- int (length es)))"
        "stands (past c (encode_long (- int (length es)))) (encode_long sz)"
        "stands (past c (encode_long (- int (length es)) @ encode_long sz)) (encode_entries es)"
      using assms(1) by (simp_all add: stands_append)
    let ?n = "word_of_int (- int (length es)) :: i64"
    have s: "sint ?n = - int (length es)" "sint (- ?n) = int (length es)"
      using sint_i64 [OF rg(2)] sint_i64 [OF rg(1)] by (simp_all add: Sized)
    then have "?n \<noteq> 0" "sint ?n < 0"
      using assms(2) by (auto simp: Sized)
    then have "block_entries ?n (past c (encode_long (- int (length es)))) =
        Inr (length es, past c (encode_long (- int (length es)) @ encode_long sz))"
      using decode_long_stands [OF st(2)] assms(2) s by (simp add: Sized block_entries_def)
    then show ?thesis
      using decode_long_stands [OF st(1)] rg(2) st(3) \<open>?n \<noteq> 0\<close> by (simp add: Sized)
  qed
qed

lemma read_blocks_stands:
  "stands c (concat (map encode_block bs) @ encode_long 0) \<Longrightarrow> list_all block_ok bs \<Longrightarrow>
   names c r v \<Longrightarrow>
   \<exists>r'. read_blocks c r =
          Inr (r', past c (concat (map encode_block bs) @ encode_long 0)) \<and>
        names c r' (entry_schema v (concat (map block_pairs bs)))"
proof (induction bs arbitrary: c r v)
  case Nil
  then have "decode_long c = Inr (0, past c (encode_long 0))"
    using decode_long_stands [of c 0] by (simp add: i64_range_def)
  then show ?case
    using Nil by (subst read_blocks.simps) (simp add: entry_schema_def)
next
  case (Cons b bs)
  let ?rest = "concat (map encode_block bs) @ encode_long 0"
  have st: "stands c (encode_block b)" "stands (past c (encode_block b)) ?rest" and ok: "block_ok b"
    using Cons.prems(1,2) by (simp_all add: stands_append)
  from block_entries_stands [OF st(1) ok] obtain c1 nb c2 where
    b: "decode_long c = Inr (nb, c1)" "nb \<noteq> 0"
      "block_entries nb c1 = Inr (length (block_pairs b), c2)"
      "stands c2 (encode_entries (block_pairs b))"
      "past c2 (encode_entries (block_pairs b)) = past c (encode_block b)" "buffer c2 = buffer c"
    by blast
  have "names c2 r v"
    using Cons.prems(3) b(6) by (simp add: names_def)
  from read_entries_stands [OF b(4) this] obtain s where
    s: "read_entries (length (block_pairs b)) c2 r = Inr (s, past c (encode_block b))"
      "names c s (entry_schema v (block_pairs b))"
    using b(5,6) by (auto simp: names_def)
  then have "names (past c (encode_block b)) s (entry_schema v (block_pairs b))"
    by (simp add: names_def)
  from Cons.IH [OF st(2) _ this] Cons.prems(2) obtain r' where
    "read_blocks (past c (encode_block b)) s = Inr (r', past c (encode_block b @ ?rest))"
    "names c r' (entry_schema v (concat (map block_pairs (b # bs))))"
    by (auto simp: names_def entry_schema_def)
  then show ?case
    using b(1-3) s(1) by (subst read_blocks.simps) simp
qed

lemma entry_schema_last: "entry_schema v es = (case map_of (rev es) schema_key of None \<Rightarrow> v | s \<Rightarrow> s)"
  by (induction es arbitrary: v)
    (auto simp: entry_schema_def map_add_def split: option.splits)

lemma stands_whole: "length (buffer c) < 2 ^ 63 \<Longrightarrow> drop (position c) (buffer c) = bs @ rest \<Longrightarrow> stands c bs"
  by (simp add: stands_def)

lemma read_exact_stands:
  "stands c bs \<Longrightarrow> n = length bs \<Longrightarrow> bs \<noteq> [] \<Longrightarrow> read_exact n c = Inr (bs, past c bs)"
  using stands_length [of c bs]
  by (auto simp: read_exact_def past_def stands_def prefix_def)

text \<open>The bytes of a container before its payload, and what reading it gives.\<close>

definition container_head :: "avro_block list \<Rightarrow> u8 list \<Rightarrow> int \<Rightarrow> u8 list" where
  "container_head blocks sync bsize =
     magic @ (concat (map encode_block blocks) @ encode_long 0) @ sync @
     encode_long 1 @ encode_long bsize"

lemma container_head: "container blocks sync bsize payload = container_head blocks sync bsize @ payload"
  by (simp add: container_def container_head_def)

lemma read_container:
  assumes "list_all block_ok blocks" "length sync = 16" "i64_range bsize"
    and "length (container blocks sync bsize payload) < 2 ^ 63"
  shows "get_schema_and_startidx (container blocks sync bsize payload) =
    (case writer_schema blocks of
       None \<Rightarrow> Inl MalformedHeader
     | Some schema \<Rightarrow>
         if utf8_valid schema then Inr (schema, length (container_head blocks sync bsize)) else Inl Utf8)"
proof -
  let ?bs = "container blocks sync bsize payload"
  let ?c = "\<lparr>buffer = ?bs, position = 0\<rparr>"
  let ?map = "concat (map encode_block blocks) @ encode_long 0"
  let ?head = "magic @ ?map @ sync @ encode_long 1 @ encode_long bsize"
  have "stands ?c ?head"
    by (rule stands_whole [where rest = payload]) (use assms(4) in \<open>simp_all add: container_def\<close>)
  then have st: "stands ?c magic" "stands (past ?c magic) ?map"
    "stands (past ?c (magic @ ?map)) sync"
    "stands (past ?c (magic @ ?map @ sync)) (encode_long 1)"
    "stands (past ?c (magic @ ?map @ sync @ encode_long 1)) (encode_long bsize)"
    by (simp_all only: stands_append past_simps append_assoc)
  have m: "read_exact 4 ?c = Inr (magic, past ?c magic)"
    by (rule read_exact_stands [OF st(1)]) (simp_all add: magic_def)
  have y: "read_exact 16 (past ?c (magic @ ?map)) = Inr (sync, past ?c (magic @ ?map @ sync))"
    using read_exact_stands [OF st(3) assms(2) [symmetric]] assms(2) by fastforce
  have n: "decode_long (past ?c (magic @ ?map @ sync)) =
      Inr (1, past ?c (magic @ ?map @ sync @ encode_long 1))"
    using decode_long_stands [OF st(4)] by (simp add: i64_range_def)
  have z: "decode_long (past ?c (magic @ ?map @ sync @ encode_long 1)) = Inr (word_of_int bsize, past ?c ?head)"
    using decode_long_stands [OF st(5) assms(3)] by simp
  from read_blocks_stands [OF st(2) assms(1), of None None] obtain r where
    b: "read_blocks (past ?c magic) None = Inr (r, past ?c (magic @ ?map))"
      "map_option (bytes_at ?bs) r = writer_schema blocks"
    by (auto simp: names_def entry_schema_last writer_schema_def split: option.splits)
  note res = get_schema_and_startidx_def [of ?bs]
  show ?thesis
  proof (cases r)
    case None
    then have "writer_schema blocks = None"
      using b(2) by simp
    then show ?thesis
      by (simp add: res m b(1) None ok_or_def)
  next
    case (Some rg)
    then have "writer_schema blocks = Some (bytes_at ?bs rg)"
      using b(2) by simp
    then show ?thesis
      unfolding res m and_then_simps prod.case simp_thms if_False b(1) Some ok_or_simps y n z Let_def
      by (simp add: container_head_def)
  qed
qed

text \<open>
  C10: Every container header the Avro format allows is read back: with any number of metadata
  blocks in either form (a plain count, or a negative count followed by a size), the result is the
  value of the last \<open>avro.schema\<close> entry and the index at which the data of the packet starts; a
  header without such an entry is malformed, and one whose schema is not UTF-8 is refused.
\<close>

theorem header_round_trip:
  assumes "list_all block_ok blocks" "length sync = 16" "i64_range bsize"
    and "length (container blocks sync bsize payload) < 2 ^ 63"
  shows "case writer_schema blocks of
      None \<Rightarrow> get_schema_and_startidx (container blocks sync bsize payload) = Inl MalformedHeader
    | Some schema \<Rightarrow>
        if utf8_valid schema
        then \<exists>start. get_schema_and_startidx (container blocks sync bsize payload) = Inr (schema, start) \<and>
               drop start (container blocks sync bsize payload) = payload
        else get_schema_and_startidx (container blocks sync bsize payload) = Inl Utf8"
proof (cases "writer_schema blocks")
  case None
  then show ?thesis
    using read_container [OF assms] by simp
next
  case (Some schema)
  then have "get_schema_and_startidx (container blocks sync bsize payload) =
      (if utf8_valid schema then Inr (schema, length (container_head blocks sync bsize)) else Inl Utf8)"
    using read_container [OF assms] by simp
  moreover have "drop (length (container_head blocks sync bsize))
      (container blocks sync bsize payload) = payload"
    by (simp add: container_head)
  ultimately show ?thesis
    unfolding Some option.case by metis
qed

theorem header_round_trip_witness:
  "let blocks = [Sized [(schema_key, [0x7B]), ([0x61], [])] 5, Counted [(schema_key, [0x22, 0x22])]];
       sync = replicate 16 7
   in case writer_schema blocks of
        None \<Rightarrow> get_schema_and_startidx (container blocks sync 3 [1, 2, 3]) = Inl MalformedHeader
      | Some schema \<Rightarrow>
          if utf8_valid schema
          then \<exists>start. get_schema_and_startidx (container blocks sync 3 [1, 2, 3]) = Inr (schema, start) \<and>
                 drop start (container blocks sync 3 [1, 2, 3]) = [1, 2, 3]
          else get_schema_and_startidx (container blocks sync 3 [1, 2, 3]) = Inl Utf8"
  unfolding Let_def
  by (rule header_round_trip)
    (simp_all add: i64_range_def container_def encode_entries_def encode_bytes_def encode_long_def
      encode_variable.simps zigzag_def schema_key_def magic_def)

text \<open>
  A header that is accepted lies inside the packet: the packet starts with the magic
  bytes, the writer schema it names is a run of valid UTF-8 inside the packet, at least 18 bytes
  (the sync marker, the record count and the block size) separate it from the start of the data, and the start of the data is at most the end of the packet, so neither
  slicing can fail.
\<close>

theorem header_stays_inside:
  assumes "get_schema_and_startidx bs = Inr (schema, start)"
  shows "\<exists>pre sep. bs = magic @ pre @ schema @ sep @ drop start bs \<and> 18 \<le> length sep \<and>
    start \<le> length bs \<and> utf8_valid schema"
proof -
  from assms obtain buf c0 r c1 sync c2 n c3 m c4 where
    "read_exact 4 \<lparr>buffer = bs, position = 0\<rparr> = Inr (buf, c0)" and buf: "buf = magic" and
    blocks: "read_blocks c0 None = Inr (Some r, c1)" and
    rest: "read_exact 16 c1 = Inr (sync, c2)" "decode_long c2 = Inr (n, c3)"
      "decode_long c3 = Inr (m, c4)" and
    res: "schema = bytes_at bs r" "start = position c4" "utf8_valid schema"
    by (auto simp: get_schema_and_startidx_def and_then_Inr ok_or_def Let_def
        split: if_splits option.splits)
  then have c0: "c0 = \<lparr>buffer = bs, position = 4\<rparr>" and mg: "take 4 bs = magic" "4 \<le> length bs"
    by (auto simp: read_exact_def split: if_splits)
  from read_blocks_inside [OF blocks] have
    1: "advances 1 c0 c1" "4 \<le> fst r" "fst r \<le> snd r" "snd r \<le> position c1"
    by (simp_all add: c0 range_inside_def)
  have 2: "advances 18 c1 c4"
    using read_exact_advances [OF rest(1)] decode_long_advances [OF rest(2)]
      decode_long_advances [OF rest(3)] by (auto simp: advances_def)
  have i: "snd r + 18 \<le> start" "start \<le> length bs"
    using 1 2 by (auto simp: advances_def c0 res)
  let ?sep = "take (start - snd r) (drop (snd r) bs)"
  have "take (fst r) bs = magic @ drop 4 (take (fst r) bs)"
    using append_take_drop_id [of 4 "take (fst r) bs"] 1 mg by (simp add: min_absorb2)
  moreover have "bs = take (fst r) bs @ schema @ ?sep @ drop start bs"
    using bytes_at_split [of r start bs] 1 i by (simp add: res(1))
  ultimately have "bs = magic @ drop 4 (take (fst r) bs) @ schema @ ?sep @ drop start bs"
    by (metis append_assoc)
  moreover have "18 \<le> length ?sep"
    using i by simp
  ultimately show ?thesis
    using i res(3) by blast
qed

theorem header_stays_inside_witness:
  "let blocks = [Counted [(schema_key, [0x22, 0x22])]]; sync = replicate 16 7;
       bs = container blocks sync 3 [1, 2, 3]; start = length (container_head blocks sync 3)
   in \<exists>pre sep. bs = magic @ pre @ [0x22, 0x22] @ sep @ drop start bs \<and> 18 \<le> length sep \<and>
        start \<le> length bs \<and> utf8_valid [0x22, 0x22]"
  unfolding Let_def
  by (rule header_stays_inside, subst read_container)
    (simp_all add: i64_range_def container_def encode_entries_def encode_bytes_def encode_long_def
      encode_variable.simps zigzag_def schema_key_def magic_def writer_schema_def)

section \<open>The schema cache\<close>

text \<open>\<open>AlertError\<close>; the errors of the database, of BSON and of the cutout storage are their text,
  a 32-bit float is its bits.\<close>

datatype alert_error =
    Alert_Avro string
  | BsonValueAccess string
  | Mongodb string
  | SchemaRegistryError schema_registry_error
  | Xmatch string
  | AlertAuxExists
  | MissingObjectId
  | AmbiguousObjectId i64 i64
  | MissingCutout
  | MissingFluxPSF
  | MissingFluxPSFError
  | NonFiniteFluxPSF
  | MissingFluxAperture
  | MissingFluxApertureError
  | MissingMagZPSci
  | AlertMagicBytesError
  | AlertAuxNotFound
  | UnknownFid u32
  | DarkFrame
  | MissingDiffmaglim
  | InvalidDiffmaglim u32
  | CutoutStorageError string
  | InvalidTimeseriesInput string
  | AlertAuxFallbackUpdateFailed string
  | ConcurrentAuxUpdate string
  | DecodeError string

text \<open>The Avro library: parsing a schema, decoding a datum, and deserialising it.\<close>

record ('s, 'v, 'a) avro_library =
  parse_str :: "u8 list \<Rightarrow> (string, 's) result"
  from_avro_datum :: "'s \<Rightarrow> u8 list \<Rightarrow> (string, 'v) result"
  from_value :: "'v \<Rightarrow> (string, 'a) result"

record 's schema_cache =
  cached_schema :: "'s option"
  cached_schema_json :: "u8 list option"

definition empty_cache :: "'s schema_cache" where
  "empty_cache = \<lparr>cached_schema = None, cached_schema_json = None\<rparr>"

text \<open>\<open>SchemaCache::alert_from_avro_bytes\<close>; \<^const>\<open>None\<close> is the panic of \<open>unwrap\<close>.\<close>

definition decode_datum ::
  "('s, 'v, 'a) avro_library \<Rightarrow> 's \<Rightarrow> u8 list \<Rightarrow> (alert_error, 'a) result" where
  "decode_datum lib schema bs =
     and_then (map_err Alert_Avro (from_avro_datum lib schema bs)) (\<lambda>v.
       map_err Alert_Avro (from_value lib v))"

definition cache_schema ::
  "('s, 'v, 'a) avro_library \<Rightarrow> u8 list \<Rightarrow> 's schema_cache \<Rightarrow>
   (alert_error, 's schema_cache) result" where
  "cache_schema lib schema_json cache =
     (if cached_schema_json cache \<noteq> Some schema_json
      then and_then (map_err Alert_Avro (parse_str lib schema_json)) (\<lambda>s.
        Inr (cache\<lparr>cached_schema := Some s, cached_schema_json := Some schema_json\<rparr>))
      else Inr cache)"

definition alert_from_avro_bytes ::
  "('s, 'v, 'a) avro_library \<Rightarrow> u8 list \<Rightarrow> 's schema_cache \<Rightarrow>
   (alert_error, 'a) result option \<times> 's schema_cache" where
  "alert_from_avro_bytes lib avro_bytes cache =
     (case map_err SchemaRegistryError (get_schema_and_startidx avro_bytes) of
        Inl e \<Rightarrow> (Some (Inl e), cache)
      | Inr (schema_json, start_idx) \<Rightarrow>
          (case cache_schema lib schema_json cache of
             Inl e \<Rightarrow> (Some (Inl e), cache)
           | Inr cache \<Rightarrow>
               (case cached_schema cache of
                  None \<Rightarrow> (None, cache)
                | Some schema \<Rightarrow>
                    (Some (decode_datum lib schema (drop start_idx avro_bytes)), cache))))"

text \<open>The packets of one worker, decoded in the order it takes them.\<close>

fun decode_packets ::
  "('s, 'v, 'a) avro_library \<Rightarrow> u8 list list \<Rightarrow> 's schema_cache \<Rightarrow>
   (alert_error, 'a) result option list" where
  "decode_packets lib [] cache = []"
| "decode_packets lib (p # ps) cache =
     (let (r, cache) = alert_from_avro_bytes lib p cache in r # decode_packets lib ps cache)"

text \<open>What a cache is for: decoding a packet with the schema of its own header.\<close>

definition decode_alone ::
  "('s, 'v, 'a) avro_library \<Rightarrow> u8 list \<Rightarrow> (alert_error, 'a) result" where
  "decode_alone lib p =
     and_then (map_err SchemaRegistryError (get_schema_and_startidx p)) (\<lambda>(json, start).
     and_then (map_err Alert_Avro (parse_str lib json)) (\<lambda>schema.
       decode_datum lib schema (drop start p)))"

definition cache_sound :: "('s, 'v, 'a) avro_library \<Rightarrow> 's schema_cache \<Rightarrow> bool" where
  "cache_sound lib cache \<longleftrightarrow>
     (case cached_schema_json cache of None \<Rightarrow> True
      | Some json \<Rightarrow> \<exists>s. cached_schema cache = Some s \<and> parse_str lib json = Inr s)"

lemma decode_with_cache:
  assumes "cache_sound lib cache"
  shows "fst (alert_from_avro_bytes lib p cache) = Some (decode_alone lib p) \<and>
    cache_sound lib (snd (alert_from_avro_bytes lib p cache))"
proof (cases "get_schema_and_startidx p")
  case (Inl e)
  then show ?thesis
    using assms by (simp add: alert_from_avro_bytes_def decode_alone_def)
next
  case (Inr hd)
  then obtain json start where h: "get_schema_and_startidx p = Inr (json, start)"
    by (cases hd) auto
  show ?thesis
  proof (cases "cached_schema_json cache = Some json")
    case True
    then show ?thesis
      using assms h
      by (auto simp: cache_sound_def alert_from_avro_bytes_def decode_alone_def cache_schema_def)
  next
    case False
    then show ?thesis
      using assms h by (cases "parse_str lib json")
        (auto simp: cache_sound_def alert_from_avro_bytes_def decode_alone_def cache_schema_def)
  qed
qed

lemma decode_packets_cached:
  "cache_sound lib cache \<Longrightarrow> decode_packets lib ps cache = map (Some \<circ> decode_alone lib) ps"
proof (induction ps arbitrary: cache)
  case (Cons p ps)
  show ?case
    using decode_with_cache [OF Cons.prems, of p] Cons.IH
    by (cases "alert_from_avro_bytes lib p cache") auto
qed simp

text \<open>
  The schema cache is transparent: over any sequence of packets, in any mix of schemas
  and with malformed packets and unparsable schemas between them, each packet decodes to what it
  decodes to on its own with the schema of its own header, and the worker never panics on an
  empty cache.
\<close>

theorem schema_cache_is_transparent:
  "decode_packets lib ps empty_cache = map (Some \<circ> decode_alone lib) ps"
  by (rule decode_packets_cached) (simp add: cache_sound_def empty_cache_def)

end
