(* ===== verification/Alert_Timeseries.thy ===== *)
theory Alert_Timeseries
  imports Avro_Header "HOL-Library.Product_Lexorder"
begin

text \<open>
  Light curves as time series (\<open>src/alert/base.rs\<close>, the trait \<open>TimeSeries\<close>;
  \<open>src/utils/db.rs\<close>, \<open>update_timeseries_op\<close>): validation, sanitising, and the preparation of an
  update that merges new points into a stored series, either by a push computed in the worker or
  by an update pipeline evaluated in the database.  A time is a 64-bit float with its special
  values; the numbers among them are reals, with the two zeros told apart.  \<open>time\<close> is the trait's
  method, \<open>disp\<close> the \<open>Display\<close> of a float in the error texts.
\<close>

section \<open>Floating-point times\<close>

datatype f64 = Num real | NegZero | PosInf | NegInf | NaN bool u64

fun num_value :: "f64 \<Rightarrow> real option" where
  "num_value (Num r) = Some r"
| "num_value NegZero = Some 0"
| "num_value _ = None"

definition is_finite :: "f64 \<Rightarrow> bool" where
  "is_finite x \<longleftrightarrow> num_value x \<noteq> None"

fun is_nan :: "f64 \<Rightarrow> bool" where
  "is_nan (NaN _ _) = True"
| "is_nan _ = False"

text \<open>The place of a value in the order of the comparison operators; a NaN has none.\<close>

fun place :: "f64 \<Rightarrow> (int \<times> real) option" where
  "place NegInf = Some (- 1, 0)"
| "place (Num r) = Some (0, r)"
| "place NegZero = Some (0, 0)"
| "place PosInf = Some (1, 0)"
| "place (NaN _ _) = None"

definition compare_with :: "(int \<times> real \<Rightarrow> int \<times> real \<Rightarrow> bool) \<Rightarrow> f64 \<Rightarrow> f64 \<Rightarrow> bool" where
  "compare_with r x y =
     (case (place x, place y) of (Some a, Some b) \<Rightarrow> r a b | _ \<Rightarrow> False)"

definition f64_lt :: "f64 \<Rightarrow> f64 \<Rightarrow> bool" where "f64_lt = compare_with (<)"
definition f64_le :: "f64 \<Rightarrow> f64 \<Rightarrow> bool" where "f64_le = compare_with (\<le>)"
definition f64_eq :: "f64 \<Rightarrow> f64 \<Rightarrow> bool" where "f64_eq = compare_with (=)"

text \<open>\<open>f64::total_cmp\<close>: negative NaNs, then the numbers with the negative zero before the
  positive one, then positive NaNs.\<close>

fun total_key :: "f64 \<Rightarrow> int \<times> real \<times> int" where
  "total_key NegInf = (- 1, 0, 0)"
| "total_key (Num r) = (0, r, 0)"
| "total_key NegZero = (0, 0, - 1)"
| "total_key PosInf = (1, 0, 0)"
| "total_key (NaN neg p) =
     (if neg then (- 2, - real (unat p), 0) else (2, real (unat p), 0))"

text \<open>The bits of a float determine it; \<open>to_bits_normalized\<close> merges the zeros and the NaNs.\<close>

definition to_bits_normalized :: "f64 \<Rightarrow> f64" where
  "to_bits_normalized jd =
     (if f64_eq jd (Num 0) then Num 0 else if is_nan jd then NaN False 0 else jd)"

lemma compare_finite:
  assumes "num_value x = Some a" "num_value y = Some b"
  shows "f64_lt x y \<longleftrightarrow> a < b" "f64_le x y \<longleftrightarrow> a \<le> b" "f64_eq x y \<longleftrightarrow> a = b"
  using assms
  by (cases x; cases y; simp add: f64_lt_def f64_le_def f64_eq_def compare_with_def less_prod_def' less_eq_prod_def)+

lemma bits_normalized_finite:
  "num_value x = Some a \<Longrightarrow> num_value y = Some b \<Longrightarrow>
   to_bits_normalized x = to_bits_normalized y \<longleftrightarrow> a = b"
  by (cases x; cases y) (auto simp: to_bits_normalized_def f64_eq_def compare_with_def)

lemma bits_normalized_not_finite:
  "num_value x = Some a \<Longrightarrow> num_value y = None \<Longrightarrow> to_bits_normalized x \<noteq> to_bits_normalized y"
  by (cases x; cases y) (auto simp: to_bits_normalized_def f64_eq_def compare_with_def)

lemma total_key_eq_iff: "total_key x = total_key y \<longleftrightarrow> x = y"
  by (cases x; cases y) (auto simp: unsigned_word_eqI)

section \<open>Validation\<close>

definition not_finite_text :: "(f64 \<Rightarrow> string) \<Rightarrow> string \<Rightarrow> f64 \<Rightarrow> string" where
  "not_finite_text disp name x = name @ '' contains non-finite jd value '' @ disp x"

definition not_increasing_text :: "(f64 \<Rightarrow> string) \<Rightarrow> string \<Rightarrow> f64 \<Rightarrow> f64 \<Rightarrow> string" where
  "not_increasing_text disp name x prev =
     name @ '' is not strictly increasing ('' @ disp x @ '' <= '' @ disp prev @ '')''"

fun validate_from ::
  "(f64 \<Rightarrow> string) \<Rightarrow> ('p \<Rightarrow> f64) \<Rightarrow> string \<Rightarrow> f64 \<Rightarrow> 'p list \<Rightarrow> (alert_error, unit) result" where
  "validate_from disp tm name prev [] = Inr ()"
| "validate_from disp tm name prev (p # ps) =
     (if \<not> is_finite (tm p) then Inl (InvalidTimeseriesInput (not_finite_text disp name (tm p)))
      else if f64_le (tm p) prev
      then Inl (InvalidTimeseriesInput (not_increasing_text disp name (tm p) prev))
      else validate_from disp tm name (tm p) ps)"

fun validate_monotonic_increasing ::
  "(f64 \<Rightarrow> string) \<Rightarrow> ('p \<Rightarrow> f64) \<Rightarrow> 'p list \<Rightarrow> string \<Rightarrow> (alert_error, unit) result" where
  "validate_monotonic_increasing disp tm [] name = Inr ()"
| "validate_monotonic_increasing disp tm (p # ps) name =
     (if \<not> is_finite (tm p) then Inl (InvalidTimeseriesInput (not_finite_text disp name (tm p)))
      else validate_from disp tm name (tm p) ps)"

text \<open>A valid series: finite and strictly increasing times.  \<open>at_time\<close> reads the number of a finite
  time.\<close>

definition at_time :: "('p \<Rightarrow> f64) \<Rightarrow> 'p \<Rightarrow> real" where
  "at_time tm p = the (num_value (tm p))"

definition finite_point :: "('p \<Rightarrow> f64) \<Rightarrow> 'p \<Rightarrow> bool" where
  "finite_point tm p \<longleftrightarrow> is_finite (tm p)"

definition valid_series :: "('p \<Rightarrow> f64) \<Rightarrow> 'p list \<Rightarrow> bool" where
  "valid_series tm ps \<longleftrightarrow> list_all (finite_point tm) ps \<and> sorted_wrt (<) (map (at_time tm) ps)"

lemma finite_pointD: "finite_point tm p \<Longrightarrow> num_value (tm p) = Some (at_time tm p)"
  by (auto simp: finite_point_def is_finite_def at_time_def)

lemma validate_from_ok:
  "num_value prev = Some r \<Longrightarrow>
   validate_from disp tm name prev ps = Inr () \<longleftrightarrow>
     valid_series tm ps \<and> (\<forall>x\<in>set (map (at_time tm) ps). r < x)"
proof (induction ps arbitrary: prev r)
  case Nil
  then show ?case by (simp add: valid_series_def)
next
  case (Cons p ps)
  show ?case
  proof (cases "finite_point tm p")
    case True
    from finite_pointD [OF this] Cons show ?thesis
      using compare_finite(2) [OF finite_pointD [OF True] Cons.prems] True
      by (auto simp: valid_series_def finite_point_def)
  next
    case False
    then show ?thesis
      by (simp add: valid_series_def finite_point_def)
  qed
qed

lemma validate_ok:
  "validate_monotonic_increasing disp tm ps name = Inr () \<longleftrightarrow> valid_series tm ps"
proof (cases ps)
  case (Cons p qs)
  show ?thesis
  proof (cases "finite_point tm p")
    case True
    then show ?thesis
      using validate_from_ok [OF finite_pointD [OF True], where disp = disp and name = name and ps = qs]
      by (auto simp: Cons valid_series_def finite_point_def)
  next
    case False
    then show ?thesis
      by (simp add: Cons valid_series_def finite_point_def)
  qed
qed (simp add: valid_series_def)

lemma validate_from_error:
  "validate_from disp tm name prev ps = Inl e \<Longrightarrow> \<exists>t. e = InvalidTimeseriesInput t"
  by (induction ps arbitrary: prev) (auto split: if_splits)

lemma validate_cases:
  "validate_monotonic_increasing disp tm ps name = Inr () \<and> valid_series tm ps \<or>
   (\<exists>t. validate_monotonic_increasing disp tm ps name = Inl (InvalidTimeseriesInput t)) \<and>
     \<not> valid_series tm ps"
proof (cases "validate_monotonic_increasing disp tm ps name")
  case (Inl e)
  then have "\<exists>t. e = InvalidTimeseriesInput t"
    by (cases ps) (auto split: if_splits dest: validate_from_error)
  then show ?thesis
    using Inl validate_ok [of disp tm ps name] by auto
qed (use validate_ok [of disp tm ps name] in auto)

section \<open>Sanitising\<close>

text \<open>\<open>Vec::dedup_by\<close>: a point that is the same as the one kept before it is dropped.\<close>

fun dedup_by :: "('p \<Rightarrow> 'p \<Rightarrow> bool) \<Rightarrow> 'p list \<Rightarrow> 'p list" where
  "dedup_by same (x # y # r) = (if same y x then dedup_by same (x # r) else x # dedup_by same (y # r))"
| "dedup_by same r = r"

text \<open>\<open>sort_by\<close> is stable, as \<^const>\<open>sort_key\<close> is.\<close>

definition sanitize_timeseries :: "('p \<Rightarrow> f64) \<Rightarrow> 'p list \<Rightarrow> 'p list" where
  "sanitize_timeseries tm ps =
     filter (finite_point tm)
       (dedup_by (\<lambda>a b. f64_eq (tm a) (tm b)) (sort_key (total_key \<circ> tm) ps))"

section \<open>Preparing an update\<close>

text \<open>\<open>slice::partition_point\<close> of a slice that is partitioned, which validation has established.\<close>

definition partition_point :: "('a \<Rightarrow> bool) \<Rightarrow> 'a list \<Rightarrow> nat" where
  "partition_point p xs = length (takeWhile p xs)"

text \<open>The deduplicating loop: the kept points, and the least time among them.\<close>

fun dedup_new :: "('p \<Rightarrow> f64) \<Rightarrow> f64 list \<Rightarrow> 'p list \<Rightarrow> f64 \<Rightarrow> 'p list \<times> f64" where
  "dedup_new tm existing_jds [] least = ([], least)"
| "dedup_new tm existing_jds (p # ps) least =
     (if to_bits_normalized (tm p) \<notin> set existing_jds
      then (let (ds, least) = dedup_new tm existing_jds ps (if f64_lt (tm p) least then tm p else least)
            in (p # ds, least))
      else dedup_new tm existing_jds ps least)"

definition prepare_timeseries_update ::
  "(f64 \<Rightarrow> string) \<Rightarrow> ('p \<Rightarrow> f64) \<Rightarrow> 'p list \<Rightarrow> f64 list \<Rightarrow> string \<Rightarrow>
   (alert_error, 'p list \<times> bool) result" where
  "prepare_timeseries_update disp tm new_data existing_data name =
     and_then (validate_monotonic_increasing disp (\<lambda>jd. jd) existing_data name) (\<lambda>_.
     and_then (validate_monotonic_increasing disp tm new_data name) (\<lambda>_.
     if new_data = [] then Inr ([], False)
     else if existing_data = [] then Inr (new_data, False)
     else
       let min_new_jd = tm (new_data ! 0);
           max_existing_jd = existing_data ! (length existing_data - 1)
       in if f64_lt max_existing_jd min_new_jd then Inr (new_data, False)
          else
            let overlap_start = partition_point (\<lambda>jd. f64_lt jd min_new_jd) existing_data;
                existing_jds = map to_bits_normalized (drop overlap_start existing_data);
                (prepared, min_new_jd_deduped) = dedup_new tm existing_jds new_data PosInf
            in Inr (prepared, \<not> f64_lt max_existing_jd min_new_jd_deduped)))"

text \<open>What the database holds after the update is pushed: appended, and sorted when asked.\<close>

definition push_points :: "('p \<Rightarrow> f64) \<Rightarrow> 'p list \<times> bool \<Rightarrow> 'p list \<Rightarrow> 'p list" where
  "push_points tm prepared stored =
     (let (new_docs, need_sort) = prepared
      in if need_sort then sort_key (at_time tm) (stored @ new_docs) else stored @ new_docs)"

text \<open>\<open>update_timeseries_op\<close>, evaluated: the stored points (none when the field is missing) and
  the new ones, the first of every time kept, times that are not finite numbers filtered out,
  sorted by time.  The equality of the \<open>$in\<close> operator merges the zeros and the NaNs.\<close>

fun reduce_first :: "('p \<Rightarrow> f64) \<Rightarrow> 'p list \<Rightarrow> 'p list \<Rightarrow> 'p list" where
  "reduce_first tm acc [] = acc"
| "reduce_first tm acc (p # ps) =
     reduce_first tm
       (if to_bits_normalized (tm p) \<in> (to_bits_normalized \<circ> tm) ` set acc then acc else acc @ [p]) ps"

definition update_timeseries_op :: "('p \<Rightarrow> f64) \<Rightarrow> 'p list option \<Rightarrow> 'p list \<Rightarrow> 'p list" where
  "update_timeseries_op tm stored new_points =
     sort_key (at_time tm)
       (filter (finite_point tm)
         (reduce_first tm [] ((case stored of None \<Rightarrow> [] | Some ps \<Rightarrow> ps) @ new_points)))"

section \<open>Correctness of the preparation\<close>

lemma dedup_new_kept:
  "fst (dedup_new tm ex ps least) = filter (\<lambda>p. to_bits_normalized (tm p) \<notin> set ex) ps"
  by (induction ps arbitrary: least) (simp_all add: Let_def split_def)

lemma dedup_new_least:
  assumes "num_value m = Some a"
  shows "list_all (finite_point tm) ps \<Longrightarrow> least = PosInf \<or> is_finite least \<Longrightarrow>
    f64_lt m (snd (dedup_new tm ex ps least)) \<longleftrightarrow>
      f64_lt m least \<and>
      (\<forall>p\<in>set ps. to_bits_normalized (tm p) \<notin> set ex \<longrightarrow> a < at_time tm p)"
proof (induction ps arbitrary: least)
  case (Cons p ps)
  then have fin: "num_value (tm p) = Some (at_time tm p)" and ps: "list_all (finite_point tm) ps"
    by (auto intro: finite_pointD)
  let ?l = "if f64_lt (tm p) least then tm p else least"
  have least: "?l = PosInf \<or> is_finite ?l"
    using Cons.prems(2) fin by (auto simp: is_finite_def)
  have lt: "f64_lt m ?l \<longleftrightarrow> f64_lt m least \<and> a < at_time tm p"
  proof (cases "least = PosInf")
    case True
    then show ?thesis
      using assms fin by (cases m; cases "tm p")
        (auto simp: f64_lt_def compare_with_def less_prod_def')
  next
    case False
    then obtain b where "num_value least = Some b"
      using Cons.prems(2) by (auto simp: is_finite_def)
    then show ?thesis
      using compare_finite(1) [OF assms] compare_finite(1) [OF fin] fin by auto
  qed
  show ?case
    using Cons.IH [OF ps least] Cons.IH [OF ps Cons.prems(2)] lt
    by (auto simp: Let_def split: prod.splits)
qed simp

lemma valid_append:
  "valid_series tm (xs @ ys) \<longleftrightarrow> valid_series tm xs \<and> valid_series tm ys \<and>
     (\<forall>x\<in>set xs. \<forall>y\<in>set ys. at_time tm x < at_time tm y)"
  by (auto simp: valid_series_def sorted_wrt_append)

lemma valid_filter: "valid_series tm xs \<Longrightarrow> valid_series tm (filter P xs)"
  by (auto simp: valid_series_def sorted_wrt_map list_all_iff intro: sorted_wrt_filter)

lemma valid_map: "valid_series (\<lambda>jd. jd) (map tm ps) \<longleftrightarrow> valid_series tm ps"
  by (simp add: valid_series_def list_all_iff finite_point_def at_time_def [abs_def] comp_def)

lemma at_map: "at_time (\<lambda>jd. jd) (tm p) = at_time tm p"
  by (simp add: at_time_def)

text \<open>The last time of a valid series is its greatest.\<close>

lemma valid_last:
  assumes "valid_series tm xs" "xs \<noteq> []" "x \<in> set xs"
  shows "at_time tm x \<le> at_time tm (xs ! (length xs - 1))"
proof -
  from assms have "xs = butlast xs @ [last xs]"
    by simp
  with assms(1) have "\<forall>y\<in>set (butlast xs). at_time tm y < at_time tm (last xs)"
    by (metis (no_types, lifting) list.set_intros(1) valid_append)
  moreover have "x \<in> set (butlast xs) \<or> x = last xs"
    using assms(2,3) by (metis append_butlast_last_id in_set_conv_decomp rotate1.simps(2) set_ConsD set_rotate1)
  ultimately show ?thesis
    using assms(2) by (auto simp: last_conv_nth)
qed

lemma valid_head:
  assumes "valid_series tm xs" "x \<in> set xs"
  shows "at_time tm (xs ! 0) \<le> at_time tm x"
  using assms by (cases xs) (auto simp: valid_series_def)

definition unseen :: "('p \<Rightarrow> f64) \<Rightarrow> f64 list \<Rightarrow> 'p list \<Rightarrow> 'p list" where
  "unseen tm existing ps =
     filter (\<lambda>p. at_time tm p \<notin> at_time (\<lambda>jd. jd) ` set existing) ps"

lemma valid_finite: "valid_series tm ps \<Longrightarrow> p \<in> set ps \<Longrightarrow> num_value (tm p) = Some (at_time tm p)"
  by (auto simp: valid_series_def list_all_iff intro: finite_pointD)

text \<open>Looking for a new time only among the stored times from the first overlap on is enough.\<close>

lemma overlap_enough:
  assumes ex: "valid_series (\<lambda>jd. jd) existing" and nw: "valid_series tm new" and p: "p \<in> set new"
  shows "to_bits_normalized (tm p) \<in> set (map to_bits_normalized
      (drop (partition_point (\<lambda>jd. f64_lt jd (tm (new ! 0))) existing) existing)) \<longleftrightarrow>
    at_time tm p \<in> at_time (\<lambda>jd. jd) ` set existing" (is "?l \<longleftrightarrow> ?r")
proof -
  let ?P = "\<lambda>jd. f64_lt jd (tm (new ! 0))"
  have d: "drop (partition_point ?P existing) existing = dropWhile ?P existing"
    by (simp add: partition_point_def dropWhile_eq_drop)
  have ne: "new ! 0 \<in> set new"
    using p by (cases new) auto
  have eq: "to_bits_normalized (tm p) = to_bits_normalized x \<longleftrightarrow> at_time tm p = at_time (\<lambda>jd. jd) x"
    if "x \<in> set existing" for x
    using bits_normalized_finite [OF valid_finite [OF nw p] valid_finite [OF ex that]] .
  have "x \<in> set (dropWhile ?P existing)" if x: "x \<in> set existing" "at_time tm p = at_time (\<lambda>jd. jd) x" for x
  proof -
    have "\<not> ?P x"
      using compare_finite(1) [OF valid_finite [OF ex x(1)] valid_finite [OF nw ne]]
        valid_head [OF nw p] x(2) by simp
    moreover have "x \<in> set (takeWhile ?P existing) \<or> x \<in> set (dropWhile ?P existing)"
      using x(1) by (metis Un_iff set_append takeWhile_dropWhile_id)
    ultimately show ?thesis
      by (metis set_takeWhileD)
  qed
  then show ?thesis
    using eq by (auto simp: d dest: set_dropWhileD)
qed

lemma kept_is_unseen:
  assumes "valid_series (\<lambda>jd. jd) existing" "valid_series tm new"
  shows "fst (dedup_new tm (map to_bits_normalized
      (drop (partition_point (\<lambda>jd. f64_lt jd (tm (new ! 0))) existing) existing)) new l)
    = unseen tm existing new"
  unfolding dedup_new_kept unseen_def
  by (rule filter_cong [OF refl]) (simp only: overlap_enough [OF assms])

text \<open>Appending keeps a series valid when all new times are above the last stored one.\<close>

lemma append_valid:
  assumes ex: "valid_series (\<lambda>jd. jd) existing" "existing \<noteq> []" and ds: "valid_series tm ds"
  shows "valid_series (\<lambda>jd. jd) (existing @ map tm ds) \<longleftrightarrow>
    (\<forall>p\<in>set ds. at_time (\<lambda>jd. jd) (existing ! (length existing - 1)) < at_time tm p)"
proof -
  have m: "existing ! (length existing - 1) \<in> set existing"
    using ex(2) by simp
  have "valid_series (\<lambda>jd. jd) (existing @ map tm ds) \<longleftrightarrow>
      (\<forall>x\<in>set existing. \<forall>p\<in>set ds. at_time (\<lambda>jd. jd) x < at_time tm p)"
    using ex(1) ds by (simp add: valid_append valid_map at_map)
  also have "\<dots> \<longleftrightarrow>
      (\<forall>p\<in>set ds. at_time (\<lambda>jd. jd) (existing ! (length existing - 1)) < at_time tm p)"
    using m valid_last [OF ex] by (meson order.strict_trans1)
  finally show ?thesis .
qed

lemma prepare_valid:
  assumes ex: "valid_series (\<lambda>jd. jd) existing" and nw: "valid_series tm new"
  shows "prepare_timeseries_update disp tm new existing name =
    Inr (unseen tm existing new,
         \<not> valid_series (\<lambda>jd. jd) (existing @ map tm (unseen tm existing new)))"
proof -
  have ok: "validate_monotonic_increasing disp (\<lambda>jd. jd) existing name = Inr ()"
      "validate_monotonic_increasing disp tm new name = Inr ()"
    using assms by (simp_all only: validate_ok)
  note prep = prepare_timeseries_update_def [of disp tm new existing name, unfolded ok and_then_simps]
  have un: "valid_series tm (unseen tm existing new)"
    using nw by (simp add: unseen_def valid_filter)
  show ?thesis
  proof (cases "new = [] \<or> existing = []")
    case True
    then show ?thesis
      using ex nw by (auto simp: prep unseen_def valid_map)
  next
    case False
    define m where "m = existing ! (length existing - 1)"
    have m: "num_value m = Some (at_time (\<lambda>jd. jd) m)" and n0: "new ! 0 \<in> set new"
      using False valid_finite [OF ex, of m] by (simp_all add: m_def)
    note app = append_valid [OF ex _ un, folded m_def]
    show ?thesis
    proof (cases "f64_lt m (tm (new ! 0))")
      case True
      then have lt: "at_time (\<lambda>jd. jd) m < at_time tm p" if "p \<in> set new" for p
        using compare_finite(1) [OF m valid_finite [OF nw n0]] valid_head [OF nw that] by simp
      then have "unseen tm existing new = new"
        using valid_last [OF ex] False by (force simp: unseen_def m_def filter_id_conv)
      then show ?thesis
        using True False app lt by (simp add: prep m_def Let_def)
    next
      case nlt: False
      let ?jds = "map to_bits_normalized
        (drop (partition_point (\<lambda>jd. f64_lt jd (tm (new ! 0))) existing) existing)"
      have "list_all (finite_point tm) new"
        using nw by (simp add: valid_series_def)
      from dedup_new_least [OF m this, of PosInf ?jds]
      have "f64_lt m (snd (dedup_new tm ?jds new PosInf)) \<longleftrightarrow>
          (\<forall>p\<in>set new. to_bits_normalized (tm p) \<notin> set ?jds \<longrightarrow> at_time (\<lambda>jd. jd) m < at_time tm p)"
        using m by (cases m) (auto simp: f64_lt_def compare_with_def less_prod_def')
      also have "\<dots> \<longleftrightarrow> (\<forall>p\<in>set (unseen tm existing new). at_time (\<lambda>jd. jd) m < at_time tm p)"
        using overlap_enough [OF ex nw] by (auto simp: unseen_def)
      also have "\<dots> \<longleftrightarrow> valid_series (\<lambda>jd. jd) (existing @ map tm (unseen tm existing new))"
        using app False by simp
      finally show ?thesis
        using nlt False kept_is_unseen [OF ex nw, of PosInf]
        by (simp add: prep m_def Let_def split_def)
    qed
  qed
qed

lemma prepared_cases:
  "case prepare_timeseries_update disp tm new existing name of
     Inl e \<Rightarrow> (\<exists>t. e = InvalidTimeseriesInput t) \<and>
       \<not> (valid_series (\<lambda>jd. jd) existing \<and> valid_series tm new)
   | Inr (ds, need_sort) \<Rightarrow>
       valid_series (\<lambda>jd. jd) existing \<and> valid_series tm new \<and>
       ds = filter (\<lambda>p. at_time tm p \<notin> at_time (\<lambda>jd. jd) ` set existing) new \<and>
       (need_sort \<longleftrightarrow> \<not> valid_series (\<lambda>jd. jd) (existing @ map tm ds))"
proof (cases "valid_series (\<lambda>jd. jd) existing \<and> valid_series tm new")
  case True
  then show ?thesis
    by (simp add: prepare_valid flip: unseen_def)
next
  case False
  then obtain t where "prepare_timeseries_update disp tm new existing name =
      Inl (InvalidTimeseriesInput t)"
    using validate_cases [of disp "\<lambda>jd. jd" existing name] validate_cases [of disp tm new name]
    by (auto simp: prepare_timeseries_update_def)
  with False show ?thesis
    by auto
qed

text \<open>
  Preparing an update: it is refused, with the reason, exactly when the stored or the new
  series is not finite and strictly increasing; otherwise it yields exactly the new points whose
  time is not stored yet, in order, and asks for sorting exactly when appending them would leave
  the stored series out of order.
\<close>

theorem prepared_update_is_exact:
  "case prepare_timeseries_update disp tm new existing name of
     Inl e \<Rightarrow> (\<exists>t. e = InvalidTimeseriesInput t) \<and>
       \<not> (valid_series (\<lambda>jd. jd) existing \<and> valid_series tm new)
   | Inr (ds, need_sort) \<Rightarrow>
       valid_series (\<lambda>jd. jd) existing \<and> valid_series tm new \<and>
       ds = filter (\<lambda>p. at_time tm p \<notin> at_time (\<lambda>jd. jd) ` set existing) new \<and>
       (need_sort \<longleftrightarrow> \<not> valid_series (\<lambda>jd. jd) (existing @ map tm ds))"
  by (rule prepared_cases)

section \<open>The pushed update and the update pipeline\<close>

lemma reduce_first_valid:
  "valid_series tm (acc @ ps) \<Longrightarrow> reduce_first tm acc ps = acc @ ps"
proof (induction ps arbitrary: acc)
  case (Cons p ps)
  have "to_bits_normalized (tm p) \<notin> (to_bits_normalized \<circ> tm) ` set acc"
  proof
    assume "to_bits_normalized (tm p) \<in> (to_bits_normalized \<circ> tm) ` set acc"
    then obtain q where q: "q \<in> set acc" "to_bits_normalized (tm p) = to_bits_normalized (tm q)"
      by auto
    have "at_time tm p = at_time tm q"
      using q bits_normalized_finite [OF valid_finite [OF Cons.prems, of p] valid_finite [OF Cons.prems, of q]]
      by simp
    moreover have "at_time tm q < at_time tm p"
      using Cons.prems q(1) by (auto simp: valid_append)
    ultimately show False
      by simp
  qed
  then show ?case
    using Cons by simp
qed simp

text \<open>Reducing keeps, after the points already kept, the first point of each time not kept yet; on
  points of a valid series these are the unseen ones.\<close>

lemma reduce_first_unseen:
  "list_all (finite_point tm) acc \<Longrightarrow> valid_series tm ps \<Longrightarrow>
   reduce_first tm acc ps = acc @ unseen tm (map tm acc) ps"
proof (induction ps arbitrary: acc)
  case (Cons p ps)
  have fin: "num_value (tm p) = Some (at_time tm p)"
    using valid_finite [OF Cons.prems(2)] by simp
  have "to_bits_normalized (tm p) = to_bits_normalized (tm q) \<longleftrightarrow> at_time tm p = at_time tm q"
    if "q \<in> set acc" for q
  proof -
    have "finite_point tm q"
      using Cons.prems(1) that by (simp add: list_all_iff)
    then show ?thesis
      by (rule bits_normalized_finite [OF fin finite_pointD])
  qed
  then have seen: "to_bits_normalized (tm p) \<in> (to_bits_normalized \<circ> tm) ` set acc \<longleftrightarrow>
      at_time tm p \<in> at_time tm ` set acc"
    by auto
  have vs: "valid_series tm ps" "\<forall>q\<in>set ps. at_time tm p < at_time tm q" "finite_point tm p"
    using Cons.prems(2) by (auto simp: valid_series_def)
  have "unseen tm (map tm (acc @ [p])) ps = unseen tm (map tm acc) ps"
    using vs(2) unfolding unseen_def by (intro filter_cong) (auto simp: at_map)
  then show ?case
    using Cons.IH [of acc] Cons.IH [of "acc @ [p]"] Cons.prems(1) vs seen
    by (simp add: unseen_def image_image at_map)
qed (simp add: unseen_def)

lemma reduce_first_append:
  "reduce_first tm acc (xs @ ys) = reduce_first tm (reduce_first tm acc xs) ys"
  by (induction xs arbitrary: acc) simp_all

lemma update_op_valid:
  assumes "valid_series tm stored" "valid_series tm new"
  shows "update_timeseries_op tm (Some stored) new =
    sort_key (at_time tm) (stored @ unseen tm (map tm stored) new)"
proof -
  have fin: "list_all (finite_point tm) stored" "list_all (finite_point tm) new"
    using assms by (simp_all add: valid_series_def)
  have "reduce_first tm [] (stored @ new) = stored @ unseen tm (map tm stored) new"
    using reduce_first_valid [of tm "[]" stored] reduce_first_unseen [OF fin(1) assms(2)] assms(1)
    by (simp add: reduce_first_append)
  moreover have "filter (finite_point tm) (stored @ unseen tm (map tm stored) new) =
      stored @ unseen tm (map tm stored) new"
    using fin unfolding filter_id_conv by (auto simp: unseen_def list_all_iff)
  ultimately show ?thesis
    by (simp add: update_timeseries_op_def)
qed

lemma sort_valid: "valid_series tm ps \<Longrightarrow> sort_key (at_time tm) ps = ps"
  by (rule sort_key_id_if_sorted) (simp add: valid_series_def strict_sorted_imp_sorted)

text \<open>The two ways of writing an update agree: whenever preparing the update succeeds, pushing
  the prepared points (appended, or sorted in when asked) leaves in the database exactly what the
  update pipeline of the fallback would leave.\<close>

lemma push_equals_pipeline:
  assumes "prepare_timeseries_update disp tm new (map tm stored) name = Inr prepared"
  shows "push_points tm prepared stored = update_timeseries_op tm (Some stored) new"
proof -
  from assms have ok: "validate_monotonic_increasing disp (\<lambda>jd. jd) (map tm stored) name = Inr ()"
      "validate_monotonic_increasing disp tm new name = Inr ()"
    by (auto simp: prepare_timeseries_update_def and_then_Inr)
  then have ex: "valid_series (\<lambda>jd. jd) (map tm stored)" and nw: "valid_series tm new"
    by (simp_all only: validate_ok)
  let ?u = "unseen tm (map tm stored) new"
  have "prepared = (?u, \<not> valid_series (\<lambda>jd. jd) (map tm stored @ map tm ?u))"
    using assms unfolding prepare_valid [OF ex nw, of disp name] by (rule sum.inject(2) [THEN iffD1, symmetric])
  also have "map tm stored @ map tm ?u = map tm (stored @ ?u)"
    by (rule map_append [symmetric])
  finally have p: "prepared = (?u, \<not> valid_series tm (stored @ ?u))"
    unfolding valid_map .
  have "update_timeseries_op tm (Some stored) new = sort_key (at_time tm) (stored @ ?u)"
    using ex nw unfolding valid_map by (rule update_op_valid)
  then show ?thesis
    using sort_valid [of tm "stored @ ?u"] by (auto simp: p push_points_def)
qed

lemma reduce_first_distinct:
  "distinct (map (to_bits_normalized \<circ> tm) acc) \<Longrightarrow>
   distinct (map (to_bits_normalized \<circ> tm) (reduce_first tm acc ps)) \<and>
   set (reduce_first tm acc ps) \<subseteq> set acc \<union> set ps \<and>
   (to_bits_normalized \<circ> tm) ` set (reduce_first tm acc ps) =
     (to_bits_normalized \<circ> tm) ` (set acc \<union> set ps)"
proof (induction ps arbitrary: acc)
  case (Cons p ps)
  let ?n = "to_bits_normalized \<circ> tm"
  let ?acc = "if ?n p \<in> ?n ` set acc then acc else acc @ [p]"
  have d: "distinct (map ?n ?acc)"
    using Cons.prems by (simp del: o_apply)
  have "?n ` (set ?acc \<union> set ps) = ?n ` (set acc \<union> set (p # ps))"
    by auto
  moreover have "set ?acc \<union> set ps \<subseteq> set acc \<union> set (p # ps)"
    by auto
  moreover have "reduce_first tm acc (p # ps) = reduce_first tm ?acc ps"
    by simp
  ultimately show ?case
    using Cons.IH [OF d] by (metis subset_trans)
qed simp

lemma finite_times_eq:
  assumes "finite_point tm p" "finite_point tm q"
  shows "to_bits_normalized (tm p) = to_bits_normalized (tm q) \<longleftrightarrow> at_time tm p = at_time tm q"
  by (rule bits_normalized_finite [OF finite_pointD [OF assms(1)] finite_pointD [OF assms(2)]])

text \<open>The update pipeline heals a series: whatever is stored, out of order, with duplicate or
  non-finite times, or missing, and whatever is added, the stored result is finite and strictly
  increasing, holds exactly the finite times of both, and only points of one of them.\<close>

lemma pipeline_heals_series:
  "valid_series tm (update_timeseries_op tm stored new) \<and>
   at_time tm ` set (update_timeseries_op tm stored new) =
     at_time tm ` {p \<in> set (case stored of None \<Rightarrow> [] | Some ps \<Rightarrow> ps) \<union> set new. finite_point tm p} \<and>
   set (update_timeseries_op tm stored new) \<subseteq>
     set (case stored of None \<Rightarrow> [] | Some ps \<Rightarrow> ps) \<union> set new"
proof -
  let ?in = "(case stored of None \<Rightarrow> [] | Some ps \<Rightarrow> ps) @ new"
  let ?r = "reduce_first tm [] ?in" and ?n = "to_bits_normalized \<circ> tm"
  let ?f = "filter (finite_point tm) ?r"
  have r: "distinct (map ?n ?r)" "set ?r \<subseteq> set ?in" "?n ` set ?r = ?n ` set ?in"
    using reduce_first_distinct [of tm "[]" ?in] by simp_all
  have op: "update_timeseries_op tm stored new = sort_key (at_time tm) ?f"
    by (simp add: update_timeseries_op_def)
  have "distinct (map ?n ?f)"
    using r(1) by (rule distinct_map_filter)
  then have "distinct (map (at_time tm) ?f)"
    by (auto simp: distinct_map inj_on_def finite_times_eq)
  then have "distinct (map (at_time tm) (sort_key (at_time tm) ?f))"
    by (simp add: distinct_map)
  then have v: "valid_series tm (sort_key (at_time tm) ?f)"
    by (simp add: valid_series_def strict_sorted_iff list_all_iff)
  have "at_time tm p \<in> at_time tm ` set ?f" if p: "p \<in> set ?in" "finite_point tm p" for p
  proof -
    from p(1) r(3) obtain q where q: "q \<in> set ?r" "?n q = ?n p"
      by (metis imageE imageI)
    then have "finite_point tm q"
      using bits_normalized_not_finite [OF finite_pointD [OF p(2)], of "tm q"]
      by (auto simp: finite_point_def is_finite_def)
    then have "q \<in> set ?f" "at_time tm q = at_time tm p"
      using q p(2) finite_times_eq [of tm q p] by simp_all
    then show ?thesis
      by (metis imageI)
  qed
  then have "at_time tm ` set ?f = at_time tm ` {p \<in> set ?in. finite_point tm p}"
    using r(2) by auto
  then show ?thesis
    using v r(2) by (auto simp: op)
qed

section \<open>Correctness of sanitising\<close>

lemma total_key_finite:
  "total_key x \<le> total_key y \<Longrightarrow> num_value x = Some a \<Longrightarrow> num_value y = Some b \<Longrightarrow> a \<le> b"
  by (cases x; cases y) (auto simp: less_eq_prod_def)

lemma total_key_between:
  "total_key x \<le> total_key y \<Longrightarrow> total_key y \<le> total_key z \<Longrightarrow> num_value x = Some a \<Longrightarrow>
   num_value z = Some c \<Longrightarrow> num_value y \<noteq> None"
  by (cases y; cases x; cases z) (auto simp: less_eq_prod_def split: if_splits)

definition earlier :: "('p \<Rightarrow> f64) \<Rightarrow> 'p \<Rightarrow> 'p \<Rightarrow> bool" where
  "earlier tm p q \<longleftrightarrow> (finite_point tm p \<and> finite_point tm q \<longrightarrow> at_time tm p < at_time tm q)"

abbreviation same_time :: "('p \<Rightarrow> f64) \<Rightarrow> 'p \<Rightarrow> 'p \<Rightarrow> bool" where
  "same_time tm a b \<equiv> f64_eq (tm a) (tm b)"

abbreviation in_total_order :: "('p \<Rightarrow> f64) \<Rightarrow> 'p list \<Rightarrow> bool" where
  "in_total_order tm xs \<equiv> sorted_wrt (\<lambda>a b. total_key (tm a) \<le> total_key (tm b)) xs"

lemma set_dedup_by: "set (dedup_by same xs) \<subseteq> set xs"
  by (induction same xs rule: dedup_by.induct) auto

lemma dedup_by_earlier:
  "in_total_order tm xs \<Longrightarrow> sorted_wrt (earlier tm) (dedup_by (same_time tm) xs)"
proof (induction "same_time tm" xs rule: dedup_by.induct)
  case (1 x y r)
  show ?case
  proof (cases "same_time tm y x")
    case True
    then show ?thesis
      using 1 by simp
  next
    case False
    have "earlier tm x z" if "z \<in> set (dedup_by (same_time tm) (y # r))" for z
      unfolding earlier_def
    proof
      assume f: "finite_point tm x \<and> finite_point tm z"
      have z: "total_key (tm x) \<le> total_key (tm y)" "total_key (tm y) \<le> total_key (tm z)"
        using "1.prems" that set_dedup_by [of "same_time tm" "y # r"] by auto
      then have "finite_point tm y"
        using total_key_between [OF z] f finite_pointD
        by (metis finite_point_def is_finite_def)
      then have fy: "num_value (tm y) = Some (at_time tm y)"
        by (rule finite_pointD)
      have fx: "num_value (tm x) = Some (at_time tm x)" and fz: "num_value (tm z) = Some (at_time tm z)"
        using f by (auto intro: finite_pointD)
      have "at_time tm x \<noteq> at_time tm y"
        using False compare_finite(3) [OF fy fx] by simp
      then show "at_time tm x < at_time tm z"
        using total_key_finite [OF z(1) fx fy] total_key_finite [OF z(2) fy fz] by simp
    qed
    then show ?thesis
      using 1 False by simp
  qed
qed simp_all

lemma dedup_by_keeps_times:
  "p \<in> set xs \<Longrightarrow> finite_point tm p \<Longrightarrow>
   \<exists>q\<in>set (dedup_by (same_time tm) xs). finite_point tm q \<and> at_time tm q = at_time tm p"
proof (induction "same_time tm" xs arbitrary: p rule: dedup_by.induct)
  case (1 x y r p)
  show ?case
  proof (cases "same_time tm y x")
    case True
    have "\<exists>q\<in>set (x # r). finite_point tm q \<and> at_time tm q = at_time tm p"
    proof (cases "p = y")
      case y: True
      then have "num_value (tm y) = Some (at_time tm p)"
        using "1.prems"(2) by (simp add: finite_pointD)
      with True have "num_value (tm x) = Some (at_time tm p)"
        by (cases "tm x"; cases "tm y") (auto simp: f64_eq_def compare_with_def)
      then show ?thesis
        by (auto simp: finite_point_def is_finite_def at_time_def)
    qed (use "1.prems" in auto)
    then obtain q where q: "q \<in> set (x # r)" "finite_point tm q" "at_time tm q = at_time tm p"
      by blast
    show ?thesis
      using "1.hyps"(1) [OF True q(1,2)] True q(3) by simp
  next
    case False
    then show ?thesis
      using "1.hyps"(2) [OF False] "1.prems" by auto
  qed
qed auto

lemma dedup_by_keeps_first:
  "in_total_order tm xs \<Longrightarrow> p \<in> set (dedup_by (same_time tm) xs) \<Longrightarrow> finite_point tm p \<Longrightarrow>
   find (\<lambda>q. tm q = tm p) xs = Some p"
proof (induction "same_time tm" xs rule: dedup_by.induct)
  case (1 x y r)
  note sorted = dedup_by_earlier [OF "1.prems"(1)]
  have hd: "\<exists>t. dedup_by (same_time tm) (x # r') = x # t" for r'
    by (induction r') auto
  show ?case
  proof (cases "same_time tm y x")
    case True
    have IH: "find (\<lambda>q. tm q = tm p) (x # r) = Some p"
      using "1.hyps"(1) [OF True] "1.prems" True by simp
    have "tm y \<noteq> tm p" if x: "tm x \<noteq> tm p"
    proof
      assume y: "tm y = tm p"
      obtain t where t: "dedup_by (same_time tm) (x # r) = x # t"
        using hd by blast
      with "1.prems"(2) True x have "p \<in> set t"
        by auto
      with sorted True t have e: "earlier tm x p"
        by simp
      have fp: "num_value (tm p) = Some (at_time tm p)"
        using "1.prems"(3) by (rule finite_pointD)
      with True y have "num_value (tm x) = Some (at_time tm p)"
        by (cases "tm x"; cases "tm p") (auto simp: f64_eq_def compare_with_def)
      then have "finite_point tm x" "at_time tm x = at_time tm p"
        by (auto simp: finite_point_def is_finite_def at_time_def)
      with e "1.prems"(3) show False
        by (simp add: earlier_def)
    qed
    then show ?thesis
      using IH by (auto split: if_splits)
  next
    case False
    show ?thesis
    proof (cases "p \<in> set (dedup_by (same_time tm) (y # r))")
      case True
      with sorted False have e: "earlier tm x p"
        by simp
      then have "tm x \<noteq> tm p"
        using "1.prems"(3) by (auto simp: earlier_def finite_point_def at_time_def)
      then show ?thesis
        using "1.hyps"(2) [OF False] "1.prems" True by simp
    next
      case False
      then have "p = x"
        using "1.prems"(2) \<open>\<not> same_time tm y x\<close> by simp
      then show ?thesis
        by simp
    qed
  qed
qed auto

lemma find_filter: "find P xs = (case filter P xs of [] \<Rightarrow> None | x # _ \<Rightarrow> Some x)"
  by (induction xs) auto

lemma sanitized_cases:
  "valid_series tm (sanitize_timeseries tm ps) \<and>
   at_time tm ` set (sanitize_timeseries tm ps) = at_time tm ` {p \<in> set ps. finite_point tm p} \<and>
   list_all (\<lambda>p. find (\<lambda>q. tm q = tm p) ps = Some p) (sanitize_timeseries tm ps)"
proof -
  let ?xs = "sort_key (total_key \<circ> tm) ps"
  let ?ds = "dedup_by (same_time tm) ?xs"
  have srt: "in_total_order tm ?xs"
    using sorted_sort_key [of "total_key \<circ> tm" ps] by (simp add: sorted_wrt_map)
  have "sorted_wrt (earlier tm) (filter (finite_point tm) ?ds)"
    by (rule sorted_wrt_filter [OF dedup_by_earlier [OF srt]])
  then have "sorted_wrt (\<lambda>p q. at_time tm p < at_time tm q) (filter (finite_point tm) ?ds)"
    by (rule sorted_wrt_mono_rel [rotated]) (auto simp: earlier_def)
  then have "valid_series tm (filter (finite_point tm) ?ds)"
    by (simp add: valid_series_def sorted_wrt_map list_all_iff)
  moreover have "at_time tm ` set (filter (finite_point tm) ?ds) =
      at_time tm ` {p \<in> set ps. finite_point tm p}"
    using set_dedup_by [of "same_time tm" ?xs] dedup_by_keeps_times [of _ ?xs tm]
    by (fastforce simp: image_iff)
  moreover have "find (\<lambda>q. tm q = tm p) ps = Some p" if "p \<in> set (filter (finite_point tm) ?ds)" for p
  proof -
    have eq: "(\<lambda>q. tm q = tm p) = (\<lambda>q. (total_key \<circ> tm) q = total_key (tm p))"
      by (simp add: total_key_eq_iff)
    have "find (\<lambda>q. tm q = tm p) ?xs = Some p"
      using dedup_by_keeps_first [OF srt] that by simp
    then show ?thesis
      by (simp only: find_filter eq sort_key_stable)
  qed
  ultimately show ?thesis
    unfolding sanitize_timeseries_def by (simp add: list_all_iff)
qed

text \<open>
  Sanitising a series of points, in any order and with any times, yields a finite and
  strictly increasing series that holds exactly the finite times that came in, and for each of
  them the point that came first with exactly that time.
\<close>

theorem sanitized_series_is_valid:
  "valid_series tm (sanitize_timeseries tm ps) \<and>
   at_time tm ` set (sanitize_timeseries tm ps) = at_time tm ` {p \<in> set ps. finite_point tm p} \<and>
   list_all (\<lambda>p. find (\<lambda>q. tm q = tm p) ps = Some p) (sanitize_timeseries tm ps)"
  by (rule sanitized_cases)

end
