(* ===== verification/Ztf_Photometry.thy ===== *)
theory Ztf_Photometry
  imports Alert_Timeseries Json
begin

text \<open>
  The photometry of a ZTF packet (\<open>src/src/alert/ztf.rs\<close>, the types and their conversions;
  \<open>src/src/utils/lightcurves.rs\<close>, magnitudes and fluxes): the current candidate, the earlier points
  and the forced photometry, each converted from its form in the packet into its stored form
  with fluxes in nJy and a band.  A 32-bit float is its bits; signs, comparisons and the special
  values are computed from them, rounded arithmetic is a record of functions.
\<close>

unbundle bit_operations_syntax

section \<open>32-bit floats\<close>

type_synonym f32 = "32 word"
type_synonym i32 = "32 word"

text \<open>The place of a value in the order of the comparison operators; a NaN has none.\<close>

definition f32_place :: "f32 \<Rightarrow> (int \<times> real) option" where
  "f32_place x =
     (let m = unat (x AND 0x7FFFFF); e = unat (drop_bit 23 x AND 0xFF); s = (if x AND 0x80000000 = 0 then 1 else - 1)
      in if e = 255 then (if m = 0 then Some (s, 0) else None)
         else Some (0, real_of_int s * (if e = 0 then real m / 2 ^ 149 else real ((2 ^ 23 + m) * 2 ^ e) / 2 ^ 150)))"

definition f32_nan :: "f32 \<Rightarrow> bool" where "f32_nan x \<longleftrightarrow> f32_place x = None"
definition f32_finite :: "f32 \<Rightarrow> bool" where "f32_finite x \<longleftrightarrow> pred_option (\<lambda>p. fst p = 0) (f32_place x) \<and> \<not> f32_nan x"
definition f32_neg :: "f32 \<Rightarrow> f32" where "f32_neg x = x XOR 0x80000000"
definition f32_abs :: "f32 \<Rightarrow> f32" where "f32_abs x = x AND 0x7FFFFFFF"

text \<open>\<open>x < r\<close>, \<open>r < x\<close> and so on for a literal \<open>r\<close> that a float represents exactly.\<close>

definition f32_to_literal :: "(int \<times> real \<Rightarrow> int \<times> real \<Rightarrow> bool) \<Rightarrow> f32 \<Rightarrow> real \<Rightarrow> bool" where
  "f32_to_literal cmp x r = (case f32_place x of None \<Rightarrow> False | Some p \<Rightarrow> cmp p (0, r))"

text \<open>Rounded arithmetic, the decimal literals and the casts.\<close>

record float_unit =
  f_add :: "f32 \<Rightarrow> f32 \<Rightarrow> f32"
  f_sub :: "f32 \<Rightarrow> f32 \<Rightarrow> f32"
  f_mul :: "f32 \<Rightarrow> f32 \<Rightarrow> f32"
  f_div :: "f32 \<Rightarrow> f32 \<Rightarrow> f32"
  f_powf :: "f32 \<Rightarrow> f32 \<Rightarrow> f32"
  f_log10 :: "f32 \<Rightarrow> f32"
  f_ln :: "f32 \<Rightarrow> f32"
  f_sqrt :: "f32 \<Rightarrow> f32"
  f_square :: "f32 \<Rightarrow> f32"
  f_lit :: "real \<Rightarrow> f32"
  d_sub :: "f64 \<Rightarrow> f64 \<Rightarrow> f64"
  d_mul :: "f64 \<Rightarrow> f64 \<Rightarrow> f64"
  d_div :: "f64 \<Rightarrow> f64 \<Rightarrow> f64"
  d_powf :: "f64 \<Rightarrow> f64 \<Rightarrow> f64"
  d_add :: "f64 \<Rightarrow> f64 \<Rightarrow> f64"
  d_sqrt :: "f64 \<Rightarrow> f64"
  d_log10 :: "f64 \<Rightarrow> f64"
  d_radians :: "f64 \<Rightarrow> f64"
  d_lit :: "real \<Rightarrow> f64"
  as_f64 :: "f32 \<Rightarrow> f64"
  as_f32 :: "f64 \<Rightarrow> f32"

section \<open>Magnitudes and fluxes\<close>

datatype band = G | R | I | Z | Y | U | J | H | K

definition FACTOR :: "float_unit \<Rightarrow> f32" where "FACTOR F = f_lit F (10857362047581294 / 10 ^ 16)"
definition ZTF_ZP :: "float_unit \<Rightarrow> f32" where "ZTF_ZP F = f_lit F (239 / 10)"

definition flux2mag :: "float_unit \<Rightarrow> f32 \<Rightarrow> f32 \<Rightarrow> f32 \<Rightarrow> f32 \<times> f32" where
  "flux2mag F flux flux_err zp =
     (f_add F (f_mul F (f32_neg (f_lit F (5 / 2))) (f_log10 F flux)) zp,
      f_mul F (f_div F (f_lit F (5 / 2)) (f_ln F (f_lit F 10))) (f_div F flux_err flux))"

definition mag2flux :: "float_unit \<Rightarrow> f32 \<Rightarrow> f32 \<Rightarrow> f32 \<Rightarrow> f32 \<times> f32" where
  "mag2flux F mag mag_err zp =
     (let flux = f_powf F (f_lit F 10) (f_mul F (f32_neg (f_lit F (4 / 10))) (f_sub F mag zp))
      in (flux, f_mul F (f_div F mag_err (FACTOR F)) flux))"

definition diffmaglim2fluxerr :: "float_unit \<Rightarrow> f32 \<Rightarrow> f32 \<Rightarrow> f32" where
  "diffmaglim2fluxerr F diffmaglim zp =
     f_div F (f_powf F (f_lit F 10) (f_div F (f_sub F diffmaglim zp) (f32_neg (f_lit F (5 / 2))))) (f_lit F 5)"

text \<open>\<open>x * 1e9\<close>, from Jy to nJy, and the signed flux of a difference image.\<close>

definition to_njy :: "float_unit \<Rightarrow> f32 \<Rightarrow> f32" where
  "to_njy F x = f_mul F x (f_lit F (10 ^ 9))"

definition signed_njy :: "float_unit \<Rightarrow> bool \<Rightarrow> f32 \<Rightarrow> f32" where
  "signed_njy F isdiffpos flux = (if isdiffpos then to_njy F flux else to_njy F (f32_neg flux))"

definition fid2band :: "i32 \<Rightarrow> (alert_error, band) result" where
  "fid2band fid = (if fid = 1 then Inr G else if fid = 2 then Inr R else if fid = 3 then Inr I else Inl (UnknownFid fid))"

section \<open>The points of a packet\<close>

record prv_candidate =
  p_jd :: f64
  p_fid :: i32
  p_pid :: i64
  p_diffmaglim :: "f32 option"
  p_programpi :: "string option"
  p_programid :: i32
  p_candid :: "i64 option"
  p_isdiffpos :: "bool option"
  p_nid :: "i32 option"
  p_rcid :: "i32 option"
  p_field :: "i32 option"
  p_ra :: "f64 option"
  p_dec :: "f64 option"
  p_magpsf :: "f32 option"
  p_sigmapsf :: "f32 option"
  p_chipsf :: "f32 option"
  p_magap :: "f32 option"
  p_sigmagap :: "f32 option"
  p_distnr :: "f32 option"
  p_magnr :: "f32 option"
  p_sigmagnr :: "f32 option"
  p_chinr :: "f32 option"
  p_sharpnr :: "f32 option"
  p_sky :: "f32 option"
  p_fwhm :: "f32 option"
  p_mindtoedge :: "f32 option"
  p_seeratio :: "f32 option"
  p_aimage :: "f32 option"
  p_bimage :: "f32 option"
  p_elong :: "f32 option"
  p_nneg :: "i32 option"
  p_nbad :: "i32 option"
  p_rb :: "f32 option"
  p_ssdistnr :: "f32 option"
  p_ssmagnr :: "f32 option"
  p_ssnamenr :: "string option"
  p_ranr :: "f64 option"
  p_decnr :: "f64 option"
  p_scorr :: "f64 option"
  p_magzpsci :: "f32 option"

record fp_hist =
  h_field :: "i32 option"
  h_rcid :: "i32 option"
  h_fid :: i32
  h_pid :: i64
  h_rfid :: i64
  h_magzpsci :: "f32 option"
  h_magzpsciunc :: "f32 option"
  h_magzpscirms :: "f32 option"
  h_exptime :: "f32 option"
  h_diffmaglim :: "f32 option"
  h_programid :: i32
  h_jd :: f64
  h_forcediffimflux :: "f32 option"
  h_forcediffimfluxunc :: "f32 option"
  h_procstatus :: "string option"
  h_distnr :: "f32 option"
  h_magnr :: "f32 option"
  h_sigmagnr :: "f32 option"
  h_chinr :: "f32 option"
  h_sharpnr :: "f32 option"

record candidate =
  c_jd :: f64
  c_fid :: i32
  c_pid :: i64
  c_diffmaglim :: "f32 option"
  c_programpi :: "string option"
  c_programid :: i32
  c_tooflag :: bool
  c_candid :: i64
  c_isdiffpos :: bool
  c_nid :: "i32 option"
  c_rcid :: "i32 option"
  c_field :: "i32 option"
  c_ra :: f64
  c_dec :: f64
  c_magpsf :: f32
  c_sigmapsf :: f32
  c_chipsf :: "f32 option"
  c_magap :: "f32 option"
  c_sigmagap :: "f32 option"
  c_distnr :: "f32 option"
  c_magnr :: "f32 option"
  c_sigmagnr :: "f32 option"
  c_chinr :: "f32 option"
  c_sharpnr :: "f32 option"
  c_sky :: "f32 option"
  c_fwhm :: "f32 option"
  c_classtar :: "f32 option"
  c_mindtoedge :: "f32 option"
  c_seeratio :: "f32 option"
  c_aimage :: "f32 option"
  c_bimage :: "f32 option"
  c_elong :: "f32 option"
  c_nneg :: "i32 option"
  c_nbad :: "i32 option"
  c_rb :: "f32 option"
  c_ssdistnr :: "f32 option"
  c_ssmagnr :: "f32 option"
  c_ssnamenr :: "string option"
  c_ranr :: f64
  c_decnr :: f64
  c_sgmag1 :: "f32 option"
  c_srmag1 :: "f32 option"
  c_simag1 :: "f32 option"
  c_szmag1 :: "f32 option"
  c_sgscore1 :: "f32 option"
  c_distpsnr1 :: "f32 option"
  c_ndethist :: i32
  c_ncovhist :: i32
  c_jdstarthist :: "f64 option"
  c_scorr :: "f64 option"
  c_sgmag2 :: "f32 option"
  c_srmag2 :: "f32 option"
  c_simag2 :: "f32 option"
  c_szmag2 :: "f32 option"
  c_sgscore2 :: "f32 option"
  c_distpsnr2 :: "f32 option"
  c_sgmag3 :: "f32 option"
  c_srmag3 :: "f32 option"
  c_simag3 :: "f32 option"
  c_szmag3 :: "f32 option"
  c_sgscore3 :: "f32 option"
  c_distpsnr3 :: "f32 option"
  c_nmtchps :: i32
  c_rfid :: "i64 option"
  c_jdstartref :: "f64 option"
  c_jdendref :: "f64 option"
  c_nframesref :: "i32 option"
  c_dsnrms :: "f32 option"
  c_ssnrms :: "f32 option"
  c_dsdiff :: "f32 option"
  c_magzpsci :: "f32 option"
  c_magzpsciunc :: "f32 option"
  c_magzpscirms :: "f32 option"
  c_zpmed :: "f32 option"
  c_exptime :: "f32 option"
  c_drb :: "f32 option"
  c_clrcoeff :: "f32 option"
  c_clrcounc :: "f32 option"
  c_neargaia :: "f32 option"
  c_maggaia :: "f32 option"
  c_neargaiabright :: "f32 option"
  c_maggaiabright :: "f32 option"

record ztf_prv_candidate =
  prv_candidate :: prv_candidate
  prv_psf_flux :: "f32 option"
  prv_psf_flux_err :: "f32 option"
  prv_snr_psf :: "f32 option"
  prv_ap_flux :: "f32 option"
  prv_ap_flux_err :: "f32 option"
  prv_snr_ap :: "f32 option"
  prv_band :: band
  prv_drb :: "f32 option"

record ztf_forced_phot =
  fp_hist :: fp_hist
  fp_magpsf :: "f32 option"
  fp_sigmapsf :: "f32 option"
  fp_psf_flux :: "f32 option"
  fp_psf_flux_err :: "f32 option"
  fp_isdiffpos :: "bool option"
  fp_snr_psf :: "f32 option"
  fp_band :: band

record ztf_candidate =
  candidate :: candidate
  cand_psf_flux :: f32
  cand_psf_flux_err :: f32
  cand_snr_psf :: "f32 option"
  cand_ap_flux :: "f32 option"
  cand_ap_flux_err :: "f32 option"
  cand_snr_ap :: "f32 option"
  cand_band :: band

section \<open>Conversions\<close>

text \<open>\<open>ZTF_DIFFMAGLIM_RANGE.contains\<close>.\<close>

definition ZTF_DIFFMAGLIM_RANGE :: "f32 \<Rightarrow> bool" where
  "ZTF_DIFFMAGLIM_RANGE x \<longleftrightarrow> f32_to_literal (\<lambda>p q. q \<le> p) x 10 \<and> f32_to_literal (\<le>) x 30"

definition prv_psf ::
  "float_unit \<Rightarrow> prv_candidate \<Rightarrow> (alert_error, f32 option \<times> f32 option \<times> f32 option) result" where
  "prv_psf F p =
     (case (p_magpsf p, p_sigmapsf p, p_isdiffpos p, p_diffmaglim p) of
        (Some mag, Some sigmag, Some isdiff, _) \<Rightarrow>
          (let (flux, flux_err) = mag2flux F mag sigmag (ZTF_ZP F)
           in Inr (Some (signed_njy F isdiff flux), Some (to_njy F flux_err), Some (f_div F flux flux_err)))
      | (None, None, None, Some diffmaglim) \<Rightarrow>
          (let flux_err = to_njy F (diffmaglim2fluxerr F diffmaglim (ZTF_ZP F))
           in if \<not> ZTF_DIFFMAGLIM_RANGE diffmaglim \<or> \<not> f32_finite flux_err then Inl (InvalidDiffmaglim diffmaglim)
              else Inr (None, Some flux_err, None))
      | _ \<Rightarrow> Inl MissingDiffmaglim)"

definition prv_ap :: "float_unit \<Rightarrow> prv_candidate \<Rightarrow> f32 option \<times> f32 option \<times> f32 option" where
  "prv_ap F p =
     (case (p_magap p, p_sigmagap p, p_isdiffpos p) of
        (Some magap, Some sigmagap, Some isdiff) \<Rightarrow>
          (let (flux, flux_err) = mag2flux F magap sigmagap (ZTF_ZP F)
           in (Some (signed_njy F isdiff flux), Some (to_njy F flux_err), Some (f_div F flux flux_err)))
      | _ \<Rightarrow> (None, None, None))"

definition ztf_prv_candidate_of :: "float_unit \<Rightarrow> prv_candidate \<Rightarrow> (alert_error, ztf_prv_candidate) result" where
  "ztf_prv_candidate_of F p =
     and_then (fid2band (p_fid p)) (\<lambda>band.
     and_then (prv_psf F p) (\<lambda>(psf_flux, psf_flux_err, snr_psf).
     let (ap_flux, ap_flux_err, snr_ap) = prv_ap F p
     in Inr \<lparr>prv_candidate = p, prv_psf_flux = psf_flux, prv_psf_flux_err = psf_flux_err, prv_snr_psf = snr_psf,
          prv_ap_flux = ap_flux, prv_ap_flux_err = ap_flux_err, prv_snr_ap = snr_ap, prv_band = band, prv_drb = None\<rparr>))"

definition zp_scaling_factor :: "float_unit \<Rightarrow> f32 \<Rightarrow> f64" where
  "zp_scaling_factor F magzpsci =
     d_powf F (Num 10) (d_div F (d_sub F (as_f64 F (ZTF_ZP F)) (as_f64 F magzpsci)) (Num (5 / 2)))"

definition scaled_njy :: "float_unit \<Rightarrow> f64 \<Rightarrow> f32 \<Rightarrow> f32" where
  "scaled_njy F factor x = as_f32 F (d_mul F (d_mul F (as_f64 F x) (Num (10 ^ 9))) factor)"

definition forced_psf ::
  "float_unit \<Rightarrow> f64 \<Rightarrow> f32 \<Rightarrow> f32 \<Rightarrow> f32 \<Rightarrow> f32 option \<times> f32 option \<times> bool option \<times> f32 option \<times> f32 option" where
  "forced_psf F factor magzpsci psf_flux_err psf_flux =
     (let psf_flux_abs = f32_abs psf_flux; snr = f_div F psf_flux_abs psf_flux_err
      in if f32_to_literal (\<lambda>p q. q < p) snr SNT
         then let (magpsf, sigmapsf) = flux2mag F psf_flux_abs psf_flux_err magzpsci
              in (Some magpsf, Some sigmapsf, Some (f32_to_literal (\<lambda>p q. q < p) psf_flux 0), Some snr,
                  Some (scaled_njy F factor psf_flux))
         else (None, None, None, None, Some (scaled_njy F factor psf_flux)))"

definition ztf_forced_phot_of :: "float_unit \<Rightarrow> fp_hist \<Rightarrow> (alert_error, ztf_forced_phot) result" where
  "ztf_forced_phot_of F h =
     and_then (ok_or MissingFluxPSF (h_forcediffimfluxunc h)) (\<lambda>psf_flux_err.
     and_then (fid2band (h_fid h)) (\<lambda>band.
     and_then (ok_or MissingMagZPSci (h_magzpsci h)) (\<lambda>magzpsci.
     let factor = zp_scaling_factor F magzpsci;
         (magpsf, sigmapsf, isdiffpos, snr_psf, psf_flux) =
           (case h_forcediffimflux h of
              Some psf_flux \<Rightarrow> forced_psf F factor magzpsci psf_flux_err psf_flux
            | None \<Rightarrow> (None, None, None, None, None));
         psf_flux_err = scaled_njy F factor psf_flux_err
     in if \<not> f32_finite psf_flux_err \<or> \<not> pred_option f32_finite psf_flux then Inl NonFiniteFluxPSF
        else Inr \<lparr>fp_hist = h, fp_magpsf = magpsf, fp_sigmapsf = sigmapsf, fp_psf_flux = psf_flux,
               fp_psf_flux_err = Some psf_flux_err, fp_isdiffpos = isdiffpos, fp_snr_psf = snr_psf, fp_band = band\<rparr>)))"

definition ztf_candidate_of :: "float_unit \<Rightarrow> candidate \<Rightarrow> (alert_error, ztf_candidate) result" where
  "ztf_candidate_of F c =
     and_then (fid2band (c_fid c)) (\<lambda>band.
     let (psf_flux_jy, psf_flux_err_jy) = mag2flux F (c_magpsf c) (c_sigmapsf c) (ZTF_ZP F);
         (ap_flux_jy, ap_flux_err_jy, snr_ap) =
           (case (c_magap c, c_sigmagap c) of
              (Some magap, Some sigmagap) \<Rightarrow>
                (let (flux, flux_err) = mag2flux F magap sigmagap (ZTF_ZP F)
                 in (Some flux, Some flux_err, Some (f_div F flux flux_err)))
            | _ \<Rightarrow> (None, None, None))
     in Inr \<lparr>candidate = c, cand_psf_flux = signed_njy F (c_isdiffpos c) psf_flux_jy,
          cand_psf_flux_err = to_njy F psf_flux_err_jy, cand_snr_psf = Some (f_div F psf_flux_jy psf_flux_err_jy),
          cand_ap_flux = map_option (signed_njy F (c_isdiffpos c)) ap_flux_jy,
          cand_ap_flux_err = map_option (to_njy F) ap_flux_err_jy, cand_snr_ap = snr_ap, cand_band = band\<rparr>)"

text \<open>The current candidate as a point of the light curve.\<close>

definition prv_of_candidate :: "candidate \<Rightarrow> prv_candidate" where
  "prv_of_candidate c =
    \<lparr>p_jd = c_jd c,
     p_fid = c_fid c,
     p_pid = c_pid c,
     p_diffmaglim = c_diffmaglim c,
     p_programpi = c_programpi c,
     p_programid = c_programid c,
     p_candid = Some (c_candid c),
     p_isdiffpos = Some (c_isdiffpos c),
     p_nid = c_nid c,
     p_rcid = c_rcid c,
     p_field = c_field c,
     p_ra = Some (c_ra c),
     p_dec = Some (c_dec c),
     p_magpsf = Some (c_magpsf c),
     p_sigmapsf = Some (c_sigmapsf c),
     p_chipsf = c_chipsf c,
     p_magap = c_magap c,
     p_sigmagap = c_sigmagap c,
     p_distnr = c_distnr c,
     p_magnr = c_magnr c,
     p_sigmagnr = c_sigmagnr c,
     p_chinr = c_chinr c,
     p_sharpnr = c_sharpnr c,
     p_sky = c_sky c,
     p_fwhm = c_fwhm c,
     p_mindtoedge = c_mindtoedge c,
     p_seeratio = c_seeratio c,
     p_aimage = c_aimage c,
     p_bimage = c_bimage c,
     p_elong = c_elong c,
     p_nneg = c_nneg c,
     p_nbad = c_nbad c,
     p_rb = c_rb c,
     p_ssdistnr = c_ssdistnr c,
     p_ssmagnr = c_ssmagnr c,
     p_ssnamenr = c_ssnamenr c,
     p_ranr = Some (c_ranr c),
     p_decnr = Some (c_decnr c),
     p_scorr = c_scorr c,
     p_magzpsci = c_magzpsci c\<rparr>"

definition point_of_candidate :: "ztf_candidate \<Rightarrow> ztf_prv_candidate" where
  "point_of_candidate zc =
    \<lparr>prv_candidate = prv_of_candidate (candidate zc), prv_psf_flux = Some (cand_psf_flux zc),
     prv_psf_flux_err = Some (cand_psf_flux_err zc), prv_snr_psf = cand_snr_psf zc, prv_ap_flux = cand_ap_flux zc,
     prv_ap_flux_err = cand_ap_flux_err zc, prv_snr_ap = cand_snr_ap zc, prv_band = cand_band zc,
     prv_drb = c_drb (candidate zc)\<rparr>"

end
