(* ===== verification/Ztf_Packet.thy ===== *)
theory Ztf_Packet
  imports Ztf_Photometry
begin

text \<open>
  A ZTF packet as it is deserialised (\<open>src/src/alert/ztf.rs\<close>): the custom deserialisers, the points
  that are dropped and the split into detections and upper limits.  The Avro library hands over
  the fields (the records \<open>raw_\<dots>\<close>); a field of a record may be missing, then its default stands.
  \<^const>\<open>None\<close> as an outcome is a panic.
\<close>

section \<open>Custom deserialisers\<close>

definition as_i64 :: "number \<Rightarrow> int option" where
  "as_i64 n = (case n of PosInt k \<Rightarrow> if k < 2 ^ 63 then Some (int k) else None | NegInt i \<Rightarrow> Some i | Float _ \<Rightarrow> None)"

definition eq_ignore_ascii_case :: "string \<Rightarrow> string \<Rightarrow> bool" where
  "eq_ignore_ascii_case s t \<longleftrightarrow> to_ascii_lowercase s = to_ascii_lowercase t"

fun deserialize_isdiffpos_option :: "json \<Rightarrow> (string, bool option) result" where
  "deserialize_isdiffpos_option (JString s) =
     Inr (Some (eq_ignore_ascii_case s ''t'' \<or> eq_ignore_ascii_case s ''true'' \<or> eq_ignore_ascii_case s ''1''))"
| "deserialize_isdiffpos_option (JNumber n) =
     (case as_i64 n of None \<Rightarrow> Inl ''Failed to convert isdiffpos to i64'' | Some i \<Rightarrow> Inr (Some (i = 1)))"
| "deserialize_isdiffpos_option (JBool b) = Inr (Some b)"
| "deserialize_isdiffpos_option _ = Inr None"

definition deserialize_isdiffpos :: "json \<Rightarrow> (string, bool) result option" where
  "deserialize_isdiffpos v =
     (case deserialize_isdiffpos_option v of
        Inl e \<Rightarrow> Some (Inl e)
      | Inr None \<Rightarrow> None
      | Inr (Some b) \<Rightarrow> Some (Inr b))"

fun deserialize_tooflag :: "json \<Rightarrow> bool" where
  "deserialize_tooflag (JNumber n) \<longleftrightarrow> as_i64 n = Some 1"
| "deserialize_tooflag (JBool b) \<longleftrightarrow> b"
| "deserialize_tooflag (JString s) \<longleftrightarrow> s = ''1'' \<or> eq_ignore_ascii_case s ''t'' \<or> eq_ignore_ascii_case s ''true''"
| "deserialize_tooflag _ \<longleftrightarrow> False"

definition deserialize_ssnamenr :: "string option \<Rightarrow> string option" where
  "deserialize_ssnamenr value =
     (case value of Some s \<Rightarrow> if s \<noteq> [] \<and> \<not> eq_ignore_ascii_case s ''null'' then Some s else None | None \<Rightarrow> None)"

definition deserialize_missing_flux :: "f32 option \<Rightarrow> f32 option" where
  "deserialize_missing_flux value =
     (case value of Some x \<Rightarrow> if \<not> f32_to_literal (=) x (- 99999) \<and> \<not> f32_nan x then Some x else None | None \<Rightarrow> None)"

section \<open>The fields of a packet\<close>

record raw_point =
  raw_prv :: prv_candidate
  raw_prv_isdiffpos :: "json option"
  raw_prv_ssnamenr :: "string option"

record raw_candidate =
  raw_cand :: candidate
  raw_isdiffpos :: "json option"
  raw_tooflag :: "json option"
  raw_ssnamenr :: "string option"

record raw_packet =
  raw_schemavsn :: string
  raw_publisher :: string
  raw_object_id :: string
  raw_candid :: i64
  raw_candidate :: raw_candidate
  raw_prv_candidates :: "raw_point list option"
  raw_fp_hists :: "fp_hist list"
  raw_cutout_science :: "u8 list option"
  raw_cutout_template :: "u8 list option"
  raw_cutout_difference :: "u8 list option"

record ztf_raw_avro_alert =
  av_schemavsn :: string
  av_publisher :: string
  av_object_id :: string
  av_candid :: i64
  av_candidate :: ztf_candidate
  av_prv_candidates :: "ztf_prv_candidate list option"
  av_fp_hists :: "ztf_forced_phot list option"
  av_cutout_science :: "u8 list"
  av_cutout_template :: "u8 list"
  av_cutout_difference :: "u8 list"

definition point_fields :: "raw_point \<Rightarrow> (string, prv_candidate) result" where
  "point_fields raw =
     and_then (case raw_prv_isdiffpos raw of None \<Rightarrow> Inr None | Some v \<Rightarrow> deserialize_isdiffpos_option v) (\<lambda>isdiffpos.
       Inr (raw_prv raw\<lparr>p_isdiffpos := isdiffpos, p_ssnamenr := deserialize_ssnamenr (raw_prv_ssnamenr raw)\<rparr>))"

definition forced_fields :: "fp_hist \<Rightarrow> fp_hist" where
  "forced_fields h =
     h\<lparr>h_forcediffimflux := deserialize_missing_flux (h_forcediffimflux h),
       h_forcediffimfluxunc := deserialize_missing_flux (h_forcediffimfluxunc h)\<rparr>"

text \<open>The points that convert; an unreadable field fails the packet, a failed conversion only drops the point.\<close>

definition converted :: "('a \<Rightarrow> ('e, 'b) result) \<Rightarrow> 'a list \<Rightarrow> 'b list" where
  "converted f xs = List.map_filter (\<lambda>x. case f x of Inr y \<Rightarrow> Some y | Inl _ \<Rightarrow> None) xs"

definition deserialize_prv_candidates ::
  "float_unit \<Rightarrow> raw_point list option \<Rightarrow> (string, ztf_prv_candidate list option) result" where
  "deserialize_prv_candidates F raw =
     (case raw of
        None \<Rightarrow> Inr None
      | Some ps \<Rightarrow> and_then (collect_results point_fields ps) (\<lambda>ps. Inr (Some (converted (ztf_prv_candidate_of F) ps))))"

definition deserialize_fp_hists :: "float_unit \<Rightarrow> fp_hist list \<Rightarrow> ztf_forced_phot list option" where
  "deserialize_fp_hists F raw = Some (converted (ztf_forced_phot_of F) (map forced_fields raw))"

definition deserialize_candidate :: "float_unit \<Rightarrow> raw_candidate \<Rightarrow> (string, ztf_candidate) result option" where
  "deserialize_candidate F raw =
     (case (case raw_isdiffpos raw of None \<Rightarrow> Some (Inr False) | Some v \<Rightarrow> deserialize_isdiffpos v) of
        None \<Rightarrow> None
      | Some isdiffpos \<Rightarrow>
          Some (and_then isdiffpos (\<lambda>isdiffpos.
            map_err (\<lambda>_. ''unexpected fid value'')
              (ztf_candidate_of F (raw_cand raw
                 \<lparr>c_isdiffpos := isdiffpos, c_tooflag := (case raw_tooflag raw of None \<Rightarrow> False | Some v \<Rightarrow> deserialize_tooflag v),
                  c_ssnamenr := deserialize_ssnamenr (raw_ssnamenr raw)\<rparr>)))))"

definition deserialize_cutout_as_bytes :: "u8 list option \<Rightarrow> (string, u8 list) result" where
  "deserialize_cutout_as_bytes = ok_or ''Missing cutout data''"

definition deserialize_packet :: "float_unit \<Rightarrow> raw_packet \<Rightarrow> (string, ztf_raw_avro_alert) result option" where
  "deserialize_packet F raw =
     (case deserialize_candidate F (raw_candidate raw) of
        None \<Rightarrow> None
      | Some cand \<Rightarrow> Some (
          and_then cand (\<lambda>cand.
          and_then (deserialize_prv_candidates F (raw_prv_candidates raw)) (\<lambda>prv.
          and_then (deserialize_cutout_as_bytes (raw_cutout_science raw)) (\<lambda>science.
          and_then (deserialize_cutout_as_bytes (raw_cutout_template raw)) (\<lambda>template.
          and_then (deserialize_cutout_as_bytes (raw_cutout_difference raw)) (\<lambda>difference.
          Inr \<lparr>av_schemavsn = raw_schemavsn raw, av_publisher = raw_publisher raw, av_object_id = raw_object_id raw,
            av_candid = raw_candid raw, av_candidate = cand, av_prv_candidates = prv,
            av_fp_hists = deserialize_fp_hists F (raw_fp_hists raw), av_cutout_science = science,
            av_cutout_template = template, av_cutout_difference = difference\<rparr>)))))))"

section \<open>The light curves of a packet\<close>

definition split_prv_candidates :: "ztf_prv_candidate list \<Rightarrow> ztf_prv_candidate list \<times> ztf_prv_candidate list" where
  "split_prv_candidates ps = partition (\<lambda>p. p_magpsf (prv_candidate p) \<noteq> None) ps"

definition with_candidate :: "ztf_candidate \<Rightarrow> ztf_prv_candidate list \<Rightarrow> ztf_prv_candidate list" where
  "with_candidate zc ps =
     (if \<exists>p\<in>set ps. f64_eq (p_jd (prv_candidate p)) (c_jd (candidate zc)) then ps else ps @ [point_of_candidate zc])"

section \<open>The candidate's own point\<close>

text \<open>
  The point pushed for the current candidate is the one the packet's own conversion of the same
  measurement gives, with every flux, error, ratio and the band, or the same refusal; only the deep
  real-bogus score, which earlier points do not carry, comes on top.
\<close>

theorem candidate_point_agrees:
  "ztf_prv_candidate_of F (prv_of_candidate c) =
     and_then (ztf_candidate_of F c) (\<lambda>zc. Inr ((point_of_candidate zc)\<lparr>prv_drb := None\<rparr>))"
proof (cases "fid2band (c_fid c)")
  case (Inl e)
  then show ?thesis by (simp add: ztf_prv_candidate_of_def ztf_candidate_of_def prv_of_candidate_def)
next
  case (Inr b)
  obtain f fe where m: "mag2flux F (c_magpsf c) (c_sigmapsf c) (ZTF_ZP F) = (f, fe)" by fastforce
  show ?thesis
    by (cases "c_magap c"; cases "c_sigmagap c")
      (simp_all add: Inr m ztf_prv_candidate_of_def ztf_candidate_of_def prv_of_candidate_def prv_psf_def prv_ap_def
        point_of_candidate_def split: prod.splits)
qed


section \<open>What is kept of a packet\<close>

definition measured :: "prv_candidate \<Rightarrow> bool" where
  "measured p \<longleftrightarrow> p_magpsf p \<noteq> None \<and> p_sigmapsf p \<noteq> None \<and> p_isdiffpos p \<noteq> None"

definition limit_only :: "float_unit \<Rightarrow> prv_candidate \<Rightarrow> bool" where
  "limit_only F p \<longleftrightarrow> p_magpsf p = None \<and> p_sigmapsf p = None \<and> p_isdiffpos p = None \<and>
     (\<exists>d. p_diffmaglim p = Some d \<and> ZTF_DIFFMAGLIM_RANGE d \<and> f32_finite (to_njy F (diffmaglim2fluxerr F d (ZTF_ZP F))))"

definition convertible :: "float_unit \<Rightarrow> prv_candidate \<Rightarrow> bool" where
  "convertible F p \<longleftrightarrow> p_fid p \<in> {1, 2, 3} \<and> (measured p \<or> limit_only F p)"

definition detection_point :: "ztf_prv_candidate \<Rightarrow> bool" where
  "detection_point q \<longleftrightarrow> measured (prv_candidate q) \<and> prv_psf_flux q \<noteq> None \<and> prv_psf_flux_err q \<noteq> None \<and> prv_snr_psf q \<noteq> None"

definition limit_point :: "float_unit \<Rightarrow> ztf_prv_candidate \<Rightarrow> bool" where
  "limit_point F q \<longleftrightarrow> limit_only F (prv_candidate q) \<and> prv_psf_flux q = None \<and> pred_option f32_finite (prv_psf_flux_err q) \<and>
     prv_psf_flux_err q \<noteq> None \<and> prv_snr_psf q = None"

text \<open>Forced photometry: finite, and a magnitude exactly with a signal above the threshold.\<close>

definition forced_point :: "ztf_forced_phot \<Rightarrow> bool" where
  "forced_point q \<longleftrightarrow> pred_option f32_finite (fp_psf_flux q) \<and> fp_psf_flux_err q \<noteq> None \<and> pred_option f32_finite (fp_psf_flux_err q) \<and>
     (case fp_snr_psf q of
        None \<Rightarrow> fp_magpsf q = None \<and> fp_sigmapsf q = None \<and> fp_isdiffpos q = None
      | Some snr \<Rightarrow> f32_to_literal (\<lambda>p q. q < p) snr SNT \<and> fp_magpsf q \<noteq> None \<and> fp_sigmapsf q \<noteq> None \<and>
          fp_isdiffpos q \<noteq> None \<and> fp_psf_flux q \<noteq> None)"

lemma fid2band_known: "(\<exists>b. fid2band fid = Inr b) \<longleftrightarrow> fid \<in> {1, 2, 3}"
  by (auto simp: fid2band_def)

lemma prv_psf_measured: "measured p \<Longrightarrow> \<exists>f e r. prv_psf F p = Inr (Some f, Some e, Some r)"
  by (auto simp: measured_def prv_psf_def split: prod.splits)

lemma prv_psf_limit:
  "limit_only F p \<Longrightarrow> \<exists>e. prv_psf F p = Inr (None, Some e, None) \<and> f32_finite e"
  by (auto simp: limit_only_def prv_psf_def Let_def)

lemma prv_psf_other: "\<not> measured p \<Longrightarrow> \<not> limit_only F p \<Longrightarrow> \<exists>e. prv_psf F p = Inl e"
  by (auto simp: measured_def limit_only_def prv_psf_def Let_def split: option.splits)

lemma converted_point:
  "case ztf_prv_candidate_of F p of
     Inr q \<Rightarrow> prv_candidate q = p \<and> convertible F p \<and>
       (if p_magpsf p \<noteq> None then detection_point q else limit_point F q)
   | Inl _ \<Rightarrow> \<not> convertible F p"
proof (cases "fid2band (p_fid p)")
  case (Inl e)
  then have "p_fid p \<notin> {1, 2, 3}" using fid2band_known [of "p_fid p"] by auto
  then show ?thesis by (simp add: Inl ztf_prv_candidate_of_def convertible_def)
next
  case (Inr b)
  then have known: "p_fid p \<in> {1, 2, 3}" using fid2band_known [of "p_fid p"] by auto
  show ?thesis
  proof (cases "measured p")
    case True
    with prv_psf_measured [OF True, of F] known show ?thesis
      by (auto simp: Inr ztf_prv_candidate_of_def convertible_def detection_point_def measured_def split: prod.splits)
  next
    case False
    show ?thesis
    proof (cases "limit_only F p")
      case True
      then have "p_magpsf p = None" by (simp add: limit_only_def)
      with prv_psf_limit [OF True] known True show ?thesis
        by (auto simp: Inr ztf_prv_candidate_of_def convertible_def limit_point_def split: prod.splits)
    next
      case no: False
      with prv_psf_other [OF False no] False show ?thesis
        by (auto simp: Inr ztf_prv_candidate_of_def convertible_def)
    qed
  qed
qed

lemma converted_forced:
  assumes "ztf_forced_phot_of F h = Inr q" shows "forced_point q"
proof (cases "h_forcediffimflux h")
  case None
  then show ?thesis
    using assms by (auto simp: ztf_forced_phot_of_def forced_point_def and_then_Inr Let_def split: if_splits)
next
  case (Some flux)
  then show ?thesis
    using assms
    by (auto simp: ztf_forced_phot_of_def forced_point_def forced_psf_def and_then_Inr Let_def
        split: if_splits prod.splits)
qed

lemma set_converted: "set (converted f xs) = {y. \<exists>x\<in>set xs. f x = Inr y}"
  unfolding converted_def by (induction xs) (auto split: sum.splits)

lemma collect_results_set: "collect_results f xs = Inr ys \<Longrightarrow> set ys = {y. \<exists>x\<in>set xs. f x = Inr y}"
  by (induction xs arbitrary: ys) (auto simp: and_then_Inr)

text \<open>
  C30: What a packet contributes to the light curves: of its earlier points exactly those are kept that
  have a known filter and are either measured (magnitude, error and sign) or an upper limit between
  magnitude 10 and 30 with a finite flux error; they are split so that the first part has only
  detections with flux, error and ratio and the second only upper limits; and forced photometry
  is kept only with finite fluxes, with a magnitude exactly when the signal exceeds the threshold.
\<close>

theorem packet_points_are_sound:
  assumes "deserialize_packet F raw = Some (Inr a)"
    and "split_prv_candidates (case av_prv_candidates a of None \<Rightarrow> [] | Some ps \<Rightarrow> ps) = (detections, limits)"
  shows "prv_candidate ` (set detections \<union> set limits) =
      {p. convertible F p \<and> (\<exists>ps r. raw_prv_candidates raw = Some ps \<and> r \<in> set ps \<and> point_fields r = Inr p)} \<and>
    list_all detection_point detections \<and> list_all (limit_point F) limits \<and>
    pred_option (list_all forced_point) (av_fp_hists a)"
proof -
  from assms(1) have d: "deserialize_prv_candidates F (raw_prv_candidates raw) = Inr (av_prv_candidates a)"
    and f: "av_fp_hists a = deserialize_fp_hists F (raw_fp_hists raw)"
    by (auto simp: deserialize_packet_def and_then_Inr split: option.splits)
  define ps where "ps = (case av_prv_candidates a of None \<Rightarrow> [] | Some ps \<Rightarrow> ps)"
  have ps: "set ps = {q. \<exists>rs r p. raw_prv_candidates raw = Some rs \<and> r \<in> set rs \<and> point_fields r = Inr p \<and>
      ztf_prv_candidate_of F p = Inr q}"
  proof (cases "raw_prv_candidates raw")
    case None
    with d show ?thesis by (auto simp: deserialize_prv_candidates_def ps_def)
  next
    case (Some rs)
    with d obtain xs where "collect_results point_fields rs = Inr xs"
      "av_prv_candidates a = Some (converted (ztf_prv_candidate_of F) xs)"
      by (auto simp: deserialize_prv_candidates_def and_then_Inr)
    with Some collect_results_set [of point_fields rs xs] show ?thesis
      by (auto simp: ps_def set_converted)
  qed
  have parts: "detections = filter (\<lambda>p. p_magpsf (prv_candidate p) \<noteq> None) ps"
      "limits = filter (\<lambda>p. p_magpsf (prv_candidate p) = None) ps"
    using assms(2) by (simp_all add: split_prv_candidates_def ps_def comp_def)
  have kept: "prv_candidate q = p \<and> convertible F p \<and> (if p_magpsf p \<noteq> None then detection_point q else limit_point F q)"
    if "ztf_prv_candidate_of F p = Inr q" for p q
    using converted_point [of F p] that by (simp split: sum.splits)
  have known: "\<exists>q. ztf_prv_candidate_of F p = Inr q" if "convertible F p" for p
    using converted_point [of F p] that by (auto split: sum.splits)
  have "set detections \<union> set limits = set ps"
    by (auto simp: parts)
  moreover have "prv_candidate ` set ps =
      {p. convertible F p \<and> (\<exists>rs r. raw_prv_candidates raw = Some rs \<and> r \<in> set rs \<and> point_fields r = Inr p)}"
    (is "?l = ?r")
  proof
    show "?l \<subseteq> ?r" using kept by (fastforce simp: ps)
    show "?r \<subseteq> ?l"
    proof
      fix p assume "p \<in> ?r"
      moreover from this obtain q where "ztf_prv_candidate_of F p = Inr q" using known by blast
      ultimately have "q \<in> set ps" "prv_candidate q = p"
        using kept [of p q] by (auto simp: ps)
      then show "p \<in> ?l" by blast
    qed
  qed
  moreover have "list_all detection_point detections" "list_all (limit_point F) limits"
    using kept by (fastforce simp: parts list_all_iff ps)+
  moreover have "pred_option (list_all forced_point) (av_fp_hists a)"
    using converted_forced by (auto simp: f deserialize_fp_hists_def list_all_iff set_converted)
  ultimately show ?thesis by simp
qed

text \<open>A packet to evaluate on, with floats whose rounded arithmetic always answers one.\<close>

definition ones :: float_unit where
  "ones = \<lparr>f_add = (\<lambda>_ _. 0x3F800000), f_sub = (\<lambda>_ _. 0x3F800000), f_mul = (\<lambda>_ _. 0x3F800000), f_div = (\<lambda>_ _. 0x3F800000),
     f_powf = (\<lambda>_ _. 0x3F800000), f_log10 = (\<lambda>_. 0x3F800000), f_ln = (\<lambda>_. 0x3F800000),
     f_sqrt = (\<lambda>_. 0x3F800000), f_square = (\<lambda>_. 0x3F800000), f_lit = (\<lambda>_. 0x3F800000),
     d_sub = (\<lambda>_ _. Num 1), d_mul = (\<lambda>_ _. Num 1), d_div = (\<lambda>_ _. Num 1), d_powf = (\<lambda>_ _. Num 1),
     d_add = (\<lambda>_ _. Num 1), d_sqrt = (\<lambda>_. Num 1), d_log10 = (\<lambda>_. Num 1), d_radians = (\<lambda>_. Num 1), d_lit = (\<lambda>_. Num 1),
     as_f64 = (\<lambda>_. Num 1), as_f32 = (\<lambda>_. 0x3F800000)\<rparr>"

definition demo_candidate :: candidate where
  "demo_candidate =
    \<lparr>c_jd = Num 3,
     c_fid = 1,
     c_pid = 1,
     c_diffmaglim = None,
     c_programpi = None,
     c_programid = 1,
     c_tooflag = False,
     c_candid = 7,
     c_isdiffpos = False,
     c_nid = None,
     c_rcid = None,
     c_field = None,
     c_ra = Num 0,
     c_dec = Num 0,
     c_magpsf = 0,
     c_sigmapsf = 0,
     c_chipsf = None,
     c_magap = None,
     c_sigmagap = None,
     c_distnr = None,
     c_magnr = None,
     c_sigmagnr = None,
     c_chinr = None,
     c_sharpnr = None,
     c_sky = None,
     c_fwhm = None,
     c_classtar = None,
     c_mindtoedge = None,
     c_seeratio = None,
     c_aimage = None,
     c_bimage = None,
     c_elong = None,
     c_nneg = None,
     c_nbad = None,
     c_rb = None,
     c_ssdistnr = None,
     c_ssmagnr = None,
     c_ssnamenr = None,
     c_ranr = Num 0,
     c_decnr = Num 0,
     c_sgmag1 = None,
     c_srmag1 = None,
     c_simag1 = None,
     c_szmag1 = None,
     c_sgscore1 = None,
     c_distpsnr1 = None,
     c_ndethist = 1,
     c_ncovhist = 1,
     c_jdstarthist = None,
     c_scorr = None,
     c_sgmag2 = None,
     c_srmag2 = None,
     c_simag2 = None,
     c_szmag2 = None,
     c_sgscore2 = None,
     c_distpsnr2 = None,
     c_sgmag3 = None,
     c_srmag3 = None,
     c_simag3 = None,
     c_szmag3 = None,
     c_sgscore3 = None,
     c_distpsnr3 = None,
     c_nmtchps = 1,
     c_rfid = None,
     c_jdstartref = None,
     c_jdendref = None,
     c_nframesref = None,
     c_dsnrms = None,
     c_ssnrms = None,
     c_dsdiff = None,
     c_magzpsci = None,
     c_magzpsciunc = None,
     c_magzpscirms = None,
     c_zpmed = None,
     c_exptime = None,
     c_drb = None,
     c_clrcoeff = None,
     c_clrcounc = None,
     c_neargaia = None,
     c_maggaia = None,
     c_neargaiabright = None,
     c_maggaiabright = None\<rparr>"

definition demo_point :: prv_candidate where
  "demo_point =
    \<lparr>p_jd = Num 2,
     p_fid = 1,
     p_pid = 1,
     p_diffmaglim = Some 0x41A00000,
     p_programpi = None,
     p_programid = 1,
     p_candid = None,
     p_isdiffpos = None,
     p_nid = None,
     p_rcid = None,
     p_field = None,
     p_ra = None,
     p_dec = None,
     p_magpsf = None,
     p_sigmapsf = None,
     p_chipsf = None,
     p_magap = None,
     p_sigmagap = None,
     p_distnr = None,
     p_magnr = None,
     p_sigmagnr = None,
     p_chinr = None,
     p_sharpnr = None,
     p_sky = None,
     p_fwhm = None,
     p_mindtoedge = None,
     p_seeratio = None,
     p_aimage = None,
     p_bimage = None,
     p_elong = None,
     p_nneg = None,
     p_nbad = None,
     p_rb = None,
     p_ssdistnr = None,
     p_ssmagnr = None,
     p_ssnamenr = None,
     p_ranr = None,
     p_decnr = None,
     p_scorr = None,
     p_magzpsci = None\<rparr>"

definition demo_forced :: fp_hist where
  "demo_forced =
    \<lparr>h_field = None,
     h_rcid = None,
     h_fid = 1,
     h_pid = 1,
     h_rfid = 1,
     h_magzpsci = Some 0x3F800000,
     h_magzpsciunc = None,
     h_magzpscirms = None,
     h_exptime = None,
     h_diffmaglim = None,
     h_programid = 1,
     h_jd = Num 1,
     h_forcediffimflux = Some 0x3F800000,
     h_forcediffimfluxunc = Some 0x3F800000,
     h_procstatus = None,
     h_distnr = None,
     h_magnr = None,
     h_sigmagnr = None,
     h_chinr = None,
     h_sharpnr = None\<rparr>"

definition demo_packet :: raw_packet where
  "demo_packet = \<lparr>raw_schemavsn = ''4.02'', raw_publisher = ''ZTF'', raw_object_id = ''ZTF18abc'', raw_candid = 7,
     raw_candidate = \<lparr>raw_cand = demo_candidate, raw_isdiffpos = Some (JString ''t''), raw_tooflag = None, raw_ssnamenr = None\<rparr>,
     raw_prv_candidates = Some [\<lparr>raw_prv = demo_point, raw_prv_isdiffpos = None, raw_prv_ssnamenr = Some ''null''\<rparr>,
       \<lparr>raw_prv = demo_point\<lparr>p_fid := 9\<rparr>, raw_prv_isdiffpos = None, raw_prv_ssnamenr = None\<rparr>],
     raw_fp_hists = [demo_forced], raw_cutout_science = Some [1], raw_cutout_template = Some [2], raw_cutout_difference = Some [3]\<rparr>"

lemma demo_points:
  "ztf_prv_candidate_of ones (demo_point\<lparr>p_isdiffpos := None, p_ssnamenr := None\<rparr>) =
     Inr \<lparr>prv_candidate = demo_point, prv_psf_flux = None, prv_psf_flux_err = Some 0x3F800000, prv_snr_psf = None,
       prv_ap_flux = None, prv_ap_flux_err = None, prv_snr_ap = None, prv_band = G, prv_drb = None\<rparr>"
  "ztf_prv_candidate_of ones (demo_point\<lparr>p_fid := 9, p_isdiffpos := None, p_ssnamenr := None\<rparr>) = Inl (UnknownFid 9)"
  by (simp_all add: ztf_prv_candidate_of_def demo_point_def fid2band_def prv_psf_def prv_ap_def
      ZTF_DIFFMAGLIM_RANGE_def f32_to_literal_def f32_place_def f32_finite_def f32_nan_def ones_def to_njy_def
      diffmaglim2fluxerr_def less_eq_prod_def drop_bit_eq_div Let_def)

definition demo_ztf_candidate :: ztf_candidate where
  "demo_ztf_candidate = \<lparr>candidate = demo_candidate\<lparr>c_isdiffpos := True, c_tooflag := False, c_ssnamenr := None\<rparr>,
     cand_psf_flux = 0x3F800000, cand_psf_flux_err = 0x3F800000, cand_snr_psf = Some 0x3F800000, cand_ap_flux = None,
     cand_ap_flux_err = None, cand_snr_ap = None, cand_band = G\<rparr>"

definition demo_limit :: ztf_prv_candidate where
  "demo_limit = \<lparr>prv_candidate = demo_point, prv_psf_flux = None, prv_psf_flux_err = Some 0x3F800000, prv_snr_psf = None,
     prv_ap_flux = None, prv_ap_flux_err = None, prv_snr_ap = None, prv_band = G, prv_drb = None\<rparr>"

definition demo_forced_phot :: ztf_forced_phot where
  "demo_forced_phot = \<lparr>fp_hist = demo_forced, fp_magpsf = None, fp_sigmapsf = None, fp_psf_flux = Some 0x3F800000,
     fp_psf_flux_err = Some 0x3F800000, fp_isdiffpos = None, fp_snr_psf = None, fp_band = G\<rparr>"

definition demo_alert :: ztf_raw_avro_alert where
  "demo_alert = \<lparr>av_schemavsn = ''4.02'', av_publisher = ''ZTF'', av_object_id = ''ZTF18abc'', av_candid = 7,
     av_candidate = demo_ztf_candidate, av_prv_candidates = Some [demo_limit], av_fp_hists = Some [demo_forced_phot],
     av_cutout_science = [1], av_cutout_template = [2], av_cutout_difference = [3]\<rparr>"

lemma demo_candidate_read:
  "deserialize_candidate ones (raw_candidate demo_packet) = Some (Inr demo_ztf_candidate)"
  by (simp add: deserialize_candidate_def demo_packet_def deserialize_isdiffpos_def eq_ignore_ascii_case_def
      deserialize_ssnamenr_def demo_ztf_candidate_def demo_candidate_def ztf_candidate_of_def fid2band_def
      signed_njy_def to_njy_def ones_def mag2flux_def)

lemma demo_points_read:
  "deserialize_prv_candidates ones (raw_prv_candidates demo_packet) = Inr (Some [demo_limit])"
  using demo_points
  by (simp add: deserialize_prv_candidates_def demo_packet_def point_fields_def deserialize_ssnamenr_def
      eq_ignore_ascii_case_def converted_def demo_limit_def)

lemma demo_forced_read:
  "deserialize_fp_hists ones (raw_fp_hists demo_packet) = Some [demo_forced_phot]"
  by (simp add: deserialize_fp_hists_def demo_packet_def converted_def forced_fields_def demo_forced_def
      deserialize_missing_flux_def f32_to_literal_def f32_place_def f32_nan_def f32_finite_def drop_bit_eq_div Let_def
      ztf_forced_phot_of_def fid2band_def forced_psf_def scaled_njy_def ones_def SNT_def less_prod_def' demo_forced_phot_def)

lemma demo_packet_read: "deserialize_packet ones demo_packet = Some (Inr demo_alert)"
  unfolding deserialize_packet_def demo_candidate_read demo_points_read demo_forced_read
  by (simp add: demo_packet_def deserialize_cutout_as_bytes_def demo_alert_def)

theorem packet_points_are_sound_witness:
  "prv_candidate ` (set [] \<union> set [demo_limit]) =
      {p. convertible ones p \<and> (\<exists>ps r. raw_prv_candidates demo_packet = Some ps \<and> r \<in> set ps \<and> point_fields r = Inr p)} \<and>
    list_all detection_point [] \<and> list_all (limit_point ones) [demo_limit] \<and>
    pred_option (list_all forced_point) (av_fp_hists demo_alert)"
  by (rule packet_points_are_sound [OF demo_packet_read])
    (simp add: demo_alert_def split_prv_candidates_def demo_limit_def demo_point_def)

text \<open>
  A packet whose candidate has a null for its sign does not fail as a packet: deserialising it panics.
\<close>

theorem null_isdiffpos_panics:
  "raw_isdiffpos (raw_candidate raw) = Some JNull \<Longrightarrow> deserialize_packet F raw = None"
  by (simp add: deserialize_packet_def deserialize_candidate_def deserialize_isdiffpos_def)

theorem null_isdiffpos_panics_witness:
  "deserialize_packet ones (demo_packet\<lparr>raw_candidate := (raw_candidate demo_packet)\<lparr>raw_isdiffpos := Some JNull\<rparr>\<rparr>) = None"
  by (rule null_isdiffpos_panics) simp

end
