(* ===== verification/Alert_Aux.thy ===== *)
theory Alert_Aux
  imports Alert_Timeseries Doc_Store
begin

text \<open>
  The auxiliary document of an object, which every alert of the object extends
  (\<open>src/alert/base.rs\<close>, the auxiliary updates of the trait \<open>AlertWorker\<close>;
  \<open>src/alert/ztf.rs\<close>, the update path of the ZTF worker).  A worker reads the times stored and
  the version, prepares a push of the points that are new, and writes it only if the version is
  still the one it read; otherwise, or when the series do not validate, it falls back to an
  update pipeline evaluated by the database.  Several workers do this at once: a history
  interleaves their reads and writes.  An array field that is missing reads as empty for serde,
  for \<open>$push\<close> and for the pipeline alike, so it is the empty list here.  Cross-matches, host
  galaxy, coordinates and creation time are written once, with the object; \<open>'x\<close> stands for them.
\<close>

section \<open>Documents\<close>

record ('p, 'f, 'a, 'x) ztf_object =
  object_id :: string
  prv_candidates :: "'p list"
  prv_nondetections :: "'p list"
  fp_hists :: "'f list"
  aliases :: "'a option"
  updated_at :: f64
  version :: "int option"
  written_once :: 'x

record alert_aux_for_update =
  ex_prv_candidates :: "f64 list"
  ex_prv_nondetections :: "f64 list"
  ex_fp_hists :: "f64 list"
  ex_version :: "int option"

text \<open>The times of the two kinds of points, and \<open>Display\<close> of a float.\<close>

record ('p, 'f) series_times =
  prv_time :: "'p \<Rightarrow> f64"
  fp_time :: "'f \<Rightarrow> f64"
  display_jd :: "f64 \<Rightarrow> string"

definition fits_i32 :: "int \<Rightarrow> bool" where
  "fits_i32 n \<longleftrightarrow> - (2 ^ 31) \<le> n \<and> n < 2 ^ 31"

text \<open>\<open>i32\<close> addition, which wraps in a release build.\<close>

definition wrap_i32 :: "int \<Rightarrow> int" where
  "wrap_i32 n = sint (word_of_int n :: 32 word)"

fun driver_text :: "mongo_error \<Rightarrow> string" where
  "driver_text (MongoError t) = t"

section \<open>The update\<close>

definition get_existing_aux ::
  "('db, ('p, 'f, 'a, 'x) ztf_object) collection \<Rightarrow> ('p, 'f) series_times \<Rightarrow> string \<Rightarrow> 'db \<Rightarrow>
   (alert_error, alert_aux_for_update option) result" where
  "get_existing_aux M T oid db =
     (case find_one M (\<lambda>d. object_id d = oid) None db of
        Inl e \<Rightarrow> Inl (Mongodb (driver_text e))
      | Inr None \<Rightarrow> Inr None
      | Inr (Some d) \<Rightarrow>
          if pred_option fits_i32 (version d)
          then Inr (Some \<lparr>ex_prv_candidates = map (prv_time T) (prv_candidates d),
                          ex_prv_nondetections = map (prv_time T) (prv_nondetections d),
                          ex_fp_hists = map (fp_time T) (fp_hists d), ex_version = version d\<rparr>)
          else Inl (Mongodb ''version is not an i32''))"

text \<open>The \<open>$push\<close> part of an update, one entry a field.\<close>

record ('p, 'f) push_updates =
  push_prv_candidates :: "('p list \<times> bool) option"
  push_prv_nondetections :: "('p list \<times> bool) option"
  push_fp_hists :: "('f list \<times> bool) option"

definition add_to_push_aux_update :: "'q list \<times> bool \<Rightarrow> ('q list \<times> bool) option" where
  "add_to_push_aux_update prepared_lc =
     (let (new_docs, need_sort) = prepared_lc
      in if new_docs \<noteq> [] then Some (new_docs, need_sort) else None)"

definition apply_push :: "('q \<Rightarrow> f64) \<Rightarrow> ('q list \<times> bool) option \<Rightarrow> 'q list \<Rightarrow> 'q list" where
  "apply_push tm push stored =
     (case push of None \<Rightarrow> stored | Some prepared \<Rightarrow> push_points tm prepared stored)"

definition make_find_doc_aux_update ::
  "string \<Rightarrow> int option \<Rightarrow> ('p, 'f, 'a, 'x) ztf_object \<Rightarrow> bool" where
  "make_find_doc_aux_update oid current_version d \<longleftrightarrow>
     (case current_version of
        Some v \<Rightarrow> object_id d = oid \<and> version d = Some v
      | None \<Rightarrow> object_id d = oid \<and> version d = None)"

definition make_filter_doc_aux_update ::
  "('p, 'f) series_times \<Rightarrow> ('p, 'f) push_updates \<Rightarrow> 'a option \<Rightarrow> int option \<Rightarrow> f64 \<Rightarrow>
   ('p, 'f, 'a, 'x) ztf_object \<Rightarrow> ('p, 'f, 'a, 'x) ztf_object" where
  "make_filter_doc_aux_update T push survey_matches current_version now d =
     d\<lparr>aliases := survey_matches, updated_at := now,
       version := Some (wrap_i32 ((case current_version of None \<Rightarrow> 0 | Some v \<Rightarrow> v) + 1)),
       prv_candidates := apply_push (prv_time T) (push_prv_candidates push) (prv_candidates d),
       prv_nondetections :=
         apply_push (prv_time T) (push_prv_nondetections push) (prv_nondetections d),
       fp_hists := apply_push (fp_time T) (push_fp_hists push) (fp_hists d)\<rparr>"

definition finalize_aux_update ::
  "('db, ('p, 'f, 'a, 'x) ztf_object) collection \<Rightarrow> ('p, 'f) series_times \<Rightarrow> string \<Rightarrow>
   ('p, 'f) push_updates \<Rightarrow> 'a option \<Rightarrow> int option \<Rightarrow> f64 \<Rightarrow> 'db \<Rightarrow> (alert_error, unit) result \<times> 'db" where
  "finalize_aux_update M T oid push survey_matches current_version now db =
     (case update_one M (make_find_doc_aux_update oid current_version)
             (make_filter_doc_aux_update T push survey_matches current_version now) db of
        (Inl e, db) \<Rightarrow> (Inl (Mongodb (driver_text e)), db)
      | (Inr matched, db) \<Rightarrow>
          (if matched = 0 then Inl (ConcurrentAuxUpdate oid) else Inr (), db))"

text \<open>The worker's points for the three series.\<close>

record ('p, 'f) light_curves =
  new_prv_candidates :: "'p list"
  new_prv_nondetections :: "'p list"
  new_fp_hists :: "'f list"

definition prepare_push ::
  "('p, 'f) series_times \<Rightarrow> ('p, 'f) light_curves \<Rightarrow> alert_aux_for_update \<Rightarrow>
   (alert_error, ('p, 'f) push_updates) result" where
  "prepare_push T lc existing =
     and_then (prepare_timeseries_update (display_jd T) (prv_time T) (new_prv_candidates lc)
                 (ex_prv_candidates existing) ''prv_candidates'') (\<lambda>prv.
     and_then (prepare_timeseries_update (display_jd T) (prv_time T) (new_prv_nondetections lc)
                 (ex_prv_nondetections existing) ''prv_nondetections'') (\<lambda>non.
     and_then (prepare_timeseries_update (display_jd T) (fp_time T) (new_fp_hists lc)
                 (ex_fp_hists existing) ''fp_hists'') (\<lambda>fp.
     Inr \<lparr>push_prv_candidates = add_to_push_aux_update prv,
          push_prv_nondetections = add_to_push_aux_update non,
          push_fp_hists = add_to_push_aux_update fp\<rparr>)))"

definition update_aux_inner ::
  "('db, ('p, 'f, 'a, 'x) ztf_object) collection \<Rightarrow> ('p, 'f) series_times \<Rightarrow> string \<Rightarrow>
   ('p, 'f) light_curves \<Rightarrow> 'a option \<Rightarrow> f64 \<Rightarrow> alert_aux_for_update \<Rightarrow> 'db \<Rightarrow>
   (alert_error, unit) result \<times> 'db" where
  "update_aux_inner M T oid lc survey_matches now existing db =
     (case prepare_push T lc existing of
        Inl e \<Rightarrow> (Inl e, db)
      | Inr push \<Rightarrow>
          finalize_aux_update M T oid push survey_matches (ex_version existing) now db)"

text \<open>\<open>db_only_aux_update\<close> with the pipeline of \<open>update_aux_fallback\<close>.  The database's addition
  widens instead of wrapping.\<close>

definition pipeline_update ::
  "('p, 'f) series_times \<Rightarrow> ('p, 'f) light_curves \<Rightarrow> 'a option \<Rightarrow> f64 \<Rightarrow>
   ('p, 'f, 'a, 'x) ztf_object \<Rightarrow> ('p, 'f, 'a, 'x) ztf_object" where
  "pipeline_update T lc survey_matches now d =
     d\<lparr>aliases := survey_matches, updated_at := now,
       version := Some ((case version d of None \<Rightarrow> 0 | Some v \<Rightarrow> v) + 1),
       prv_candidates := update_timeseries_op (prv_time T) (Some (prv_candidates d)) (new_prv_candidates lc),
       prv_nondetections :=
         update_timeseries_op (prv_time T) (Some (prv_nondetections d)) (new_prv_nondetections lc),
       fp_hists := update_timeseries_op (fp_time T) (Some (fp_hists d)) (new_fp_hists lc)\<rparr>"

definition update_aux_fallback ::
  "('db, ('p, 'f, 'a, 'x) ztf_object) collection \<Rightarrow> ('p, 'f) series_times \<Rightarrow> string \<Rightarrow>
   ('p, 'f) light_curves \<Rightarrow> 'a option \<Rightarrow> f64 \<Rightarrow> 'db \<Rightarrow> (alert_error, unit) result \<times> 'db" where
  "update_aux_fallback M T oid lc survey_matches now db =
     (case update_one M (\<lambda>d. object_id d = oid) (pipeline_update T lc survey_matches now) db of
        (Inl e, db) \<Rightarrow> (Inl (Mongodb (driver_text e)), db)
      | (Inr matched, db) \<Rightarrow>
          (if matched = 0 then Inl (AlertAuxFallbackUpdateFailed oid) else Inr (), db))"

definition update_aux ::
  "('db, ('p, 'f, 'a, 'x) ztf_object) collection \<Rightarrow> ('p, 'f) series_times \<Rightarrow> string \<Rightarrow>
   ('p, 'f) light_curves \<Rightarrow> 'a option \<Rightarrow> f64 \<Rightarrow> alert_aux_for_update \<Rightarrow> 'db \<Rightarrow>
   (alert_error, unit) result \<times> 'db" where
  "update_aux M T oid lc survey_matches now existing db =
     (case update_aux_inner M T oid lc survey_matches now existing db of
        (Inr _, db) \<Rightarrow> (Inr (), db)
      | (Inl _, db) \<Rightarrow> update_aux_fallback M T oid lc survey_matches now db)"

text \<open>\<open>insert_aux\<close>: a duplicate key (error code 11000, which \<open>is_duplicate\<close> recognises) means that
  another worker inserted the object first.\<close>

definition insert_aux ::
  "(mongo_error \<Rightarrow> bool) \<Rightarrow> ('db, ('p, 'f, 'a, 'x) ztf_object) collection \<Rightarrow>
   ('p, 'f, 'a, 'x) ztf_object \<Rightarrow> 'db \<Rightarrow> (alert_error, unit) result \<times> 'db" where
  "insert_aux is_duplicate M obj db =
     (case insert_one M obj db of
        (Inl e, db) \<Rightarrow> (Inl (if is_duplicate e then AlertAuxExists else Mongodb (driver_text e)), db)
      | (Inr _, db) \<Rightarrow> (Inr (), db))"

section \<open>A versioned write is the pipeline\<close>

definition project_aux :: "('p, 'f) series_times \<Rightarrow> ('p, 'f, 'a, 'x) ztf_object \<Rightarrow> alert_aux_for_update" where
  "project_aux T d = \<lparr>ex_prv_candidates = map (prv_time T) (prv_candidates d),
     ex_prv_nondetections = map (prv_time T) (prv_nondetections d),
     ex_fp_hists = map (fp_time T) (fp_hists d), ex_version = version d\<rparr>"

definition version_number :: "int option \<Rightarrow> int" where
  "version_number v = (case v of None \<Rightarrow> 0 | Some n \<Rightarrow> n)"

lemma apply_push_prepared:
  assumes "prepare_timeseries_update disp tm new (map tm stored) name = Inr pr"
  shows "apply_push tm (add_to_push_aux_update pr) stored = update_timeseries_op tm (Some stored) new"
proof -
  obtain ds srt where pr: "pr = (ds, srt)" by (cases pr)
  have "\<not> srt" if "ds = []"
    using prepared_cases [where disp = disp and tm = tm and new = new and existing = "map tm stored"
        and name = name] assms that by (simp add: pr)
  then have "apply_push tm (add_to_push_aux_update pr) stored = push_points tm pr stored"
    by (auto simp: pr apply_push_def add_to_push_aux_update_def push_points_def)
  then show ?thesis
    using push_equals_pipeline [OF assms] by simp
qed

lemma wrap_i32_id: "fits_i32 n \<Longrightarrow> wrap_i32 n = n"
  unfolding wrap_i32_def by (simp only: signed_of_int) (simp add: fits_i32_def signed_take_bit_int_eq_self)

lemma versioned_write:
  assumes "prepare_push T lc (project_aux T d) = Inr push" "fits_i32 (version_number (version d) + 1)"
  shows "make_filter_doc_aux_update T push survey_matches (version d) now d =
    pipeline_update T lc survey_matches now d"
proof -
  from assms(1) obtain prv non fp where p:
    "prepare_timeseries_update (display_jd T) (prv_time T) (new_prv_candidates lc)
       (map (prv_time T) (prv_candidates d)) ''prv_candidates'' = Inr prv"
    "prepare_timeseries_update (display_jd T) (prv_time T) (new_prv_nondetections lc)
       (map (prv_time T) (prv_nondetections d)) ''prv_nondetections'' = Inr non"
    "prepare_timeseries_update (display_jd T) (fp_time T) (new_fp_hists lc)
       (map (fp_time T) (fp_hists d)) ''fp_hists'' = Inr fp"
    "push = \<lparr>push_prv_candidates = add_to_push_aux_update prv,
       push_prv_nondetections = add_to_push_aux_update non, push_fp_hists = add_to_push_aux_update fp\<rparr>"
    by (auto simp: prepare_push_def project_aux_def and_then_Inr)
  show ?thesis
    using wrap_i32_id [OF assms(2)]
    by (simp add: make_filter_doc_aux_update_def pipeline_update_def p(4) apply_push_prepared [OF p(1)]
        apply_push_prepared [OF p(2)] apply_push_prepared [OF p(3)] version_number_def)
qed

section \<open>Histories of several workers\<close>

record 'db aux_system =
  database :: 'db
  snapshots :: "nat \<Rightarrow> (string \<times> alert_aux_for_update) option"

text \<open>What a worker inserts for a new object: sanitised series and no version.\<close>

definition new_object :: "('p, 'f) series_times \<Rightarrow> ('p, 'f, 'a, 'x) ztf_object \<Rightarrow> bool" where
  "new_object T obj \<longleftrightarrow> version obj = None \<and>
     (\<exists>ps. prv_candidates obj = sanitize_timeseries (prv_time T) ps) \<and>
     (\<exists>ps. prv_nondetections obj = sanitize_timeseries (prv_time T) ps) \<and>
     (\<exists>ps. fp_hists obj = sanitize_timeseries (fp_time T) ps)"

text \<open>One step of one worker: reading the object, the versioned write with what it read, the
  fallback, or inserting a new object.  Whatever the call answers, the database is what it left.\<close>

inductive aux_step ::
  "(mongo_error \<Rightarrow> bool) \<Rightarrow> ('db, ('p, 'f, 'a, 'x) ztf_object) collection \<Rightarrow> ('p, 'f) series_times \<Rightarrow>
   'db aux_system \<Rightarrow> 'db aux_system \<Rightarrow> bool" for dup M T where
  read: "get_existing_aux M T oid (database s) = Inr (Some ex) \<Longrightarrow>
    aux_step dup M T s (s\<lparr>snapshots := (snapshots s)(w \<mapsto> (oid, ex))\<rparr>)"
| push: "snapshots s w = Some (oid, ex) \<Longrightarrow>
    update_aux_inner M T oid lc survey_matches now ex (database s) = (r, db) \<Longrightarrow>
    aux_step dup M T s (s\<lparr>database := db\<rparr>)"
| pipeline: "update_aux_fallback M T oid lc survey_matches now (database s) = (r, db) \<Longrightarrow>
    aux_step dup M T s (s\<lparr>database := db\<rparr>)"
| insert: "new_object T obj \<Longrightarrow> insert_aux dup M obj (database s) = (r, db) \<Longrightarrow>
    aux_step dup M T s (s\<lparr>database := db\<rparr>)"

inductive aux_history ::
  "(mongo_error \<Rightarrow> bool) \<Rightarrow> ('db, ('p, 'f, 'a, 'x) ztf_object) collection \<Rightarrow> ('p, 'f) series_times \<Rightarrow>
   nat \<Rightarrow> 'db aux_system \<Rightarrow> 'db aux_system \<Rightarrow> bool" for dup M T where
  start: "aux_history dup M T 0 s s"
| more: "aux_history dup M T n s s' \<Longrightarrow> aux_step dup M T s' s'' \<Longrightarrow>
    aux_history dup M T (Suc n) s s''"

definition sound_object :: "('p, 'f) series_times \<Rightarrow> ('p, 'f, 'a, 'x) ztf_object \<Rightarrow> bool" where
  "sound_object T d \<longleftrightarrow> valid_series (prv_time T) (prv_candidates d) \<and>
     valid_series (prv_time T) (prv_nondetections d) \<and> valid_series (fp_time T) (fp_hists d)"

definition snapshot_sound ::
  "('p, 'f) series_times \<Rightarrow> ('p, 'f, 'a, 'x) ztf_object list \<Rightarrow> string \<times> alert_aux_for_update \<Rightarrow> bool" where
  "snapshot_sound T ds sn \<longleftrightarrow>
     (case sn of (oid, ex) \<Rightarrow> oid \<in> object_id ` set ds \<and>
       (\<forall>d\<in>set ds. object_id d = oid \<longrightarrow>
          version_number (ex_version ex) \<le> version_number (version d) \<and>
          (ex_version ex = version d \<longrightarrow> project_aux T d = ex)))"

text \<open>What every history keeps, the versions counting at most \<open>b\<close> writes.\<close>

definition aux_inv ::
  "('db, ('p, 'f, 'a, 'x) ztf_object) collection \<Rightarrow> ('p, 'f) series_times \<Rightarrow> int \<Rightarrow> 'db aux_system \<Rightarrow> bool" where
  "aux_inv M T b s \<longleftrightarrow> 0 \<le> b \<and>
     distinct (map object_id (docs M (database s))) \<and>
     (\<forall>d\<in>set (docs M (database s)). sound_object T d \<and>
        0 \<le> version_number (version d) \<and> version_number (version d) \<le> b) \<and>
     (\<forall>w sn. snapshots s w = Some sn \<longrightarrow> snapshot_sound T (docs M (database s)) sn)"

lemma pipeline_sound: "sound_object T (pipeline_update T lc survey_matches now d)"
  by (simp add: sound_object_def pipeline_update_def pipeline_heals_series [THEN conjunct1])

lemma pipeline_fields [simp]:
  "object_id (pipeline_update T lc survey_matches now d) = object_id d"
  "version (pipeline_update T lc survey_matches now d) = Some (version_number (version d) + 1)"
  by (simp_all add: pipeline_update_def version_number_def)

lemma pipeline_series:
  "prv_candidates (pipeline_update T lc survey_matches now d) =
     update_timeseries_op (prv_time T) (Some (prv_candidates d)) (new_prv_candidates lc)"
  "prv_nondetections (pipeline_update T lc survey_matches now d) =
     update_timeseries_op (prv_time T) (Some (prv_nondetections d)) (new_prv_nondetections lc)"
  "fp_hists (pipeline_update T lc survey_matches now d) =
     update_timeseries_op (fp_time T) (Some (fp_hists d)) (new_fp_hists lc)"
  by (simp_all add: pipeline_update_def)

lemma sanitize_valid: "valid_series tm (sanitize_timeseries tm ps)"
  using sanitized_cases by blast

lemma new_object_sound: "new_object T obj \<Longrightarrow> sound_object T obj \<and> version obj = None"
  by (auto simp: new_object_def sound_object_def sanitize_valid)

text \<open>A write that rewrites some documents by the pipeline keeps the invariant.\<close>

lemma write_keeps_inv:
  assumes inv: "aux_inv M T b s"
    and t: "touched (\<lambda>d. object_id d = oid) (pipeline_update T lc survey_matches now)
      (docs M (database s)) (docs M db)"
  shows "aux_inv M T (b + 1) (s\<lparr>database := db\<rparr>)"
proof -
  let ?u = "pipeline_update T lc survey_matches now"
  let ?ds = "docs M (database s)" and ?es = "docs M db"
  have ids: "map object_id ?es = map object_id ?ds"
    by (rule touched_map_eq [OF t]) simp
  then have image_ids: "object_id ` set ?es = object_id ` set ?ds"
    by (metis image_set)
  have "\<exists>d\<in>set ?ds. e = d \<or> e = ?u d" if "e \<in> set ?es" for e
    using t that unfolding touched_def list_all2_conv_all_nth by (metis in_set_conv_nth)
  then have old: "\<exists>d\<in>set ?ds. e = d \<or> e = ?u d" if "e \<in> set ?es" for e
    using that by blast
  have d: "\<forall>d\<in>set ?ds. sound_object T d \<and> 0 \<le> version_number (version d) \<and> version_number (version d) \<le> b"
    using inv by (simp add: aux_inv_def)
  have e: "\<forall>e\<in>set ?es. sound_object T e \<and> 0 \<le> version_number (version e) \<and> version_number (version e) \<le> b + 1"
  proof
    fix e assume "e \<in> set ?es"
    then obtain x where x: "x \<in> set ?ds" "e = x \<or> e = ?u x"
      using old by blast
    show "sound_object T e \<and> 0 \<le> version_number (version e) \<and> version_number (version e) \<le> b + 1"
      using x(2)
    proof
      assume "e = x"
      then show ?thesis using d x(1) by fastforce
    next
      assume "e = ?u x"
      moreover have "0 \<le> version_number (version x)" "version_number (version x) \<le> b"
        using d x(1) by auto
      ultimately show ?thesis
        using pipeline_sound by (simp add: version_number_def [of "Some _"])
    qed
  qed
  have "snapshot_sound T ?es sn" if "snapshot_sound T ?ds sn" for sn
  proof -
    obtain i ex where sn: "sn = (i, ex)" by (cases sn)
    have mem: "i \<in> object_id ` set ?es"
      using that image_ids by (simp add: sn snapshot_sound_def)
    have "version_number (ex_version ex) \<le> version_number (version e) \<and>
        (ex_version ex = version e \<longrightarrow> project_aux T e = ex)"
      if e: "e \<in> set ?es" "object_id e = i" for e
    proof -
      obtain x where x: "x \<in> set ?ds" "e = x \<or> e = ?u x"
        using old [OF e(1)] by blast
      then have "object_id x = i"
        using e(2) by auto
      then have le: "version_number (ex_version ex) \<le> version_number (version x)"
          "ex_version ex = version x \<longrightarrow> project_aux T x = ex"
        using \<open>snapshot_sound T ?ds sn\<close> x(1) by (auto simp: sn snapshot_sound_def)
      show ?thesis
        using x(2)
      proof
        assume "e = x"
        then show ?thesis using le by simp
      next
        assume "e = ?u x"
        then have "version_number (version e) = version_number (version x) + 1"
          by (simp add: version_number_def [of "Some _"])
        then show ?thesis
          using le by auto
      qed
    qed
    then show ?thesis
      using mem by (simp add: sn snapshot_sound_def)
  qed
  then show ?thesis
    using inv ids e by (auto simp: aux_inv_def)
qed

text \<open>What a document keeps: it has at least the times of an earlier one, and those of new points.\<close>

definition has_times ::
  "('p, 'f) series_times \<Rightarrow> ('p, 'f) light_curves \<Rightarrow> ('p, 'f, 'a, 'x) ztf_object \<Rightarrow> bool" where
  "has_times T lc d \<longleftrightarrow>
     at_time (prv_time T) ` set (filter (finite_point (prv_time T)) (new_prv_candidates lc)) \<subseteq>
       at_time (prv_time T) ` set (prv_candidates d) \<and>
     at_time (prv_time T) ` set (filter (finite_point (prv_time T)) (new_prv_nondetections lc)) \<subseteq>
       at_time (prv_time T) ` set (prv_nondetections d) \<and>
     at_time (fp_time T) ` set (filter (finite_point (fp_time T)) (new_fp_hists lc)) \<subseteq>
       at_time (fp_time T) ` set (fp_hists d)"

lemma pipeline_times:
  "at_time tm ` set (filter (finite_point tm) new) \<subseteq>
     at_time tm ` set (update_timeseries_op tm (Some stored) new)"
  "at_time tm ` set (filter (finite_point tm) stored) \<subseteq>
     at_time tm ` set (update_timeseries_op tm (Some stored) new)"
  using pipeline_heals_series [of tm "Some stored" new] by auto

lemma pipeline_has_times: "has_times T lc (pipeline_update T lc survey_matches now d)"
  by (simp add: has_times_def pipeline_update_def pipeline_times(1) del: set_filter)

lemma valid_all_finite: "valid_series tm ps \<Longrightarrow> filter (finite_point tm) ps = ps"
  by (simp add: valid_series_def filter_id_conv list_all_iff)

lemma pipeline_keeps:
  "valid_series tm stored \<Longrightarrow>
   at_time tm ` set stored \<subseteq> at_time tm ` set (update_timeseries_op tm (Some stored) new)"
  using pipeline_times(2) [of tm stored new] by (simp only: valid_all_finite)

lemma pipeline_keeps_times:
  assumes "sound_object T d" "has_times T lc d"
  shows "has_times T lc (pipeline_update T lc' survey_matches now d)"
proof -
  have v: "valid_series (prv_time T) (prv_candidates d)" "valid_series (prv_time T) (prv_nondetections d)"
      "valid_series (fp_time T) (fp_hists d)"
    using assms(1) by (simp_all only: sound_object_def)
  show ?thesis
    using assms(2) subset_trans [OF _ pipeline_keeps [OF v(1)]]
      subset_trans [OF _ pipeline_keeps [OF v(2)]] subset_trans [OF _ pipeline_keeps [OF v(3)]]
    unfolding has_times_def pipeline_series by metis
qed

lemma touched_weaken:
  "touched f u xs ys \<Longrightarrow> (\<And>x. x \<in> set xs \<Longrightarrow> f x \<Longrightarrow> g x \<and> u x = v x) \<Longrightarrow> touched g v xs ys"
  unfolding touched_def by (erule list.rel_mono_strong) auto

text \<open>Documents never go away, and keep the times they have.\<close>

definition grown ::
  "('p, 'f) series_times \<Rightarrow> ('p, 'f, 'a, 'x) ztf_object list \<Rightarrow> ('p, 'f, 'a, 'x) ztf_object list \<Rightarrow> bool" where
  "grown T ds es \<longleftrightarrow> (\<forall>lc oid. (\<exists>d\<in>set ds. object_id d = oid \<and> has_times T lc d) \<longrightarrow>
     (\<exists>e\<in>set es. object_id e = oid \<and> has_times T lc e))"

lemma grown_refl: "grown T ds ds"
  by (simp add: grown_def)

lemma grown_trans: "grown T ds es \<Longrightarrow> grown T es fs \<Longrightarrow> grown T ds fs"
  by (simp add: grown_def)

lemma touched_grown:
  assumes t: "touched (\<lambda>d. object_id d = oid) (pipeline_update T lc survey_matches now) ds es"
    and s: "\<forall>d\<in>set ds. sound_object T d"
  shows "grown T ds es"
  unfolding grown_def
proof (intro allI impI)
  fix lc' i
  assume "\<exists>d\<in>set ds. object_id d = i \<and> has_times T lc' d"
  then obtain k where k: "k < length ds" "object_id (ds ! k) = i" "has_times T lc' (ds ! k)"
    by (metis in_set_conv_nth)
  then have e: "es ! k = ds ! k \<or> es ! k = pipeline_update T lc survey_matches now (ds ! k)"
      "k < length es"
    using t by (auto simp: touched_def list_all2_conv_all_nth)
  have "has_times T lc' (es ! k)" "object_id (es ! k) = i"
    using e(1) k pipeline_keeps_times [of T "ds ! k" lc'] s by auto
  then show "\<exists>e\<in>set es. object_id e = i \<and> has_times T lc' e"
    using e(2) by (metis nth_mem)
qed

section \<open>The collection of objects\<close>

locale aux_store = doc_store M
  for M :: "('db, ('p, 'f, 'a, 'x) ztf_object) collection" +
  assumes object_key: "doc_id M d = Some (object_id d)"
begin

text \<open>The versioned write is the pipeline on the document it finds.\<close>

lemma inner_write:
  assumes u: "update_aux_inner M T oid lc survey_matches now ex db = (r, db')"
    and sn: "snapshot_sound T (docs M db) (oid, ex)"
    and b: "\<And>d. d \<in> set (docs M db) \<Longrightarrow> fits_i32 (version_number (version d) + 1)"
  shows "touched (\<lambda>d. object_id d = oid) (pipeline_update T lc survey_matches now) (docs M db) (docs M db') \<and>
    (r = Inr () \<longrightarrow> (\<exists>d\<in>set (docs M db'). object_id d = oid \<and> has_times T lc d))"
proof (cases "prepare_push T lc ex")
  case (Inl e)
  then show ?thesis
    using u by (auto simp: update_aux_inner_def)
next
  case (Inr push)
  let ?f = "make_find_doc_aux_update oid (ex_version ex) :: ('p, 'f, 'a, 'x) ztf_object \<Rightarrow> bool"
  let ?u = "make_filter_doc_aux_update T push survey_matches (ex_version ex) now"
  let ?p = "pipeline_update T lc survey_matches now :: ('p, 'f, 'a, 'x) ztf_object \<Rightarrow> _"
  have eq: "object_id d = oid \<and> ?u d = ?p d" if d: "d \<in> set (docs M db)" "?f d" for d
  proof -
    have v: "object_id d = oid" "version d = ex_version ex"
      using d(2) by (auto simp: make_find_doc_aux_update_def split: option.splits)
    then have "project_aux T d = ex"
      using sn d(1) by (simp add: snapshot_sound_def)
    then show ?thesis
      using versioned_write [of T lc d push] Inr b [OF d(1)] v by simp
  qed
  obtain rr db1 where w: "update_one M ?f ?u db = (rr, db1)" by fastforce
  have "db1 = db'"
    using u Inr w by (auto simp: update_aux_inner_def finalize_aux_update_def split: sum.splits)
  then have t: "touched (\<lambda>d. object_id d = oid) ?p (docs M db) (docs M db')"
    using touched_weaken [OF update_one_touched [OF w], of "\<lambda>d. object_id d = oid" ?p] eq by blast
  have "\<exists>d\<in>set (docs M db'). object_id d = oid \<and> has_times T lc d" if "r = Inr ()"
  proof -
    from u Inr w that have "\<exists>n. rr = Inr n \<and> n \<noteq> 0"
      by (auto simp: update_aux_inner_def finalize_aux_update_def split: sum.splits if_splits)
    with update_one_ok w \<open>db1 = db'\<close> obtain i where
      "one_updated ?f ?u (docs M db) i (docs M db')" by blast
    then have i: "i < length (docs M db)" "?f (docs M db ! i)"
        "docs M db' = (docs M db) [i := ?u (docs M db ! i)]"
      by (auto simp: one_updated_def)
    then have "?u (docs M db ! i) \<in> set (docs M db')"
      by (metis length_list_update nth_list_update_eq nth_mem)
    moreover have "?u (docs M db ! i) = ?p (docs M db ! i)" "object_id (docs M db ! i) = oid"
      using eq [of "docs M db ! i"] i by auto
    ultimately show ?thesis
      by (intro bexI [of _ "?u (docs M db ! i)"]) (simp_all add: pipeline_has_times)
  qed
  then show ?thesis
    using t by blast
qed

lemma fallback_write:
  assumes u: "update_aux_fallback M T oid lc survey_matches now db = (r, db')"
  shows "touched (\<lambda>d. object_id d = oid) (pipeline_update T lc survey_matches now) (docs M db) (docs M db') \<and>
    (r = Inr () \<longrightarrow> (\<exists>d\<in>set (docs M db'). object_id d = oid \<and> has_times T lc d))"
proof -
  let ?f = "\<lambda>d. object_id d = oid" and ?p = "pipeline_update T lc survey_matches now"
  obtain rr db1 where w: "update_one M ?f ?p db = (rr, db1)" by fastforce
  have eq: "db1 = db'"
    using u w by (auto simp: update_aux_fallback_def split: sum.splits)
  have "\<exists>d\<in>set (docs M db'). object_id d = oid \<and> has_times T lc d" if "r = Inr ()"
  proof -
    from u w that have "\<exists>n. rr = Inr n \<and> n \<noteq> 0"
      by (auto simp: update_aux_fallback_def split: sum.splits if_splits)
    with update_one_ok w eq obtain i where
      "one_updated ?f ?p (docs M db) i (docs M db')" by blast
    then have i: "i < length (docs M db)" "?f (docs M db ! i)"
        "docs M db' = (docs M db) [i := ?p (docs M db ! i)]"
      by (auto simp: one_updated_def)
    then have "?p (docs M db ! i) \<in> set (docs M db')"
      by (metis length_list_update nth_list_update_eq nth_mem)
    then show ?thesis
      using i(2) by (intro bexI [of _ "?p (docs M db ! i)"]) (simp_all add: pipeline_has_times)
  qed
  then show ?thesis
    using update_one_touched [OF w] eq by blast
qed

text \<open>Every step keeps the invariant, one version further.\<close>

lemma read_sound:
  assumes inv: "aux_inv M T b s" and r: "get_existing_aux M T oid (database s) = Inr (Some ex)"
  shows "snapshot_sound T (docs M (database s)) (oid, ex)"
proof -
  from r obtain d where f: "find_one M (\<lambda>d. object_id d = oid) None (database s) = Inr (Some d)"
      and ex: "ex = project_aux T d"
    by (auto simp: get_existing_aux_def project_aux_def split: sum.splits option.splits if_splits)
  from find_one_law [OF f] have d: "d \<in> set (docs M (database s))" "object_id d = oid"
    by auto
  have only: "x = d" if "x \<in> set (docs M (database s))" "object_id x = oid" for x
  proof -
    have "inj_on object_id (set (docs M (database s)))"
      using inv by (simp add: aux_inv_def distinct_map)
    then show ?thesis
      using inj_onD [of object_id "set (docs M (database s))" x d] that d by simp
  qed
  have "oid \<in> object_id ` set (docs M (database s))"
    using d by blast
  moreover have "version_number (ex_version ex) \<le> version_number (version x) \<and>
      (ex_version ex = version x \<longrightarrow> project_aux T x = ex)"
    if "x \<in> set (docs M (database s))" "object_id x = oid" for x
    using only [OF that] by (simp add: ex project_aux_def)
  ultimately show ?thesis
    by (simp add: snapshot_sound_def)
qed

lemma step_keeps_inv:
  assumes step: "aux_step dup M T s s'" and inv: "aux_inv M T b s" and b: "b + 1 < 2 ^ 31"
  shows "aux_inv M T (b + 1) s'"
  using step
proof cases
  case (read oid ex w)
  then show ?thesis
    using inv read_sound [OF inv read(2)] by (fastforce simp: aux_inv_def)
next
  case (push w oid ex lc survey_matches now r db)
  have sn: "snapshot_sound T (docs M (database s)) (oid, ex)"
    using inv push(2) by (auto simp: aux_inv_def)
  have "fits_i32 (version_number (version d) + 1)" if "d \<in> set (docs M (database s))" for d
    using inv that b by (fastforce simp: aux_inv_def fits_i32_def)
  from inner_write [OF push(3) sn this] show ?thesis
    using write_keeps_inv [OF inv] push(1) by blast
next
  case (pipeline oid lc survey_matches now r db)
  then show ?thesis
    using fallback_write [OF pipeline(2)] write_keeps_inv [OF inv] by blast
next
  case (insert obj r db)
  obtain ri where ri: "insert_one M obj (database s) = (ri, db)"
    using insert(3) by (auto simp: insert_aux_def split: prod.splits sum.splits)
  have "docs M db = docs M (database s) \<or>
      fresh_id M obj (docs M (database s)) \<and> docs M db = docs M (database s) @ [obj]"
    using insert_law [OF ri] by (auto split: sum.splits)
  then show ?thesis
  proof
    assume "docs M db = docs M (database s)"
    then show ?thesis
      using inv insert(1) by (fastforce simp: aux_inv_def)
  next
    assume f: "fresh_id M obj (docs M (database s)) \<and> docs M db = docs M (database s) @ [obj]"
    then have new: "object_id obj \<notin> object_id ` set (docs M (database s))"
      by (auto simp: fresh_id_def object_key)
    have sn: "snapshot_sound T (docs M db) sn" if "snapshot_sound T (docs M (database s)) sn" for sn
      using that new f by (auto simp: snapshot_sound_def split: prod.splits)
    have obj: "sound_object T obj \<and> version_number (version obj) = 0"
      using new_object_sound [OF insert(2)] by (simp add: version_number_def)
    have old: "\<forall>d\<in>set (docs M (database s)). sound_object T d \<and> 0 \<le> version_number (version d) \<and>
        version_number (version d) \<le> b" "0 \<le> b" "distinct (map object_id (docs M (database s)))"
      "\<forall>w sn. snapshots s w = Some sn \<longrightarrow> snapshot_sound T (docs M (database s)) sn"
      using inv by (simp_all add: aux_inv_def)
    have "\<forall>d\<in>set (docs M db). sound_object T d \<and> 0 \<le> version_number (version d) \<and>
        version_number (version d) \<le> b + 1"
      using old(1,2) obj f by fastforce
    moreover have "distinct (map object_id (docs M db))"
      using old(3) new f by simp
    ultimately show ?thesis
      using old(2,4) sn insert(1) by (simp add: aux_inv_def)
  qed
qed

lemma step_grows:
  assumes step: "aux_step dup M T s s'" and inv: "aux_inv M T b s" and b: "b + 1 < 2 ^ 31"
  shows "grown T (docs M (database s)) (docs M (database s'))"
proof -
  have sound: "\<forall>d\<in>set (docs M (database s)). sound_object T d"
    using inv by (simp add: aux_inv_def)
  from step show ?thesis
  proof cases
    case (read oid ex w)
    then show ?thesis by (simp add: grown_refl)
  next
    case (push w oid ex lc survey_matches now r db)
    have sn: "snapshot_sound T (docs M (database s)) (oid, ex)"
      using inv push(2) by (auto simp: aux_inv_def)
    have "fits_i32 (version_number (version d) + 1)" if "d \<in> set (docs M (database s))" for d
      using inv that b by (fastforce simp: aux_inv_def fits_i32_def)
    from inner_write [OF push(3) sn this] show ?thesis
      using touched_grown [OF _ sound] push(1) by auto
  next
    case (pipeline oid lc survey_matches now r db)
    then show ?thesis
      using fallback_write [OF pipeline(2)] touched_grown [OF _ sound] by auto
  next
    case (insert obj r db)
    obtain ri where ri: "insert_one M obj (database s) = (ri, db)"
      using insert(3) by (auto simp: insert_aux_def split: prod.splits sum.splits)
    have "set (docs M (database s)) \<subseteq> set (docs M db)"
      using insert_law [OF ri] by (auto split: sum.splits)
    then show ?thesis
      using insert(1) by (auto simp: grown_def)
  qed
qed

lemma history_keeps:
  "aux_history dup M T n s s' \<Longrightarrow> aux_inv M T b s \<Longrightarrow> b + int n < 2 ^ 31 \<Longrightarrow>
   aux_inv M T (b + int n) s' \<and> grown T (docs M (database s)) (docs M (database s'))"
proof (induction rule: aux_history.induct)
  case (start s)
  then show ?case by (simp add: grown_refl)
next
  case (more n s s' s'')
  then have IH: "aux_inv M T (b + int n) s'" "grown T (docs M (database s)) (docs M (database s'))"
    by simp_all
  have b: "b + int n + 1 < 2 ^ 31"
    using more.prems(2) by simp
  have "aux_inv M T (b + int n + 1) s''"
    by (rule step_keeps_inv [OF more.hyps(2) IH(1) b])
  then show ?case
    using grown_trans [OF IH(2) step_grows [OF more.hyps(2) IH(1) b]] by (simp add: add.commute add.left_commute)
qed

end

interpretation list_aux: aux_store "list_coll (\<lambda>d. Some (object_id d))"
  by unfold_locales (simp add: list_coll_def)

text \<open>A system to start from: sound documents of distinct objects whose versions count at most \<open>b\<close>
  writes, and no worker has read anything yet.\<close>

definition fresh_system ::
  "('db, ('p, 'f, 'a, 'x) ztf_object) collection \<Rightarrow> ('p, 'f) series_times \<Rightarrow> nat \<Rightarrow> 'db aux_system \<Rightarrow> bool" where
  "fresh_system M T b s \<longleftrightarrow> snapshots s = (\<lambda>_. None) \<and> distinct (map object_id (docs M (database s))) \<and>
     list_all (\<lambda>d. sound_object T d \<and> 0 \<le> version_number (version d) \<and>
       version_number (version d) \<le> int b) (docs M (database s))"

lemma fresh_inv: "fresh_system M T b s \<Longrightarrow> aux_inv M T (int b) s"
  by (simp add: fresh_system_def aux_inv_def list_all_iff)

text \<open>
  C6: In every interleaving of the workers' reads, versioned writes, fallbacks and insertions,
  with whatever database calls fail before or after taking effect, every stored light curve stays
  finite and strictly increasing, provided the versions stay below the 32-bit limit.
\<close>

theorem light_curves_stay_ordered:
  assumes "aux_store M" "fresh_system M T b s" "aux_history dup M T n s s'" "b + n < 2 ^ 31"
  shows "list_all (sound_object T) (docs M (database s'))"
proof -
  have "aux_inv M T (int b + int n) s'"
    using aux_store.history_keeps [OF assms(1,3) fresh_inv [OF assms(2)]] assms(4) by simp
  then show ?thesis
    by (simp add: aux_inv_def list_all_iff)
qed

text \<open>
  C9: No acknowledged point is lost: once a versioned write or a fallback has answered without an
  error, in any history, the object holds every finite time the worker brought, and still does
  after any further steps of any workers.
\<close>

theorem acknowledged_points_stay:
  assumes "aux_store M" "fresh_system M T b s0" "aux_history dup M T n s0 s1"
    and "snapshots s1 w = Some (oid, ex) \<and>
           update_aux_inner M T oid lc survey_matches now ex (database s1) = (Inr (), db) \<or>
         update_aux_fallback M T oid lc survey_matches now (database s1) = (Inr (), db)"
    and "aux_history dup M T m (s1\<lparr>database := db\<rparr>) s2" "b + (n + 1 + m) < 2 ^ 31"
  shows "\<exists>d\<in>set (docs M (database s2)). object_id d = oid \<and> has_times T lc d"
proof -
  have b: "int b + int n + 1 < 2 ^ 31"
    using assms(6) by simp
  have inv: "aux_inv M T (int b + int n) s1"
    using aux_store.history_keeps [OF assms(1,3) fresh_inv [OF assms(2)]] b by simp
  have step: "aux_step dup M T s1 (s1\<lparr>database := db\<rparr>)"
    using assms(4) by (metis aux_step.push aux_step.pipeline)
  have inv2: "aux_inv M T (int b + int n + 1) (s1\<lparr>database := db\<rparr>)"
    by (rule aux_store.step_keeps_inv [OF assms(1) step inv b])
  have fits: "fits_i32 (version_number (version d) + 1)" if "d \<in> set (docs M (database s1))" for d
    using inv that b by (fastforce simp: aux_inv_def fits_i32_def)
  have "\<exists>d\<in>set (docs M db). object_id d = oid \<and> has_times T lc d"
    using assms(4)
  proof
    assume a: "snapshots s1 w = Some (oid, ex) \<and>
        update_aux_inner M T oid lc survey_matches now ex (database s1) = (Inr (), db)"
    then have "snapshot_sound T (docs M (database s1)) (oid, ex)"
      using inv by (auto simp: aux_inv_def)
    then show ?thesis
      using aux_store.inner_write [OF assms(1) conjunct2 [OF a] _ fits] by blast
  next
    assume "update_aux_fallback M T oid lc survey_matches now (database s1) = (Inr (), db)"
    then show ?thesis
      using aux_store.fallback_write [OF assms(1)] by blast
  qed
  moreover have "grown T (docs M db) (docs M (database s2))"
    using aux_store.history_keeps [OF assms(1,5) inv2] assms(6) by simp
  ultimately show ?thesis
    unfolding grown_def by blast
qed

text \<open>A store to evaluate on: one object with two stored points, and three points to add, one of
  them stored already and one with an infinite time.\<close>

type_synonym demo_object = "(f64 \<times> nat, f64 \<times> nat, unit, unit) ztf_object"

definition demo_times :: "(f64 \<times> nat, f64 \<times> nat) series_times" where
  "demo_times = \<lparr>prv_time = fst, fp_time = fst, display_jd = \<lambda>_. []\<rparr>"

definition demo_object :: demo_object where
  "demo_object = \<lparr>object_id = ''Z'', prv_candidates = [(Num 1, 0), (Num 3, 0)],
     prv_nondetections = [], fp_hists = [], aliases = None, updated_at = Num 0, version = None,
     written_once = ()\<rparr>"

definition demo_curves :: "(f64 \<times> nat, f64 \<times> nat) light_curves" where
  "demo_curves = \<lparr>new_prv_candidates = [(Num 2, 7), (Num 3, 5)], new_prv_nondetections = [],
     new_fp_hists = []\<rparr>"

definition demo_store :: "(demo_object list, demo_object) collection" where
  "demo_store = list_coll (\<lambda>d. Some (object_id d))"

definition demo_system :: "demo_object list aux_system" where
  "demo_system = \<lparr>database = [demo_object], snapshots = \<lambda>_. None\<rparr>"

lemma demo_fresh: "fresh_system demo_store demo_times 0 demo_system"
  by (simp add: fresh_system_def demo_system_def demo_store_def list_coll_def demo_object_def
      demo_times_def sound_object_def valid_series_def finite_point_def is_finite_def at_time_def
      version_number_def)

lemma demo_aux_store: "aux_store demo_store"
  unfolding demo_store_def by (rule list_aux.aux_store_axioms)

lemma demo_fallback:
  "update_aux_fallback demo_store demo_times ''Z'' demo_curves None (Num 9) (database demo_system) =
     (Inr (), [pipeline_update demo_times demo_curves None (Num 9) demo_object])"
  by (simp add: update_aux_fallback_def demo_store_def list_coll_def demo_object_def demo_system_def)

lemma demo_step:
  "aux_history (\<lambda>_. False) demo_store demo_times 1 demo_system
     (demo_system\<lparr>database := [pipeline_update demo_times demo_curves None (Num 9) demo_object]\<rparr>)"
  unfolding One_nat_def
  by (rule aux_history.more [OF aux_history.start aux_step.pipeline [OF demo_fallback]])

theorem light_curves_stay_ordered_witness:
  "list_all (sound_object demo_times)
     (docs demo_store [pipeline_update demo_times demo_curves None (Num 9) demo_object])"
  using light_curves_stay_ordered [OF demo_aux_store demo_fresh demo_step] by simp

theorem acknowledged_points_stay_witness:
  "\<exists>d\<in>set (docs demo_store [pipeline_update demo_times demo_curves None (Num 9) demo_object]).
     object_id d = ''Z'' \<and> has_times demo_times demo_curves d"
  using acknowledged_points_stay [OF demo_aux_store demo_fresh aux_history.start
      disjI2 [OF demo_fallback] aux_history.start] by simp

text \<open>
  C15: The two ways of writing an update agree: when the series the worker read are those of the
  document, and preparing succeeds, the versioned write (times, pushes, sorting, aliases and
  version) leaves exactly the document that the fallback's pipeline would leave.
\<close>

theorem versioned_write_is_pipeline:
  assumes "prepare_push T lc (project_aux T d) = Inr push" "fits_i32 (version_number (version d) + 1)"
  shows "make_filter_doc_aux_update T push survey_matches (version d) now d =
    pipeline_update T lc survey_matches now d"
  by (rule versioned_write [OF assms])

theorem versioned_write_is_pipeline_witness:
  "make_filter_doc_aux_update demo_times
     \<lparr>push_prv_candidates = Some ([(Num 2, 7)], True), push_prv_nondetections = None, push_fp_hists = None\<rparr>
     None None (Num 9) demo_object =
   pipeline_update demo_times demo_curves None (Num 9) demo_object"
  using versioned_write_is_pipeline [where T = demo_times and lc = demo_curves and d = demo_object
      and push = "\<lparr>push_prv_candidates = Some ([(Num 2, 7)], True), push_prv_nondetections = None,
        push_fp_hists = None\<rparr>" and survey_matches = None and now = "Num 9"]
  by (simp add: demo_object_def demo_curves_def demo_times_def prepare_push_def project_aux_def
      prepare_timeseries_update_def is_finite_def f64_le_def f64_lt_def compare_with_def
      less_prod_def' less_eq_prod_def partition_point_def to_bits_normalized_def f64_eq_def
      add_to_push_aux_update_def fits_i32_def version_number_def)

end
