(* ===== verification/Retry.thy ===== *)
theory Retry
  imports Prelude
begin

text \<open>
  Retrying transient infrastructure errors (\<open>src/src/utils/retry.rs\<close>).  A \<open>Duration\<close> is its
  number of nanoseconds, saturating at the type's maximum; the operation is a function of the
  state it works on, and the backoffs slept are part of the result.
\<close>

section \<open>Durations\<close>

type_synonym duration = nat

definition DURATION_MAX :: duration where
  "DURATION_MAX = (2 ^ 64 - 1) * 1000000000 + 999999999"

definition from_millis :: "nat \<Rightarrow> duration" where "from_millis n = n * 1000000"
definition from_secs :: "nat \<Rightarrow> duration" where "from_secs n = n * 1000000000"

definition saturating_mul :: "duration \<Rightarrow> nat \<Rightarrow> duration" where
  "saturating_mul d k = min (d * k) DURATION_MAX"

section \<open>The helper\<close>

definition DEFAULT_MAX_RETRIES :: nat where "DEFAULT_MAX_RETRIES = 5"

definition DEFAULT_BASE_BACKOFF :: duration where "DEFAULT_BASE_BACKOFF = from_millis 200"

record redis_error =
  io_error :: bool
  connection_dropped :: bool
  connection_refusal :: bool
  timed_out :: bool
  cluster_error :: bool

definition is_transient_redis_error :: "redis_error \<Rightarrow> bool" where
  "is_transient_redis_error e \<longleftrightarrow>
     io_error e \<or> connection_dropped e \<or> connection_refusal e \<or> timed_out e \<or> cluster_error e"

function retry_loop ::
  "('s \<Rightarrow> ('e, 'a) result \<times> 's) \<Rightarrow> ('e \<Rightarrow> bool) \<Rightarrow> nat \<Rightarrow> duration \<Rightarrow> nat \<Rightarrow> 's \<Rightarrow>
     ('e, 'a) result \<times> duration list \<times> 's" where
  "retry_loop op is_transient max_retries base attempt s =
     (case op s of
        (Inr v, s') \<Rightarrow> (Inr v, [], s')
      | (Inl e, s') \<Rightarrow>
          if max_retries \<le> attempt \<or> \<not> is_transient e then (Inl e, [], s')
          else
            (case retry_loop op is_transient max_retries base (attempt + 1) s' of
               (r, slept, s'') \<Rightarrow> (r, saturating_mul base (2 ^ min attempt 5) # slept, s'')))"
  by pat_completeness auto

termination by (relation "measure (\<lambda>(_, _, max_retries, _, attempt, _). max_retries - attempt)") auto

declare retry_loop.simps [simp del]

definition retry_transient ::
  "nat \<Rightarrow> duration \<Rightarrow> ('e \<Rightarrow> bool) \<Rightarrow> ('s \<Rightarrow> ('e, 'a) result \<times> 's) \<Rightarrow> 's \<Rightarrow>
     ('e, 'a) result \<times> duration list \<times> 's" where
  "retry_transient max_retries base is_transient op s = retry_loop op is_transient max_retries base 0 s"

text \<open>The answers of \<open>n\<close> calls in a row, and the state they leave.\<close>

fun calls :: "('s \<Rightarrow> 'r \<times> 's) \<Rightarrow> nat \<Rightarrow> 's \<Rightarrow> 'r list \<times> 's" where
  "calls op 0 s = ([], s)"
| "calls op (Suc n) s = (case op s of (r, s') \<Rightarrow> (case calls op n s' of (rs, s'') \<Rightarrow> (r # rs, s'')))"

lemma calls_length: "length (fst (calls op n s)) = n"
  by (induction n arbitrary: s) (auto split: prod.splits, metis fst_conv)

lemma retry_loop_calls:
  assumes "retry_loop op tr mx base attempt s = (r, slept, s')" "attempt \<le> mx"
  shows "\<exists>errs. calls op (Suc (length slept)) s = (map Inl errs @ [r], s') \<and>
    length errs = length slept \<and> (\<forall>e\<in>set errs. tr e) \<and> attempt + length slept \<le> mx \<and>
    (\<forall>e. r = Inl e \<longrightarrow> tr e \<longrightarrow> attempt + length slept = mx) \<and>
    slept = map (\<lambda>k. saturating_mul base (2 ^ min k 5)) [attempt ..< attempt + length slept]"
  using assms
proof (induction op tr mx base attempt s arbitrary: r slept s' rule: retry_loop.induct)
  case (1 op tr mx base attempt s)
  obtain q s1 where op: "op s = (q, s1)" by fastforce
  show ?case
  proof (cases q)
    case (Inr v)
    with 1(2,3) op show ?thesis by (intro exI [of _ "[]"]) (auto simp: retry_loop.simps [of op])
  next
    case (Inl e)
    show ?thesis
    proof (cases "mx \<le> attempt \<or> \<not> tr e")
      case True
      with 1(2,3) op Inl show ?thesis by (intro exI [of _ "[]"]) (auto simp: retry_loop.simps [of op])
    next
      case False
      obtain slept1 where rec: "retry_loop op tr mx base (attempt + 1) s1 = (r, slept1, s')"
        "slept = saturating_mul base (2 ^ min attempt 5) # slept1"
        using 1(2) op Inl False by (auto simp: retry_loop.simps [of op tr mx base attempt] split: prod.splits)
      from 1(1) [OF op [symmetric] Inl False rec(1)] False obtain errs where
        errs: "calls op (Suc (length slept1)) s1 = (map Inl errs @ [r], s')" "length errs = length slept1"
          "\<forall>e\<in>set errs. tr e" "attempt + 1 + length slept1 \<le> mx"
          "\<forall>e. r = Inl e \<longrightarrow> tr e \<longrightarrow> attempt + 1 + length slept1 = mx"
          "slept1 = map (\<lambda>k. saturating_mul base (2 ^ min k 5)) [attempt + 1 ..< attempt + 1 + length slept1]"
        by (auto simp del: calls.simps)
      have "calls op (Suc (length slept)) s = (map Inl (e # errs) @ [r], s')"
        using errs(1) op Inl rec(2) by simp
      moreover have "slept = map (\<lambda>k. saturating_mul base (2 ^ min k 5)) [attempt ..< attempt + length slept]"
      proof -
        have "[attempt ..< attempt + length slept] = attempt # [attempt + 1 ..< attempt + 1 + length slept1]"
          using upt_conv_Cons [of attempt "attempt + length slept"] rec(2) by simp
        then show ?thesis using rec(2) errs(6) by simp
      qed
      ultimately show ?thesis using errs(2-5) rec(2) False
        by (intro exI [of _ "e # errs"]) auto
    qed
  qed
qed

text \<open>
  A retried operation is called at most \<open>max_retries + 1\<close> times and its last answer is
  returned unchanged; every answer before it was a transient error, a transient error is
  returned only when the retries are used up, and the waits between the calls double from the
  base up to 32 times it.
\<close>

theorem retry_is_bounded:
  assumes "retry_transient max_retries base is_transient op s = (r, slept, s')"
  shows "\<exists>errs. calls op (Suc (length slept)) s = (map Inl errs @ [r], s') \<and>
    length errs = length slept \<and> (\<forall>e\<in>set errs. is_transient e) \<and> length slept \<le> max_retries \<and>
    (\<forall>e. r = Inl e \<longrightarrow> is_transient e \<longrightarrow> length slept = max_retries) \<and>
    slept = map (\<lambda>k. saturating_mul base (2 ^ min k 5)) [0 ..< length slept]"
  using retry_loop_calls [OF assms [unfolded retry_transient_def]] by simp

theorem retry_is_bounded_witness:
  "\<exists>errs. calls (\<lambda>n. (if n < 2 then Inl ''io'' else Inr n, n + 1)) 3 (0 :: nat) = (map Inl errs @ [Inr 2], 3) \<and>
     length errs = 2"
proof -
  have "retry_transient 5 DEFAULT_BASE_BACKOFF (\<lambda>_. True) (\<lambda>n. (if n < 2 then Inl ''io'' else Inr n, n + 1)) (0 :: nat) =
      (Inr 2, [from_millis 200, from_millis 400], 3)"
    by (simp add: retry_transient_def retry_loop.simps saturating_mul_def DEFAULT_BASE_BACKOFF_def
        from_millis_def DURATION_MAX_def)
  from retry_is_bounded [OF this] obtain errs where
    "calls (\<lambda>n. (if n < 2 then Inl ''io'' else Inr n, n + 1)) (Suc (length [from_millis 200, from_millis 400])) (0 :: nat) =
      (map Inl errs @ [Inr 2], 3)" "length errs = length [from_millis 200, from_millis 400]" by blast
  then show ?thesis by (intro exI [of _ errs]) (simp add: numeral_3_eq_3 del: calls.simps)
qed

text \<open>With the default settings the waits add up to at most 6.2 seconds.\<close>

lemma default_backoff_total:
  assumes "retry_transient DEFAULT_MAX_RETRIES DEFAULT_BASE_BACKOFF is_transient op s = (r, slept, s')"
  shows "sum_list slept \<le> from_millis 6200"
proof -
  let ?b = "\<lambda>k. saturating_mul DEFAULT_BASE_BACKOFF (2 ^ min k 5)"
  have "length slept \<le> 5" "slept = map ?b [0 ..< length slept]"
    using retry_loop_calls [OF assms [unfolded retry_transient_def]]
    by (auto simp: DEFAULT_MAX_RETRIES_def simp del: calls.simps)
  moreover have "sum_list (map ?b [0 ..< n]) \<le> sum_list (map ?b [0 ..< 5])" if "n \<le> 5" for n
  proof -
    have "[0 ..< 5] = [0 ..< n] @ [n ..< 5]" using that by (metis upt_add_eq_append le_add_diff_inverse zero_le)
    then show ?thesis by simp
  qed
  moreover have "sum_list (map ?b [0 ..< 5]) = from_millis 6200"
    by (simp add: upt_rec saturating_mul_def DEFAULT_BASE_BACKOFF_def from_millis_def DURATION_MAX_def)
  ultimately show ?thesis by metis
qed

end
