(* ===== verification/Work_Queue.thy ===== *)
theory Work_Queue
  imports Retry
begin

text \<open>
  The Valkey/Redis lists through which the workers hand alerts on.  The server and its client are
  a parameter: a record of the commands the sources send, and the locale \<open>redis_store\<close> with their
  documented effects on the lists (head first).  A command that reports an error may still have
  been executed.  A value is a byte string; how a number is written and read as one is a
  parameter of the models that need it.
\<close>

type_synonym payload = "u8 list"

type_synonym lists = "string \<Rightarrow> payload list"

record 'r redis =
  lists :: "'r \<Rightarrow> lists"
  rpoplpush :: "string \<Rightarrow> string \<Rightarrow> 'r \<Rightarrow> (redis_error, payload option) result \<times> 'r"
  lpush :: "string \<Rightarrow> payload list \<Rightarrow> 'r \<Rightarrow> (redis_error, nat) result \<times> 'r"
  lrem_one :: "string \<Rightarrow> payload \<Rightarrow> 'r \<Rightarrow> (redis_error, nat) result \<times> 'r"
  rpop :: "string \<Rightarrow> nat \<Rightarrow> 'r \<Rightarrow> (redis_error, payload list) result \<times> 'r"
  llen :: "string \<Rightarrow> 'r \<Rightarrow> (redis_error, nat) result"

text \<open>The effects: moving the last element of one list to the front of another, pushing at the
  front one by one, removing the first occurrence, and popping up to \<open>n\<close> from the end.\<close>

definition moved :: "string \<Rightarrow> string \<Rightarrow> lists \<Rightarrow> lists" where
  "moved src dst m =
     (if m src = [] then m
      else (let m' = m(src := butlast (m src)) in m'(dst := last (m src) # m' dst)))"

definition pushed :: "string \<Rightarrow> payload list \<Rightarrow> lists \<Rightarrow> lists" where
  "pushed key vs m = m(key := rev vs @ m key)"

definition removed :: "string \<Rightarrow> payload \<Rightarrow> lists \<Rightarrow> lists" where
  "removed key v m = m(key := remove1 v (m key))"

definition popped :: "string \<Rightarrow> nat \<Rightarrow> lists \<Rightarrow> lists" where
  "popped key n m = m(key := take (length (m key) - n) (m key))"

text \<open>What a command leaves: its effect when it answers, its effect or nothing when it fails.\<close>

definition applied :: "('e, 'a) result \<Rightarrow> (lists \<Rightarrow> lists) \<Rightarrow> lists \<Rightarrow> lists \<Rightarrow> bool" where
  "applied r f m m' \<longleftrightarrow> m' = f m \<or> (\<exists>e. r = Inl e) \<and> m' = m"

locale redis_store =
  fixes R :: "'r redis"
  assumes rpoplpush_law:
    "rpoplpush R src dst s = (rv, s') \<Longrightarrow> applied rv (moved src dst) (lists R s) (lists R s') \<and>
       (\<forall>v. rv = Inr v \<longrightarrow> v = (if lists R s src = [] then None else Some (last (lists R s src))))"
  and lpush_law:
    "lpush R key vs s = (rn, s') \<Longrightarrow> applied rn (pushed key vs) (lists R s) (lists R s')"
  and lrem_law:
    "lrem_one R key v s = (rn, s') \<Longrightarrow> applied rn (removed key v) (lists R s) (lists R s')"
  and rpop_law:
    "rpop R key n s = (rp, s') \<Longrightarrow> applied rp (popped key n) (lists R s) (lists R s') \<and>
       (\<forall>vs. rp = Inr vs \<longrightarrow> vs = take n (rev (lists R s key)))"
  and llen_law: "llen R key s = Inr n \<Longrightarrow> n = length (lists R s key)"

text \<open>A retried command, and what its lists can be afterwards: the effect once for every attempt
  that was executed, at least once when it answered.\<close>

definition retry_valkey ::
  "('r \<Rightarrow> (redis_error, 'a) result \<times> 'r) \<Rightarrow> 'r \<Rightarrow> (redis_error, 'a) result \<times> 'r" where
  "retry_valkey op s =
     (case retry_transient DEFAULT_MAX_RETRIES DEFAULT_BASE_BACKOFF is_transient_redis_error op s of
        (r, _, s') \<Rightarrow> (r, s'))"

lemma retry_valkey_at_once: "op s = (Inr v, s') \<Longrightarrow> retry_valkey op s = (Inr v, s')"
  by (simp add: retry_valkey_def retry_transient_def retry_loop.simps)

lemma calls_last:
  "calls op (Suc n) s = (rs, s') \<Longrightarrow> (\<And>s r s'. op s = (r, s') \<Longrightarrow> P s \<Longrightarrow> P s') \<Longrightarrow> P s \<Longrightarrow>
   \<exists>s1. P s1 \<and> op s1 = (last rs, s')"
proof (induction n arbitrary: s rs)
  case 0
  then show ?case
    by (auto split: prod.splits)
next
  case (Suc n)
  obtain r s1 where r: "op s = (r, s1)" by fastforce
  with Suc.prems(1) obtain rs' where rs: "calls op (Suc n) s1 = (rs', s')" "rs = r # rs'"
    by (auto simp del: calls.simps simp: calls.simps(2) [of op "Suc n"] split: prod.splits)
  have "rs' \<noteq> []"
    using rs(1) calls_length [of op "Suc n" s1] by auto
  then show ?case
    using Suc.IH [OF rs(1) Suc.prems(2)] Suc.prems(2) [OF r Suc.prems(3)] rs(2) by simp
qed

lemma retry_valkey_last:
  assumes "retry_valkey op s = (r, s')"
    and "\<And>s r s'. op s = (r, s') \<Longrightarrow> P s \<Longrightarrow> P s'" and "P s"
  shows "\<exists>s1. P s1 \<and> op s1 = (r, s')"
proof -
  from assms(1) obtain slept where
    "retry_loop op is_transient_redis_error DEFAULT_MAX_RETRIES DEFAULT_BASE_BACKOFF 0 s = (r, slept, s')"
    by (auto simp: retry_valkey_def retry_transient_def split: prod.splits)
  from retry_loop_calls [OF this] obtain errs where
    "calls op (Suc (length slept)) s = (map Inl errs @ [r], s')"
    by (auto simp del: calls.simps)
  from calls_last [OF this, of P] assms(2,3) show ?thesis
    by simp
qed

text \<open>A retried command keeps what its effect keeps, and has had its effect when it answers.\<close>

lemma retry_applied:
  assumes r: "retry_valkey op s = (r, s')"
    and op: "\<And>s r s'. op s = (r, s') \<Longrightarrow> applied r f (lists R s) (lists R s')"
    and f: "\<And>m. P m \<Longrightarrow> P (f m)" and P: "P (lists R s)"
  shows "P (lists R s')" and "r = Inr v \<Longrightarrow> \<exists>m. P m \<and> lists R s' = f m"
proof -
  have step: "P (lists R s')" if "op s = (r, s')" "P (lists R s)" for s r s'
    using op [OF that(1)] f that(2) by (auto simp: applied_def)
  from retry_valkey_last [OF r, of "\<lambda>s. P (lists R s)"] step P obtain s1 where
    s1: "P (lists R s1)" "op s1 = (r, s')" by blast
  then show "P (lists R s')"
    using step by blast
  show "r = Inr v \<Longrightarrow> \<exists>m. P m \<and> lists R s' = f m"
    using op [OF s1(2)] s1(1) by (auto simp: applied_def)
qed

lemma moved_sets:
  assumes "src \<noteq> dst"
  shows "set (moved src dst m src) \<union> set (moved src dst m dst) = set (m src) \<union> set (m dst)"
    and "k \<noteq> src \<Longrightarrow> k \<noteq> dst \<Longrightarrow> moved src dst m k = m k"
proof -
  have "set xs = insert (last xs) (set (butlast xs))" if "xs \<noteq> []" for xs :: "payload list"
    using that by (metis append_butlast_last_id list.simps(15) rotate1.simps(2) set_rotate1)
  from this [of "m src"] show "set (moved src dst m src) \<union> set (moved src dst m dst) = set (m src) \<union> set (m dst)"
    using assms by (auto simp: moved_def Let_def)
  show "k \<noteq> src \<Longrightarrow> k \<noteq> dst \<Longrightarrow> moved src dst m k = m k"
    by (simp add: moved_def Let_def)
qed

lemma pushed_simps [simp]:
  "pushed key vs m key = rev vs @ m key" "k \<noteq> key \<Longrightarrow> pushed key vs m k = m k"
  by (simp_all add: pushed_def)

lemma removed_simps [simp]:
  "removed key v m key = remove1 v (m key)" "k \<noteq> key \<Longrightarrow> removed key v m k = m k"
  by (simp_all add: removed_def)

lemma popped_simps [simp]:
  "popped key n m key = take (length (m key) - n) (m key)" "k \<noteq> key \<Longrightarrow> popped key n m k = m k"
  by (simp_all add: popped_def)

text \<open>A turn of a worker's loop goes on, or the loop ends with a result.\<close>

datatype 'e loop_turn = Go | Finished "('e, unit) result"

section \<open>Lists held in memory\<close>

text \<open>A store that satisfies the laws, on which the witnesses evaluate: commands never fail.\<close>

definition memory_redis :: "lists redis" where
  "memory_redis = \<lparr>
     lists = (\<lambda>m. m),
     rpoplpush = (\<lambda>src dst m. (Inr (if m src = [] then None else Some (last (m src))), moved src dst m)),
     lpush = (\<lambda>key vs m. (Inr (length vs + length (m key)), pushed key vs m)),
     lrem_one = (\<lambda>key v m. (Inr (if v \<in> set (m key) then 1 else 0), removed key v m)),
     rpop = (\<lambda>key n m. (Inr (take n (rev (m key))), popped key n m)),
     llen = (\<lambda>key m. Inr (length (m key)))\<rparr>"

interpretation memory: redis_store memory_redis
  by unfold_locales (auto simp: memory_redis_def applied_def)

end
