(* ===== verification/Supervisor.thy ===== *)
theory Supervisor
  imports Retry
begin

text \<open>
  The scheduler's pools of worker threads and their restart supervision
  (\<open>src/src/scheduler/base.rs\<close>), with the worker types and commands
  (\<open>src/src/utils/worker.rs\<close>) and the surveys (\<open>src/src/utils/enums.rs\<close>).  Instants are
  nanoseconds of the monotonic clock; a worker's thread is running until the environment says
  it has exited.  The model sets of the enrichment workers are handed out round-robin.
\<close>

section \<open>Surveys, worker types, commands\<close>

datatype survey = Ztf | Lsst | Decam | Winter

fun survey_as_str :: "survey \<Rightarrow> string" where
  "survey_as_str Ztf = ''ZTF''"
| "survey_as_str Lsst = ''LSST''"
| "survey_as_str Decam = ''DECAM''"
| "survey_as_str Winter = ''WINTER''"

definition alert_input_queue :: "survey \<Rightarrow> string" where
  "alert_input_queue s = survey_as_str s @ ''_alerts_packets_queue''"

datatype worker_type = AlertWorker | EnrichmentWorker | FilterWorker

datatype worker_cmd = Term_Cmd

datatype try_recv = Received worker_cmd | Disconnected | Empty

fun should_terminate :: "try_recv \<Rightarrow> bool" where
  "should_terminate (Received Term_Cmd) = True"
| "should_terminate Disconnected = True"
| "should_terminate Empty = False"

text \<open>Configuration values of the \<open>config\<close> crate, as far as \<open>get_num_workers\<close> looks at them.\<close>

datatype cfg = CInt int | CTable "string \<rightharpoonup> cfg" | COther string

datatype config_error = CfgNotFound string | CfgType

fun into_table :: "cfg \<Rightarrow> (config_error, string \<rightharpoonup> cfg) result" where
  "into_table (CTable t) = Inr t"
| "into_table _ = Inl CfgType"

fun into_int :: "cfg \<Rightarrow> (config_error, int) result" where
  "into_int (CInt n) = Inr n"
| "into_int _ = Inl CfgType"

definition get_num_workers :: "(string \<rightharpoonup> cfg) \<Rightarrow> survey \<Rightarrow> string \<Rightarrow> (config_error, int) result" where
  "get_num_workers conf s ty =
     and_then (ok_or (CfgNotFound ''workers'') (conf ''workers'')) (\<lambda>w.
     and_then (into_table w) (\<lambda>table.
     and_then (ok_or (CfgNotFound ''survey_name not found in workers table'')
                 (table (to_ascii_lowercase (survey_as_str s)))) (\<lambda>st.
     and_then (into_table st) (\<lambda>stream_table.
     and_then (ok_or (CfgNotFound ''worker_type not found in stream table'') (stream_table ty)) (\<lambda>we.
     and_then (into_table we) (\<lambda>worker_entry.
     and_then (ok_or (CfgNotFound ''n_workers not found in worker table'') (worker_entry ''n_workers'')) into_int))))))"

section \<open>Restart bookkeeping\<close>

definition MAX_RESTARTS_PER_WINDOW :: nat where "MAX_RESTARTS_PER_WINDOW = 5"
definition RESTART_WINDOW :: duration where "RESTART_WINDOW = from_secs 300"
definition RESTART_BACKOFF_BASE :: duration where "RESTART_BACKOFF_BASE = from_secs 1"
definition RESTART_BACKOFF_MAX :: duration where "RESTART_BACKOFF_MAX = from_secs 30"

definition restart_backoff :: "nat \<Rightarrow> duration" where
  "restart_backoff prior_restarts =
     min (saturating_mul RESTART_BACKOFF_BASE (2 ^ min prior_restarts 5)) RESTART_BACKOFF_MAX"

record restart_state =
  history :: "nat list"
  next_eligible :: nat
  given_up :: bool

definition new_restart_state :: "nat \<Rightarrow> restart_state" where
  "new_restart_state now = \<lparr>history = [], next_eligible = now, given_up = False\<rparr>"

section \<open>The pool\<close>

datatype thread = RunningThread | ExitedThread

record 'm worker =
  handle :: "thread option"
  term_sent :: bool
  worker_models :: "'m option"

record 'm model_pool =
  model_sets :: "'m list"
  next_set :: u64

record 'm thread_pool =
  pool_type :: worker_type
  pool_survey :: survey
  pool_workers :: "'m worker list"
  restart_states :: "restart_state list"
  shared_model_pool :: "'m model_pool option"

definition next_model_set :: "'m model_pool \<Rightarrow> 'm \<times> 'm model_pool" where
  "next_model_set p =
     (model_sets p ! (unat (next_set p) mod length (model_sets p)), p\<lparr>next_set := next_set p + 1\<rparr>)"

definition worker_alive :: "'m worker \<Rightarrow> bool" where
  "worker_alive w = (case handle w of Some h \<Rightarrow> h = RunningThread | None \<Rightarrow> False)"

definition new_worker :: "'m option \<Rightarrow> 'm worker" where
  "new_worker models = \<lparr>handle = Some RunningThread, term_sent = False, worker_models = models\<rparr>"

definition spawn_worker :: "'m thread_pool \<Rightarrow> 'm worker \<times> 'm thread_pool" where
  "spawn_worker p =
     (case shared_model_pool p of
        None \<Rightarrow> (new_worker None, p)
      | Some mp \<Rightarrow> (case next_model_set mp of
          (m, mp') \<Rightarrow> (new_worker (Some m), p\<lparr>shared_model_pool := Some mp'\<rparr>)))"

definition add_worker :: "nat \<Rightarrow> 'm thread_pool \<Rightarrow> 'm thread_pool" where
  "add_worker now p =
     (case spawn_worker p of
        (w, p) \<Rightarrow> p\<lparr>pool_workers := pool_workers p @ [w],
                    restart_states := restart_states p @ [new_restart_state now]\<rparr>)"

definition new_pool ::
  "worker_type \<Rightarrow> survey \<Rightarrow> 'm model_pool option \<Rightarrow> nat list \<Rightarrow> 'm thread_pool" where
  "new_pool ty s mp nows =
     fold add_worker nows
       \<lparr>pool_type = ty, pool_survey = s, pool_workers = [], restart_states = [], shared_model_pool = mp\<rparr>"

text \<open>
  The body of \<open>supervise\<close> for one slot: the bookkeeping, and whether the dead worker is
  replaced.  \<open>duration_since\<close> saturates at zero, as subtraction here does.
\<close>

definition supervise_slot :: "nat \<Rightarrow> bool \<Rightarrow> restart_state \<Rightarrow> restart_state \<times> bool" where
  "supervise_slot now alive st =
     (let st = st\<lparr>history := dropWhile (\<lambda>t. RESTART_WINDOW < now - t) (history st)\<rparr>
      in if alive then (if history st = [] then st\<lparr>given_up := False\<rparr> else st, False)
         else if given_up st \<or> now < next_eligible st then (st, False)
         else if MAX_RESTARTS_PER_WINDOW \<le> length (history st) then (st\<lparr>given_up := True\<rparr>, False)
         else
           (let backoff = restart_backoff (length (history st))
            in (st\<lparr>history := history st @ [now], next_eligible := now + backoff\<rparr>, True)))"

definition supervise_at :: "nat \<Rightarrow> nat \<Rightarrow> 'm thread_pool \<times> nat list \<Rightarrow> 'm thread_pool \<times> nat list" where
  "supervise_at now i = (\<lambda>(p, respawned).
     case supervise_slot now (worker_alive (pool_workers p ! i)) (restart_states p ! i) of
       (st, respawn) \<Rightarrow>
         if respawn then
           (case spawn_worker p of
              (w, p) \<Rightarrow> (p\<lparr>pool_workers := (pool_workers p)[i := w],
                          restart_states := (restart_states p)[i := st]\<rparr>, respawned @ [i]))
         else (p\<lparr>restart_states := (restart_states p)[i := st]\<rparr>, respawned))"

text \<open>\<open>ThreadPool::supervise\<close>; the second part is the slots it reports as respawned.\<close>

definition supervise :: "nat \<Rightarrow> 'm thread_pool \<Rightarrow> 'm thread_pool \<times> nat list" where
  "supervise now p = fold (supervise_at now) [0 ..< length (pool_workers p)] (p, [])"

definition live_worker_count :: "'m thread_pool \<Rightarrow> nat" where
  "live_worker_count p = length (filter worker_alive (pool_workers p))"

definition total_worker_count :: "'m thread_pool \<Rightarrow> nat" where
  "total_worker_count p = length (pool_workers p)"

text \<open>Dropping the pool: every worker is told to stop, then every thread is joined.\<close>

definition terminate_pool :: "'m thread_pool \<Rightarrow> 'm thread_pool" where
  "terminate_pool p = p\<lparr>pool_workers := map (\<lambda>w. w\<lparr>term_sent := True\<rparr>) (pool_workers p)\<rparr>"

definition join_pool :: "'m thread_pool \<Rightarrow> 'm thread_pool" where
  "join_pool p = p\<lparr>pool_workers := map (\<lambda>w. w\<lparr>handle := None\<rparr>) (pool_workers p)\<rparr>"

definition drop_pool :: "'m thread_pool \<Rightarrow> 'm thread_pool" where
  "drop_pool p = join_pool (terminate_pool p)"

section \<open>Histories of a pool\<close>

datatype pool_event = SuperviseTick nat | ThreadExit nat

definition thread_exits :: "nat \<Rightarrow> 'm thread_pool \<Rightarrow> 'm thread_pool" where
  "thread_exits i p =
     (if i < length (pool_workers p)
      then p\<lparr>pool_workers := (pool_workers p)[i := (pool_workers p ! i)\<lparr>handle := Some ExitedThread\<rparr>]\<rparr>
      else p)"

text \<open>The pool after the events, with the log of respawns: slot and time.\<close>

fun pool_run ::
  "pool_event list \<Rightarrow> 'm thread_pool \<times> (nat \<times> nat) list \<Rightarrow> 'm thread_pool \<times> (nat \<times> nat) list" where
  "pool_run [] x = x"
| "pool_run (SuperviseTick now # es) (p, rlog) =
     (case supervise now p of (p', rs) \<Rightarrow> pool_run es (p', rlog @ map (\<lambda>i. (i, now)) rs))"
| "pool_run (ThreadExit i # es) (p, rlog) = pool_run es (thread_exits i p, rlog)"

fun ticks :: "pool_event list \<Rightarrow> nat list" where
  "ticks [] = []"
| "ticks (SuperviseTick now # es) = now # ticks es"
| "ticks (ThreadExit i # es) = ticks es"

definition respawns :: "nat \<Rightarrow> (nat \<times> nat) list \<Rightarrow> nat list" where
  "respawns i rlog = map snd (filter (\<lambda>(j, t). j = i) rlog)"

definition in_window :: "nat \<Rightarrow> nat list \<Rightarrow> nat list" where
  "in_window t0 ts = filter (\<lambda>t. t0 \<le> t \<and> t \<le> t0 + RESTART_WINDOW) ts"

section \<open>The restart budget\<close>

definition slot_inv :: "nat \<Rightarrow> restart_state \<Rightarrow> nat list \<Rightarrow> bool" where
  "slot_inv now st hist \<longleftrightarrow>
     (\<exists>old. hist = old @ history st \<and> (\<forall>t\<in>set old. t + RESTART_WINDOW < now)) \<and>
     (\<forall>t0. length (in_window t0 hist) \<le> MAX_RESTARTS_PER_WINDOW) \<and>
     length (history st) \<le> MAX_RESTARTS_PER_WINDOW"

lemma in_window_append [simp]: "in_window t0 (a @ b) = in_window t0 a @ in_window t0 b"
  by (simp add: in_window_def)

lemma in_window_length: "length (in_window t0 ts) \<le> length ts"
  by (simp add: in_window_def)

lemma slot_inv_later: "slot_inv now st hist \<Longrightarrow> now \<le> later \<Longrightarrow> slot_inv later st hist"
proof -
  assume inv: "slot_inv now st hist" and later: "now \<le> later"
  then obtain old where "hist = old @ history st" "\<forall>t\<in>set old. t + RESTART_WINDOW < now"
    by (auto simp: slot_inv_def)
  with inv later show ?thesis unfolding slot_inv_def by (intro conjI exI [of _ old]) auto
qed

lemma slot_inv_drop:
  assumes "slot_inv now st hist"
  shows "slot_inv now (st\<lparr>history := dropWhile (\<lambda>t. RESTART_WINDOW < now - t) (history st)\<rparr>) hist"
proof -
  let ?P = "\<lambda>t. RESTART_WINDOW < now - t"
  from assms obtain old where old: "hist = old @ history st" "\<forall>t\<in>set old. t + RESTART_WINDOW < now"
    by (auto simp: slot_inv_def)
  have "hist = (old @ takeWhile ?P (history st)) @ dropWhile ?P (history st)" using old(1) by simp
  moreover have "\<forall>t\<in>set (takeWhile ?P (history st)). t + RESTART_WINDOW < now"
    using set_takeWhileD by fastforce
  moreover have "length (dropWhile ?P (history st)) \<le> length (history st)" by (rule length_dropWhile_le)
  ultimately show ?thesis using assms old(2) unfolding slot_inv_def
    by (intro conjI exI [of _ "old @ takeWhile ?P (history st)"]) auto
qed

lemma slot_inv_push:
  assumes "slot_inv now st hist" "length (history st) < MAX_RESTARTS_PER_WINDOW"
  shows "slot_inv now (st\<lparr>history := history st @ [now], next_eligible := e\<rparr>) (hist @ [now])"
proof -
  from assms obtain old where old: "hist = old @ history st" "\<forall>t\<in>set old. t + RESTART_WINDOW < now"
    and cnt: "\<And>t0. length (in_window t0 hist) \<le> MAX_RESTARTS_PER_WINDOW"
    by (auto simp: slot_inv_def)
  have "length (in_window t0 (hist @ [now])) \<le> MAX_RESTARTS_PER_WINDOW" for t0
  proof (cases "t0 \<le> now \<and> now \<le> t0 + RESTART_WINDOW")
    case True
    then have "in_window t0 old = []" using old(2) by (auto simp: in_window_def filter_empty_conv)
    then have "length (in_window t0 (hist @ [now])) \<le> length (history st) + 1"
      using old(1) in_window_length [of t0 "history st"] in_window_length [of t0 "[now]"] by simp
    with assms(2) show ?thesis by simp
  next
    case False
    then have "in_window t0 [now] = []" by (auto simp: in_window_def)
    with cnt [of t0] show ?thesis by simp
  qed
  with assms(2) old show ?thesis unfolding slot_inv_def by (intro conjI exI [of _ old]) auto
qed

lemma slot_inv_flags [simp]:
  "slot_inv now (st\<lparr>given_up := g\<rparr>) hist = slot_inv now st hist"
  by (simp add: slot_inv_def)

lemma supervise_slot_inv:
  assumes "slot_inv now st hist" "supervise_slot now alive st = (st', respawn)"
  shows "slot_inv now st' (if respawn then hist @ [now] else hist)"
  using assms(2) slot_inv_drop [OF assms(1)] slot_inv_push [OF slot_inv_drop [OF assms(1)]]
  by (auto simp: supervise_slot_def Let_def split: if_splits)

definition pool_inv :: "nat \<Rightarrow> 'm thread_pool \<Rightarrow> (nat \<times> nat) list \<Rightarrow> bool" where
  "pool_inv now p rlog \<longleftrightarrow>
     length (restart_states p) = length (pool_workers p) \<and>
     (\<forall>i < length (pool_workers p). slot_inv now (restart_states p ! i) (respawns i rlog)) \<and>
     (\<forall>w \<in> set (pool_workers p). handle w \<noteq> None)"

lemma respawns_append [simp]: "respawns i (a @ b) = respawns i a @ respawns i b"
  by (simp add: respawns_def)

lemma respawns_one [simp]: "respawns i [(j, t)] = (if j = i then [t] else [])"
  by (simp add: respawns_def)

lemma spawn_worker_frame:
  "spawn_worker p = (w, p') \<Longrightarrow> pool_workers p' = pool_workers p \<and> restart_states p' = restart_states p \<and>
     handle w = Some RunningThread"
  by (auto simp: spawn_worker_def new_worker_def split: option.splits prod.splits)

lemma supervise_at_inv:
  assumes "pool_inv now p (rlog @ map (\<lambda>i. (i, now)) rs)" "i < length (pool_workers p)"
    and "supervise_at now i (p, rs) = (p', rs')"
  shows "pool_inv now p' (rlog @ map (\<lambda>i. (i, now)) rs') \<and> length (pool_workers p') = length (pool_workers p)"
proof -
  obtain st respawn where sl: "supervise_slot now (worker_alive (pool_workers p ! i)) (restart_states p ! i) = (st, respawn)"
    by fastforce
  have "slot_inv now (restart_states p ! i) (respawns i (rlog @ map (\<lambda>i. (i, now)) rs))"
    using assms(1,2) unfolding pool_inv_def by blast
  note si = supervise_slot_inv [OF this sl]
  show ?thesis
  proof (cases respawn)
    case True
    obtain w p1 where sp: "spawn_worker p = (w, p1)" by fastforce
    from assms(3) sl True sp have res: "rs' = rs @ [i]"
      "p' = p1\<lparr>pool_workers := (pool_workers p1)[i := w], restart_states := (restart_states p1)[i := st]\<rparr>"
      by (auto simp: supervise_at_def)
    from spawn_worker_frame [OF sp] si True assms(1,2) show ?thesis
      unfolding res by (auto simp: pool_inv_def nth_list_update dest: set_update_subset_insert [THEN subsetD])
  next
    case False
    with assms(3) sl have res: "rs' = rs" "p' = p\<lparr>restart_states := (restart_states p)[i := st]\<rparr>"
      by (auto simp: supervise_at_def)
    from si False assms(1,2) show ?thesis
      unfolding res by (auto simp: pool_inv_def nth_list_update)
  qed
qed

lemma supervise_fold_inv:
  assumes "pool_inv now p (rlog @ map (\<lambda>i. (i, now)) rs)" "\<forall>i\<in>set is. i < length (pool_workers p)"
    and "fold (supervise_at now) is (p, rs) = (p', rs')"
  shows "pool_inv now p' (rlog @ map (\<lambda>i. (i, now)) rs') \<and> length (pool_workers p') = length (pool_workers p)"
  using assms
proof (induction "is" arbitrary: p rs)
  case (Cons i js)
  obtain p1 rs1 where st: "supervise_at now i (p, rs) = (p1, rs1)" by fastforce
  from supervise_at_inv [OF Cons.prems(1) _ st] Cons.prems(2)
  have one: "pool_inv now p1 (rlog @ map (\<lambda>i. (i, now)) rs1)" "length (pool_workers p1) = length (pool_workers p)"
    by simp_all
  from Cons.IH [OF one(1)] Cons.prems(2,3) st one(2) show ?case by simp
qed simp

lemma supervise_inv:
  assumes "pool_inv before p rlog" "before \<le> now" "supervise now p = (p', rs)"
  shows "pool_inv now p' (rlog @ map (\<lambda>i. (i, now)) rs) \<and> length (pool_workers p') = length (pool_workers p)"
proof -
  have "pool_inv now p rlog" using assms(1,2) slot_inv_later unfolding pool_inv_def by blast
  then show ?thesis
    using supervise_fold_inv [of now p rlog "[]" "[0 ..< length (pool_workers p)]" p' rs] assms(3)
    by (simp add: supervise_def)
qed

lemma thread_exits_inv: "pool_inv now p rlog \<Longrightarrow> pool_inv now (thread_exits i p) rlog"
  by (auto simp: pool_inv_def thread_exits_def dest: set_update_subset_insert [THEN subsetD])

lemma thread_exits_length: "length (pool_workers (thread_exits i p)) = length (pool_workers p)"
  by (simp add: thread_exits_def)

lemma pool_run_inv:
  assumes "pool_inv now p rlog" "sorted (now # ticks es)" "pool_run es (p, rlog) = (p', rlog')"
  shows "pool_inv (last (now # ticks es)) p' rlog' \<and> length (pool_workers p') = length (pool_workers p)"
  using assms
proof (induction es arbitrary: now p rlog)
  case (Cons e es)
  show ?case
  proof (cases e)
    case (SuperviseTick t)
    obtain p1 rs where sup: "supervise t p = (p1, rs)" by fastforce
    from SuperviseTick Cons.prems(2) have "now \<le> t" "sorted (t # ticks es)" by simp_all
    with supervise_inv [OF Cons.prems(1) _ sup]
    have one: "pool_inv t p1 (rlog @ map (\<lambda>i. (i, t)) rs)" "length (pool_workers p1) = length (pool_workers p)"
      by simp_all
    from Cons.prems(3) SuperviseTick sup have "pool_run es (p1, rlog @ map (\<lambda>i. (i, t)) rs) = (p', rlog')" by simp
    from Cons.IH [OF one(1) \<open>sorted (t # ticks es)\<close> this] one(2) SuperviseTick show ?thesis by simp
  next
    case (ThreadExit i)
    with Cons.prems Cons.IH [OF thread_exits_inv [OF Cons.prems(1)]] show ?thesis
      by (simp add: thread_exits_length)
  qed
qed simp

lemma add_worker_inv: "pool_inv now p [] \<Longrightarrow> pool_inv now (add_worker t p) []"
proof -
  assume inv: "pool_inv now p []"
  obtain w p1 where sp: "spawn_worker p = (w, p1)" by fastforce
  have "slot_inv now (new_restart_state t) []" by (simp add: slot_inv_def new_restart_state_def in_window_def)
  with inv spawn_worker_frame [OF sp] show ?thesis
    by (auto simp: add_worker_def sp pool_inv_def nth_append less_Suc_eq respawns_def)
qed

lemma new_pool_inv: "pool_inv 0 (new_pool ty s mp nows) [] \<and> length (pool_workers (new_pool ty s mp nows)) = length nows"
proof -
  have len: "length (pool_workers (add_worker t p)) = Suc (length (pool_workers p))" for t and p :: "'a thread_pool"
    by (auto simp: add_worker_def dest: spawn_worker_frame split: prod.splits)
  have "pool_inv 0 p [] \<Longrightarrow> pool_inv 0 (fold add_worker nows p) [] \<and>
      length (pool_workers (fold add_worker nows p)) = length (pool_workers p) + length nows" for p :: "'a thread_pool"
  proof (induction nows arbitrary: p)
    case (Cons t nows)
    from Cons.IH [OF add_worker_inv [OF Cons.prems, of t]] len [of t p] show ?case by simp
  qed simp
  note step = this
  show ?thesis unfolding new_pool_def
    using step [of "\<lparr>pool_type = ty, pool_survey = s, pool_workers = [], restart_states = [], shared_model_pool = mp\<rparr>"]
    by (simp add: pool_inv_def)
qed

section \<open>A slot that was given up\<close>

definition abandoned :: "nat \<Rightarrow> 'm thread_pool \<Rightarrow> bool" where
  "abandoned i p \<longleftrightarrow> i < length (pool_workers p) \<and> i < length (restart_states p) \<and>
     given_up (restart_states p ! i) \<and> \<not> worker_alive (pool_workers p ! i)"

lemma supervise_at_abandoned:
  assumes "abandoned i p" "supervise_at now j (p, rs) = (p', rs')"
  shows "abandoned i p' \<and> (i \<in> set rs' \<longrightarrow> i \<in> set rs)"
proof -
  obtain st respawn where sl: "supervise_slot now (worker_alive (pool_workers p ! j)) (restart_states p ! j) = (st, respawn)"
    by fastforce
  have "\<not> respawn \<and> given_up st" if "j = i"
    using sl assms(1) that by (auto simp: abandoned_def supervise_slot_def Let_def split: if_splits)
  moreover obtain w p1 where sp: "spawn_worker p = (w, p1)" by fastforce
  ultimately show ?thesis
    using assms sl spawn_worker_frame [OF sp]
    by (cases "j = i") (auto simp: supervise_at_def abandoned_def nth_list_update sp split: if_splits)
qed

lemma supervise_abandoned:
  assumes "abandoned i p" "supervise now p = (p', rs)"
  shows "abandoned i p' \<and> i \<notin> set rs"
proof -
  have "abandoned i q' \<and> (i \<in> set rs' \<longrightarrow> i \<in> set rs)"
    if "abandoned i q" "fold (supervise_at now) js (q, rs) = (q', rs')" for js rs rs' and q q' :: "'a thread_pool"
    using that
  proof (induction js arbitrary: q rs)
    case (Cons j js)
    obtain q1 rs1 where st: "supervise_at now j (q, rs) = (q1, rs1)" by fastforce
    with supervise_at_abandoned [OF Cons.prems(1) st] Cons.IH [of q1 rs1] Cons.prems(2) show ?case by auto
  qed simp
  from this [OF assms(1) assms(2) [unfolded supervise_def]] show ?thesis by simp
qed

lemma pool_run_abandoned:
  assumes "abandoned i p" "pool_run es (p, rlog) = (p', rlog')"
  shows "abandoned i p' \<and> respawns i rlog' = respawns i rlog"
  using assms
proof (induction es arbitrary: p rlog)
  case (Cons e es)
  show ?case
  proof (cases e)
    case (SuperviseTick t)
    obtain p1 rs where sup: "supervise t p = (p1, rs)" by fastforce
    have "respawns i (map (\<lambda>i. (i, t)) rs) = []"
      using supervise_abandoned [OF Cons.prems(1) sup] by (auto simp: respawns_def filter_empty_conv)
    with supervise_abandoned [OF Cons.prems(1) sup] Cons.IH [of p1 "rlog @ map (\<lambda>i. (i, t)) rs"] Cons.prems(2) SuperviseTick sup
    show ?thesis by simp
  next
    case (ThreadExit j)
    have "abandoned i (thread_exits j p)"
      using Cons.prems(1) by (auto simp: abandoned_def thread_exits_def worker_alive_def nth_list_update)
    with Cons.IH [of "thread_exits j p" rlog] Cons.prems(2) ThreadExit show ?thesis by simp
  qed
qed simp

section \<open>Properties\<close>

text \<open>
  The supervisor never hot-loops a crashing worker: however often and whenever the threads
  of a pool die, a slot is respawned at most five times in any window of 300 seconds, the pool
  keeps its size, and every slot keeps a thread handle.
\<close>

theorem restarts_are_bounded:
  assumes "sorted (ticks es)" "pool_run es (new_pool ty s mp nows, []) = (p', rlog')" "i < length nows"
  shows "length (in_window t0 (respawns i rlog')) \<le> 5 \<and> total_worker_count p' = length nows \<and>
    list_all (\<lambda>w. handle w \<noteq> None) (pool_workers p')"
proof -
  have "sorted (0 # ticks es)" using assms(1) by simp
  from pool_run_inv [OF _ this assms(2)] new_pool_inv [of ty s mp nows]
  have "pool_inv (last (0 # ticks es)) p' rlog'" "length (pool_workers p') = length nows" by simp_all
  then show ?thesis
    using assms(3) by (simp add: pool_inv_def slot_inv_def MAX_RESTARTS_PER_WINDOW_def total_worker_count_def list_all_iff)
qed

theorem restarts_are_bounded_witness:
  "case pool_run [ThreadExit 0, SuperviseTick 7, ThreadExit 0, SuperviseTick (7 + from_secs 1)]
      (new_pool FilterWorker Ztf (None :: unit model_pool option) [3], []) of
     (p', rlog') \<Rightarrow> length (in_window 0 (respawns 0 rlog')) \<le> 5 \<and> rlog' = [(0, 7), (0, 7 + from_secs 1)]"
proof -
  let ?es = "[ThreadExit 0, SuperviseTick 7, ThreadExit 0, SuperviseTick (7 + from_secs 1)]"
  let ?p = "new_pool FilterWorker Ztf (None :: unit model_pool option) [3]"
  obtain p' rlog' where run: "pool_run ?es (?p, []) = (p', rlog')" by fastforce
  have "sorted (ticks ?es)" by simp
  from restarts_are_bounded [OF this run, of 0 0] have "length (in_window 0 (respawns 0 rlog')) \<le> 5" by simp
  moreover have "rlog' = [(0, 7), (0, 7 + from_secs 1)]"
    using run by (simp add: new_pool_def add_worker_def spawn_worker_def new_worker_def new_restart_state_def
        thread_exits_def supervise_def supervise_at_def supervise_slot_def worker_alive_def Let_def
        restart_backoff_def RESTART_BACKOFF_BASE_def RESTART_BACKOFF_MAX_def RESTART_WINDOW_def
        MAX_RESTARTS_PER_WINDOW_def saturating_mul_def from_secs_def DURATION_MAX_def)
  ultimately show ?thesis using run by simp
qed

text \<open>
  Giving up is final: a dead slot whose budget was once exhausted is never respawned again,
  whatever time passes, because only a live worker clears the flag.
\<close>

theorem giving_up_is_final:
  assumes "abandoned i p" "pool_run es (p, rlog) = (p', rlog')"
  shows "abandoned i p' \<and> respawns i rlog' = respawns i rlog \<and> live_worker_count p' < total_worker_count p'"
proof -
  from pool_run_abandoned [OF assms] have ab: "abandoned i p'" "respawns i rlog' = respawns i rlog" by blast+
  then have "pool_workers p' ! i \<in> set (pool_workers p')" "\<not> worker_alive (pool_workers p' ! i)"
    by (auto simp: abandoned_def)
  then have "live_worker_count p' < total_worker_count p'"
    unfolding live_worker_count_def total_worker_count_def by (intro length_filter_less)
  with ab show ?thesis by blast
qed

definition dead_pool :: "unit thread_pool" where
  "dead_pool = \<lparr>pool_type = FilterWorker, pool_survey = Ztf,
     pool_workers = [\<lparr>handle = Some ExitedThread, term_sent = False, worker_models = None\<rparr>],
     restart_states = [\<lparr>history = [1, 2, 3, 4, 5], next_eligible = 6, given_up = True\<rparr>],
     shared_model_pool = None\<rparr>"

theorem giving_up_is_final_witness:
  "snd (pool_run [SuperviseTick (from_secs 86400)] (dead_pool, [])) = []"
proof -
  obtain p' rlog' where run: "pool_run [SuperviseTick (from_secs 86400)] (dead_pool, []) = (p', rlog')" by fastforce
  have "abandoned 0 dead_pool" by (simp add: abandoned_def dead_pool_def worker_alive_def)
  from giving_up_is_final [OF this run] have "respawns 0 rlog' = []" by (simp add: respawns_def)
  moreover have "rlog' = []"
    using run by (auto simp: dead_pool_def supervise_def supervise_at_def supervise_slot_def worker_alive_def Let_def
        split: prod.splits)
  ultimately show ?thesis using run by simp
qed

text \<open>
  The backoff before the next restart doubles from one second and never exceeds thirty, for
  any number of prior restarts; after a respawn the slot is not touched before it has passed.
\<close>

theorem backoff_doubles_and_caps:
  "restart_backoff n = min (2 ^ n) 30 * from_secs 1 \<and>
   (now < next_eligible st \<longrightarrow> \<not> snd (supervise_slot now alive st))"
proof
  show "restart_backoff n = min (2 ^ n) 30 * from_secs 1"
  proof (cases "n < 5")
    case True
    then have "n \<in> {0, 1, 2, 3, 4}" by auto
    then show ?thesis
      by (auto simp: restart_backoff_def saturating_mul_def RESTART_BACKOFF_BASE_def RESTART_BACKOFF_MAX_def
          from_secs_def DURATION_MAX_def)
  next
    case False
    then have "(2 :: nat) ^ 5 \<le> 2 ^ n" by (intro power_increasing) simp_all
    with False show ?thesis
      by (simp add: restart_backoff_def saturating_mul_def RESTART_BACKOFF_BASE_def RESTART_BACKOFF_MAX_def
          from_secs_def DURATION_MAX_def min_def)
  qed
  show "now < next_eligible st \<longrightarrow> \<not> snd (supervise_slot now alive st)"
    by (auto simp: supervise_slot_def Let_def)
qed

theorem backoff_doubles_and_caps_witness:
  "\<not> snd (supervise_slot 5 False (new_restart_state 6)) \<and> restart_backoff 3 = from_secs 8"
  using backoff_doubles_and_caps [of 3 5 "new_restart_state 6" False]
  by (simp add: new_restart_state_def from_secs_def)

end
