(* ===== verification/Alert_Queue.thy ===== *)
theory Alert_Queue
  imports Work_Queue Supervisor Avro_Header
begin

text \<open>
  The alert worker's main loop (\<open>src/src/alert/base.rs\<close>): an alert packet is moved from the input
  queue to a temp queue, processed, its candid handed to the enrichment queue, and only then
  removed from the temp queue; the scheduler puts what a dead worker left in the temp queue back
  on the input queue.  What processing an alert does is a function of the worker's own state;
  metrics and logging are left out, the waits are not modelled.  One turn of the loop is a
  function, the loop runs turns on fuel.
\<close>

datatype process_alert_status = Added i64 | Exists i64

datatype alert_worker_error =
    LoadConfigError string
  | Redis redis_error
  | GetAvroBytesError
  | WorkerConfigMissing survey

definition alert_temp_queue_name :: "string \<Rightarrow> string" where
  "alert_temp_queue_name input_queue_name = input_queue_name @ ''_temp''"

section \<open>Recovering the temp queue\<close>

fun recover_loop ::
  "'r redis \<Rightarrow> string \<Rightarrow> string \<Rightarrow> nat \<Rightarrow> nat \<Rightarrow> 'r \<Rightarrow> (alert_worker_error, nat) result \<times> 'r" where
  "recover_loop R temp inq 0 recovered con = (Inr recovered, con)"
| "recover_loop R temp inq (Suc n) recovered con =
     (case rpoplpush R temp inq con of
        (Inl e, con) \<Rightarrow> (Inl (Redis e), con)
      | (Inr None, con) \<Rightarrow> (Inr recovered, con)
      | (Inr (Some _), con) \<Rightarrow> recover_loop R temp inq n (recovered + 1) con)"

definition recover_temp_queue ::
  "'r redis \<Rightarrow> string \<Rightarrow> 'r \<Rightarrow> (alert_worker_error, nat) result \<times> 'r" where
  "recover_temp_queue R input_queue_name con =
     (let temp_queue_name = alert_temp_queue_name input_queue_name
      in case llen R temp_queue_name con of
           Inl e \<Rightarrow> (Inl (Redis e), con)
         | Inr pending \<Rightarrow> recover_loop R temp_queue_name input_queue_name pending 0 con)"

section \<open>One alert\<close>

definition retrieve_avro_bytes ::
  "'r redis \<Rightarrow> string \<Rightarrow> string \<Rightarrow> 'r \<Rightarrow> (alert_worker_error, u8 list option) result \<times> 'r" where
  "retrieve_avro_bytes R input_queue_name temp_queue_name con =
     (case retry_valkey (rpoplpush R input_queue_name temp_queue_name) con of
        (Inl e, con) \<Rightarrow> (Inl (Redis e), con)
      | (Inr None, con) \<Rightarrow> (Inr None, con)
      | (Inr (Some avro_bytes), con) \<Rightarrow>
          (if avro_bytes \<noteq> [] then Inr (Some avro_bytes) else Inl GetAvroBytesError, con))"

definition remove_from_temp_queue ::
  "'r redis \<Rightarrow> string \<Rightarrow> u8 list \<Rightarrow> 'r \<Rightarrow> (alert_worker_error, unit) result \<times> 'r" where
  "remove_from_temp_queue R temp_queue_name avro_bytes con =
     (case retry_valkey (lrem_one R temp_queue_name avro_bytes) con of
        (Inl e, con) \<Rightarrow> (Inl (Redis e), con)
      | (Inr _, con) \<Rightarrow> (Inr (), con))"

text \<open>\<open>candid_args\<close> writes a candid as the client does.\<close>

definition handle_process_result ::
  "'r redis \<Rightarrow> (i64 \<Rightarrow> payload) \<Rightarrow> string \<Rightarrow> string \<Rightarrow> u8 list \<Rightarrow>
   (alert_error, process_alert_status) result \<Rightarrow> 'r \<Rightarrow> (alert_worker_error, unit) result \<times> 'r" where
  "handle_process_result R candid_args temp_queue_name output_queue_name avro_bytes res con =
     (case res of
        Inr (Added candid) \<Rightarrow>
          (case retry_valkey (lpush R output_queue_name [candid_args candid]) con of
             (Inl e, con) \<Rightarrow> (Inl (Redis e), con)
           | (Inr _, con) \<Rightarrow> remove_from_temp_queue R temp_queue_name avro_bytes con)
      | Inr (Exists candid) \<Rightarrow> remove_from_temp_queue R temp_queue_name avro_bytes con
      | Inl error \<Rightarrow> (Inr (), con))"

section \<open>The loop\<close>

text \<open>The queues and interval of a worker, the answers of its command channel by the number of
  times it was polled, and what processing does.\<close>

record ('r, 's) alert_setup =
  server :: "'r redis"
  input_queue :: string
  output_queue :: string
  candid_args :: "i64 \<Rightarrow> payload"
  command_interval :: nat
  receiver :: "nat \<Rightarrow> try_recv"
  process_alert :: "u8 list \<Rightarrow> 's \<Rightarrow> (alert_error, process_alert_status) result \<times> 's"

record ('r, 's) alert_worker_state =
  connection :: 'r
  alert_processor :: 's
  command_check_countdown :: nat
  polls :: nat
  processed :: "(u8 list \<times> process_alert_status) list"

text \<open>\<open>processed\<close> records what was processed
  without an error.  \<open>usize\<close> subtraction wraps in a release build.\<close>

definition usize_pred :: "nat \<Rightarrow> nat" where
  "usize_pred n = (if n = 0 then 2 ^ 64 - 1 else n - 1)"

definition process_one ::
  "('r, 's) alert_setup \<Rightarrow> u8 list \<Rightarrow> ('r, 's) alert_worker_state \<Rightarrow>
   alert_worker_error loop_turn \<times> ('r, 's) alert_worker_state" where
  "process_one W avro_bytes st =
     (let (res, proc) = process_alert W avro_bytes (alert_processor st);
          done_ok = (case res of Inr status \<Rightarrow> [(avro_bytes, status)] | Inl _ \<Rightarrow> []);
          (hr, con) = handle_process_result (server W) (candid_args W)
            (alert_temp_queue_name (input_queue W)) (output_queue W) avro_bytes res (connection st);
          st = st\<lparr>alert_processor := proc, connection := con, processed := done_ok @ processed st\<rparr>
      in (case hr of Inl e \<Rightarrow> Finished (Inl e) | Inr _ \<Rightarrow> Go, st))"

definition alert_turn ::
  "('r, 's) alert_setup \<Rightarrow> ('r, 's) alert_worker_state \<Rightarrow>
   alert_worker_error loop_turn \<times> ('r, 's) alert_worker_state" where
  "alert_turn W st =
     (let due = command_check_countdown st = 0;
          polled = st\<lparr>polls := polls st + 1\<rparr>
      in if due \<and> should_terminate (receiver W (polls st)) then (Finished (Inr ()), polled)
         else
           let st = (if due then polled\<lparr>command_check_countdown := command_interval W\<rparr> else st);
               st = st\<lparr>command_check_countdown := usize_pred (command_check_countdown st)\<rparr>
           in case retrieve_avro_bytes (server W) (input_queue W)
                     (alert_temp_queue_name (input_queue W)) (connection st) of
                (Inr (Some avro_bytes), con) \<Rightarrow> process_one W avro_bytes (st\<lparr>connection := con\<rparr>)
              | (Inr None, con) \<Rightarrow> (Go, st\<lparr>connection := con, command_check_countdown := 0\<rparr>)
              | (Inl e, con) \<Rightarrow> (Go, st\<lparr>connection := con, command_check_countdown := 0\<rparr>))"

text \<open>The first \<open>n\<close> turns of the loop: its result once it has ended.\<close>

fun alert_loop ::
  "('r, 's) alert_setup \<Rightarrow> nat \<Rightarrow> ('r, 's) alert_worker_state \<Rightarrow>
   (alert_worker_error, unit) result option \<times> ('r, 's) alert_worker_state" where
  "alert_loop W 0 st = (None, st)"
| "alert_loop W (Suc n) st =
     (case alert_turn W st of
        (Finished r, st) \<Rightarrow> (Some r, st)
      | (Go, st) \<Rightarrow> alert_loop W n st)"

definition start_worker :: "('r, 's) alert_setup \<Rightarrow> 'r \<Rightarrow> 's \<Rightarrow> ('r, 's) alert_worker_state" where
  "start_worker W con proc = \<lparr>connection = con, alert_processor = proc,
     command_check_countdown = command_interval W, polls = 0, processed = []\<rparr>"

section \<open>No alert is lost\<close>

abbreviation temp_queue :: "('r, 's) alert_setup \<Rightarrow> string" where
  "temp_queue W \<equiv> alert_temp_queue_name (input_queue W)"

text \<open>The worker is done with a packet: it was processed, and if it was a new alert its candid is in
  the output queue.\<close>

definition handed_on ::
  "('r, 's) alert_setup \<Rightarrow> u8 list \<Rightarrow> (u8 list \<times> process_alert_status) list \<Rightarrow> lists \<Rightarrow> bool" where
  "handed_on W a done_ok m \<longleftrightarrow>
     (\<exists>status. (a, status) \<in> set done_ok \<and>
        (\<forall>c. status = Added c \<longrightarrow> candid_args W c \<in> set (m (output_queue W))))"

definition kept ::
  "('r, 's) alert_setup \<Rightarrow> u8 list \<Rightarrow> (u8 list \<times> process_alert_status) list \<Rightarrow> lists \<Rightarrow> bool" where
  "kept W a done_ok m \<longleftrightarrow>
     a \<in> set (m (input_queue W)) \<union> set (m (temp_queue W)) \<or> handed_on W a done_ok m"

lemma temp_queue_differs: "alert_temp_queue_name q \<noteq> q" "q \<noteq> alert_temp_queue_name q"
  by (simp_all add: alert_temp_queue_name_def)

lemma handed_on_mono:
  "handed_on W a done_ok m \<Longrightarrow> set (m (output_queue W)) \<subseteq> set (m' (output_queue W)) \<Longrightarrow>
   handed_on W a (new @ done_ok) m'"
  by (fastforce simp: handed_on_def)

lemma kept_more: "kept W a done_ok m \<Longrightarrow> kept W a (new @ done_ok) m"
  using handed_on_mono [of W a done_ok m m new] by (auto simp: kept_def)

locale alert_flow =
  fixes W :: "('r, 's) alert_setup"
  assumes store: "redis_store (server W)"
    and out_differs: "output_queue W \<noteq> input_queue W" "output_queue W \<noteq> temp_queue W"

sublocale alert_flow \<subseteq> redis_store "server W"
  by (rule store)

context alert_flow
begin

abbreviation now_lists :: "'r \<Rightarrow> lists" where
  "now_lists \<equiv> lists (server W)"

lemma kept_moved: "kept W a ans m \<Longrightarrow> kept W a ans (moved (input_queue W) (temp_queue W) m)"
  using moved_sets(1) [where m = m, OF temp_queue_differs(2), of "input_queue W"]
    moved_sets(2) [where m = m, OF temp_queue_differs(2) out_differs]
  unfolding kept_def handed_on_def by (simp only:)

lemma kept_pushed: "kept W a ans m \<Longrightarrow> kept W a ans (pushed (output_queue W) vs m)"
  using out_differs handed_on_mono [of W a ans m "pushed (output_queue W) vs m" "[]"]
  by (auto simp: kept_def)

lemma kept_removed:
  "kept W a ans m \<Longrightarrow> handed_on W b ans m \<Longrightarrow> kept W a ans (removed (temp_queue W) b m)"
  using out_differs handed_on_mono [of W _ ans m "removed (temp_queue W) b m" "[]"]
    temp_queue_differs(1) [of "input_queue W"]
  by (cases "a = b") (auto simp: kept_def in_set_remove1)

lemma retrieve_keeps:
  assumes "retrieve_avro_bytes (server W) (input_queue W) (temp_queue W) con = (r, con')"
    and "kept W a ans (now_lists con)"
  shows "kept W a ans (now_lists con')"
proof -
  obtain rr where
    "retry_valkey (rpoplpush (server W) (input_queue W) (temp_queue W)) con = (rr, con')"
    using assms(1) by (auto simp: retrieve_avro_bytes_def split: prod.splits sum.splits option.splits)
  then show ?thesis
    by (rule retry_applied(1) [where P = "kept W a ans" and f = "moved (input_queue W) (temp_queue W)"])
      (use rpoplpush_law kept_moved assms(2) in auto)
qed

lemma remove_keeps:
  assumes "remove_from_temp_queue (server W) (temp_queue W) b con = (r, con')"
    and "kept W a ans (now_lists con)" "handed_on W b ans (now_lists con)"
  shows "kept W a ans (now_lists con')"
proof -
  obtain rr where "retry_valkey (lrem_one (server W) (temp_queue W) b) con = (rr, con')"
    using assms(1) by (auto simp: remove_from_temp_queue_def split: prod.splits sum.splits)
  then have "kept W a ans (now_lists con') \<and> handed_on W b ans (now_lists con')"
  proof (rule retry_applied(1) [where P = "\<lambda>m. kept W a ans m \<and> handed_on W b ans m"
        and f = "removed (temp_queue W) b"])
    fix m assume "kept W a ans m \<and> handed_on W b ans m"
    then show "kept W a ans (removed (temp_queue W) b m) \<and>
        handed_on W b ans (removed (temp_queue W) b m)"
      using kept_removed out_differs handed_on_mono [of W b ans m "removed (temp_queue W) b m" "[]"]
      by auto
  qed (use lrem_law assms(2,3) in auto)
  then show ?thesis ..
qed

lemma handle_keeps:
  assumes h: "handle_process_result (server W) (candid_args W) (temp_queue W) (output_queue W) b res con
      = (r, con')"
    and k: "kept W a ans (now_lists con)" and ans: "\<And>status. res = Inr status \<Longrightarrow> (b, status) \<in> set ans"
  shows "kept W a ans (now_lists con')"
proof (cases res)
  case (Inl e)
  then show ?thesis
    using h k by (simp add: handle_process_result_def)
next
  case (Inr status)
  show ?thesis
  proof (cases status)
    case (Exists c)
    then have "handed_on W b ans (now_lists con)"
      using ans [OF Inr] by (auto simp: handed_on_def)
    then show ?thesis
      using h k remove_keeps by (simp add: handle_process_result_def Inr Exists)
  next
    case (Added c)
    obtain rr con1 where p: "retry_valkey (lpush (server W) (output_queue W) [candid_args W c]) con = (rr, con1)"
      by fastforce
    have k1: "kept W a ans (now_lists con1)"
      by (rule retry_applied(1) [OF p, where P = "kept W a ans" and f = "pushed (output_queue W) [candid_args W c]"])
        (use lpush_law kept_pushed k in auto)
    show ?thesis
    proof (cases rr)
      case (Inl e)
      then show ?thesis
        using h k1 p by (simp add: handle_process_result_def Inr Added)
    next
      case r: (Inr n)
      have "\<exists>m. True \<and> now_lists con1 = pushed (output_queue W) [candid_args W c] m"
        by (rule retry_applied(2) [OF p _ _ _ r, where P = "\<lambda>_. True"]) (use lpush_law in auto)
      then have "candid_args W c \<in> set (now_lists con1 (output_queue W))"
        by auto
      then have "handed_on W b ans (now_lists con1)"
        using ans [OF Inr] by (auto simp: handed_on_def Added)
      then show ?thesis
        using h k1 p r remove_keeps by (simp add: handle_process_result_def Inr Added)
    qed
  qed
qed

lemma turn_keeps:
  assumes t: "alert_turn W st = (q, st')" and k: "kept W a (processed st) (now_lists (connection st))"
  shows "kept W a (processed st') (now_lists (connection st'))"
proof (cases "command_check_countdown st = 0 \<and> should_terminate (receiver W (polls st))")
  case True
  then show ?thesis
    using t k by (auto simp: alert_turn_def)
next
  case False
  obtain r con where r: "retrieve_avro_bytes (server W) (input_queue W) (temp_queue W) (connection st) = (r, con)"
    by fastforce
  have k1: "kept W a (processed st) (now_lists con)"
    using retrieve_keeps [OF r k] .
  show ?thesis
  proof (cases "\<exists>b. r = Inr (Some b)")
    case True
    then obtain b st1 where p: "process_one W b st1 = (q, st')" "connection st1 = con" "processed st1 = processed st"
      using t False r unfolding alert_turn_def Let_def by (auto split: if_splits)
    obtain res proc where res: "process_alert W b (alert_processor st1) = (res, proc)" by fastforce
    let ?new = "case res of Inr status \<Rightarrow> [(b, status)] | Inl _ \<Rightarrow> []"
    obtain hr con2 where h: "handle_process_result (server W) (candid_args W) (temp_queue W)
        (output_queue W) b res con = (hr, con2)" by fastforce
    have "kept W a (?new @ processed st) (now_lists con2)"
      by (rule handle_keeps [OF h kept_more [OF k1]]) simp
    then show ?thesis
      using p h res by (auto simp: process_one_def)
  next
    case no: False
    then have "connection st' = con \<and> processed st' = processed st"
      using t False r unfolding alert_turn_def Let_def
      by (auto split: if_splits sum.splits option.splits)
    then show ?thesis
      using k1 by simp
  qed
qed

lemma loop_keeps:
  "alert_loop W n st = (r, st') \<Longrightarrow> kept W a (processed st) (now_lists (connection st)) \<Longrightarrow>
   kept W a (processed st') (now_lists (connection st'))"
proof (induction n arbitrary: st)
  case (Suc n)
  obtain q st1 where t: "alert_turn W st = (q, st1)" by fastforce
  show ?case
    using Suc.IH [of st1] Suc.prems(1) turn_keeps [OF t Suc.prems(2)] t
    by (auto split: loop_turn.splits)
qed simp

end


text \<open>A setup to evaluate on: two packets, one of them refused by processing, on lists in memory.\<close>

definition demo_setup :: "(lists, unit) alert_setup" where
  "demo_setup = \<lparr>server = memory_redis, input_queue = ''in'', output_queue = ''out'',
     candid_args = (\<lambda>c. [ucast c]), command_interval = 100, receiver = (\<lambda>_. Empty),
     process_alert = (\<lambda>bs s. (if bs = [1] then Inr (Added 7) else Inl AlertMagicBytesError, s))\<rparr>"

definition demo_lists :: lists where
  "demo_lists = (\<lambda>_. [])(''in'' := [[1], [2]])"

lemma demo_names:
  "server demo_setup = memory_redis" "output_queue demo_setup \<noteq> input_queue demo_setup"
  "output_queue demo_setup \<noteq> alert_temp_queue_name (input_queue demo_setup)"
  by (simp_all add: demo_setup_def alert_temp_queue_name_def)

interpretation demo: alert_flow demo_setup
  by (rule alert_flow.intro) (simp_all only: demo_names memory.redis_store_axioms not_False_eq_True)

text \<open>
  No alert is lost by an alert worker: whatever commands to the queues fail, before or after
  they took effect, after any number of turns of the main loop, a packet that was queued is still
  in the input queue or in the temp queue, or it was processed without an error and, if it was
  new, its candid is in the output queue.
\<close>

theorem no_alert_is_lost:
  assumes "redis_store (server W)" "output_queue W \<noteq> input_queue W"
    and "output_queue W \<noteq> alert_temp_queue_name (input_queue W)"
    and "alert_loop W n st = (r, st')"
    and "a \<in> set (lists (server W) (connection st) (input_queue W)) \<union>
             set (lists (server W) (connection st) (alert_temp_queue_name (input_queue W)))"
  shows "a \<in> set (lists (server W) (connection st') (input_queue W)) \<union>
             set (lists (server W) (connection st') (alert_temp_queue_name (input_queue W))) \<or>
    (\<exists>status. (a, status) \<in> set (processed st') \<and>
      (\<forall>c. status = Added c \<longrightarrow>
        candid_args W c \<in> set (lists (server W) (connection st') (output_queue W))))"
proof -
  have flow: "alert_flow W"
    by (rule alert_flow.intro) (use assms(1-3) in simp_all)
  have "kept W a (processed st) (lists (server W) (connection st))"
    using assms(5) by (simp add: kept_def)
  from alert_flow.loop_keeps [OF flow assms(4) this] show ?thesis
    by (simp only: kept_def handed_on_def)
qed

theorem no_alert_is_lost_witness:
  "let st = start_worker demo_setup demo_lists (); st' = snd (alert_loop demo_setup 2 st)
   in [1] \<in> set (lists (server demo_setup) (connection st') (input_queue demo_setup)) \<union>
         set (lists (server demo_setup) (connection st') (alert_temp_queue_name (input_queue demo_setup))) \<or>
      (\<exists>status. ([1], status) \<in> set (processed st') \<and>
        (\<forall>c. status = Added c \<longrightarrow>
          candid_args demo_setup c \<in> set (lists (server demo_setup) (connection st') (output_queue demo_setup))))"
  unfolding Let_def
  by (rule no_alert_is_lost [OF _ demo_names(2,3) prod.collapse [symmetric]])
    (simp_all only: demo_names memory.redis_store_axioms,
      simp add: memory_redis_def start_worker_def demo_lists_def demo_setup_def)

lemma recover_loop_done:
  assumes "redis_store R" "temp \<noteq> inq"
  shows "recover_loop R temp inq n k con = (Inr c, con') \<Longrightarrow> n \<le> length (lists R con temp) \<Longrightarrow>
    c = k + n \<and>
    lists R con' temp = take (length (lists R con temp) - n) (lists R con temp) \<and>
    lists R con' inq = drop (length (lists R con temp) - n) (lists R con temp) @ lists R con inq"
proof (induction n arbitrary: k con)
  case (Suc n)
  let ?t = "lists R con temp"
  have ne: "?t \<noteq> []"
    using Suc.prems(2) by auto
  obtain rv con1 where m: "rpoplpush R temp inq con = (rv, con1)" by fastforce
  from redis_store.rpoplpush_law [OF assms(1) m] Suc.prems(1) m ne have
    rv: "rv = Inr (Some (last ?t))" and l: "lists R con1 = moved temp inq (lists R con)"
    by (auto simp: applied_def split: sum.splits)
  then have t1: "lists R con1 temp = butlast ?t" "lists R con1 inq = last ?t # lists R con inq"
    using ne assms(2) by (simp_all add: moved_def Let_def)
  have rec: "recover_loop R temp inq n (k + 1) con1 = (Inr c, con')" "n \<le> length (lists R con1 temp)"
    using Suc.prems m rv t1 by simp_all
  obtain xs x where t: "?t = xs @ [x]"
    using ne by (cases ?t rule: rev_exhaust) auto
  then show ?case
    using Suc.IH [OF rec] t1 by simp
qed simp

lemma recovery_moves_all:
  assumes "redis_store R" "recover_temp_queue R inq con = (Inr n, con')"
  shows "n = length (lists R con (alert_temp_queue_name inq)) \<and>
    lists R con' (alert_temp_queue_name inq) = [] \<and>
    lists R con' inq = lists R con (alert_temp_queue_name inq) @ lists R con inq"
proof -
  let ?temp = "alert_temp_queue_name inq"
  from assms(2) obtain p where p: "llen R ?temp con = Inr p" "recover_loop R ?temp inq p 0 con = (Inr n, con')"
    by (auto simp: recover_temp_queue_def Let_def split: sum.splits)
  then have "p = length (lists R con ?temp)"
    using redis_store.llen_law [OF assms(1)] by blast
  then show ?thesis
    using recover_loop_done [OF assms(1) temp_queue_differs(1) p(2)] by simp
qed

text \<open>
  Recovery after a crash is complete: when it answers, it has moved every packet of the temp
  queue, each once and in order, to the end of the input queue that is served last, and reports
  how many; the temp queue is empty.
\<close>

theorem recovery_is_complete:
  assumes "redis_store R" "recover_temp_queue R inq con = (Inr n, con')"
  shows "n = length (lists R con (alert_temp_queue_name inq)) \<and>
    lists R con' (alert_temp_queue_name inq) = [] \<and>
    lists R con' inq = lists R con (alert_temp_queue_name inq) @ lists R con inq"
  by (rule recovery_moves_all [OF assms])

theorem recovery_is_complete_witness:
  "let m = (\<lambda>_. [])(''q_temp'' := [[1], [2]], ''q'' := [[3]]); m' = snd (recover_temp_queue memory_redis ''q'' m)
   in (2 :: nat) = length (lists memory_redis m (alert_temp_queue_name ''q'')) \<and>
      lists memory_redis m' (alert_temp_queue_name ''q'') = [] \<and>
      lists memory_redis m' ''q'' = lists memory_redis m (alert_temp_queue_name ''q'') @ lists memory_redis m ''q''"
  unfolding Let_def
  by (rule recovery_is_complete [OF memory.redis_store_axioms])
    (simp add: recover_temp_queue_def memory_redis_def alert_temp_queue_name_def moved_def
      numeral_2_eq_2)

text \<open>Neither recovering nor finishing with a known alert puts anything on the output queue.\<close>

lemma moved_elsewhere: "k \<noteq> src \<Longrightarrow> k \<noteq> dst \<Longrightarrow> moved src dst m k = m k"
  by (simp add: moved_def Let_def)

lemma recover_loop_elsewhere:
  assumes "redis_store R" "k \<noteq> temp" "k \<noteq> inq"
  shows "recover_loop R temp inq n c con = (r, con') \<Longrightarrow> lists R con' k = lists R con k"
proof (induction n arbitrary: c con)
  case (Suc n)
  obtain rv con1 where m: "rpoplpush R temp inq con = (rv, con1)" by fastforce
  from redis_store.rpoplpush_law [OF assms(1) m] have "lists R con1 k = lists R con k"
    using assms(2,3) moved_elsewhere by (auto simp: applied_def)
  then show ?case
    using Suc m by (auto split: sum.splits option.splits)
qed simp

lemma recover_elsewhere:
  "redis_store R \<Longrightarrow> k \<noteq> alert_temp_queue_name inq \<Longrightarrow> k \<noteq> inq \<Longrightarrow>
   recover_temp_queue R inq con = (r, con') \<Longrightarrow> lists R con' k = lists R con k"
  by (auto simp: recover_temp_queue_def Let_def split: sum.splits dest: recover_loop_elsewhere)

lemma remove_elsewhere:
  assumes "redis_store R" "k \<noteq> temp" "remove_from_temp_queue R temp a con = (r, con')"
  shows "lists R con' k = lists R con k"
proof -
  obtain rr where "retry_valkey (lrem_one R temp a) con = (rr, con')"
    using assms(3) by (auto simp: remove_from_temp_queue_def split: prod.splits sum.splits)
  then show ?thesis
    by (rule retry_applied(1) [where P = "\<lambda>m. m k = lists R con k" and f = "removed temp a"])
      (use redis_store.lrem_law [OF assms(1)] assms(2) in auto)
qed

context alert_flow
begin

text \<open>What is not processed as new is not handed on.\<close>

lemma one_pushes_not:
  assumes p: "process_one W b st = (q, st')" and c: "inj (candid_args W)"
    "fst (process_alert W b (alert_processor st)) \<noteq> Inr (Added c)"
    and out: "candid_args W c \<notin> set (now_lists (connection st) (output_queue W))"
  shows "candid_args W c \<notin> set (now_lists (connection st') (output_queue W))"
proof -
  obtain res proc where res: "process_alert W b (alert_processor st) = (res, proc)" by fastforce
  obtain hr con where h: "handle_process_result (server W) (candid_args W) (temp_queue W) (output_queue W) b res (connection st)
      = (hr, con)" by fastforce
  have st': "connection st' = con"
    using p res h by (auto simp: process_one_def Let_def)
  show ?thesis
  proof (cases "\<exists>c'. res = Inr (Added c')")
    case True
    then obtain c' where c': "res = Inr (Added c')" "c' \<noteq> c" using c(2) res by auto
    obtain rr con1 where push: "retry_valkey (lpush (server W) (output_queue W) [candid_args W c']) (connection st) = (rr, con1)"
      by fastforce
    have "candid_args W c \<notin> set (now_lists con1 (output_queue W))"
      by (rule retry_applied(1) [OF push, where P = "\<lambda>m. candid_args W c \<notin> set (m (output_queue W))"
            and f = "pushed (output_queue W) [candid_args W c']"])
        (use lpush_law out c(1) c'(2) in \<open>auto dest: injD\<close>)
    then show ?thesis
      using h push remove_elsewhere [OF store out_differs(2)] unfolding st' c'(1)
      by (auto simp: handle_process_result_def split: sum.splits)
  next
    case False
    then show ?thesis
      using h out remove_elsewhere [OF store out_differs(2)] unfolding st'
      by (cases res) (auto simp: handle_process_result_def split: process_alert_status.splits)
  qed
qed

lemma retrieve_elsewhere:
  assumes "retrieve_avro_bytes (server W) (input_queue W) (temp_queue W) con = (r, con')"
  shows "now_lists con' (output_queue W) = now_lists con (output_queue W)"
proof -
  obtain rr where
    "retry_valkey (rpoplpush (server W) (input_queue W) (temp_queue W)) con = (rr, con')"
    using assms by (auto simp: retrieve_avro_bytes_def split: prod.splits sum.splits option.splits)
  then show ?thesis
    by (rule retry_applied(1) [where P = "\<lambda>m. m (output_queue W) = now_lists con (output_queue W)"
          and f = "moved (input_queue W) (temp_queue W)"])
      (use rpoplpush_law moved_elsewhere out_differs in auto)
qed

lemma loop_pushes_not:
  assumes sound: "\<And>b p r p'. process_alert W b p = (r, p') \<Longrightarrow> sound p \<Longrightarrow> sound p' \<and> r \<noteq> Inr (Added c)"
    and c: "inj (candid_args W)"
  shows "alert_loop W n st = (q, st') \<Longrightarrow> sound (alert_processor st) \<Longrightarrow>
    candid_args W c \<notin> set (now_lists (connection st) (output_queue W)) \<Longrightarrow>
    candid_args W c \<notin> set (now_lists (connection st') (output_queue W))"
proof (induction n arbitrary: st)
  case (Suc n)
  let ?K = "\<lambda>x. sound (alert_processor x) \<and> candid_args W c \<notin> set (now_lists (connection x) (output_queue W))"
  obtain t st1 where t: "alert_turn W st = (t, st1)" by fastforce
  have one: "?K y" if "process_one W b x = (t', y)" "?K x" for b x t' y
  proof -
    obtain res proc where res: "process_alert W b (alert_processor x) = (res, proc)" by fastforce
    with sound that(2) have "res \<noteq> Inr (Added c)" "sound proc" by blast+
    moreover have "alert_processor y = proc"
      using that(1) res by (auto simp: process_one_def Let_def split: prod.splits)
    ultimately show ?thesis
      using one_pushes_not [OF that(1) c, of c] res that(2) by simp
  qed
  have "?K st1"
  proof (cases "command_check_countdown st = 0 \<and> should_terminate (receiver W (polls st))")
    case True
    then show ?thesis
      using t Suc.prems by (auto simp: alert_turn_def)
  next
    case False
    obtain r con where r: "retrieve_avro_bytes (server W) (input_queue W) (temp_queue W) (connection st) = (r, con)"
      by fastforce
    from retrieve_elsewhere [OF r] Suc.prems(3)
    have out: "candid_args W c \<notin> set (now_lists con (output_queue W))" by simp
    show ?thesis
    proof (cases "\<exists>b. r = Inr (Some b)")
      case True
      then obtain b x where "process_one W b x = (t, st1)" "connection x = con" "alert_processor x = alert_processor st"
        using t False r unfolding alert_turn_def Let_def by (auto split: if_splits)
      with one out Suc.prems(2) show ?thesis by auto
    next
      case none: False
      then have "connection st1 = con" "alert_processor st1 = alert_processor st"
        using t False r unfolding alert_turn_def Let_def by (auto split: if_splits sum.splits option.splits)
      with out Suc.prems(2) show ?thesis by simp
    qed
  qed
  then show ?case
    using Suc.IH [of st1] Suc.prems(1,3) t by (auto split: loop_turn.splits)
qed simp

text \<open>A new alert whose candid could not be handed on stays in the temp queue.\<close>

lemma failed_push_keeps_packet:
  assumes t: "alert_turn W st = (Finished (Inl e), st')" and a: "processed st' = (a, Added c) # processed st"
    and out: "candid_args W c \<notin> set (now_lists (connection st') (output_queue W))"
  shows "a \<in> set (now_lists (connection st') (temp_queue W))"
    and "\<exists>p. p = alert_processor st \<and> process_alert W a p = (Inr (Added c), alert_processor st')"
proof -
  obtain r con where r: "retrieve_avro_bytes (server W) (input_queue W) (temp_queue W) (connection st) = (r, con)"
    by fastforce
  obtain b x where b: "r = Inr (Some b)" and p: "process_one W b x = (Finished (Inl e), st')" "connection x = con"
    "processed x = processed st" "alert_processor x = alert_processor st"
    using t r unfolding alert_turn_def Let_def by (auto split: if_splits sum.splits option.splits)
  obtain res proc where res: "process_alert W b (alert_processor st) = (res, proc)" by fastforce
  have ab: "b = a" "res = Inr (Added c)" "proc = alert_processor st'"
    using p a res by (auto simp: process_one_def Let_def split: prod.splits sum.splits)
  have st': "connection st' = snd (handle_process_result (server W) (candid_args W) (temp_queue W) (output_queue W) a
      (Inr (Added c)) con)"
    using p(1,2,4) res ab(1,2) by (auto simp: process_one_def Let_def case_prod_beta)
  show "\<exists>p. p = alert_processor st \<and> process_alert W a p = (Inr (Added c), alert_processor st')"
    using res ab by simp
  have pop: "retry_valkey (rpoplpush (server W) (input_queue W) (temp_queue W)) (connection st) = (Inr (Some a), con)"
    using r b ab(1) by (auto simp: retrieve_avro_bytes_def split: prod.splits sum.splits option.splits if_splits)
  from retry_valkey_last [OF pop, of "\<lambda>_. True"] obtain con0 where
    "rpoplpush (server W) (input_queue W) (temp_queue W) con0 = (Inr (Some a), con)" by blast
  from rpoplpush_law [OF this] have temp: "a \<in> set (now_lists con (temp_queue W))"
    by (auto simp: applied_def moved_def Let_def split: if_splits)
  obtain rr con1 where push: "retry_valkey (lpush (server W) (output_queue W) [candid_args W c]) con = (rr, con1)"
    by fastforce
  have kept: "a \<in> set (now_lists con1 (temp_queue W))"
    by (rule retry_applied(1) [OF push, where P = "\<lambda>m. a \<in> set (m (temp_queue W))"
          and f = "pushed (output_queue W) [candid_args W c]"])
      (use lpush_law temp out_differs(2) in auto)
  show "a \<in> set (now_lists (connection st') (temp_queue W))"
  proof (cases rr)
    case (Inl f)
    then have "connection st' = con1"
      using push by (simp add: st' handle_process_result_def)
    with kept show ?thesis by simp
  next
    case (Inr m)
    have "candid_args W c \<in> set (now_lists con1 (output_queue W))"
      using retry_applied(2) [OF push, where P = "\<lambda>_. True" and f = "pushed (output_queue W) [candid_args W c]"]
        lpush_law Inr by fastforce
    moreover obtain hr con2 where "remove_from_temp_queue (server W) (temp_queue W) a con1 = (hr, con2)" "connection st' = con2"
      using push Inr
      by (cases "remove_from_temp_queue (server W) (temp_queue W) a con1")
        (simp add: st' handle_process_result_def)
    ultimately show ?thesis
      using out remove_elsewhere [OF store out_differs(2)] by metis
  qed
qed

end

text \<open>A store whose pushes never get through.\<close>

definition refused_command :: redis_error where
  "refused_command = \<lparr>io_error = False, connection_dropped = False, connection_refusal = False,
     timed_out = False, cluster_error = False\<rparr>"

definition deaf_redis :: "lists redis" where
  "deaf_redis = memory_redis\<lparr>lpush := \<lambda>key vs m. (Inl refused_command, m)\<rparr>"

interpretation deaf: redis_store deaf_redis
  by unfold_locales (auto simp: deaf_redis_def memory_redis_def applied_def)

text \<open>The worker stops: each turn counts down, or resets to check at once.\<close>

lemma loop_terminates:
  "(\<And>k. should_terminate (receiver W k)) \<Longrightarrow> command_check_countdown st < n \<Longrightarrow>
   fst (alert_loop W n st) \<noteq> None"
proof (induction n arbitrary: st)
  case (Suc n)
  obtain q st1 where t: "alert_turn W st = (q, st1)" by fastforce
  show ?case
  proof (cases q)
    case (Finished r)
    then show ?thesis
      using t by simp
  next
    case Go
    have c: "command_check_countdown st \<noteq> 0"
    proof
      assume "command_check_countdown st = 0"
      then show False
        using t Go Suc.prems(1) by (simp add: alert_turn_def)
    qed
    then have "command_check_countdown st1 \<le> command_check_countdown st - 1"
      using t Go unfolding alert_turn_def process_one_def usize_pred_def Let_def
      by (auto split: prod.splits sum.splits option.splits)
    then have "command_check_countdown st1 < n"
      using c Suc.prems(2) by linarith
    then show ?thesis
      using Suc.IH [OF Suc.prems(1)] t Go by simp
  qed
qed simp

end
