(* ===== verification/Cutout_Codec.thy ===== *)
theory Cutout_Codec
  imports Prelude
begin

text \<open>
  The three image stamps of an alert as one value of the cache (\<open>src/src/utils/cutouts.rs\<close>): each
  stamp with its length in eight little-endian bytes in front.  Reading takes its lengths from the
  stored bytes, so they may be anything; a range that is not inside the bytes reads as nothing.
\<close>

record alert_cutout =
  candid :: i64
  cutout_science :: "u8 list"
  cutout_template :: "u8 list"
  cutout_difference :: "u8 list"

section \<open>Little-endian lengths\<close>

text \<open>\<open>u64::to_le_bytes\<close> and \<open>from_le_bytes\<close>.\<close>

fun le_bytes :: "nat \<Rightarrow> u64 \<Rightarrow> u8 list" where
  "le_bytes 0 w = []"
| "le_bytes (Suc n) w = ucast w # le_bytes n (w div 256)"

fun le_value :: "u8 list \<Rightarrow> u64" where
  "le_value [] = 0"
| "le_value (b # bs) = ucast b + 256 * le_value bs"

definition to_le_bytes :: "u64 \<Rightarrow> u8 list" where "to_le_bytes w = le_bytes 8 w"

lemma length_le_bytes [simp]: "length (le_bytes n w) = n"
  by (induction n arbitrary: w) auto

lemma length_to_le_bytes [simp]: "length (to_le_bytes w) = 8"
  by (simp add: to_le_bytes_def)

lemma ucast_low_byte: "ucast (ucast w :: u8) = (w mod 256 :: u64)"
  by (rule word_unat_eq_iff [THEN iffD2]) (simp add: unat_mod_distrib unsigned_ucast_eq take_bit_eq_mod)

lemma le_value_bytes: "unat w < 256 ^ n \<Longrightarrow> le_value (le_bytes n w) = w"
proof (induction n arbitrary: w)
  case 0
  then show ?case by (simp add: unat_eq_zero)
next
  case (Suc n)
  have "unat (w div 256) < 256 ^ n"
    using Suc.prems by (simp add: unat_div less_mult_imp_div_less mult.commute)
  from Suc.IH [OF this] show ?case
    by (simp add: ucast_low_byte mod_mult_div_eq)
qed

lemma le_round_trip: "le_value (to_le_bytes w) = w"
  using le_value_bytes [of w 8] unsigned_less [of w, where 'a = nat] by (simp add: to_le_bytes_def)

section \<open>Packing\<close>

text \<open>\<open>buf.get(a..b)\<close>, with \<open>usize\<close> bounds that may have wrapped.\<close>

definition slice_get :: "u8 list \<Rightarrow> u64 \<Rightarrow> u64 \<Rightarrow> u8 list option" where
  "slice_get buf a b =
     (if a \<le> b \<and> unat b \<le> length buf then Some (take (unat b - unat a) (drop (unat a) buf)) else None)"

definition pack_stamp :: "u8 list \<Rightarrow> u8 list" where
  "pack_stamp s = to_le_bytes (of_nat (length s)) @ s"

definition pack :: "alert_cutout \<Rightarrow> u8 list" where
  "pack cutout = pack_stamp (cutout_science cutout) @ pack_stamp (cutout_template cutout)
     @ pack_stamp (cutout_difference cutout)"

text \<open>One stamp at \<open>pos\<close>, and where it ends.\<close>

definition unpack_stamp :: "u8 list \<Rightarrow> u64 \<Rightarrow> (u8 list \<times> u64) option" where
  "unpack_stamp buf pos =
     Option.bind (slice_get buf pos (pos + 8)) (\<lambda>l.
     let n = le_value l; pos = pos + 8
     in Option.bind (slice_get buf pos (pos + n)) (\<lambda>s. Some (s, pos + n)))"

definition unpack :: "i64 \<Rightarrow> u8 list \<Rightarrow> alert_cutout option" where
  "unpack c buf =
     Option.bind (unpack_stamp buf 0) (\<lambda>(s, pos).
     Option.bind (unpack_stamp buf pos) (\<lambda>(t, pos).
     Option.bind (unpack_stamp buf pos) (\<lambda>(d, _).
     Some \<lparr>candid = c, cutout_science = s, cutout_template = t, cutout_difference = d\<rparr>)))"

lemma slice_get_here:
  "length a + length b + length c < 2 ^ 64 \<Longrightarrow> pos = of_nat (length a) \<Longrightarrow> end_pos = of_nat (length a + length b) \<Longrightarrow>
   slice_get (a @ b @ c) pos end_pos = Some b"
  by (simp add: slice_get_def word_le_nat_alt unsigned_of_nat take_bit_nat_eq_self del: of_nat_add)

lemma unpack_stamp_here:
  assumes "length a + length (pack_stamp s) + length c < 2 ^ 64"
  shows "unpack_stamp (a @ pack_stamp s @ c) (of_nat (length a)) =
    Some (s, of_nat (length a + length (pack_stamp s)))"
proof -
  let ?l = "to_le_bytes (of_nat (length s))"
  have "slice_get (a @ ?l @ s @ c) (of_nat (length a)) (of_nat (length a) + 8) = Some ?l"
    by (rule slice_get_here) (use assms in \<open>simp_all add: pack_stamp_def\<close>)
  moreover have "slice_get ((a @ ?l) @ s @ c) (of_nat (length a) + 8) (of_nat (length a) + 8 + of_nat (length s)) = Some s"
    by (rule slice_get_here) (use assms in \<open>simp_all add: pack_stamp_def\<close>)
  ultimately show ?thesis
    by (simp add: unpack_stamp_def pack_stamp_def le_round_trip Let_def add.assoc)
qed

lemma unpack_pack:
  assumes "length (pack cutout) < 2 ^ 64"
  shows "unpack (candid cutout) (pack cutout) = Some cutout"
proof -
  let ?s = "pack_stamp (cutout_science cutout)" and ?t = "pack_stamp (cutout_template cutout)"
    and ?d = "pack_stamp (cutout_difference cutout)"
  have len: "length ?s + length ?t + length ?d < 2 ^ 64"
    using assms by (simp add: pack_def)
  have "unpack_stamp ([] @ ?s @ ?t @ ?d) (of_nat (length ([] :: u8 list))) = Some (cutout_science cutout, of_nat (length ?s))"
    by (subst unpack_stamp_here) (use len in simp_all)
  moreover have "unpack_stamp (?s @ ?t @ ?d) (of_nat (length ?s)) = Some (cutout_template cutout, of_nat (length ?s + length ?t))"
    by (rule unpack_stamp_here) (use len in simp)
  moreover have "unpack_stamp ((?s @ ?t) @ ?d @ []) (of_nat (length (?s @ ?t))) =
      Some (cutout_difference cutout, of_nat (length (?s @ ?t) + length ?d))"
    by (rule unpack_stamp_here) (use len in simp)
  ultimately show ?thesis
    by (simp add: unpack_def pack_def)
qed

text \<open>
  C26: Cutouts read back from the cache are the ones that were packed, for stamps of any length
  that fits into memory.
\<close>

theorem cutouts_unpack:
  assumes "length (cutout_science cutout) + length (cutout_template cutout) + length (cutout_difference cutout) < 2 ^ 64 - 24"
  shows "unpack (candid cutout) (pack cutout) = Some cutout"
  by (rule unpack_pack) (use assms in \<open>simp add: pack_def pack_stamp_def\<close>)

theorem cutouts_unpack_witness:
  "unpack 7 (pack \<lparr>candid = 7, cutout_science = [1, 2], cutout_template = [], cutout_difference = [3]\<rparr>) =
    Some \<lparr>candid = 7, cutout_science = [1, 2], cutout_template = [], cutout_difference = [3]\<rparr>"
  using cutouts_unpack [of "\<lparr>candid = 7, cutout_science = [1, 2], cutout_template = [], cutout_difference = [3]\<rparr>"]
  by simp

end
