(* ===== verification/Cutouts.thy ===== *)
theory Cutouts
  imports Cutout_Codec Retry Doc_Store Supervisor "HOL-Library.AList" "HOL-Library.Multiset"
begin

text \<open>
  Where the cutouts of alerts are kept (\<open>src/src/utils/cutouts.rs\<close>): as objects of a bucket, with a
  cache in front, or as documents of a collection.  The object store, the cache server, the JSON
  and compression codecs and the order in which concurrent fetches end are parameters; the locale
  \<open>cutout_world\<close> states what is relied on.  Entries of the cache may vanish at any time.
\<close>

datatype cutout_storage_error =
    BucketListFailed
  | CutoutInsertFailed
  | CutoutAlreadyExists i64
  | CutoutRetrieveFailed
  | CutoutDeleteFailed
  | BucketCreateFailed
  | JsonError string
  | CutoutCompressFailed
  | CutoutDecompressFailed
  | CutoutsNotFound

section \<open>The services\<close>

datatype object_error = NoSuchKey | Object_Failure

record 's object_store =
  objects :: "'s \<Rightarrow> string \<Rightarrow> u8 list option"
  put_object :: "string \<Rightarrow> u8 list \<Rightarrow> 's \<Rightarrow> (object_error, unit) result \<times> 's"
  get_object :: "string \<Rightarrow> 's \<Rightarrow> (object_error, u8 list) result"
  delete_object :: "string \<Rightarrow> 's \<Rightarrow> (object_error, unit) result \<times> 's"

record 'r cache_server =
  entries :: "'r \<Rightarrow> string \<Rightarrow> u8 list option"
  cache_set_ex :: "string \<Rightarrow> u8 list \<Rightarrow> nat \<Rightarrow> 'r \<Rightarrow> (redis_error, unit) result \<times> 'r"
  cache_get :: "string \<Rightarrow> 'r \<Rightarrow> (redis_error, u8 list option) result \<times> 'r"
  cache_mget :: "string list \<Rightarrow> 'r \<Rightarrow> (redis_error, u8 list option list) result \<times> 'r"
  cache_set_many :: "(string \<times> u8 list) list \<Rightarrow> nat \<Rightarrow> 'r \<Rightarrow> (redis_error, unit) result \<times> 'r"
  cache_del :: "string list \<Rightarrow> 'r \<Rightarrow> (redis_error, unit) result \<times> 'r"

text \<open>\<open>to_json\<close> and \<open>from_json\<close> write and read an \<open>S3AlertCutout\<close>; \<open>compressor\<close> and \<open>decompressor\<close> are zstd's.\<close>

record ('s, 'r) cutout_services =
  store :: "'s object_store"
  cache :: "'r cache_server"
  to_json :: "alert_cutout \<Rightarrow> (string, u8 list) result"
  from_json :: "u8 list \<Rightarrow> (string, alert_cutout) result"
  compressor :: "u8 list \<Rightarrow> u8 list option"
  decompressor :: "u8 list \<Rightarrow> u8 list option"
  arrivals :: "i64 list \<Rightarrow> i64 list"

record s3_config =
  object_prefix :: string
  cache_prefix :: string
  ttl_seconds :: nat
  stamps_compressed :: bool

record ('s, 'r) s3_state =
  bucket :: 's
  cached :: 'r

section \<open>Compression\<close>

definition compress_stamp :: "('s, 'r) cutout_services \<Rightarrow> u8 list \<Rightarrow> (cutout_storage_error, u8 list) result" where
  "compress_stamp V data = ok_or CutoutCompressFailed (compressor V data)"

definition decompress_stamp :: "('s, 'r) cutout_services \<Rightarrow> u8 list \<Rightarrow> (cutout_storage_error, u8 list) result" where
  "decompress_stamp V data = ok_or CutoutDecompressFailed (decompressor V data)"

definition each_stamp ::
  "(u8 list \<Rightarrow> (cutout_storage_error, u8 list) result) \<Rightarrow> alert_cutout \<Rightarrow> (cutout_storage_error, alert_cutout) result"
where
  "each_stamp f cutout =
     and_then (f (cutout_science cutout)) (\<lambda>s.
     and_then (f (cutout_template cutout)) (\<lambda>t.
     and_then (f (cutout_difference cutout)) (\<lambda>d.
     Inr \<lparr>candid = candid cutout, cutout_science = s, cutout_template = t, cutout_difference = d\<rparr>)))"

definition compress_stamps :: "('s, 'r) cutout_services \<Rightarrow> alert_cutout \<Rightarrow> (cutout_storage_error, alert_cutout) result" where
  "compress_stamps V = each_stamp (compress_stamp V)"

definition decompress_stamps :: "('s, 'r) cutout_services \<Rightarrow> alert_cutout \<Rightarrow> (cutout_storage_error, alert_cutout) result" where
  "decompress_stamps V = each_stamp (decompress_stamp V)"

section \<open>The cache\<close>

text \<open>A command of the cache that fails is only logged.\<close>

definition cache_key :: "s3_config \<Rightarrow> i64 \<Rightarrow> string" where
  "cache_key C c = cache_prefix C @ '':cutout:'' @ int_text (sint c)"

definition cache_put :: "('s, 'r) cutout_services \<Rightarrow> s3_config \<Rightarrow> alert_cutout \<Rightarrow> 'r \<Rightarrow> 'r" where
  "cache_put V C cutout r = snd (cache_set_ex (cache V) (cache_key C (candid cutout)) (pack cutout) (ttl_seconds C) r)"

definition cache_lookup ::
  "('s, 'r) cutout_services \<Rightarrow> s3_config \<Rightarrow> i64 \<Rightarrow> 'r \<Rightarrow> alert_cutout option \<times> 'r" where
  "cache_lookup V C c r =
     (case cache_get (cache V) (cache_key C c) r of
        (Inr b, r) \<Rightarrow> (Option.bind b (unpack c), r)
      | (Inl _, r) \<Rightarrow> (None, r))"

definition cache_lookup_many ::
  "('s, 'r) cutout_services \<Rightarrow> s3_config \<Rightarrow> i64 list \<Rightarrow> 'r \<Rightarrow> (i64 \<times> alert_cutout) list \<times> 'r" where
  "cache_lookup_many V C candids r =
     (if candids = [] then ([], r)
      else case cache_mget (cache V) (map (cache_key C) candids) r of
             (Inl _, r) \<Rightarrow> ([], r)
           | (Inr values, r) \<Rightarrow>
               (fold (\<lambda>(c, cutout). AList.update c cutout)
                  (List.map_filter (\<lambda>(c, b). Option.bind b (\<lambda>b. map_option (Pair c) (unpack c b))) (zip candids values)) [],
                r))"

definition cache_put_many :: "('s, 'r) cutout_services \<Rightarrow> s3_config \<Rightarrow> alert_cutout list \<Rightarrow> 'r \<Rightarrow> 'r" where
  "cache_put_many V C cutouts r =
     (if cutouts = [] then r
      else snd (cache_set_many (cache V) (map (\<lambda>x. (cache_key C (candid x), pack x)) cutouts) (ttl_seconds C) r))"

definition cache_delete :: "('s, 'r) cutout_services \<Rightarrow> s3_config \<Rightarrow> i64 \<Rightarrow> 'r \<Rightarrow> 'r" where
  "cache_delete V C c r = snd (cache_del (cache V) [cache_key C c] r)"

definition cache_delete_many :: "('s, 'r) cutout_services \<Rightarrow> s3_config \<Rightarrow> i64 list \<Rightarrow> 'r \<Rightarrow> 'r" where
  "cache_delete_many V C candids r =
     (if candids = [] then r else snd (cache_del (cache V) (map (cache_key C) candids) r))"

section \<open>The bucket\<close>

definition cutout_s3_key :: "s3_config \<Rightarrow> i64 \<Rightarrow> string" where
  "cutout_s3_key C c = object_prefix C @ ''/cutouts/'' @ int_text (sint c) @ ''.json''"

definition insert_alert_cutouts ::
  "('s, 'r) cutout_services \<Rightarrow> s3_config \<Rightarrow> alert_cutout \<Rightarrow> 's \<Rightarrow> (cutout_storage_error, unit) result \<times> 's" where
  "insert_alert_cutouts V C cutouts s =
     (case to_json V cutouts of
        Inl e \<Rightarrow> (Inl (JsonError e), s)
      | Inr encoded \<Rightarrow>
          (case put_object (store V) (cutout_s3_key C (candid cutouts)) encoded s of
             (Inr _, s) \<Rightarrow> (Inr (), s)
           | (Inl _, s) \<Rightarrow> (Inl CutoutInsertFailed, s)))"

definition retrieve_alert_cutouts ::
  "('s, 'r) cutout_services \<Rightarrow> s3_config \<Rightarrow> i64 \<Rightarrow> 's \<Rightarrow> (cutout_storage_error, alert_cutout) result" where
  "retrieve_alert_cutouts V C c s =
     (case get_object (store V) (cutout_s3_key C c) s of
        Inr bytes \<Rightarrow> map_err JsonError (from_json V bytes)
      | Inl NoSuchKey \<Rightarrow> Inl CutoutsNotFound
      | Inl Object_Failure \<Rightarrow> Inl CutoutRetrieveFailed)"

definition delete_alert_cutouts ::
  "('s, 'r) cutout_services \<Rightarrow> s3_config \<Rightarrow> i64 \<Rightarrow> 's \<Rightarrow> (cutout_storage_error, unit) result \<times> 's" where
  "delete_alert_cutouts V C c s =
     (case delete_object (store V) (cutout_s3_key C c) s of
        (Inr _, s) \<Rightarrow> (Inr (), s)
      | (Inl _, s) \<Rightarrow> (Inl CutoutDeleteFailed, s))"

section \<open>The bucket behind its cache\<close>

definition s3_insert ::
  "('s, 'r) cutout_services \<Rightarrow> s3_config \<Rightarrow> alert_cutout \<Rightarrow> ('s, 'r) s3_state \<Rightarrow>
   (cutout_storage_error, unit) result \<times> ('s, 'r) s3_state" where
  "s3_insert V C cutouts st =
     (case (if stamps_compressed C then compress_stamps V cutouts else Inr cutouts) of
        Inl e \<Rightarrow> (Inl e, st)
      | Inr cutouts \<Rightarrow>
          (case insert_alert_cutouts V C cutouts (bucket st) of
             (Inl e, s) \<Rightarrow> (Inl e, st\<lparr>bucket := s\<rparr>)
           | (Inr _, s) \<Rightarrow> (Inr (), st\<lparr>bucket := s, cached := cache_put V C cutouts (cached st)\<rparr>)))"

definition unpacked :: "('s, 'r) cutout_services \<Rightarrow> s3_config \<Rightarrow> alert_cutout \<Rightarrow> (cutout_storage_error, alert_cutout) result" where
  "unpacked V C raw = (if stamps_compressed C then decompress_stamps V raw else Inr raw)"

definition s3_retrieve ::
  "('s, 'r) cutout_services \<Rightarrow> s3_config \<Rightarrow> i64 \<Rightarrow> bool \<Rightarrow> ('s, 'r) s3_state \<Rightarrow>
   (cutout_storage_error, alert_cutout) result \<times> ('s, 'r) s3_state" where
  "s3_retrieve V C c populate_cache st =
     (case cache_lookup V C c (cached st) of
        (Some cutout, r) \<Rightarrow> (unpacked V C cutout, st\<lparr>cached := r\<rparr>)
      | (None, r) \<Rightarrow>
          (case retrieve_alert_cutouts V C c (bucket st) of
             Inl e \<Rightarrow> (Inl e, st\<lparr>cached := r\<rparr>)
           | Inr cutout \<Rightarrow>
               (unpacked V C cutout, st\<lparr>cached := (if populate_cache then cache_put V C cutout r else r)\<rparr>)))"

text \<open>What was fetched, folded into the cached ones: the result, what to cache, and the first failure.\<close>

fun fetched_into ::
  "(i64 \<times> (cutout_storage_error, alert_cutout) result) list \<Rightarrow> (i64 \<times> alert_cutout) list \<Rightarrow> alert_cutout list \<Rightarrow>
   cutout_storage_error option \<Rightarrow> (i64 \<times> alert_cutout) list \<times> alert_cutout list \<times> cutout_storage_error option" where
  "fetched_into [] found to_cache failure = (found, to_cache, failure)"
| "fetched_into ((c, Inr cutout) # rest) found to_cache failure =
     fetched_into rest (AList.update c cutout found) (to_cache @ [cutout]) failure"
| "fetched_into ((c, Inl e) # rest) found to_cache failure =
     (if e = CutoutsNotFound then fetched_into rest found to_cache failure
      else fetched_into rest found to_cache (case failure of None \<Rightarrow> Some e | Some f \<Rightarrow> Some f))"

definition unpacked_all ::
  "('s, 'r) cutout_services \<Rightarrow> s3_config \<Rightarrow> (i64 \<times> alert_cutout) list \<Rightarrow>
   (cutout_storage_error, (i64 \<times> alert_cutout) list) result" where
  "unpacked_all V C found =
     collect_results (\<lambda>(c, raw). and_then (unpacked V C raw) (\<lambda>cutout. Inr (c, cutout))) found"

definition s3_retrieve_multiple ::
  "('s, 'r) cutout_services \<Rightarrow> s3_config \<Rightarrow> i64 list \<Rightarrow> bool \<Rightarrow> ('s, 'r) s3_state \<Rightarrow>
   (cutout_storage_error, (i64 \<times> alert_cutout) list) result \<times> ('s, 'r) s3_state" where
  "s3_retrieve_multiple V C candids populate_cache st =
     (let (found, r) = cache_lookup_many V C candids (cached st);
          missing = filter (\<lambda>c. map_of found c = None) candids
      in if missing = [] then (unpacked_all V C found, st\<lparr>cached := r\<rparr>)
         else
           let (found, to_cache, failure) =
                 fetched_into (map (\<lambda>c. (c, retrieve_alert_cutouts V C c (bucket st))) (arrivals V missing)) found [] None;
               r = (if populate_cache then cache_put_many V C to_cache r else r)
           in (case failure of Some e \<Rightarrow> Inl e | None \<Rightarrow> unpacked_all V C found, st\<lparr>cached := r\<rparr>))"

definition s3_delete ::
  "('s, 'r) cutout_services \<Rightarrow> s3_config \<Rightarrow> i64 \<Rightarrow> ('s, 'r) s3_state \<Rightarrow>
   (cutout_storage_error, unit) result \<times> ('s, 'r) s3_state" where
  "s3_delete V C c st =
     (let r = cache_delete V C c (cached st); (d, s) = delete_alert_cutouts V C c (bucket st)
      in (d, st\<lparr>bucket := s, cached := r\<rparr>))"

definition s3_evict :: "('s, 'r) cutout_services \<Rightarrow> s3_config \<Rightarrow> i64 list \<Rightarrow> ('s, 'r) s3_state \<Rightarrow> ('s, 'r) s3_state" where
  "s3_evict V C candids st = st\<lparr>cached := cache_delete_many V C candids (cached st)\<rparr>"

section \<open>The collection\<close>

text \<open>\<open>is_duplicate\<close> recognises the error of a duplicate key.  A document of a batch that does not
  read (\<open>reads\<close>) is skipped.\<close>

definition mongo_insert ::
  "(mongo_error \<Rightarrow> bool) \<Rightarrow> ('db, alert_cutout) collection \<Rightarrow> alert_cutout \<Rightarrow> 'db \<Rightarrow> (cutout_storage_error, unit) result \<times> 'db" where
  "mongo_insert is_duplicate M cutouts db =
     (case insert_one M cutouts db of
        (Inr _, db) \<Rightarrow> (Inr (), db)
      | (Inl e, db) \<Rightarrow> (Inl (if is_duplicate e then CutoutAlreadyExists (candid cutouts) else CutoutInsertFailed), db))"

definition mongo_retrieve ::
  "('db, alert_cutout) collection \<Rightarrow> i64 \<Rightarrow> 'db \<Rightarrow> (cutout_storage_error, alert_cutout) result" where
  "mongo_retrieve M c db =
     (case find_one M (\<lambda>d. candid d = c) None db of
        Inr (Some cutout) \<Rightarrow> Inr cutout
      | Inr None \<Rightarrow> Inl CutoutsNotFound
      | Inl _ \<Rightarrow> Inl CutoutRetrieveFailed)"

definition mongo_retrieve_multiple ::
  "('db \<Rightarrow> alert_cutout \<Rightarrow> bool) \<Rightarrow> ('db, alert_cutout) collection \<Rightarrow> i64 list \<Rightarrow> 'db \<Rightarrow> (cutout_storage_error, (i64 \<times> alert_cutout) list) result" where
  "mongo_retrieve_multiple reads M candids db =
     (case find_docs M (\<lambda>d. candid d \<in> set candids) None None db of
        Inl _ \<Rightarrow> Inl CutoutRetrieveFailed
      | Inr ds \<Rightarrow> Inr (fold (\<lambda>d. AList.update (candid d) d) (filter (reads db) ds) []))"

definition mongo_delete ::
  "('db, alert_cutout) collection \<Rightarrow> i64 \<Rightarrow> 'db \<Rightarrow> (cutout_storage_error, unit) result \<times> 'db" where
  "mongo_delete M c db =
     (case delete_one M (\<lambda>d. candid d = c) db of
        (Inr _, db) \<Rightarrow> (Inr (), db)
      | (Inl _, db) \<Rightarrow> (Inl CutoutDeleteFailed, db))"

section \<open>Either storage\<close>

datatype ('s, 'r, 'db) cutout_state = S3 "('s, 'r) s3_state" | Mongo 'db

record ('s, 'r, 'db) cutout_storage =
  services :: "('s, 'r) cutout_services"
  s3 :: s3_config
  duplicate_key :: "mongo_error \<Rightarrow> bool"
  cutout_collection :: "('db, alert_cutout) collection"
  document_reads :: "'db \<Rightarrow> alert_cutout \<Rightarrow> bool"

fun insert_cutouts ::
  "('s, 'r, 'db) cutout_storage \<Rightarrow> alert_cutout \<Rightarrow> ('s, 'r, 'db) cutout_state \<Rightarrow>
   (cutout_storage_error, unit) result \<times> ('s, 'r, 'db) cutout_state" where
  "insert_cutouts W cutouts (S3 st) = map_prod id S3 (s3_insert (services W) (s3 W) cutouts st)"
| "insert_cutouts W cutouts (Mongo db) =
     map_prod id Mongo (mongo_insert (duplicate_key W) (cutout_collection W) cutouts db)"

fun retrieve_cutouts ::
  "('s, 'r, 'db) cutout_storage \<Rightarrow> i64 \<Rightarrow> bool \<Rightarrow> ('s, 'r, 'db) cutout_state \<Rightarrow>
   (cutout_storage_error, alert_cutout) result \<times> ('s, 'r, 'db) cutout_state" where
  "retrieve_cutouts W c populate (S3 st) = map_prod id S3 (s3_retrieve (services W) (s3 W) c populate st)"
| "retrieve_cutouts W c populate (Mongo db) = (mongo_retrieve (cutout_collection W) c db, Mongo db)"

fun retrieve_multiple_cutouts ::
  "('s, 'r, 'db) cutout_storage \<Rightarrow> i64 list \<Rightarrow> bool \<Rightarrow> ('s, 'r, 'db) cutout_state \<Rightarrow>
   (cutout_storage_error, (i64 \<times> alert_cutout) list) result \<times> ('s, 'r, 'db) cutout_state" where
  "retrieve_multiple_cutouts W cs populate (S3 st) =
     map_prod id S3 (s3_retrieve_multiple (services W) (s3 W) cs populate st)"
| "retrieve_multiple_cutouts W cs populate (Mongo db) = 
     (mongo_retrieve_multiple (document_reads W) (cutout_collection W) cs db, Mongo db)"

fun delete_cutouts ::
  "('s, 'r, 'db) cutout_storage \<Rightarrow> i64 \<Rightarrow> ('s, 'r, 'db) cutout_state \<Rightarrow>
   (cutout_storage_error, unit) result \<times> ('s, 'r, 'db) cutout_state" where
  "delete_cutouts W c (S3 st) = map_prod id S3 (s3_delete (services W) (s3 W) c st)"
| "delete_cutouts W c (Mongo db) = map_prod id Mongo (mongo_delete (cutout_collection W) c db)"

fun evict_from_cache ::
  "('s, 'r, 'db) cutout_storage \<Rightarrow> i64 list \<Rightarrow> ('s, 'r, 'db) cutout_state \<Rightarrow> ('s, 'r, 'db) cutout_state" where
  "evict_from_cache W cs (S3 st) = S3 (s3_evict (services W) (s3 W) cs st)"
| "evict_from_cache W cs (Mongo db) = Mongo db"

end
