(* ===== verification/Cutout_Histories.thy ===== *)
theory Cutout_Histories
  imports Cutouts
begin

text \<open>
  What is read from the cutout storage over any sequence of operations, with commands of the cache
  and the store failing at will: only what was inserted for that alert, and, once an insertion
  has been answered, not nothing.
\<close>

section \<open>The services as relied on\<close>

text \<open>Entries of the cache come from writes only.\<close>

definition entries_from :: "(string \<times> u8 list) list \<Rightarrow> (string \<Rightarrow> u8 list option) \<Rightarrow> (string \<Rightarrow> u8 list option) \<Rightarrow> bool" where
  "entries_from new m m' \<longleftrightarrow> (\<forall>k b. m' k = Some b \<longrightarrow> (k, b) \<in> set new \<or> m k = Some b)"

definition object_written ::
  "(object_error, unit) result \<Rightarrow> string \<Rightarrow> u8 list option \<Rightarrow> (string \<Rightarrow> u8 list option) \<Rightarrow> (string \<Rightarrow> u8 list option) \<Rightarrow> bool"
where
  "object_written r k b m m' \<longleftrightarrow> m' = m(k := b) \<or> (\<exists>e. r = Inl e) \<and> m' = m"

locale cutout_world =
  fixes W :: "('s, 'r, 'db) cutout_storage"
  assumes put_law: "put_object (store (services W)) k b s = (pr, s') \<Longrightarrow>
      object_written pr k (Some b) (objects (store (services W)) s) (objects (store (services W)) s')"
    and delete_law: "delete_object (store (services W)) k s = (pr, s') \<Longrightarrow>
      object_written pr k None (objects (store (services W)) s) (objects (store (services W)) s')"
    and get_law: "get_object (store (services W)) k s = Inr b \<Longrightarrow> objects (store (services W)) s k = Some b"
    and no_key_law: "get_object (store (services W)) k s = Inl NoSuchKey \<Longrightarrow> objects (store (services W)) s k = None"
    and cache_set_law: "cache_set_ex (cache (services W)) k b ttl q = (x, q') \<Longrightarrow>
      entries_from [(k, b)] (entries (cache (services W)) q) (entries (cache (services W)) q')"
    and cache_get_law: "cache_get (cache (services W)) k q = (y, q') \<Longrightarrow>
      entries_from [] (entries (cache (services W)) q) (entries (cache (services W)) q') \<and>
      (\<forall>b. y = Inr (Some b) \<longrightarrow> entries (cache (services W)) q k = Some b)"
    and cache_mget_law: "cache_mget (cache (services W)) ks q = (z, q') \<Longrightarrow>
      entries_from [] (entries (cache (services W)) q) (entries (cache (services W)) q') \<and>
      (\<forall>bs. z = Inr bs \<longrightarrow> list_all2 (\<lambda>k b. b = None \<or> entries (cache (services W)) q k = b) ks bs)"
    and cache_set_many_law: "cache_set_many (cache (services W)) kbs ttl q = (x, q') \<Longrightarrow>
      entries_from kbs (entries (cache (services W)) q) (entries (cache (services W)) q')"
    and cache_del_law: "cache_del (cache (services W)) ks q = (x, q') \<Longrightarrow>
      entries_from [] (entries (cache (services W)) q) (entries (cache (services W)) q')"
    and json_law: "to_json (services W) c = Inr b \<Longrightarrow> from_json (services W) b = Inr c \<and> length (pack c) < 2 ^ 64"
    and zstd_law: "compressor (services W) d = Some zd \<Longrightarrow> decompressor (services W) zd = Some d"
    and arrivals_law: "mset (arrivals (services W) cs) = mset cs"
    and collection_law: "doc_store (cutout_collection W)"
    and key_law: "doc_id (cutout_collection W) c = Some (int_text (sint (candid c)))"
    and duplicate_law: "insert_one (cutout_collection W) c db = (Inl e, db') \<Longrightarrow> duplicate_key W e \<Longrightarrow>
      \<not> fresh_id (cutout_collection W) c (docs (cutout_collection W) db)"

section \<open>Histories\<close>

datatype cutout_op =
    Insert alert_cutout
  | Retrieve i64 bool
  | Retrieve_Multiple "i64 list" bool
  | Delete i64
  | Evict "i64 list"

fun cutout_step ::
  "('s, 'r, 'db) cutout_storage \<Rightarrow> cutout_op \<Rightarrow> ('s, 'r, 'db) cutout_state \<Rightarrow> ('s, 'r, 'db) cutout_state" where
  "cutout_step W (Insert x) st = snd (insert_cutouts W x st)"
| "cutout_step W (Retrieve c populate) st = snd (retrieve_cutouts W c populate st)"
| "cutout_step W (Retrieve_Multiple cs populate) st = snd (retrieve_multiple_cutouts W cs populate st)"
| "cutout_step W (Delete c) st = snd (delete_cutouts W c st)"
| "cutout_step W (Evict cs) st = evict_from_cache W cs st"

definition cutout_run ::
  "('s, 'r, 'db) cutout_storage \<Rightarrow> cutout_op list \<Rightarrow> ('s, 'r, 'db) cutout_state \<Rightarrow> ('s, 'r, 'db) cutout_state" where
  "cutout_run W ops st = fold (cutout_step W) ops st"

text \<open>What an object and an entry of the cache stand for.\<close>

definition object_gives :: "('s, 'r) cutout_services \<Rightarrow> s3_config \<Rightarrow> u8 list \<Rightarrow> alert_cutout \<Rightarrow> bool" where
  "object_gives V C b x \<longleftrightarrow>
     (\<exists>raw. from_json V b = Inr raw \<and> candid raw = candid x \<and> length (pack raw) < 2 ^ 64 \<and> unpacked V C raw = Inr x)"

definition entry_gives :: "('s, 'r) cutout_services \<Rightarrow> s3_config \<Rightarrow> u8 list \<Rightarrow> alert_cutout \<Rightarrow> bool" where
  "entry_gives V C b x \<longleftrightarrow> (\<exists>raw. unpack (candid x) b = Some raw \<and> unpacked V C raw = Inr x)"

definition cache_sound :: "('s, 'r, 'db) cutout_storage \<Rightarrow> alert_cutout set \<Rightarrow> 'r \<Rightarrow> bool" where
  "cache_sound W I r \<longleftrightarrow>
     (\<forall>c b. entries (cache (services W)) r (cache_key (s3 W) c) = Some b \<longrightarrow>
        (\<exists>x\<in>I. candid x = c \<and> entry_gives (services W) (s3 W) b x))"

definition bucket_sound :: "('s, 'r, 'db) cutout_storage \<Rightarrow> alert_cutout set \<Rightarrow> 's \<Rightarrow> bool" where
  "bucket_sound W I s \<longleftrightarrow>
     (\<forall>c b. objects (store (services W)) s (cutout_s3_key (s3 W) c) = Some b \<longrightarrow>
        (\<exists>x\<in>I. candid x = c \<and> object_gives (services W) (s3 W) b x))"

fun storage_sound :: "('s, 'r, 'db) cutout_storage \<Rightarrow> alert_cutout set \<Rightarrow> ('s, 'r, 'db) cutout_state \<Rightarrow> bool" where
  "storage_sound W I (S3 st) \<longleftrightarrow> bucket_sound W I (bucket st) \<and> cache_sound W I (cached st)"
| "storage_sound W I (Mongo db) \<longleftrightarrow> set (docs (cutout_collection W) db) \<subseteq> I"

fun holds_cutouts :: "('s, 'r, 'db) cutout_storage \<Rightarrow> i64 \<Rightarrow> ('s, 'r, 'db) cutout_state \<Rightarrow> bool" where
  "holds_cutouts W c (S3 st) \<longleftrightarrow> objects (store (services W)) (bucket st) (cutout_s3_key (s3 W) c) \<noteq> None"
| "holds_cutouts W c (Mongo db) \<longleftrightarrow> (\<exists>d\<in>set (docs (cutout_collection W) db). candid d = c)"

text \<open>The document of a candid can be read back; a batch drops one that cannot, without a word.\<close>

fun readable :: "('s, 'r, 'db) cutout_storage \<Rightarrow> i64 \<Rightarrow> ('s, 'r, 'db) cutout_state \<Rightarrow> bool" where
  "readable W c (S3 st) \<longleftrightarrow> True"
| "readable W c (Mongo db) \<longleftrightarrow> list_all (\<lambda>d. candid d = c \<longrightarrow> document_reads W db d) (docs (cutout_collection W) db)"

lemma sint_inj: "sint (a :: i64) = sint b \<longleftrightarrow> a = b"
  by (simp flip: word_eq_iff_signed)

lemma cache_key_inj: "cache_key C c = cache_key C c' \<longleftrightarrow> c = c'"
  by (simp add: cache_key_def int_text_inj sint_inj)

lemma cutout_s3_key_inj: "cutout_s3_key C c = cutout_s3_key C c' \<longleftrightarrow> c = c'"
  by (simp add: cutout_s3_key_def int_text_inj sint_inj)

lemma each_stamp_Inr:
  "each_stamp f x = Inr y \<longleftrightarrow>
     f (cutout_science x) = Inr (cutout_science y) \<and> f (cutout_template x) = Inr (cutout_template y) \<and>
     f (cutout_difference x) = Inr (cutout_difference y) \<and> candid y = candid x"
  by (auto simp: each_stamp_def and_then_Inr)

lemma cache_sound_from:
  "cache_sound W I r \<Longrightarrow>
   entries_from new (entries (cache (services W)) r) (entries (cache (services W)) r') \<Longrightarrow>
   (\<And>c b. (cache_key (s3 W) c, b) \<in> set new \<Longrightarrow> \<exists>x\<in>I. candid x = c \<and> entry_gives (services W) (s3 W) b x) \<Longrightarrow>
   cache_sound W I r'"
  unfolding cache_sound_def entries_from_def by metis

text \<open>A raw value that stands for inserted cutouts of its candid.\<close>

definition raw_of :: "('s, 'r, 'db) cutout_storage \<Rightarrow> alert_cutout set \<Rightarrow> i64 \<Rightarrow> alert_cutout \<Rightarrow> bool" where
  "raw_of W I c raw \<longleftrightarrow> (\<exists>x\<in>I. candid x = c \<and> unpacked (services W) (s3 W) raw = Inr x)"

definition object_of :: "('s, 'r, 'db) cutout_storage \<Rightarrow> alert_cutout set \<Rightarrow> alert_cutout \<Rightarrow> bool" where
  "object_of W I raw \<longleftrightarrow> raw_of W I (candid raw) raw \<and> length (pack raw) < 2 ^ 64"

lemma packed_entry: "object_of W I raw \<Longrightarrow> \<exists>x\<in>I. candid x = candid raw \<and> entry_gives (services W) (s3 W) (pack raw) x"
  by (auto simp: object_of_def raw_of_def entry_gives_def unpack_pack)

lemma set_AList_update: "set (AList.update k v m) \<subseteq> insert (k, v) (set m)"
  by (induction m) auto

lemma set_fold_update: "set (fold (\<lambda>(c, x). AList.update c x) kvs m) \<subseteq> set kvs \<union> set m"
proof (induction kvs arbitrary: m)
  case (Cons kv kvs)
  obtain c x where kv: "kv = (c, x)" by fastforce
  show ?case
    using Cons [of "AList.update c x m"] set_AList_update [of c x m] by (auto simp: kv)
qed simp

lemma fold_update_keys: "fst ` set (fold (\<lambda>(c, x). AList.update c x) kvs m) = fst ` set kvs \<union> fst ` set m"
proof (induction kvs arbitrary: m)
  case (Cons kv kvs)
  obtain c x where kv: "kv = (c, x)" by fastforce
  show ?case
    using Cons [of "AList.update c x m"] dom_update [of c x m] by (auto simp: kv)
qed simp

text \<open>What folding in the fetched ones gives.\<close>

definition folded_in ::
  "(i64 \<times> (cutout_storage_error, alert_cutout) result) list \<Rightarrow> (i64 \<times> alert_cutout) list \<Rightarrow> alert_cutout list \<Rightarrow>
   cutout_storage_error option \<Rightarrow> (i64 \<times> alert_cutout) list \<Rightarrow> alert_cutout list \<Rightarrow> cutout_storage_error option \<Rightarrow> bool"
where
  "folded_in fs found tc f found' tc' f' \<longleftrightarrow>
     (\<forall>c x. (c, x) \<in> set found' \<longrightarrow> (c, Inr x) \<in> set fs \<or> (c, x) \<in> set found) \<and>
     (\<forall>x. x \<in> set tc' \<longrightarrow> (\<exists>c. (c, Inr x) \<in> set fs) \<or> x \<in> set tc) \<and>
     (f' = None \<longrightarrow> f = None \<and> (\<forall>c e. (c, Inl e) \<in> set fs \<longrightarrow> e = CutoutsNotFound)) \<and>
     fst ` set found \<subseteq> fst ` set found' \<and> (\<forall>c x. (c, Inr x) \<in> set fs \<longrightarrow> c \<in> fst ` set found')"

lemma folded_in_Inr:
  assumes "folded_in rest (AList.update c x found) (tc @ [x]) f found' tc' f'"
  shows "folded_in ((c, Inr x) # rest) found tc f found' tc' f'"
proof -
  have keys: "fst ` set (AList.update c x found) = insert c (fst ` set found)"
    by (simp add: dom_update)
  have upd: "(c', x') = (c, x) \<or> (c', x') \<in> set found" if "(c', x') \<in> set (AList.update c x found)" for c' x'
    using set_AList_update [of c x found] that by blast
  note all = assms [unfolded folded_in_def keys]
  show ?thesis
    unfolding folded_in_def
  proof (intro conjI)
    show "\<forall>c' x'. (c', x') \<in> set found' \<longrightarrow> (c', Inr x') \<in> set ((c, Inr x) # rest) \<or> (c', x') \<in> set found"
      using conjunct1 [OF all] upd by auto
    show "\<forall>x'. x' \<in> set tc' \<longrightarrow> (\<exists>c'. (c', Inr x') \<in> set ((c, Inr x) # rest)) \<or> x' \<in> set tc"
      using conjunct1 [OF conjunct2 [OF all]] by auto
    show "f' = None \<longrightarrow> f = None \<and> (\<forall>c' e. (c', Inl e) \<in> set ((c, Inr x) # rest) \<longrightarrow> e = CutoutsNotFound)"
      using all by simp
    show "fst ` set found \<subseteq> fst ` set found'"
      using all by blast
    show "\<forall>c' x'. (c', Inr x') \<in> set ((c, Inr x) # rest) \<longrightarrow> c' \<in> fst ` set found'"
      using all by simp
  qed
qed

lemma folded_in_Inl:
  assumes "folded_in rest found tc g found' tc' f'" "g = None \<longrightarrow> f = None \<and> e = CutoutsNotFound"
  shows "folded_in ((c, Inl e) # rest) found tc f found' tc' f'"
  using assms unfolding folded_in_def by simp

lemma fetched_into_found:
  "fetched_into fs found tc f = (found', tc', f') \<Longrightarrow> folded_in fs found tc f found' tc' f'"
proof (induction fs found tc f rule: fetched_into.induct)
  case (2 c x rest found tc f)
  then show ?case by (simp add: folded_in_Inr)
next
  case (3 c e rest found tc f)
  then show ?case
    by (cases "e = CutoutsNotFound") (auto intro: folded_in_Inl split: option.splits)
qed (simp add: folded_in_def)

lemma unpacked_all_pairs:
  "unpacked_all V C found = Inr out \<Longrightarrow>
   map fst out = map fst found \<and> (\<forall>c y. (c, y) \<in> set out \<longrightarrow> (\<exists>x. (c, x) \<in> set found \<and> unpacked V C x = Inr y))"
  unfolding unpacked_all_def by (induction found arbitrary: out) (fastforce simp: and_then_Inr)+

context cutout_world
begin

lemma cache_put_sound:
  assumes "cache_sound W I r" "object_of W I raw"
  shows "cache_sound W I (cache_put (services W) (s3 W) raw r)"
proof -
  obtain x r' where w: "cache_set_ex (cache (services W)) (cache_key (s3 W) (candid raw)) (pack raw) (ttl_seconds (s3 W)) r = (x, r')"
    by fastforce
  show ?thesis
    unfolding cache_put_def w snd_conv
    by (rule cache_sound_from [OF assms(1) cache_set_law [OF w]])
      (use packed_entry [OF assms(2)] in \<open>auto simp: cache_key_inj\<close>)
qed

lemma cache_put_many_sound:
  assumes "cache_sound W I r" "list_all (object_of W I) raws"
  shows "cache_sound W I (cache_put_many (services W) (s3 W) raws r)"
proof -
  let ?kbs = "map (\<lambda>x. (cache_key (s3 W) (candid x), pack x)) raws"
  obtain x r' where w: "cache_set_many (cache (services W)) ?kbs (ttl_seconds (s3 W)) r = (x, r')"
    by fastforce
  have "cache_sound W I r'"
    by (rule cache_sound_from [OF assms(1) cache_set_many_law [OF w]])
      (use packed_entry assms(2) in \<open>fastforce simp: cache_key_inj list_all_iff\<close>)
  then show ?thesis
    by (simp add: cache_put_many_def w assms(1))
qed

lemma cache_lookup_sound:
  assumes "cache_lookup (services W) (s3 W) c r = (raw, r')" "cache_sound W I r"
  shows "cache_sound W I r' \<and> pred_option (raw_of W I c) raw"
proof -
  obtain y where y: "cache_get (cache (services W)) (cache_key (s3 W) c) r = (y, r')"
    "raw = (case y of Inr b \<Rightarrow> Option.bind b (unpack c) | Inl _ \<Rightarrow> None)"
    using assms(1) by (auto simp: cache_lookup_def split: prod.splits sum.splits)
  note law = cache_get_law [OF y(1)]
  have "cache_sound W I r'"
    by (rule cache_sound_from [OF assms(2) conjunct1 [OF law]]) simp
  moreover have "raw_of W I c z" if z: "raw = Some z" for z
  proof -
    obtain b where b: "y = Inr (Some b)" "unpack c b = Some z"
      using z y(2) by (auto split: sum.splits Option.bind_splits)
    with law assms(2) obtain x where "x \<in> I" "candid x = c" "entry_gives (services W) (s3 W) b x"
      unfolding cache_sound_def by blast
    with b(2) show ?thesis
      by (auto simp: raw_of_def entry_gives_def)
  qed
  ultimately show ?thesis
    by (auto simp: option.pred_set)
qed

lemma retrieve_alert_sound:
  assumes "retrieve_alert_cutouts (services W) (s3 W) c s = Inr raw" "bucket_sound W I s"
  shows "candid raw = c \<and> object_of W I raw"
proof -
  obtain b where b: "objects (store (services W)) s (cutout_s3_key (s3 W) c) = Some b" "from_json (services W) b = Inr raw"
    using assms(1) get_law by (auto simp: retrieve_alert_cutouts_def map_err_Inr split: sum.splits object_error.splits)
  with assms(2) obtain x where "x \<in> I" "candid x = c" "object_gives (services W) (s3 W) b x"
    unfolding bucket_sound_def by blast
  with b(2) show ?thesis
    by (auto simp: object_gives_def object_of_def raw_of_def)
qed

lemma compressed_raw:
  assumes "(if stamps_compressed (s3 W) then compress_stamps (services W) x else Inr x) = Inr raw"
  shows "candid raw = candid x \<and> unpacked (services W) (s3 W) raw = Inr x"
proof (cases "stamps_compressed (s3 W)")
  case True
  with assms have "each_stamp (compress_stamp (services W)) x = Inr raw"
    by (simp add: compress_stamps_def)
  then show ?thesis
    using zstd_law True unfolding each_stamp_Inr unpacked_def decompress_stamps_def
    by (auto simp: each_stamp_Inr compress_stamp_def decompress_stamp_def ok_or_def split: option.splits)
qed (use assms in \<open>simp add: unpacked_def\<close>)

lemma storage_sound_mono: "storage_sound W I st \<Longrightarrow> I \<subseteq> J \<Longrightarrow> storage_sound W J st"
  by (cases st) (fastforce simp: bucket_sound_def cache_sound_def)+

lemma bucket_written:
  assumes "bucket_sound W I s"
    and "object_written r (cutout_s3_key (s3 W) c) b (objects (store (services W)) s) (objects (store (services W)) s')"
    and "pred_option (\<lambda>b. \<exists>x\<in>I. candid x = c \<and> object_gives (services W) (s3 W) b x) b"
  shows "bucket_sound W I s'"
  using assms by (auto simp: bucket_sound_def object_written_def cutout_s3_key_inj split: if_splits)

lemma insert_sound:
  assumes "storage_sound W I st" "insert_cutouts W x st = (r, st')"
  shows "storage_sound W (insert x I) st' \<and>
    (r = Inr () \<or> (\<exists>c. r = Inl (CutoutAlreadyExists c)) \<longrightarrow> holds_cutouts W (candid x) st') \<and>
    (\<forall>c. holds_cutouts W c st \<longrightarrow> holds_cutouts W c st')"
proof (cases st)
  case (S3 st0)
  have old: "bucket_sound W (insert x I) (bucket st0)" "cache_sound W (insert x I) (cached st0)"
    using storage_sound_mono [OF assms(1), of "insert x I"] S3 by auto
  obtain st1 where st1: "s3_insert (services W) (s3 W) x st0 = (r, st1)" "st' = S3 st1"
    using assms(2) S3 by (cases "s3_insert (services W) (s3 W) x st0") auto
  show ?thesis
  proof (cases "if stamps_compressed (s3 W) then compress_stamps (services W) x else Inr x")
    case (Inl e)
    then have "e = CutoutCompressFailed"
      by (auto simp: compress_stamps_def each_stamp_def compress_stamp_def ok_or_def and_then_def
          split: if_splits sum.splits option.splits)
    with Inl st1 old S3 show ?thesis by (auto simp: s3_insert_def)
  next
    case (Inr raw)
    note raw = compressed_raw [OF Inr]
    show ?thesis
    proof (cases "to_json (services W) raw")
      case (Inl e)
      with Inr st1 old S3 \<open>(if stamps_compressed (s3 W) then compress_stamps (services W) x else Inr x) = Inr raw\<close>
      show ?thesis by (auto simp: s3_insert_def insert_alert_cutouts_def)
    next
      case (Inr b)
      obtain pr s' where p: "put_object (store (services W)) (cutout_s3_key (s3 W) (candid raw)) b (bucket st0) = (pr, s')"
        by fastforce
      note w = put_law [OF p]
      have gives: "object_gives (services W) (s3 W) b x"
        using json_law [OF Inr] raw by (simp add: object_gives_def)
      have "bucket_sound W (insert x I) s'"
        by (rule bucket_written [OF old(1) w]) (use gives raw in simp)
      moreover have "object_of W (insert x I) raw"
        using json_law [OF Inr] raw by (auto simp: object_of_def raw_of_def)
      ultimately show ?thesis
        using p st1 S3 Inr w raw old cache_put_sound [of "insert x I" "cached st0" raw]
          \<open>(if stamps_compressed (s3 W) then compress_stamps (services W) x else Inr x) = Inr raw\<close>
        by (auto simp: s3_insert_def insert_alert_cutouts_def object_written_def split: sum.splits)
    qed
  qed
next
  case (Mongo db)
  obtain ri db' where i: "insert_one (cutout_collection W) x db = (ri, db')" by fastforce
  then have "r = (case ri of Inr _ \<Rightarrow> Inr () | Inl e \<Rightarrow>
      Inl (if duplicate_key W e then CutoutAlreadyExists (candid x) else CutoutInsertFailed))" "st' = Mongo db'"
    using assms(2) Mongo by (auto simp: mongo_insert_def split: sum.splits)
  moreover note doc_store.insert_law [OF collection_law i]
  ultimately show ?thesis
    using assms(1) Mongo duplicate_law [of x db _ db'] i
    by (cases ri) (auto simp: fresh_id_def key_law int_text_inj sint_inj split: if_splits)
qed

lemma retrieve_sound:
  assumes "storage_sound W I st" "retrieve_cutouts W c populate st = (r, st')"
  shows "storage_sound W I st' \<and> (\<forall>x. r = Inr x \<longrightarrow> x \<in> I \<and> candid x = c) \<and>
    (r = Inl CutoutsNotFound \<longrightarrow> \<not> holds_cutouts W c st) \<and> (\<forall>c. holds_cutouts W c st' = holds_cutouts W c st)"
proof (cases st)
  case (S3 st0)
  have old: "bucket_sound W I (bucket st0)" "cache_sound W I (cached st0)"
    using assms(1) S3 by auto
  obtain raw r1 where l: "cache_lookup (services W) (s3 W) c (cached st0) = (raw, r1)" by fastforce
  note look = cache_lookup_sound [OF l old(2)]
  have unp: "unpacked (services W) (s3 W) z \<noteq> Inl CutoutsNotFound" for z
    by (auto simp: unpacked_def decompress_stamps_def each_stamp_def decompress_stamp_def ok_or_def and_then_def
        split: sum.splits option.splits)
  show ?thesis
  proof (cases raw)
    case (Some z)
    with look have "raw_of W I c z" by simp
    with Some l assms(2) S3 look old unp [of z] show ?thesis
      by (auto simp: s3_retrieve_def raw_of_def)
  next
    case None
    show ?thesis
    proof (cases "retrieve_alert_cutouts (services W) (s3 W) c (bucket st0)")
      case (Inl e)
      with None l assms(2) S3 look old no_key_law show ?thesis
        by (auto simp: s3_retrieve_def retrieve_alert_cutouts_def map_err_def split: sum.splits object_error.splits)
    next
      case (Inr z)
      note z = retrieve_alert_sound [OF Inr old(1)]
      with None l assms(2) S3 look old unp [of z] Inr cache_put_sound [of I r1 z] show ?thesis
        by (auto simp: s3_retrieve_def object_of_def raw_of_def)
    qed
  qed
next
  case (Mongo db)
  then show ?thesis
    using assms doc_store.find_one_law [OF collection_law, of "\<lambda>d. candid d = c" None db]
    by (fastforce simp: mongo_retrieve_def split: sum.splits option.splits)
qed

lemma lookup_many_sound:
  assumes "cache_lookup_many (services W) (s3 W) cs r = (found, r')" "cache_sound W I r"
  shows "cache_sound W I r' \<and> (\<forall>c x. (c, x) \<in> set found \<longrightarrow> c \<in> set cs \<and> raw_of W I c x)"
proof (cases "cs = []")
  case False
  obtain y where y: "cache_mget (cache (services W)) (map (cache_key (s3 W)) cs) r = (y, r')"
    using assms(1) False by (auto simp: cache_lookup_many_def split: prod.splits sum.splits)
  note law = cache_mget_law [OF y]
  have "cache_sound W I r'"
    by (rule cache_sound_from [OF assms(2) conjunct1 [OF law]]) simp
  moreover have "c \<in> set cs \<and> raw_of W I c x" if cx: "(c, x) \<in> set found" for c x
  proof -
    obtain bs where bs: "y = Inr bs" using cx assms(1) False y by (auto simp: cache_lookup_many_def split: sum.splits)
    let ?kvs = "List.map_filter (\<lambda>(c, b). Option.bind b (\<lambda>b. map_option (Pair c) (unpack c b))) (zip cs bs)"
    have "found = fold (\<lambda>(c, x). AList.update c x) ?kvs []"
      using assms(1) False y bs by (simp add: cache_lookup_many_def)
    then have "(c, x) \<in> set ?kvs"
      using cx set_fold_update [of ?kvs "[]"] by auto
    then obtain b where b: "(c, Some b) \<in> set (zip cs bs)" "unpack c b = Some x"
      by (auto simp: List.map_filter_def split: Option.bind_splits)
    have "list_all2 (\<lambda>c b. b = None \<or> entries (cache (services W)) r (cache_key (s3 W) c) = b) cs bs"
      using law bs by (simp add: list_all2_map1)
    then have "\<forall>(c, b)\<in>set (zip cs bs). b = None \<or> entries (cache (services W)) r (cache_key (s3 W) c) = b"
      by (simp add: list_all2_iff)
    from bspec [OF this b(1)] have "entries (cache (services W)) r (cache_key (s3 W) c) = Some b"
      by simp
    with assms(2) obtain z where "z \<in> I" "candid z = c" "entry_gives (services W) (s3 W) b z"
      unfolding cache_sound_def by blast
    with b(2) show ?thesis
      using set_zip_leftD [OF b(1)] by (auto simp: raw_of_def entry_gives_def)
  qed
  ultimately show ?thesis by blast
qed (use assms in \<open>simp add: cache_lookup_many_def\<close>)

lemma retrieve_multiple_sound:
  assumes "storage_sound W I st" "retrieve_multiple_cutouts W cs populate st = (r, st')"
  shows "storage_sound W I st' \<and> (\<forall>c. holds_cutouts W c st' = holds_cutouts W c st) \<and>
    (\<forall>out. r = Inr out \<longrightarrow> (\<forall>c x. (c, x) \<in> set out \<longrightarrow> c \<in> set cs \<and> x \<in> I \<and> candid x = c) \<and>
       (\<forall>c\<in>set cs. readable W c st \<longrightarrow> c \<notin> fst ` set out \<longrightarrow> \<not> holds_cutouts W c st))"
proof (cases st)
  case (S3 st0)
  have old: "bucket_sound W I (bucket st0)" "cache_sound W I (cached st0)"
    using assms(1) S3 by auto
  obtain found r1 where l: "cache_lookup_many (services W) (s3 W) cs (cached st0) = (found, r1)" by fastforce
  note look = lookup_many_sound [OF l old(2)]
  define missing where "missing = filter (\<lambda>c. map_of found c = None) cs"
  define fetched where "fetched = map (\<lambda>c. (c, retrieve_alert_cutouts (services W) (s3 W) c (bucket st0)))
    (arrivals (services W) missing)"
  obtain found' tc f where fi: "fetched_into fetched found [] None = (found', tc, f)"
    by (cases "fetched_into fetched found [] None") auto
  have into: "\<forall>c x. (c, x) \<in> set found' \<longrightarrow> (c, Inr x) \<in> set fetched \<or> (c, x) \<in> set found"
    "\<forall>x. x \<in> set tc \<longrightarrow> (\<exists>c. (c, Inr x) \<in> set fetched)"
    "f = None \<longrightarrow> (\<forall>c e. (c, Inl e) \<in> set fetched \<longrightarrow> e = CutoutsNotFound)"
    "fst ` set found \<subseteq> fst ` set found'" "\<forall>c x. (c, Inr x) \<in> set fetched \<longrightarrow> c \<in> fst ` set found'"
    using fetched_into_found [OF fi] by (simp_all add: folded_in_def)
  have arr: "set (arrivals (services W) missing) = set missing"
    using arrivals_law [where cs = missing] by (metis set_mset_mset)
  have fetched_ok: "c \<in> set cs \<and> candid x = c \<and> object_of W I x" if "(c, Inr x) \<in> set fetched" for c x
  proof -
    have c: "c \<in> set missing" "retrieve_alert_cutouts (services W) (s3 W) c (bucket st0) = Inr x"
      using that arr by (auto simp: fetched_def)
    then show ?thesis
      using retrieve_alert_sound [OF c(2) old(1)] by (simp add: missing_def)
  qed
  have found': "c \<in> set cs \<and> raw_of W I c x" if "(c, x) \<in> set found'" for c x
  proof -
    have "(c, Inr x) \<in> set fetched \<or> (c, x) \<in> set found"
      using into(1) that by simp
    then show ?thesis
      using fetched_ok [of c x] look by (auto simp: object_of_def)
  qed
  have "object_of W I x" if "x \<in> set tc" for x
    using into(2) that fetched_ok by blast
  then have tc: "list_all (object_of W I) tc"
    by (simp add: list_all_iff)
  have gone: "\<not> holds_cutouts W c st" if "f = None" "c \<in> set cs" "c \<notin> fst ` set found'" for c
  proof -
    have "c \<in> set missing"
      using that(2,3) into(4) by (auto simp: missing_def map_of_eq_None_iff)
    then have "(c, retrieve_alert_cutouts (services W) (s3 W) c (bucket st0)) \<in> set fetched"
      using arr by (auto simp: fetched_def)
    then have "retrieve_alert_cutouts (services W) (s3 W) c (bucket st0) = Inl CutoutsNotFound"
      using that into(3,5) by (cases "retrieve_alert_cutouts (services W) (s3 W) c (bucket st0)") auto
    then show ?thesis
      using no_key_law S3 by (auto simp: retrieve_alert_cutouts_def map_err_def split: sum.splits object_error.splits)
  qed
  have unp: "(\<forall>c x. (c, x) \<in> set out \<longrightarrow> c \<in> set cs \<and> x \<in> I \<and> candid x = c) \<and> fst ` set out = fst ` set g"
    if "unpacked_all (services W) (s3 W) g = Inr out" "\<forall>c x. (c, x) \<in> set g \<longrightarrow> c \<in> set cs \<and> raw_of W I c x" for g out
  proof (intro conjI allI impI)
    note pairs = unpacked_all_pairs [OF that(1)]
    show "fst ` set out = fst ` set g"
      using pairs by (metis set_map)
    fix c x assume "(c, x) \<in> set out"
    with pairs obtain raw where raw: "(c, raw) \<in> set g" "unpacked (services W) (s3 W) raw = Inr x" by blast
    with that(2) obtain y where "c \<in> set cs" "y \<in> I" "candid y = c" "unpacked (services W) (s3 W) raw = Inr y"
      unfolding raw_of_def by blast
    with raw(2) show "c \<in> set cs" "x \<in> I" "candid x = c" by simp_all
  qed
  have def: "(r, st') = (if missing = [] then (unpacked_all (services W) (s3 W) found, S3 (st0\<lparr>cached := r1\<rparr>))
      else (case f of Some e \<Rightarrow> Inl e | None \<Rightarrow> unpacked_all (services W) (s3 W) found',
        S3 (st0\<lparr>cached := if populate then cache_put_many (services W) (s3 W) tc r1 else r1\<rparr>)))"
    using assms(2) S3 l fi unfolding fetched_def missing_def
    by (auto simp: s3_retrieve_multiple_def Let_def split: if_splits)
  show ?thesis
  proof (cases "missing = []")
    case True
    have "c \<in> fst ` set found" if "c \<in> set cs" for c
    proof -
      have "map_of found c \<noteq> None"
        using True that by (auto simp: missing_def filter_empty_conv)
      then show ?thesis by (auto simp: map_of_eq_None_iff)
    qed
    with True def S3 look old unp [of found] show ?thesis
      by auto
  next
    case False
    with def S3 old look cache_put_many_sound [of I r1 tc] tc unp [of found'] found' gone show ?thesis
      by (auto split: option.splits)
  qed
next
  case (Mongo db)
  obtain fr where fr: "find_docs (cutout_collection W) (\<lambda>d. candid d \<in> set cs) None None db = fr" by simp
  show ?thesis
  proof (cases fr)
    case (Inl e)
    with Mongo assms fr show ?thesis by (auto simp: mongo_retrieve_multiple_def)
  next
    case (Inr ds)
    let ?g = "fold (\<lambda>d. AList.update (candid d) d) (filter (document_reads W db) ds) []"
    have g: "?g = fold (\<lambda>(c, x). AList.update c x) (map (\<lambda>d. (candid d, d)) (filter (document_reads W db) ds)) []"
      by (simp add: fold_map comp_def)
    have "set ds = {d \<in> set (docs (cutout_collection W) db). candid d \<in> set cs}"
      using doc_store.find_docs_law [OF collection_law fr [unfolded Inr]] by (auto simp: limited_def)
    moreover have "set ?g \<subseteq> (\<lambda>d. (candid d, d)) ` set (filter (document_reads W db) ds)"
      unfolding g using set_fold_update [of "map (\<lambda>d. (candid d, d)) (filter (document_reads W db) ds)" "[]"] by simp
    moreover have "fst ` set ?g = candid ` set (filter (document_reads W db) ds)"
      unfolding g fold_update_keys by (simp add: image_image)
    ultimately show ?thesis
      using Mongo assms fr Inr by (auto simp: mongo_retrieve_multiple_def list_all_iff)
  qed
qed

lemma delete_sound:
  assumes "storage_sound W I st" "delete_cutouts W c st = (r, st')"
  shows "storage_sound W I st' \<and> (\<forall>c'. c' \<noteq> c \<longrightarrow> holds_cutouts W c' st \<longrightarrow> holds_cutouts W c' st')"
proof (cases st)
  case (S3 st0)
  obtain x q where q: "cache_del (cache (services W)) [cache_key (s3 W) c] (cached st0) = (x, q)" by fastforce
  obtain pr s' where p: "delete_object (store (services W)) (cutout_s3_key (s3 W) c) (bucket st0) = (pr, s')" by fastforce
  have st': "st' = S3 (st0\<lparr>bucket := s', cached := q\<rparr>)"
    using assms(2) S3 p q by (auto simp: s3_delete_def cache_delete_def delete_alert_cutouts_def split: sum.splits)
  have "cache_sound W I q"
    by (rule cache_sound_from [OF _ cache_del_law [OF q]]) (use assms(1) S3 in auto)
  moreover have "bucket_sound W I s'"
    by (rule bucket_written [OF _ delete_law [OF p]]) (use assms(1) S3 in auto)
  ultimately show ?thesis
    using delete_law [OF p] S3 st' by (auto simp: object_written_def cutout_s3_key_inj)
next
  case (Mongo db)
  obtain n db' where d: "delete_one (cutout_collection W) (\<lambda>d. candid d = c) db = (n, db')" by fastforce
  have st': "st' = Mongo db'"
    using assms(2) Mongo d by (auto simp: mongo_delete_def split: sum.splits)
  have "docs (cutout_collection W) db' = docs (cutout_collection W) db \<or>
      one_deleted (\<lambda>d. candid d = c) (docs (cutout_collection W) db) (docs (cutout_collection W) db')"
    using doc_store.delete_one_law [OF collection_law d] by (auto split: sum.splits)
  then show ?thesis
  proof
    assume del: "one_deleted (\<lambda>d. candid d = c) (docs (cutout_collection W) db) (docs (cutout_collection W) db')"
    have "d \<in> set (docs (cutout_collection W) db')" if "d \<in> set (docs (cutout_collection W) db)" "candid d \<noteq> c" for d
      using one_deleted_gone [OF del that(1)] that(2) by blast
    then show ?thesis
      using one_deleted_subset [OF del] assms(1) Mongo st' by auto
  qed (use assms(1) Mongo st' in simp)
qed

lemma evict_sound:
  "storage_sound W I st \<Longrightarrow> storage_sound W I (evict_from_cache W cs st) \<and>
   (\<forall>c. holds_cutouts W c (evict_from_cache W cs st) = holds_cutouts W c st)"
proof (cases st)
  case (S3 st0)
  assume "storage_sound W I st"
  moreover obtain x q where q: "cache_del (cache (services W)) (map (cache_key (s3 W)) cs) (cached st0) = (x, q)" by fastforce
  ultimately show ?thesis
    using S3 cache_sound_from [OF _ cache_del_law [OF q], of I]
    by (auto simp: s3_evict_def cache_delete_many_def)
qed simp

lemma step_sound:
  assumes "storage_sound W I st"
  shows "storage_sound W ({x. op = Insert x} \<union> I) (cutout_step W op st) \<and>
    (\<forall>c. op \<noteq> Delete c \<longrightarrow> holds_cutouts W c st \<longrightarrow> holds_cutouts W c (cutout_step W op st))"
proof (cases op)
  case (Insert x)
  with insert_sound [OF assms, of x] show ?thesis by (cases "insert_cutouts W x st") auto
next
  case (Retrieve c populate)
  with retrieve_sound [OF assms, of c populate] show ?thesis by (cases "retrieve_cutouts W c populate st") auto
next
  case (Retrieve_Multiple cs populate)
  with retrieve_multiple_sound [OF assms, of cs populate] show ?thesis
    by (cases "retrieve_multiple_cutouts W cs populate st") auto
next
  case (Delete c)
  with delete_sound [OF assms, of c] show ?thesis by (cases "delete_cutouts W c st") auto
next
  case (Evict cs)
  with evict_sound [OF assms, of cs] show ?thesis by auto
qed

lemma run_sound:
  "storage_sound W I st \<Longrightarrow> storage_sound W ({x. Insert x \<in> set ops} \<union> I) (cutout_run W ops st) \<and>
    (\<forall>c. Delete c \<notin> set ops \<longrightarrow> holds_cutouts W c st \<longrightarrow> holds_cutouts W c (cutout_run W ops st))"
proof (induction ops arbitrary: I st)
  case (Cons op ops)
  have "{x. Insert x \<in> set (op # ops)} \<union> I = {x. Insert x \<in> set ops} \<union> ({x. op = Insert x} \<union> I)"
    by auto
  with Cons.IH [OF conjunct1 [OF step_sound [OF Cons.prems, of op]]] step_sound [OF Cons.prems, of op]
  show ?case by (auto simp: cutout_run_def)
qed (simp add: cutout_run_def)

end

section \<open>A storage in memory\<close>

text \<open>The bucket and the cache as maps, with no compression; bytes as JSON; stamps that are not too long.\<close>

definition memory_services :: "(string \<Rightarrow> u8 list option, string \<Rightarrow> u8 list option) cutout_services" where
  "memory_services =
     \<lparr>store = \<lparr>objects = id, put_object = (\<lambda>k b s. (Inr (), s(k \<mapsto> b))),
        get_object = (\<lambda>k s. case s k of None \<Rightarrow> Inl NoSuchKey | Some b \<Rightarrow> Inr b),
        delete_object = (\<lambda>k s. (Inr (), s(k := None)))\<rparr>,
      cache = \<lparr>entries = id, cache_set_ex = (\<lambda>k b _ r. (Inr (), r(k \<mapsto> b))), cache_get = (\<lambda>k r. (Inr (r k), r)),
        cache_mget = (\<lambda>ks r. (Inr (map r ks), r)), cache_set_many = (\<lambda>kbs _ r. (Inr (), fold (\<lambda>(k, b) r. r(k \<mapsto> b)) kbs r)),
        cache_del = (\<lambda>ks r. (Inr (), fold (\<lambda>k r. r(k := None)) ks r))\<rparr>,
      to_json = (\<lambda>x. if length (pack x) < 2 ^ 64 then Inr (to_le_bytes (candid x) @ pack x) else Inl ''too long''),
      from_json = (\<lambda>b. case unpack (le_value (take 8 b)) (drop 8 b) of None \<Rightarrow> Inl ''not JSON'' | Some x \<Rightarrow> Inr x),
      compressor = Some, decompressor = Some, arrivals = rev\<rparr>"

definition memory_storage ::
  "(string \<Rightarrow> u8 list option, string \<Rightarrow> u8 list option, alert_cutout list) cutout_storage" where
  "memory_storage = \<lparr>services = memory_services,
     s3 = \<lparr>object_prefix = ''ztf'', cache_prefix = ''ztf'', ttl_seconds = 60, stamps_compressed = False\<rparr>,
     duplicate_key = (\<lambda>_. True), cutout_collection = list_coll (\<lambda>d. Some (int_text (sint (candid d)))),
     document_reads = (\<lambda>_ _. True)\<rparr>"

lemma fold_set_from: "entries_from kbs m (fold (\<lambda>(k, b) r. r(k \<mapsto> b)) kbs m)"
proof (induction kbs arbitrary: m)
  case (Cons kb kbs)
  obtain k b where kb: "kb = (k, b)" by fastforce
  show ?case
    using Cons [of "m(k \<mapsto> b)"] by (auto simp: kb entries_from_def split: if_splits)
qed (simp add: entries_from_def)

lemma fold_del_from: "entries_from [] m (fold (\<lambda>k r. r(k := None)) ks m)"
proof (induction ks arbitrary: m)
  case (Cons k ks)
  show ?case
    using Cons [of "m(k := None)"] unfolding entries_from_def by (simp split: if_splits) (metis option.distinct(1))
qed (simp add: entries_from_def)

interpretation memory_cutouts: cutout_world memory_storage
proof (rule cutout_world.intro, goal_cases)
  case (5 k b ttl q x q')
  then show ?case by (auto simp: memory_storage_def memory_services_def entries_from_def split: if_splits)
next
  case (8 kbs ttl q x q')
  then show ?case using fold_set_from by (auto simp: memory_storage_def memory_services_def)
next
  case (9 ks q x q')
  then show ?case using fold_del_from by (auto simp: memory_storage_def memory_services_def)
next
  case (10 c b)
  then show ?case
    using unpack_pack [of c] by (auto simp: memory_storage_def memory_services_def le_round_trip split: if_splits)
next
  case (13)
  show ?case by (simp add: memory_storage_def list_store.doc_store_axioms)
next
  case (15 c db e db')
  then show ?case
    by (auto simp: memory_storage_def list_coll_def fresh_id_def list_ex_iff image_iff split: if_splits) metis
qed (auto simp: memory_storage_def memory_services_def object_written_def entries_from_def list_coll_def
    list_all2_map1 list_all2_map2 list.rel_refl split: option.splits)

section \<open>What is read was inserted, and stays\<close>

text \<open>Nothing is stored.\<close>

fun empty_storage :: "('s, 'r, 'db) cutout_storage \<Rightarrow> ('s, 'r, 'db) cutout_state \<Rightarrow> bool" where
  "empty_storage W (S3 st) \<longleftrightarrow> (\<forall>k. objects (store (services W)) (bucket st) k = None) \<and>
     (\<forall>k. entries (cache (services W)) (cached st) k = None)"
| "empty_storage W (Mongo db) \<longleftrightarrow> docs (cutout_collection W) db = []"

lemma empty_sound: "empty_storage W st \<Longrightarrow> storage_sound W {} st"
  by (cases st) (auto simp: bucket_sound_def cache_sound_def)

lemma empty_run_sound:
  assumes "cutout_world W" "empty_storage W st"
  shows "storage_sound W {x. Insert x \<in> set ops} (cutout_run W ops st)"
  using cutout_world.run_sound [OF assms(1) empty_sound [OF assms(2)], of ops] by simp

text \<open>
  C27: Whatever is done with the cutout storage, and whatever of the cache and the object store
  fails, cutouts that are read, one alert's or many, are byte for byte ones that were inserted for
  the alert asked for.
\<close>

theorem retrieved_cutouts_were_inserted:
  assumes "cutout_world W" "empty_storage W st"
  shows "(retrieve_cutouts W c populate (cutout_run W ops st) = (Inr x, st') \<longrightarrow> Insert x \<in> set ops \<and> candid x = c) \<and>
    (retrieve_multiple_cutouts W cs populate (cutout_run W ops st) = (Inr found, st') \<longrightarrow>
       (\<forall>(c, x)\<in>set found. c \<in> set cs \<and> Insert x \<in> set ops \<and> candid x = c))"
  using cutout_world.retrieve_sound [OF assms(1) empty_run_sound [OF assms, of ops], of c populate]
    cutout_world.retrieve_multiple_sound [OF assms(1) empty_run_sound [OF assms, of ops], of cs populate]
  by fastforce

definition demo_cutout :: alert_cutout where
  "demo_cutout = \<lparr>candid = 7, cutout_science = [1, 2], cutout_template = [3], cutout_difference = []\<rparr>"

definition no_cutouts :: "(string \<Rightarrow> u8 list option, string \<Rightarrow> u8 list option, alert_cutout list) cutout_state" where
  "no_cutouts = S3 \<lparr>bucket = (\<lambda>_. None), cached = (\<lambda>_. None)\<rparr>"

lemma no_cutouts_empty: "empty_storage memory_storage no_cutouts"
  by (simp add: memory_storage_def memory_services_def no_cutouts_def)

theorem retrieved_cutouts_were_inserted_witness:
  "\<forall>x st' found. (retrieve_cutouts memory_storage 7 True (cutout_run memory_storage [Insert demo_cutout] no_cutouts) = (Inr x, st')
      \<longrightarrow> Insert x \<in> set [Insert demo_cutout] \<and> candid x = 7) \<and>
    (retrieve_multiple_cutouts memory_storage [7, 8] True (cutout_run memory_storage [Insert demo_cutout] no_cutouts) = (Inr found, st') \<longrightarrow>
       (\<forall>(c, x)\<in>set found. c \<in> set [7, 8] \<and> Insert x \<in> set [Insert demo_cutout] \<and> candid x = c))"
  by (intro allI, rule retrieved_cutouts_were_inserted [OF memory_cutouts.cutout_world_axioms no_cutouts_empty])

text \<open>
  C28: Cutouts whose insertion was answered (or refused because they are there) are found afterwards:
  unless they are deleted, a later read answers an inserted value or reports a failure, but never
  that there are none; and a batch that is answered has them, if their document can be read back:
  of MongoDB's answer to a batch the code silently drops the documents it cannot read.
\<close>

theorem inserted_cutouts_are_found:
  assumes "cutout_world W" "empty_storage W st"
    and "insert_cutouts W x (cutout_run W ops st) = (r, st1)" "r = Inr () \<or> (\<exists>c. r = Inl (CutoutAlreadyExists c))"
    and "Delete (candid x) \<notin> set ops'"
  shows "fst (retrieve_cutouts W (candid x) populate (cutout_run W ops' st1)) \<noteq> Inl CutoutsNotFound \<and>
    (readable W (candid x) (cutout_run W ops' st1) \<and> candid x \<in> set cs \<and>
       retrieve_multiple_cutouts W cs populate (cutout_run W ops' st1) = (Inr found, st') \<longrightarrow>
       candid x \<in> fst ` set found)"
proof -
  note ins = cutout_world.insert_sound [OF assms(1) empty_run_sound [OF assms(1,2)] assms(3)]
  note later = cutout_world.run_sound [OF assms(1) conjunct1 [OF ins], of ops']
  from ins assms(4) have "holds_cutouts W (candid x) st1" by blast
  with later assms(5) have held: "holds_cutouts W (candid x) (cutout_run W ops' st1)" by blast
  show ?thesis
    using cutout_world.retrieve_sound [OF assms(1) conjunct1 [OF later], of "candid x" populate]
      cutout_world.retrieve_multiple_sound [OF assms(1) conjunct1 [OF later], of cs populate] held
    by (cases "retrieve_cutouts W (candid x) populate (cutout_run W ops' st1)") fastforce
qed

lemma demo_inserted:
  "insert_cutouts memory_storage demo_cutout (cutout_run memory_storage [] no_cutouts) =
     (Inr (), snd (insert_cutouts memory_storage demo_cutout no_cutouts))"
  by (simp add: cutout_run_def no_cutouts_def s3_insert_def insert_alert_cutouts_def memory_storage_def
      memory_services_def demo_cutout_def pack_def pack_stamp_def)

theorem inserted_cutouts_are_found_witness:
  "\<forall>found st'. fst (retrieve_cutouts memory_storage (candid demo_cutout) True
       (cutout_run memory_storage [Evict [7]] (snd (insert_cutouts memory_storage demo_cutout no_cutouts)))) \<noteq> Inl CutoutsNotFound \<and>
    (readable memory_storage (candid demo_cutout) (cutout_run memory_storage [Evict [7]] (snd (insert_cutouts memory_storage demo_cutout no_cutouts))) \<and>
       candid demo_cutout \<in> set [7] \<and>
       retrieve_multiple_cutouts memory_storage [7] True
         (cutout_run memory_storage [Evict [7]] (snd (insert_cutouts memory_storage demo_cutout no_cutouts))) = (Inr found, st') \<longrightarrow>
       candid demo_cutout \<in> fst ` set found)"
  by (intro allI, rule inserted_cutouts_are_found [OF memory_cutouts.cutout_world_axioms no_cutouts_empty demo_inserted])
    simp_all

end
