(* ===== verification/Alert_Process.thy ===== *)
theory Alert_Process
  imports Ztf_Packet Alert_Aux Alert_Queue Cutout_Histories
begin

text \<open>
  The processing of one ZTF alert (\<open>src/src/alert/ztf.rs\<close>, \<open>process_alert\<close>; the helpers of
  \<open>src/src/alert/base.rs\<close>): decoding, the check that the alert is new, matches in other surveys, the
  object's auxiliary document, the cutouts, and last the alert itself.  It is modelled twice: as the
  code has it, and as a sequence of steps with one call of a shared store each, which a history of
  several workers interleaves.  Catalog cross-matches, host association and positions are
  functions of the services, \<open>'o\<close> the collections they read.
\<close>

section \<open>The alert\<close>

record ztf_aliases =
  al_lsst :: "string list"
  al_decam :: "string list"

record ('g, 'm, 'h) object_facts =
  obj_cross_matches :: 'm
  obj_host_galaxy :: "'h option"
  obj_coordinates :: 'g
  obj_created_at :: f64

type_synonym ('g, 'm, 'h) aux_object =
  "(ztf_prv_candidate, ztf_forced_phot, ztf_aliases, ('g, 'm, 'h) object_facts) ztf_object"

record 'g ztf_alert =
  stored_candid :: i64
  stored_object :: string
  stored_candidate :: ztf_candidate
  stored_coordinates :: 'g
  stored_created_at :: f64
  stored_updated_at :: f64

text \<open>\<open>near\<close> is the nearest object of a survey around a point, its id if that is a string;
  \<open>coordinates_of\<close> is \<open>Coordinates::new\<close>, which panics outside the sphere.\<close>

record ('adb, 'xdb, 's, 'r, 'db, 'o, 'g, 'm, 'h) alert_world =
  alerts :: "('adb, 'g ztf_alert) collection"
  aux_objects :: "('xdb, ('g, 'm, 'h) aux_object) collection"
  cutout_store :: "('s, 'r, 'db) cutout_storage"
  is_duplicate :: "mongo_error \<Rightarrow> bool"
  floats :: float_unit
  display :: "f64 \<Rightarrow> string"
  radians :: "f64 \<Rightarrow> f64"
  near :: "survey \<Rightarrow> f64 \<Rightarrow> f64 \<Rightarrow> f64 \<Rightarrow> 'o \<Rightarrow> (mongo_error, string option option) result"
  xmatch :: "f64 \<Rightarrow> f64 \<Rightarrow> string \<Rightarrow> 'o \<Rightarrow> (string, 'm) result"
  associate_with_photometry :: "f64 \<Rightarrow> f64 \<Rightarrow> 'm \<Rightarrow> string \<Rightarrow> 'o \<Rightarrow> 'h option"
  coordinates_of :: "f64 \<Rightarrow> f64 \<Rightarrow> 'g option"

record ('adb, 'xdb, 's, 'r, 'db, 'o) alert_state =
  alert_db :: 'adb
  aux_db :: 'xdb
  cutout_db :: "('s, 'r, 'db) cutout_state"
  other_db :: 'o

definition ztf_times :: "('adb, 'xdb, 's, 'r, 'db, 'o, 'g, 'm, 'h) alert_world \<Rightarrow> (ztf_prv_candidate, ztf_forced_phot) series_times" where
  "ztf_times E = \<lparr>prv_time = p_jd \<circ> prv_candidate, fp_time = h_jd \<circ> fp_hist, display_jd = display E\<rparr>"

section \<open>Reading a packet\<close>

text \<open>The library with the packet's own deserialisers; an inner \<^const>\<open>None\<close> is a panic.\<close>

definition ztf_library :: "float_unit \<Rightarrow> ('sch, 'v, raw_packet) avro_library \<Rightarrow> ('sch, 'v, ztf_raw_avro_alert option) avro_library" where
  "ztf_library F lib = \<lparr>parse_str = parse_str lib, from_avro_datum = from_avro_datum lib,
     from_value = (\<lambda>v. and_then (from_value lib v) (\<lambda>raw.
       case deserialize_packet F raw of None \<Rightarrow> Inr None | Some r \<Rightarrow> and_then r (\<lambda>a. Inr (Some a))))\<rparr>"

record 'g intake =
  job_candid :: i64
  job_object :: string
  job_ra :: f64
  job_dec :: f64
  job_now :: f64
  job_curves :: "(ztf_prv_candidate, ztf_forced_phot) light_curves"
  job_alert :: "'g ztf_alert"
  job_position :: 'g
  job_cutouts :: alert_cutout

definition intake_of ::
  "('adb, 'xdb, 's, 'r, 'db, 'o, 'g, 'm, 'h) alert_world \<Rightarrow> f64 \<Rightarrow> ztf_raw_avro_alert \<Rightarrow> 'g intake option" where
  "intake_of E now a =
     (let zc = av_candidate a; ra = c_ra (candidate zc); dc = c_dec (candidate zc); T = ztf_times E;
          (detections, limits) = split_prv_candidates (case av_prv_candidates a of None \<Rightarrow> [] | Some ps \<Rightarrow> ps);
          fps = (case av_fp_hists a of None \<Rightarrow> [] | Some fs \<Rightarrow> fs)
      in map_option (\<lambda>g.
           \<lparr>job_candid = av_candid a, job_object = av_object_id a, job_ra = ra, job_dec = dc, job_now = now,
            job_curves = \<lparr>new_prv_candidates = sanitize_timeseries (prv_time T) (with_candidate zc detections),
              new_prv_nondetections = sanitize_timeseries (prv_time T) limits,
              new_fp_hists = sanitize_timeseries (fp_time T) fps\<rparr>,
            job_alert = \<lparr>stored_candid = av_candid a, stored_object = av_object_id a, stored_candidate = zc,
              stored_coordinates = g, stored_created_at = now, stored_updated_at = now\<rparr>,
            job_position = g,
            job_cutouts = \<lparr>candid = av_candid a, cutout_science = av_cutout_science a,
              cutout_template = av_cutout_template a, cutout_difference = av_cutout_difference a\<rparr>\<rparr>)
         (coordinates_of E ra dc))"

definition read_packet ::
  "('adb, 'xdb, 's, 'r, 'db, 'o, 'g, 'm, 'h) alert_world \<Rightarrow> ('sch, 'v, raw_packet) avro_library \<Rightarrow> f64 \<Rightarrow> u8 list \<Rightarrow>
   'sch schema_cache \<Rightarrow> (alert_error, 'g intake) result option \<times> 'sch schema_cache" where
  "read_packet E lib now avro_bytes sc =
     (case alert_from_avro_bytes (ztf_library (floats E) lib) avro_bytes sc of
        (Some (Inr (Some a)), sc) \<Rightarrow> (map_option Inr (intake_of E now a), sc)
      | (Some (Inl e), sc) \<Rightarrow> (Some (Inl e), sc)
      | (_, sc) \<Rightarrow> (None, sc))"

section \<open>The calls\<close>

definition check_alert_exists ::
  "('adb, 'xdb, 's, 'r, 'db, 'o, 'g, 'm, 'h) alert_world \<Rightarrow> i64 \<Rightarrow> 'adb \<Rightarrow> (alert_error, bool) result" where
  "check_alert_exists E c adb =
     (case find_docs (alerts E) (\<lambda>a. stored_candid a = c) None None adb of
        Inl e \<Rightarrow> Inl (Mongodb (driver_text e))
      | Inr found \<Rightarrow> Inr (0 < length found))"

definition get_matches ::
  "('adb, 'xdb, 's, 'r, 'db, 'o, 'g, 'm, 'h) alert_world \<Rightarrow> f64 \<Rightarrow> f64 \<Rightarrow> real \<times> real \<Rightarrow> f64 \<Rightarrow> survey \<Rightarrow> 'o \<Rightarrow>
   (alert_error, string list) result" where
  "get_matches E ra dc dec_range radius_rad survey o' =
     (if f64_le (Num (fst dec_range)) dc \<and> f64_le dc (Num (snd dec_range))
      then case near E survey (d_sub (floats E) ra (Num 180)) dc radius_rad o' of
             Inr (Some (Some oid)) \<Rightarrow> Inr [oid]
           | Inr (Some None) \<Rightarrow> Inl (BsonValueAccess ''_id'')
           | Inr None \<Rightarrow> Inr []
           | Inl _ \<Rightarrow> Inr []
      else Inr [])"

definition LSST_DEC_RANGE :: "real \<times> real" where "LSST_DEC_RANGE = (- 90, 335 / 10)"
definition DECAM_DEC_RANGE :: "real \<times> real" where "DECAM_DEC_RANGE = (- 90, 335 / 10)"
definition ZTF_POSITION_UNCERTAINTY :: real where "ZTF_POSITION_UNCERTAINTY = 2"
definition LSST_POSITION_UNCERTAINTY :: real where "LSST_POSITION_UNCERTAINTY = 1 / 10"
definition DECAM_POSITION_UNCERTAINTY :: real where "DECAM_POSITION_UNCERTAINTY = 124 / 100"

definition xmatch_radius :: "('adb, 'xdb, 's, 'r, 'db, 'o, 'g, 'm, 'h) alert_world \<Rightarrow> real \<Rightarrow> f64" where
  "xmatch_radius E other = radians E (d_div (floats E) (Num (max ZTF_POSITION_UNCERTAINTY other)) (Num 3600))"

definition format_and_insert_cutouts ::
  "('adb, 'xdb, 's, 'r, 'db, 'o, 'g, 'm, 'h) alert_world \<Rightarrow> alert_cutout \<Rightarrow> ('s, 'r, 'db) cutout_state \<Rightarrow>
   (alert_error, unit) result \<times> ('s, 'r, 'db) cutout_state" where
  "format_and_insert_cutouts E cutouts st =
     (case insert_cutouts (cutout_store E) cutouts st of
        (Inr _, st) \<Rightarrow> (Inr (), st)
      | (Inl (CutoutAlreadyExists _), st) \<Rightarrow> (Inr (), st)
      | (Inl e, st) \<Rightarrow> (Inl (CutoutStorageError ''cutout storage error''), st))"

definition format_and_insert_alert ::
  "('adb, 'xdb, 's, 'r, 'db, 'o, 'g, 'm, 'h) alert_world \<Rightarrow> i64 \<Rightarrow> 'g ztf_alert \<Rightarrow> 'adb \<Rightarrow>
   (alert_error, process_alert_status) result \<times> 'adb" where
  "format_and_insert_alert E c alert adb =
     (case insert_one (alerts E) alert adb of
        (Inr _, adb) \<Rightarrow> (Inr (Added c), adb)
      | (Inl e, adb) \<Rightarrow> (if is_duplicate E e then Inr (Exists c) else Inl (Mongodb (driver_text e)), adb))"

section \<open>One alert, as the code has it\<close>

definition get_survey_matches ::
  "('adb, 'xdb, 's, 'r, 'db, 'o, 'g, 'm, 'h) alert_world \<Rightarrow> f64 \<Rightarrow> f64 \<Rightarrow> 'o \<Rightarrow> (alert_error, ztf_aliases) result" where
  "get_survey_matches E ra dc o' =
     and_then (get_matches E ra dc LSST_DEC_RANGE (xmatch_radius E LSST_POSITION_UNCERTAINTY) Lsst o') (\<lambda>lsst_matches.
     and_then (get_matches E ra dc DECAM_DEC_RANGE (xmatch_radius E DECAM_POSITION_UNCERTAINTY) Decam o') (\<lambda>decam_matches.
     Inr \<lparr>al_lsst = lsst_matches, al_decam = decam_matches\<rparr>))"

definition object_for ::
  "'g intake \<Rightarrow> ztf_aliases \<Rightarrow> 'm \<Rightarrow> 'h option \<Rightarrow> ('g, 'm, 'h) aux_object" where
  "object_for j survey_matches xmatches host =
     \<lparr>object_id = job_object j, prv_candidates = new_prv_candidates (job_curves j),
      prv_nondetections = new_prv_nondetections (job_curves j), fp_hists = new_fp_hists (job_curves j),
      aliases = Some survey_matches, updated_at = job_now j, version = None,
      written_once = \<lparr>obj_cross_matches = xmatches, obj_host_galaxy = host, obj_coordinates = job_position j,
        obj_created_at = job_now j\<rparr>\<rparr>"

definition add_object ::
  "('adb, 'xdb, 's, 'r, 'db, 'o, 'g, 'm, 'h) alert_world \<Rightarrow> 'g intake \<Rightarrow> ztf_aliases \<Rightarrow> 'o \<Rightarrow> 'xdb \<Rightarrow>
   (alert_error, unit) result \<times> 'xdb" where
  "add_object E j survey_matches o' xdb =
     (case xmatch E (job_ra j) (job_dec j) (job_object j) o' of
        Inl e \<Rightarrow> (Inl (Xmatch e), xdb)
      | Inr xmatches \<Rightarrow>
          (let host = associate_with_photometry E (job_ra j) (job_dec j) xmatches (job_object j) o'
           in case insert_aux (is_duplicate E) (aux_objects E) (object_for j survey_matches xmatches host) xdb of
                (Inl AlertAuxExists, xdb) \<Rightarrow>
                  update_aux_fallback (aux_objects E) (ztf_times E) (job_object j) (job_curves j) (Some survey_matches) (job_now j) xdb
              | r \<Rightarrow> r))"

definition write_aux ::
  "('adb, 'xdb, 's, 'r, 'db, 'o, 'g, 'm, 'h) alert_world \<Rightarrow> 'g intake \<Rightarrow> ztf_aliases \<Rightarrow> 'o \<Rightarrow> 'xdb \<Rightarrow>
   (alert_error, unit) result \<times> 'xdb" where
  "write_aux E j survey_matches o' xdb =
     (case get_existing_aux (aux_objects E) (ztf_times E) (job_object j) xdb of
        Inl e \<Rightarrow> (Inl e, xdb)
      | Inr (Some existing) \<Rightarrow>
          update_aux (aux_objects E) (ztf_times E) (job_object j) (job_curves j) (Some survey_matches) (job_now j) existing xdb
      | Inr None \<Rightarrow> add_object E j survey_matches o' xdb)"

definition ztf_process_alert ::
  "('adb, 'xdb, 's, 'r, 'db, 'o, 'g, 'm, 'h) alert_world \<Rightarrow> 'g intake \<Rightarrow> ('adb, 'xdb, 's, 'r, 'db, 'o) alert_state \<Rightarrow>
   (alert_error, process_alert_status) result \<times> ('adb, 'xdb, 's, 'r, 'db, 'o) alert_state" where
  "ztf_process_alert E j st =
     (case check_alert_exists E (job_candid j) (alert_db st) of
        Inl e \<Rightarrow> (Inl e, st)
      | Inr True \<Rightarrow> (Inr (Exists (job_candid j)), st)
      | Inr False \<Rightarrow>
          (case get_survey_matches E (job_ra j) (job_dec j) (other_db st) of
             Inl e \<Rightarrow> (Inl e, st)
           | Inr survey_matches \<Rightarrow>
               (case write_aux E j survey_matches (other_db st) (aux_db st) of
                  (Inl e, xdb) \<Rightarrow> (Inl e, st\<lparr>aux_db := xdb\<rparr>)
                | (Inr _, xdb) \<Rightarrow>
                    (case format_and_insert_cutouts E (job_cutouts j) (cutout_db st) of
                       (Inl e, cdb) \<Rightarrow> (Inl e, st\<lparr>aux_db := xdb, cutout_db := cdb\<rparr>)
                     | (Inr _, cdb) \<Rightarrow>
                         (case format_and_insert_alert E (job_candid j) (job_alert j) (alert_db st) of
                            (r, adb) \<Rightarrow> (r, st\<lparr>aux_db := xdb, cutout_db := cdb, alert_db := adb\<rparr>))))))"

section \<open>One alert, call by call\<close>

datatype ('m, 'h) stage =
    Checking
  | Matching_Lsst
  | Matching_Decam "string list"
  | Reading ztf_aliases
  | Pushing ztf_aliases alert_aux_for_update
  | Associating ztf_aliases
  | Inserting ztf_aliases 'm "'h option"
  | Falling_Back ztf_aliases
  | Storing_Cutouts
  | Storing_Alert
  | Ended "(alert_error, process_alert_status) result"

fun work ::
  "('adb, 'xdb, 's, 'r, 'db, 'o, 'g, 'm, 'h) alert_world \<Rightarrow> 'g intake \<Rightarrow> ('m, 'h) stage \<Rightarrow>
   ('adb, 'xdb, 's, 'r, 'db, 'o) alert_state \<Rightarrow> ('m, 'h) stage \<times> ('adb, 'xdb, 's, 'r, 'db, 'o) alert_state" where
  "work E j Checking st =
     (case check_alert_exists E (job_candid j) (alert_db st) of
        Inl e \<Rightarrow> (Ended (Inl e), st)
      | Inr found \<Rightarrow> (if found then Ended (Inr (Exists (job_candid j))) else Matching_Lsst, st))"
| "work E j Matching_Lsst st =
     (case get_matches E (job_ra j) (job_dec j) LSST_DEC_RANGE (xmatch_radius E LSST_POSITION_UNCERTAINTY) Lsst (other_db st) of
        Inl e \<Rightarrow> (Ended (Inl e), st)
      | Inr lsst \<Rightarrow> (Matching_Decam lsst, st))"
| "work E j (Matching_Decam lsst) st =
     (case get_matches E (job_ra j) (job_dec j) DECAM_DEC_RANGE (xmatch_radius E DECAM_POSITION_UNCERTAINTY) Decam (other_db st) of
        Inl e \<Rightarrow> (Ended (Inl e), st)
      | Inr decam \<Rightarrow> (Reading \<lparr>al_lsst = lsst, al_decam = decam\<rparr>, st))"
| "work E j (Reading m) st =
     (case get_existing_aux (aux_objects E) (ztf_times E) (job_object j) (aux_db st) of
        Inl e \<Rightarrow> (Ended (Inl e), st)
      | Inr (Some existing) \<Rightarrow> (Pushing m existing, st)
      | Inr None \<Rightarrow> (Associating m, st))"
| "work E j (Pushing m existing) st =
     (case update_aux_inner (aux_objects E) (ztf_times E) (job_object j) (job_curves j) (Some m) (job_now j) existing (aux_db st) of
        (Inr _, xdb) \<Rightarrow> (Storing_Cutouts, st\<lparr>aux_db := xdb\<rparr>)
      | (Inl _, xdb) \<Rightarrow> (Falling_Back m, st\<lparr>aux_db := xdb\<rparr>))"
| "work E j (Associating m) st =
     (case xmatch E (job_ra j) (job_dec j) (job_object j) (other_db st) of
        Inl e \<Rightarrow> (Ended (Inl (Xmatch e)), st)
      | Inr x \<Rightarrow> (Inserting m x (associate_with_photometry E (job_ra j) (job_dec j) x (job_object j) (other_db st)), st))"
| "work E j (Inserting m x h) st =
     (case insert_aux (is_duplicate E) (aux_objects E) (object_for j m x h) (aux_db st) of
        (Inr _, xdb) \<Rightarrow> (Storing_Cutouts, st\<lparr>aux_db := xdb\<rparr>)
      | (Inl e, xdb) \<Rightarrow> (if e = AlertAuxExists then Falling_Back m else Ended (Inl e), st\<lparr>aux_db := xdb\<rparr>))"
| "work E j (Falling_Back m) st =
     (case update_aux_fallback (aux_objects E) (ztf_times E) (job_object j) (job_curves j) (Some m) (job_now j) (aux_db st) of
        (Inr _, xdb) \<Rightarrow> (Storing_Cutouts, st\<lparr>aux_db := xdb\<rparr>)
      | (Inl e, xdb) \<Rightarrow> (Ended (Inl e), st\<lparr>aux_db := xdb\<rparr>))"
| "work E j Storing_Cutouts st =
     (case format_and_insert_cutouts E (job_cutouts j) (cutout_db st) of
        (Inr _, cdb) \<Rightarrow> (Storing_Alert, st\<lparr>cutout_db := cdb\<rparr>)
      | (Inl e, cdb) \<Rightarrow> (Ended (Inl e), st\<lparr>cutout_db := cdb\<rparr>))"
| "work E j Storing_Alert st =
     (case format_and_insert_alert E (job_candid j) (job_alert j) (alert_db st) of
        (r, adb) \<Rightarrow> (Ended r, st\<lparr>alert_db := adb\<rparr>))"
| "work E j (Ended r) st = (Ended r, st)"

text \<open>The steps of one alert on its own.\<close>

fun run_alone ::
  "('adb, 'xdb, 's, 'r, 'db, 'o, 'g, 'm, 'h) alert_world \<Rightarrow> 'g intake \<Rightarrow> nat \<Rightarrow> ('m, 'h) stage \<Rightarrow>
   ('adb, 'xdb, 's, 'r, 'db, 'o) alert_state \<Rightarrow> ('m, 'h) stage \<times> ('adb, 'xdb, 's, 'r, 'db, 'o) alert_state" where
  "run_alone E j 0 g st = (g, st)"
| "run_alone E j (Suc n) g st = (let (g, st) = work E j g st in run_alone E j n g st)"

lemma run_ended [simp]: "run_alone E j n (Ended r) st = (Ended r, st)"
  by (induction n) simp_all

text \<open>What is left once the auxiliary document is written.\<close>

definition finish_alert ::
  "('adb, 'xdb, 's, 'r, 'db, 'o, 'g, 'm, 'h) alert_world \<Rightarrow> 'g intake \<Rightarrow> ('adb, 'xdb, 's, 'r, 'db, 'o) alert_state \<Rightarrow>
   (alert_error, process_alert_status) result \<times> ('adb, 'xdb, 's, 'r, 'db, 'o) alert_state" where
  "finish_alert E j st =
     (case format_and_insert_cutouts E (job_cutouts j) (cutout_db st) of
        (Inl e, cdb) \<Rightarrow> (Inl e, st\<lparr>cutout_db := cdb\<rparr>)
      | (Inr _, cdb) \<Rightarrow>
          (case format_and_insert_alert E (job_candid j) (job_alert j) (alert_db st) of
             (r, adb) \<Rightarrow> (r, st\<lparr>cutout_db := cdb, alert_db := adb\<rparr>)))"

definition ended :: "(alert_error, process_alert_status) result \<times> 'st \<Rightarrow> ('m, 'h) stage \<times> 'st" where
  "ended r = (Ended (fst r), snd r)"

lemma run_finish:
  "run_alone E j (Suc (Suc n)) Storing_Cutouts st = ended (finish_alert E j st)"
  by (cases "format_and_insert_cutouts E (job_cutouts j) (cutout_db st)"; cases "fst (format_and_insert_cutouts E (job_cutouts j) (cutout_db st))")
    (auto simp: finish_alert_def ended_def split: prod.splits)

text \<open>What follows the result of writing the auxiliary document.\<close>

definition after_aux ::
  "('adb, 'xdb, 's, 'r, 'db, 'o, 'g, 'm, 'h) alert_world \<Rightarrow> 'g intake \<Rightarrow> ('adb, 'xdb, 's, 'r, 'db, 'o) alert_state \<Rightarrow>
   (alert_error, unit) result \<times> 'xdb \<Rightarrow> (alert_error, process_alert_status) result \<times> ('adb, 'xdb, 's, 'r, 'db, 'o) alert_state" where
  "after_aux E j st w =
     (case w of
        (Inl e, xdb) \<Rightarrow> (Inl e, st\<lparr>aux_db := xdb\<rparr>)
      | (Inr _, xdb) \<Rightarrow> finish_alert E j (st\<lparr>aux_db := xdb\<rparr>))"

lemma run_fallback:
  "run_alone E j (Suc (Suc (Suc n))) (Falling_Back m) st =
     ended (after_aux E j st (update_aux_fallback (aux_objects E) (ztf_times E) (job_object j) (job_curves j) (Some m) (job_now j) (aux_db st)))"
proof -
  obtain r xdb where u: "update_aux_fallback (aux_objects E) (ztf_times E) (job_object j) (job_curves j) (Some m) (job_now j) (aux_db st) = (r, xdb)"
    by fastforce
  show ?thesis
    by (cases r) (simp_all add: u after_aux_def run_finish ended_def del: run_alone.simps(2) add: run_alone.simps(2) [of E j "Suc (Suc n)"])
qed

lemma run_push:
  "run_alone E j (Suc (Suc (Suc (Suc n)))) (Pushing m existing) st =
     ended (after_aux E j st (update_aux (aux_objects E) (ztf_times E) (job_object j) (job_curves j) (Some m) (job_now j) existing (aux_db st)))"
proof -
  obtain r xdb where u: "update_aux_inner (aux_objects E) (ztf_times E) (job_object j) (job_curves j) (Some m) (job_now j) existing (aux_db st) = (r, xdb)"
    by fastforce
  show ?thesis
    by (cases r) (simp_all add: u update_aux_def after_aux_def run_finish run_fallback ended_def
        del: run_alone.simps(2) add: run_alone.simps(2) [of E j "Suc (Suc (Suc n))"] split: prod.splits sum.splits)
qed

lemma run_insert:
  "run_alone E j (Suc (Suc (Suc (Suc (Suc n))))) (Associating m) st =
     ended (after_aux E j st (add_object E j m (other_db st) (aux_db st)))"
proof (cases "xmatch E (job_ra j) (job_dec j) (job_object j) (other_db st)")
  case (Inl e)
  then show ?thesis by (simp add: add_object_def after_aux_def ended_def)
next
  case (Inr x)
  let ?h = "associate_with_photometry E (job_ra j) (job_dec j) x (job_object j) (other_db st)"
  obtain r xdb where u: "insert_aux (is_duplicate E) (aux_objects E) (object_for j m x ?h) (aux_db st) = (r, xdb)"
    by fastforce
  show ?thesis
  proof (cases r)
    case (Inl e)
    then show ?thesis
      by (cases e) (simp_all add: Inr u add_object_def run_fallback after_aux_def ended_def
          del: run_alone.simps(2) add: run_alone.simps(2) [of E j "Suc (Suc (Suc (Suc n)))"] run_alone.simps(2) [of E j "Suc (Suc (Suc n))"]
          split: prod.splits sum.splits)
  next
    case r: (Inr y)
    then show ?thesis
      by (simp add: Inr u add_object_def run_finish after_aux_def ended_def
          del: run_alone.simps(2) add: run_alone.simps(2) [of E j "Suc (Suc (Suc (Suc n)))"] run_alone.simps(2) [of E j "Suc (Suc (Suc n))"])
  qed
qed

lemma run_aux:
  "run_alone E j (Suc (Suc (Suc (Suc (Suc (Suc n)))))) (Reading m) st =
     ended (after_aux E j st (write_aux E j m (other_db st) (aux_db st)))"
proof -
  note step = run_alone.simps(2) [of E j "Suc (Suc (Suc (Suc (Suc n))))" "Reading m" st]
  show ?thesis
    unfolding step write_aux_def
    by (simp add: run_push run_insert after_aux_def ended_def del: run_alone.simps split: sum.splits option.splits)
qed

lemma processing_by_calls:
  "run_alone E j 9 Checking st = (Ended (fst (ztf_process_alert E j st)), snd (ztf_process_alert E j st))"
proof -
  let ?n = "Suc (Suc (Suc (Suc (Suc (Suc 0)))))"
  have nine: "(9 :: nat) = Suc (Suc (Suc ?n))" by simp
  have tail: "ztf_process_alert E j st =
      (case check_alert_exists E (job_candid j) (alert_db st) of
         Inl e \<Rightarrow> (Inl e, st)
       | Inr found \<Rightarrow> if found then (Inr (Exists (job_candid j)), st)
           else case get_survey_matches E (job_ra j) (job_dec j) (other_db st) of
             Inl e \<Rightarrow> (Inl e, st)
           | Inr m \<Rightarrow> after_aux E j st (write_aux E j m (other_db st) (aux_db st)))"
    unfolding ztf_process_alert_def after_aux_def finish_alert_def
    by (simp split: sum.splits prod.splits bool.splits)
  show ?thesis
    unfolding nine tail get_survey_matches_def
      run_alone.simps(2) [of E j "Suc (Suc ?n)"] run_alone.simps(2) [of E j "Suc ?n"] run_alone.simps(2) [of E j ?n]
    by (simp add: run_aux ended_def and_then_def del: run_alone.simps(2) split: sum.splits)
qed

text \<open>
  Processing an alert is exactly its calls one after the other: from every state of the
  stores and whatever the calls answer, the sequence of steps ends within nine calls, with the
  outcome and the stores of the code's function.
\<close>

theorem processing_is_its_calls:
  "run_alone E j 9 Checking st = (Ended (fst (ztf_process_alert E j st)), snd (ztf_process_alert E j st))"
  by (rule processing_by_calls)

end
