(* ===== verification/Alert_Histories.thy ===== *)
theory Alert_Histories
  imports Alert_Process
begin

text \<open>
  Several alert workers at once: each processes alerts call by call, dies at any time, and takes up
  any packet again; other services read and evict cutouts and change the collections that are only
  read.  The source inserts the alert last, so that an alert in the database implies its auxiliary
  document and its cutouts; here that is an invariant of every interleaving.
\<close>

section \<open>The steps\<close>

record ('adb, 'xdb, 's, 'r, 'db, 'o, 'g, 'm, 'h) alert_system =
  shared :: "('adb, 'xdb, 's, 'r, 'db, 'o) alert_state"
  workers :: "nat \<Rightarrow> ('g intake \<times> ('m, 'h) stage) option"

inductive alert_step ::
  "('adb, 'xdb, 's, 'r, 'db, 'o, 'g, 'm, 'h) alert_world \<Rightarrow> ('adb, 'xdb, 's, 'r, 'db, 'o, 'g, 'm, 'h) alert_system \<Rightarrow>
   ('adb, 'xdb, 's, 'r, 'db, 'o, 'g, 'm, 'h) alert_system \<Rightarrow> bool" for E where
  take_up: "intake_of E now a = Some j \<Longrightarrow> alert_step E s (s\<lparr>workers := (workers s)(w \<mapsto> (j, Checking))\<rparr>)"
| call: "workers s w = Some (j, g) \<Longrightarrow> work E j g (shared s) = (g', st) \<Longrightarrow>
    alert_step E s (s\<lparr>shared := st, workers := (workers s)(w \<mapsto> (j, g'))\<rparr>)"
| die: "alert_step E s (s\<lparr>workers := (workers s)(w := None)\<rparr>)"
| others: "alert_step E s (s\<lparr>shared := (shared s)\<lparr>other_db := o'\<rparr>\<rparr>)"
| cutouts: "\<forall>c. op \<noteq> Delete c \<Longrightarrow>
    alert_step E s (s\<lparr>shared := (shared s)\<lparr>cutout_db := cutout_step (cutout_store E) op (cutout_db (shared s))\<rparr>\<rparr>)"

inductive alert_history ::
  "('adb, 'xdb, 's, 'r, 'db, 'o, 'g, 'm, 'h) alert_world \<Rightarrow> nat \<Rightarrow> ('adb, 'xdb, 's, 'r, 'db, 'o, 'g, 'm, 'h) alert_system \<Rightarrow>
   ('adb, 'xdb, 's, 'r, 'db, 'o, 'g, 'm, 'h) alert_system \<Rightarrow> bool" for E where
  start: "alert_history E 0 s s"
| more: "alert_history E n s s' \<Longrightarrow> alert_step E s' s'' \<Longrightarrow> alert_history E (Suc n) s s''"

section \<open>What the stores promise\<close>

locale alert_stores =
  fixes E :: "('adb, 'xdb, 's, 'r, 'db, 'o, 'g, 'm, 'h) alert_world"
  assumes alerts_store: "doc_store (alerts E)"
    and alert_key: "doc_id (alerts E) a = Some (int_text (sint (stored_candid a)))"
    and duplicate_alert: "insert_one (alerts E) a adb = (Inl e, adb') \<Longrightarrow> is_duplicate E e \<Longrightarrow>
      \<not> fresh_id (alerts E) a (docs (alerts E) adb)"
    and aux_objects_store: "aux_store (aux_objects E)"
    and cutouts_world: "cutout_world (cutout_store E)"

section \<open>What is complete\<close>

text \<open>The object's document has the time of the alert's candidate.\<close>

definition has_candidate ::
  "('adb, 'xdb, 's, 'r, 'db, 'o, 'g, 'm, 'h) alert_world \<Rightarrow> string \<Rightarrow> ztf_candidate \<Rightarrow> ('g, 'm, 'h) aux_object list \<Rightarrow> bool" where
  "has_candidate E oid zc ds \<longleftrightarrow>
     (\<exists>d\<in>set ds. object_id d = oid \<and>
        (\<forall>t. num_value (c_jd (candidate zc)) = Some t \<longrightarrow> t \<in> at_time (p_jd \<circ> prv_candidate) ` set (prv_candidates d)))"

definition alert_complete ::
  "('adb, 'xdb, 's, 'r, 'db, 'o, 'g, 'm, 'h) alert_world \<Rightarrow> ('adb, 'xdb, 's, 'r, 'db, 'o) alert_state \<Rightarrow> 'g ztf_alert \<Rightarrow> bool" where
  "alert_complete E st a \<longleftrightarrow>
     has_candidate E (stored_object a) (stored_candidate a) (docs (aux_objects E) (aux_db st)) \<and>
     holds_cutouts (cutout_store E) (stored_candid a) (cutout_db st)"

definition aux_done ::
  "('adb, 'xdb, 's, 'r, 'db, 'o, 'g, 'm, 'h) alert_world \<Rightarrow> ('adb, 'xdb, 's, 'r, 'db, 'o) alert_state \<Rightarrow> 'g intake \<Rightarrow> bool" where
  "aux_done E st j \<longleftrightarrow>
     (\<exists>d\<in>set (docs (aux_objects E) (aux_db st)). object_id d = job_object j \<and> has_times (ztf_times E) (job_curves j) d)"

text \<open>What a worker at a stage may rely on.\<close>

fun stage_sound ::
  "('adb, 'xdb, 's, 'r, 'db, 'o, 'g, 'm, 'h) alert_world \<Rightarrow> ('adb, 'xdb, 's, 'r, 'db, 'o) alert_state \<Rightarrow> 'g intake \<Rightarrow>
   ('m, 'h) stage \<Rightarrow> bool" where
  "stage_sound E st j Storing_Cutouts \<longleftrightarrow> aux_done E st j"
| "stage_sound E st j Storing_Alert \<longleftrightarrow> aux_done E st j \<and> holds_cutouts (cutout_store E) (job_candid j) (cutout_db st)"
| "stage_sound E st j (Ended (Inr status)) \<longleftrightarrow>
     (\<exists>a\<in>set (docs (alerts E) (alert_db st)). stored_candid a = job_candid j) \<and> status \<in> {Added (job_candid j), Exists (job_candid j)}"
| "stage_sound E st j _ \<longleftrightarrow> True"

fun reading :: "'g intake \<times> ('m, 'h) stage \<Rightarrow> (string \<times> alert_aux_for_update) option" where
  "reading (j, Pushing m ex) = Some (job_object j, ex)"
| "reading _ = None"

definition aux_view :: "('adb, 'xdb, 's, 'r, 'db, 'o, 'g, 'm, 'h) alert_system \<Rightarrow> 'xdb aux_system" where
  "aux_view s = \<lparr>database = aux_db (shared s), snapshots = (\<lambda>w. Option.bind (workers s w) reading)\<rparr>"

definition alert_inv ::
  "('adb, 'xdb, 's, 'r, 'db, 'o, 'g, 'm, 'h) alert_world \<Rightarrow> int \<Rightarrow> ('adb, 'xdb, 's, 'r, 'db, 'o, 'g, 'm, 'h) alert_system \<Rightarrow> bool" where
  "alert_inv E b s \<longleftrightarrow>
     aux_inv (aux_objects E) (ztf_times E) b (aux_view s) \<and>
     storage_sound (cutout_store E) UNIV (cutout_db (shared s)) \<and>
     (\<forall>a\<in>set (docs (alerts E) (alert_db (shared s))). alert_complete E (shared s) a) \<and>
     (\<forall>w j g. workers s w = Some (j, g) \<longrightarrow> (\<exists>now a. intake_of E now a = Some j) \<and> stage_sound E (shared s) j g)"

text \<open>The stores only gain: objects and their times, cutouts, alerts.\<close>

definition gains ::
  "('adb, 'xdb, 's, 'r, 'db, 'o, 'g, 'm, 'h) alert_world \<Rightarrow> ('adb, 'xdb, 's, 'r, 'db, 'o) alert_state \<Rightarrow>
   ('adb, 'xdb, 's, 'r, 'db, 'o) alert_state \<Rightarrow> bool" where
  "gains E st st' \<longleftrightarrow>
     grown (ztf_times E) (docs (aux_objects E) (aux_db st)) (docs (aux_objects E) (aux_db st')) \<and>
     (\<forall>c. holds_cutouts (cutout_store E) c (cutout_db st) \<longrightarrow> holds_cutouts (cutout_store E) c (cutout_db st')) \<and>
     set (docs (alerts E) (alert_db st)) \<subseteq> set (docs (alerts E) (alert_db st'))"

lemma aux_done_gains: "aux_done E st j \<Longrightarrow> gains E st st' \<Longrightarrow> aux_done E st' j"
  unfolding aux_done_def gains_def grown_def by blast

lemma stage_sound_gains: "stage_sound E st j g \<Longrightarrow> gains E st st' \<Longrightarrow> stage_sound E st' j g"
  using aux_done_gains [of E st j st'] by (induction E st j g rule: stage_sound.induct) (auto simp: gains_def)

text \<open>The candidate's time as a light curve of one point.\<close>

lemma has_candidate_grown:
  assumes "has_candidate E oid zc ds" "grown (ztf_times E) ds es"
  shows "has_candidate E oid zc es"
proof -
  let ?lc = "\<lparr>new_prv_candidates = [point_of_candidate zc], new_prv_nondetections = [], new_fp_hists = []\<rparr>"
  have jd: "p_jd (prv_candidate (point_of_candidate zc)) = c_jd (candidate zc)"
    by (simp add: point_of_candidate_def prv_of_candidate_def)
  have eq: "has_candidate E oid zc xs \<longleftrightarrow> (\<exists>d\<in>set xs. object_id d = oid \<and> has_times (ztf_times E) ?lc d)" for xs
    by (auto simp: has_candidate_def has_times_def ztf_times_def finite_point_def is_finite_def at_time_def jd)
  show ?thesis
    using assms(1,2) unfolding eq grown_def by blast
qed

lemma alert_complete_gains: "alert_complete E st a \<Longrightarrow> gains E st st' \<Longrightarrow> alert_complete E st' a"
  using has_candidate_grown unfolding alert_complete_def gains_def by blast

text \<open>The points a worker writes hold the candidate's time.\<close>

lemma intake_fields:
  assumes "intake_of E now a = Some j"
  shows "job_alert j = \<lparr>stored_candid = job_candid j, stored_object = job_object j, stored_candidate = av_candidate a,
      stored_coordinates = job_position j, stored_created_at = now, stored_updated_at = now\<rparr>"
    "candid (job_cutouts j) = job_candid j"
    "\<exists>ps. new_prv_candidates (job_curves j) = sanitize_timeseries (p_jd \<circ> prv_candidate) (with_candidate (av_candidate a) ps)"
    "\<exists>ps. new_prv_nondetections (job_curves j) = sanitize_timeseries (p_jd \<circ> prv_candidate) ps"
    "\<exists>ps. new_fp_hists (job_curves j) = sanitize_timeseries (h_jd \<circ> fp_hist) ps"
  using assms by (auto simp: intake_of_def ztf_times_def Let_def split: prod.splits)

lemma with_candidate_time:
  assumes "num_value (c_jd (candidate zc)) = Some t"
  shows "\<exists>p\<in>set (with_candidate zc ps). num_value (p_jd (prv_candidate p)) = Some t"
proof (cases "\<exists>p\<in>set ps. f64_eq (p_jd (prv_candidate p)) (c_jd (candidate zc))")
  case True
  then obtain p where p: "p \<in> set ps" "f64_eq (p_jd (prv_candidate p)) (c_jd (candidate zc))" by blast
  then have "num_value (p_jd (prv_candidate p)) = Some t"
    using assms by (cases "p_jd (prv_candidate p)"; cases "c_jd (candidate zc)")
      (auto simp: f64_eq_def compare_with_def)
  then show ?thesis using p True by (auto simp: with_candidate_def)
next
  case False
  then show ?thesis using assms by (simp add: with_candidate_def point_of_candidate_def prv_of_candidate_def)
qed

lemma aux_done_candidate:
  assumes i: "intake_of E now a = Some j" and d: "aux_done E st j"
  shows "has_candidate E (job_object j) (av_candidate a) (docs (aux_objects E) (aux_db st))"
proof -
  from d obtain x where x: "x \<in> set (docs (aux_objects E) (aux_db st))" "object_id x = job_object j"
    "has_times (ztf_times E) (job_curves j) x" by (auto simp: aux_done_def)
  from intake_fields(3) [OF i] obtain ps where
    ps: "new_prv_candidates (job_curves j) = sanitize_timeseries (p_jd \<circ> prv_candidate) (with_candidate (av_candidate a) ps)" by blast
  have "t \<in> at_time (p_jd \<circ> prv_candidate) ` set (prv_candidates x)"
    if t: "num_value (c_jd (candidate (av_candidate a))) = Some t" for t
  proof -
    let ?tm = "p_jd \<circ> prv_candidate"
    from with_candidate_time [OF t, of ps] obtain p where
      p: "p \<in> set (with_candidate (av_candidate a) ps)" "num_value (?tm p) = Some t" by auto
    then have "t \<in> at_time ?tm ` {p \<in> set (with_candidate (av_candidate a) ps). finite_point ?tm p}"
      by (auto simp: at_time_def finite_point_def is_finite_def intro!: image_eqI [of _ _ p])
    then have "t \<in> at_time ?tm ` set (new_prv_candidates (job_curves j))"
      using sanitized_cases [of ?tm "with_candidate (av_candidate a) ps"] by (simp add: ps)
    moreover have "filter (finite_point ?tm) (new_prv_candidates (job_curves j)) = new_prv_candidates (job_curves j)"
      using valid_all_finite sanitize_valid ps by metis
    ultimately show ?thesis
      using x(3) by (auto simp: has_times_def ztf_times_def)
  qed
  with x(1,2) show ?thesis by (auto simp: has_candidate_def)
qed

lemma object_for_new:
  assumes "intake_of E now a = Some j"
  shows "new_object (ztf_times E) (object_for j m x h)" "has_times (ztf_times E) (job_curves j) (object_for j m x h)"
  using intake_fields(3-5) [OF assms]
  by (auto simp: new_object_def has_times_def object_for_def ztf_times_def)

lemma aux_inv_weaken:
  assumes "aux_inv M T b s" "b \<le> b'" "database s' = database s"
    and "\<And>v sn. snapshots s' v = Some sn \<Longrightarrow> \<exists>u. snapshots s u = Some sn"
  shows "aux_inv M T b' s'"
  using assms unfolding aux_inv_def by (metis order.trans)

text \<open>The view after a call of a worker.\<close>

lemma view_call:
  "aux_view (s\<lparr>shared := st, workers := (workers s)(w \<mapsto> (j, g))\<rparr>) =
     \<lparr>database = aux_db st, snapshots = (snapshots (aux_view s))(w := reading (j, g))\<rparr>"
  by (auto simp: aux_view_def)

section \<open>Every step keeps the invariant\<close>

context alert_stores
begin

abbreviation aux_docs :: "'xdb \<Rightarrow> ('g, 'm, 'h) aux_object list" where
  "aux_docs \<equiv> docs (aux_objects E)"

abbreviation alert_docs :: "'adb \<Rightarrow> 'g ztf_alert list" where
  "alert_docs \<equiv> docs (alerts E)"

lemma keeps_store: "aux_store (aux_objects E)" by (rule aux_objects_store)

text \<open>The auxiliary documents after a call that leaves them, or that is one of their steps.\<close>

lemma aux_left:
  assumes "aux_inv (aux_objects E) (ztf_times E) b (aux_view s)" "aux_db st = aux_db (shared s)" "reading (j, g') = None"
  shows "aux_inv (aux_objects E) (ztf_times E) (b + 1)
      (aux_view (s\<lparr>shared := st, workers := (workers s)(w \<mapsto> (j, g'))\<rparr>)) \<and>
    grown (ztf_times E) (aux_docs (aux_db (shared s))) (aux_docs (aux_db st))"
proof -
  have "aux_inv (aux_objects E) (ztf_times E) (b + 1)
      \<lparr>database = aux_db st, snapshots = (snapshots (aux_view s))(w := reading (j, g'))\<rparr>"
    by (rule aux_inv_weaken [OF assms(1)]) (auto simp: assms aux_view_def split: if_splits)
  then show ?thesis by (simp only: view_call assms(2) grown_refl)
qed

lemma aux_stepped:
  assumes "aux_inv (aux_objects E) (ztf_times E) b (aux_view s)" "b + 1 < 2 ^ 31"
    and "aux_step (is_duplicate E) (aux_objects E) (ztf_times E) (aux_view s) ((aux_view s)\<lparr>database := aux_db st\<rparr>)"
    and "reading (j, g') = None"
  shows "aux_inv (aux_objects E) (ztf_times E) (b + 1)
      (aux_view (s\<lparr>shared := st, workers := (workers s)(w \<mapsto> (j, g'))\<rparr>)) \<and>
    grown (ztf_times E) (aux_docs (aux_db (shared s))) (aux_docs (aux_db st))"
proof -
  note kept = aux_store.step_keeps_inv [OF keeps_store assms(3,1,2)] aux_store.step_grows [OF keeps_store assms(3,1,2)]
  have "aux_inv (aux_objects E) (ztf_times E) (b + 1)
      \<lparr>database = aux_db st, snapshots = (snapshots (aux_view s))(w := reading (j, g'))\<rparr>"
    by (rule aux_inv_weaken [OF kept(1)]) (auto simp: assms split: if_splits)
  moreover have "grown (ztf_times E) (aux_docs (aux_db (shared s))) (aux_docs (aux_db st))"
    using kept(2) by (simp add: aux_view_def)
  ultimately show ?thesis by (simp only: view_call)
qed

lemma aux_call:
  assumes inv: "aux_inv (aux_objects E) (ztf_times E) b (aux_view s)" and b: "b + 1 < 2 ^ 31"
    and i: "intake_of E now a = Some j" and w: "workers s w = Some (j, g)" and c: "work E j g (shared s) = (g', st)"
  shows "aux_inv (aux_objects E) (ztf_times E) (b + 1)
      (aux_view (s\<lparr>shared := st, workers := (workers s)(w \<mapsto> (j, g'))\<rparr>)) \<and>
    grown (ztf_times E) (aux_docs (aux_db (shared s))) (aux_docs (aux_db st))"
proof (cases g)
  case (Reading m)
  let ?r = "get_existing_aux (aux_objects E) (ztf_times E) (job_object j) (aux_db (shared s))"
  show ?thesis
  proof (cases "\<exists>ex. ?r = Inr (Some ex)")
    case True
    then obtain ex where ex: "?r = Inr (Some ex)" by blast
    with c Reading have st: "st = shared s" "g' = Pushing m ex" by auto
    have "aux_step (is_duplicate E) (aux_objects E) (ztf_times E) (aux_view s)
        ((aux_view s)\<lparr>snapshots := (snapshots (aux_view s))(w \<mapsto> (job_object j, ex))\<rparr>)"
      by (rule aux_step.read) (simp add: aux_view_def ex)
    moreover have "(aux_view s)\<lparr>snapshots := (snapshots (aux_view s))(w \<mapsto> (job_object j, ex))\<rparr> =
        aux_view (s\<lparr>shared := st, workers := (workers s)(w \<mapsto> (j, g'))\<rparr>)"
      unfolding view_call by (simp add: st aux_view_def)
    ultimately show ?thesis
      using aux_store.step_keeps_inv [OF keeps_store _ inv b] st grown_refl by metis
  next
    case False
    with c Reading have "st = shared s" "reading (j, g') = None"
      by (auto split: sum.splits option.splits)
    then show ?thesis by (intro aux_left [OF inv]) simp_all
  qed
next
  case (Pushing m ex)
  obtain r xdb where u: "update_aux_inner (aux_objects E) (ztf_times E) (job_object j) (job_curves j) (Some m) (job_now j) ex
      (aux_db (shared s)) = (r, xdb)" by fastforce
  have "aux_step (is_duplicate E) (aux_objects E) (ztf_times E) (aux_view s) ((aux_view s)\<lparr>database := xdb\<rparr>)"
    by (rule aux_step.push [of _ w "job_object j" ex]) (use u in \<open>simp_all add: aux_view_def w Pushing\<close>)
  moreover have "aux_db st = xdb" "reading (j, g') = None"
    using c u Pushing by (auto split: sum.splits)
  ultimately show ?thesis by (intro aux_stepped [OF inv b]) simp_all
next
  case (Falling_Back m)
  obtain r xdb where u: "update_aux_fallback (aux_objects E) (ztf_times E) (job_object j) (job_curves j) (Some m) (job_now j)
      (aux_db (shared s)) = (r, xdb)" by fastforce
  have "aux_step (is_duplicate E) (aux_objects E) (ztf_times E) (aux_view s) ((aux_view s)\<lparr>database := xdb\<rparr>)"
    by (rule aux_step.pipeline) (use u in \<open>simp add: aux_view_def\<close>)
  moreover have "aux_db st = xdb" "reading (j, g') = None"
    using c u Falling_Back by (auto split: sum.splits)
  ultimately show ?thesis by (intro aux_stepped [OF inv b]) simp_all
next
  case (Inserting m x h)
  obtain r xdb where u: "insert_aux (is_duplicate E) (aux_objects E) (object_for j m x h) (aux_db (shared s)) = (r, xdb)"
    by fastforce
  have "aux_step (is_duplicate E) (aux_objects E) (ztf_times E) (aux_view s) ((aux_view s)\<lparr>database := xdb\<rparr>)"
    by (rule aux_step.insert [OF object_for_new(1) [OF i]]) (use u in \<open>simp add: aux_view_def\<close>)
  moreover have "aux_db st = xdb" "reading (j, g') = None"
    using c u Inserting by (auto split: sum.splits)
  ultimately show ?thesis by (intro aux_stepped [OF inv b]) simp_all
qed (use c in \<open>auto intro!: aux_left [OF inv] split: sum.splits prod.splits if_splits\<close>)

text \<open>The written document has the worker's times.\<close>

lemma snapshot_of_worker:
  assumes "aux_inv (aux_objects E) (ztf_times E) b (aux_view s)" "workers s w = Some (j, Pushing m ex)"
  shows "snapshot_sound (ztf_times E) (aux_docs (aux_db (shared s))) (job_object j, ex)"
proof -
  have "snapshots (aux_view s) w = Some (job_object j, ex)"
    by (simp add: aux_view_def assms(2))
  with assms(1) have "snapshot_sound (ztf_times E) (aux_docs (database (aux_view s))) (job_object j, ex)"
    unfolding aux_inv_def by blast
  then show ?thesis by (simp add: aux_view_def)
qed

lemma aux_call_done:
  assumes inv: "aux_inv (aux_objects E) (ztf_times E) b (aux_view s)" and b: "b + 1 < 2 ^ 31"
    and i: "intake_of E now a = Some j" and w: "workers s w = Some (j, g)" and c: "work E j g (shared s) = (Storing_Cutouts, st)"
    and g: "g \<noteq> Storing_Cutouts"
  shows "aux_done E st j"
proof (cases g)
  case (Pushing m ex)
  obtain r xdb where u: "update_aux_inner (aux_objects E) (ztf_times E) (job_object j) (job_curves j) (Some m) (job_now j) ex
      (aux_db (shared s)) = (r, xdb)" by fastforce
  have fits: "fits_i32 (version_number (version d) + 1)" if "d \<in> set (aux_docs (aux_db (shared s)))" for d
    using inv that b by (fastforce simp: aux_inv_def aux_view_def fits_i32_def)
  have "aux_db st = xdb" "r = Inr ()"
    using c u Pushing by (auto split: sum.splits)
  then show ?thesis
    using aux_store.inner_write [OF keeps_store u snapshot_of_worker [OF inv w [unfolded Pushing]] fits]
    unfolding aux_done_def by blast
next
  case (Falling_Back m)
  obtain r xdb where u: "update_aux_fallback (aux_objects E) (ztf_times E) (job_object j) (job_curves j) (Some m) (job_now j)
      (aux_db (shared s)) = (r, xdb)" by fastforce
  have "aux_db st = xdb" "r = Inr ()"
    using c u Falling_Back by (auto split: sum.splits)
  then show ?thesis
    using aux_store.fallback_write [OF keeps_store u] unfolding aux_done_def by blast
next
  case (Inserting m x h)
  obtain r xdb where u: "insert_one (aux_objects E) (object_for j m x h) (aux_db (shared s)) = (r, xdb)" by fastforce
  then have "aux_db st = xdb" "r = Inr ()"
    using c Inserting by (auto simp: insert_aux_def split: sum.splits if_splits)
  then have "object_for j m x h \<in> set (aux_docs (aux_db st))"
    using doc_store.insert_law [OF aux_store.axioms(1) [OF keeps_store] u] by simp
  then show ?thesis
    using object_for_new(2) [OF i] unfolding aux_done_def
    by (intro bexI [of _ "object_for j m x h"]) (simp_all add: object_for_def)
qed (use c g in \<open>auto split: sum.splits prod.splits if_splits option.splits\<close>)

text \<open>The cutouts and the alerts after a call.\<close>

lemma cutouts_call:
  assumes "storage_sound (cutout_store E) UNIV (cutout_db (shared s))" "work E j g (shared s) = (g', st)"
    and "candid (job_cutouts j) = job_candid j"
  shows "storage_sound (cutout_store E) UNIV (cutout_db st) \<and>
    (\<forall>c. holds_cutouts (cutout_store E) c (cutout_db (shared s)) \<longrightarrow> holds_cutouts (cutout_store E) c (cutout_db st)) \<and>
    (g' = Storing_Alert \<longrightarrow> g = Storing_Cutouts \<and> aux_db st = aux_db (shared s) \<and>
       holds_cutouts (cutout_store E) (job_candid j) (cutout_db st))"
proof (cases g)
  case Storing_Cutouts
  obtain r cdb where u: "insert_cutouts (cutout_store E) (job_cutouts j) (cutout_db (shared s)) = (r, cdb)" by fastforce
  note ins = cutout_world.insert_sound [OF cutouts_world assms(1) u]
  have "cutout_db st = cdb" "aux_db st = aux_db (shared s)" "g' = Storing_Alert \<longrightarrow> r = Inr () \<or> (\<exists>c. r = Inl (CutoutAlreadyExists c))"
    using assms(2) u Storing_Cutouts
    by (auto simp: format_and_insert_cutouts_def split: sum.splits cutout_storage_error.splits)
  then show ?thesis
    using ins assms(3) Storing_Cutouts by auto
qed (use assms in \<open>auto split: sum.splits prod.splits if_splits option.splits\<close>)

lemma alerts_call:
  assumes "work E j g (shared s) = (g', st)" "stored_candid (job_alert j) = job_candid j"
  shows "set (alert_docs (alert_db (shared s))) \<subseteq> set (alert_docs (alert_db st)) \<and>
    (\<forall>a\<in>set (alert_docs (alert_db st)). a \<in> set (alert_docs (alert_db (shared s))) \<or>
       g = Storing_Alert \<and> aux_db st = aux_db (shared s) \<and> cutout_db st = cutout_db (shared s) \<and> a = job_alert j) \<and>
    (g' = Ended (Inr status) \<and> (\<forall>r. g \<noteq> Ended r) \<longrightarrow>
       (\<exists>a\<in>set (alert_docs (alert_db st)). stored_candid a = job_candid j) \<and> status \<in> {Added (job_candid j), Exists (job_candid j)})"
proof (cases g)
  case Checking
  obtain r where r: "find_docs (alerts E) (\<lambda>a. stored_candid a = job_candid j) None None (alert_db (shared s)) = r" by blast
  show ?thesis
  proof (cases r)
    case (Inl e)
    with assms r Checking show ?thesis by (auto simp: check_alert_exists_def)
  next
    case (Inr found)
    then have "set found = {a \<in> set (alert_docs (alert_db (shared s))). stored_candid a = job_candid j}"
      using doc_store.find_docs_law [OF alerts_store, of _ None None _ found] r by (auto simp: limited_def)
    then show ?thesis
      using assms r Checking Inr by (cases found) (auto simp: check_alert_exists_def)
  qed
next
  case Storing_Alert
  obtain r adb where u: "insert_one (alerts E) (job_alert j) (alert_db (shared s)) = (r, adb)" by fastforce
  note law = doc_store.insert_law [OF alerts_store u]
  have "g' = Ended (case r of Inr _ \<Rightarrow> Inr (Added (job_candid j)) | Inl e \<Rightarrow>
      if is_duplicate E e then Inr (Exists (job_candid j)) else Inl (Mongodb (driver_text e)))"
    "st = (shared s)\<lparr>alert_db := adb\<rparr>"
    using assms u Storing_Alert by (auto simp: format_and_insert_alert_def split: sum.splits)
  moreover have "\<exists>a\<in>set (alert_docs (alert_db (shared s))). stored_candid a = job_candid j"
    if "r = Inl e" "is_duplicate E e" for e
    using duplicate_alert [OF u [unfolded that(1)] that(2)] assms(2)
    by (auto simp: fresh_id_def alert_key int_text_inj sint_inj)
  ultimately show ?thesis
    using law assms(2) Storing_Alert by (cases r) (auto split: if_splits)
qed (use assms in \<open>auto split: sum.splits prod.splits if_splits option.splits\<close>)

lemma call_sound:
  assumes inv: "alert_inv E b s" and b: "b + 1 < 2 ^ 31" and w: "workers s w = Some (j, g)"
    and c: "work E j g (shared s) = (g', st)"
  shows "alert_inv E (b + 1) (s\<lparr>shared := st, workers := (workers s)(w \<mapsto> (j, g'))\<rparr>) \<and> gains E (shared s) st"
proof -
  have aux: "aux_inv (aux_objects E) (ztf_times E) b (aux_view s)"
    and store: "storage_sound (cutout_store E) UNIV (cutout_db (shared s))"
    and complete: "\<forall>a\<in>set (alert_docs (alert_db (shared s))). alert_complete E (shared s) a"
    and stages: "\<And>v k h. workers s v = Some (k, h) \<Longrightarrow> (\<exists>now a. intake_of E now a = Some k) \<and> stage_sound E (shared s) k h"
    using inv by (simp_all add: alert_inv_def)
  from stages [OF w] obtain now a where i: "intake_of E now a = Some j" and sg: "stage_sound E (shared s) j g" by blast
  note A = aux_call [OF aux b i w c]
    and C = cutouts_call [OF store c intake_fields(2) [OF i]]
  have jc: "stored_candid (job_alert j) = job_candid j" "stored_object (job_alert j) = job_object j"
      "stored_candidate (job_alert j) = av_candidate a"
    using intake_fields(1) [OF i] by simp_all
  have G: "gains E (shared s) st"
    using A C alerts_call [OF c jc(1)] by (simp add: gains_def)
  have own: "alert_complete E st (job_alert j)" if "g = Storing_Alert"
    using alert_complete_gains [OF _ G, of "job_alert j"] aux_done_candidate [OF i, of "shared s"] sg that jc
    by (simp add: alert_complete_def)
  have docs: "\<forall>x\<in>set (alert_docs (alert_db st)). alert_complete E st x"
  proof
    fix x assume "x \<in> set (alert_docs (alert_db st))"
    with alerts_call [OF c jc(1)] have "x \<in> set (alert_docs (alert_db (shared s))) \<or> g = Storing_Alert \<and> x = job_alert j"
      by blast
    then show "alert_complete E st x"
      using own alert_complete_gains [OF _ G, of x] complete by auto
  qed
  have next_stage: "stage_sound E st j g'"
  proof (cases g')
    case Storing_Cutouts
    have "aux_done E st j" if "g = Storing_Cutouts"
      using sg that aux_done_gains [OF _ G] by simp
    then show ?thesis
      using aux_call_done [OF aux b i w c [unfolded Storing_Cutouts]] Storing_Cutouts by auto
  next
    case Storing_Alert
    then show ?thesis
      using C sg aux_done_gains [OF _ G, of j] by auto
  next
    case (Ended r)
    show ?thesis
    proof (cases r)
      case (Inr status)
      show ?thesis
      proof (cases "\<exists>r'. g = Ended r'")
        case True
        then show ?thesis using c sg by auto
      next
        case False
        then show ?thesis
          using alerts_call [OF c jc(1), of status] Ended Inr by simp
      qed
    qed (simp add: Ended)
  qed simp_all
  have others: "(\<exists>now a. intake_of E now a = Some k) \<and> stage_sound E st k h"
    if "((workers s)(w \<mapsto> (j, g'))) v = Some (k, h)" for v k h
    using that stages [of v k h] stage_sound_gains [OF _ G, of k h] next_stage i by (auto split: if_splits)
  show ?thesis
    using A C docs others G unfolding alert_inv_def by auto
qed

lemma step_sound:
  assumes step: "alert_step E s s'" and inv: "alert_inv E b s" and b: "b + 1 < 2 ^ 31"
  shows "alert_inv E (b + 1) s' \<and> gains E (shared s) (shared s')"
  using step
proof cases
  case (take_up now a j w)
  have "aux_inv (aux_objects E) (ztf_times E) (b + 1) (aux_view s')"
    by (rule aux_inv_weaken [of _ _ b "aux_view s"])
      (use inv take_up in \<open>auto simp: alert_inv_def aux_view_def split: if_splits\<close>)
  then show ?thesis
    using inv take_up by (auto simp: alert_inv_def gains_def grown_refl)
next
  case (call w j g g' st)
  then show ?thesis using call_sound [OF inv b call(2,3)] by simp
next
  case (die w)
  have "aux_inv (aux_objects E) (ztf_times E) (b + 1) (aux_view s')"
    by (rule aux_inv_weaken [of _ _ b "aux_view s"])
      (use inv die in \<open>auto simp: alert_inv_def aux_view_def split: if_splits\<close>)
  then show ?thesis
    using inv die by (auto simp: alert_inv_def gains_def grown_refl)
next
  case (others o')
  have G: "gains E (shared s) (shared s')"
    using others by (simp add: gains_def grown_refl)
  have "aux_inv (aux_objects E) (ztf_times E) (b + 1) (aux_view s')"
    by (rule aux_inv_weaken [of _ _ b "aux_view s"])
      (use inv others in \<open>auto simp: alert_inv_def aux_view_def\<close>)
  then show ?thesis
    using inv others alert_complete_gains [OF _ G] stage_sound_gains [OF _ G] G
    unfolding alert_inv_def by auto
next
  case (cutouts op)
  have st: "storage_sound (cutout_store E) UNIV (cutout_db (shared s))"
    using inv by (simp add: alert_inv_def)
  note C = cutout_world.step_sound [OF cutouts_world st, of op]
  have G: "gains E (shared s) (shared s')"
    using cutouts C by (auto simp: gains_def grown_refl)
  have "aux_inv (aux_objects E) (ztf_times E) (b + 1) (aux_view s')"
    by (rule aux_inv_weaken [of _ _ b "aux_view s"])
      (use inv cutouts in \<open>auto simp: alert_inv_def aux_view_def\<close>)
  moreover have "storage_sound (cutout_store E) UNIV (cutout_db (shared s'))"
    using C cutouts(1) by simp
  ultimately show ?thesis
    using inv cutouts(1) alert_complete_gains [OF _ G] stage_sound_gains [OF _ G] G
    unfolding alert_inv_def by auto
qed

lemma history_sound:
  "alert_history E n s s' \<Longrightarrow> alert_inv E b s \<Longrightarrow> b + int n < 2 ^ 31 \<Longrightarrow>
   alert_inv E (b + int n) s' \<and> gains E (shared s) (shared s')"
proof (induction rule: alert_history.induct)
  case (start s)
  then show ?case by (simp add: gains_def grown_refl)
next
  case (more n s s' s'')
  then have IH: "alert_inv E (b + int n) s'" "gains E (shared s) (shared s')" by simp_all
  have "gains E (shared s) (shared s'')" if "gains E (shared s') (shared s'')"
    using IH(2) that grown_trans unfolding gains_def by (meson order.trans)
  then show ?case
    using step_sound [OF more.hyps(2) IH(1)] more.prems(2) by (simp add: algebra_simps)
qed

end

section \<open>What a stored alert implies\<close>

text \<open>A system to start from: sound auxiliary documents whose versions count at most \<open>b\<close> writes, no
  alerts and no cutouts yet, and no worker at work.\<close>

definition idle_system ::
  "('adb, 'xdb, 's, 'r, 'db, 'o, 'g, 'm, 'h) alert_world \<Rightarrow> nat \<Rightarrow> ('adb, 'xdb, 's, 'r, 'db, 'o, 'g, 'm, 'h) alert_system \<Rightarrow> bool" where
  "idle_system E b s \<longleftrightarrow>
     fresh_system (aux_objects E) (ztf_times E) b \<lparr>database = aux_db (shared s), snapshots = (\<lambda>_. None)\<rparr> \<and>
     docs (alerts E) (alert_db (shared s)) = [] \<and> empty_storage (cutout_store E) (cutout_db (shared s)) \<and>
     workers s = (\<lambda>_. None)"

lemma idle_inv: "alert_stores E \<Longrightarrow> idle_system E b s \<Longrightarrow> alert_inv E (int b) s"
  using fresh_inv [of "aux_objects E" "ztf_times E" b "\<lparr>database = aux_db (shared s), snapshots = (\<lambda>_. None)\<rparr>"]
    cutout_world.storage_sound_mono [OF alert_stores.cutouts_world empty_sound, of E "cutout_db (shared s)" UNIV]
  by (simp add: idle_system_def alert_inv_def aux_view_def)

text \<open>
  C1: An alert in the database implies its auxiliary document and its cutouts: in every interleaving of
  any number of workers that process ZTF alerts call by call, die, and take up packets again, while
  others read and evict cutouts, and whatever of the calls fail before or after taking effect, every
  stored alert has the document of its object with the time of its candidate, and its cutouts; and
  what a worker reports as added or existing is stored.
\<close>

theorem stored_alerts_are_complete:
  assumes "alert_stores E" "idle_system E b s0" "alert_history E n s0 s" "b + n < 2 ^ 31"
  shows "list_all (alert_complete E (shared s)) (docs (alerts E) (alert_db (shared s))) \<and>
    (workers s w = Some (j, Ended (Inr status)) \<longrightarrow>
       status \<in> {Added (job_candid j), Exists (job_candid j)} \<and>
       (\<exists>a\<in>set (docs (alerts E) (alert_db (shared s))). stored_candid a = job_candid j))"
proof -
  have "alert_inv E (int b + int n) s"
    using alert_stores.history_sound [OF assms(1,3) idle_inv [OF assms(1,2)]] assms(4) by simp
  then show ?thesis
    unfolding alert_inv_def list_all_iff by (metis stage_sound.simps(3))
qed

text \<open>A worker that processes an alert on its own is one such history.\<close>

lemma alone_history:
  "workers s w = Some (j, g) \<Longrightarrow> run_alone E j k g (shared s) = (g', st) \<Longrightarrow>
   alert_history E n s0 s \<Longrightarrow>
   alert_history E (n + k) s0 (s\<lparr>shared := st, workers := (workers s)(w \<mapsto> (j, g'))\<rparr>)"
proof (induction k arbitrary: s g n)
  case 0
  then have "s\<lparr>shared := st, workers := (workers s)(w \<mapsto> (j, g'))\<rparr> = s"
    by (cases s) (auto simp: fun_upd_idem)
  with 0(3) show ?case by (simp only: add_0_right)
next
  case (Suc k)
  obtain h st1 where h: "work E j g (shared s) = (h, st1)" by fastforce
  let ?s = "s\<lparr>shared := st1, workers := (workers s)(w \<mapsto> (j, h))\<rparr>"
  have "alert_history E (Suc n) s0 ?s"
    by (rule alert_history.more [OF Suc.prems(3) alert_step.call [OF Suc.prems(1) h]])
  then have "alert_history E (Suc n + k) s0 (?s\<lparr>shared := st, workers := (workers ?s)(w \<mapsto> (j, g'))\<rparr>)"
    by (rule Suc.IH [rotated 2]) (use Suc.prems(2) h in simp_all)
  moreover have "?s\<lparr>shared := st, workers := (workers ?s)(w \<mapsto> (j, g'))\<rparr> = s\<lparr>shared := st, workers := (workers s)(w \<mapsto> (j, g'))\<rparr>"
    by (simp add: fun_upd_upd)
  ultimately show ?case by (simp only: add_Suc add_Suc_right)
qed

section \<open>Stores in memory\<close>

definition memory_world ::
  "(unit ztf_alert list, (unit, unit, unit) aux_object list, string \<Rightarrow> u8 list option, string \<Rightarrow> u8 list option,
    alert_cutout list, unit, unit, unit, unit) alert_world" where
  "memory_world = \<lparr>alerts = list_coll (\<lambda>a. Some (int_text (sint (stored_candid a)))),
     aux_objects = list_coll (\<lambda>d. Some (object_id d)), cutout_store = memory_storage, is_duplicate = (\<lambda>_. True),
     floats = ones, display = (\<lambda>_. []), radians = id, near = (\<lambda>_ _ _ _ _. Inr None), xmatch = (\<lambda>_ _ _ _. Inr ()),
     associate_with_photometry = (\<lambda>_ _ _ _ _. None), coordinates_of = (\<lambda>_ _. Some ())\<rparr>"

interpretation memory_alerts: alert_stores memory_world
proof (rule alert_stores.intro, goal_cases)
  case 1
  show ?case by (simp add: memory_world_def list_store.doc_store_axioms)
next
  case (3 a adb e adb')
  then show ?case
    by (auto simp: memory_world_def list_coll_def fresh_id_def list_ex_iff image_iff split: if_splits) metis
next
  case 4
  show ?case by (simp add: memory_world_def list_aux.aux_store_axioms)
next
  case 5
  show ?case by (simp add: memory_world_def memory_cutouts.cutout_world_axioms)
qed (simp add: memory_world_def list_coll_def)

definition demo_intake :: "unit intake" where
  "demo_intake = \<lparr>job_candid = 7, job_object = ''ZTF18abc'', job_ra = Num 0, job_dec = Num 0, job_now = Num 9,
     job_curves = \<lparr>new_prv_candidates = [point_of_candidate demo_ztf_candidate], new_prv_nondetections = [demo_limit],
       new_fp_hists = [demo_forced_phot]\<rparr>,
     job_alert = \<lparr>stored_candid = 7, stored_object = ''ZTF18abc'', stored_candidate = demo_ztf_candidate,
       stored_coordinates = (), stored_created_at = Num 9, stored_updated_at = Num 9\<rparr>,
     job_position = (),
     job_cutouts = \<lparr>candid = 7, cutout_science = [1], cutout_template = [2], cutout_difference = [3]\<rparr>\<rparr>"

definition demo_idle :: "(unit ztf_alert list, (unit, unit, unit) aux_object list, string \<Rightarrow> u8 list option,
    string \<Rightarrow> u8 list option, alert_cutout list, unit) alert_state" where
  "demo_idle = \<lparr>alert_db = [], aux_db = [], cutout_db = Mongo [], other_db = ()\<rparr>"

definition demo_stored :: "(unit ztf_alert list, (unit, unit, unit) aux_object list, string \<Rightarrow> u8 list option,
    string \<Rightarrow> u8 list option, alert_cutout list, unit) alert_state" where
  "demo_stored = \<lparr>alert_db = [job_alert demo_intake],
     aux_db = [object_for demo_intake \<lparr>al_lsst = [], al_decam = []\<rparr> () None],
     cutout_db = Mongo [job_cutouts demo_intake], other_db = ()\<rparr>"

lemma demo_taken: "intake_of memory_world (Num 9) demo_alert = Some demo_intake"
  by (simp add: intake_of_def demo_alert_def demo_intake_def split_prv_candidates_def with_candidate_def
      sanitize_timeseries_def finite_point_def is_finite_def ztf_times_def memory_world_def Let_def
      point_of_candidate_def prv_of_candidate_def demo_ztf_candidate_def demo_candidate_def
      demo_limit_def demo_point_def demo_forced_phot_def demo_forced_def)

lemma demo_processed: "ztf_process_alert memory_world demo_intake demo_idle = (Inr (Added 7), demo_stored)"
  by (simp add: ztf_process_alert_def demo_idle_def demo_stored_def check_alert_exists_def get_survey_matches_def
      get_matches_def write_aux_def get_existing_aux_def add_object_def insert_aux_def format_and_insert_cutouts_def
      format_and_insert_alert_def memory_world_def memory_storage_def mongo_insert_def list_coll_def
      sort_docs_def limit_docs_def first_by_def)
    (simp add: demo_intake_def)

definition demo_start :: "(unit ztf_alert list, (unit, unit, unit) aux_object list, string \<Rightarrow> u8 list option,
    string \<Rightarrow> u8 list option, alert_cutout list, unit, unit, unit, unit) alert_system" where
  "demo_start = \<lparr>shared = demo_idle, workers = (\<lambda>_. None)\<rparr>"

lemma demo_start_idle: "idle_system memory_world 0 demo_start"
  by (simp add: idle_system_def fresh_system_def demo_start_def demo_idle_def memory_world_def memory_storage_def list_coll_def)

lemma demo_alert_history:
  "alert_history memory_world 10 demo_start
     \<lparr>shared = demo_stored, workers = [0 \<mapsto> (demo_intake, Ended (Inr (Added 7)))]\<rparr>"
proof -
  let ?s = "demo_start\<lparr>workers := (workers demo_start)(0 \<mapsto> (demo_intake, Checking))\<rparr>"
  have "alert_history memory_world (Suc 0) demo_start ?s"
    by (rule alert_history.more [OF alert_history.start alert_step.take_up [OF demo_taken]])
  moreover have "run_alone memory_world demo_intake 9 Checking (shared ?s) = (Ended (Inr (Added 7)), demo_stored)"
    using processing_by_calls [of memory_world demo_intake demo_idle] by (simp add: demo_processed demo_start_def)
  ultimately show ?thesis
    using alone_history [of ?s 0 demo_intake Checking memory_world 9 "Ended (Inr (Added 7))" demo_stored "Suc 0" demo_start]
    by (simp add: demo_start_def)
qed

theorem stored_alerts_are_complete_witness:
  "list_all (alert_complete memory_world demo_stored) (docs (alerts memory_world) (alert_db demo_stored)) \<and>
    (Added 7 \<in> {Added (job_candid demo_intake), Exists (job_candid demo_intake)} \<and>
       (\<exists>a\<in>set (docs (alerts memory_world) (alert_db demo_stored)). stored_candid a = job_candid demo_intake))"
  by (rule stored_alerts_are_complete [OF memory_alerts.alert_stores_axioms demo_start_idle demo_alert_history, of 0 demo_intake "Added 7",
        unfolded alert_system.simps fun_upd_same simp_thms]) simp

end
