(* ===== verification/Alert_Flow.thy ===== *)
theory Alert_Flow
  imports Alert_Histories
begin

text \<open>
  The ZTF alert worker as a whole (\<open>src/src/alert/base.rs\<close>, \<open>run_alert_worker\<close> with the \<open>process_alert\<close> of
  \<open>src/src/alert/ztf.rs\<close>): the main loop over the queues with the processing of a packet put in.  The
  worker's own state is its schema cache, the number of times it read the clock and the stores.  A
  panic ends the thread and leaves queues and stores as a failed packet does; it is an error here.
\<close>

definition ztf_processor ::
  "('adb, 'xdb, 's, 'r, 'db, 'o, 'g, 'm, 'h) alert_world \<Rightarrow> ('sch, 'v, raw_packet) avro_library \<Rightarrow> (nat \<Rightarrow> f64) \<Rightarrow> u8 list \<Rightarrow>
   'sch schema_cache \<times> nat \<times> ('adb, 'xdb, 's, 'r, 'db, 'o) alert_state \<Rightarrow>
   (alert_error, process_alert_status) result \<times> 'sch schema_cache \<times> nat \<times> ('adb, 'xdb, 's, 'r, 'db, 'o) alert_state" where
  "ztf_processor E lib clock avro_bytes p =
     (case p of (sc, k, st) \<Rightarrow>
        (case read_packet E lib (clock k) avro_bytes sc of
           (Some (Inr j), sc) \<Rightarrow> (case ztf_process_alert E j st of (r, st) \<Rightarrow> (r, sc, Suc k, st))
         | (Some (Inl e), sc) \<Rightarrow> (Inl e, sc, Suc k, st)
         | (None, sc) \<Rightarrow> (Inl (DecodeError ''panic''), sc, Suc k, st)))"

text \<open>
  What the loop's list of processed packets records stays true, if processing keeps it; \<open>sound\<close> is an
  invariant of the processor.
\<close>

lemma loop_records:
  assumes "\<And>b p r p'. process_alert W b p = (r, p') \<Longrightarrow> sound p \<Longrightarrow>
      sound p' \<and> (\<forall>c s. Q c s p \<longrightarrow> Q c s p') \<and> (\<forall>s. r = Inr s \<longrightarrow> Q b s p')"
  shows "alert_loop W n st = (q, st') \<Longrightarrow> sound (alert_processor st) \<and> (\<forall>(a, s)\<in>set (processed st). Q a s (alert_processor st)) \<Longrightarrow>
    sound (alert_processor st') \<and> (\<forall>(a, s)\<in>set (processed st'). Q a s (alert_processor st'))"
proof (induction n arbitrary: st)
  case (Suc n)
  let ?K = "\<lambda>x. sound (alert_processor x) \<and> (\<forall>(a, s)\<in>set (processed x). Q a s (alert_processor x))"
  obtain t st1 where t: "alert_turn W st = (t, st1)" by fastforce
  have one: "?K y" if "process_one W b x = (t', y)" "?K x" for b x t' y
    using that assms [of b "alert_processor x"]
    by (cases "process_alert W b (alert_processor x)") (fastforce simp: process_one_def split: prod.splits sum.splits)
  have stays: "?K y" if "process_one W b x = (t', y)" "alert_processor x = alert_processor st" "processed x = processed st" for b x t' y
    using one [OF that(1)] that(2,3) Suc.prems(2) by simp
  have "?K st1"
    using t Suc.prems(2)
    by (auto simp only: alert_turn_def Let_def split: if_split_asm prod.split_asm sum.split_asm option.split_asm
        dest!: stays) simp_all
  with Suc.IH [of st1] Suc.prems(1) t show ?case by (auto split: loop_turn.splits)
qed simp

context alert_stores
begin

lemma alone_stores:
  assumes "stored_candid (job_alert j) = job_candid j"
  shows "run_alone E j n g st = (g', st') \<Longrightarrow> set (alert_docs (alert_db st)) \<subseteq> set (alert_docs (alert_db st')) \<and>
    (g' = Ended (Inr status) \<and> (\<forall>r. g \<noteq> Ended r) \<longrightarrow>
       (\<exists>a\<in>set (alert_docs (alert_db st')). stored_candid a = job_candid j) \<and> status \<in> {Added (job_candid j), Exists (job_candid j)})"
proof (induction n arbitrary: g st)
  case (Suc n)
  obtain h st1 where h: "work E j g st = (h, st1)" by fastforce
  have c: "set (alert_docs (alert_db st)) \<subseteq> set (alert_docs (alert_db st1)) \<and>
    (h = Ended (Inr status) \<and> (\<forall>r. g \<noteq> Ended r) \<longrightarrow>
       (\<exists>a\<in>set (alert_docs (alert_db st1)). stored_candid a = job_candid j) \<and> status \<in> {Added (job_candid j), Exists (job_candid j)})"
    using alerts_call [of j g "\<lparr>shared = st, workers = (\<lambda>_. None)\<rparr>" h st1 status] h assms by simp
  have r: "run_alone E j n h st1 = (g', st')" using Suc.prems h by simp
  show ?case
  proof (cases "\<exists>q. h = Ended q")
    case True
    then show ?thesis using r c by auto
  next
    case False
    then show ?thesis using Suc.IH [OF r] c by auto
  qed
qed auto

lemma processor_stores:
  assumes "ztf_processor E lib clock b (sc, k, st) = (r, sc', k', st')" "Avro_Header.cache_sound (ztf_library (floats E) lib) sc"
  shows "Avro_Header.cache_sound (ztf_library (floats E) lib) sc' \<and> set (alert_docs (alert_db st)) \<subseteq> set (alert_docs (alert_db st')) \<and>
    (\<forall>s. r = Inr s \<longrightarrow> (\<exists>v. decode_alone (ztf_library (floats E) lib) b = Inr (Some v) \<and>
       (\<exists>x\<in>set (alert_docs (alert_db st')). stored_candid x = av_candid v) \<and> s \<in> {Added (av_candid v), Exists (av_candid v)}))"
proof -
  let ?lib = "ztf_library (floats E) lib"
  obtain o1 sc1 where read: "read_packet E lib (clock k) b sc = (o1, sc1)" by fastforce
  note decoded = decode_with_cache [OF assms(2), of b]
  have sc1: "sc1 = snd (alert_from_avro_bytes ?lib b sc)"
    using read by (auto simp: read_packet_def split: prod.splits option.splits sum.splits)
  moreover have "sc' = sc1"
    using assms(1) read by (auto simp: ztf_processor_def split: prod.splits option.splits sum.splits)
  ultimately have sound: "Avro_Header.cache_sound ?lib sc'" using decoded by simp
  show ?thesis
  proof (cases "\<exists>j. o1 = Some (Inr j)")
    case True
    then obtain j where j: "o1 = Some (Inr j)" by blast
    with read obtain v where v: "alert_from_avro_bytes ?lib b sc = (Some (Inr (Some v)), sc1)" "intake_of E (clock k) v = Some j"
      by (auto simp: read_packet_def split: prod.splits option.splits sum.splits)
    with decoded have alone: "decode_alone ?lib b = Inr (Some v)" by simp
    have p: "ztf_process_alert E j st = (r, st')"
      using assms(1) read j by (auto simp: ztf_processor_def split: prod.splits)
    have "run_alone E j 9 Checking st = (Ended r, st')"
      by (simp add: processing_by_calls p)
    moreover have "stored_candid (job_alert j) = job_candid j" "job_candid j = av_candid v"
      using intake_fields(1) [OF v(2)] v(2) by (auto simp: intake_of_def Let_def split: prod.splits)
    ultimately have "set (alert_docs (alert_db st)) \<subseteq> set (alert_docs (alert_db st')) \<and>
        (r = Inr status \<longrightarrow> (\<exists>x\<in>set (alert_docs (alert_db st')). stored_candid x = av_candid v) \<and>
          status \<in> {Added (av_candid v), Exists (av_candid v)})" for status
      using alone_stores [of j 9 Checking st "Ended r" st' status] by simp
    with alone sound show ?thesis by blast
  next
    case False
    then have "st' = st" "\<nexists>s. r = Inr s"
      using assms(1) read by (auto simp: ztf_processor_def split: option.splits sum.splits)
    with sound show ?thesis by blast
  qed
qed

end

text \<open>
  C2: A packet is never dropped between the queue and the database: whatever commands to the queues
  and calls to the stores fail, before or after they took effect, after any number of turns of
  the ZTF worker's main loop a packet that was queued is still in the input queue or the temp
  queue, or the worker processed this very packet: it decodes with its own schema, an alert with its
  candid is stored, and either the candid was handed to the enrichment queue or the alert was found
  to be stored already.
\<close>

theorem queued_packets_end_in_the_database:
  assumes "alert_stores E" "redis_store (server W)" "output_queue W \<noteq> input_queue W"
    and "output_queue W \<noteq> alert_temp_queue_name (input_queue W)"
    and "process_alert W = ztf_processor E lib clock" "Avro_Header.cache_sound (ztf_library (floats E) lib) sc"
    and "alert_loop W n (start_worker W con (sc, k, st)) = (r, ws)" "alert_processor ws = (sc', k', st')"
    and "a \<in> set (lists (server W) con (input_queue W)) \<union> set (lists (server W) con (alert_temp_queue_name (input_queue W)))"
  shows "a \<in> set (lists (server W) (connection ws) (input_queue W)) \<union>
             set (lists (server W) (connection ws) (alert_temp_queue_name (input_queue W))) \<or>
    (\<exists>v. decode_alone (ztf_library (floats E) lib) a = Inr (Some v) \<and>
      av_candid v \<in> stored_candid ` set (docs (alerts E) (alert_db st')) \<and>
      ((a, Added (av_candid v)) \<in> set (processed ws) \<and>
          candid_args W (av_candid v) \<in> set (lists (server W) (connection ws) (output_queue W)) \<or>
       (a, Exists (av_candid v)) \<in> set (processed ws)))"
proof -
  let ?L = "ztf_library (floats E) lib"
  let ?J = "\<lambda>p. Avro_Header.cache_sound ?L (fst p)"
  let ?Q = "\<lambda>b s p. \<exists>v. decode_alone ?L b = Inr (Some v) \<and>
    (\<exists>x\<in>set (docs (alerts E) (alert_db (snd (snd p)))). stored_candid x = av_candid v) \<and> s \<in> {Added (av_candid v), Exists (av_candid v)}"
  have flow: "alert_flow W"
    by (rule alert_flow.intro) (use assms(2-4) in simp_all)
  have "kept W a (processed (start_worker W con (sc, k, st))) (lists (server W) (connection (start_worker W con (sc, k, st))))"
    using assms(9) by (simp add: kept_def start_worker_def)
  from alert_flow.loop_keeps [OF flow assms(7) this]
  have kept: "kept W a (processed ws) (lists (server W) (connection ws))" .
  have q: "?J p' \<and> (\<forall>c s. ?Q c s p \<longrightarrow> ?Q c s p') \<and> (\<forall>s. r = Inr s \<longrightarrow> ?Q b s p')"
    if "process_alert W b p = (r, p')" "?J p" for b p r p'
  proof -
    obtain x y z x' y' z' where p: "p = (x, y, z)" "p' = (x', y', z')" by (metis prod.exhaust)
    from that assms(5) have "ztf_processor E lib clock b (x, y, z) = (r, x', y', z')" "Avro_Header.cache_sound ?L x" by (simp_all add: p)
    from alert_stores.processor_stores [OF assms(1) this] show ?thesis unfolding p by auto
  qed
  have start: "?J (alert_processor (start_worker W con (sc, k, st))) \<and>
      (\<forall>(a, s)\<in>set (processed (start_worker W con (sc, k, st))). ?Q a s (alert_processor (start_worker W con (sc, k, st))))"
    using assms(6) by (simp add: start_worker_def)
  have recorded: "\<forall>(a, s)\<in>set (processed ws). ?Q a s (alert_processor ws)"
    using loop_records [where Q = ?Q and sound = ?J, OF q assms(7) start] by blast
  show ?thesis
  proof (cases "a \<in> set (lists (server W) (connection ws) (input_queue W)) \<union>
      set (lists (server W) (connection ws) (alert_temp_queue_name (input_queue W)))")
    case False
    with kept obtain status where status: "(a, status) \<in> set (processed ws)"
      "\<forall>c. status = Added c \<longrightarrow> candid_args W c \<in> set (lists (server W) (connection ws) (output_queue W))"
      by (auto simp: kept_def handed_on_def)
    have "?Q a status (alert_processor ws)" using recorded status(1) by fast
    then obtain v where v: "decode_alone ?L a = Inr (Some v)" "status = Added (av_candid v) \<or> status = Exists (av_candid v)"
      "\<exists>x\<in>set (docs (alerts E) (alert_db st')). stored_candid x = av_candid v"
      using assms(8) by auto
    from v(3) have stored: "av_candid v \<in> stored_candid ` set (docs (alerts E) (alert_db st'))" by force
    have "(a, Added (av_candid v)) \<in> set (processed ws) \<and>
          candid_args W (av_candid v) \<in> set (lists (server W) (connection ws) (output_queue W)) \<or>
        (a, Exists (av_candid v)) \<in> set (processed ws)"
      using v(2) status by auto
    with v(1) stored show ?thesis by blast
  qed blast
qed

text \<open>The worker on queues and stores in memory, with a library that reads every datum as
  \<^const>\<open>demo_packet\<close>; the two packets queued are no Avro files.\<close>

definition ztf_demo_library :: "(unit, unit, raw_packet) avro_library" where
  "ztf_demo_library = \<lparr>parse_str = (\<lambda>_. Inr ()), from_avro_datum = (\<lambda>_ _. Inr ()), from_value = (\<lambda>_. Inr demo_packet)\<rparr>"

definition ztf_setup :: "(lists, unit schema_cache \<times> nat \<times> (unit ztf_alert list, (unit, unit, unit) aux_object list,
    string \<Rightarrow> u8 list option, string \<Rightarrow> u8 list option, alert_cutout list, unit) alert_state) alert_setup" where
  "ztf_setup = \<lparr>server = memory_redis, input_queue = ''in'', output_queue = ''out'',
     candid_args = (\<lambda>c. [ucast c]), command_interval = 100, receiver = (\<lambda>_. Empty),
     process_alert = ztf_processor memory_world ztf_demo_library (\<lambda>_. Num 9)\<rparr>"

lemma ztf_names:
  "server ztf_setup = memory_redis" "output_queue ztf_setup \<noteq> input_queue ztf_setup"
  "output_queue ztf_setup \<noteq> alert_temp_queue_name (input_queue ztf_setup)"
  "process_alert ztf_setup = ztf_processor memory_world ztf_demo_library (\<lambda>_. Num 9)"
  by (simp_all add: ztf_setup_def alert_temp_queue_name_def)

theorem queued_packets_end_in_the_database_witness:
  "let ws = snd (alert_loop ztf_setup 2 (start_worker ztf_setup demo_lists (empty_cache, 0, demo_idle)));
       st' = snd (snd (alert_processor ws))
   in [1] \<in> set (lists (server ztf_setup) (connection ws) (input_queue ztf_setup)) \<union>
         set (lists (server ztf_setup) (connection ws) (alert_temp_queue_name (input_queue ztf_setup))) \<or>
      (\<exists>v. decode_alone (ztf_library (floats memory_world) ztf_demo_library) [1] = Inr (Some v) \<and>
        av_candid v \<in> stored_candid ` set (docs (alerts memory_world) (alert_db st')) \<and>
        (([1], Added (av_candid v)) \<in> set (processed ws) \<and>
            candid_args ztf_setup (av_candid v) \<in> set (lists (server ztf_setup) (connection ws) (output_queue ztf_setup)) \<or>
         ([1], Exists (av_candid v)) \<in> set (processed ws)))"
  unfolding Let_def
proof (rule queued_packets_end_in_the_database [OF memory_alerts.alert_stores_axioms _ ztf_names(2-4) _ prod.collapse [symmetric]])
  let ?ws = "snd (alert_loop ztf_setup 2 (start_worker ztf_setup demo_lists (empty_cache, 0, demo_idle)))"
  show "alert_processor ?ws = (fst (alert_processor ?ws), fst (snd (alert_processor ?ws)), snd (snd (alert_processor ?ws)))"
    by simp
  show "Avro_Header.cache_sound (ztf_library (floats memory_world) ztf_demo_library) empty_cache"
    by (simp add: Avro_Header.cache_sound_def empty_cache_def)
qed (simp_all only: ztf_names memory.redis_store_axioms, simp add: memory_redis_def ztf_setup_def demo_lists_def)

section \<open>A stored alert that is not enriched\<close>

context alert_stores
begin

text \<open>An alert that is stored is never reported as new again: its key is taken.\<close>

lemma stored_is_not_added:
  assumes "c \<in> stored_candid ` set (alert_docs (alert_db st))" "stored_candid (job_alert j) = job_candid j"
    and "ztf_process_alert E j st = (r, st')"
  shows "r \<noteq> Inr (Added c)"
proof
  assume r: "r = Inr (Added c)"
  with assms(3) obtain adb where f: "format_and_insert_alert E (job_candid j) (job_alert j) (alert_db st) = (Inr (Added c), adb)"
    by (auto simp: ztf_process_alert_def split: sum.splits prod.splits bool.splits)
  then obtain u where ins: "insert_one (alerts E) (job_alert j) (alert_db st) = (Inr u, adb)" and c: "c = job_candid j"
    by (auto simp: format_and_insert_alert_def split: prod.splits sum.splits if_splits)
  from doc_store.insert_law [OF alerts_store ins] have "fresh_id (alerts E) (job_alert j) (alert_docs (alert_db st))"
    by simp
  with assms(1,2) c show False
    by (auto simp: fresh_id_def alert_key image_iff)
qed

lemma processor_adds_not:
  assumes "ztf_processor E lib clock b (sc, k, st) = (r, sc', k', st')"
    and "c \<in> stored_candid ` set (alert_docs (alert_db st))"
  shows "r \<noteq> Inr (Added c)"
proof (cases "\<exists>j sc1. read_packet E lib (clock k) b sc = (Some (Inr j), sc1)")
  case True
  then obtain j sc1 v where read: "read_packet E lib (clock k) b sc = (Some (Inr j), sc1)" and v: "intake_of E (clock k) v = Some j"
    by (auto simp: read_packet_def split: prod.splits option.splits sum.splits)
  have "ztf_process_alert E j st = (r, st')"
    using assms(1) read by (auto simp: ztf_processor_def split: prod.splits)
  then show ?thesis
    using stored_is_not_added [OF assms(2), of j r st'] intake_fields(1) [OF v] by simp
next
  case False
  then show ?thesis
    using assms(1) by (auto simp: ztf_processor_def split: prod.splits option.splits sum.splits)
qed

end

text \<open>
  C22: An alert can be stored and never reach the enrichment stage: if a turn of the worker stores a
  new alert and then fails, with the candid not in the output queue, the packet waits in the temp
  queue and recovery puts it back on the input queue; but whatever the restarted worker does in any
  number of turns, whichever of its calls fail, it never takes the packet for a new alert again.
  The alert is stored, its packet is still queued or was dismissed as known, and its candid has not
  been put in the output queue.
\<close>

theorem stored_alert_can_miss_enrichment:
  assumes "alert_stores E" "redis_store (server W)" "output_queue W \<noteq> input_queue W"
    and "output_queue W \<noteq> alert_temp_queue_name (input_queue W)" "inj (candid_args W)"
    and "process_alert W = ztf_processor E lib clock"
    and "Avro_Header.cache_sound (ztf_library (floats E) lib) (fst (alert_processor ws))"
    and "alert_turn W ws = (Finished (Inl e), ws')" "processed ws' = (a, Added c) # processed ws"
    and "candid_args W c \<notin> set (lists (server W) (connection ws') (output_queue W))"
    and "recover_temp_queue (server W) (input_queue W) (connection ws') = (Inr m, con)"
    and "Avro_Header.cache_sound (ztf_library (floats E) lib) sc"
    and "alert_loop W n (start_worker W con (sc, k, snd (snd (alert_processor ws')))) = (r, again)"
  shows "a \<in> set (lists (server W) con (input_queue W)) \<and>
    c \<in> stored_candid ` set (docs (alerts E) (alert_db (snd (snd (alert_processor again))))) \<and>
    candid_args W c \<notin> set (lists (server W) (connection again) (output_queue W)) \<and>
    (a \<in> set (lists (server W) (connection again) (input_queue W)) \<union>
         set (lists (server W) (connection again) (alert_temp_queue_name (input_queue W))) \<or>
     (a, Exists c) \<in> set (processed again))"
proof -
  let ?L = "ztf_library (floats E) lib"
  let ?st = "snd (snd (alert_processor ws'))"
  let ?start = "start_worker W con (sc, k, ?st)"
  let ?stored = "\<lambda>p. c \<in> stored_candid ` set (docs (alerts E) (alert_db (snd (snd p))))"
  let ?J = "\<lambda>p. Avro_Header.cache_sound ?L (fst p) \<and> ?stored p"
  let ?Q = "\<lambda>b s p. s \<noteq> Added c \<and> (\<exists>v. decode_alone ?L b = Inr (Some v) \<and> s \<in> {Added (av_candid v), Exists (av_candid v)})"
  have flow: "alert_flow W"
    by (rule alert_flow.intro) (use assms(2-4) in simp_all)
  have step: "Avro_Header.cache_sound ?L (fst p') \<and>
      set (docs (alerts E) (alert_db (snd (snd p)))) \<subseteq> set (docs (alerts E) (alert_db (snd (snd p')))) \<and>
      (\<forall>s. r = Inr s \<longrightarrow> (\<exists>v. decode_alone ?L b = Inr (Some v) \<and>
         (\<exists>x\<in>set (docs (alerts E) (alert_db (snd (snd p')))). stored_candid x = av_candid v) \<and>
         s \<in> {Added (av_candid v), Exists (av_candid v)})) \<and>
      (?stored p \<longrightarrow> r \<noteq> Inr (Added c))"
    if "process_alert W b p = (r, p')" "Avro_Header.cache_sound ?L (fst p)" for b p r p'
  proof -
    obtain x y z x' y' z' where p: "p = (x, y, z)" "p' = (x', y', z')" by (metis prod.exhaust)
    from that assms(6) have c: "ztf_processor E lib clock b (x, y, z) = (r, x', y', z')" "Avro_Header.cache_sound ?L x" by (simp_all add: p)
    from alert_stores.processor_stores [OF assms(1) c] alert_stores.processor_adds_not [OF assms(1) c(1)]
    show ?thesis unfolding p by auto
  qed
  have J: "?J p' \<and> (\<forall>c s. ?Q c s p \<longrightarrow> ?Q c s p') \<and> (\<forall>s. r = Inr s \<longrightarrow> ?Q b s p')" and new: "r \<noteq> Inr (Added c)"
    if "process_alert W b p = (r, p')" "?J p" for b p r p'
    using step [OF that(1)] that(2) by blast+
  from alert_flow.failed_push_keeps_packet [OF flow assms(8-10)]
  have temp: "a \<in> set (lists (server W) (connection ws') (alert_temp_queue_name (input_queue W)))" and
    first: "process_alert W a (alert_processor ws) = (Inr (Added c), alert_processor ws')" by auto
  from step [OF first assms(7)] obtain v where a: "decode_alone ?L a = Inr (Some v)" "av_candid v = c" and
    stored: "?stored (alert_processor ws')" by force
  have queued: "a \<in> set (lists (server W) con (input_queue W))"
    using recovery_moves_all [OF assms(2,11)] temp by simp
  have out: "candid_args W c \<notin> set (lists (server W) (connection ?start) (output_queue W))"
    using recover_elsewhere [OF assms(2,4,3,11)] assms(10) by (simp add: start_worker_def)
  have start: "?J (alert_processor ?start) \<and> (\<forall>(a, s)\<in>set (processed ?start). ?Q a s (alert_processor ?start))"
    using assms(12) stored by (simp add: start_worker_def)
  have again: "?J (alert_processor again) \<and> (\<forall>(a, s)\<in>set (processed again). ?Q a s (alert_processor again))"
    by (rule loop_records [where Q = ?Q and sound = ?J, OF J assms(13) start])
  have "kept W a (processed ?start) (lists (server W) (connection ?start))"
    using queued by (simp add: kept_def start_worker_def)
  from alert_flow.loop_keeps [OF flow assms(13) this]
  have "a \<in> set (lists (server W) (connection again) (input_queue W)) \<union>
         set (lists (server W) (connection again) (alert_temp_queue_name (input_queue W))) \<or>
     (a, Exists c) \<in> set (processed again)"
    using again a by (fastforce simp: kept_def handed_on_def)
  moreover have "candid_args W c \<notin> set (lists (server W) (connection again) (output_queue W))"
    using alert_flow.loop_pushes_not [where sound = ?J, OF flow _ assms(5,13) _ out] J new start by blast
  ultimately show ?thesis
    using queued again by blast
qed

text \<open>A packet that holds \<^const>\<open>demo_packet\<close>, and a worker on a queue server that refuses every push.\<close>

definition demo_file :: "u8 list" where
  "demo_file = container [Counted [(schema_key, [0x22, 0x22])]] (replicate 16 7) 3 [1]"

lemma demo_file_header: "\<exists>start. get_schema_and_startidx demo_file = Inr ([0x22, 0x22], start)"
proof -
  have "writer_schema [Counted [(schema_key, [0x22, 0x22])]] = Some [0x22, 0x22]" "utf8_valid [0x22, 0x22]"
    by (simp_all add: writer_schema_def)
  then show ?thesis
    unfolding demo_file_def using read_container [of "[Counted [(schema_key, [0x22, 0x22])]]" "replicate 16 7" 3 "[1]"]
    by (simp add: i64_range_def container_def encode_entries_def encode_bytes_def encode_long_def
      encode_variable.simps zigzag_def schema_key_def magic_def)
qed

lemma demo_file_read:
  "\<exists>sc. Avro_Header.cache_sound (ztf_library (floats memory_world) ztf_demo_library) sc \<and>
     read_packet memory_world ztf_demo_library (Num 9) demo_file empty_cache = (Some (Inr demo_intake), sc)"
proof -
  let ?L = "ztf_library (floats memory_world) ztf_demo_library"
  have sound: "Avro_Header.cache_sound ?L empty_cache"
    by (simp add: Avro_Header.cache_sound_def empty_cache_def)
  have fl: "floats memory_world = ones" by (simp add: memory_world_def)
  obtain start where "get_schema_and_startidx demo_file = Inr ([0x22, 0x22], start)"
    using demo_file_header by blast
  then have "decode_alone ?L demo_file = Inr (Some demo_alert)"
    by (simp add: decode_alone_def decode_datum_def ztf_library_def ztf_demo_library_def fl demo_packet_read)
  with decode_with_cache [OF sound, of demo_file] demo_taken show ?thesis
    by (cases "alert_from_avro_bytes ?L demo_file empty_cache") (simp add: read_packet_def)
qed

text \<open>The client writes a candid in decimal.\<close>

definition decimal_bytes :: "i64 \<Rightarrow> payload" where
  "decimal_bytes c = map (\<lambda>ch. word_of_nat (of_char ch)) (int_text (sint c))"

lemma decimal_bytes_inj: "inj decimal_bytes"
proof (rule injI)
  fix c d assume eq: "decimal_bytes c = decimal_bytes d"
  have "inj (\<lambda>ch. word_of_nat (of_char ch) :: u8)"
  proof (rule injI)
    fix x y :: char
    assume "(word_of_nat (of_char x) :: u8) = word_of_nat (of_char y)"
    then have "unat (word_of_nat (of_char x) :: u8) = unat (word_of_nat (of_char y) :: u8)" by simp
    then have "(of_char x :: nat) mod 256 = of_char y mod 256" by (simp add: unat_of_nat)
    then show "x = y" by simp
  qed
  with eq have "int_text (sint c) = int_text (sint d)"
    unfolding decimal_bytes_def by (metis inj_map_eq_map)
  then show "c = d" by (simp add: int_text_inj sint_inj)
qed

definition deaf_setup :: "(lists, unit schema_cache \<times> nat \<times> (unit ztf_alert list, (unit, unit, unit) aux_object list,
    string \<Rightarrow> u8 list option, string \<Rightarrow> u8 list option, alert_cutout list, unit) alert_state) alert_setup" where
  "deaf_setup = \<lparr>server = deaf_redis, input_queue = ''in'', output_queue = ''out'', candid_args = decimal_bytes,
     command_interval = 100, receiver = (\<lambda>_. Empty),
     process_alert = ztf_processor memory_world ztf_demo_library (\<lambda>_. Num 9)\<rparr>"

lemma deaf_names:
  "server deaf_setup = deaf_redis" "input_queue deaf_setup = ''in''" "output_queue deaf_setup = ''out''"
  "candid_args deaf_setup = decimal_bytes" "command_interval deaf_setup = 100"
  "alert_temp_queue_name ''in'' = ''in_temp''"
  "process_alert deaf_setup = ztf_processor memory_world ztf_demo_library (\<lambda>_. Num 9)"
  by (simp_all add: deaf_setup_def alert_temp_queue_name_def)

definition deaf_start :: "(lists, unit schema_cache \<times> nat \<times> (unit ztf_alert list, (unit, unit, unit) aux_object list,
    string \<Rightarrow> u8 list option, string \<Rightarrow> u8 list option, alert_cutout list, unit) alert_state) alert_worker_state" where
  "deaf_start = start_worker deaf_setup ((\<lambda>_. [])(''in'' := [demo_file])) (empty_cache, 0, demo_idle)"

text \<open>Its first turn stores the alert, cannot push its candid, and ends the worker.\<close>

lemma deaf_turn:
  "\<exists>sc. alert_turn deaf_setup deaf_start = (Finished (Inl (Redis refused_command)),
     \<lparr>connection = (\<lambda>_. [])(''in_temp'' := [demo_file]), alert_processor = (sc, 1, demo_stored),
       command_check_countdown = 99, polls = 0, processed = [(demo_file, Added 7)]\<rparr>)"
proof -
  obtain sc where "read_packet memory_world ztf_demo_library (Num 9) demo_file empty_cache = (Some (Inr demo_intake), sc)"
    using demo_file_read by blast
  then have processed: "ztf_processor memory_world ztf_demo_library (\<lambda>_. Num 9) demo_file (empty_cache, 0, demo_idle) =
      (Inr (Added 7), sc, 1, demo_stored)"
    by (simp add: ztf_processor_def demo_processed)
  have nonempty: "demo_file \<noteq> []"
    by (simp add: demo_file_def container_def magic_def)
  have "rpoplpush deaf_redis ''in'' ''in_temp'' ((\<lambda>_. [])(''in'' := [demo_file])) =
      (Inr (Some demo_file), (\<lambda>_. [])(''in_temp'' := [demo_file]))"
    by (simp add: deaf_redis_def memory_redis_def moved_def fun_eq_iff)
  note moved = retry_valkey_at_once [of "rpoplpush deaf_redis ''in'' ''in_temp''", OF this]
  have "retrieve_avro_bytes deaf_redis ''in'' ''in_temp'' ((\<lambda>_. [])(''in'' := [demo_file])) =
      (Inr (Some demo_file), (\<lambda>_. [])(''in_temp'' := [demo_file]))"
    using nonempty by (simp add: retrieve_avro_bytes_def moved)
  moreover have "retry_valkey (lpush deaf_redis ''out'' vs) m = (Inl refused_command, m)" for vs m
    by (simp add: retry_valkey_def retry_transient_def retry_loop.simps deaf_redis_def refused_command_def
      is_transient_redis_error_def)
  ultimately show ?thesis
    using processed
    by (simp add: alert_turn_def deaf_start_def start_worker_def deaf_names process_one_def handle_process_result_def usize_pred_def)
qed

theorem stored_alert_can_miss_enrichment_witness:
  "\<exists>ws' con. alert_turn deaf_setup deaf_start = (Finished (Inl (Redis refused_command)), ws') \<and>
     recover_temp_queue deaf_redis ''in'' (connection ws') = (Inr 1, con) \<and>
     (let again = snd (alert_loop deaf_setup 1 (start_worker deaf_setup con (empty_cache, 0, snd (snd (alert_processor ws')))))
      in demo_file \<in> set (con ''in'') \<and>
        (7 :: i64) \<in> stored_candid ` set (docs (alerts memory_world) (alert_db (snd (snd (alert_processor again))))) \<and>
        decimal_bytes 7 \<notin> set (connection again ''out'') \<and>
        (demo_file \<in> set (connection again ''in'') \<union> set (connection again ''in_temp'') \<or>
         (demo_file, Exists 7) \<in> set (processed again)))"
proof -
  obtain sc where turn: "alert_turn deaf_setup deaf_start = (Finished (Inl (Redis refused_command)),
     \<lparr>connection = (\<lambda>_. [])(''in_temp'' := [demo_file]), alert_processor = (sc, 1, demo_stored),
       command_check_countdown = 99, polls = 0, processed = [(demo_file, Added 7)]\<rparr>)" (is "_ = (_, ?ws)")
    using deaf_turn by blast
  have rec: "recover_temp_queue deaf_redis ''in'' (connection ?ws) = (Inr 1, (\<lambda>_. [])(''in'' := [demo_file]))"
    by (simp add: fun_eq_iff recover_temp_queue_def deaf_redis_def memory_redis_def alert_temp_queue_name_def moved_def)
  have deaf_lists: "lists deaf_redis m = m" for m by (simp add: deaf_redis_def memory_redis_def)
  have sound: "Avro_Header.cache_sound (ztf_library (floats memory_world) ztf_demo_library) empty_cache"
    by (simp add: Avro_Header.cache_sound_def empty_cache_def)
  have start: "alert_processor deaf_start = (empty_cache, 0, demo_idle)" "processed deaf_start = []"
    by (simp_all add: deaf_start_def start_worker_def)
  note missed = stored_alert_can_miss_enrichment [OF memory_alerts.alert_stores_axioms _ _ _ _ deaf_names(7) _ turn _ _ _ sound
      prod.collapse [symmetric], of demo_file 7 1 "(\<lambda>_. [])(''in'' := [demo_file])", unfolded deaf_names deaf_lists]
  show ?thesis
    using missed [of 1 0] turn rec sound start unfolding Let_def
    by (intro exI [of _ ?ws] exI [of _ "(\<lambda>_. [])(''in'' := [demo_file])"])
      (simp add: deaf.redis_store_axioms decimal_bytes_inj)
qed

end
