(* ===== verification/Filter_Pipeline.thy ===== *)
theory Filter_Pipeline
  imports Json Supervisor
begin

text \<open>
  User-defined filters (\<open>src/src/filter/base.rs\<close>, \<open>src/src/api/filters.rs\<close>): a filter is an
  aggregation pipeline, a list of JSON stages.  This theory holds what is checked of one before
  it may run: which fields and other collections it refers to, at any depth, and the rules for its
  \<open>$project\<close>, \<open>$unset\<close> and last stages; a declarative reading of the rules is shown equal to the
  checking loop.
\<close>

datatype filter_error =
    BsonValueAccess string
  | BsonSerialization string
  | Filter_mongodb string
  | Filter_serde string
  | InvalidFilterPermissions
  | FilterNotFound
  | FilterPipelineError
  | InvalidFilterPipeline string
  | InvalidFilterId
  | FilterExecutionError string
  | InvalidWatchlist string

section \<open>Fields a stage uses\<close>

text \<open>\<open>str::trim\<close>: the characters of Unicode's White\_Space, as UTF-8.\<close>

definition WHITE_SPACE :: "string list" where
  "WHITE_SPACE =
     [[CHR 0x09], [CHR 0x0A], [CHR 0x0B], [CHR 0x0C], [CHR 0x0D], [CHR 0x20], [CHR 0xC2, CHR 0x85],
      [CHR 0xC2, CHR 0xA0], [CHR 0xE1, CHR 0x9A, CHR 0x80], [CHR 0xE2, CHR 0x80, CHR 0xA8],
      [CHR 0xE2, CHR 0x80, CHR 0xA9], [CHR 0xE2, CHR 0x80, CHR 0xAF], [CHR 0xE2, CHR 0x81, CHR 0x9F],
      [CHR 0xE3, CHR 0x80, CHR 0x80], [CHR 0xE2, CHR 0x80, CHR 0x80], [CHR 0xE2, CHR 0x80, CHR 0x81],
      [CHR 0xE2, CHR 0x80, CHR 0x82], [CHR 0xE2, CHR 0x80, CHR 0x83], [CHR 0xE2, CHR 0x80, CHR 0x84],
      [CHR 0xE2, CHR 0x80, CHR 0x85], [CHR 0xE2, CHR 0x80, CHR 0x86], [CHR 0xE2, CHR 0x80, CHR 0x87],
      [CHR 0xE2, CHR 0x80, CHR 0x88], [CHR 0xE2, CHR 0x80, CHR 0x89], [CHR 0xE2, CHR 0x80, CHR 0x8A]]"

lemma find_Some_in: "find p xs = Some x \<Longrightarrow> x \<in> set xs \<and> p x"
  by (auto simp: find_Some_iff)

lemma WHITE_SPACE_nonempty: "[] \<notin> set WHITE_SPACE"
  by (simp add: WHITE_SPACE_def)

lemma stripped_shorter:
  "find (\<lambda>w. prefix w s) WHITE_SPACE = Some w \<Longrightarrow> length (drop (length w) s) < length s"
  "find (\<lambda>w. suffix w s) WHITE_SPACE = Some w \<Longrightarrow> length (take (length s - length w) s) < length s"
  using WHITE_SPACE_nonempty
  by (auto dest!: find_Some_in simp: prefix_def suffix_def length_greater_0_conv [symmetric] simp del: length_greater_0_conv)

function trim_start :: "string \<Rightarrow> string" where
  "trim_start s =
     (case find (\<lambda>w. prefix w s) WHITE_SPACE of None \<Rightarrow> s | Some w \<Rightarrow> trim_start (drop (length w) s))"
  by pat_completeness auto

termination
  by (relation "measure length") (use stripped_shorter(1) in auto)

declare trim_start.simps [simp del]

function trim_end :: "string \<Rightarrow> string" where
  "trim_end s =
     (case find (\<lambda>w. suffix w s) WHITE_SPACE of
        None \<Rightarrow> s | Some w \<Rightarrow> trim_end (take (length s - length w) s))"
  by pat_completeness auto

termination
  by (relation "measure length") (use stripped_shorter(2) in auto)

declare trim_end.simps [simp del]

definition str_trim :: "string \<Rightarrow> string" where
  "str_trim s = trim_end (trim_start s)"

text \<open>A string names a field if it is the field or a path into it, with or without a \<open>$\<close>.\<close>

definition names_field :: "string \<Rightarrow> string \<Rightarrow> bool" where
  "names_field s field =
     (let s = str_trim s
      in s = field \<or> s = ''$'' @ field \<or> prefix (field @ ''.'') s \<or> prefix (''$'' @ field @ ''.'') s)"

lemma list_ex_cong [fundef_cong]:
  "xs = ys \<Longrightarrow> (\<And>x. x \<in> set ys \<Longrightarrow> p x = q x) \<Longrightarrow> list_ex p xs = list_ex q ys"
  by (induction ys arbitrary: xs) auto

fun uses_field_in_stage :: "json \<Rightarrow> string \<Rightarrow> bool" where
  "uses_field_in_stage (JArray xs) field = list_ex (\<lambda>x. uses_field_in_stage x field) xs"
| "uses_field_in_stage (JObject kvs) field =
     list_ex (\<lambda>(k, v). names_field k field \<or> uses_field_in_stage v field) kvs"
| "uses_field_in_stage (JString s) field = names_field s field"
| "uses_field_in_stage _ field = False"

fun uses_field_in_filter :: "json list \<Rightarrow> string \<Rightarrow> nat option" where
  "uses_field_in_filter [] field = None"
| "uses_field_in_filter (stage # rest) field =
     (if uses_field_in_stage stage field then Some 0
      else map_option Suc (uses_field_in_filter rest field))"

section \<open>References that cannot be meant\<close>

definition NULLED_JOINS :: "string list" where
  "NULLED_JOINS = [''aux'', ''ztf_aux'', ''lsst_aux'']"

definition flattened_name :: "string \<Rightarrow> string option" where
  "flattened_name path =
     find_map (\<lambda>join.
       case Option.bind (strip_prefix join path) (strip_prefix ''.'') of
         Some rest \<Rightarrow> Some rest
       | None \<Rightarrow> if path = join then Some [] else None) NULLED_JOINS"

text \<open>\<open>known\<close> are the fields of the survey's candidate, from its derived Avro schema.\<close>

definition check_candidate :: "(string \<Rightarrow> bool) \<Rightarrow> string \<Rightarrow> string option" where
  "check_candidate known path =
     (case strip_prefix ''candidate.'' path of
        None \<Rightarrow> None
      | Some rest \<Rightarrow>
          (let field = takeWhile (\<lambda>c. c \<noteq> CHR ''.'') rest
           in if field \<noteq> [] \<and> \<not> known field then Some path else None))"

definition or_else :: "'a option \<Rightarrow> 'a option \<Rightarrow> 'a option" where
  "or_else a b = (case a of Some x \<Rightarrow> Some x | None \<Rightarrow> b)"

lemma or_else_cong [fundef_cong]:
  "a = a' \<Longrightarrow> (a' = None \<Longrightarrow> b = b') \<Longrightarrow> or_else a b = or_else a' b'"
  by (auto simp: or_else_def split: option.splits)

lemma or_else_None [simp]: "or_else a b = None \<longleftrightarrow> a = None \<and> b = None"
  by (auto simp: or_else_def split: option.splits)

fun find_unknown_candidate_field :: "(string \<Rightarrow> bool) \<Rightarrow> json \<Rightarrow> string option" where
  "find_unknown_candidate_field known (JString s) =
     Option.bind (strip_prefix ''$'' s) (check_candidate known)"
| "find_unknown_candidate_field known (JArray xs) = find_map (find_unknown_candidate_field known) xs"
| "find_unknown_candidate_field known (JObject kvs) =
     find_map (\<lambda>(k, v). or_else (check_candidate known k) (find_unknown_candidate_field known v)) kvs"
| "find_unknown_candidate_field known _ = None"

fun reject_unknown_candidate_fields ::
  "(string \<Rightarrow> bool) \<Rightarrow> json list \<Rightarrow> survey \<Rightarrow> (filter_error, unit) result" where
  "reject_unknown_candidate_fields known [] survey = Inr ()"
| "reject_unknown_candidate_fields known (stage # rest) survey =
     (case find_unknown_candidate_field known stage of
        Some path \<Rightarrow> Inl (InvalidFilterPipeline
          (''`'' @ path @ ''` is not a field of the '' @ survey_as_str survey @
           '' candidate schema: it reads as null, and null compares below any bound, '' @
           ''so the cut would admit every alert.''))
      | None \<Rightarrow> reject_unknown_candidate_fields known rest survey)"

fun find_nulled_join :: "json \<Rightarrow> (string \<times> string) option" where
  "find_nulled_join (JString s) =
     map_option (\<lambda>name. (s, name)) (Option.bind (strip_prefix ''$'' s) flattened_name)"
| "find_nulled_join (JArray xs) = find_map find_nulled_join xs"
| "find_nulled_join (JObject kvs) =
     find_map (\<lambda>(k, v). or_else (map_option (\<lambda>name. (k, name)) (flattened_name k)) (find_nulled_join v)) kvs"
| "find_nulled_join _ = None"

section \<open>Other collections\<close>

definition JOIN_STAGES :: "string list" where
  "JOIN_STAGES = [''$lookup'', ''$graphLookup'', ''$unionWith'']"

definition join_targets :: "string \<Rightarrow> json \<Rightarrow> (string, string list) result" where
  "join_targets key spec =
     collect_results (\<lambda>target. ok_or (key @ '' must name a collection of this database'') (as_str target))
       (List.map_filter (\<lambda>t. t)
         (case spec of JObject _ \<Rightarrow> [jget ''from'' spec, jget ''coll'' spec] | other \<Rightarrow> [Some other]))"

lemma collect_results_cong [fundef_cong]:
  "xs = ys \<Longrightarrow> (\<And>x. x \<in> set ys \<Longrightarrow> f x = g x) \<Longrightarrow> collect_results f xs = collect_results g ys"
  by (induction ys arbitrary: xs) auto

fun joined_collections :: "json \<Rightarrow> (string, string list) result" where
  "joined_collections (JArray xs) = and_then (collect_results joined_collections xs) (\<lambda>ns. Inr (concat ns))"
| "joined_collections (JObject kvs) =
     and_then (collect_results (\<lambda>(k, v).
         and_then (if k \<in> set JOIN_STAGES then join_targets k v else Inr []) (\<lambda>ns.
         and_then (joined_collections v) (\<lambda>ms. Inr (ns @ ms)))) kvs) (\<lambda>ns. Inr (concat ns))"
| "joined_collections _ = Inr []"

section \<open>Validation\<close>

abbreviation has_key :: "json \<Rightarrow> string \<Rightarrow> bool" where
  "has_key stage k \<equiv> jget k stage \<noteq> None"

definition ONE :: json where "ONE = JNumber (PosInt 1)"
definition ZERO :: json where "ZERO = JNumber (PosInt 0)"

definition nulled_join_text :: "string \<Rightarrow> string \<Rightarrow> string" where
  "nulled_join_text path name =
     ''`'' @ path @ ''` always reads as empty: a joined document is discarded once '' @
     ''its arrays are flattened, so '' @
     (if name = [] then ''its arrays are available at the top level'' else ''use `'' @ name @ ''` instead'') @ ''.''"

fun check_nulled_joins :: "json list \<Rightarrow> (filter_error, unit) result" where
  "check_nulled_joins [] = Inr ()"
| "check_nulled_joins (stage # rest) =
     (case find_nulled_join stage of
        Some (path, name) \<Rightarrow> Inl (InvalidFilterPipeline (nulled_join_text path name))
      | None \<Rightarrow> check_nulled_joins rest)"

definition check_stage_kind :: "json \<Rightarrow> (filter_error, unit) result" where
  "check_stage_kind stage =
     (if has_key stage ''$group'' \<or> has_key stage ''$unwind'' \<or> has_key stage ''$lookup'' \<or>
         joined_collections stage \<noteq> Inr []
      then Inl (InvalidFilterPipeline ''group, unwind, lookup, graphLookup and unionWith stages are not allowed'')
      else Inr ())"

text \<open>What the loop over the entries of a \<open>$project\<close> stage finds.\<close>

record project_flags =
  includes_object_id :: bool
  excludes_object_id :: bool
  excludes_id :: bool
  include_stage :: bool

fun project_entry :: "project_flags \<Rightarrow> string \<times> json \<Rightarrow> project_flags" where
  "project_entry st (key, v) =
     (if key = ''objectId'' then
        (if v = ONE then st\<lparr>includes_object_id := True\<rparr>
         else if v = ZERO then st\<lparr>excludes_object_id := True\<rparr> else st)
      else if key = ''_id'' then (if v = ZERO then st\<lparr>excludes_id := True\<rparr> else st)
      else if v = ZERO then st\<lparr>include_stage := False\<rparr> else st)"

definition project_flags_of :: "json \<Rightarrow> project_flags" where
  "project_flags_of project_stage =
     (let none = \<lparr>includes_object_id = False, excludes_object_id = False, excludes_id = False,
                  include_stage = True\<rparr>
      in case as_object project_stage of None \<Rightarrow> none | Some kvs \<Rightarrow> foldl project_entry none kvs)"

definition check_project :: "json \<Rightarrow> (filter_error, unit) result" where
  "check_project stage =
     (case jget ''$project'' stage of
        None \<Rightarrow> Inr ()
      | Some project_stage \<Rightarrow>
          (let st = project_flags_of project_stage
           in if excludes_id st then Inl (InvalidFilterPipeline ''_id field cannot be excluded'')
              else if \<not> include_stage st \<and> excludes_object_id st
              then Inl (InvalidFilterPipeline ''objectId field cannot be excluded'')
              else if include_stage st \<and> \<not> includes_object_id st
              then Inl (InvalidFilterPipeline ''objectId field must be included'')
              else Inr ()))"

definition check_unset :: "json \<Rightarrow> (filter_error, unit) result" where
  "check_unset stage =
     (case jget ''$unset'' stage of
        None \<Rightarrow> Inr ()
      | Some (JArray vs) \<Rightarrow>
          if list_ex (\<lambda>v. v = JString ''objectId'' \<or> v = JString ''_id'') vs
          then Inl (InvalidFilterPipeline ''objectId and _id fields cannot be unset'') else Inr ()
      | Some (JString s) \<Rightarrow>
          if s = ''objectId'' \<or> s = ''_id''
          then Inl (InvalidFilterPipeline ''objectId and _id fields cannot be unset'') else Inr ()
      | Some _ \<Rightarrow> Inl (InvalidFilterPipeline ''invalid $unset stage''))"

definition LAST_STAGE :: filter_error where
  "LAST_STAGE = InvalidFilterPipeline ''the last stage must be a $project stage that includes objectId''"

definition check_last :: "json \<Rightarrow> (filter_error, unit) result" where
  "check_last stage =
     (case Option.bind (jget ''$project'' stage) as_object of
        None \<Rightarrow> Inl LAST_STAGE
      | Some kvs \<Rightarrow> if map_of kvs ''objectId'' = Some ONE then Inr () else Inl LAST_STAGE)"

fun validate_stages :: "json list \<Rightarrow> nat \<Rightarrow> (filter_error, nat) result" where
  "validate_stages [] nb_match_stages = Inr nb_match_stages"
| "validate_stages (stage # rest) nb_match_stages =
     and_then (check_stage_kind stage) (\<lambda>_.
     and_then (check_project stage) (\<lambda>_.
     and_then (check_unset stage) (\<lambda>_.
     and_then (if rest = [] then check_last stage else Inr ()) (\<lambda>_.
       validate_stages rest (if has_key stage ''$match'' then nb_match_stages + 1 else nb_match_stages)))))"

definition validate_filter_pipeline :: "json list \<Rightarrow> (filter_error, unit) result" where
  "validate_filter_pipeline filter_pipeline =
     (if filter_pipeline = [] then Inl (InvalidFilterPipeline ''Filter pipeline cannot be empty'')
      else
        and_then (check_nulled_joins filter_pipeline) (\<lambda>_.
        and_then (validate_stages filter_pipeline 0) (\<lambda>nb_match_stages.
          if nb_match_stages = 0
          then Inl (InvalidFilterPipeline ''Filter pipeline must have at least one $match stage'')
          else Inr ())))"

section \<open>What validation establishes\<close>

text \<open>Every field path of a value, at any depth: the keys of objects, and strings behind a \<open>$\<close>.\<close>

fun field_paths :: "json \<Rightarrow> string list" where
  "field_paths (JString s) = (case strip_prefix ''$'' s of None \<Rightarrow> [] | Some p \<Rightarrow> [p])"
| "field_paths (JArray xs) = concat (map field_paths xs)"
| "field_paths (JObject kvs) = concat (map (\<lambda>(k, v). k # field_paths v) kvs)"
| "field_paths _ = []"

text \<open>A path into one of the joined documents the validation knows to be discarded, listed here on
  their own: the object's and those of ZTF and LSST matches, and not those of DECam matches.\<close>

definition names_discarded :: "string \<Rightarrow> bool" where
  "names_discarded path \<longleftrightarrow>
     path \<in> {''aux'', ''ztf_aux'', ''lsst_aux''} \<or>
     prefix ''aux.'' path \<or> prefix ''ztf_aux.'' path \<or> prefix ''lsst_aux.'' path"

text \<open>What stands under a stage of MongoDB that joins another collection, at any depth.\<close>

fun join_specs :: "json \<Rightarrow> json list" where
  "join_specs (JArray xs) = concat (map join_specs xs)"
| "join_specs (JObject kvs) =
     concat (map (\<lambda>(k, v). (if k \<in> {''$lookup'', ''$graphLookup'', ''$unionWith''} then [v] else []) @ join_specs v) kvs)"
| "join_specs _ = []"

definition names_no_collection :: "json \<Rightarrow> bool" where
  "names_no_collection spec \<longleftrightarrow>
     (case spec of JObject kvs \<Rightarrow> map_of kvs ''from'' = None \<and> map_of kvs ''coll'' = None | _ \<Rightarrow> False)"

definition project_keeps_ids :: "json \<Rightarrow> bool" where
  "project_keeps_ids spec \<longleftrightarrow>
     (case spec of
        JObject kvs \<Rightarrow> (''_id'', ZERO) \<notin> set kvs \<and>
          (if list_ex (\<lambda>(k, v). k \<noteq> ''objectId'' \<and> k \<noteq> ''_id'' \<and> v = ZERO) kvs
           then (''objectId'', ZERO) \<notin> set kvs else (''objectId'', ONE) \<in> set kvs)
      | _ \<Rightarrow> False)"

definition unset_keeps_ids :: "json \<Rightarrow> bool" where
  "unset_keeps_ids spec \<longleftrightarrow>
     (case spec of
        JArray vs \<Rightarrow> JString ''objectId'' \<notin> set vs \<and> JString ''_id'' \<notin> set vs
      | JString s \<Rightarrow> s \<notin> {''objectId'', ''_id''}
      | _ \<Rightarrow> False)"

definition stage_ok :: "json \<Rightarrow> bool" where
  "stage_ok stage \<longleftrightarrow>
     list_all (\<lambda>p. \<not> names_discarded p) (field_paths stage) \<and>
     jget ''$group'' stage = None \<and> jget ''$unwind'' stage = None \<and> jget ''$lookup'' stage = None \<and>
     list_all names_no_collection (join_specs stage) \<and>
     pred_option project_keeps_ids (jget ''$project'' stage) \<and>
     pred_option unset_keeps_ids (jget ''$unset'' stage)"

definition ends_in_object_id :: "json \<Rightarrow> bool" where
  "ends_in_object_id stage \<longleftrightarrow>
     (\<exists>kvs. jget ''$project'' stage = Some (JObject kvs) \<and> map_of kvs ''objectId'' = Some ONE)"

lemma flattened_name_None: "flattened_name path = None \<longleftrightarrow> \<not> names_discarded path"
  by (auto simp: flattened_name_def NULLED_JOINS_def names_discarded_def strip_prefix_def prefix_def
      split: option.splits if_splits)

lemma JOIN_STAGES_iff: "k \<in> set JOIN_STAGES \<longleftrightarrow> k \<in> {''$lookup'', ''$graphLookup'', ''$unionWith''}"
  by (simp add: JOIN_STAGES_def)

lemma find_nulled_join_None:
  "find_nulled_join v = None \<longleftrightarrow> list_all (\<lambda>p. \<not> names_discarded p) (field_paths v)"
  by (induction v rule: json_induct)
    (auto simp: find_map_None list_all_iff case_prod_beta flattened_name_None split: option.splits Option.bind_splits)

lemma find_unknown_candidate_field_None:
  "find_unknown_candidate_field known v = None \<longleftrightarrow>
   list_all (\<lambda>p. check_candidate known p = None) (field_paths v)"
  by (induction v rule: json_induct)
    (auto simp: find_map_None list_all_iff case_prod_beta split: option.splits Option.bind_splits)

lemma collect_results_Nil:
  "and_then (collect_results f xs) (\<lambda>ns. Inr (concat ns)) = Inr [] \<longleftrightarrow> list_all (\<lambda>x. f x = Inr []) xs"
  by (induction xs) (auto simp: and_then_def split: sum.splits)

lemma join_targets_Nil: "join_targets k v = Inr [] \<longleftrightarrow> names_no_collection v"
  by (cases v) (auto simp: join_targets_def names_no_collection_def map_filter_simps and_then_def ok_or_def
      split: sum.splits option.splits)

lemma and_then_Nil:
  "and_then a (\<lambda>ns. and_then b (\<lambda>ms. Inr (ns @ ms))) = Inr [] \<longleftrightarrow> a = Inr [] \<and> b = Inr []"
  by (auto simp: and_then_def split: sum.splits)

lemma joined_collections_Nil:
  "joined_collections v = Inr [] \<longleftrightarrow> list_all names_no_collection (join_specs v)"
proof (induction v rule: json_induct)
  case (array xs)
  then show ?case
    by (simp add: collect_results_Nil list_all_iff)
next
  case (object kvs)
  then show ?case
    by (simp add: collect_results_Nil list_all_iff case_prod_beta and_then_Nil join_targets_Nil JOIN_STAGES_iff) blast
qed simp_all

lemma distinct_numbers: "ONE \<noteq> ZERO" "ZERO \<noteq> ONE"
  by (simp_all add: ONE_def ZERO_def)

lemma foldl_project_flags:
  "foldl project_entry st kvs =
     \<lparr>includes_object_id = includes_object_id st \<or> (''objectId'', ONE) \<in> set kvs,
      excludes_object_id = excludes_object_id st \<or> (''objectId'', ZERO) \<in> set kvs,
      excludes_id = excludes_id st \<or> (''_id'', ZERO) \<in> set kvs,
      include_stage = (include_stage st \<and>
        \<not> list_ex (\<lambda>(k, v). k \<noteq> ''objectId'' \<and> k \<noteq> ''_id'' \<and> v = ZERO) kvs)\<rparr>"
proof (induction kvs arbitrary: st)
  case (Cons kv kvs)
  then show ?case
    by (cases kv) (auto simp: distinct_numbers)
qed simp

lemma check_project_ok:
  "check_project stage = Inr () \<longleftrightarrow> pred_option project_keeps_ids (jget ''$project'' stage)"
proof (cases "jget ''$project'' stage")
  case (Some p)
  then show ?thesis
    by (cases p) (auto simp: check_project_def project_flags_of_def project_keeps_ids_def
        foldl_project_flags Let_def)
qed (simp add: check_project_def)

lemma check_unset_ok:
  "check_unset stage = Inr () \<longleftrightarrow> pred_option unset_keeps_ids (jget ''$unset'' stage)"
  by (auto simp: check_unset_def unset_keeps_ids_def list_ex_iff split: option.splits json.splits)

lemma check_last_ok: "check_last stage = Inr () \<longleftrightarrow> ends_in_object_id stage"
proof (cases "jget ''$project'' stage")
  case (Some p)
  then show ?thesis
    by (cases p) (auto simp: check_last_def ends_in_object_id_def LAST_STAGE_def)
qed (auto simp: check_last_def ends_in_object_id_def)

lemma check_nulled_joins_ok:
  "check_nulled_joins p = Inr () \<longleftrightarrow> list_all (\<lambda>s. list_all (\<lambda>p. \<not> names_discarded p) (field_paths s)) p"
  by (induction p) (auto simp: find_nulled_join_None [symmetric] split: option.splits)

lemma and_then_unit: "and_then (r :: ('e, unit) result) f = Inr y \<longleftrightarrow> r = Inr () \<and> f () = Inr y"
  by (auto simp: and_then_def split: sum.splits)

definition stage_checks_ok :: "json \<Rightarrow> bool" where
  "stage_checks_ok stage \<longleftrightarrow>
     check_stage_kind stage = Inr () \<and> check_project stage = Inr () \<and> check_unset stage = Inr ()"

lemma validate_stages_ok:
  "validate_stages p n = Inr m \<longleftrightarrow>
     list_all stage_checks_ok p \<and> (p \<noteq> [] \<longrightarrow> ends_in_object_id (last p)) \<and>
     m = n + length (filter (\<lambda>s. has_key s ''$match'') p)"
  by (induction p arbitrary: n)
    (auto simp: and_then_unit stage_checks_ok_def check_last_ok [symmetric])

lemma check_stage_kind_ok:
  "check_stage_kind stage = Inr () \<longleftrightarrow>
     jget ''$group'' stage = None \<and> jget ''$unwind'' stage = None \<and> jget ''$lookup'' stage = None \<and>
     list_all names_no_collection (join_specs stage)"
  by (auto simp: check_stage_kind_def joined_collections_Nil [symmetric])

lemma stage_ok_checks:
  "stage_ok stage \<longleftrightarrow> list_all (\<lambda>p. \<not> names_discarded p) (field_paths stage) \<and> stage_checks_ok stage"
  by (auto simp: stage_ok_def stage_checks_ok_def check_stage_kind_ok check_project_ok check_unset_ok)

lemma pipeline_valid_iff:
  "validate_filter_pipeline p = Inr () \<longleftrightarrow>
     p \<noteq> [] \<and> list_all stage_ok p \<and> list_ex (\<lambda>s. has_key s ''$match'') p \<and> ends_in_object_id (last p)"
proof -
  have "length (filter (\<lambda>s. has_key s ''$match'') p) = 0 \<longleftrightarrow> \<not> list_ex (\<lambda>s. has_key s ''$match'') p"
    by (induction p) auto
  then show ?thesis
    by (auto simp: validate_filter_pipeline_def and_then_unit check_nulled_joins_ok and_then_Inr
        validate_stages_ok stage_ok_checks list_all_iff)
qed

text \<open>
  C11: The validation of a filter pipeline accepts exactly the pipelines that are not empty, have a
  \<open>$match\<close> stage, end with a \<open>$project\<close> that includes objectId, and whose stages neither group nor
  unwind, name no other collection under a joining stage at any depth, name at any depth (as a key
  or behind a \<open>$\<close>) none of the discarded joins \<open>aux\<close>, \<open>ztf_aux\<close> and \<open>lsst_aux\<close>, and whose
  \<open>$project\<close> and \<open>$unset\<close> stages keep \<open>objectId\<close> and \<open>_id\<close> as far as the integers 0 and 1 tell.
  References to \<open>decam_aux\<close>, and an exclusion that includes objectId, are among what is accepted.
\<close>

theorem validation_is_exact:
  "validate_filter_pipeline p = Inr () \<longleftrightarrow>
     p \<noteq> [] \<and> list_all stage_ok p \<and> list_ex (\<lambda>s. has_key s ''$match'') p \<and> ends_in_object_id (last p)"
  by (rule pipeline_valid_iff)

text \<open>
  The check that \<open>_id\<close> and \<open>objectId\<close> are not projected away sees only the integer 0: a last
  stage that excludes \<open>_id\<close> by \<open>false\<close> (or by 0.0) is accepted, although the database reads it
  as an exclusion and the results are looked up by \<open>_id\<close>; and one that includes objectId by \<open>true\<close>
  is refused.
\<close>

theorem exclusion_by_false_is_accepted:
  "validate_filter_pipeline [JObject [(''$match'', JObject [])],
     JObject [(''$project'', JObject [(''_id'', JBool False), (''objectId'', ONE)])]] = Inr () \<and>
   validate_filter_pipeline [JObject [(''$match'', JObject [])],
     JObject [(''$project'', JObject [(''_id'', JNumber (Float 0)), (''objectId'', ONE)])]] = Inr () \<and>
   validate_filter_pipeline [JObject [(''$match'', JObject [])],
     JObject [(''$project'', JObject [(''objectId'', JBool True)])]]
     = Inl (InvalidFilterPipeline ''objectId field must be included'')"
  by code_simp

text \<open>
  The comment in front of the checks says that a stage that excludes fields does not mention
  \<open>objectId\<close>; one that sets it to 1 beside an excluded field is accepted.
\<close>

theorem exclusion_may_mention_object_id:
  "validate_filter_pipeline [JObject [(''$match'', JObject [])],
     JObject [(''$project'', JObject [(''foo'', ZERO), (''objectId'', ONE)])]] = Inr ()"
  by code_simp

end
