(* ===== verification/Filter_Build.thy ===== *)
theory Filter_Build
  imports Filter_Pipeline
begin

text \<open>
  From a user's stages to the pipeline that runs (\<open>src/src/filter/base.rs\<close>; \<open>ztf.rs\<close>, \<open>lsst.rs\<close>,
  \<open>decam.rs\<close>, \<open>winter.rs\<close> beside it; \<open>src/src/utils/db.rs\<close>): a prefix, the user's stages, and before
  the first one that needs it, the lookup of the object's light curves, restricted to what the
  filter may read.  \<open>to_document\<close>, the BSON library's conversion of a stage, is a parameter.
\<close>

text \<open>The scalars the sources write into a stage; \<open>User\<close> is anything else of a user's.\<close>

datatype 'x scalar = Null | Bool bool | Int32 int | Int64 i64 | Double real | User 'x

type_synonym 'x bval = "'x scalar bson"
type_synonym 'x stage = "'x scalar bson_document"

abbreviation BInt :: "int \<Rightarrow> 'x bval" where "BInt n \<equiv> BOther (Int32 n)"

type_synonym permissions = "survey \<Rightarrow> int list option"

definition SURVEYS_REQUIRING_PERMISSIONS :: "survey list" where
  "SURVEYS_REQUIRING_PERMISSIONS = [Ztf]"

definition MAX_SEPARATION_ARCSEC :: real where "MAX_SEPARATION_ARCSEC = 20"

section \<open>Pieces of a pipeline\<close>

definition get_array_element :: "string \<Rightarrow> 'x bval" where
  "get_array_element field =
     BDocument [(''$ifNull'', BArray [BDocument [(''$arrayElemAt'', BArray [BString (''$'' @ field), BInt 0])],
       BArray []])]"

definition get_array_dict_element :: "string \<Rightarrow> 'x bval" where
  "get_array_dict_element field =
     BDocument [(''$ifNull'', BArray [BDocument [(''$arrayElemAt'', BArray [BString (''$'' @ field), BInt 0])],
       BDocument []])]"

definition fetch_timeseries_op :: "string \<Rightarrow> string \<Rightarrow> int \<Rightarrow> 'x bval list option \<Rightarrow> 'x bval" where
  "fetch_timeseries_op array_field candidate_jd_field time_window optional_conditions =
     (let conditions =
        [BDocument [(''$lt'', BArray [BDocument [(''$subtract'',
            BArray [BString (''$'' @ candidate_jd_field), BString ''$$x.jd''])], BInt time_window])],
         BDocument [(''$lte'', BArray [BString ''$$x.jd'', BString (''$'' @ candidate_jd_field)])]]
        @ (case optional_conditions of None \<Rightarrow> [] | Some opts \<Rightarrow> opts)
      in BDocument [(''$filter'', BDocument [(''input'', get_array_element array_field), (''as'', BString ''x''),
           (''cond'', BDocument [(''$and'', BArray conditions)])])])"

definition aux_lookup :: "string \<Rightarrow> string \<Rightarrow> string \<Rightarrow> 'x stage" where
  "aux_lookup from_coll local_field as_field =
     [(''$lookup'', BDocument [(''from'', BString from_coll), (''localField'', BString local_field),
        (''foreignField'', BString ''_id''), (''as'', BString as_field)])]"

definition add_fields :: "(string \<times> 'x bval) list \<Rightarrow> 'x stage" where
  "add_fields fs = [(''$addFields'', BDocument fs)]"

text \<open>\<open>if used.is_some() { fields.insert(name, op) }\<close>\<close>

definition insert_if :: "nat option \<Rightarrow> string \<Rightarrow> 'x bval \<Rightarrow> (string \<times> 'x bval) list \<Rightarrow> (string \<times> 'x bval) list" where
  "insert_if used name op fs = (if used \<noteq> None then obj_insert name op fs else fs)"

definition programid_check :: "int list \<Rightarrow> 'x bval" where
  "programid_check perms = BDocument [(''$in'', BArray [BString ''$$x.programid'', BArray (map BInt perms)])]"

definition USIZE_MAX :: nat where "USIZE_MAX = 2 ^ 64 - 1"

text \<open>The least of the indices that are there, starting from \<open>usize::MAX\<close>.\<close>

definition min_index :: "nat option list \<Rightarrow> nat" where
  "min_index is = foldl (\<lambda>m i. case i of None \<Rightarrow> m | Some n \<Rightarrow> min m n) USIZE_MAX is"

definition update_aliases_index :: "nat option \<Rightarrow> nat option \<Rightarrow> nat option" where
  "update_aliases_index current new =
     (case new of None \<Rightarrow> current
      | Some n \<Rightarrow> (case current of None \<Rightarrow> Some n | Some c \<Rightarrow> Some (min c n)))"

definition update_aliases_index_multiple :: "nat option \<Rightarrow> nat option list \<Rightarrow> nat option" where
  "update_aliases_index_multiple current news = foldl update_aliases_index current news"

section \<open>Light curves of matched objects of other surveys\<close>

text \<open>The pieces are the updated index of the aliases, whether to insert, and the fields.\<close>

definition build_lsst_aux_data ::
  "nat option \<Rightarrow> json list \<Rightarrow> nat option \<times> bool \<times> (string \<times> 'x bval) list" where
  "build_lsst_aux_data use_aliases_index filter_pipeline =
     (let prv = uses_field_in_filter filter_pipeline ''LSST.prv_candidates'';
          fp = uses_field_in_filter filter_pipeline ''LSST.fp_hists'';
          fs = insert_if fp ''LSST.fp_hists''
                     (fetch_timeseries_op ''lsst_aux.fp_hists'' ''candidate.jd'' 365 None)
                   (insert_if prv ''LSST.prv_candidates''
                     (fetch_timeseries_op ''lsst_aux.prv_candidates'' ''candidate.jd'' 365 None)
                   [(''lsst_aux'', BOther Null)])
      in (update_aliases_index_multiple use_aliases_index [prv, fp], min_index [prv, fp] \<noteq> USIZE_MAX, fs))"

definition build_ztf_aux_data ::
  "nat option \<Rightarrow> json list \<Rightarrow> permissions \<Rightarrow> nat option \<times> bool \<times> (string \<times> 'x bval) list" where
  "build_ztf_aux_data use_aliases_index filter_pipeline permissions =
     (let prv = uses_field_in_filter filter_pipeline ''ZTF.prv_candidates'';
          fp = uses_field_in_filter filter_pipeline ''ZTF.fp_hists'';
          ztf_permissions = (case permissions Ztf of Some ps \<Rightarrow> ps | None \<Rightarrow> [1]);
          check = Some [programid_check ztf_permissions];
          fs = insert_if fp ''ZTF.fp_hists''
                     (fetch_timeseries_op ''ztf_aux.fp_hists'' ''candidate.jd'' 365 check)
                   (insert_if prv ''ZTF.prv_candidates''
                     (fetch_timeseries_op ''ztf_aux.prv_candidates'' ''candidate.jd'' 365 check)
                   [(''ztf_aux'', BOther Null)])
      in (update_aliases_index_multiple use_aliases_index [prv, fp], min_index [prv, fp] \<noteq> USIZE_MAX, fs))"

definition has_decam_access :: "permissions \<Rightarrow> bool" where
  "has_decam_access permissions =
     (case permissions Decam of None \<Rightarrow> False | Some programids \<Rightarrow> programids \<noteq> [])"

definition NEVER :: "'x bval" where "NEVER = BDocument [(''$literal'', BOther (Bool False))]"

definition build_decam_aux_data ::
  "nat option \<Rightarrow> json list \<Rightarrow> permissions \<Rightarrow> nat option \<times> bool \<times> (string \<times> 'x bval) list" where
  "build_decam_aux_data use_aliases_index filter_pipeline permissions =
     (let prv = uses_field_in_filter filter_pipeline ''DECAM.prv_candidates'';
          fp = uses_field_in_filter filter_pipeline ''DECAM.fp_hists'';
          check = (if has_decam_access permissions then None else Some [NEVER]);
          fs = insert_if fp ''DECAM.fp_hists''
                     (fetch_timeseries_op ''decam_aux.fp_hists'' ''candidate.jd'' 365 check)
                   (insert_if prv ''DECAM.prv_candidates''
                     (fetch_timeseries_op ''decam_aux.prv_candidates'' ''candidate.jd'' 365 check)
                   [(''decam_aux'', BOther Null)])
      in (update_aliases_index_multiple use_aliases_index [prv, fp], prv \<noteq> None \<or> fp \<noteq> None, fs))"

definition insert_lsst_aux_pipeline_if_needed :: "bool \<Rightarrow> (string \<times> 'x bval) list \<Rightarrow> 'x stage list" where
  "insert_lsst_aux_pipeline_if_needed needed fs =
     (if needed then [aux_lookup ''LSST_alerts_aux'' ''aliases.LSST.0'' ''lsst_aux'', add_fields fs] else [])"

definition insert_ztf_aux_pipeline_if_needed :: "bool \<Rightarrow> (string \<times> 'x bval) list \<Rightarrow> 'x stage list" where
  "insert_ztf_aux_pipeline_if_needed needed fs =
     (if needed then [aux_lookup ''ZTF_alerts_aux'' ''aliases.ZTF.0'' ''ztf_aux'', add_fields fs] else [])"

definition insert_decam_aux_pipeline_if_needed :: "bool \<Rightarrow> (string \<times> 'x bval) list \<Rightarrow> 'x stage list" where
  "insert_decam_aux_pipeline_if_needed needed fs =
     (if needed then [aux_lookup ''DECAM_alerts_aux'' ''aliases.DECAM.0'' ''decam_aux'', add_fields fs] else [])"

section \<open>The pipelines of the surveys\<close>

definition first_match :: "'x stage" where
  "first_match = [(''$match'', BDocument [(''_id'', BDocument [(''$in'', BArray [])])])]"

definition first_project :: "(string \<times> 'x bval) list \<Rightarrow> 'x stage" where
  "first_project fs = [(''$project'', BDocument fs)]"

definition snt_literal :: "string \<times> 'x bval" where
  "snt_literal = (''snt'', BDocument [(''$literal'', BOther (Double SNT))])"

text \<open>The loop that copies the user's stages; \<open>inserted i\<close> is put before the stage of index \<open>i\<close>.  An
  index comes once, so that the flags against inserting twice have nothing to do.\<close>

fun weave ::
  "(json \<Rightarrow> (string, 'x stage) result) \<Rightarrow> (nat \<Rightarrow> 'x stage list) \<Rightarrow> nat \<Rightarrow> json list \<Rightarrow>
   (filter_error, 'x stage list) result" where
  "weave to_document inserted i [] = Inr []"
| "weave to_document inserted i (stage # rest) =
     and_then (map_err BsonSerialization (to_document stage)) (\<lambda>x.
     and_then (weave to_document inserted (i + 1) rest) (\<lambda>out. Inr (inserted i @ x # out)))"

definition NO_PLACE :: filter_error where
  "NO_PLACE = InvalidFilterPipeline ''could not determine where to insert aux pipeline''"

definition sso_history_lookup :: "int list \<Rightarrow> real \<Rightarrow> 'x stage" where
  "sso_history_lookup ztf_permissions window_days =
     [(''$lookup'', BDocument [
        (''from'', BString ''ZTF_alerts''),
        (''let'', BDocument [(''desig'', BString ''$properties.sso.designation''), (''jd'', BString ''$candidate.jd'')]),
        (''pipeline'', BArray [
           BDocument [(''$match'', BDocument [(''$expr'', BDocument [(''$and'', BArray [
             BDocument [(''$eq'', BArray [BString ''$candidate.ssnamenr'', BString ''$$desig''])],
             BDocument [(''$gte'', BArray [BString ''$candidate.jd'',
               BDocument [(''$subtract'', BArray [BString ''$$jd'', BOther (Double window_days)])]])],
             BDocument [(''$lte'', BArray [BString ''$candidate.jd'', BString ''$$jd''])],
             BDocument [(''$in'', BArray [BString ''$candidate.programid'', BArray (map BInt ztf_permissions)])],
             BDocument [(''$gte'', BArray [BString ''$candidate.ssdistnr'', BOther (Double 0)])],
             BDocument [(''$lt'', BArray [BString ''$candidate.ssdistnr'', BOther (Double MAX_SEPARATION_ARCSEC)])]])])])],
           BDocument [(''$project'', BDocument ((''_id'', BInt 0) # map (\<lambda>(k, v). (k, BString v))
             [(''designation'', ''$candidate.ssnamenr''), (''jd'', ''$candidate.jd''), (''fid'', ''$candidate.fid''),
              (''magpsf'', ''$candidate.magpsf''), (''sigmapsf'', ''$candidate.sigmapsf''),
              (''ra'', ''$candidate.ra''), (''dec'', ''$candidate.dec''),
              (''predicted_mag'', ''$properties.sso.predicted_mag''),
              (''separation_arcsec'', ''$properties.sso.separation_arcsec''),
              (''helio_dist'', ''$properties.sso.helio_dist''), (''topo_dist'', ''$properties.sso.topo_dist''),
              (''phase_angle'', ''$properties.sso.phase_angle''), (''true_anomaly'', ''$properties.sso.true_anomaly''),
              (''perihelion_time'', ''$properties.sso.perihelion_time'')]))],
           BDocument [(''$sort'', BDocument [(''jd'', BInt 1)])]]),
        (''as'', BString ''sso_history'')])]"

definition sso_history_stages :: "int list \<Rightarrow> 'x stage list" where
  "sso_history_stages ztf_permissions =
     [[(''$match'', BDocument [(''properties.sso.designation'',
         BDocument [(''$exists'', BOther (Bool True)), (''$ne'', BOther Null)])])],
      sso_history_lookup ztf_permissions 365]"

text \<open>
  What the four builders do alike.  \<open>table\<close> lists the fields of the object itself: the first stage
  that uses one, its name, and the expression that fills it.
\<close>

type_synonym 'x field_table = "(nat option \<times> string \<times> 'x bval) list"

definition table_fields :: "'x field_table \<Rightarrow> (string \<times> 'x bval) list" where
  "table_fields table = foldl (\<lambda>fs (used, name, op). insert_if used name op fs) [(''aux'', BOther Null)] table"

definition build_around ::
  "(json \<Rightarrow> (string, 'x stage) result) \<Rightarrow> json list \<Rightarrow> string \<Rightarrow> 'x field_table \<Rightarrow> 'x stage list \<Rightarrow>
   (nat \<Rightarrow> 'x stage list) \<Rightarrow> (string \<times> 'x bval) list \<Rightarrow> (filter_error, 'x stage list) result"
where
  "build_around to_document filter_pipeline aux_collection table joined before projected =
     (let insert_aux = list_ex (\<lambda>(used, _, _). used \<noteq> None) table;
          insert_aux_index = min_index (map fst table)
      in if insert_aux_index = USIZE_MAX \<and> insert_aux then Inl NO_PLACE
         else
           and_then (weave to_document (\<lambda>i. before i @
               (if insert_aux \<and> i = insert_aux_index
                then [aux_lookup aux_collection ''objectId'' ''aux'', add_fields (table_fields table)] @ joined
                else [])) 0 filter_pipeline) (\<lambda>stages.
           Inr ([first_match, first_project projected] @ stages)))"

definition build_ztf_filter_pipeline ::
  "(json \<Rightarrow> (string, 'x stage) result) \<Rightarrow> json list \<Rightarrow> permissions \<Rightarrow> (filter_error, 'x stage list) result"
where
  "build_ztf_filter_pipeline to_document filter_pipeline permissions =
     and_then (validate_filter_pipeline filter_pipeline) (\<lambda>_.
     let use = uses_field_in_filter filter_pipeline;
         (alias, lsst_needed, lsst_fields) = build_lsst_aux_data (use ''aliases'') filter_pipeline;
         (alias, decam_needed, decam_fields) = build_decam_aux_data alias filter_pipeline permissions
     in case permissions Ztf of
          None \<Rightarrow> Inl (InvalidFilterPipeline ''No ZTF permissions found for the filter'')
        | Some ztf_permissions \<Rightarrow>
            let series = (\<lambda>a. fetch_timeseries_op a ''candidate.jd'' 365 (Some [programid_check ztf_permissions]))
            in build_around to_document filter_pipeline ''ZTF_alerts_aux''
                 [(use ''prv_candidates'', ''prv_candidates'', series ''aux.prv_candidates''),
                  (use ''prv_nondetections'', ''prv_nondetections'', series ''aux.prv_nondetections''),
                  (use ''fp_hists'', ''fp_hists'', series ''aux.fp_hists''),
                  (use ''cross_matches'', ''cross_matches'', get_array_dict_element ''aux.cross_matches''),
                  (use ''host_galaxy'', ''host_galaxy'', get_array_dict_element ''aux.host_galaxy''),
                  (alias, ''aliases'', get_array_dict_element ''aux.aliases'')]
                 (insert_lsst_aux_pipeline_if_needed lsst_needed lsst_fields
                  @ insert_decam_aux_pipeline_if_needed decam_needed decam_fields)
                 (\<lambda>i. if use ''sso_history'' = Some i then sso_history_stages ztf_permissions else [])
                 [(''objectId'', BInt 1), (''candidate'', BInt 1), (''classifications'', BInt 1),
                  (''properties'', BInt 1), (''coordinates'', BInt 1), snt_literal])"

definition build_lsst_filter_pipeline ::
  "(json \<Rightarrow> (string, 'x stage) result) \<Rightarrow> json list \<Rightarrow> permissions \<Rightarrow> (filter_error, 'x stage list) result"
where
  "build_lsst_filter_pipeline to_document filter_pipeline permissions =
     and_then (validate_filter_pipeline filter_pipeline) (\<lambda>_.
     let use = uses_field_in_filter filter_pipeline;
         (alias, ztf_needed, ztf_fields) = build_ztf_aux_data (use ''aliases'') filter_pipeline permissions;
         (alias, decam_needed, decam_fields) = build_decam_aux_data alias filter_pipeline permissions;
         series = (\<lambda>a. fetch_timeseries_op a ''candidate.jd'' 365 None)
     in build_around to_document filter_pipeline ''LSST_alerts_aux''
          [(use ''prv_candidates'', ''prv_candidates'', series ''aux.prv_candidates''),
           (use ''fp_hists'', ''fp_hists'', series ''aux.fp_hists''),
           (use ''cross_matches'', ''cross_matches'', get_array_dict_element ''aux.cross_matches''),
           (use ''host_galaxy'', ''host_galaxy'', get_array_dict_element ''aux.host_galaxy''),
           (alias, ''aliases'', get_array_dict_element ''aux.aliases'')]
          (insert_ztf_aux_pipeline_if_needed ztf_needed ztf_fields
           @ insert_decam_aux_pipeline_if_needed decam_needed decam_fields)
          (\<lambda>_. [])
          [(''objectId'', BInt 1), (''candidate'', BInt 1), (''ss_source'', BInt 1),
           (''properties'', BInt 1), (''coordinates'', BInt 1), snt_literal])"

definition build_decam_filter_pipeline ::
  "(json \<Rightarrow> (string, 'x stage) result) \<Rightarrow> json list \<Rightarrow> permissions \<Rightarrow> (filter_error, 'x stage list) result"
where
  "build_decam_filter_pipeline to_document filter_pipeline permissions =
     and_then (validate_filter_pipeline filter_pipeline) (\<lambda>_.
     let use = uses_field_in_filter filter_pipeline;
         (alias, ztf_needed, ztf_fields) = build_ztf_aux_data (use ''aliases'') filter_pipeline permissions;
         (alias, lsst_needed, lsst_fields) = build_lsst_aux_data alias filter_pipeline;
         series = (\<lambda>a. fetch_timeseries_op a ''candidate.jd'' 1000 None)
     in build_around to_document filter_pipeline ''DECAM_alerts_aux''
          [(use ''prv_candidates'', ''prv_candidates'', series ''aux.prv_candidates''),
           (use ''fp_hists'', ''fp_hists'', series ''aux.fp_hists''),
           (use ''cross_matches'', ''cross_matches'', get_array_dict_element ''aux.cross_matches''),
           (use ''host_galaxy'', ''host_galaxy'', get_array_dict_element ''aux.host_galaxy''),
           (alias, ''aliases'', get_array_dict_element ''aux.aliases'')]
          (insert_ztf_aux_pipeline_if_needed ztf_needed ztf_fields
           @ insert_lsst_aux_pipeline_if_needed lsst_needed lsst_fields)
          (\<lambda>_. [])
          [(''objectId'', BInt 1), (''candidate'', BInt 1), (''properties'', BInt 1), (''coordinates'', BInt 1)])"

definition build_winter_filter_pipeline ::
  "(json \<Rightarrow> (string, 'x stage) result) \<Rightarrow> json list \<Rightarrow> permissions \<Rightarrow> (filter_error, 'x stage list) result"
where
  "build_winter_filter_pipeline to_document filter_pipeline permissions =
     and_then (validate_filter_pipeline filter_pipeline) (\<lambda>_.
     let use = uses_field_in_filter filter_pipeline;
         series = (\<lambda>a. fetch_timeseries_op a ''candidate.jd'' 1000 None)
     in build_around to_document filter_pipeline ''WINTER_alerts_aux''
          [(use ''prv_candidates'', ''prv_candidates'', series ''aux.prv_candidates''),
           (use ''cross_matches'', ''cross_matches'', get_array_dict_element ''aux.cross_matches''),
           (use ''host_galaxy'', ''host_galaxy'', get_array_dict_element ''aux.host_galaxy''),
           (use ''aliases'', ''aliases'', get_array_dict_element ''aux.aliases'')]
          [] (\<lambda>_. [])
          [(''objectId'', BInt 1), (''candidate'', BInt 1), (''properties'', BInt 1), (''coordinates'', BInt 1)])"

definition no_permissions :: "permissions \<Rightarrow> bool" where
  "no_permissions permissions = list_all (\<lambda>s. permissions s = None) [Ztf, Lsst, Decam, Winter]"

definition build_filter_pipeline ::
  "(json \<Rightarrow> (string, 'x stage) result) \<Rightarrow> json list \<Rightarrow> permissions \<Rightarrow> survey \<Rightarrow> (filter_error, 'x stage list) result"
where
  "build_filter_pipeline to_document pipeline permissions survey =
     (if survey \<in> set SURVEYS_REQUIRING_PERMISSIONS \<and> no_permissions permissions
      then Inl InvalidFilterPermissions
      else case survey of
        Ztf \<Rightarrow> build_ztf_filter_pipeline to_document pipeline permissions
      | Lsst \<Rightarrow> build_lsst_filter_pipeline to_document pipeline permissions
      | Decam \<Rightarrow> build_decam_filter_pipeline to_document pipeline permissions
      | Winter \<Rightarrow> build_winter_filter_pipeline to_document pipeline permissions)"

section \<open>Where the inserted stages stand\<close>

text \<open>The user's stages \<open>docs\<close>, from index \<open>i\<close> on, with what is inserted before them.\<close>

fun woven :: "(nat \<Rightarrow> 'x stage list) \<Rightarrow> nat \<Rightarrow> 'x stage list \<Rightarrow> 'x stage list" where
  "woven inserted i [] = []"
| "woven inserted i (d # ds) = inserted i @ d # woven inserted (i + 1) ds"

lemma weave_woven:
  "weave to_document inserted i p = Inr out \<Longrightarrow>
   \<exists>docs. map to_document p = map Inr docs \<and> out = woven inserted i docs"
proof (induction p arbitrary: i out)
  case (Cons stage rest)
  then obtain x out' where x: "to_document stage = Inr x" and
    w: "weave to_document inserted (i + 1) rest = Inr out'" "out = inserted i @ x # out'"
    by (auto simp: and_then_Inr map_err_def split: sum.splits)
  from Cons.IH [OF w(1)] obtain docs where "map to_document rest = map Inr docs"
    "out' = woven inserted (i + 1) docs" by blast
  with x w(2) show ?case
    by (intro exI [of _ "x # docs"]) simp
qed simp

lemma woven_split:
  "m < length docs \<Longrightarrow> woven inserted i docs =
     woven inserted i (take m docs) @ inserted (i + m) @ docs ! m # woven inserted (i + m + 1) (drop (m + 1) docs)"
proof (induction docs arbitrary: i m)
  case (Cons d ds)
  then show ?case
    by (cases m) (use Cons.IH [of _ "i + 1"] in auto)
qed simp

lemma woven_subseq: "subseq docs (woven inserted i docs)"
  by (induction docs arbitrary: i) auto

lemma woven_in: "s \<in> set (woven inserted i docs) \<Longrightarrow> s \<in> set docs \<or> (\<exists>j. s \<in> set (inserted j))"
  by (induction docs arbitrary: i) auto

lemma uses_field_in_filter_le:
  "k < length p \<Longrightarrow> uses_field_in_stage (p ! k) field \<Longrightarrow>
   \<exists>j \<le> k. uses_field_in_filter p field = Some j"
proof (induction p arbitrary: k)
  case (Cons stage rest)
  show ?case
  proof (cases "uses_field_in_stage stage field")
    case False
    with Cons.prems obtain k' where k: "k = Suc k'"
      by (cases k) auto
    with Cons.prems have "k' < length rest" "uses_field_in_stage (rest ! k') field"
      by simp_all
    from Cons.IH [OF this] k False show ?thesis
      by auto
  qed simp
qed simp

lemma uses_field_in_filter_less: "uses_field_in_filter p field = Some j \<Longrightarrow> j < length p"
  by (induction p arbitrary: j) (auto split: if_splits)

lemma min_index_le: "Some j \<in> set is \<Longrightarrow> min_index is \<le> j"
  unfolding min_index_def
proof (induction "is" arbitrary: rule: rev_induct)
  case (snoc i "is")
  then show ?case
    by (auto simp: le_diff_conv split: option.splits intro: min.coboundedI1)
qed simp

lemma min_index_in: "min_index is = USIZE_MAX \<or> Some (min_index is) \<in> set is"
  unfolding min_index_def
  by (induction "is" rule: rev_induct) (auto simp: min_def split: option.splits)

lemma aliases_index_in:
  "update_aliases_index_multiple c ns = Some n \<Longrightarrow> Some n \<in> set (c # ns)"
  unfolding update_aliases_index_multiple_def
  by (induction ns arbitrary: n rule: rev_induct)
    (auto simp: update_aliases_index_def min_def split: option.splits if_splits)

lemma aliases_index_le:
  "Some j \<in> set (c # ns) \<Longrightarrow> \<exists>n \<le> j. update_aliases_index_multiple c ns = Some n"
  unfolding update_aliases_index_multiple_def
proof (induction ns rule: rev_induct)
  case (snoc i ns)
  then show ?case
    by (auto simp: update_aliases_index_def min_def split: option.splits)
qed auto

section \<open>What the inserted stages read\<close>

text \<open>
  The fields the inserted stages fill in, and where each comes from, spelled out as MongoDB gets
  it and without the builders' own helpers: the collection and the local field of the
  \<open>$lookup\<close>, the name it joins under and the path that is read.
\<close>

record aux_source =
  fld :: string
  src_coll :: string
  src_local :: string
  src_as :: string
  src_path :: string

definition matched_source :: "string \<Rightarrow> string \<Rightarrow> string \<Rightarrow> string \<Rightarrow> string \<Rightarrow> aux_source" where
  "matched_source f coll local joined path =
     \<lparr>fld = f, src_coll = coll, src_local = local, src_as = joined, src_path = path\<rparr>"

definition ZTF_SOURCES :: "aux_source list" where
  "ZTF_SOURCES =
     [matched_source ''ZTF.prv_candidates'' ''ZTF_alerts_aux'' ''aliases.ZTF.0'' ''ztf_aux'' ''$ztf_aux.prv_candidates'',
      matched_source ''ZTF.fp_hists'' ''ZTF_alerts_aux'' ''aliases.ZTF.0'' ''ztf_aux'' ''$ztf_aux.fp_hists'']"

definition LSST_SOURCES :: "aux_source list" where
  "LSST_SOURCES =
     [matched_source ''LSST.prv_candidates'' ''LSST_alerts_aux'' ''aliases.LSST.0'' ''lsst_aux'' ''$lsst_aux.prv_candidates'',
      matched_source ''LSST.fp_hists'' ''LSST_alerts_aux'' ''aliases.LSST.0'' ''lsst_aux'' ''$lsst_aux.fp_hists'']"

definition DECAM_SOURCES :: "aux_source list" where
  "DECAM_SOURCES =
     [matched_source ''DECAM.prv_candidates'' ''DECAM_alerts_aux'' ''aliases.DECAM.0'' ''decam_aux'' ''$decam_aux.prv_candidates'',
      matched_source ''DECAM.fp_hists'' ''DECAM_alerts_aux'' ''aliases.DECAM.0'' ''decam_aux'' ''$decam_aux.fp_hists'']"

definition own_sources :: "survey \<Rightarrow> aux_source list" where
  "own_sources survey =
     map (\<lambda>f. \<lparr>fld = f, src_coll = survey_as_str survey @ ''_alerts_aux'', src_local = ''objectId'', src_as = ''aux'',
         src_path = ''$aux.'' @ f\<rparr>)
       ([''prv_candidates'', ''cross_matches'', ''host_galaxy'', ''aliases'']
        @ (if survey = Ztf then [''prv_nondetections''] else [])
        @ (if survey = Winter then [] else [''fp_hists'']))"

text \<open>The fields a user's stage finds filled in, of its own object and of the matched ones.\<close>

definition aux_sources :: "survey \<Rightarrow> aux_source list" where
  "aux_sources survey = own_sources survey @
     (case survey of
        Ztf \<Rightarrow> LSST_SOURCES @ DECAM_SOURCES
      | Lsst \<Rightarrow> ZTF_SOURCES @ DECAM_SOURCES
      | Decam \<Rightarrow> ZTF_SOURCES @ LSST_SOURCES
      | Winter \<Rightarrow> [])"

definition ztf_programids :: "permissions \<Rightarrow> int list" where
  "ztf_programids permissions = (case permissions Ztf of Some ps \<Rightarrow> ps | None \<Rightarrow> [1])"

definition DOCUMENT_PATHS :: "string list" where
  "DOCUMENT_PATHS = [''$aux.cross_matches'', ''$aux.host_galaxy'', ''$aux.aliases'']"

definition OWN_POINTS :: "string list" where
  "OWN_POINTS = [''$aux.prv_candidates'', ''$aux.prv_nondetections'', ''$aux.fp_hists'']"

text \<open>The conditions on a point that is read: it lies in the time window and not after the alert; a
  point of ZTF is of a program the filter has permission for, and of a DECam object matched to
  another survey's alert no point passes without DECam permissions.\<close>

definition point_conditions :: "survey \<Rightarrow> permissions \<Rightarrow> string \<Rightarrow> 'x bval list" where
  "point_conditions survey permissions path =
     [BDocument [(''$lt'', BArray [BDocument [(''$subtract'', BArray [BString ''$candidate.jd'', BString ''$$x.jd''])],
        BInt (if path \<in> set OWN_POINTS \<and> survey \<in> {Decam, Winter} then 1000 else 365)])],
      BDocument [(''$lte'', BArray [BString ''$$x.jd'', BString ''$candidate.jd''])]]
     @ (if path \<in> {''$ztf_aux.prv_candidates'', ''$ztf_aux.fp_hists''} \<or> survey = Ztf \<and> path \<in> set OWN_POINTS
        then [BDocument [(''$in'', BArray [BString ''$$x.programid'', BArray (map BInt (ztf_programids permissions))])]]
        else [])
     @ (if path \<in> {''$decam_aux.prv_candidates'', ''$decam_aux.fp_hists''} \<and> permissions Decam \<in> {None, Some []}
        then [BDocument [(''$literal'', BOther (Bool False))]]
        else [])"

text \<open>The expression that reads a path: a document of the joined object, or its points.\<close>

definition read_of :: "survey \<Rightarrow> permissions \<Rightarrow> string \<Rightarrow> 'x bval" where
  "read_of survey permissions path =
     (if path \<in> set DOCUMENT_PATHS
      then BDocument [(''$ifNull'', BArray [BDocument [(''$arrayElemAt'', BArray [BString path, BInt 0])], BDocument []])]
      else BDocument [(''$filter'', BDocument [
        (''input'', BDocument [(''$ifNull'',
           BArray [BDocument [(''$arrayElemAt'', BArray [BString path, BInt 0])], BArray []])]),
        (''as'', BString ''x''),
        (''cond'', BDocument [(''$and'', BArray (point_conditions survey permissions path))])])])"

definition lookup_of :: "aux_source \<Rightarrow> 'x stage" where
  "lookup_of s = [(''$lookup'', BDocument [(''from'', BString (src_coll s)), (''localField'', BString (src_local s)),
     (''foreignField'', BString ''_id''), (''as'', BString (src_as s))])]"

definition may_read :: "survey \<Rightarrow> permissions \<Rightarrow> 'x bval \<Rightarrow> bool" where
  "may_read survey permissions v \<longleftrightarrow> v = BOther Null \<or>
     list_ex (\<lambda>s. v = read_of survey permissions (src_path s)) (aux_sources survey)"

definition fields_allowed :: "survey \<Rightarrow> permissions \<Rightarrow> (string \<times> 'x bval) list \<Rightarrow> bool" where
  "fields_allowed survey permissions fs = list_all (\<lambda>(_, v). may_read survey permissions v) fs"

text \<open>The history of a solar-system object: earlier alerts of it, of the permitted programs only.\<close>

definition history_lookup :: "permissions \<Rightarrow> 'x stage \<Rightarrow> bool" where
  "history_lookup permissions s \<longleftrightarrow> (\<exists>bound conds shown order.
     s = [(''$lookup'', BDocument [
       (''from'', BString ''ZTF_alerts''),
       (''let'', bound),
       (''pipeline'', BArray [
          BDocument [(''$match'', BDocument [(''$expr'', BDocument [(''$and'', BArray conds)])])],
          BDocument [(''$project'', shown)],
          BDocument [(''$sort'', order)]]),
       (''as'', BString ''sso_history'')])] \<and>
     BDocument [(''$in'', BArray [BString ''$candidate.programid'', BArray (map BInt (ztf_programids permissions))])]
       \<in> set conds \<and>
     BDocument [(''$eq'', BArray [BString ''$candidate.ssnamenr'', BString ''$$desig''])] \<in> set conds \<and>
     BDocument [(''$lte'', BArray [BString ''$candidate.jd'', BString ''$$jd''])] \<in> set conds)"

text \<open>A stage a builder may add: it selects alerts by id or by being a solar-system object, keeps
  fields of the alert itself, looks the object or a matched one up, or reads what it may.\<close>

definition guarded :: "survey \<Rightarrow> permissions \<Rightarrow> 'x stage \<Rightarrow> bool" where
  "guarded survey permissions s \<longleftrightarrow>
     (\<exists>name cond. s = [(''$match'', BDocument [(name, cond)])] \<and> name \<in> {''_id'', ''properties.sso.designation''}) \<or>
     (\<exists>fs. s = [(''$project'', BDocument fs)] \<and> list_all (\<lambda>(name, v). v = BInt 1 \<and>
        name \<in> {''objectId'', ''candidate'', ''classifications'', ''properties'', ''coordinates'', ''ss_source''} \<or>
        name = ''snt'' \<and> (\<exists>c. v = BDocument [(''$literal'', c)])) fs) \<or>
     s \<in> lookup_of ` set (aux_sources survey) \<or>
     survey = Ztf \<and> history_lookup permissions s \<or>
     (\<exists>fs. s = [(''$addFields'', BDocument fs)] \<and> fields_allowed survey permissions fs)"

text \<open>The stages fill a field in: its lookup, and at once the stage that reads it; the lookup of a
  matched object comes after the object's own aliases have been filled in.\<close>

definition fills :: "survey \<Rightarrow> permissions \<Rightarrow> aux_source \<Rightarrow> 'x stage list \<Rightarrow> 'x stage list \<Rightarrow> bool" where
  "fills survey permissions s before stages \<longleftrightarrow>
     (\<exists>fs. stages = [lookup_of s, [(''$addFields'', BDocument fs)]] \<and>
        map_of fs (fld s) = Some (read_of survey permissions (src_path s))) \<and>
     (s \<in> set (own_sources survey) \<or> (\<exists>b c fs a. a \<in> set (own_sources survey) \<and> fld a = ''aliases'' \<and>
        before = b @ [lookup_of a, [(''$addFields'', BDocument fs)]] @ c \<and>
        map_of fs ''aliases'' = Some (read_of survey permissions (src_path a))))"

lemma fills_frame: "fills survey permissions s b st \<Longrightarrow> fills survey permissions s (a @ b) st"
  unfolding fills_def by (metis append.assoc)

lemma lookup_of_sources:
  "s \<in> set (own_sources survey) \<Longrightarrow> lookup_of s = aux_lookup (survey_as_str survey @ ''_alerts_aux'') ''objectId'' ''aux''"
  "s \<in> set LSST_SOURCES \<Longrightarrow> lookup_of s = aux_lookup ''LSST_alerts_aux'' ''aliases.LSST.0'' ''lsst_aux''"
  "s \<in> set ZTF_SOURCES \<Longrightarrow> lookup_of s = aux_lookup ''ZTF_alerts_aux'' ''aliases.ZTF.0'' ''ztf_aux''"
  "s \<in> set DECAM_SOURCES \<Longrightarrow> lookup_of s = aux_lookup ''DECAM_alerts_aux'' ''aliases.DECAM.0'' ''decam_aux''"
  by (auto simp: lookup_of_def aux_lookup_def own_sources_def LSST_SOURCES_def ZTF_SOURCES_def DECAM_SOURCES_def
      matched_source_def split: if_splits)

lemma has_decam_access_iff: "has_decam_access permissions \<longleftrightarrow> permissions Decam \<notin> {None, Some []}"
  by (auto simp: has_decam_access_def split: option.splits)

lemmas read_defs = read_of_def point_conditions_def DOCUMENT_PATHS_def OWN_POINTS_def fetch_timeseries_op_def
  get_array_element_def get_array_dict_element_def programid_check_def NEVER_def has_decam_access_iff

text \<open>The builders' own expressions read as they should.\<close>

lemma reads_documents:
  "get_array_dict_element ''aux.cross_matches'' = read_of survey permissions ''$aux.cross_matches''"
  "get_array_dict_element ''aux.host_galaxy'' = read_of survey permissions ''$aux.host_galaxy''"
  "get_array_dict_element ''aux.aliases'' = read_of survey permissions ''$aux.aliases''"
  by (simp_all add: read_defs)

lemma reads_lsst:
  "fetch_timeseries_op ''lsst_aux.prv_candidates'' ''candidate.jd'' 365 None = read_of survey permissions ''$lsst_aux.prv_candidates''"
  "fetch_timeseries_op ''lsst_aux.fp_hists'' ''candidate.jd'' 365 None = read_of survey permissions ''$lsst_aux.fp_hists''"
  by (simp_all add: read_defs)

lemma reads_ztf:
  "fetch_timeseries_op ''ztf_aux.prv_candidates'' ''candidate.jd'' 365 (Some [programid_check (ztf_programids permissions)]) =
     read_of survey permissions ''$ztf_aux.prv_candidates''"
  "fetch_timeseries_op ''ztf_aux.fp_hists'' ''candidate.jd'' 365 (Some [programid_check (ztf_programids permissions)]) =
     read_of survey permissions ''$ztf_aux.fp_hists''"
  by (simp_all add: read_defs)

lemma reads_decam:
  "fetch_timeseries_op ''decam_aux.prv_candidates'' ''candidate.jd'' 365 (if has_decam_access permissions then None else Some [NEVER]) =
     read_of survey permissions ''$decam_aux.prv_candidates''"
  "fetch_timeseries_op ''decam_aux.fp_hists'' ''candidate.jd'' 365 (if has_decam_access permissions then None else Some [NEVER]) =
     read_of survey permissions ''$decam_aux.fp_hists''"
  by (simp_all add: read_defs)

lemma reads_own_ztf:
  "fetch_timeseries_op ''aux.prv_candidates'' ''candidate.jd'' 365 (Some [programid_check (ztf_programids permissions)]) =
     read_of Ztf permissions ''$aux.prv_candidates''"
  "fetch_timeseries_op ''aux.prv_nondetections'' ''candidate.jd'' 365 (Some [programid_check (ztf_programids permissions)]) =
     read_of Ztf permissions ''$aux.prv_nondetections''"
  "fetch_timeseries_op ''aux.fp_hists'' ''candidate.jd'' 365 (Some [programid_check (ztf_programids permissions)]) =
     read_of Ztf permissions ''$aux.fp_hists''"
  by (simp_all add: read_defs)

lemma reads_own_lsst:
  "fetch_timeseries_op ''aux.prv_candidates'' ''candidate.jd'' 365 None = read_of Lsst permissions ''$aux.prv_candidates''"
  "fetch_timeseries_op ''aux.fp_hists'' ''candidate.jd'' 365 None = read_of Lsst permissions ''$aux.fp_hists''"
  by (simp_all add: read_defs)

lemma reads_own_thousand_days:
  "fetch_timeseries_op ''aux.prv_candidates'' ''candidate.jd'' 1000 None = read_of Decam permissions ''$aux.prv_candidates''"
  "fetch_timeseries_op ''aux.fp_hists'' ''candidate.jd'' 1000 None = read_of Decam permissions ''$aux.fp_hists''"
  "fetch_timeseries_op ''aux.prv_candidates'' ''candidate.jd'' 1000 None = read_of Winter permissions ''$aux.prv_candidates''"
  by (simp_all add: read_defs)

lemma map_of_insert_if:
  "map_of (insert_if u k v fs) = (if u \<noteq> None then (map_of fs)(k \<mapsto> v) else map_of fs)"
  by (simp add: insert_if_def map_of_obj_insert)

lemma fields_allowed_insert_if [simp]:
  "fields_allowed survey permissions fs \<Longrightarrow> may_read survey permissions v \<Longrightarrow>
   fields_allowed survey permissions (insert_if u k v fs)"
proof -
  have "set (obj_insert k v fs) \<subseteq> insert (k, v) (set fs)" for fs :: "(string \<times> 'a bval) list"
    by (induction k v fs rule: obj_insert.induct) auto
  then show "fields_allowed survey permissions fs \<Longrightarrow> may_read survey permissions v \<Longrightarrow>
     fields_allowed survey permissions (insert_if u k v fs)"
    by (fastforce simp: fields_allowed_def insert_if_def list_all_iff)
qed

lemma fields_allowed_null [simp]: "fields_allowed survey permissions [(k, BOther Null)]"
  by (simp add: fields_allowed_def may_read_def)

lemma may_read_source:
  "s \<in> set (aux_sources survey) \<Longrightarrow> may_read survey permissions (read_of survey permissions (src_path s))"
  by (auto simp: may_read_def list_ex_iff)

text \<open>The data of a matched object: its fields are allowed and read what they should where they are
  used, and the index of the aliases is early enough for them.\<close>

definition aux_data_ok ::
  "survey \<Rightarrow> permissions \<Rightarrow> json list \<Rightarrow> aux_source list \<Rightarrow> nat option \<Rightarrow>
   nat option \<times> bool \<times> (string \<times> 'x bval) list \<Rightarrow> bool" where
  "aux_data_ok survey permissions p srcs a = (\<lambda>(a', needed, fs).
     fields_allowed survey permissions fs \<and>
     (\<forall>s\<in>set srcs. \<forall>j. uses_field_in_filter p (fld s) = Some j \<longrightarrow> j < USIZE_MAX \<longrightarrow>
        needed \<and> map_of fs (fld s) = Some (read_of survey permissions (src_path s)) \<and> (\<exists>n \<le> j. a' = Some n)) \<and>
     (\<forall>n. a = Some n \<longrightarrow> (\<exists>n' \<le> n. a' = Some n')))"

lemma aux_data_index:
  fixes fs :: "(string \<times> 'x bval) list"
  assumes fs: "fs = insert_if fp (fld s2) (read_of survey permissions (src_path s2))
      (insert_if prv (fld s1) (read_of survey permissions (src_path s1)) [(joined, BOther Null)])"
    and srcs: "set [s1, s2] \<subseteq> set (aux_sources survey)" "fld s1 \<noteq> fld s2"
    and used: "prv = uses_field_in_filter p (fld s1)" "fp = uses_field_in_filter p (fld s2)"
    and needed: "\<And>j. prv = Some j \<or> fp = Some j \<Longrightarrow> j < USIZE_MAX \<Longrightarrow> needed"
  shows "aux_data_ok survey permissions p [s1, s2] a (update_aliases_index_multiple a [prv, fp], needed, fs)"
proof -
  define u where "u = update_aliases_index_multiple a [prv, fp]"
  have le: "\<exists>n \<le> j. u = Some n" if "a = Some j \<or> prv = Some j \<or> fp = Some j" for j
    using aliases_index_le [of j a "[prv, fp]"] that by (auto simp: u_def)
  have allowed: "fields_allowed survey permissions fs"
    using srcs(1) by (simp add: fs may_read_source)
  have "needed \<and> map_of fs (fld s) = Some (read_of survey permissions (src_path s)) \<and> (\<exists>n \<le> j. u = Some n)"
    if "s \<in> set [s1, s2]" "uses_field_in_filter p (fld s) = Some j" "j < USIZE_MAX" for s j
  proof -
    have j: "prv = Some j \<or> fp = Some j"
      using that(1,2) used by auto
    moreover have "map_of fs (fld s) = Some (read_of survey permissions (src_path s))"
      using that(1,2) used srcs(2) by (auto simp: fs map_of_insert_if)
    ultimately show ?thesis
      using needed le that(3) by blast
  qed
  then show ?thesis
    unfolding u_def [symmetric] aux_data_ok_def prod.case using le allowed by blast
qed

lemma min_index_there: "Some j \<in> set is \<Longrightarrow> j < USIZE_MAX \<Longrightarrow> min_index is \<noteq> USIZE_MAX"
  using min_index_le [of j "is"] by linarith

lemma lsst_aux_data_ok:
  "set LSST_SOURCES \<subseteq> set (aux_sources survey) \<Longrightarrow>
   aux_data_ok survey permissions p LSST_SOURCES a (build_lsst_aux_data a p)"
  unfolding build_lsst_aux_data_def Let_def LSST_SOURCES_def reads_lsst [of survey permissions]
  by (rule aux_data_index) (simp_all add: matched_source_def, metis insertCI list.set(2) min_index_there)

lemma ztf_aux_data_ok:
  "set ZTF_SOURCES \<subseteq> set (aux_sources survey) \<Longrightarrow>
   aux_data_ok survey permissions p ZTF_SOURCES a (build_ztf_aux_data a p permissions)"
  unfolding build_ztf_aux_data_def Let_def ztf_programids_def [symmetric] ZTF_SOURCES_def
    reads_ztf [where survey = survey]
  by (rule aux_data_index) (simp_all add: matched_source_def, metis insertCI list.set(2) min_index_there)

lemma decam_aux_data_ok:
  "set DECAM_SOURCES \<subseteq> set (aux_sources survey) \<Longrightarrow>
   aux_data_ok survey permissions p DECAM_SOURCES a (build_decam_aux_data a p permissions)"
  unfolding build_decam_aux_data_def Let_def DECAM_SOURCES_def reads_decam [where survey = survey]
  by (rule aux_data_index) (auto simp: matched_source_def)

definition laid_out ::
  "(json \<Rightarrow> (string, 'x stage) result) \<Rightarrow> json list \<Rightarrow> permissions \<Rightarrow> survey \<Rightarrow> 'x stage list \<Rightarrow> bool" where
  "laid_out to_document p permissions survey out \<longleftrightarrow>
     (\<exists>docs start ins. map to_document p = map Inr docs \<and>
        out = start @ woven ins 0 docs \<and>
        (\<forall>s. s \<in> set start \<longrightarrow> guarded survey permissions s) \<and>
        (\<forall>j s. s \<in> set (ins j) \<longrightarrow> guarded survey permissions s) \<and>
        (\<forall>s\<in>set (aux_sources survey). \<forall>j. uses_field_in_filter p (fld s) = Some j \<longrightarrow>
           (\<exists>m \<le> j. \<exists>b f c. ins m = b @ f @ c \<and> fills survey permissions s b f)))"

lemma laid_outI:
  assumes "and_then (weave to_document ins 0 p) (\<lambda>stages. Inr (start @ stages)) = Inr out"
    and "\<And>s. s \<in> set start \<Longrightarrow> guarded survey permissions s"
    and "\<And>j s. s \<in> set (ins j) \<Longrightarrow> guarded survey permissions s"
    and "\<And>s j. s \<in> set (aux_sources survey) \<Longrightarrow> uses_field_in_filter p (fld s) = Some j \<Longrightarrow>
           \<exists>m \<le> j. \<exists>b f c. ins m = b @ f @ c \<and> fills survey permissions s b f"
  shows "laid_out to_document p permissions survey out"
proof -
  from assms(1) obtain stages where "weave to_document ins 0 p = Inr stages"
    "out = start @ stages" by (auto simp: and_then_Inr)
  with weave_woven [of to_document ins 0 p stages] assms(2,3,4) show ?thesis
    unfolding laid_out_def by blast
qed

lemma guarded_intros:
  "fields_allowed survey permissions fs \<Longrightarrow> guarded survey permissions (add_fields fs)"
  "s \<in> set (aux_sources survey) \<Longrightarrow> guarded survey permissions (lookup_of s)"
  "st \<in> set (sso_history_stages (ztf_programids permissions)) \<Longrightarrow> guarded Ztf permissions st"
  by (auto simp: guarded_def add_fields_def sso_history_stages_def history_lookup_def sso_history_lookup_def)

lemma first_stages_guarded [simp]:
  "guarded survey permissions first_match"
  "list_all (\<lambda>(name, v). v = BInt 1 \<and>
        name \<in> {''objectId'', ''candidate'', ''classifications'', ''properties'', ''coordinates'', ''ss_source''} \<or>
        name = ''snt'' \<and> (\<exists>c. v = BDocument [(''$literal'', c)])) fs \<Longrightarrow>
   guarded survey permissions (first_project fs)"
  by (simp_all add: guarded_def first_match_def first_project_def)

text \<open>The two stages that join a matched survey.\<close>

definition joins :: "survey \<Rightarrow> permissions \<Rightarrow> aux_source list \<Rightarrow> bool \<Rightarrow> (string \<times> 'x bval) list \<Rightarrow> 'x stage list \<Rightarrow> bool" where
  "joins survey permissions srcs needed fs stages \<longleftrightarrow>
     (\<forall>st\<in>set stages. guarded survey permissions st) \<and>
     (needed \<longrightarrow> (\<forall>s\<in>set srcs. stages = [lookup_of s, add_fields fs]))"

lemma joined_stages:
  "set LSST_SOURCES \<subseteq> set (aux_sources survey) \<Longrightarrow> fields_allowed survey permissions fs \<Longrightarrow>
   joins survey permissions LSST_SOURCES needed fs (insert_lsst_aux_pipeline_if_needed needed fs)"
  "set ZTF_SOURCES \<subseteq> set (aux_sources survey) \<Longrightarrow> fields_allowed survey permissions fs \<Longrightarrow>
   joins survey permissions ZTF_SOURCES needed fs (insert_ztf_aux_pipeline_if_needed needed fs)"
  "set DECAM_SOURCES \<subseteq> set (aux_sources survey) \<Longrightarrow> fields_allowed survey permissions fs \<Longrightarrow>
   joins survey permissions DECAM_SOURCES needed fs (insert_decam_aux_pipeline_if_needed needed fs)"
  using guarded_intros(2) [of "LSST_SOURCES ! 0" survey permissions] guarded_intros(2) [of "ZTF_SOURCES ! 0" survey permissions]
    guarded_intros(2) [of "DECAM_SOURCES ! 0" survey permissions]
    lookup_of_sources(2) [of "LSST_SOURCES ! 0"] lookup_of_sources(3) [of "ZTF_SOURCES ! 0"]
    lookup_of_sources(4) [of "DECAM_SOURCES ! 0"]
  by (auto simp: joins_def insert_lsst_aux_pipeline_if_needed_def insert_ztf_aux_pipeline_if_needed_def
      insert_decam_aux_pipeline_if_needed_def guarded_intros(1) lookup_of_sources
      LSST_SOURCES_def ZTF_SOURCES_def DECAM_SOURCES_def)

text \<open>What the four builders share: the lookup of the object itself, at the least of the indices,
  with the stages of two matched surveys behind it.\<close>

lemma table_fields_allowed:
  "list_all (\<lambda>(_, _, v). may_read survey permissions v) table \<Longrightarrow>
   fields_allowed survey permissions (table_fields table)"
  unfolding table_fields_def by (induction table rule: rev_induct) (auto split: prod.splits)

lemma table_fields_there:
  "(Some j, name, v) \<in> set table \<Longrightarrow> distinct (map (\<lambda>(_, name, _). name) table) \<Longrightarrow>
   map_of (table_fields table) name = Some v"
  unfolding table_fields_def
  by (induction table rule: rev_induct) (force simp: map_of_insert_if split: prod.splits)+

text \<open>A builder lays out what it should, if the fields of the object itself and of the matched
  objects that its stages use come early enough.\<close>

lemma built_laid_out:
  fixes table :: "'x field_table"
  assumes built: "build_around to_document p coll table joined before projected = Inr out"
    and coll: "coll = survey_as_str survey @ ''_alerts_aux''"
    and projected: "guarded survey permissions (first_project projected)"
    and table: "list_all (\<lambda>(_, _, v). may_read survey permissions v) table" "distinct (map (\<lambda>(_, name, _). name) table)"
    and joined: "\<And>st. st \<in> set joined \<Longrightarrow> guarded survey permissions st"
    and before: "\<And>i st. st \<in> set (before i) \<Longrightarrow> guarded survey permissions st"
    and aliases: "(ali, ''aliases'', read_of survey permissions ''$aux.aliases'') \<in> set table"
    and early: "\<And>s j. s \<in> set (aux_sources survey) \<Longrightarrow> uses_field_in_filter p (fld s) = Some j \<Longrightarrow>
      \<exists>n \<le> j. (s \<in> set (own_sources survey) \<and> (Some n, fld s, read_of survey permissions (src_path s)) \<in> set table) \<or>
        (ali = Some n \<and> (\<exists>b c fs. joined = b @ [lookup_of s, add_fields fs] @ c \<and>
           map_of fs (fld s) = Some (read_of survey permissions (src_path s))))"
  shows "laid_out to_document p permissions survey out"
proof -
  let ?aux = "list_ex (\<lambda>(used, _, _). used \<noteq> None) table" and ?m = "min_index (map fst table)"
  let ?own = "[aux_lookup (survey_as_str survey @ ''_alerts_aux'') ''objectId'' ''aux'', add_fields (table_fields table)]"
  let ?ins = "\<lambda>i. before i @ (if ?aux \<and> i = ?m then ?own @ joined else [])"
  let ?a = "\<lparr>fld = ''aliases'', src_coll = survey_as_str survey @ ''_alerts_aux'', src_local = ''objectId'', src_as = ''aux'',
    src_path = ''$aux.aliases''\<rparr>"
  have a: "?a \<in> set (own_sources survey)"
    by (simp add: own_sources_def)
  have lk: "(lookup_of ?a :: 'x stage) = aux_lookup (survey_as_str survey @ ''_alerts_aux'') ''objectId'' ''aux''"
    by (rule lookup_of_sources(1) [OF a])
  have own_guarded: "guarded survey permissions (aux_lookup (survey_as_str survey @ ''_alerts_aux'') ''objectId'' ''aux'' :: 'x stage)"
    unfolding lk [symmetric] by (rule guarded_intros(2)) (use a in \<open>simp add: aux_sources_def\<close>)
  from built have w: "and_then (weave to_document ?ins 0 p)
      (\<lambda>stages. Inr ([first_match, first_project projected] @ stages)) = Inr out"
    unfolding coll by (simp add: build_around_def Let_def split: if_splits)
  show ?thesis
  proof (rule laid_outI [OF w])
    fix j st
    assume "st \<in> set (?ins j)"
    then show "guarded survey permissions st"
      using before joined guarded_intros(1) [OF table_fields_allowed [OF table(1)]] own_guarded
      by (auto split: if_splits)
  next
    fix s j
    assume s: "s \<in> set (aux_sources survey)" "uses_field_in_filter p (fld s) = Some j"
    let ?v = "read_of survey permissions (src_path s)"
    from early [OF s] obtain n where n: "n \<le> j" and
      c: "(s \<in> set (own_sources survey) \<and> (Some n, fld s, ?v) \<in> set table) \<or>
        (ali = Some n \<and> (\<exists>b c fs. joined = b @ [lookup_of s, add_fields fs] @ c \<and> map_of fs (fld s) = Some ?v))" by blast
    have "\<exists>name v. (Some n, name, v) \<in> set table"
      using c aliases by blast
    then have aux: ?aux and "Some n \<in> set (map fst table)"
      by (force simp: list_ex_iff)+
    then have m: "?m \<le> j"
      using min_index_le n by fastforce
    have "\<exists>b f c. ?ins ?m = b @ f @ c \<and> fills survey permissions s b f"
      using c
    proof (elim disjE conjE exE)
      assume "s \<in> set (own_sources survey)" "(Some n, fld s, ?v) \<in> set table"
      then have "fills survey permissions s (before ?m) ?own"
        using table_fields_there [OF _ table(2)] by (auto simp: fills_def lookup_of_sources add_fields_def)
      then show ?thesis
        using aux by (intro exI [of _ "before ?m"] exI [of _ ?own] exI [of _ joined]) simp
    next
      fix b c fs
      assume al: "ali = Some n" and j: "joined = b @ [lookup_of s, add_fields fs] @ c" "map_of fs (fld s) = Some ?v"
      have "map_of (table_fields table) ''aliases'' = Some (read_of survey permissions (src_path ?a))"
        using table_fields_there [OF aliases [unfolded al] table(2)] by simp
      then have "fills survey permissions s (before ?m @ ?own @ b) [lookup_of s, add_fields fs]"
        using a j(2) unfolding fills_def
        by (intro conjI disjI2 exI [of _ "before ?m"] exI [of _ b] exI [of _ "table_fields table"] exI [of _ ?a] exI [of _ fs])
          (auto simp: lookup_of_sources add_fields_def)
      then show ?thesis
        using aux j(1) by (intro exI [of _ "before ?m @ ?own @ b"] exI [of _ "[lookup_of s, add_fields fs]"] exI [of _ c]) simp
    qed
    with m show "\<exists>m \<le> j. \<exists>b f c. ?ins m = b @ f @ c \<and> fills survey permissions s b f"
      by blast
  qed (use projected in auto)
qed

lemma joined_early:
  fixes fs1 fs2 :: "(string \<times> 'x bval) list"
  assumes first: "aux_data_ok survey permissions p n1 a0 (a1, need1, fs1)"
    and second: "aux_data_ok survey permissions p n2 a1 (a2, need2, fs2)"
    and g1: "joins survey permissions n1 need1 fs1 g1" and g2: "joins survey permissions n2 need2 fs2 g2"
    and s: "s \<in> set n1 \<union> set n2"
    and j: "uses_field_in_filter p (fld s) = Some j" and len: "length p \<le> USIZE_MAX"
  shows "\<exists>n \<le> j. a2 = Some n \<and> (\<exists>b c fs. g1 @ g2 = b @ [lookup_of s, add_fields fs] @ c \<and>
    map_of fs (fld s) = Some (read_of survey permissions (src_path s)))"
proof -
  have jm: "j < USIZE_MAX"
    using uses_field_in_filter_less [OF j] len by linarith
  have a2: "\<exists>n' \<le> j. a2 = Some n'" if "a1 = Some n" "n \<le> j" for n
    using second that le_trans by (fastforce simp: aux_data_ok_def)
  show ?thesis
  proof (cases "s \<in> set n1")
    case True
    with first j jm have "need1 \<and> map_of fs1 (fld s) = Some (read_of survey permissions (src_path s)) \<and> (\<exists>n \<le> j. a1 = Some n)"
      by (auto simp: aux_data_ok_def)
    moreover from this g1 True have "g1 @ g2 = [] @ [lookup_of s, add_fields fs1] @ g2"
      by (simp add: joins_def)
    ultimately show ?thesis
      using a2 by blast
  next
    case False
    with s second j jm have "need2 \<and> map_of fs2 (fld s) = Some (read_of survey permissions (src_path s)) \<and> (\<exists>n \<le> j. a2 = Some n)"
      by (auto simp: aux_data_ok_def)
    moreover from this g2 s False have "g1 @ g2 = g1 @ [lookup_of s, add_fields fs2] @ []"
      by (simp add: joins_def)
    ultimately show ?thesis
      by blast
  qed
qed

lemma aliases_early:
  assumes "aux_data_ok survey permissions p n1 (uses_field_in_filter p ''aliases'') (a1, need1, fs1)"
    and "aux_data_ok survey permissions p n2 a1 (a2, need2, fs2)"
    and "uses_field_in_filter p ''aliases'' = Some j"
  shows "\<exists>n \<le> j. a2 = Some n"
  using assms le_trans unfolding aux_data_ok_def by fastforce

lemma ztf_laid_out:
  fixes to_document :: "json \<Rightarrow> (string, 'x stage) result"
  assumes "build_ztf_filter_pipeline to_document p permissions = Inr out" and len: "length p \<le> USIZE_MAX"
  shows "laid_out to_document p permissions Ztf out"
proof -
  let ?use = "uses_field_in_filter p"
  have srcs: "set LSST_SOURCES \<subseteq> set (aux_sources Ztf)" "set DECAM_SOURCES \<subseteq> set (aux_sources Ztf)"
    by (auto simp: aux_sources_def)
  obtain a1 need1 and fs1 :: "(string \<times> 'x bval) list" where d1: "build_lsst_aux_data (?use ''aliases'') p = (a1, need1, fs1)"
    by (metis prod_cases3)
  obtain a2 need2 and fs2 :: "(string \<times> 'x bval) list" where d2: "build_decam_aux_data a1 p permissions = (a2, need2, fs2)"
    by (metis prod_cases3)
  obtain zp where zp: "permissions Ztf = Some zp"
    using assms(1) d1 d2 by (auto simp: build_ztf_filter_pipeline_def Let_def and_then_Inr split: option.splits)
  then have zps: "zp = ztf_programids permissions"
    by (simp add: ztf_programids_def)
  have ok1: "aux_data_ok Ztf permissions p LSST_SOURCES (?use ''aliases'') (a1, need1, fs1)"
    unfolding d1 [symmetric] by (rule lsst_aux_data_ok [OF srcs(1)])
  have ok2: "aux_data_ok Ztf permissions p DECAM_SOURCES a1 (a2, need2, fs2)"
    unfolding d2 [symmetric] by (rule decam_aux_data_ok [OF srcs(2)])
  from ok1 ok2 have allowed: "fields_allowed Ztf permissions fs1" "fields_allowed Ztf permissions fs2"
    by (simp_all add: aux_data_ok_def)
  note j1 = joined_stages(1) [OF srcs(1) allowed(1), of need1] and j2 = joined_stages(3) [OF srcs(2) allowed(2), of need2]
  note built = assms(1) [unfolded build_ztf_filter_pipeline_def Let_def d1 d2 zp option.case zps prod.case and_then_unit
      reads_own_ztf reads_documents [where survey = Ztf and permissions = permissions], THEN conjunct2]
  show ?thesis
  proof (rule built_laid_out [where ali = a2, OF built], goal_cases)
    case (8 s j)
    show ?case
    proof (cases "s \<in> set (own_sources Ztf)")
      case True
      with 8(2) aliases_early [OF ok1 ok2] show ?thesis
        by (auto simp: own_sources_def)
    next
      case False
      with 8(1) have "s \<in> set LSST_SOURCES \<union> set DECAM_SOURCES"
        by (auto simp: aux_sources_def)
      from joined_early [OF ok1 ok2 j1 j2 this 8(2) len] show ?thesis by blast
    qed
  qed (use j1 j2 guarded_intros(3) in \<open>auto simp: joins_def may_read_def aux_sources_def own_sources_def
      snt_literal_def split: if_splits\<close>)
qed

lemma lsst_laid_out:
  fixes to_document :: "json \<Rightarrow> (string, 'x stage) result"
  assumes "build_lsst_filter_pipeline to_document p permissions = Inr out" and len: "length p \<le> USIZE_MAX"
  shows "laid_out to_document p permissions Lsst out"
proof -
  let ?use = "uses_field_in_filter p"
  have srcs: "set ZTF_SOURCES \<subseteq> set (aux_sources Lsst)" "set DECAM_SOURCES \<subseteq> set (aux_sources Lsst)"
    by (auto simp: aux_sources_def)
  obtain a1 need1 and fs1 :: "(string \<times> 'x bval) list" where d1: "build_ztf_aux_data (?use ''aliases'') p permissions = (a1, need1, fs1)"
    by (metis prod_cases3)
  obtain a2 need2 and fs2 :: "(string \<times> 'x bval) list" where d2: "build_decam_aux_data a1 p permissions = (a2, need2, fs2)"
    by (metis prod_cases3)
  have ok1: "aux_data_ok Lsst permissions p ZTF_SOURCES (?use ''aliases'') (a1, need1, fs1)"
    unfolding d1 [symmetric] by (rule ztf_aux_data_ok [OF srcs(1)])
  have ok2: "aux_data_ok Lsst permissions p DECAM_SOURCES a1 (a2, need2, fs2)"
    unfolding d2 [symmetric] by (rule decam_aux_data_ok [OF srcs(2)])
  from ok1 ok2 have allowed: "fields_allowed Lsst permissions fs1" "fields_allowed Lsst permissions fs2"
    by (simp_all add: aux_data_ok_def)
  note j1 = joined_stages(2) [OF srcs(1) allowed(1), of need1] and j2 = joined_stages(3) [OF srcs(2) allowed(2), of need2]
  note built = assms(1) [unfolded build_lsst_filter_pipeline_def Let_def d1 d2 prod.case and_then_unit
      reads_own_lsst [where permissions = permissions] reads_documents [where survey = Lsst and permissions = permissions], THEN conjunct2]
  show ?thesis
  proof (rule built_laid_out [where ali = a2, OF built], goal_cases)
    case (8 s j)
    show ?case
    proof (cases "s \<in> set (own_sources Lsst)")
      case True
      with 8(2) aliases_early [OF ok1 ok2] show ?thesis
        by (auto simp: own_sources_def)
    next
      case False
      with 8(1) have "s \<in> set ZTF_SOURCES \<union> set DECAM_SOURCES"
        by (auto simp: aux_sources_def)
      from joined_early [OF ok1 ok2 j1 j2 this 8(2) len] show ?thesis by blast
    qed
  qed (use j1 j2 in \<open>auto simp: joins_def may_read_def aux_sources_def own_sources_def
      snt_literal_def split: if_splits\<close>)
qed

lemma decam_laid_out:
  fixes to_document :: "json \<Rightarrow> (string, 'x stage) result"
  assumes "build_decam_filter_pipeline to_document p permissions = Inr out" and len: "length p \<le> USIZE_MAX"
  shows "laid_out to_document p permissions Decam out"
proof -
  let ?use = "uses_field_in_filter p"
  have srcs: "set ZTF_SOURCES \<subseteq> set (aux_sources Decam)" "set LSST_SOURCES \<subseteq> set (aux_sources Decam)"
    by (auto simp: aux_sources_def)
  obtain a1 need1 and fs1 :: "(string \<times> 'x bval) list" where d1: "build_ztf_aux_data (?use ''aliases'') p permissions = (a1, need1, fs1)"
    by (metis prod_cases3)
  obtain a2 need2 and fs2 :: "(string \<times> 'x bval) list" where d2: "build_lsst_aux_data a1 p = (a2, need2, fs2)"
    by (metis prod_cases3)
  have ok1: "aux_data_ok Decam permissions p ZTF_SOURCES (?use ''aliases'') (a1, need1, fs1)"
    unfolding d1 [symmetric] by (rule ztf_aux_data_ok [OF srcs(1)])
  have ok2: "aux_data_ok Decam permissions p LSST_SOURCES a1 (a2, need2, fs2)"
    unfolding d2 [symmetric] by (rule lsst_aux_data_ok [OF srcs(2)])
  from ok1 ok2 have allowed: "fields_allowed Decam permissions fs1" "fields_allowed Decam permissions fs2"
    by (simp_all add: aux_data_ok_def)
  note j1 = joined_stages(2) [OF srcs(1) allowed(1), of need1] and j2 = joined_stages(1) [OF srcs(2) allowed(2), of need2]
  note built = assms(1) [unfolded build_decam_filter_pipeline_def Let_def d1 d2 prod.case and_then_unit
      reads_own_thousand_days(1,2) [where permissions = permissions] reads_documents [where survey = Decam and permissions = permissions], THEN conjunct2]
  show ?thesis
  proof (rule built_laid_out [where ali = a2, OF built], goal_cases)
    case (8 s j)
    show ?case
    proof (cases "s \<in> set (own_sources Decam)")
      case True
      with 8(2) aliases_early [OF ok1 ok2] show ?thesis
        by (auto simp: own_sources_def)
    next
      case False
      with 8(1) have "s \<in> set ZTF_SOURCES \<union> set LSST_SOURCES"
        by (auto simp: aux_sources_def)
      from joined_early [OF ok1 ok2 j1 j2 this 8(2) len] show ?thesis by blast
    qed
  qed (use j1 j2 in \<open>auto simp: joins_def may_read_def aux_sources_def own_sources_def
      snt_literal_def split: if_splits\<close>)
qed

lemma winter_laid_out:
  assumes "build_winter_filter_pipeline to_document p permissions = Inr out"
  shows "laid_out to_document p permissions Winter out"
proof -
  note built = assms(1) [unfolded build_winter_filter_pipeline_def Let_def and_then_unit
      reads_own_thousand_days(3) [where permissions = permissions]
      reads_documents [where survey = Winter and permissions = permissions], THEN conjunct2]
  show ?thesis
  proof (rule built_laid_out [where ali = "uses_field_in_filter p ''aliases''", OF built], goal_cases)
    case (8 s j)
    then show ?case
      by (intro exI [of _ j]) (auto simp: aux_sources_def own_sources_def)
  qed (auto simp: may_read_def aux_sources_def own_sources_def)
qed

lemma pipeline_laid_out:
  "build_filter_pipeline to_document p permissions survey = Inr out \<Longrightarrow> length p \<le> USIZE_MAX \<Longrightarrow>
   laid_out to_document p permissions survey out"
  using ztf_laid_out lsst_laid_out decam_laid_out winter_laid_out
  by (auto simp: build_filter_pipeline_def split: if_splits survey.splits)

text \<open>
  C14: Whatever survey a filter runs on, in the pipeline that is built a user's stage that uses a
  field of the object's history, of a matched object's or the aliases has in front of it the
  lookup of that field's collection and, right behind the lookup, a stage that sets the field to
  the expression that reads it off the document looked up; the lookup of a matched object stands
  behind the stage that has set the object's own aliases; and all of the user's stages from that
  stage on follow, in the user's order.
\<close>

theorem used_fields_are_filled_in:
  assumes "build_filter_pipeline to_document p permissions survey = Inr out" "length p \<le> USIZE_MAX"
    and "k < length p" "s \<in> set (aux_sources survey)" "uses_field_in_stage (p ! k) (fld s)"
  shows "\<exists>before fs rest docs. out = before @ [lookup_of s, [(''$addFields'', BDocument fs)]] @ rest \<and>
    map_of fs (fld s) = Some (read_of survey permissions (src_path s)) \<and>
    (s \<in> set (own_sources survey) \<or> (\<exists>b c fs a. a \<in> set (own_sources survey) \<and> fld a = ''aliases'' \<and>
        before = b @ [lookup_of a, [(''$addFields'', BDocument fs)]] @ c \<and>
        map_of fs ''aliases'' = Some (read_of survey permissions (src_path a)))) \<and>
    map to_document (drop k p) = map Inr docs \<and> subseq docs rest"
proof -
  from pipeline_laid_out [OF assms(1,2)] obtain docs start ins where
    docs: "map to_document p = map Inr docs" and out: "out = start @ woven ins 0 docs" and
    early: "\<forall>s\<in>set (aux_sources survey). \<forall>j. uses_field_in_filter p (fld s) = Some j \<longrightarrow>
      (\<exists>m \<le> j. \<exists>b f c. ins m = b @ f @ c \<and> fills survey permissions s b f)"
    by (auto simp: laid_out_def)
  from uses_field_in_filter_le [OF assms(3,5)] obtain j where j: "j \<le> k" "uses_field_in_filter p (fld s) = Some j" by blast
  with early assms(4) obtain m b f c where m: "m \<le> j" "ins m = b @ f @ c" "fills survey permissions s b f" by blast
  let ?before = "start @ woven ins 0 (take m docs) @ b" and ?rest = "docs ! m # woven ins (m + 1) (drop (m + 1) docs)"
  have len: "length docs = length p"
    using docs by (metis length_map)
  then have m_len: "m < length docs"
    using m(1) j(1) assms(3) by linarith
  then have split: "out = ?before @ f @ c @ ?rest"
    using woven_split [of m docs ins 0] m(2) by (simp add: out)
  have "fills survey permissions s ?before f"
    using fills_frame [OF m(3), of "start @ woven ins 0 (take m docs)"] by simp
  moreover have "subseq (drop k docs) (c @ ?rest)"
  proof (rule subseq_order.order_trans)
    show "subseq (drop k docs) (drop m docs)"
      using m(1) j(1) suffix_imp_subseq [OF suffix_drop, of "k - m" "drop m docs"] by simp
    have "subseq (drop m docs) ?rest"
      using woven_subseq [of "drop (m + 1) docs" ins "m + 1"] m_len by (simp add: Cons_nth_drop_Suc [symmetric])
    then show "subseq (drop m docs) (c @ ?rest)"
      by (rule list_emb_append2)
  qed
  moreover have "map to_document (drop k p) = map Inr (drop k docs)"
    by (metis docs drop_map)
  ultimately show ?thesis
    unfolding split fills_def by (elim conjE exE) (intro exI [of _ ?before] exI [of _ "c @ ?rest"] exI conjI; simp)
qed

text \<open>A filter to evaluate on: it matches on the photometry of matched ZTF objects.\<close>

definition demo_pipeline :: "json list" where
  "demo_pipeline =
     [JObject [(''$match'', JObject [(''ZTF.prv_candidates.0'', JObject [(''$exists'', JBool True)])])],
      JObject [(''$project'', JObject [(''objectId'', ONE)])]]"

definition demo_document :: "json \<Rightarrow> (string, unit stage) result" where
  "demo_document v = (case v of JObject kvs \<Rightarrow> Inr (map (\<lambda>(k, _). (k, BOther (User ()))) kvs) | _ \<Rightarrow> Inl ''no document'')"

definition demo_out :: "unit stage list" where
  "demo_out = (case build_filter_pipeline demo_document demo_pipeline (\<lambda>_. None) Lsst of
     Inr out \<Rightarrow> out | Inl _ \<Rightarrow> [])"

lemma demo_valid: "validate_filter_pipeline demo_pipeline = Inr ()"
  by (simp add: pipeline_valid_iff demo_pipeline_def stage_ok_def ends_in_object_id_def names_discarded_def
      strip_prefix_def project_keeps_ids_def ONE_def ZERO_def)

lemma demo_use:
  "uses_field_in_filter demo_pipeline ''prv_candidates'' = None"
  "uses_field_in_filter demo_pipeline ''fp_hists'' = None"
  "uses_field_in_filter demo_pipeline ''cross_matches'' = None"
  "uses_field_in_filter demo_pipeline ''host_galaxy'' = None"
  "uses_field_in_filter demo_pipeline ''aliases'' = None"
  "uses_field_in_filter demo_pipeline ''ZTF.prv_candidates'' = Some 0"
  "uses_field_in_filter demo_pipeline ''ZTF.fp_hists'' = None"
  "uses_field_in_filter demo_pipeline ''DECAM.prv_candidates'' = None"
  "uses_field_in_filter demo_pipeline ''DECAM.fp_hists'' = None"
  by code_simp+

lemma and_then_Inr_left: "and_then (Inr x) f = f x"
  by (simp add: and_then_def)

lemma build_around_total:
  assumes "\<And>ins. \<exists>stages. weave to_document ins 0 p = Inr stages" "min_index (map fst table) \<noteq> USIZE_MAX"
  shows "\<exists>out. build_around to_document p coll table joined before projected = Inr out \<and> out \<noteq> []"
proof -
  let ?ins = "\<lambda>i. before i @ (if list_ex (\<lambda>(used, _, _). used \<noteq> None) table \<and> i = min_index (map fst table)
    then [aux_lookup coll ''objectId'' ''aux'', add_fields (table_fields table)] @ joined else [])"
  obtain stages where "weave to_document ?ins 0 p = Inr stages"
    using assms(1) by blast
  then show ?thesis
    using assms(2) unfolding build_around_def Let_def by (simp add: and_then_Inr_left)
qed

lemma demo_weave: "\<exists>stages. weave demo_document ins 0 demo_pipeline = Inr stages"
  by (simp add: demo_pipeline_def demo_document_def and_then_def map_err_def)

lemma demo_built: "build_filter_pipeline demo_document demo_pipeline (\<lambda>_. None) Lsst = Inr demo_out"
  and demo_out_nonempty: "demo_out \<noteq> []"
proof -
  have "\<exists>out. build_lsst_filter_pipeline demo_document demo_pipeline (\<lambda>_. None) = Inr out \<and> out \<noteq> []"
    unfolding build_lsst_filter_pipeline_def demo_valid Let_def
    by (simp only: and_then_Inr_left build_ztf_aux_data_def build_decam_aux_data_def Let_def prod.case demo_use)
      (rule build_around_total [OF demo_weave], simp add: min_index_def USIZE_MAX_def
        update_aliases_index_multiple_def update_aliases_index_def)
  then show "build_filter_pipeline demo_document demo_pipeline (\<lambda>_. None) Lsst = Inr demo_out" "demo_out \<noteq> []"
    by (auto simp: demo_out_def build_filter_pipeline_def SURVEYS_REQUIRING_PERMISSIONS_def)
qed

lemma demo_uses: "uses_field_in_stage (demo_pipeline ! 0) ''ZTF.prv_candidates''"
  by code_simp

theorem used_fields_are_filled_in_witness:
  "\<exists>before fs rest docs. demo_out = before @ [lookup_of (ZTF_SOURCES ! 0), [(''$addFields'', BDocument fs)]] @ rest \<and>
     map_of fs ''ZTF.prv_candidates'' = Some (read_of Lsst (\<lambda>_. None) ''$ztf_aux.prv_candidates'') \<and>
     (ZTF_SOURCES ! 0 \<in> set (own_sources Lsst) \<or> (\<exists>b c fs a. a \<in> set (own_sources Lsst) \<and> fld a = ''aliases'' \<and>
        before = b @ [lookup_of a, [(''$addFields'', BDocument fs)]] @ c \<and>
        map_of fs ''aliases'' = Some (read_of Lsst (\<lambda>_. None) (src_path a)))) \<and>
     map demo_document (drop 0 demo_pipeline) = map Inr docs \<and> subseq docs rest"
  using used_fields_are_filled_in [OF demo_built, of 0 "ZTF_SOURCES ! 0"] demo_uses
  by (simp add: demo_pipeline_def USIZE_MAX_def aux_sources_def ZTF_SOURCES_def matched_source_def)

text \<open>
  C7: The stages that are added to a user's own read nothing a filter may not.  Besides selecting
  and keeping fields of the alert, they look up only the objects' own histories and those of
  matched objects, and compute only what reads them: the points of ZTF are filtered by the
  programs the filter has permission for (the public one when it names none), no point of a DECam
  object matched to another survey's alert passes without DECam permissions, no point later than
  the alert passes, and the lookup of a solar-system history is restricted to the same programs.
\<close>

theorem inserted_stages_are_guarded:
  assumes "build_filter_pipeline to_document p permissions survey = Inr out" "length p \<le> USIZE_MAX"
    and "s \<in> set out"
  shows "Inr s \<in> to_document ` set p \<or> guarded survey permissions s"
proof -
  from pipeline_laid_out [OF assms(1,2)] obtain docs start ins where
    docs: "map to_document p = map Inr docs" and out: "out = start @ woven ins 0 docs" and
    ins: "\<forall>s. s \<in> set start \<longrightarrow> guarded survey permissions s" "\<forall>j s. s \<in> set (ins j) \<longrightarrow> guarded survey permissions s"
    by (auto simp: laid_out_def)
  have "Inr ` set docs = to_document ` set p"
    by (metis docs set_map)
  moreover have "s \<in> set start \<or> s \<in> set docs \<or> (\<exists>j. s \<in> set (ins j))"
    using assms(3) woven_in [of s ins 0 docs] unfolding out by auto
  ultimately show ?thesis
    using ins by auto
qed

text \<open>The stage that fills in the matched points of the example is among those that run.\<close>

lemma demo_fills:
  "\<exists>fs. [(''$addFields'', BDocument fs)] \<in> set demo_out \<and>
     map_of fs ''ZTF.prv_candidates'' = Some (read_of Lsst (\<lambda>_. None) ''$ztf_aux.prv_candidates'')"
proof -
  have len: "length demo_pipeline \<le> USIZE_MAX"
    by (simp add: demo_pipeline_def USIZE_MAX_def)
  from pipeline_laid_out [OF demo_built len] obtain docs start ins where
    docs: "map demo_document demo_pipeline = map Inr docs" and out: "demo_out = start @ woven ins 0 docs" and
    early: "\<forall>s\<in>set (aux_sources Lsst). \<forall>j. uses_field_in_filter demo_pipeline (fld s) = Some j \<longrightarrow>
      (\<exists>m \<le> j. \<exists>b f c. ins m = b @ f @ c \<and> fills Lsst (\<lambda>_. None) s b f)"
    by (auto simp: laid_out_def)
  obtain b f c where f: "ins 0 = b @ f @ c" "fills Lsst (\<lambda>_. None) (ZTF_SOURCES ! 0) b f"
    using early [rule_format, of "ZTF_SOURCES ! 0" 0] demo_use(6)
    by (auto simp: aux_sources_def ZTF_SOURCES_def matched_source_def)
  have "docs \<noteq> []"
    using docs by (auto simp: demo_pipeline_def)
  with f(1) have "set f \<subseteq> set demo_out"
    by (cases docs) (auto simp: out)
  with f(2) show ?thesis
    by (auto simp: fills_def ZTF_SOURCES_def matched_source_def)
qed

theorem inserted_stages_are_guarded_witness:
  "\<exists>fs. [(''$addFields'', BDocument fs)] \<in> set demo_out \<and>
     map_of fs ''ZTF.prv_candidates'' = Some (read_of Lsst (\<lambda>_. None) ''$ztf_aux.prv_candidates'') \<and>
     guarded Lsst (\<lambda>_. None) [(''$addFields'', BDocument fs)]"
proof -
  from demo_fills obtain fs where fs: "[(''$addFields'', BDocument fs)] \<in> set demo_out"
    "map_of fs ''ZTF.prv_candidates'' = Some (read_of Lsst (\<lambda>_. None) ''$ztf_aux.prv_candidates'')" by blast
  have "Inr [(''$addFields'', BDocument fs)] \<notin> demo_document ` set demo_pipeline"
    by (simp add: demo_pipeline_def demo_document_def)
  with inserted_stages_are_guarded [OF demo_built _ fs(1)] fs show ?thesis
    by (auto simp: demo_pipeline_def USIZE_MAX_def)
qed

text \<open>
  A joined document that is nulled is not always refused: \<open>decam_aux\<close> is set to null by the
  stage that joins it, yet a reference to it passes validation, because the list of nulled joins
  names only the other three.
\<close>

theorem decam_aux_is_nulled_but_accepted:
  "flattened_name (''decam_aux.'' @ path) = None \<and>
   (''decam_aux'', BOther Null) \<in> set (snd (snd (build_decam_aux_data a p permissions)))"
  by (auto simp: flattened_name_def NULLED_JOINS_def strip_prefix_def build_decam_aux_data_def Let_def
      insert_if_def prefix_def)

end
