(* ===== verification/Filter_Loading.thy ===== *)
theory Filter_Loading
  imports Filter_Build Doc_Store
begin

text \<open>
  Loading the filters of a survey from the database and running one on a batch of alerts
  (\<open>src/src/filter/base.rs\<close>): the active version of a stored filter is parsed, built into the
  pipeline that runs, and restricted to a watchlist where the filter is bound to one; a filter
  that does not load is skipped.  The JSON parser and the database's aggregation are parameters.
\<close>

record filter_version =
  fid :: string
  version_pipeline :: string
  changelog :: "string option"
  version_created_at :: real

record stored_filter =
  filter_id :: string
  filter_name :: string
  description :: "string option"
  permissions :: permissions
  user_id :: string
  watchlist :: "string option"
  filter_survey :: survey
  active :: bool
  active_fid :: string
  fv :: "filter_version list"
  created_at :: real
  updated_at :: real

record 'x loaded_filter =
  loaded_id :: string
  loaded_name :: string
  loaded_permissions :: permissions
  loaded_pipeline :: "'x stage list"

definition WATCHLIST_PREFIX :: string where "WATCHLIST_PREFIX = ''watchlist_''"

text \<open>What loading takes from other libraries: \<open>serde_json::from_str\<close>, the conversion of a stage,
  and the fields of the survey's candidate schema.\<close>

record 'x filter_library =
  from_str :: "string \<Rightarrow> (string, json) result"
  to_document :: "json \<Rightarrow> (string, 'x stage) result"
  known_candidate_field :: "survey \<Rightarrow> string \<Rightarrow> bool"

definition get_filter ::
  "('db, stored_filter) collection \<Rightarrow> string \<Rightarrow> survey \<Rightarrow> 'db \<Rightarrow> (filter_error, stored_filter) result" where
  "get_filter M i survey db =
     (case find_one M (\<lambda>f. filter_id f = i \<and> active f \<and> filter_survey f = survey) None db of
        Inl e \<Rightarrow> Inl (Filter_mongodb (mongo_text e))
      | Inr r \<Rightarrow> ok_or FilterNotFound r)"

definition find_version :: "string \<Rightarrow> stored_filter \<Rightarrow> filter_version option" where
  "find_version i f = find (\<lambda>v. fid v = i) (fv f)"

definition get_active_filter_pipeline ::
  "'x filter_library \<Rightarrow> stored_filter \<Rightarrow> (filter_error, json list) result" where
  "get_active_filter_pipeline L f =
     and_then (ok_or FilterNotFound (find_version (active_fid f) f)) (\<lambda>v.
     and_then (map_err Filter_serde (from_str L (version_pipeline v))) (\<lambda>p.
       ok_or (InvalidFilterPipeline ''Filter pipeline must be an array'') (as_array p)))"

text \<open>The stages that bind a pipeline to a watchlist; \<open>projection\<close> names the fields surfaced.\<close>

definition matching_objects :: "survey \<Rightarrow> string" where
  "matching_objects survey = ''matching_'' @ to_ascii_lowercase (survey_as_str survey) @ ''_objects''"

definition watchlist_lookup :: "string \<Rightarrow> survey \<Rightarrow> 'x stage" where
  "watchlist_lookup name survey =
     [(''$lookup'', BDocument [(''from'', BString name), (''localField'', BString ''objectId''),
        (''foreignField'', BString (matching_objects survey)), (''as'', BString ''_watchlist_match'')])]"

definition watchlist_match :: "'x stage" where
  "watchlist_match =
     [(''$match'', BDocument [(''_watchlist_match.0'', BDocument [(''$exists'', BOther (Bool True))])])]"

definition surface_watchlist :: "string list \<Rightarrow> 'x stage list" where
  "surface_watchlist projection =
     [[(''$set'', BDocument [(''annotations.watchlist'', BDocument [(''$map'', BDocument
         [(''input'', BString ''$_watchlist_match''), (''as'', BString ''w''),
          (''in'', BDocument (foldl (\<lambda>d k. obj_insert k (BString (''$$w.'' @ k)) d) [] projection))])])])],
      [(''$unset'', BString ''_watchlist_match'')]]"

definition bind_watchlist ::
  "(string \<Rightarrow> string list option) \<Rightarrow> survey \<Rightarrow> string option \<Rightarrow> 'x stage list \<Rightarrow> (filter_error, 'x stage list) result"
where
  "bind_watchlist projections survey bound pipeline =
     (case bound of
        None \<Rightarrow> Inr pipeline
      | Some name \<Rightarrow>
          if \<not> prefix WATCHLIST_PREFIX name then Inl (InvalidWatchlist name)
          else Inr (pipeline @ [watchlist_lookup name survey, watchlist_match]
                 @ (case projections name of None \<Rightarrow> [] | Some p \<Rightarrow> surface_watchlist p)))"

definition build_loaded_filter ::
  "'x filter_library \<Rightarrow> ('db, stored_filter) collection \<Rightarrow> (string \<Rightarrow> string list option) \<Rightarrow> string \<Rightarrow> survey \<Rightarrow> 'db \<Rightarrow>
   (filter_error, 'x loaded_filter) result"
where
  "build_loaded_filter L M projections i survey db =
     and_then (get_filter M i survey db) (\<lambda>f.
     if survey \<in> set SURVEYS_REQUIRING_PERMISSIONS \<and>
        (case permissions f survey of None \<Rightarrow> True | Some ps \<Rightarrow> ps = [])
     then Inl InvalidFilterPermissions
     else
       and_then (get_active_filter_pipeline L f) (\<lambda>p.
       and_then (build_filter_pipeline (to_document L) p (permissions f) (filter_survey f)) (\<lambda>pipeline.
       and_then (bind_watchlist projections survey (watchlist f) pipeline) (\<lambda>pipeline.
         Inr \<lparr>loaded_id = filter_id f, loaded_name = filter_name f, loaded_permissions = permissions f,
              loaded_pipeline = pipeline\<rparr>))))"

text \<open>\<open>crossmatch\<close> is the configured catalogs of the survey with the names of their projected fields;
  collecting into a map keeps the last entry of a name.\<close>

definition watchlist_projections :: "(string \<times> string list) list \<Rightarrow> string \<Rightarrow> string list option" where
  "watchlist_projections crossmatch =
     map_of (rev (filter (\<lambda>(catalog, _). prefix WATCHLIST_PREFIX catalog) crossmatch))"

text \<open>Every filter is read from the database on its own, after the list of ids.\<close>

definition build_loaded_filters ::
  "'x filter_library \<Rightarrow> ('db, stored_filter) collection \<Rightarrow> (string \<Rightarrow> string list option) \<Rightarrow> string list option \<Rightarrow>
   survey \<Rightarrow> 'db \<Rightarrow> (filter_error, 'x loaded_filter list) result"
where
  "build_loaded_filters L M projections filter_ids survey db =
     and_then (map_err (\<lambda>e. Filter_mongodb (mongo_text e))
         (find_docs M (\<lambda>f. active f \<and> filter_survey f = survey) None None db)) (\<lambda>found.
     let all_filter_ids = map filter_id found
     in and_then
          (case filter_ids of
             None \<Rightarrow> Inr all_filter_ids
           | Some ids \<Rightarrow> if list_all (\<lambda>i. i \<in> set all_filter_ids) ids then Inr ids else Inl FilterNotFound) (\<lambda>ids.
        Inr (List.map_filter (\<lambda>i. case build_loaded_filter L M projections i survey db of
               Inr f \<Rightarrow> Some f | Inl _ \<Rightarrow> None) ids)))"

definition get_i64 :: "string \<Rightarrow> 'x stage \<Rightarrow> i64 option" where
  "get_i64 k d = (case map_of d k of Some (BOther (Int64 c)) \<Rightarrow> Some c | _ \<Rightarrow> None)"

text \<open>\<open>aggregate\<close> runs a pipeline on the survey's alerts.\<close>

definition set_candids :: "i64 list \<Rightarrow> 'x stage list \<Rightarrow> (filter_error, 'x stage list) result" where
  "set_candids candids pipeline =
     (case pipeline of
        [] \<Rightarrow> Inl (InvalidFilterPipeline ''filter pipeline is empty'')
      | first # rest \<Rightarrow>
          (case map_of first ''$match'' of
             Some (BDocument m) \<Rightarrow>
               Inr (obj_insert ''$match'' (BDocument (obj_insert ''_id''
                 (BDocument [(''$in'', BArray (map (\<lambda>c. BOther (Int64 c)) candids))]) m)) first # rest)
           | _ \<Rightarrow> Inl (BsonValueAccess ''$match'')))"

definition run_filter ::
  "('x stage list \<Rightarrow> 'db \<Rightarrow> (string, 'x stage list) result) \<Rightarrow> i64 list \<Rightarrow> 'x stage list \<Rightarrow> 'db \<Rightarrow>
   (filter_error, 'x stage list) result"
where
  "run_filter aggregate candids pipeline db =
     (if candids = [] then Inr []
      else and_then (set_candids candids pipeline) (\<lambda>p. map_err Filter_mongodb (aggregate p db)))"

section \<open>What is loaded\<close>

lemma built_starts_with_match:
  "build_filter_pipeline to_doc p perms survey = Inr out \<Longrightarrow>
   \<exists>rest. out = first_match # rest"
  by (auto simp: build_filter_pipeline_def build_ztf_filter_pipeline_def build_lsst_filter_pipeline_def
      build_decam_filter_pipeline_def build_winter_filter_pipeline_def build_around_def Let_def and_then_Inr
      split: if_splits survey.splits option.splits prod.splits)

lemma built_validated:
  "build_filter_pipeline to_doc p perms survey = Inr out \<Longrightarrow> validate_filter_pipeline p = Inr ()"
  by (auto simp: build_filter_pipeline_def build_ztf_filter_pipeline_def build_lsst_filter_pipeline_def
      build_decam_filter_pipeline_def build_winter_filter_pipeline_def and_then_unit
      split: if_splits survey.splits)

text \<open>A loaded filter stands for a stored one: it is active, on the survey, permitted, its active
  version is valid, and a watchlist it is bound to restricts what comes out.\<close>

definition stands_for ::
  "'x filter_library \<Rightarrow> survey \<Rightarrow> stored_filter \<Rightarrow> 'x loaded_filter \<Rightarrow> bool" where
  "stands_for L survey f lf \<longleftrightarrow>
     active f \<and> filter_survey f = survey \<and> loaded_id lf = filter_id f \<and>
     loaded_permissions lf = permissions f \<and>
     (survey = Ztf \<longrightarrow> (\<exists>ps. permissions f Ztf = Some ps \<and> ps \<noteq> [])) \<and>
     (\<exists>v p base ext. v \<in> set (fv f) \<and> fid v = active_fid f \<and> from_str L (version_pipeline v) = Inr (JArray p) \<and>
        validate_filter_pipeline p = Inr () \<and>
        build_filter_pipeline (to_document L) p (permissions f) survey = Inr base \<and>
        loaded_pipeline lf = base @ ext \<and>
        (case watchlist f of
           None \<Rightarrow> ext = []
         | Some name \<Rightarrow> prefix WATCHLIST_PREFIX name \<and>
             take 2 ext = [watchlist_lookup name survey, watchlist_match]))"

lemma as_array_Some: "as_array j = Some p \<longleftrightarrow> j = JArray p"
  by (cases j) auto

lemma bind_watchlist_Inr:
  "bind_watchlist projections survey bound pipeline = Inr out \<Longrightarrow>
   \<exists>ext. out = pipeline @ ext \<and>
     (case bound of
        None \<Rightarrow> ext = []
      | Some name \<Rightarrow> prefix WATCHLIST_PREFIX name \<and>
          take 2 ext = [watchlist_lookup name survey, watchlist_match])"
  by (auto simp: bind_watchlist_def split: option.splits if_splits)

lemma build_loaded_filter_stands_for:
  assumes "doc_store M" and b: "build_loaded_filter L M projections i survey db = Inr lf"
  shows "\<exists>f\<in>set (docs M db). stands_for L survey f lf"
proof -
  from b obtain f v p base where g: "get_filter M i survey db = Inr f" and
    perms: "survey \<in> set SURVEYS_REQUIRING_PERMISSIONS \<longrightarrow> \<not> (case permissions f survey of None \<Rightarrow> True | Some ps \<Rightarrow> ps = [])" and
    v: "find_version (active_fid f) f = Some v" "from_str L (version_pipeline v) = Inr (JArray p)" and
    base: "build_filter_pipeline (to_document L) p (permissions f) (filter_survey f) = Inr base" and
    bound: "bind_watchlist projections survey (watchlist f) base = Inr (loaded_pipeline lf)" and
    lf: "loaded_id lf = filter_id f" "loaded_permissions lf = permissions f"
    by (auto simp: build_loaded_filter_def get_active_filter_pipeline_def and_then_Inr map_err_Inr ok_or_def
        as_array_Some split: if_splits option.splits)
  from g have "find_one M (\<lambda>f. filter_id f = i \<and> active f \<and> filter_survey f = survey) None db = Inr (Some f)"
    by (auto simp: get_filter_def ok_or_def split: sum.splits option.splits)
  from doc_store.find_one_law [OF assms(1) this] have f: "f \<in> set (docs M db)" "active f" "filter_survey f = survey"
    by auto
  have "v \<in> set (fv f)" "fid v = active_fid f"
    using v(1) by (auto simp: find_version_def dest: find_Some_in)
  moreover have "survey = Ztf \<longrightarrow> (\<exists>ps. permissions f Ztf = Some ps \<and> ps \<noteq> [])"
    using perms by (auto simp: SURVEYS_REQUIRING_PERMISSIONS_def split: option.splits)
  moreover obtain ext where "loaded_pipeline lf = base @ ext"
    "case watchlist f of None \<Rightarrow> ext = [] | Some name \<Rightarrow> prefix WATCHLIST_PREFIX name \<and>
       take 2 ext = [watchlist_lookup name survey, watchlist_match]"
    using bind_watchlist_Inr [OF bound] by blast
  ultimately have "stands_for L survey f lf"
    unfolding stands_for_def using f lf v(2) base built_validated [OF base]
    by (intro conjI exI [of _ v] exI [of _ p] exI [of _ base] exI [of _ ext]) simp_all
  with f(1) show ?thesis by blast
qed

text \<open>A stored filter to load, without a watchlist, and the collection that holds it.\<close>

definition demo_library :: "unit filter_library" where
  "demo_library = \<lparr>from_str = (\<lambda>_. Inr (JArray demo_pipeline)), to_document = demo_document,
     known_candidate_field = (\<lambda>_ _. True)\<rparr>"

definition demo_filter :: stored_filter where
  "demo_filter = \<lparr>filter_id = ''f'', filter_name = ''demo'', description = None, permissions = (\<lambda>_. None),
     user_id = ''u'', watchlist = None, filter_survey = Lsst, active = True, active_fid = ''v'',
     fv = [\<lparr>fid = ''v'', version_pipeline = ''[]'', changelog = None, version_created_at = 0\<rparr>],
     created_at = 0, updated_at = 0\<rparr>"

abbreviation filter_coll :: "(stored_filter list, stored_filter) collection" where
  "filter_coll \<equiv> list_coll (\<lambda>f. Some (filter_id f))"

definition demo_loaded :: "unit loaded_filter" where
  "demo_loaded = \<lparr>loaded_id = ''f'', loaded_name = ''demo'', loaded_permissions = (\<lambda>_. None),
     loaded_pipeline = demo_out\<rparr>"

lemma demo_load: "build_loaded_filter demo_library filter_coll (\<lambda>_. None) ''f'' Lsst [demo_filter] = Inr demo_loaded"
  by (simp add: build_loaded_filter_def get_filter_def get_active_filter_pipeline_def find_version_def
      bind_watchlist_def list_coll_def first_by_def demo_filter_def demo_library_def demo_loaded_def
      demo_built SURVEYS_REQUIRING_PERMISSIONS_def)

lemma demo_load_all:
  "build_loaded_filters demo_library filter_coll (\<lambda>_. None) None Lsst [demo_filter] = Inr [demo_loaded]"
proof -
  have "find_docs filter_coll (\<lambda>f. active f \<and> filter_survey f = Lsst) None None [demo_filter] = Inr [demo_filter]"
    by (simp add: list_coll_def sort_docs_def limit_docs_def demo_filter_def)
  moreover have "filter_id demo_filter = ''f''"
    by (simp add: demo_filter_def)
  ultimately show ?thesis
    by (simp add: build_loaded_filters_def demo_load map_filter_simps)
qed

text \<open>
  C18: Every filter a worker loads stands for a filter stored as active for its survey: with the
  permissions stored, which are not empty on a survey that requires them, the pipeline built from
  the active version, which validates, and, where it is bound to a watchlist, the watchlist's
  match behind it.
\<close>

theorem loaded_filters_stand_for_stored_ones:
  assumes "doc_store M" "build_loaded_filters L M projections ids survey db = Inr lfs" "lf \<in> set lfs"
  shows "\<exists>f\<in>set (docs M db). stands_for L survey f lf"
  using assms(2,3) build_loaded_filter_stands_for [OF assms(1)]
  by (auto simp: build_loaded_filters_def Let_def and_then_Inr List.map_filter_def split: sum.splits)

theorem loaded_filters_stand_for_stored_ones_witness:
  "\<exists>f\<in>set (docs filter_coll [demo_filter]). stands_for demo_library Lsst f demo_loaded"
  by (rule loaded_filters_stand_for_stored_ones [OF list_store.doc_store_axioms demo_load_all]) simp

text \<open>
  Running a loaded filter on a batch asks the database for those alerts only: the first stage
  of what runs matches exactly the ids of the batch, and nothing runs for an empty one.
\<close>

theorem filter_runs_on_its_batch:
  assumes "build_loaded_filter L M projections i survey db = Inr lf"
  shows "\<exists>rest. loaded_pipeline lf = first_match # rest \<and>
    run_filter aggregate candids (loaded_pipeline lf) db' =
      (if candids = [] then Inr []
       else map_err Filter_mongodb (aggregate ([(''$match'', BDocument [(''_id'', BDocument
              [(''$in'', BArray (map (\<lambda>c. BOther (Int64 c)) candids))])])] # rest) db'))"
proof -
  from assms obtain to_doc p perms sv base bound where
    base: "build_filter_pipeline to_doc p perms sv = Inr base" and
    "bind_watchlist projections survey bound base = Inr (loaded_pipeline lf)"
    by (auto simp: build_loaded_filter_def and_then_Inr split: if_splits)
  with built_starts_with_match [OF base] bind_watchlist_Inr obtain rest where
    "loaded_pipeline lf = first_match # rest" by (metis append_Cons)
  then show ?thesis
    by (auto simp: run_filter_def set_candids_def first_match_def and_then_def)
qed

theorem filter_runs_on_its_batch_witness:
  "\<exists>rest. loaded_pipeline demo_loaded = first_match # rest \<and>
    run_filter (\<lambda>p db. Inr []) [7] (loaded_pipeline demo_loaded) () =
      (if [7] = ([] :: i64 list) then Inr []
       else map_err Filter_mongodb (Inr []))"
  using filter_runs_on_its_batch [OF demo_load, of "\<lambda>p db. Inr []" "[7]" "()"] by simp

end
