(* ===== verification/Stage_Workers.thy ===== *)
theory Stage_Workers
  imports Work_Queue Filter_Pipeline
begin

text \<open>
  The main loops of the two later stages: the enrichment worker
  (\<open>src/src/enrichment/base.rs\<close>), which takes a batch of candids and hands enriched alerts on, and
  the filter worker (\<open>src/src/filter/base.rs\<close>), which runs alerts through the loaded filters and
  sends the matches to Kafka.  What enriching and filtering a batch does, and the Kafka producer,
  are functions of the worker's and the producer's state; metrics, logging and waits are left
  out.  Unlike the alert worker these stages pop a batch without a temp queue.
\<close>

section \<open>The enrichment worker\<close>

datatype enrichment_worker_error =
    MissingDocumentField string
  | Enrichment_Mongodb string
  | Enrichment_Redis redis_error
  | ReadConfigError string
  | Enrichment_WorkerConfigMissing survey
  | RunModelError string
  | CutoutAccessError string
  | SerdeJson string
  | MongoDeserializeError string
  | MissingCutouts i64
  | Serialization string
  | Kafka string
  | CutoutStorageError string
  | ConfigurationError string
  | BadProcstatus string
  | MissingMagZPSci
  | MissingFluxPSF
  | EmptyLightcurve i64
  | Milvus string

text \<open>\<open>read_candids\<close> reads popped values as candids, as the client does.\<close>

record ('r, 's) enrichment_setup =
  e_server :: "'r redis"
  e_input_queue :: string
  e_output_queue :: string
  e_command_interval :: nat
  e_batch_size :: nat
  e_receiver :: "nat \<Rightarrow> try_recv"
  read_candids :: "payload list \<Rightarrow> (redis_error, i64 list) result"
  enrich_alerts :: "i64 list \<Rightarrow> 's \<Rightarrow> (enrichment_worker_error, payload list) result \<times> 's"
  on_idle :: "'s \<Rightarrow> 's"

record ('r, 's) enrichment_state =
  e_connection :: 'r
  e_worker :: 's
  e_countdown :: nat
  e_polls :: nat

definition pop_as ::
  "'r redis \<Rightarrow> string \<Rightarrow> nat \<Rightarrow> (payload list \<Rightarrow> (redis_error, 'a) result) \<Rightarrow> 'r \<Rightarrow>
   (redis_error, 'a) result \<times> 'r" where
  "pop_as R key n read con =
     (case rpop R key n con of
        (Inl e, con) \<Rightarrow> (Inl e, con)
      | (Inr vs, con) \<Rightarrow> (read vs, con))"

definition enrichment_turn ::
  "('r, 's) enrichment_setup \<Rightarrow> ('r, 's) enrichment_state \<Rightarrow>
   enrichment_worker_error loop_turn \<times> ('r, 's) enrichment_state" where
  "enrichment_turn E st =
     (let due = e_countdown st = 0;
          polled = st\<lparr>e_polls := e_polls st + 1\<rparr>
      in if due \<and> should_terminate (e_receiver E (e_polls st)) then (Finished (Inr ()), polled)
         else
           let st = (if due then polled\<lparr>e_countdown := e_command_interval E\<rparr> else st)
           in case retry_valkey (pop_as (e_server E) (e_input_queue E) (e_batch_size E) (read_candids E))
                     (e_connection st) of
                (Inl e, con) \<Rightarrow> (Finished (Inl (Enrichment_Redis e)), st\<lparr>e_connection := con\<rparr>)
              | (Inr candids, con) \<Rightarrow>
                  if candids = []
                  then (Go, st\<lparr>e_connection := con, e_worker := on_idle E (e_worker st), e_countdown := 0\<rparr>)
                  else
                    let st = st\<lparr>e_connection := con, e_countdown := e_countdown st - length candids\<rparr>
                    in case enrich_alerts E candids (e_worker st) of
                         (Inl e, w) \<Rightarrow> (Finished (Inl e), st\<lparr>e_worker := w\<rparr>)
                       | (Inr alerts, w) \<Rightarrow>
                           if alerts = [] then (Go, st\<lparr>e_worker := w\<rparr>)
                           else
                             case retry_valkey (lpush (e_server E) (e_output_queue E) alerts) con of
                               (Inl e, con) \<Rightarrow>
                                 (Finished (Inl (Enrichment_Redis e)), st\<lparr>e_worker := w, e_connection := con\<rparr>)
                             | (Inr _, con) \<Rightarrow> (Go, st\<lparr>e_worker := w, e_connection := con\<rparr>))"

fun enrichment_loop ::
  "('r, 's) enrichment_setup \<Rightarrow> nat \<Rightarrow> ('r, 's) enrichment_state \<Rightarrow>
   (enrichment_worker_error, unit) result option \<times> ('r, 's) enrichment_state" where
  "enrichment_loop E 0 st = (None, st)"
| "enrichment_loop E (Suc n) st =
     (case enrichment_turn E st of
        (Finished r, st) \<Rightarrow> (Some r, st)
      | (Go, st) \<Rightarrow> enrichment_loop E n st)"

text \<open>The start of the worker: a batch size of 0 is a configuration error.\<close>

definition run_enrichment_worker ::
  "('r, 's) enrichment_setup \<Rightarrow> string \<Rightarrow> 'r \<Rightarrow> 's \<Rightarrow> nat \<Rightarrow>
   (enrichment_worker_error, unit) result option \<times> ('r, 's) enrichment_state" where
  "run_enrichment_worker E survey_name con w n =
     (let st = \<lparr>e_connection = con, e_worker = w, e_countdown = e_command_interval E, e_polls = 0\<rparr>
      in if e_batch_size E = 0
         then (Some (Inl (ConfigurationError
                (''enrichment batch_size must be non-zero for survey '' @ survey_name))), st)
         else enrichment_loop E n st)"

section \<open>The filter worker\<close>

datatype filter_worker_error =
    Filter_Avro string
  | Filter_BsonValueAccess string
  | Filter_Kafka string
  | Filter_Mongodb string
  | Filter_Redis redis_error
  | Filter_SerdeJson string
  | Filter_LoadConfigError string
  | FilterError filter_error
  | AlertNotFound
  | FilterNotFound
  | KafkaConfigMissing survey
  | Filter_WorkerConfigMissing survey
  | Filter_MissingFluxPSF
  | Filter_MissingCutouts i64
  | MissingCutoutsBatch nat
  | Filter_CutoutStorageError string
  | FetchAlertsError string

fun is_kafka :: "filter_worker_error \<Rightarrow> bool" where
  "is_kafka (Filter_Kafka _) = True"
| "is_kafka _ = False"

text \<open>What becomes of an enqueued message.\<close>

datatype delivery = Delivered | Rejected string | DeliveryCanceled string

text \<open>\<open>clock\<close> gives the two readings of the monotonic clock in a turn, by the number of the turn, in
  nanoseconds.  \<open>outcome\<close> resolves a delivery future.\<close>

record ('r, 's, 'k, 'a, 'd) filter_setup =
  f_server :: "'r redis"
  f_input_queue :: string
  f_command_interval :: nat
  filter_refresh_interval :: nat
  f_receiver :: "nat \<Rightarrow> try_recv"
  clock :: "nat \<Rightarrow> nat \<times> nat"
  read_texts :: "payload list \<Rightarrow> (redis_error, string list) result"
  refresh_filters :: "'s \<Rightarrow> (filter_worker_error, unit) result \<times> 's"
  has_filters :: "'s \<Rightarrow> bool"
  filter_alerts :: "string list \<Rightarrow> 's \<Rightarrow> (filter_worker_error, 'a list) result \<times> 's"
  send_alert_to_kafka :: "'a \<Rightarrow> 'k \<Rightarrow> (filter_worker_error, 'd) result \<times> 'k"
  outcome :: "'d \<Rightarrow> delivery"
  flush_producer :: "'k \<Rightarrow> (string, unit) result"

record ('r, 's, 'k) filter_state =
  f_connection :: 'r
  f_worker :: 's
  producer :: 'k
  f_countdown :: nat
  f_polls :: nat
  turns :: nat
  next_filter_refresh :: nat

definition BATCH_SIZE :: nat where "BATCH_SIZE = 1000"

text \<open>Enqueueing the matches, each with retries of transient producer errors, up to the first that
  fails; then the deliveries, up to the first that was canceled.\<close>

fun enqueue_all ::
  "('a \<Rightarrow> 'k \<Rightarrow> (filter_worker_error, 'd) result \<times> 'k) \<Rightarrow> 'a list \<Rightarrow> 'k \<Rightarrow>
   'd list \<times> filter_worker_error option \<times> 'k" where
  "enqueue_all send [] k = ([], None, k)"
| "enqueue_all send (a # as) k =
     (case retry_transient DEFAULT_MAX_RETRIES DEFAULT_BASE_BACKOFF is_kafka (send a) k of
        (Inl e, _, k) \<Rightarrow> ([], Some e, k)
      | (Inr d, _, k) \<Rightarrow>
          (case enqueue_all send as k of (ds, e, k) \<Rightarrow> (d # ds, e, k)))"

fun await_deliveries :: "delivery list \<Rightarrow> (filter_worker_error, nat) result" where
  "await_deliveries [] = Inr 0"
| "await_deliveries (DeliveryCanceled e # ds) =
     Inl (Filter_Kafka (''Failed to deliver alert to Kafka: '' @ e))"
| "await_deliveries (Rejected e # ds) = await_deliveries ds"
| "await_deliveries (Delivered # ds) = and_then (await_deliveries ds) (\<lambda>n. Inr (n + 1))"

definition publish ::
  "('r, 's, 'k, 'a, 'd) filter_setup \<Rightarrow> 'a list \<Rightarrow> ('r, 's, 'k) filter_state \<Rightarrow>
   filter_worker_error loop_turn \<times> ('r, 's, 'k) filter_state" where
  "publish F matched st =
     (let (futures, enqueue_error, k) = enqueue_all (send_alert_to_kafka F) matched (producer st);
          st = st\<lparr>producer := k\<rparr>
      in case await_deliveries (map (outcome F) futures) of
           Inl e \<Rightarrow> (Finished (Inl e), st)
         | Inr total_sent \<Rightarrow>
             (case enqueue_error of Some e \<Rightarrow> (Finished (Inl e), st) | None \<Rightarrow> (Go, st)))"

definition take_batch ::
  "('r, 's, 'k, 'a, 'd) filter_setup \<Rightarrow> ('r, 's, 'k) filter_state \<Rightarrow>
   filter_worker_error loop_turn \<times> ('r, 's, 'k) filter_state" where
  "take_batch F st =
     (case retry_valkey (pop_as (f_server F) (f_input_queue F) BATCH_SIZE (read_texts F)) (f_connection st) of
        (Inl e, con) \<Rightarrow> (Finished (Inl (Filter_Redis e)), st\<lparr>f_connection := con\<rparr>)
      | (Inr alerts, con) \<Rightarrow>
          if alerts = [] then (Go, st\<lparr>f_connection := con, f_countdown := 0\<rparr>)
          else
            let st = st\<lparr>f_connection := con, f_countdown := f_countdown st - length alerts\<rparr>
            in case filter_alerts F alerts (f_worker st) of
                 (Inl e, w) \<Rightarrow> (Finished (Inl e), st\<lparr>f_worker := w\<rparr>)
               | (Inr matched, w) \<Rightarrow> publish F matched (st\<lparr>f_worker := w\<rparr>))"

definition refresh_if_due ::
  "('r, 's, 'k, 'a, 'd) filter_setup \<Rightarrow> ('r, 's, 'k) filter_state \<Rightarrow>
   (filter_worker_error, unit) result \<times> ('r, 's, 'k) filter_state" where
  "refresh_if_due F st =
     (let (now1, now2) = clock F (turns st); st = st\<lparr>turns := turns st + 1\<rparr>
      in if next_filter_refresh (st :: ('r, 's, 'k) filter_state) \<le> now1
         then (case refresh_filters F (f_worker st) of
                 (Inl e, w) \<Rightarrow> (Inl e, st\<lparr>f_worker := w\<rparr>)
               | (Inr _, w) \<Rightarrow>
                   (Inr (), st\<lparr>f_worker := w, next_filter_refresh := now2 + filter_refresh_interval F\<rparr>))
         else (Inr (), st))"

definition filter_turn ::
  "('r, 's, 'k, 'a, 'd) filter_setup \<Rightarrow> ('r, 's, 'k) filter_state \<Rightarrow>
   filter_worker_error loop_turn \<times> ('r, 's, 'k) filter_state" where
  "filter_turn F st =
     (case refresh_if_due F st of
        (Inl e, st) \<Rightarrow> (Finished (Inl e), st)
      | (Inr _, st) \<Rightarrow>
          if f_countdown st = 0
          then
            (let polled = st\<lparr>f_polls := f_polls st + 1\<rparr>
             in if should_terminate (f_receiver F (f_polls st))
                then (Finished (case flush_producer F (producer st) of
                        Inl e \<Rightarrow> Inl (Filter_Kafka (''Failed to flush Kafka producer on termination: '' @ e))
                      | Inr _ \<Rightarrow> Inr ()), polled)
                else
                  let st = polled\<lparr>f_countdown := f_command_interval F\<rparr>
                  in if has_filters F (f_worker st) then take_batch F st else (Go, st))
          else take_batch F st)"

fun filter_loop ::
  "('r, 's, 'k, 'a, 'd) filter_setup \<Rightarrow> nat \<Rightarrow> ('r, 's, 'k) filter_state \<Rightarrow>
   (filter_worker_error, unit) result option \<times> ('r, 's, 'k) filter_state" where
  "filter_loop F 0 st = (None, st)"
| "filter_loop F (Suc n) st =
     (case filter_turn F st of
        (Finished r, st) \<Rightarrow> (Some r, st)
      | (Go, st) \<Rightarrow> filter_loop F n st)"

section \<open>Stopping\<close>

lemma enrichment_terminates:
  "(\<And>k. should_terminate (e_receiver E k)) \<Longrightarrow> e_countdown st < n \<Longrightarrow>
   fst (enrichment_loop E n st) \<noteq> None"
proof (induction n arbitrary: st)
  case (Suc n)
  obtain q st1 where t: "enrichment_turn E st = (q, st1)" by fastforce
  show ?case
  proof (cases q)
    case (Finished r)
    then show ?thesis
      using t by simp
  next
    case Go
    have c: "e_countdown st \<noteq> 0"
    proof
      assume "e_countdown st = 0"
      then show False
        using t Go Suc.prems(1) by (simp add: enrichment_turn_def)
    qed
    have "e_countdown st1 < e_countdown st"
      using t Go c unfolding enrichment_turn_def Let_def
      by (auto split: prod.splits sum.splits if_splits)
    then have "e_countdown st1 < n"
      using Suc.prems(2) by linarith
    then show ?thesis
      using Suc.IH [OF Suc.prems(1)] t Go by simp
  qed
qed simp

lemma publish_countdown: "publish F matched st = (q, st') \<Longrightarrow> f_countdown st' = f_countdown st"
  by (auto simp: publish_def Let_def split: prod.splits sum.splits option.splits)

lemma take_batch_countdown:
  "take_batch F st = (Go, st') \<Longrightarrow> f_countdown st \<noteq> 0 \<Longrightarrow> f_countdown st' < f_countdown st"
  by (auto simp: take_batch_def Let_def split: prod.splits sum.splits if_splits dest!: publish_countdown)

lemma refresh_countdown: "refresh_if_due F st = (r, st') \<Longrightarrow> f_countdown st' = f_countdown st"
  by (auto simp: refresh_if_due_def Let_def split: prod.splits sum.splits if_splits)

lemma filter_terminates:
  "(\<And>k. should_terminate (f_receiver F k)) \<Longrightarrow> f_countdown st < n \<Longrightarrow>
   fst (filter_loop F n st) \<noteq> None"
proof (induction n arbitrary: st)
  case (Suc n)
  obtain q st1 where t: "filter_turn F st = (q, st1)" by fastforce
  obtain r st2 where r: "refresh_if_due F st = (r, st2)" by fastforce
  show ?case
  proof (cases q)
    case (Finished r)
    then show ?thesis
      using t by simp
  next
    case Go
    have "f_countdown st2 \<noteq> 0"
    proof
      assume "f_countdown st2 = 0"
      then show False
        using t r Go Suc.prems(1) by (simp add: filter_turn_def Let_def split: sum.splits)
    qed
    moreover from this have "take_batch F st2 = (Go, st1)"
      using t r Go by (auto simp: filter_turn_def Let_def split: sum.splits)
    ultimately have "f_countdown st1 < f_countdown st"
      using take_batch_countdown [of F st2 st1] refresh_countdown [OF r] by simp
    then have "f_countdown st1 < n"
      using Suc.prems(2) by linarith
    then show ?thesis
      using Suc.IH [OF Suc.prems(1)] t Go by simp
  qed
qed simp

section \<open>What becomes of a batch\<close>

text \<open>A setup of the filter stage without filters, whose processing matches nothing.\<close>

definition no_filters_setup :: "(lists, unit, unit, unit, unit) filter_setup" where
  "no_filters_setup = \<lparr>f_server = memory_redis, f_input_queue = ''q'', f_command_interval = 100,
     filter_refresh_interval = from_secs 3600, f_receiver = (\<lambda>_. Empty), clock = (\<lambda>_. (0, 0)),
     read_texts = (\<lambda>vs. Inr (map (map (\<lambda>b. char_of (unat b))) vs)), refresh_filters = (\<lambda>s. (Inr (), s)),
     has_filters = (\<lambda>_. False), filter_alerts = (\<lambda>_ s. (Inr [], s)),
     send_alert_to_kafka = (\<lambda>_ k. (Inr (), k)), outcome = (\<lambda>_. Delivered),
     flush_producer = (\<lambda>_. Inr ())\<rparr>"

definition idle_filter_worker :: "(lists, unit, unit) filter_state" where
  "idle_filter_worker = \<lparr>f_connection = (\<lambda>_. [])(''q'' := [[65], [66]]), f_worker = (), producer = (),
     f_countdown = 0, f_polls = 0, turns = 0, next_filter_refresh = 1\<rparr>"

text \<open>The guard of a turn without filters: the command check resets the countdown, and the turn ends.\<close>

lemma refresh_not_due:
  "\<not> next_filter_refresh st \<le> fst (clock F (turns st)) \<Longrightarrow>
   refresh_if_due F st = (Inr (), st\<lparr>turns := turns st + 1\<rparr>)"
  by (cases "clock F (turns st)") (simp add: refresh_if_due_def Let_def)

lemma turn_without_filters:
  assumes "f_countdown st = 0" "\<not> should_terminate (f_receiver F (f_polls st))"
    and "\<not> next_filter_refresh st \<le> fst (clock F (turns st))" "\<not> has_filters F (f_worker st)"
  shows "filter_turn F st =
    (Go, st\<lparr>turns := turns st + 1, f_polls := f_polls st + 1, f_countdown := f_command_interval F\<rparr>)"
  unfolding filter_turn_def refresh_not_due [OF assms(3)] using assms by simp

lemma batch_without_matches:
  assumes "retry_valkey (pop_as (f_server F) (f_input_queue F) BATCH_SIZE (read_texts F)) (f_connection st)
      = (Inr alerts, con)"
    and "alerts \<noteq> []" "filter_alerts F alerts (f_worker st) = (Inr [], w)"
  shows "take_batch F st = (Go, st\<lparr>f_connection := con, f_countdown := f_countdown st - length alerts,
    f_worker := w\<rparr>)"
  using assms by (simp add: take_batch_def publish_def Let_def)

text \<open>
  A filter worker without filters still takes alerts: the guard that is meant to leave the
  candidates in the queue ends only the turn of the command check, the next turn is not due for a
  check, pops a batch and filters it with no filters, so that two turns later the alerts are gone
  from the queue and nothing was sent.
\<close>

theorem filter_worker_takes_alerts_without_filters:
  assumes "f_countdown st = 0" "\<not> should_terminate (f_receiver F (f_polls st))"
    and "\<not> has_filters F (f_worker st)" "0 < f_command_interval F"
    and "\<not> next_filter_refresh st \<le> fst (clock F (turns st))"
    and "\<not> next_filter_refresh st \<le> fst (clock F (turns st + 1))"
    and "retry_valkey (pop_as (f_server F) (f_input_queue F) BATCH_SIZE (read_texts F)) (f_connection st)
      = (Inr alerts, con)"
    and "alerts \<noteq> []" "filter_alerts F alerts (f_worker st) = (Inr [], w)"
    and "filter_loop F 2 st = (r, st')"
  shows "r = None \<and> f_connection st' = con \<and> producer st' = producer st"
proof -
  let ?st1 = "st\<lparr>turns := turns st + 1, f_polls := f_polls st + 1, f_countdown := f_command_interval F\<rparr>"
  have t1: "filter_turn F st = (Go, ?st1)"
    by (rule turn_without_filters) (use assms in auto)
  have r2: "refresh_if_due F ?st1 = (Inr (), ?st1\<lparr>turns := turns st + 2\<rparr>)"
    using refresh_not_due [of ?st1 F] assms(6) by simp
  have t2: "filter_turn F ?st1 = take_batch F (?st1\<lparr>turns := turns st + 2\<rparr>)"
    using assms(4) by (simp only: filter_turn_def r2) simp
  have "take_batch F (?st1\<lparr>turns := turns st + 2\<rparr>) = (Go, ?st1\<lparr>turns := turns st + 2,
      f_connection := con, f_countdown := f_command_interval F - length alerts, f_worker := w\<rparr>)"
    using batch_without_matches [of F "?st1\<lparr>turns := turns st + 2\<rparr>" alerts con w] assms(7-9) by simp
  with t1 t2 assms(10) show ?thesis
    by (auto simp: numeral_2_eq_2)
qed

theorem filter_worker_takes_alerts_without_filters_witness:
  "let st' = snd (filter_loop no_filters_setup 2 idle_filter_worker)
   in fst (filter_loop no_filters_setup 2 idle_filter_worker) = None \<and>
      f_connection st' = popped ''q'' 1000 (f_connection idle_filter_worker) \<and>
      producer st' = producer idle_filter_worker"
proof -
  have pop: "retry_valkey (pop_as (f_server no_filters_setup) (f_input_queue no_filters_setup) BATCH_SIZE
      (read_texts no_filters_setup)) (f_connection idle_filter_worker)
    = (Inr [[char_of (66 :: nat)], [char_of (65 :: nat)]], popped ''q'' 1000 (f_connection idle_filter_worker))"
    by (simp add: retry_valkey_def retry_transient_def retry_loop.simps pop_as_def no_filters_setup_def
        idle_filter_worker_def memory_redis_def BATCH_SIZE_def)
  show ?thesis
    unfolding Let_def
    by (rule filter_worker_takes_alerts_without_filters [OF _ _ _ _ _ _ pop _ _ prod.collapse [symmetric]])
      (simp_all add: no_filters_setup_def idle_filter_worker_def)
qed

text \<open>An enrichment stage whose processing fails on every batch.\<close>

definition failing_enrichment :: "(lists, unit) enrichment_setup" where
  "failing_enrichment = \<lparr>e_server = memory_redis, e_input_queue = ''in'', e_output_queue = ''out'',
     e_command_interval = 100, e_batch_size = 2, e_receiver = (\<lambda>_. Empty),
     read_candids = (\<lambda>vs. Inr (map (\<lambda>v. ucast (v ! 0)) vs)),
     enrich_alerts = (\<lambda>_ s. (Inl (RunModelError ''model''), s)), on_idle = (\<lambda>s. s)\<rparr>"

definition busy_enrichment :: "(lists, unit) enrichment_state" where
  "busy_enrichment = \<lparr>e_connection = (\<lambda>_. [])(''in'' := [[1], [2], [3]]), e_worker = (), e_countdown = 5,
     e_polls = 0\<rparr>"

text \<open>
  A batch that the enrichment stage fails to process is lost: an error in processing ends the
  worker, and the queues it leaves are those without the batch it had popped; nothing is put back
  and nothing is handed on.
\<close>

theorem enrichment_failure_drops_batch:
  assumes "redis_store (e_server E)" "e_countdown st \<noteq> 0"
    and "pop_as (e_server E) (e_input_queue E) (e_batch_size E) (read_candids E) (e_connection st)
      = (Inr candids, con)"
    and "candids \<noteq> []" "enrich_alerts E candids (e_worker st) = (Inl e, w)"
    and "enrichment_loop E (Suc n) st = (r, st')"
  shows "r = Some (Inl e) \<and>
    read_candids E (take (e_batch_size E) (rev (lists (e_server E) (e_connection st) (e_input_queue E))))
      = Inr candids \<and>
    lists (e_server E) (e_connection st') =
      popped (e_input_queue E) (e_batch_size E) (lists (e_server E) (e_connection st))"
proof -
  obtain vs where pop: "rpop (e_server E) (e_input_queue E) (e_batch_size E) (e_connection st) = (Inr vs, con)"
    and rd: "read_candids E vs = Inr candids"
    using assms(3) by (auto simp: pop_as_def split: prod.splits sum.splits)
  have "enrichment_turn E st = (Finished (Inl e), st\<lparr>e_connection := con,
      e_countdown := e_countdown st - length candids, e_worker := w\<rparr>)"
    using assms(2,4,5) retry_valkey_at_once [where op = "pop_as (e_server E) (e_input_queue E) (e_batch_size E) (read_candids E)", OF assms(3)]
    by (simp add: enrichment_turn_def Let_def)
  then have "r = Some (Inl e) \<and> e_connection st' = con"
    using assms(6) by auto
  then show ?thesis
    using redis_store.rpop_law [OF assms(1) pop] rd by (auto simp: applied_def)
qed

theorem enrichment_failure_drops_batch_witness:
  "let st = busy_enrichment; E = failing_enrichment;
       r = fst (enrichment_loop E (Suc 0) st); st' = snd (enrichment_loop E (Suc 0) st)
   in r = Some (Inl (RunModelError ''model'')) \<and>
      read_candids E (take (e_batch_size E) (rev (lists (e_server E) (e_connection st) (e_input_queue E))))
        = Inr [3, 2] \<and>
      lists (e_server E) (e_connection st') =
        popped (e_input_queue E) (e_batch_size E) (lists (e_server E) (e_connection st))"
  unfolding Let_def
  by (rule enrichment_failure_drops_batch [OF _ _ _ _ _ prod.collapse [symmetric],
        where con = "popped ''in'' 2 (e_connection busy_enrichment)" and w = "()"])
    (use memory.redis_store_axioms in \<open>simp_all add: failing_enrichment_def busy_enrichment_def
      pop_as_def memory_redis_def\<close>)

end
