(* ===== verification/Filter_Ztf.thy ===== *)
theory Filter_Ztf
  imports Filter_Loading Stage_Workers
begin

text \<open>
  The ZTF filter worker's batch (\<open>src/src/filter/ztf.rs\<close>, \<open>src/src/filter/base.rs\<close>): the queued
  strings are read back into program and alert ids, alerts are grouped by program, every loaded
  filter with permission for a program runs on its alerts, and what the runs return is collected
  by alert.  The aggregation, the text of a document's annotations (with the geometry of
  solar-system histories filled in), the clock, the order in which a hash map is iterated, and the
  building of the outgoing alerts are parameters.
\<close>

section \<open>Reading a queued string\<close>

text \<open>Slicing a string outside its bounds, or inside a character, panics.\<close>

definition is_char_boundary :: "string \<Rightarrow> nat \<Rightarrow> bool" where
  "is_char_boundary s i \<longleftrightarrow>
     i = 0 \<or> i = length s \<or> i < length s \<and> \<not> (0x80 \<le> (of_char (s ! i) :: nat) \<and> (of_char (s ! i) :: nat) < 0xC0)"

text \<open>\<open>str::parse\<close> of a signed integer with the given least and greatest value.\<close>

definition parse_int :: "int \<Rightarrow> int \<Rightarrow> string \<Rightarrow> int option" where
  "parse_int lo hi s =
     (let (neg, ds) = (case s of
            [] \<Rightarrow> (False, [])
          | c # cs \<Rightarrow> if c = CHR ''-'' then (True, cs) else if c = CHR ''+'' then (False, cs) else (False, s));
          v = (if neg then - int (digits_value ds) else int (digits_value ds))
      in if ds \<noteq> [] \<and> list_all is_digit ds \<and> lo \<le> v \<and> v \<le> hi then Some v else None)"

definition parse_i32 :: "string \<Rightarrow> int option" where "parse_i32 = parse_int (- (2 ^ 31)) (2 ^ 31 - 1)"
definition parse_i64 :: "string \<Rightarrow> int option" where "parse_i64 = parse_int (- (2 ^ 63)) (2 ^ 63 - 1)"

definition parse_programid_candid_tuple :: "string \<Rightarrow> (int \<times> i64) option outcome" where
  "parse_programid_candid_tuple s =
     (if length s < 1 \<or> \<not> is_char_boundary s 1 \<or> length s < 2 \<or> \<not> is_char_boundary s 2 then Panics
      else if s ! 1 \<noteq> CHR '','' then Returns None
      else case (parse_i32 (take 1 s), parse_i64 (drop 2 s)) of
             (Some programid, Some candid) \<Rightarrow> Returns (Some (programid, word_of_int candid))
           | _ \<Rightarrow> Returns None)"

section \<open>One batch\<close>

text \<open>\<open>entry(k).or_insert(Vec::new()).push(v)\<close>; a map is listed in the order of its first pushes.\<close>

fun entry_push :: "'k \<Rightarrow> 'v \<Rightarrow> ('k \<times> 'v list) list \<Rightarrow> ('k \<times> 'v list) list" where
  "entry_push k v [] = [(k, [v])]"
| "entry_push k v ((k', vs) # kvs) =
     (if k = k' then (k', vs @ [v]) # kvs else (k', vs) # entry_push k v kvs)"

fun alerts_by_programid :: "string list \<Rightarrow> (int \<times> i64 list) list \<Rightarrow> (int \<times> i64 list) list outcome" where
  "alerts_by_programid [] groups = Returns groups"
| "alerts_by_programid (s # ss) groups =
     (case parse_programid_candid_tuple s of
        Panics \<Rightarrow> Panics
      | Returns None \<Rightarrow> alerts_by_programid ss groups
      | Returns (Some (programid, candid)) \<Rightarrow> alerts_by_programid ss (entry_push programid candid groups))"

record filter_results =
  result_filter_id :: string
  result_filter_name :: string
  passed_at :: real
  annotations :: string

type_synonym results_map = "(i64 \<times> filter_results list) list"

text \<open>What a batch is run with.  \<open>iterate\<close> is the order in which the programs come up.\<close>

record ('x, 'db, 'a) ztf_filters =
  loaded :: "'x loaded_filter list"
  aggregate :: "'x stage list \<Rightarrow> 'db \<Rightarrow> (string, 'x stage list) result"
  annotation_text :: "'x stage \<Rightarrow> (string, string) result"
  now_ts :: "int \<Rightarrow> string \<Rightarrow> real"
  iterate :: "(int \<times> i64 list) list \<Rightarrow> (int \<times> i64 list) list"
  build_alerts :: "results_map \<Rightarrow> 'db \<Rightarrow> (filter_worker_error, 'a list) result"

definition programids :: "'x loaded_filter \<Rightarrow> int list" where
  "programids f = (case loaded_permissions f Ztf of None \<Rightarrow> [] | Some ps \<Rightarrow> ps)"

text \<open>\<open>filters_by_permission\<close>, the ids of the filters with permission for a program.\<close>

definition permitted_ids :: "'x loaded_filter list \<Rightarrow> int \<Rightarrow> string list" where
  "permitted_ids fs programid =
     concat (map (\<lambda>f. map (\<lambda>_. loaded_id f) (filter (\<lambda>p. p = programid) (programids f))) fs)"

definition filters_by_permission :: "'x loaded_filter list \<Rightarrow> int \<Rightarrow> string list option" where
  "filters_by_permission fs programid =
     (case permitted_ids fs programid of [] \<Rightarrow> None | ids \<Rightarrow> Some ids)"

fun add_results ::
  "('x, 'db, 'a) ztf_filters \<Rightarrow> 'x loaded_filter \<Rightarrow> real \<Rightarrow> 'x stage list \<Rightarrow> results_map \<Rightarrow>
   (filter_worker_error, results_map) result" where
  "add_results W f now [] m = Inr m"
| "add_results W f now (d # ds) m =
     and_then (ok_or (Filter_BsonValueAccess ''_id'') (get_i64 ''_id'' d)) (\<lambda>candid.
     and_then (map_err Filter_SerdeJson (annotation_text W d)) (\<lambda>text.
       add_results W f now ds (entry_push candid
         \<lparr>result_filter_id = loaded_id f, result_filter_name = loaded_name f, passed_at = now, annotations = text\<rparr> m)))"

fun run_filters ::
  "('x, 'db, 'a) ztf_filters \<Rightarrow> string list \<Rightarrow> int \<Rightarrow> i64 list \<Rightarrow> 'db \<Rightarrow> 'x loaded_filter list \<Rightarrow> results_map \<Rightarrow>
   (filter_worker_error, results_map) result" where
  "run_filters W ids programid candids db [] m = Inr m"
| "run_filters W ids programid candids db (f # fs) m =
     (if loaded_id f \<notin> set ids then run_filters W ids programid candids db fs m
      else
        and_then (map_err FilterError (run_filter (aggregate W) candids (loaded_pipeline f) db)) (\<lambda>out.
        and_then (if out = [] then Inr m else add_results W f (now_ts W programid (loaded_id f)) out m) (\<lambda>m.
          run_filters W ids programid candids db fs m)))"

fun process_groups ::
  "('x, 'db, 'a) ztf_filters \<Rightarrow> 'db \<Rightarrow> (int \<times> i64 list) list \<Rightarrow> (filter_worker_error, 'a list) result" where
  "process_groups W db [] = Inr []"
| "process_groups W db ((programid, candids) # groups) =
     (case filters_by_permission (loaded W) programid of
        None \<Rightarrow> process_groups W db groups
      | Some ids \<Rightarrow>
          and_then (run_filters W ids programid candids db (loaded W) []) (\<lambda>m.
          and_then (build_alerts W m db) (\<lambda>alerts.
          and_then (process_groups W db groups) (\<lambda>more. Inr (alerts @ more)))))"

definition process_alerts ::
  "('x, 'db, 'a) ztf_filters \<Rightarrow> 'db \<Rightarrow> string list \<Rightarrow> (filter_worker_error, 'a list) result outcome" where
  "process_alerts W db alerts =
     (case alerts_by_programid alerts [] of
        Panics \<Rightarrow> Panics
      | Returns groups \<Rightarrow> Returns (process_groups W db (iterate W groups)))"

section \<open>Grouping\<close>

definition recorded :: "('k \<times> 'v list) list \<Rightarrow> 'k \<Rightarrow> 'v \<Rightarrow> bool" where
  "recorded m k v \<longleftrightarrow> (\<exists>vs. (k, vs) \<in> set m \<and> v \<in> set vs)"

lemma recorded_Nil [simp]: "\<not> recorded [] k v"
  by (simp add: recorded_def)

lemma recorded_push [simp]:
  "recorded (entry_push k v m) k' v' \<longleftrightarrow> k' = k \<and> v' = v \<or> recorded m k' v'"
  unfolding recorded_def by (induction k v m rule: entry_push.induct) auto

lemma keys_push: "set (map fst (entry_push k v m)) = insert k (set (map fst m))"
  by (induction k v m rule: entry_push.induct) auto

lemma distinct_push: "distinct (map fst m) \<Longrightarrow> distinct (map fst (entry_push k v m))"
proof (induction k v m rule: entry_push.induct)
  case (2 k v k' vs kvs)
  then show ?case
    using keys_push [of k v kvs] by auto
qed simp

lemma grouped:
  "alerts_by_programid alerts groups = Returns groups' \<Longrightarrow> distinct (map fst groups) \<Longrightarrow>
   distinct (map fst groups') \<and>
   (\<forall>p c. recorded groups' p c \<longleftrightarrow>
      recorded groups p c \<or> Returns (Some (p, c)) \<in> parse_programid_candid_tuple ` set alerts)"
proof (induction alerts arbitrary: groups)
  case (Cons s ss)
  obtain r where r: "parse_programid_candid_tuple s = Returns r"
    using Cons.prems(1) by (cases "parse_programid_candid_tuple s") auto
  show ?case
  proof (cases r)
    case None
    then show ?thesis
      using Cons r by auto
  next
    case (Some pc)
    obtain p c where "pc = (p, c)" by fastforce
    with Cons.IH [of "entry_push p c groups"] Cons.prems r Some distinct_push [of groups p c] show ?thesis
      by auto
  qed
qed auto

section \<open>Which filters run on what\<close>

lemma set_permitted_ids: "set (permitted_ids fs p) = loaded_id ` {f \<in> set fs. p \<in> set (programids f)}"
  by (auto simp: permitted_ids_def)

lemma filters_by_permission_Some:
  "filters_by_permission fs p = Some ids \<Longrightarrow> set ids = loaded_id ` {f \<in> set fs. p \<in> set (programids f)}"
  unfolding set_permitted_ids [symmetric] filters_by_permission_def by (auto split: list.splits)

lemma filters_by_permission_None:
  "filters_by_permission fs p = None \<longleftrightarrow> (\<forall>f\<in>set fs. p \<notin> set (programids f))"
proof -
  have "filters_by_permission fs p = None \<longleftrightarrow> set (permitted_ids fs p) = {}"
    by (simp add: filters_by_permission_def split: list.split)
  then show ?thesis
    unfolding set_permitted_ids by auto
qed

definition result_of ::
  "('x, 'db, 'a) ztf_filters \<Rightarrow> int \<Rightarrow> 'x loaded_filter \<Rightarrow> 'x stage \<Rightarrow> i64 \<Rightarrow> filter_results \<Rightarrow> bool" where
  "result_of W programid f d candid r \<longleftrightarrow>
     get_i64 ''_id'' d = Some candid \<and>
     (\<exists>text. annotation_text W d = Inr text \<and>
        r = \<lparr>result_filter_id = loaded_id f, result_filter_name = loaded_name f,
             passed_at = now_ts W programid (loaded_id f), annotations = text\<rparr>)"

lemma add_results_exact:
  "add_results W f (now_ts W p (loaded_id f)) ds m = Inr m' \<Longrightarrow>
   recorded m' c r \<longleftrightarrow> recorded m c r \<or> (\<exists>d\<in>set ds. result_of W p f d c r)"
proof (induction ds arbitrary: m)
  case (Cons d ds)
  from Cons.prems obtain candid annots where d: "get_i64 ''_id'' d = Some candid" "annotation_text W d = Inr annots" and
    rest: "add_results W f (now_ts W p (loaded_id f)) ds (entry_push candid
      \<lparr>result_filter_id = loaded_id f, result_filter_name = loaded_name f,
       passed_at = now_ts W p (loaded_id f), annotations = annots\<rparr> m) = Inr m'"
    by (auto simp: and_then_Inr map_err_Inr ok_or_def split: option.splits)
  from Cons.IH [OF rest] d show ?case
    by (auto simp: result_of_def)
qed simp

lemma run_filters_exact:
  "run_filters W ids p candids db fs m = Inr m' \<Longrightarrow>
   recorded m' c r \<longleftrightarrow> recorded m c r \<or>
     (\<exists>f\<in>set fs. loaded_id f \<in> set ids \<and>
        (\<exists>out. run_filter (aggregate W) candids (loaded_pipeline f) db = Inr out \<and>
           (\<exists>d\<in>set out. result_of W p f d c r)))"
proof (induction fs arbitrary: m)
  case (Cons f fs)
  show ?case
  proof (cases "loaded_id f \<in> set ids")
    case True
    with Cons.prems obtain out m1 where out: "run_filter (aggregate W) candids (loaded_pipeline f) db = Inr out" and
      m1: "(if out = [] then Inr m else add_results W f (now_ts W p (loaded_id f)) out m) = Inr m1" and
      rest: "run_filters W ids p candids db fs m1 = Inr m'"
      by (auto simp: and_then_Inr map_err_Inr)
    have "recorded m1 c r \<longleftrightarrow> recorded m c r \<or> (\<exists>d\<in>set out. result_of W p f d c r)"
      using m1 add_results_exact [of W f p out m m1 c r] by (auto split: if_splits)
    with Cons.IH [OF rest] out True show ?thesis
      by auto
  qed (use Cons in auto)
qed simp

text \<open>
  C17: What a program's alerts are matched by: a result is recorded for an alert id exactly if some
  loaded filter with permission for the program ran on the program's batch and returned a
  document with that id, and it carries that filter's id and the document's annotations.
\<close>

theorem results_are_of_permitted_filters:
  assumes "distinct (map loaded_id (loaded W))" "filters_by_permission (loaded W) p = Some ids"
    and "run_filters W ids p candids db (loaded W) [] = Inr m"
  shows "recorded m c r \<longleftrightarrow>
    (\<exists>f\<in>set (loaded W). p \<in> set (programids f) \<and>
       (\<exists>out. run_filter (aggregate W) candids (loaded_pipeline f) db = Inr out \<and>
          (\<exists>d\<in>set out. result_of W p f d c r)))"
proof -
  have "loaded_id f \<in> set ids \<longleftrightarrow> p \<in> set (programids f)" if "f \<in> set (loaded W)" for f
    using that assms(1) unfolding filters_by_permission_Some [OF assms(2)] distinct_map inj_on_def by blast
  with run_filters_exact [OF assms(3), of c r] show ?thesis
    by auto
qed

text \<open>One program with one filter, whose aggregation returns its match stage as a document.\<close>

definition ztf_demo :: "(unit, unit, i64) ztf_filters" where
  "ztf_demo = \<lparr>loaded = [\<lparr>loaded_id = ''f'', loaded_name = ''demo'', loaded_permissions = (\<lambda>_. Some [1]),
       loaded_pipeline = [first_match]\<rparr>],
     aggregate = (\<lambda>_ _. Inr [[(''_id'', BOther (Int64 7))]]), annotation_text = (\<lambda>_. Inr ''{}''),
     now_ts = (\<lambda>_ _. 0), iterate = (\<lambda>groups. groups), build_alerts = (\<lambda>m _. Inr (map fst m))\<rparr>"

theorem results_are_of_permitted_filters_witness:
  "\<forall>c r. recorded [(7, [\<lparr>result_filter_id = ''f'', result_filter_name = ''demo'', passed_at = 0, annotations = ''{}''\<rparr>])] c r \<longleftrightarrow>
    (\<exists>f\<in>set (loaded ztf_demo). 1 \<in> set (programids f) \<and>
       (\<exists>out. run_filter (aggregate ztf_demo) [7] (loaded_pipeline f) () = Inr out \<and>
          (\<exists>d\<in>set out. result_of ztf_demo 1 f d c r)))"
  by (intro allI, rule results_are_of_permitted_filters [where ids = "[''f'']"])
    (simp_all add: ztf_demo_def filters_by_permission_def permitted_ids_def programids_def run_filter_def
      set_candids_def first_match_def and_then_def map_err_def ok_or_def get_i64_def)

section \<open>What the enrichment stage queues\<close>

text \<open>\<open>format!("{},{}", item.programid, item.candid)\<close>, as the enrichment stage hands an alert on.\<close>

definition queue_text :: "int \<Rightarrow> i64 \<Rightarrow> string" where
  "queue_text programid candid = int_text programid @ '','' @ int_text (sint candid)"

lemma parse_int_text: 
  assumes "lo \<le> i" "i \<le> hi"
  shows "parse_int lo hi (int_text i) = Some i"
proof (cases "i < 0")
  case True
  then show ?thesis
    using assms dec_digits [of "nat (- i)"] by (simp add: parse_int_def int_text_def)
next
  case False
  obtain c cs where c: "dec (nat i) = c # cs" "is_digit c"
    using dec_first_digit by blast
  then show ?thesis
    using assms False dec_digits [of "nat i"] not_sign [of c] by (simp add: parse_int_def int_text_def)
qed

lemma parse_sint: "parse_i64 (int_text (sint (c :: i64))) = Some (sint c)"
  unfolding parse_i64_def
  by (rule parse_int_text) (use sint_range_size [of c] in \<open>simp_all add: word_size\<close>)

lemma dec_short: "10 \<le> n \<Longrightarrow> \<exists>c d cs. dec n = c # d # cs \<and> is_digit c \<and> is_digit d"
proof -
  assume "10 \<le> n"
  then have "dec n = dec (n div 10) @ [char_of (48 + n mod 10)]"
    by (simp add: dec.simps [of n])
  moreover obtain c cs where "dec (n div 10) = c # cs"
    using dec_first_digit [of "n div 10"] by auto
  ultimately have "\<exists>c d cs. dec n = c # d # cs"
    by (cases cs) auto
  with dec_digits [of n] show ?thesis
    by auto
qed

abbreviation ascii :: "string \<Rightarrow> bool" where
  "ascii s \<equiv> list_all (\<lambda>c. (of_char c :: nat) < 0x80) s"

lemma ascii_boundary: "ascii s \<Longrightarrow> i \<le> length s \<Longrightarrow> is_char_boundary s i"
  by (cases "i < length s") (auto simp: is_char_boundary_def list_all_length)

lemma digits_ascii: "list_all is_digit s \<Longrightarrow> ascii s"
  by (induction s) (auto simp: is_digit_def)

lemma queue_text_ascii: "ascii (queue_text p c)"
  using dec_digits digits_ascii by (auto simp: queue_text_def int_text_def)

lemma int_text_nonempty: "int_text i \<noteq> []"
  using dec_digits by (auto simp: int_text_def)

lemma queue_text_boundary: "i \<le> 2 \<Longrightarrow> is_char_boundary (queue_text p c) i \<and> i \<le> length (queue_text p c)"
  using ascii_boundary [OF queue_text_ascii, of i p c] int_text_nonempty [of p] int_text_nonempty [of "sint c"]
  by (auto simp: queue_text_def Suc_le_eq simp flip: length_greater_0_conv)

lemma parse_queue_text:
  "parse_programid_candid_tuple (queue_text p c) = 
     (if queue_text p c ! 1 \<noteq> CHR '','' then Returns None
      else case (parse_i32 (take 1 (queue_text p c)), parse_i64 (drop 2 (queue_text p c))) of
             (Some programid, Some candid) \<Rightarrow> Returns (Some (programid, word_of_int candid))
           | _ \<Rightarrow> Returns None)"
proof -
  have "2 \<le> length (queue_text p c)" "is_char_boundary (queue_text p c) 1" "is_char_boundary (queue_text p c) 2"
    using queue_text_boundary [of 1 p c] queue_text_boundary [of 2 p c] by auto
  then have "(length (queue_text p c) < 1 \<or> \<not> is_char_boundary (queue_text p c) 1 \<or>
      length (queue_text p c) < 2 \<or> \<not> is_char_boundary (queue_text p c) 2) = False"
    by auto
  then show ?thesis
    unfolding parse_programid_candid_tuple_def by (simp only: if_False)
qed

lemma second_is_digit:
  assumes "\<not> (0 \<le> p \<and> p \<le> 9)"
  shows "is_digit (int_text p ! 1) \<and> 2 \<le> length (int_text p)"
proof (cases "p < 0")
  case True
  then show ?thesis
    using dec_first_digit [of "nat (- p)"] by (auto simp: int_text_def)
next
  case False
  then have "10 \<le> nat p"
    using assms by linarith
  with False show ?thesis
    using dec_short [of "nat p"] by (auto simp: int_text_def)
qed

text \<open>
  The filter stage reads back what the enrichment stage queues, for every alert id, exactly
  when the program id is a single digit; a text with any other program id is refused (the alert is
  dropped with a warning) and never panics.
\<close>

theorem queue_text_round_trip:
  "parse_programid_candid_tuple (queue_text programid candid) =
     Returns (if 0 \<le> programid \<and> programid \<le> 9 then Some (programid, candid) else None)"
proof (cases "0 \<le> programid \<and> programid \<le> 9")
  case True
  then have "nat programid < 10" by linarith
  then have one: "int_text programid = [char_of (48 + nat programid)]"
    using True by (simp add: int_text_def dec.simps [of "nat programid"])
  moreover have "parse_i32 (int_text programid) = Some programid"
    unfolding parse_i32_def by (rule parse_int_text) (use True in simp_all)
  ultimately show ?thesis
    using True parse_sint [of candid] unfolding parse_queue_text by (simp add: queue_text_def)
next
  case False
  then have "queue_text programid candid ! 1 \<noteq> CHR '',''"
    using second_is_digit [of programid] not_sign by (auto simp: queue_text_def nth_append)
  with False show ?thesis
    unfolding parse_queue_text by simp
qed

section \<open>One filter stops the worker\<close>

text \<open>A filter cannot be used on a batch: its aggregation fails, or it returns a document that has no
  alert id.\<close>

definition breaks ::
  "('x, 'db, 'a) ztf_filters \<Rightarrow> 'x loaded_filter \<Rightarrow> i64 list \<Rightarrow> 'db \<Rightarrow> bool" where
  "breaks W f candids db \<longleftrightarrow>
     (case run_filter (aggregate W) candids (loaded_pipeline f) db of
        Inl e \<Rightarrow> True
      | Inr out \<Rightarrow> \<exists>d\<in>set out. get_i64 ''_id'' d = None)"

lemma add_results_breaks:
  "d \<in> set ds \<Longrightarrow> get_i64 ''_id'' d = None \<Longrightarrow> \<exists>e. add_results W f now ds m = Inl e"
proof (induction ds arbitrary: m)
  case (Cons d' ds)
  then show ?case
    by (cases "get_i64 ''_id'' d'"; cases "annotation_text W d'")
      (auto simp: and_then_def ok_or_def map_err_def)
qed simp

lemma run_filters_breaks:
  "f \<in> set fs \<Longrightarrow> loaded_id f \<in> set ids \<Longrightarrow> breaks W f candids db \<Longrightarrow>
   \<exists>e. run_filters W ids p candids db fs m = Inl e"
proof (induction fs arbitrary: m)
  case (Cons g fs)
  show ?case
  proof (cases "f = g")
    case True
    show ?thesis
    proof (cases "run_filter (aggregate W) candids (loaded_pipeline g) db")
      case (Inl e)
      with True Cons.prems show ?thesis
        by (simp add: and_then_def map_err_def)
    next
      case (Inr out)
      then obtain d where "d \<in> set out" "get_i64 ''_id'' d = None"
        using True Cons.prems by (auto simp: breaks_def)
      with add_results_breaks [of d out W g "now_ts W p (loaded_id g)" m] Inr True Cons.prems show ?thesis
        by (auto simp: and_then_def map_err_def)
    qed
  next
    case False
    with Cons have "\<exists>e. run_filters W ids p candids db fs m' = Inl e" for m'
      by simp
    then show ?thesis
      by (auto simp: and_then_def split: sum.splits)
  qed
qed simp

lemma process_groups_breaks:
  "(p, candids) \<in> set groups \<Longrightarrow> f \<in> set (loaded W) \<Longrightarrow> p \<in> set (programids f) \<Longrightarrow>
   breaks W f candids db \<Longrightarrow> \<exists>e. process_groups W db groups = Inl e"
proof (induction groups)
  case (Cons g groups)
  obtain p' candids' where g: "g = (p', candids')" by fastforce
  show ?case
  proof (cases "(p, candids) = g")
    case True
    then obtain ids where "filters_by_permission (loaded W) p = Some ids"
      using Cons.prems filters_by_permission_None by (metis not_Some_eq)
    moreover from this have "\<exists>e. run_filters W ids p candids db (loaded W) [] = Inl e"
      using filters_by_permission_Some [of "loaded W" p ids] Cons.prems by (intro run_filters_breaks) auto
    ultimately show ?thesis
      using True by (auto simp: and_then_def)
  next
    case False
    with Cons obtain e where "process_groups W db groups = Inl e" by auto
    then show ?thesis
      using g by (auto simp: and_then_def split: option.splits sum.splits)
  qed
qed simp

text \<open>A filter stage that runs the filters of its worker's state on the database.\<close>

definition runs_filters ::
  "('r, 's, 'k, 'a, 'd) filter_setup \<Rightarrow> ('x, 'db, 'a) ztf_filters \<Rightarrow> 'db \<Rightarrow> 's \<Rightarrow> string list \<Rightarrow> bool" where
  "runs_filters F W db w alerts \<longleftrightarrow> process_alerts W db alerts = Returns (fst (filter_alerts F alerts w))"

text \<open>
  A single filter stops the worker for all of them.  If a filter with permission for a program
  fails in the database, or returns a document without an alert id (which a validated pipeline can:
  a projection may set \<open>_id\<close> to false), the worker ends with an error and the popped batch is in no
  queue any more.
\<close>

theorem one_filter_stops_the_worker:
  assumes "redis_store (f_server F)" "f_countdown st \<noteq> 0"
    and "\<not> next_filter_refresh st \<le> fst (clock F (turns st))"
    and "pop_as (f_server F) (f_input_queue F) BATCH_SIZE (read_texts F) (f_connection st) = (Inr alerts, con)"
    and "runs_filters F W db (f_worker st) alerts" "alerts_by_programid alerts [] = Returns groups"
    and "set (iterate W groups) = set groups" "(p, candids) \<in> set groups"
    and "f \<in> set (loaded W)" "p \<in> set (programids f)" "breaks W f candids db"
    and "filter_loop F (Suc n) st = (r, st')"
  shows "\<exists>e. r = Some (Inl e) \<and>
    read_texts F (take BATCH_SIZE (rev (lists (f_server F) (f_connection st) (f_input_queue F)))) = Inr alerts \<and>
    lists (f_server F) (f_connection st') =
      popped (f_input_queue F) BATCH_SIZE (lists (f_server F) (f_connection st))"
proof -
  obtain vs where pop: "rpop (f_server F) (f_input_queue F) BATCH_SIZE (f_connection st) = (Inr vs, con)"
    and rd: "read_texts F vs = Inr alerts"
    using assms(4) by (auto simp: pop_as_def split: prod.splits sum.splits)
  have "alerts \<noteq> []"
    using assms(6,8) by auto
  obtain e w where e: "filter_alerts F alerts (f_worker st) = (Inl e, w)"
    using process_groups_breaks [of p candids "iterate W groups" f W db] assms(5-11)
    by (cases "filter_alerts F alerts (f_worker st)") (auto simp: runs_filters_def process_alerts_def)
  have "filter_turn F st = (Finished (Inl e), st\<lparr>turns := turns st + 1, f_connection := con,
      f_countdown := f_countdown st - length alerts, f_worker := w\<rparr>)"
    using assms(2) e \<open>alerts \<noteq> []\<close>
      retry_valkey_at_once [where op = "pop_as (f_server F) (f_input_queue F) BATCH_SIZE (read_texts F)", OF assms(4)]
    by (simp add: filter_turn_def refresh_not_due [OF assms(3)] take_batch_def Let_def)
  then have "r = Some (Inl e) \<and> f_connection st' = con"
    using assms(12) by auto
  then show ?thesis
    using redis_store.rpop_law [OF assms(1) pop] rd by (auto simp: applied_def)
qed

definition ztf_broken :: "(unit, unit, unit) ztf_filters" where
  "ztf_broken = \<lparr>loaded = [\<lparr>loaded_id = ''f'', loaded_name = ''demo'', loaded_permissions = (\<lambda>_. Some [1]),
       loaded_pipeline = [first_match]\<rparr>],
     aggregate = (\<lambda>_ _. Inr [[(''objectId'', BString ''ZTF1'')]]), annotation_text = (\<lambda>_. Inr ''{}''),
     now_ts = (\<lambda>_ _. 0), iterate = (\<lambda>groups. groups), build_alerts = (\<lambda>m _. Inr [])\<rparr>"

definition broken_setup :: "(lists, unit, unit, unit, unit) filter_setup" where
  "broken_setup = no_filters_setup\<lparr>filter_alerts := (\<lambda>alerts w.
     case process_alerts ztf_broken () alerts of Panics \<Rightarrow> (Inr [], w) | Returns r \<Rightarrow> (r, w))\<rparr>"

definition broken_worker :: "(lists, unit, unit) filter_state" where
  "broken_worker = idle_filter_worker\<lparr>f_countdown := 5,
     f_connection := (\<lambda>_. [])(''q'' := [map (\<lambda>c. of_char c) ''1,7''])\<rparr>"

theorem one_filter_stops_the_worker_witness:
  "\<exists>e. fst (filter_loop broken_setup (Suc 0) broken_worker) = Some (Inl e) \<and>
    read_texts broken_setup (take BATCH_SIZE (rev (lists (f_server broken_setup) (f_connection broken_worker)
      (f_input_queue broken_setup)))) = Inr [''1,7''] \<and>
    lists (f_server broken_setup) (f_connection (snd (filter_loop broken_setup (Suc 0) broken_worker))) =
      popped (f_input_queue broken_setup) BATCH_SIZE (lists (f_server broken_setup) (f_connection broken_worker))"
proof -
  have groups: "alerts_by_programid [''1,7''] [] = Returns [(1, [7])]"
    by (simp add: parse_programid_candid_tuple_def is_char_boundary_def parse_i32_def parse_i64_def parse_int_def
        is_digit_def digits_value_def)
  have pop: "pop_as (f_server broken_setup) (f_input_queue broken_setup) BATCH_SIZE (read_texts broken_setup)
      (f_connection broken_worker) = (Inr [''1,7''], popped ''q'' BATCH_SIZE (f_connection broken_worker))"
    by (simp add: pop_as_def broken_setup_def broken_worker_def no_filters_setup_def idle_filter_worker_def
        memory_redis_def BATCH_SIZE_def char_of_def bit_0)
  have runs: "runs_filters broken_setup ztf_broken () (f_worker broken_worker) [''1,7'']"
  proof -
    have "process_alerts ztf_broken () [''1,7''] = Returns (process_groups ztf_broken () (iterate ztf_broken [(1, [7])]))"
      unfolding process_alerts_def groups by simp
    then show ?thesis
      by (simp add: runs_filters_def broken_setup_def del: alerts_by_programid.simps)
  qed
  show ?thesis
    by (rule one_filter_stops_the_worker [OF _ _ _ pop runs groups _ _ _ _ _ prod.collapse [symmetric],
          where p = 1 and candids = "[7]" and f = "hd (loaded ztf_broken)"])
      (use memory.redis_store_axioms in \<open>simp_all add: broken_setup_def broken_worker_def no_filters_setup_def
        idle_filter_worker_def ztf_broken_def programids_def breaks_def run_filter_def set_candids_def
        first_match_def and_then_def map_err_def get_i64_def\<close>)
qed

end
