(* ===== verification/Api_Catalogs.thy ===== *)
theory Api_Catalogs
  imports Filter_Loading Api_Response
begin

text \<open>
  Who may read which collection (\<open>src/src/api/catalogs.rs\<close>, \<open>src/src/api/routes/users.rs\<close>): the
  database also holds accounts, sessions and other bookkeeping, and watchlists that belong to
  single users.  The list of the collections that exist is the database's answer.
\<close>

section \<open>Accounts and the configured catalogs\<close>

record user =
  uid :: string
  login :: string
  email :: string
  password :: string
  is_admin_user :: bool
  watchlist_access :: "string list"

text \<open>Of a crossmatch entry, its name and the collection it reads where that differs.\<close>

record xmatch_catalog =
  catalog :: string
  collection_override :: "string option"

type_synonym crossmatch_config = "survey \<Rightarrow> xmatch_catalog list option"

definition collection_name :: "xmatch_catalog \<Rightarrow> string" where
  "collection_name c = (case collection_override c of None \<Rightarrow> catalog c | Some n \<Rightarrow> n)"

definition PROTECTED_COLLECTION_NAMES :: "string list" where
  "PROTECTED_COLLECTION_NAMES =
     [''filters'', ''babamul_users'', ''users'', ''stats'', ''babamul_oauth_states'',
      ''babamul_pending_identities'', ''locks'', ''catalog_state'']"

definition SURVEY_COLLECTION_SUFFIXES :: "string list" where
  "SURVEY_COLLECTION_SUFFIXES = [''alerts'', ''alerts_aux'', ''alerts_cutouts'']"

definition SURVEYS :: "survey list" where "SURVEYS = [Ztf, Lsst, Decam, Winter]"

section \<open>Access\<close>

definition can_access_catalog :: "user \<Rightarrow> string \<Rightarrow> bool" where
  "can_access_catalog u name \<longleftrightarrow>
     \<not> prefix WATCHLIST_PREFIX name \<or> is_admin_user u \<or> list_ex (\<lambda>w. w = name) (watchlist_access u)"

definition is_safe_catalog_name :: "string \<Rightarrow> bool" where
  "is_safe_catalog_name name \<longleftrightarrow>
     name \<noteq> [] \<and> \<not> prefix ''system.'' name \<and> name \<notin> set PROTECTED_COLLECTION_NAMES"

definition is_valid_watchlist_name :: "string \<Rightarrow> bool" where
  "is_valid_watchlist_name name \<longleftrightarrow> prefix WATCHLIST_PREFIX name \<and> is_safe_catalog_name name"

definition collection_exists :: "(mongo_error, string list) result \<Rightarrow> string \<Rightarrow> bool" where
  "collection_exists listed name = (case listed of Inr names \<Rightarrow> list_ex (\<lambda>n. n = name) names | Inl _ \<Rightarrow> False)"

definition is_catalog_name_visible :: "string \<Rightarrow> user option \<Rightarrow> bool" where
  "is_catalog_name_visible name user =
     (if \<not> is_safe_catalog_name name then False
      else case user of Some u \<Rightarrow> can_access_catalog u name | None \<Rightarrow> \<not> prefix WATCHLIST_PREFIX name)"

definition survey_collection_suffix :: "string \<Rightarrow> string option" where
  "survey_collection_suffix name =
     find_map (\<lambda>survey.
       case strip_prefix (survey_as_str survey) name of None \<Rightarrow> None
       | Some rest \<Rightarrow>
           (case strip_prefix ''_'' rest of None \<Rightarrow> None
            | Some sfx \<Rightarrow> if sfx \<in> set SURVEY_COLLECTION_SUFFIXES then Some sfx else None)) SURVEYS"

definition is_reference_catalog :: "crossmatch_config \<Rightarrow> string \<Rightarrow> bool" where
  "is_reference_catalog crossmatch name \<longleftrightarrow>
     \<not> prefix WATCHLIST_PREFIX name \<and>
     list_ex (\<lambda>c. collection_name c = name) (concat (List.map_filter crossmatch SURVEYS))"

definition is_cone_searchable :: "crossmatch_config \<Rightarrow> string \<Rightarrow> bool" where
  "is_cone_searchable crossmatch name \<longleftrightarrow>
     prefix WATCHLIST_PREFIX name \<or>
     survey_collection_suffix name \<in> {Some ''alerts'', Some ''alerts_aux''} \<or>
     is_reference_catalog crossmatch name"

definition is_catalog_queryable :: "crossmatch_config \<Rightarrow> user \<Rightarrow> string \<Rightarrow> bool" where
  "is_catalog_queryable crossmatch u name \<longleftrightarrow>
     is_catalog_name_visible name (Some u) \<and>
     (is_admin_user u \<or> prefix WATCHLIST_PREFIX name \<or> survey_collection_suffix name \<noteq> None \<or>
      is_reference_catalog crossmatch name)"

definition catalog_accessible ::
  "crossmatch_config \<Rightarrow> (mongo_error, string list) result \<Rightarrow> user \<Rightarrow> string \<Rightarrow> bool" where
  "catalog_accessible crossmatch listed u name \<longleftrightarrow>
     is_catalog_queryable crossmatch u name \<and> collection_exists listed name"

definition catalog_exists :: "(mongo_error, string list) result \<Rightarrow> string \<Rightarrow> bool" where
  "catalog_exists listed name \<longleftrightarrow> is_safe_catalog_name name \<and> collection_exists listed name"

section \<open>What access comes to\<close>

lemma survey_collection_suffix_Some:
  "survey_collection_suffix name \<noteq> None \<longleftrightarrow>
   (\<exists>survey\<in>set SURVEYS. \<exists>sfx\<in>set SURVEY_COLLECTION_SUFFIXES. name = survey_as_str survey @ ''_'' @ sfx)"
  unfolding survey_collection_suffix_def find_map_None
  by (auto simp: strip_prefix_def prefix_def split: option.splits if_splits) blast

lemma queryable_iff:
  "is_catalog_queryable crossmatch u name \<longleftrightarrow>
     name \<noteq> [] \<and> \<not> prefix ''system.'' name \<and> name \<notin> set PROTECTED_COLLECTION_NAMES \<and>
     (is_admin_user u \<or>
      (if prefix ''watchlist_'' name then name \<in> set (watchlist_access u)
       else (\<exists>survey\<in>set SURVEYS. \<exists>sfx\<in>set SURVEY_COLLECTION_SUFFIXES.
               name = survey_as_str survey @ ''_'' @ sfx) \<or>
            (\<exists>survey\<in>set SURVEYS. \<exists>cs. crossmatch survey = Some cs \<and>
               (\<exists>c\<in>set cs. collection_name c = name))))"
proof -
  have ref: "is_reference_catalog crossmatch name \<longleftrightarrow> \<not> prefix ''watchlist_'' name \<and>
      (\<exists>survey\<in>set SURVEYS. \<exists>cs. crossmatch survey = Some cs \<and> (\<exists>c\<in>set cs. collection_name c = name))"
    by (auto simp: is_reference_catalog_def WATCHLIST_PREFIX_def list_ex_iff List.map_filter_def SURVEYS_def)
  show ?thesis
    unfolding is_catalog_queryable_def is_catalog_name_visible_def is_safe_catalog_name_def
      can_access_catalog_def survey_collection_suffix_Some ref WATCHLIST_PREFIX_def list_ex_iff
    by auto
qed

text \<open>
  The collections a user can query are exactly these: never a bookkeeping or system collection,
  not even for an admin; any other for an admin; for another user a watchlist only where the user
  has been given access to it by name, and otherwise only the collections of a survey and the
  catalogs that alerts are crossmatched with.
\<close>

theorem queryable_collections:
  "is_catalog_queryable crossmatch u name \<longleftrightarrow>
     name \<noteq> [] \<and> \<not> prefix ''system.'' name \<and> name \<notin> set PROTECTED_COLLECTION_NAMES \<and>
     (is_admin_user u \<or>
      (if prefix ''watchlist_'' name then name \<in> set (watchlist_access u)
       else (\<exists>survey\<in>set SURVEYS. \<exists>sfx\<in>set SURVEY_COLLECTION_SUFFIXES.
               name = survey_as_str survey @ ''_'' @ sfx) \<or>
            (\<exists>survey\<in>set SURVEYS. \<exists>cs. crossmatch survey = Some cs \<and>
               (\<exists>c\<in>set cs. collection_name c = name))))"
  by (rule queryable_iff)

end
