(* ===== verification/Filter_Routes.thy ===== *)
theory Filter_Routes
  imports Api_Catalogs
begin

text \<open>
  The routes by which users keep their filters (\<open>src/src/api/routes/filters.rs\<close>): a filter is
  created inactive, versions are added to it, and it is activated after a check that it does not
  match too many alerts of the reference nights.  A route that changes a filter reads it, checks
  the request, and then writes; the two halves are definitions of their own, since the writes of
  other requests can fall between them.  The alerts, the JSON writer, the calendar and the texts
  of dates and percentages are parameters.
\<close>

section \<open>What the routes use\<close>

text \<open>\<open>start_pipeline\<close> is an aggregation on a survey's alerts up to its cursor.\<close>

record ('q, 'x) filter_services =
  library :: "'x filter_library"
  parse_stages :: "string \<Rightarrow> (string, json list) result"
  json_text :: "json list \<Rightarrow> (string, string) result"
  latest_alert :: "survey \<Rightarrow> 'q \<Rightarrow> (string, 'x stage option) result"
  start_pipeline :: "survey \<Rightarrow> 'x stage list \<Rightarrow> 'q \<Rightarrow> (string, (string, 'x stage) result list) result"
  count_documents :: "survey \<Rightarrow> 'x stage \<Rightarrow> 'q \<Rightarrow> (string, nat) result"
  night_jd_window :: "survey \<Rightarrow> int \<Rightarrow> real \<times> real"
  date_text :: "int \<Rightarrow> string"
  percent_text :: "nat \<Rightarrow> nat \<Rightarrow> string"

text \<open>Dates are counted in days.\<close>

record filter_worker_config =
  max_match_rate :: "nat option"
  reference_night :: "int option"
  reference_window_days :: nat

record api_config =
  crossmatch :: crossmatch_config
  filter_workers :: "survey \<Rightarrow> filter_worker_config option"

fun filter_error_text :: "filter_error \<Rightarrow> string" where
  "filter_error_text (BsonValueAccess _) = ''value access error from bson''"
| "filter_error_text (BsonSerialization _) = ''serialization error from bson''"
| "filter_error_text (Filter_mongodb _) = ''error from mongodb''"
| "filter_error_text (Filter_serde _) = ''error from serde_json''"
| "filter_error_text InvalidFilterPermissions = ''invalid filter permissions''"
| "filter_error_text FilterNotFound = ''filter not found in database''"
| "filter_error_text FilterPipelineError = ''filter pipeline could not be parsed''"
| "filter_error_text (InvalidFilterPipeline m) = ''invalid filter pipeline: '' @ m"
| "filter_error_text InvalidFilterId = ''invalid filter id''"
| "filter_error_text (FilterExecutionError _) = ''error during filter execution''"
| "filter_error_text (InvalidWatchlist n) =
     ''invalid watchlist catalog name '' @ [CHR 39] @ n @ [CHR 39] @ '': must start with '' @ [CHR 39] @ WATCHLIST_PREFIX @ [CHR 39]"

fun survey_debug :: "survey \<Rightarrow> string" where
  "survey_debug Ztf = ''Ztf''"
| "survey_debug Lsst = ''Lsst''"
| "survey_debug Decam = ''Decam''"
| "survey_debug Winter = ''Winter''"

section \<open>Checks of a filter\<close>

definition validate_watchlist ::
  "(mongo_error, string list) result \<Rightarrow> string \<Rightarrow> survey \<Rightarrow> user \<Rightarrow> api_config \<Rightarrow> (string, unit) result"
where
  "validate_watchlist listed name survey u cfg =
     (if \<not> prefix WATCHLIST_PREFIX name
      then Inl (''watchlist catalog name must start with '' @ [CHR 39] @ WATCHLIST_PREFIX @ [CHR 39])
      else if \<not> catalog_accessible (crossmatch cfg) listed u name
      then Inl (''watchlist '' @ [CHR 39] @ name @ [CHR 39] @ '' does not exist or is not accessible to the user'')
      else if \<not> (case crossmatch cfg survey of None \<Rightarrow> False | Some cs \<Rightarrow> list_ex (\<lambda>c. catalog c = name) cs)
      then Inl (''watchlist '' @ [CHR 39] @ name @ [CHR 39] @ '' is not configured for crossmatch on survey ''
                @ survey_debug survey @ ''.'')
      else Inr ())"

text \<open>The pipeline on the latest alert; without one the pipeline runs with its empty list of ids.\<close>

definition set_match :: "'x bval \<Rightarrow> 'x stage list \<Rightarrow> (filter_error, 'x stage list) result" where
  "set_match condition pipeline =
     (case pipeline of
        [] \<Rightarrow> Inl (InvalidFilterPipeline ''pipeline must have at least one stage'')
      | first # rest \<Rightarrow>
          if map_of first ''$match'' = None
          then Inl (InvalidFilterPipeline ''first stage of pipeline must be a $match stage'')
          else Inr (obj_insert ''$match'' condition first # rest))"

definition candid_text :: "i64 option \<Rightarrow> string" where
  "candid_text c = (case c of None \<Rightarrow> ''None'' | Some i \<Rightarrow> ''Some('' @ int_text (sint i) @ '')'')"

definition run_test_pipeline ::
  "('q, 'x) filter_services \<Rightarrow> survey \<Rightarrow> 'x stage list \<Rightarrow> 'q \<Rightarrow> (filter_error, unit) result"
where
  "run_test_pipeline S survey pipeline q =
     and_then (map_err Filter_mongodb (latest_alert S survey q)) (\<lambda>found.
     and_then (case found of
         None \<Rightarrow> Inr None
       | Some d \<Rightarrow> (case get_i64 ''_id'' d of
             Some i \<Rightarrow> Inr (Some i)
           | None \<Rightarrow> Inl (FilterExecutionError
               ''Document missing _id field or _id is not an i64. Could not determine latest candid.''))) (\<lambda>candid.
     and_then (case candid of
         None \<Rightarrow> Inr pipeline
       | Some i \<Rightarrow> set_match (BDocument [(''_id'', BOther (Int64 i))]) pipeline) (\<lambda>pipeline.
     case start_pipeline S survey pipeline q of
       Inr _ \<Rightarrow> Inr ()
     | Inl e \<Rightarrow> Inl (FilterExecutionError (''failed to run test filter on alert with candid '' @ candid_text candid @ '': '' @ e)))))"

definition build_and_test_filter_version ::
  "('q, 'x) filter_services \<Rightarrow> survey \<Rightarrow> json list \<Rightarrow> permissions \<Rightarrow> 'q \<Rightarrow> (filter_error, unit) result"
where
  "build_and_test_filter_version S survey pipeline perms q =
     and_then (reject_unknown_candidate_fields (known_candidate_field (library S) survey) pipeline survey) (\<lambda>_.
     and_then (build_filter_pipeline (to_document (library S)) pipeline perms survey) (\<lambda>built.
       run_test_pipeline S survey built q))"

section \<open>The activation check\<close>

definition count_alerts_in_jd_window ::
  "('q, 'x) filter_services \<Rightarrow> survey \<Rightarrow> real \<Rightarrow> real \<Rightarrow> int list option \<Rightarrow> 'q \<Rightarrow> (string, nat) result"
where
  "count_alerts_in_jd_window S survey start_jd end_jd programids q =
     (let window = [(''candidate.jd'', BDocument [(''$gte'', BOther (Double start_jd)), (''$lt'', BOther (Double end_jd))])];
          condition = (if survey = Ztf
             then (case programids of
                     Some ps \<Rightarrow> obj_insert ''candidate.programid'' (BDocument [(''$in'', BArray (map BInt ps))]) window
                   | None \<Rightarrow> window)
             else window)
      in count_documents S survey condition q)"

definition matched_count :: "(string, 'x stage) result list \<Rightarrow> (string, int) result" where
  "matched_count cursor =
     (case cursor of
        [] \<Rightarrow> Inr 0
      | Inl e # _ \<Rightarrow> Inl (''failed to read filter result count: '' @ e)
      | Inr d # _ \<Rightarrow>
          Inr (case map_of d ''count'' of
                 Some (BOther (Int32 c)) \<Rightarrow> c
               | Some (BOther (Int64 c)) \<Rightarrow> sint c
               | _ \<Rightarrow> 0))"

text \<open>\<open>(total as f64 * max_match_rate as f64 / 100.0) as i64\<close>, which is exact for any accessible below
  $2^{46}$.\<close>

definition max_allowed :: "nat \<Rightarrow> nat \<Rightarrow> int" where
  "max_allowed accessible rate = int (accessible * rate div 100)"

definition activation_programids :: "survey \<Rightarrow> permissions \<Rightarrow> (string, int list option) result" where
  "activation_programids survey perms =
     (if survey \<in> set SURVEYS_REQUIRING_PERMISSIONS
      then (case perms survey of
              Some ps \<Rightarrow> if ps \<noteq> [] then Inr (Some ps)
                         else Inl (''filter has no permissions defined for survey '' @ survey_as_str survey)
            | None \<Rightarrow> Inl (''filter has no permissions defined for survey '' @ survey_as_str survey))
      else Inr None)"

definition nights_text :: "('q, 'x) filter_services \<Rightarrow> int \<Rightarrow> int \<Rightarrow> string" where
  "nights_text S first_night night =
     (if first_night = night then ''reference night '' @ date_text S night
      else ''reference nights '' @ date_text S first_night @ '' to '' @ date_text S night)"

definition validate_filter_activation ::
  "('q, 'x) filter_services \<Rightarrow> filter_worker_config \<Rightarrow> survey \<Rightarrow> json list \<Rightarrow> permissions \<Rightarrow> 'q \<Rightarrow> (string, unit) result"
where
  "validate_filter_activation S cfg survey pipeline perms q =
     (case (reference_night cfg, max_match_rate cfg) of
        (Some night, Some rate) \<Rightarrow>
          and_then (activation_programids survey perms) (\<lambda>programids.
          let first_night = night - (int (reference_window_days cfg) - 1);
              period = nights_text S first_night night;
              start_jd = fst (night_jd_window S survey first_night);
              end_jd = snd (night_jd_window S survey night)
          in and_then (map_err (\<lambda>e. ''failed to count alerts for '' @ period @ '': '' @ e)
               (count_alerts_in_jd_window S survey start_jd end_jd programids q)) (\<lambda>accessible.
             if accessible = 0
             then Inl (if programids \<noteq> None
                  then ''no '' @ survey_as_str survey @ '' alerts accessible with the given permissions on '' @ period
                       @ ''; cannot validate filter activation''
                  else ''no '' @ survey_as_str survey @ '' alerts on '' @ period @ ''; cannot validate filter activation'')
             else
               and_then (map_err filter_error_text (build_filter_pipeline (to_document (library S)) pipeline perms survey)) (\<lambda>built.
               let window = [(''candidate.jd'', BDocument [(''$gte'', BOther (Double start_jd)), (''$lt'', BOther (Double end_jd))])];
                   condition = (case programids of
                      Some ps \<Rightarrow> obj_insert ''candidate.programid'' (BDocument [(''$in'', BArray (map BInt ps))]) window
                    | None \<Rightarrow> window)
               in and_then (map_err (\<lambda>_. ''filter pipeline must start with a $match stage'')
                    (set_match (BDocument condition) built)) (\<lambda>test_pipeline.
                  and_then (map_err (\<lambda>e. ''failed to run filter on '' @ period @ '': '' @ e)
                    (start_pipeline S survey (test_pipeline @ [[(''$count'', BString ''count'')]]) q)) (\<lambda>cursor.
                  and_then (matched_count cursor) (\<lambda>matched.
                  if max_allowed accessible rate < matched
                  then Inl (''filter matched '' @ int_text matched @ '' of '' @ dec accessible @ '' '' @ survey_as_str survey
                       @ '' alerts ('' @ percent_text S (nat matched) accessible @ ''%) on '' @ period
                       @ '', which exceeds the '' @ dec rate @ ''% limit'')
                  else Inr ()))))))
      | _ \<Rightarrow> Inl (''filter activation validation is not supported for survey '' @ survey_as_str survey))"

section \<open>Creating a filter\<close>

record filter_post =
  post_name :: string
  post_description :: "string option"
  post_pipeline :: "json list"
  post_permissions :: permissions
  post_survey :: survey
  post_watchlist :: "string option"

definition needs_permissions :: "survey \<Rightarrow> 'a response" where
  "needs_permissions survey = BadRequest (''Filters running on survey '' @ survey_debug survey
     @ '' must have permissions defined for that survey'')"

definition test_failed :: "filter_error \<Rightarrow> 'a response" where
  "test_failed e = BadRequest (''Invalid filter submitted, filter test failed with error: '' @ filter_error_text e)"

definition new_filter :: "string \<Rightarrow> string \<Rightarrow> real \<Rightarrow> user \<Rightarrow> filter_post \<Rightarrow> string \<Rightarrow> stored_filter" where
  "new_filter i version now u body pipeline_json =
     \<lparr>filter_id = i, filter_name = post_name body, description = post_description body,
      permissions = post_permissions body, user_id = uid u, watchlist = post_watchlist body,
      filter_survey = post_survey body, active = False, active_fid = version,
      fv = [\<lparr>fid = version, version_pipeline = pipeline_json, changelog = None, version_created_at = now\<rparr>],
      created_at = now, updated_at = now\<rparr>"

definition post_filter ::
  "('db, stored_filter) collection \<Rightarrow> ('q, 'x) filter_services \<Rightarrow> api_config \<Rightarrow>
   (mongo_error, string list) result \<Rightarrow> string \<Rightarrow> string \<Rightarrow> real \<Rightarrow> filter_post \<Rightarrow> user option \<Rightarrow> 'q \<Rightarrow> 'db \<Rightarrow>
   stored_filter response \<times> 'db"
where
  "post_filter M S cfg listed i version now body current_user q db =
     (case current_user of
        None \<Rightarrow> (Unauthorized ''Unauthorized'', db)
      | Some u \<Rightarrow>
          if post_permissions body (post_survey body) = None \<and> post_survey body \<in> set SURVEYS_REQUIRING_PERMISSIONS
          then (needs_permissions (post_survey body), db)
          else
            (case (case post_watchlist body of
                     None \<Rightarrow> Inr ()
                   | Some w \<Rightarrow> validate_watchlist listed w (post_survey body) u cfg) of
               Inl m \<Rightarrow> (BadRequest m, db)
             | Inr _ \<Rightarrow>
                 (case build_and_test_filter_version S (post_survey body) (post_pipeline body) (post_permissions body) q of
                    Inl e \<Rightarrow> (test_failed e, db)
                  | Inr _ \<Rightarrow>
                      (case json_text S (post_pipeline body) of
                         Inl e \<Rightarrow> (InternalError (''failed to serialize filter pipeline to JSON. error: '' @ e), db)
                       | Inr text_of \<Rightarrow>
                           let f = new_filter i version now u body text_of
                           in (case insert_one M f db of
                                 (Inr _, db) \<Rightarrow> (Success ''successfully created new filter'' f, db)
                               | (Inl e, db) \<Rightarrow>
                                   (InternalError (''failed to insert filter into database. error: '' @ mongo_text e), db))))))"

section \<open>Reading the filter a request is about\<close>

definition no_such_filter :: "string \<Rightarrow> 'a response" where
  "no_such_filter i = NotFound (''filter with id '' @ i @ '' does not exist'')"

definition own_filter ::
  "('db, stored_filter) collection \<Rightarrow> string \<Rightarrow> string \<Rightarrow> user option \<Rightarrow> 'db \<Rightarrow> ('a response, user \<times> stored_filter) result"
where
  "own_filter M verb i current_user db =
     (case current_user of
        None \<Rightarrow> Inl (Unauthorized ''Unauthorized'')
      | Some u \<Rightarrow>
          (case find_one M (\<lambda>f. filter_id f = i) None db of
             Inl e \<Rightarrow> Inl (InternalError (''failed to find filter with id '' @ i @ ''. error: '' @ mongo_text e))
           | Inr None \<Rightarrow> Inl (no_such_filter i)
           | Inr (Some f) \<Rightarrow>
               if user_id f \<noteq> uid u \<and> \<not> is_admin_user u
               then Inl (Forbidden (''only the filter owner or an admin can '' @ verb @ '' a filter''))
               else Inr (u, f)))"

definition no_worker_config :: "survey \<Rightarrow> 'a response" where
  "no_worker_config survey = InternalError (''no worker config defined for survey '' @ survey_as_str survey)"

text \<open>The activation check with the configuration of the survey's worker.\<close>

definition check_activation ::
  "('q, 'x) filter_services \<Rightarrow> api_config \<Rightarrow> survey \<Rightarrow> json list \<Rightarrow> permissions \<Rightarrow> 'q \<Rightarrow> ('a response, unit) result"
where
  "check_activation S cfg survey pipeline perms q =
     (case filter_workers cfg survey of
        None \<Rightarrow> Inl (no_worker_config survey)
      | Some wc \<Rightarrow> map_err BadRequest (validate_filter_activation S wc survey pipeline perms q))"

section \<open>Adding a version\<close>

record filter_version_post =
  version_body_pipeline :: "json list"
  version_body_changelog :: "string option"
  set_as_active :: "bool option"

definition set_active :: "filter_version_post \<Rightarrow> bool" where
  "set_active body = (case set_as_active body of None \<Rightarrow> True | Some b \<Rightarrow> b)"

definition version_checks ::
  "('db, stored_filter) collection \<Rightarrow> ('q, 'x) filter_services \<Rightarrow> api_config \<Rightarrow> string \<Rightarrow> filter_version_post \<Rightarrow>
   user option \<Rightarrow> 'q \<Rightarrow> 'db \<Rightarrow> (string response, unit) result"
where
  "version_checks M S cfg i body current_user q db =
     and_then (own_filter M ''modify'' i current_user db) (\<lambda>(u, f).
     and_then (map_err test_failed
       (build_and_test_filter_version S (filter_survey f) (version_body_pipeline body) (permissions f) q)) (\<lambda>_.
     if set_active body \<and> active f
     then check_activation S cfg (filter_survey f) (version_body_pipeline body) (permissions f) q
     else Inr ()))"

definition add_version :: "filter_version \<Rightarrow> bool \<Rightarrow> stored_filter \<Rightarrow> stored_filter" where
  "add_version v act f =
     (let f = f\<lparr>fv := fv f @ [v]\<rparr> in if act then f\<lparr>active_fid := fid v\<rparr> else f)"

text \<open>The write panics if the pipeline cannot be turned into text.\<close>

definition version_write ::
  "('db, stored_filter) collection \<Rightarrow> ('q, 'x) filter_services \<Rightarrow> string \<Rightarrow> string \<Rightarrow> real \<Rightarrow> filter_version_post \<Rightarrow> 'db \<Rightarrow>
   string response outcome \<times> 'db"
where
  "version_write M S i version now body db =
     (case json_text S (version_body_pipeline body) of
        Inl _ \<Rightarrow> (Panics, db)
      | Inr text_of \<Rightarrow>
          (let v = \<lparr>fid = version, version_pipeline = text_of, changelog = version_body_changelog body,
                    version_created_at = now\<rparr>
           in case update_one M (\<lambda>f. filter_id f = i) (add_version v (set_active body)) db of
                (Inr _, db) \<Rightarrow>
                  (Returns (Success (''successfully added new version '' @ version @ '' to filter id: '' @ i) version), db)
              | (Inl e, db) \<Rightarrow>
                  (Returns (InternalError (''failed to add new version to filter. error: '' @ mongo_text e)), db)))"

definition post_filter_version ::
  "('db, stored_filter) collection \<Rightarrow> ('q, 'x) filter_services \<Rightarrow> api_config \<Rightarrow> string \<Rightarrow> string \<Rightarrow> real \<Rightarrow>
   filter_version_post \<Rightarrow> user option \<Rightarrow> 'q \<Rightarrow> 'db \<Rightarrow> string response outcome \<times> 'db"
where
  "post_filter_version M S cfg i version now body current_user q db =
     (case version_checks M S cfg i body current_user q db of
        Inl r \<Rightarrow> (Returns r, db)
      | Inr _ \<Rightarrow> version_write M S i version now body db)"

section \<open>Changing a filter\<close>

record filter_patch =
  patch_name :: "string option"
  patch_description :: "string option"
  patch_active :: "bool option"
  patch_active_fid :: "string option"
  patch_permissions :: "permissions option"
  skip_validation :: bool

text \<open>The fields that are set; an empty name or description is left out.\<close>

definition nonempty :: "string option \<Rightarrow> string option" where
  "nonempty t = (case t of Some [] \<Rightarrow> None | _ \<Rightarrow> t)"

definition sets_nothing :: "filter_patch \<Rightarrow> bool" where
  "sets_nothing body \<longleftrightarrow>
     nonempty (patch_name body) = None \<and> nonempty (patch_description body) = None \<and>
     patch_active body = None \<and> patch_active_fid body = None \<and> patch_permissions body = None"

definition or_keep :: "'a option \<Rightarrow> 'a \<Rightarrow> 'a" where
  "or_keep new old = (case new of None \<Rightarrow> old | Some x \<Rightarrow> x)"

definition set_fields :: "real \<Rightarrow> filter_patch \<Rightarrow> stored_filter \<Rightarrow> stored_filter" where
  "set_fields now body f =
     f\<lparr>filter_name := or_keep (nonempty (patch_name body)) (filter_name f),
       description := (case nonempty (patch_description body) of None \<Rightarrow> description f | d \<Rightarrow> d),
       active := or_keep (patch_active body) (active f),
       active_fid := or_keep (patch_active_fid body) (active_fid f),
       permissions := or_keep (patch_permissions body) (permissions f),
       updated_at := now\<rparr>"

definition needs_check :: "filter_patch \<Rightarrow> stored_filter \<Rightarrow> bool" where
  "needs_check body f \<longleftrightarrow>
     or_keep (patch_active body) (active f) \<and>
     (patch_active body = Some True \<and> \<not> active f \<or> patch_active_fid body \<noteq> None \<or> patch_permissions body \<noteq> None) \<and>
     \<not> skip_validation body"

text \<open>The stored text as a list of stages.\<close>

definition stored_pipeline :: "('q, 'x) filter_services \<Rightarrow> filter_version \<Rightarrow> ('a response, json list) result" where
  "stored_pipeline S v =
     map_err (\<lambda>e. InternalError (''failed to parse stored filter pipeline: '' @ e))
       (parse_stages S (version_pipeline v))"

definition patch_checks ::
  "('db, stored_filter) collection \<Rightarrow> ('q, 'x) filter_services \<Rightarrow> api_config \<Rightarrow> string \<Rightarrow> filter_patch \<Rightarrow>
   user option \<Rightarrow> 'q \<Rightarrow> 'db \<Rightarrow> (unit response, unit) result"
where
  "patch_checks M S cfg i body current_user q db =
     and_then (own_filter M ''modify'' i current_user db) (\<lambda>(u, f).
     and_then (case patch_active_fid body of
         Some a \<Rightarrow> if list_ex (\<lambda>v. fid v = a) (fv f) then Inr ()
                   else Inl (BadRequest ''active_fid must be one of the existing filter version IDs'')
       | None \<Rightarrow> Inr ()) (\<lambda>_.
     and_then (case patch_permissions body of
         Some ps \<Rightarrow> if ps (filter_survey f) = None \<and> filter_survey f \<in> set SURVEYS_REQUIRING_PERMISSIONS
                    then Inl (needs_permissions (filter_survey f)) else Inr ()
       | None \<Rightarrow> Inr ()) (\<lambda>_.
     if sets_nothing body then Inl (BadRequest ''no valid fields to update'')
     else if needs_check body f
     then
       let a = or_keep (patch_active_fid body) (active_fid f)
       in case find_version a f of
            None \<Rightarrow> Inl (InternalError (''filter '' @ i @ '' has no version matching active_fid '' @ a))
          | Some v \<Rightarrow>
              and_then (stored_pipeline S v) (\<lambda>pipeline.
                check_activation S cfg (filter_survey f) pipeline (or_keep (patch_permissions body) (permissions f)) q)
     else Inr ())))"

definition patch_write ::
  "('db, stored_filter) collection \<Rightarrow> string \<Rightarrow> real \<Rightarrow> filter_patch \<Rightarrow> 'db \<Rightarrow> unit response \<times> 'db"
where
  "patch_write M i now body db =
     (case update_one M (\<lambda>f. filter_id f = i) (set_fields now body) db of
        (Inr _, db) \<Rightarrow> (Success_Without_Data (''successfully updated filter id: '' @ i), db)
      | (Inl e, db) \<Rightarrow> (InternalError (''failed to update filter. error: '' @ mongo_text e), db))"

definition patch_filter ::
  "('db, stored_filter) collection \<Rightarrow> ('q, 'x) filter_services \<Rightarrow> api_config \<Rightarrow> string \<Rightarrow> real \<Rightarrow> filter_patch \<Rightarrow>
   user option \<Rightarrow> 'q \<Rightarrow> 'db \<Rightarrow> unit response \<times> 'db"
where
  "patch_filter M S cfg i now body current_user q db =
     (case patch_checks M S cfg i body current_user q db of
        Inl r \<Rightarrow> (r, db)
      | Inr _ \<Rightarrow> patch_write M i now body db)"

section \<open>Validating, reading and deleting\<close>

text \<open>The answer carries the version and, where the check failed, why.\<close>

definition validate_filter ::
  "('db, stored_filter) collection \<Rightarrow> ('q, 'x) filter_services \<Rightarrow> api_config \<Rightarrow> string \<Rightarrow> string option \<Rightarrow>
   user option \<Rightarrow> 'q \<Rightarrow> 'db \<Rightarrow> (string \<times> (string, unit) result) response"
where
  "validate_filter M S cfg i query_fid current_user q db =
     (case own_filter M ''validate'' i current_user db of
        Inl r \<Rightarrow> r
      | Inr (u, f) \<Rightarrow>
          let a = or_keep query_fid (active_fid f)
          in case find_version a f of
               None \<Rightarrow> BadRequest (''filter '' @ i @ '' has no version matching fid '' @ a)
             | Some v \<Rightarrow>
                 (case stored_pipeline S v of
                    Inl r \<Rightarrow> r
                  | Inr pipeline \<Rightarrow>
                      (case filter_workers cfg (filter_survey f) of
                         None \<Rightarrow> no_worker_config (filter_survey f)
                       | Some wc \<Rightarrow>
                           (case validate_filter_activation S wc (filter_survey f) pipeline (permissions f) q of
                              Inr _ \<Rightarrow> Success (''filter version '' @ a @ '' passed activation validation'') (a, Inr ())
                            | Inl m \<Rightarrow> Success (''filter version '' @ a @ '' did not pass activation validation'') (a, Inl m)))))"

definition visible_filter :: "user \<Rightarrow> stored_filter \<Rightarrow> bool" where
  "visible_filter u f \<longleftrightarrow> is_admin_user u \<or> user_id f = uid u"

definition get_filters ::
  "('db, stored_filter) collection \<Rightarrow> user option \<Rightarrow> 'db \<Rightarrow> stored_filter list response"
where
  "get_filters M current_user db =
     (case current_user of
        None \<Rightarrow> Unauthorized ''Unauthorized''
      | Some u \<Rightarrow>
          (case find_docs M (visible_filter u) None None db of
             Inr fs \<Rightarrow> Success ''retrieved filters successfully'' fs
           | Inl e \<Rightarrow> InternalError (''failed to query filters: '' @ mongo_text e)))"

definition get_filter_route ::
  "('db, stored_filter) collection \<Rightarrow> string \<Rightarrow> user option \<Rightarrow> 'db \<Rightarrow> stored_filter response"
where
  "get_filter_route M i current_user db =
     (case current_user of
        None \<Rightarrow> Unauthorized ''Unauthorized''
      | Some u \<Rightarrow>
          (case find_one M (\<lambda>f. filter_id f = i \<and> visible_filter u f) None db of
             Inr (Some f) \<Rightarrow> Success ''retrieved filter successfully'' f
           | Inr None \<Rightarrow> no_such_filter i
           | Inl e \<Rightarrow> InternalError (''failed to query filter: '' @ mongo_text e)))"

definition delete_filter ::
  "('db, stored_filter) collection \<Rightarrow> string \<Rightarrow> user option \<Rightarrow> 'db \<Rightarrow> unit response \<times> 'db"
where
  "delete_filter M i current_user db =
     (case current_user of
        None \<Rightarrow> (Unauthorized ''Unauthorized'', db)
      | Some u \<Rightarrow>
          (case delete_one M (\<lambda>f. filter_id f = i \<and> visible_filter u f) db of
             (Inr n, db) \<Rightarrow>
               (if 0 < n then Success_Without_Data (''filter with id '' @ i @ '' deleted successfully'')
                else no_such_filter i, db)
           | (Inl e, db) \<Rightarrow> (InternalError (''failed to delete filter: '' @ mongo_text e), db)))"

end
