(* ===== verification/Filter_Histories.thy ===== *)
theory Filter_Histories
  imports Filter_Routes
begin

text \<open>
  Histories of filter requests: many users create, extend, change and delete filters at the same
  time.  A request that changes a filter is checked in one step and written in a later one; between
  the two come steps of other requests.  Ids are fresh, as random UUIDs are taken to be.
\<close>

section \<open>The system\<close>

datatype pending_write =
    Pending_Version string string filter_version_post
  | Pending_Patch string filter_patch

record 'db filter_system =
  filters :: 'db
  taken_ids :: "string set"
  pending :: "(user \<times> pending_write) list"

inductive filter_step ::
  "('db, stored_filter) collection \<Rightarrow> ('q, 'x) filter_services \<Rightarrow> api_config \<Rightarrow> user \<Rightarrow>
   'db filter_system \<Rightarrow> 'db filter_system \<Rightarrow> bool"
  for M :: "('db, stored_filter) collection" and S :: "('q, 'x) filter_services" and cfg :: api_config
where
  created: "post_filter M S cfg listed i version now body (Some u) q (filters s) = (r, db) \<Longrightarrow>
    i \<notin> taken_ids s \<Longrightarrow> version \<notin> taken_ids s \<Longrightarrow>
    filter_step M S cfg u s (s\<lparr>filters := db, taken_ids := {i, version} \<union> taken_ids s\<rparr>)"
| version_checked: "version_checks M S cfg i body (Some u) q (filters s) = Inr () \<Longrightarrow>
    version \<notin> taken_ids s \<Longrightarrow>
    filter_step M S cfg u s
      (s\<lparr>taken_ids := insert version (taken_ids s), pending := (u, Pending_Version i version body) # pending s\<rparr>)"
| version_written: "(u, Pending_Version i version body) \<in> set (pending s) \<Longrightarrow>
    version_write M S i version now body (filters s) = (r', db) \<Longrightarrow>
    filter_step M S cfg u s
      (s\<lparr>filters := db, pending := remove1 (u, Pending_Version i version body) (pending s)\<rparr>)"
| patch_checked: "patch_checks M S cfg i patch (Some u) q (filters s) = Inr () \<Longrightarrow>
    filter_step M S cfg u s (s\<lparr>pending := (u, Pending_Patch i patch) # pending s\<rparr>)"
| patch_written: "(u, Pending_Patch i patch) \<in> set (pending s) \<Longrightarrow>
    patch_write M i now patch (filters s) = (r'', db) \<Longrightarrow>
    filter_step M S cfg u s (s\<lparr>filters := db, pending := remove1 (u, Pending_Patch i patch) (pending s)\<rparr>)"
| deleted: "delete_filter M i (Some u) (filters s) = (r'', db) \<Longrightarrow> filter_step M S cfg u s (s\<lparr>filters := db\<rparr>)"

inductive filter_history ::
  "('db, stored_filter) collection \<Rightarrow> ('q, 'x) filter_services \<Rightarrow> api_config \<Rightarrow> 'db \<Rightarrow> 'db filter_system \<Rightarrow> bool"
  for M :: "('db, stored_filter) collection" and S :: "('q, 'x) filter_services" and cfg :: api_config and db0 :: 'db
where
  start: "filter_history M S cfg db0 \<lparr>filters = db0, taken_ids = {}, pending = []\<rparr>"
| more: "filter_history M S cfg db0 s \<Longrightarrow> filter_step M S cfg u s s' \<Longrightarrow> filter_history M S cfg db0 s'"

section \<open>What holds of every stored filter\<close>

definition fids :: "stored_filter \<Rightarrow> string set" where
  "fids f = fid ` set (fv f)"

definition version_ok :: "('q, 'x) filter_services \<Rightarrow> filter_version \<Rightarrow> bool" where
  "version_ok S v \<longleftrightarrow> (\<exists>p. json_text S p = Inr (version_pipeline v) \<and> validate_filter_pipeline p = Inr ())"

definition filter_ok :: "('q, 'x) filter_services \<Rightarrow> stored_filter \<Rightarrow> bool" where
  "filter_ok S f \<longleftrightarrow>
     active_fid f \<in> fids f \<and> distinct (map fid (fv f)) \<and> list_all (version_ok S) (fv f) \<and>
     (filter_survey f \<in> set SURVEYS_REQUIRING_PERMISSIONS \<longrightarrow> permissions f (filter_survey f) \<noteq> None) \<and>
     pred_option (prefix WATCHLIST_PREFIX) (watchlist f)"

definition may_change :: "user \<Rightarrow> stored_filter \<Rightarrow> bool" where
  "may_change u f \<longleftrightarrow> user_id f = uid u \<or> is_admin_user u"

fun target :: "pending_write \<Rightarrow> string" where
  "target (Pending_Version i _ _) = i"
| "target (Pending_Patch i _) = i"

text \<open>A checked write fits the filter it is for.\<close>

definition fits_write :: "pending_write \<Rightarrow> stored_filter \<Rightarrow> bool" where
  "fits_write w f \<longleftrightarrow>
     (case w of
        Pending_Version _ _ body \<Rightarrow> validate_filter_pipeline (version_body_pipeline body) = Inr ()
      | Pending_Patch _ patch \<Rightarrow>
          pred_option (\<lambda>a. a \<in> fids f) (patch_active_fid patch) \<and>
          pred_option (\<lambda>ps. filter_survey f \<in> set SURVEYS_REQUIRING_PERMISSIONS \<longrightarrow> ps (filter_survey f) \<noteq> None)
            (patch_permissions patch))"

fun new_version :: "pending_write \<Rightarrow> string option" where
  "new_version (Pending_Version _ v _) = Some v"
| "new_version (Pending_Patch _ _) = None"

definition pending_versions :: "(user \<times> pending_write) list \<Rightarrow> string list" where
  "pending_versions ps = List.map_filter (\<lambda>(u, w). new_version w) ps"

definition filter_fits ::
  "('q, 'x) filter_services \<Rightarrow> string set \<Rightarrow> (user \<times> pending_write) list \<Rightarrow> stored_filter \<Rightarrow> bool" where
  "filter_fits S ids ps f \<longleftrightarrow>
     filter_ok S f \<and> filter_id f \<in> ids \<and> fids f \<subseteq> ids \<and> fids f \<inter> set (pending_versions ps) = {} \<and>
     (\<forall>u w. (u, w) \<in> set ps \<longrightarrow> filter_id f = target w \<longrightarrow> may_change u f \<and> fits_write w f)"

definition stored_inv ::
  "('q, 'x) filter_services \<Rightarrow> stored_filter list \<Rightarrow> string set \<Rightarrow> (user \<times> pending_write) list \<Rightarrow> bool" where
  "stored_inv S fs ids ps \<longleftrightarrow>
     distinct (map filter_id fs) \<and> (\<forall>f\<in>set fs. filter_fits S ids ps f) \<and>
     distinct (pending_versions ps) \<and> set (pending_versions ps) \<subseteq> ids \<and> (\<forall>(u, w)\<in>set ps. target w \<in> ids)"

section \<open>The invariant\<close>

lemma pending_versions_simps [simp]:
  "pending_versions [] = []"
  "pending_versions ((u, Pending_Version i v b) # ps) = v # pending_versions ps"
  "pending_versions ((u, Pending_Patch i b') # ps) = pending_versions ps"
  by (simp_all add: pending_versions_def map_filter_simps)

lemma pending_version_in: "(u, Pending_Version i v b) \<in> set ps \<Longrightarrow> v \<in> set (pending_versions ps)"
  by (induction ps) (auto simp: pending_versions_def map_filter_simps split: option.splits)

lemma pending_versions_remove1:
  "set (pending_versions (remove1 x ps)) \<subseteq> set (pending_versions ps) \<and>
   (distinct (pending_versions ps) \<longrightarrow> distinct (pending_versions (remove1 x ps)))"
proof (induction ps)
  case (Cons p ps)
  obtain u w where "p = (u, w)" by fastforce
  with Cons show ?case by (cases w) auto
qed simp

lemma written_version_gone:
  "(u, Pending_Version i v b) \<in> set ps \<Longrightarrow> distinct (pending_versions ps) \<Longrightarrow>
   v \<notin> set (pending_versions (remove1 (u, Pending_Version i v b) ps))"
proof (induction ps)
  case (Cons p ps)
  obtain u' w where p: "p = (u', w)" by fastforce
  show ?case
  proof (cases "p = (u, Pending_Version i v b)")
    case False
    with Cons p show ?thesis
      using pending_version_in [of u i v b ps] by (cases w) auto
  qed (use Cons in auto)
qed simp

lemma fits_write_mono:
  "fits_write w f \<Longrightarrow> fids f \<subseteq> fids f' \<Longrightarrow> filter_survey f' = filter_survey f \<Longrightarrow> fits_write w f'"
  by (auto simp: fits_write_def split: pending_write.splits option.splits intro: option.pred_mono_strong)

lemma touched_from: "touched c g xs ys \<Longrightarrow> y \<in> set ys \<Longrightarrow> \<exists>x\<in>set xs. y = x \<or> c x \<and> y = g x"
  unfolding touched_def by (induction rule: list_all2_induct) auto

lemma touched_keeps: "touched c g xs ys \<Longrightarrow> x \<in> set xs \<Longrightarrow> x \<notin> set ys \<Longrightarrow> c x"
  unfolding touched_def by (induction rule: list_all2_induct) auto

lemma inv_touched:
  assumes "stored_inv S fs ids ps" "touched (\<lambda>f. filter_id f = i) g fs fs'"
    and g: "\<And>f. filter_id (g f) = filter_id f \<and> user_id (g f) = user_id f \<and> filter_survey (g f) = filter_survey f \<and>
        fids f \<subseteq> fids (g f)"
    and ok: "\<And>f. f \<in> set fs \<Longrightarrow> filter_id f = i \<Longrightarrow>
        filter_ok S (g f) \<and> fids (g f) \<subseteq> ids \<and> fids (g f) \<inter> set (pending_versions ps') = {}"
    and ps: "set ps' \<subseteq> set ps" "set (pending_versions ps') \<subseteq> set (pending_versions ps)" "distinct (pending_versions ps')"
  shows "stored_inv S fs' ids ps'"
proof -
  have "map filter_id fs' = map filter_id fs"
    by (rule touched_map_eq [OF assms(2)]) (use g in blast)
  moreover have "filter_fits S ids ps' f'" if "f' \<in> set fs'" for f'
  proof -
    from touched_from [OF assms(2) that] obtain f where f: "f \<in> set fs" "f' = f \<or> filter_id f = i \<and> f' = g f"
      by blast
    from f(1) assms(1) have old: "filter_fits S ids ps f"
      by (simp add: stored_inv_def)
    from f(2) show ?thesis
    proof
      assume "f' = f"
      with old ps(1,2) show ?thesis
        unfolding filter_fits_def by blast
    next
      assume f': "filter_id f = i \<and> f' = g f"
      have "may_change u f' \<and> fits_write w f'" if "(u, w) \<in> set ps'" "filter_id f' = target w" for u w
      proof -
        have "may_change u f \<and> fits_write w f"
          using that old ps(1) g [of f] f' unfolding filter_fits_def by (metis subsetD)
        then show ?thesis
          using g [of f] f' fits_write_mono [of w f "g f"] by (simp add: may_change_def)
      qed
      with ok [OF f(1)] old g [of f] f' show ?thesis
        by (simp add: filter_fits_def)
    qed
  qed
  ultimately show ?thesis
    using assms(1) ps unfolding stored_inv_def by auto
qed

lemma inv_fewer:
  assumes "stored_inv S fs ids ps" "distinct (map filter_id fs')" "set fs' \<subseteq> set fs"
  shows "stored_inv S fs' ids ps"
  using assms unfolding stored_inv_def by blast

lemma fids_add_version [simp]: "fids (add_version v act f) = insert (fid v) (fids f)"
  by (auto simp: fids_def add_version_def Let_def)

lemma add_version_frame [simp]:
  "filter_id (add_version v act f) = filter_id f" "user_id (add_version v act f) = user_id f"
  "filter_survey (add_version v act f) = filter_survey f" "permissions (add_version v act f) = permissions f"
  "watchlist (add_version v act f) = watchlist f" "fv (add_version v act f) = fv f @ [v]"
  "active (add_version v act f) = active f"
  "active_fid (add_version v act f) = (if act then fid v else active_fid f)"
  by (simp_all add: add_version_def Let_def)

lemma add_version_ok:
  "filter_ok S f \<Longrightarrow> fid v \<notin> fids f \<Longrightarrow> version_ok S v \<Longrightarrow> filter_ok S (add_version v act f)"
  unfolding filter_ok_def by (auto simp: fids_def)

lemma set_fields_frame [simp]:
  "filter_id (set_fields now b f) = filter_id f" "user_id (set_fields now b f) = user_id f"
  "filter_survey (set_fields now b f) = filter_survey f" "fv (set_fields now b f) = fv f"
  "watchlist (set_fields now b f) = watchlist f" "fids (set_fields now b f) = fids f"
  "active_fid (set_fields now b f) = or_keep (patch_active_fid b) (active_fid f)"
  "permissions (set_fields now b f) = or_keep (patch_permissions b) (permissions f)"
  "active (set_fields now b f) = or_keep (patch_active b) (active f)"
  by (simp_all add: set_fields_def fids_def)

lemma set_fields_ok: "filter_ok S f \<Longrightarrow> fits_write (Pending_Patch i b) f \<Longrightarrow> filter_ok S (set_fields now b f)"
  unfolding filter_ok_def fits_write_def by (auto simp: or_keep_def split: option.splits)

section \<open>Every step keeps it\<close>

lemma own_filter_Inr:
  assumes "own_filter M verb i (Some u) db = Inr (u', f)" "doc_store M"
  shows "u' = u \<and> f \<in> set (docs M db) \<and> filter_id f = i \<and> may_change u f"
proof -
  have "find_one M (\<lambda>f. filter_id f = i) None db = Inr (Some f)" "u' = u" "may_change u f"
    using assms(1) by (auto simp: own_filter_def may_change_def split: sum.splits option.splits if_splits)
  with doc_store.find_one_law [OF assms(2) this(1)] show ?thesis
    by simp
qed

lemma build_and_test_validates:
  "build_and_test_filter_version S survey p perms q = Inr x \<Longrightarrow> validate_filter_pipeline p = Inr ()"
  using built_validated by (auto simp: build_and_test_filter_version_def and_then_Inr)

lemma version_checks_Inr:
  assumes "version_checks M S cfg i body (Some u) q db = Inr ()" "doc_store M"
  shows "\<exists>f\<in>set (docs M db). filter_id f = i \<and> may_change u f \<and>
    validate_filter_pipeline (version_body_pipeline body) = Inr () \<and>
    (set_active body \<and> active f \<longrightarrow>
       check_activation S cfg (filter_survey f) (version_body_pipeline body) (permissions f) q = (Inr () :: (string response, unit) result))"
proof -
  from assms(1) obtain u' f where own: "own_filter M ''modify'' i (Some u) db = (Inr (u', f) :: (string response, _) result)"
    and test: "build_and_test_filter_version S (filter_survey f) (version_body_pipeline body) (permissions f) q = Inr ()"
    and "set_active body \<and> active f \<longrightarrow>
      check_activation S cfg (filter_survey f) (version_body_pipeline body) (permissions f) q = (Inr () :: (string response, unit) result)"
    by (auto simp: version_checks_def and_then_Inr map_err_Inr split: if_splits)
  with own_filter_Inr [OF own assms(2)] build_and_test_validates [OF test] show ?thesis
    by (intro bexI [of _ f]) auto
qed

lemma patch_checks_Inr:
  assumes "patch_checks M S cfg i body (Some u) q db = Inr ()" "doc_store M"
  shows "\<exists>f\<in>set (docs M db). filter_id f = i \<and> may_change u f \<and> fits_write (Pending_Patch i body) f \<and>
    (needs_check body f \<longrightarrow>
       (\<exists>v p. find_version (or_keep (patch_active_fid body) (active_fid f)) f = Some v \<and>
          parse_stages S (version_pipeline v) = Inr p \<and>
          check_activation S cfg (filter_survey f) p (or_keep (patch_permissions body) (permissions f)) q =
            (Inr () :: (unit response, unit) result)))"
proof -
  from assms(1) obtain u' f where own: "own_filter M ''modify'' i (Some u) db = (Inr (u', f) :: (unit response, _) result)"
    by (auto simp: patch_checks_def and_then_Inr)
  note f = own_filter_Inr [OF own assms(2)]
  have "fits_write (Pending_Patch i body) f"
    using assms(1) own
    by (auto simp: patch_checks_def and_then_Inr fits_write_def fids_def list_ex_iff split: option.splits if_splits)
  moreover have "needs_check body f \<longrightarrow>
       (\<exists>v p. find_version (or_keep (patch_active_fid body) (active_fid f)) f = Some v \<and>
          parse_stages S (version_pipeline v) = Inr p \<and>
          check_activation S cfg (filter_survey f) p (or_keep (patch_permissions body) (permissions f)) q =
            (Inr () :: (unit response, unit) result))"
    using assms(1) own
    by (auto simp: patch_checks_def and_then_Inr stored_pipeline_def map_err_Inr Let_def split: option.splits if_splits)
  ultimately show ?thesis
    using f by blast
qed

lemma one_deleted_fewer:
  assumes "one_deleted c fs fs'" "distinct (map filter_id fs)"
  shows "distinct (map filter_id fs') \<and> set fs' \<subseteq> set fs"
proof -
  obtain i where "i < length fs" "fs' = take i fs @ drop (Suc i) fs"
    using assms(1) by (auto simp: one_deleted_def)
  then have "fs = take i fs @ fs ! i # drop (Suc i) fs" and fs': "fs' = take i fs @ drop (Suc i) fs"
    by (simp_all add: id_take_nth_drop)
  then have "distinct (map filter_id (take i fs @ fs ! i # drop (Suc i) fs))"
    using assms(2) by simp
  moreover have "set fs' \<subseteq> set fs"
    unfolding fs' by (auto dest: in_set_takeD in_set_dropD)
  ultimately show ?thesis
    unfolding fs' by auto
qed

lemma update_touched:
  "update_one M c g db = (r, db') \<Longrightarrow> doc_store M \<Longrightarrow> touched c g (docs M db) (docs M db')"
  by (rule doc_store.update_one_touched)

lemma created_inv:
  assumes inv: "stored_inv S (docs M db) ids ps" and M: "doc_store M"
    and post: "post_filter M S cfg listed i version now body (Some u) q db = (r, db')"
    and new: "i \<notin> ids" "version \<notin> ids"
  shows "stored_inv S (docs M db') ({i, version} \<union> ids) ps \<and>
    (docs M db' = docs M db \<or> (\<exists>f. docs M db' = docs M db @ [f]))"
proof -
  have "docs M db' = docs M db \<or> (\<exists>t. docs M db' = docs M db @ [new_filter i version now u body t] \<and>
      filter_ok S (new_filter i version now u body t))"
  proof (cases "docs M db' = docs M db")
    case False
    then obtain t r' where t: "insert_one M (new_filter i version now u body t) db = (r', db')"
        "json_text S (post_pipeline body) = Inr t"
      and ok: "build_and_test_filter_version S (post_survey body) (post_pipeline body) (post_permissions body) q = Inr ()"
        "post_permissions body (post_survey body) \<noteq> None \<or> post_survey body \<notin> set SURVEYS_REQUIRING_PERMISSIONS"
        "(case post_watchlist body of None \<Rightarrow> Inr () | Some w \<Rightarrow> validate_watchlist listed w (post_survey body) u cfg) = Inr ()"
      using post by (auto simp: post_filter_def Let_def split: sum.splits if_splits prod.splits)
    have "docs M db' = docs M db @ [new_filter i version now u body t]"
      using doc_store.insert_law [OF M t(1)] False by (auto split: sum.splits)
    moreover have "filter_ok S (new_filter i version now u body t)"
      using ok t(2) build_and_test_validates [OF ok(1)]
      by (auto simp: filter_ok_def new_filter_def fids_def version_ok_def validate_watchlist_def split: option.splits if_splits)
    ultimately show ?thesis by blast
  qed simp
  then show ?thesis
  proof
    assume "docs M db' = docs M db"
    then show ?thesis
      using inv by (auto simp: stored_inv_def filter_fits_def)
  next
    assume "\<exists>t. docs M db' = docs M db @ [new_filter i version now u body t] \<and>
      filter_ok S (new_filter i version now u body t)"
    then obtain f where f: "docs M db' = docs M db @ [f]" "filter_ok S f" "filter_id f = i" "fids f = {version}"
      by (auto simp: new_filter_def fids_def)
    have "filter_fits S ({i, version} \<union> ids) ps f"
      using f new inv by (auto simp: filter_fits_def stored_inv_def)
    with f inv new show ?thesis
      by (auto simp: stored_inv_def filter_fits_def)
  qed
qed

lemma filter_fits_write:
  "filter_fits S ids ps f \<Longrightarrow> (u, w) \<in> set ps \<Longrightarrow> filter_id f = target w \<Longrightarrow> may_change u f \<and> fits_write w f"
  by (simp add: filter_fits_def)

lemma version_written_inv:
  assumes inv: "stored_inv S (docs M db) ids ps" and M: "doc_store M"
    and mem: "(u, Pending_Version i version body) \<in> set ps"
    and w: "version_write M S i version now body db = (r, db')"
  defines "ps' \<equiv> remove1 (u, Pending_Version i version body) ps"
  shows "stored_inv S (docs M db') ids ps' \<and> (\<exists>v. touched (\<lambda>f. filter_id f = i) v (docs M db) (docs M db'))"
proof -
  have ps': "set ps' \<subseteq> set ps" "set (pending_versions ps') \<subseteq> set (pending_versions ps)" "distinct (pending_versions ps')"
    using inv pending_versions_remove1 [of _ ps] unfolding ps'_def
    by (auto simp: stored_inv_def dest: set_remove1_subset [THEN subsetD])
  show ?thesis
  proof (cases "json_text S (version_body_pipeline body)")
    case (Inl e)
    then have "docs M db' = docs M db"
      using w by (simp add: version_write_def)
    moreover have "stored_inv S (docs M db) ids ps'"
      by (rule inv_touched [where g = "\<lambda>f. f", OF inv touched_refl _ _ ps'])
        (use inv ps' in \<open>auto simp: stored_inv_def filter_fits_def\<close>)
    ultimately show ?thesis by auto
  next
    case (Inr t)
    define v where "v = \<lparr>fid = version, version_pipeline = t, changelog = version_body_changelog body,
      version_created_at = now\<rparr>"
    have tch: "touched (\<lambda>f. filter_id f = i) (add_version v (set_active body)) (docs M db) (docs M db')"
      using w Inr update_touched [OF _ M] by (auto simp: version_write_def v_def split: prod.splits sum.splits)
    have ver: "version \<in> set (pending_versions ps)" "version \<notin> set (pending_versions ps')"
      using pending_version_in [OF mem] written_version_gone [OF mem] inv by (auto simp: stored_inv_def ps'_def)
    have "stored_inv S (docs M db') ids ps'"
    proof (rule inv_touched [OF inv tch _ _ ps'])
      fix f assume f: "f \<in> set (docs M db)" "filter_id f = i"
      then have old: "filter_fits S ids ps f" using inv by (simp add: stored_inv_def)
      have "fits_write (Pending_Version i version body) f"
        using filter_fits_write [OF old mem] f(2) by simp
      then have "version_ok S v"
        using Inr by (auto simp: version_ok_def v_def fits_write_def)
      moreover have "version \<notin> fids f" "version \<in> ids"
        using old ver inv by (auto simp: filter_fits_def stored_inv_def)
      ultimately show "filter_ok S (add_version v (set_active body) f) \<and>
          fids (add_version v (set_active body) f) \<subseteq> ids \<and>
          fids (add_version v (set_active body) f) \<inter> set (pending_versions ps') = {}"
        using old ver ps'(2) add_version_ok [of S f v] by (auto simp: filter_fits_def v_def)
    qed auto
    with tch show ?thesis by blast
  qed
qed

lemma patch_written_inv:
  assumes inv: "stored_inv S (docs M db) ids ps" and M: "doc_store M"
    and mem: "(u, Pending_Patch i patch) \<in> set ps"
    and w: "patch_write M i now patch db = (r, db')"
  defines "ps' \<equiv> remove1 (u, Pending_Patch i patch) ps"
  shows "stored_inv S (docs M db') ids ps' \<and> touched (\<lambda>f. filter_id f = i) (set_fields now patch) (docs M db) (docs M db')"
proof -
  have ps': "set ps' \<subseteq> set ps" "set (pending_versions ps') \<subseteq> set (pending_versions ps)" "distinct (pending_versions ps')"
    using inv pending_versions_remove1 [of _ ps] unfolding ps'_def
    by (auto simp: stored_inv_def dest: set_remove1_subset [THEN subsetD])
  have tch: "touched (\<lambda>f. filter_id f = i) (set_fields now patch) (docs M db) (docs M db')"
    using w update_touched [OF _ M] by (auto simp: patch_write_def split: prod.splits sum.splits)
  have "stored_inv S (docs M db') ids ps'"
  proof (rule inv_touched [OF inv tch _ _ ps'])
    fix f assume f: "f \<in> set (docs M db)" "filter_id f = i"
    then have old: "filter_fits S ids ps f" using inv by (simp add: stored_inv_def)
    then show "filter_ok S (set_fields now patch f) \<and> fids (set_fields now patch f) \<subseteq> ids \<and>
        fids (set_fields now patch f) \<inter> set (pending_versions ps') = {}"
      using filter_fits_write [OF old mem] f(2) ps'(2) set_fields_ok [of S f i patch]
      by (auto simp: filter_fits_def)
  qed auto
  with tch show ?thesis by blast
qed

lemma checked_inv:
  assumes inv: "stored_inv S fs ids ps" and f: "f \<in> set fs" "filter_id f = target w"
    and may: "may_change u f" and fits: "fits_write w f"
    and new: "pred_option (\<lambda>v. v \<notin> ids) (new_version w)"
  shows "stored_inv S fs (set_option (new_version w) \<union> ids) ((u, w) # ps)"
proof -
  have "g = f" if "g \<in> set fs" "filter_id g = target w" for g
    using inv f that by (metis eq_key_imp_eq_value image_set in_set_conv_nth distinct_map inj_on_def stored_inv_def)
  moreover have "target w \<in> ids"
    using inv f by (auto simp: stored_inv_def filter_fits_def)
  ultimately show ?thesis
    using inv may fits new by (cases w) (auto simp: stored_inv_def filter_fits_def)
qed

lemma step_inv:
  assumes M: "doc_store M" and step: "filter_step M S cfg u s s'"
    and inv: "stored_inv S (docs M (filters s)) (taken_ids s) (pending s)"
  shows "stored_inv S (docs M (filters s')) (taken_ids s') (pending s')"
  using step
proof cases
  case (created i version now body q r db listed)
  with created_inv [OF inv M created(2)] show ?thesis by simp
next
  case (version_checked i body q version)
  with version_checks_Inr [OF version_checked(2) M] obtain f where
    "f \<in> set (docs M (filters s))" "filter_id f = i" "may_change u f"
    "fits_write (Pending_Version i version body) f"
    by (auto simp: fits_write_def)
  with checked_inv [OF inv, of f "Pending_Version i version body" u] version_checked show ?thesis by simp
next
  case (version_written i version body now r' db)
  with version_written_inv [OF inv M version_written(2,3)] show ?thesis by simp
next
  case (patch_checked i patch q)
  with patch_checks_Inr [OF patch_checked(2) M] obtain f where
    "f \<in> set (docs M (filters s))" "filter_id f = i" "may_change u f" "fits_write (Pending_Patch i patch) f"
    by auto
  with checked_inv [OF inv, of f "Pending_Patch i patch" u] patch_checked show ?thesis by simp
next
  case (patch_written i patch now r'' db)
  with patch_written_inv [OF inv M patch_written(2,3)] show ?thesis by simp
next
  case (deleted i r'' db)
  from deleted(2) have "docs M db = docs M (filters s) \<or>
      one_deleted (\<lambda>f. filter_id f = i \<and> visible_filter u f) (docs M (filters s)) (docs M db)"
    using doc_store.delete_one_law [OF M] by (fastforce simp: delete_filter_def split: prod.splits sum.splits)
  with inv one_deleted_fewer [of _ "docs M (filters s)" "docs M db"] show ?thesis
    unfolding deleted(1) by (auto simp: stored_inv_def [of S "docs M (filters s)"] intro: inv_fewer [OF inv])
qed

lemma history_inv:
  assumes "filter_history M S cfg db0 s" "doc_store M" "docs M db0 = []"
  shows "stored_inv S (docs M (filters s)) (taken_ids s) (pending s)"
  using assms(1)
proof induction
  case start
  show ?case using assms(3) by (simp add: stored_inv_def)
next
  case (more s u s')
  then show ?case using step_inv [OF assms(2)] by blast
qed

section \<open>A small system\<close>

text \<open>
  A survey on which a pipeline of two stages keeps nothing, and any other one every alert of ten;
  a filter with the narrow pipeline; requests that create it, add the broad pipeline as its active
  version, and activate it.
\<close>

definition narrow :: "json list" where
  "narrow = [JObject [(''$match'', JObject [])], JObject [(''$project'', JObject [(''objectId'', ONE)])]]"

definition broad :: "json list" where
  "broad = JObject [(''$match'', JObject [])] # narrow"

definition winter_out :: "json list \<Rightarrow> unit stage list" where
  "winter_out p = [first_match, first_project [(''objectId'', BInt 1), (''candidate'', BInt 1),
     (''properties'', BInt 1), (''coordinates'', BInt 1)]] @ map (\<lambda>_. []) p"

definition demo_services :: "(unit, unit) filter_services" where
  "demo_services =
     \<lparr>library = \<lparr>from_str = (\<lambda>_. Inl []), to_document = (\<lambda>_. Inr []), known_candidate_field = (\<lambda>_ _. True)\<rparr>,
      parse_stages = (\<lambda>t. Inr (if t = ''narrow'' then narrow else broad)),
      json_text = (\<lambda>p. Inr (if p = narrow then ''narrow'' else ''broad'')),
      latest_alert = (\<lambda>_ _. Inr None),
      start_pipeline = (\<lambda>_ p _. Inr (if length p = 5 then [] else [Inr [(''count'', BOther (Int32 10))]])),
      count_documents = (\<lambda>_ _ _. Inr 10), night_jd_window = (\<lambda>_ _. (0, 1)),
      date_text = (\<lambda>_. []), percent_text = (\<lambda>_ _. [])\<rparr>"

definition demo_worker :: filter_worker_config where
  "demo_worker = \<lparr>max_match_rate = Some 5, reference_night = Some 0, reference_window_days = 1\<rparr>"

definition demo_config :: api_config where
  "demo_config = \<lparr>crossmatch = (\<lambda>_. None), filter_workers = (\<lambda>_. Some demo_worker)\<rparr>"

definition demo_filter_at :: "bool \<Rightarrow> string \<Rightarrow> filter_version list \<Rightarrow> stored_filter" where
  "demo_filter_at act v vs = \<lparr>filter_id = ''f'', filter_name = ''demo'', description = None, permissions = (\<lambda>_. None),
     user_id = ''u'', watchlist = None, filter_survey = Winter, active = act, active_fid = v, fv = vs,
     created_at = 0, updated_at = 0\<rparr>"

definition demo_version_of :: "string \<Rightarrow> string \<Rightarrow> filter_version" where
  "demo_version_of v p = \<lparr>fid = v, version_pipeline = p, changelog = None, version_created_at = 0\<rparr>"

definition widen :: filter_version_post where
  "widen = \<lparr>version_body_pipeline = broad, version_body_changelog = None, set_as_active = None\<rparr>"

definition activate :: filter_patch where
  "activate = \<lparr>patch_name = None, patch_description = None, patch_active = Some True, patch_active_fid = None,
     patch_permissions = None, skip_validation = False\<rparr>"

lemma demo_pipelines_valid: "validate_filter_pipeline narrow = Inr ()" "validate_filter_pipeline broad = Inr ()"
  by (simp_all add: pipeline_valid_iff narrow_def broad_def stage_ok_def ends_in_object_id_def names_discarded_def
      strip_prefix_def project_keeps_ids_def ONE_def ZERO_def)

lemma demo_narrow_uses:
  "uses_field_in_filter narrow ''prv_candidates'' = None" "uses_field_in_filter broad ''prv_candidates'' = None"
  "uses_field_in_filter narrow ''cross_matches'' = None" "uses_field_in_filter broad ''cross_matches'' = None"
  "uses_field_in_filter narrow ''host_galaxy'' = None" "uses_field_in_filter broad ''host_galaxy'' = None"
  "uses_field_in_filter narrow ''aliases'' = None" "uses_field_in_filter broad ''aliases'' = None"
  by code_simp+

lemma weave_const: "weave (\<lambda>_. Inr []) (\<lambda>_. []) i p = Inr (map (\<lambda>_. []) p)"
  by (induction p arbitrary: i) (simp_all add: and_then_def map_err_def)

lemma demo_winter_built:
  "build_filter_pipeline (\<lambda>_. Inr []) narrow (\<lambda>_. None) Winter = Inr (winter_out narrow)"
  "build_filter_pipeline (\<lambda>_. Inr []) broad (\<lambda>_. None) Winter = Inr (winter_out broad)"
  by (simp_all add: build_filter_pipeline_def SURVEYS_REQUIRING_PERMISSIONS_def build_winter_filter_pipeline_def
    demo_pipelines_valid demo_narrow_uses build_around_def weave_const and_then_Inr_left Let_def winter_out_def)

lemma all_known: "find_unknown_candidate_field (\<lambda>_. True) j = None"
proof -
  have c: "check_candidate (\<lambda>_. True) p = None" for p
    by (simp add: check_candidate_def Let_def split: option.split)
  show ?thesis
    by (induction "\<lambda>_ :: string. True" j rule: find_unknown_candidate_field.induct)
      (auto simp: c find_map_None split: Option.bind_splits)
qed

lemma demo_known: "reject_unknown_candidate_fields (\<lambda>_. True) p survey = Inr ()"
  by (induction p) (simp_all add: all_known)

definition demo_post :: filter_post where
  "demo_post = \<lparr>post_name = ''demo'', post_description = None, post_pipeline = narrow, post_permissions = (\<lambda>_. None),
     post_survey = Winter, post_watchlist = None\<rparr>"

definition demo_user :: "string \<Rightarrow> user" where
  "demo_user i = \<lparr>uid = i, login = i, email = [], password = [], is_admin_user = False, watchlist_access = []\<rparr>"

definition demo_created :: "stored_filter list filter_system" where
  "demo_created = \<lparr>filters = [demo_filter_at False ''v'' [demo_version_of ''v'' ''narrow'']],
     taken_ids = {''f'', ''v''}, pending = []\<rparr>"

lemma demo_tested:
  "build_and_test_filter_version demo_services Winter narrow (\<lambda>_. None) () = Inr ()"
  "build_and_test_filter_version demo_services Winter broad (\<lambda>_. None) () = Inr ()"
  by (simp_all add: build_and_test_filter_version_def demo_services_def demo_known demo_winter_built run_test_pipeline_def
      and_then_Inr_left map_err_def)

lemma demo_history: "filter_history filter_coll demo_services demo_config [] demo_created"
proof -
  have "post_filter filter_coll demo_services demo_config (Inr []) ''f'' ''v'' 0 demo_post (Some (demo_user ''u'')) () [] =
      (Success ''successfully created new filter'' (hd (filters demo_created)), filters demo_created)"
    by (simp add: post_filter_def demo_post_def demo_tested SURVEYS_REQUIRING_PERMISSIONS_def new_filter_def
        list_coll_def demo_created_def demo_filter_at_def demo_version_of_def demo_user_def Let_def,
        simp add: demo_services_def new_filter_def Let_def)
  from filter_step.created [where M = filter_coll and s = "\<lparr>filters = [], taken_ids = {}, pending = []\<rparr>", simplified, OF this]
  have "filter_step filter_coll demo_services demo_config (demo_user ''u'')
      \<lparr>filters = [], taken_ids = {}, pending = []\<rparr> demo_created"
    by (simp add: demo_created_def)
  then show ?thesis
    by (rule filter_history.more [OF filter_history.start])
qed

lemma demo_deleted:
  "filter_step filter_coll demo_services demo_config (demo_user ''u'') demo_created (demo_created\<lparr>filters := []\<rparr>)"
  by (rule filter_step.deleted [where i = "''f''"])
    (simp add: delete_filter_def list_coll_def demo_created_def demo_filter_at_def demo_user_def visible_filter_def)

section \<open>What the invariant gives\<close>

text \<open>
  C5: Whatever requests users send, interleaved in any way, every stored filter stays well formed:
  its active version is one of its versions, its versions have different ids and pipelines that
  pass the validation, it has permissions for its survey where the survey requires them, and the
  watchlist it names, if any, has the prefix that watchlists have.
\<close>

theorem filters_stay_well_formed:
  assumes "doc_store M" "docs M db0 = []" "filter_history M S cfg db0 s" "f \<in> set (docs M (filters s))"
  shows "filter_ok S f"
  using history_inv [OF assms(3,1,2)] assms(4) by (simp add: stored_inv_def filter_fits_def)

theorem filters_stay_well_formed_witness:
  "filter_ok demo_services (hd (filters demo_created))"
  by (rule filters_stay_well_formed [OF list_store.doc_store_axioms _ demo_history]) (simp_all add: demo_created_def list_coll_def)

text \<open>
  C3: No request changes or deletes another user's filter, in any interleaving: a stored filter
  that a step takes away or replaces belongs to the user of that step, or the user is an admin.
\<close>

theorem only_owners_and_admins_change_filters:
  assumes "doc_store M" "docs M db0 = []" "filter_history M S cfg db0 s" "filter_step M S cfg u s s'"
    and "f \<in> set (docs M (filters s))" "f \<notin> set (docs M (filters s'))"
  shows "user_id f = uid u \<or> is_admin_user u"
proof -
  note inv = history_inv [OF assms(3,1,2)]
  then have fits: "filter_fits S (taken_ids s) (pending s) f"
    using assms(5) by (simp add: stored_inv_def)
  have "may_change u f"
    using assms(4)
  proof cases
    case (created i version now body q r db listed)
    with created_inv [OF inv assms(1) created(2)] assms(5,6) show ?thesis by auto
  next
    case (version_written i version body now r' db)
    with version_written_inv [OF inv assms(1) version_written(2,3)] touched_keeps [OF _ assms(5)] assms(6)
    have "filter_id f = i" by auto
    with filter_fits_write [OF fits version_written(2)] show ?thesis by simp
  next
    case (patch_written i patch now r'' db)
    with patch_written_inv [OF inv assms(1) patch_written(2,3)] touched_keeps [OF _ assms(5)] assms(6)
    have "filter_id f = i" by auto
    with filter_fits_write [OF fits patch_written(2)] show ?thesis by simp
  next
    case (deleted i r'' db)
    from deleted(2) have "docs M db = docs M (filters s) \<or>
        one_deleted (\<lambda>f. filter_id f = i \<and> visible_filter u f) (docs M (filters s)) (docs M db)"
      using doc_store.delete_one_law [OF assms(1)] by (fastforce simp: delete_filter_def split: prod.splits sum.splits)
    with one_deleted_gone [OF _ assms(5)] assms(5,6) deleted(1) show ?thesis
      by (auto simp: visible_filter_def may_change_def)
  qed (use assms(5,6) in auto)
  then show ?thesis by (simp add: may_change_def)
qed

theorem only_owners_and_admins_change_filters_witness:
  "user_id (hd (filters demo_created)) = uid (demo_user ''u'') \<or> is_admin_user (demo_user ''u'')"
  by (rule only_owners_and_admins_change_filters [OF list_store.doc_store_axioms _ demo_history demo_deleted])
    (simp_all add: demo_created_def list_coll_def)

end
