(* ===== verification/Filter_Activation.thy ===== *)
theory Filter_Activation
  imports Filter_Histories
begin

text \<open>
  What the check of a filter's activation promises, and what it does not: it is exact on its own,
  but it is made of the version that was active when it ran, and another request can write in
  between.
\<close>

section \<open>The check\<close>

text \<open>The alerts the check counts, and those the pipeline keeps of them.\<close>

definition window_condition :: "real \<Rightarrow> real \<Rightarrow> int list option \<Rightarrow> 'x stage" where
  "window_condition start_jd end_jd programids =
     (let window = [(''candidate.jd'', BDocument [(''$gte'', BOther (Double start_jd)), (''$lt'', BOther (Double end_jd))])]
      in case programids of
           Some ps \<Rightarrow> obj_insert ''candidate.programid'' (BDocument [(''$in'', BArray (map BInt ps))]) window
         | None \<Rightarrow> window)"

definition check_condition ::
  "('q, 'x) filter_services \<Rightarrow> filter_worker_config \<Rightarrow> survey \<Rightarrow> int \<Rightarrow> int list option \<Rightarrow> 'x stage" where
  "check_condition S wc survey night programids =
     window_condition (fst (night_jd_window S survey (night - (int (reference_window_days wc) - 1))))
       (snd (night_jd_window S survey night)) programids"

definition few_matches ::
  "('q, 'x) filter_services \<Rightarrow> filter_worker_config \<Rightarrow> survey \<Rightarrow> json list \<Rightarrow> permissions \<Rightarrow> 'q \<Rightarrow> bool"
where
  "few_matches S wc survey p perms q \<longleftrightarrow>
     (\<exists>night rate programids accessible built first rest cursor matched.
        reference_night wc = Some night \<and> max_match_rate wc = Some rate \<and>
        activation_programids survey perms = Inr programids \<and>
        (let condition = check_condition S wc survey night programids
         in count_documents S survey condition q = Inr accessible \<and> 0 < accessible \<and>
            build_filter_pipeline (to_document (library S)) p perms survey = Inr (first # rest) \<and>
            map_of first ''$match'' \<noteq> None \<and>
            built = obj_insert ''$match'' (BDocument condition) first # rest \<and>
            start_pipeline S survey (built @ [[(''$count'', BString ''count'')]]) q = Inr cursor) \<and>
        matched_count cursor = Inr matched \<and> 100 * matched \<le> int (accessible * rate))"

lemma max_allowed_le: "\<not> max_allowed n rate < k \<longleftrightarrow> 100 * k \<le> int n * int rate"
proof -
  have "max_allowed n rate = int (n * rate) div 100"
    by (simp add: max_allowed_def zdiv_int)
  then show ?thesis by (simp add: not_less) linarith
qed

lemma programids_only_for_ztf: "activation_programids survey perms = Inr programids \<Longrightarrow> survey \<noteq> Ztf \<Longrightarrow> programids = None"
  by (auto simp: activation_programids_def SURVEYS_REQUIRING_PERMISSIONS_def split: if_splits)

lemma counted_window:
  "activation_programids survey perms = Inr programids \<Longrightarrow>
   count_alerts_in_jd_window S survey a b programids q = count_documents S survey (window_condition a b programids) q"
  using programids_only_for_ztf [of survey perms programids]
  by (cases "survey = Ztf") (auto simp: count_alerts_in_jd_window_def window_condition_def Let_def)

lemmas window_condition_folds = window_condition_def [unfolded Let_def, symmetric]

lemma checked_Inr: "(if b then Inl e else r) = Inr x \<longleftrightarrow> \<not> b \<and> r = Inr x"
  by simp

lemma set_match_Inr:
  "set_match c p = Inr p' \<longleftrightarrow>
     (\<exists>first rest. p = first # rest \<and> map_of first ''$match'' \<noteq> None \<and> p' = obj_insert ''$match'' c first # rest)"
  by (auto simp: set_match_def split: list.splits)

lemma activation_check_iff:
  "validate_filter_activation S wc survey p perms q = Inr () \<longleftrightarrow> few_matches S wc survey p perms q"
proof (cases "reference_night wc")
  case (Some night)
  show ?thesis
  proof (cases "max_match_rate wc")
    case (Some rate)
    show ?thesis
    proof (cases "activation_programids survey perms")
      case (Inr programids)
      show ?thesis
      proof -
        let ?c = "check_condition S wc survey night programids"
        have "validate_filter_activation S wc survey p perms q = Inr () \<longleftrightarrow>
            (\<exists>n. count_documents S survey ?c q = Inr n \<and> n \<noteq> 0 \<and>
              (\<exists>b. build_filter_pipeline (to_document (library S)) p perms survey = Inr b \<and>
                (\<exists>t. set_match (BDocument ?c) b = Inr t \<and>
                  (\<exists>r. start_pipeline S survey (t @ [[(''$count'', BString ''count'')]]) q = Inr r \<and>
                    (\<exists>m. matched_count r = Inr m \<and> \<not> max_allowed n rate < m)))))"
          unfolding validate_filter_activation_def Let_def window_condition_folds
          by (simp only: \<open>reference_night wc = Some night\<close> Some Inr prod.case option.case and_then_Inr_left
              counted_window [OF Inr] check_condition_def and_then_Inr map_err_Inr checked_Inr simp_thms)
        also have "\<dots> \<longleftrightarrow> few_matches S wc survey p perms q"
          using \<open>reference_night wc = Some night\<close> Some Inr
          by (simp add: few_matches_def set_match_Inr max_allowed_le Let_def) (rule iffI; fastforce)
        finally show ?thesis .
      qed
    qed (simp add: validate_filter_activation_def few_matches_def \<open>reference_night wc = Some night\<close> Some and_then_def)
  qed (simp add: validate_filter_activation_def few_matches_def Some)
qed (simp add: validate_filter_activation_def few_matches_def)

section \<open>A patch that activates\<close>

lemma patched:
  assumes M: "doc_store M" and d: "distinct (map filter_id (docs M db))"
    and f: "f \<in> set (docs M db)" "filter_id f = i"
    and w: "patch_write M i now body db = (Success_Without_Data m, db')"
  shows "set_fields now body f \<in> set (docs M db')"
proof -
  obtain n where "update_one M (\<lambda>f. filter_id f = i) (set_fields now body) db = (Inr n, db')"
    using w by (auto simp: patch_write_def split: prod.splits sum.splits)
  from doc_store.update_one_ok [OF M this] f obtain j where
    j: "j < length (docs M db)" "filter_id (docs M db ! j) = i"
      "docs M db' = (docs M db)[j := set_fields now body (docs M db ! j)]"
    by (auto simp: one_updated_def)
  then have "docs M db ! j = f"
    using d f by (auto simp: distinct_map inj_on_def)
  with j show ?thesis
    by (simp add: set_update_memI)
qed

lemma own_filter_refuses: "own_filter M verb i cu db = Inl r \<Longrightarrow> \<not> is_success r"
  by (auto simp: own_filter_def no_such_filter_def split: option.splits sum.splits if_splits)

lemma check_activation_refuses: "check_activation S cfg survey p perms q = Inl r \<Longrightarrow> \<not> is_success r"
  by (auto simp: check_activation_def no_worker_config_def map_err_def split: option.splits sum.splits)

lemma patch_checks_refuse:
  assumes "patch_checks M S cfg i body cu q db = Inl r"
  shows "\<not> is_success r"
proof (cases "own_filter M ''modify'' i cu db :: (unit response, _) result")
  case (Inl r')
  with assms own_filter_refuses [OF Inl] show ?thesis by (simp add: patch_checks_def and_then_def)
next
  case (Inr uf)
  with assms show ?thesis
    by (cases uf) (auto simp: patch_checks_def and_then_Inr_left and_then_def needs_permissions_def stored_pipeline_def
        map_err_def Let_def dest: check_activation_refuses split: option.splits sum.splits if_splits)
qed

lemma patch_filter_Success:
  "patch_filter M S cfg i now body cu q db = (Success_Without_Data m, db') \<Longrightarrow>
   patch_checks M S cfg i body cu q db = Inr () \<and> patch_write M i now body db = (Success_Without_Data m, db')"
  by (auto simp: patch_filter_def dest: patch_checks_refuse split: sum.splits)

lemma set_match_out:
  "set_match c (winter_out p) = Inr (obj_insert ''$match'' c first_match # tl (winter_out p))"
  by (simp add: winter_out_def set_match_def first_match_def)

lemma winter_length: "length (winter_out narrow) = 4" "length (winter_out broad) = 5"
  by (simp_all add: winter_out_def narrow_def broad_def)

lemma demo_checked:
  "validate_filter_activation demo_services demo_worker Winter narrow (\<lambda>_. None) () = Inr ()"
  "validate_filter_activation demo_services demo_worker Winter broad (\<lambda>_. None) () \<noteq> Inr ()"
  unfolding validate_filter_activation_def
  by (simp_all add: demo_services_def demo_worker_def activation_programids_def SURVEYS_REQUIRING_PERMISSIONS_def
      count_alerts_in_jd_window_def demo_winter_built set_match_out and_then_Inr_left map_err_def matched_count_def
      max_allowed_def winter_length Let_def)

lemma demo_parsed:
  "parse_stages demo_services ''narrow'' = Inr narrow" "parse_stages demo_services ''broad'' = Inr broad"
  by (simp_all add: demo_services_def broad_def)

lemma demo_activation:
  "check_activation demo_services demo_config Winter narrow (\<lambda>_. None) () = Inr ()"
  by (simp add: check_activation_def demo_config_def demo_checked map_err_def)

text \<open>
  C24: A patch that succeeds and leaves a filter active after turning it on, choosing its active
  version or its permissions, without asking to skip the check, leaves an active filter whose active
  version keeps, of the alerts its permissions reach in the reference nights (there are some), at
  most the configured share.
\<close>

theorem activation_is_checked:
  assumes "doc_store M" "distinct (map filter_id (docs M db))"
    and "patch_filter M S cfg i now body (Some u) q db = (Success_Without_Data m, db')"
    and "f \<in> set (docs M db)" "filter_id f = i" "needs_check body f"
  shows "\<exists>f'\<in>set (docs M db'). filter_id f' = i \<and> active f' \<and>
    (\<exists>v p wc. find_version (active_fid f') f' = Some v \<and> parse_stages S (version_pipeline v) = Inr p \<and>
       filter_workers cfg (filter_survey f') = Some wc \<and> few_matches S wc (filter_survey f') p (permissions f') q)"
proof -
  note ok = patch_filter_Success [OF assms(3)]
  from patch_checks_Inr [OF conjunct1 [OF ok] assms(1)] obtain g where g: "g \<in> set (docs M db)" "filter_id g = i"
    "needs_check body g \<longrightarrow>
       (\<exists>v p. find_version (or_keep (patch_active_fid body) (active_fid g)) g = Some v \<and>
          parse_stages S (version_pipeline v) = Inr p \<and>
          check_activation S cfg (filter_survey g) p (or_keep (patch_permissions body) (permissions g)) q =
            (Inr () :: (unit response, unit) result))"
    by blast
  with assms(2,4,5) have "g = f"
    by (auto simp: distinct_map inj_on_def)
  with g(3) assms(6) obtain v p where v: "find_version (or_keep (patch_active_fid body) (active_fid f)) f = Some v"
    "parse_stages S (version_pipeline v) = Inr p"
    "check_activation S cfg (filter_survey f) p (or_keep (patch_permissions body) (permissions f)) q =
       (Inr () :: (unit response, unit) result)"
    by blast
  have new: "set_fields now body f \<in> set (docs M db')"
    by (rule patched [OF assms(1,2,4,5) conjunct2 [OF ok]])
  from v(3) obtain wc where wc: "filter_workers cfg (filter_survey f) = Some wc"
    "few_matches S wc (filter_survey f) p (or_keep (patch_permissions body) (permissions f)) q"
    by (auto simp: check_activation_def map_err_Inr activation_check_iff split: option.splits)
  with v assms(5,6) show ?thesis
    by (intro bexI [OF _ new]) (auto simp: find_version_def needs_check_def)
qed

theorem activation_is_checked_witness:
  "\<exists>f'\<in>set (docs filter_coll [demo_filter_at True ''narrow'' [demo_version_of ''narrow'' ''narrow'']]).
    filter_id f' = ''f'' \<and> active f' \<and>
    (\<exists>v p wc. find_version (active_fid f') f' = Some v \<and> parse_stages demo_services (version_pipeline v) = Inr p \<and>
       filter_workers demo_config (filter_survey f') = Some wc \<and>
       few_matches demo_services wc (filter_survey f') p (permissions f') ())"
proof (rule activation_is_checked [OF list_store.doc_store_axioms,
      where f = "demo_filter_at False ''narrow'' [demo_version_of ''narrow'' ''narrow'']"])
  show "patch_filter filter_coll demo_services demo_config ''f'' 0 activate (Some (demo_user ''u'')) ()
      [demo_filter_at False ''narrow'' [demo_version_of ''narrow'' ''narrow'']] =
    (Success_Without_Data ''successfully updated filter id: f'',
     [demo_filter_at True ''narrow'' [demo_version_of ''narrow'' ''narrow'']])"
    by (simp add: patch_filter_def patch_checks_def patch_write_def own_filter_def list_coll_def first_by_def
        demo_filter_at_def demo_version_of_def activate_def set_fields_def nonempty_def or_keep_def needs_check_def
        sets_nothing_def find_version_def stored_pipeline_def and_then_Inr_left map_err_def demo_parsed
        demo_activation demo_user_def)
qed (simp_all add: list_coll_def demo_filter_at_def needs_check_def activate_def or_keep_def)

section \<open>Two requests at once\<close>

text \<open>
  The check of an activation can be raced: a new version is accepted unchecked while its filter is
  inactive, the activation is checked on the old version, and both are written, which leaves an
  active filter whose active version the check refuses, though no request asked to skip it and no
  alert changed.
\<close>

theorem activation_check_can_be_raced:
  "\<exists>db1 db2 f. let M = list_coll (\<lambda>f. Some (filter_id f)); S = demo_services; cfg = demo_config;
       u = demo_user ''u''; db = [demo_filter_at False ''narrow'' [demo_version_of ''narrow'' ''narrow'']]
     in version_checks M S cfg ''f'' widen (Some u) () db = Inr () \<and>
        patch_checks M S cfg ''f'' activate (Some u) () db = Inr () \<and>
        version_write M S ''f'' ''broad'' 0 widen db =
          (Returns (Success ''successfully added new version broad to filter id: f'' ''broad''), db1) \<and>
        patch_write M ''f'' 0 activate db1 = (Success_Without_Data ''successfully updated filter id: f'', db2) \<and>
        docs M db2 = [f] \<and> active f \<and>
        (\<exists>v p. find_version (active_fid f) f = Some v \<and> parse_stages S (version_pipeline v) = Inr p \<and>
           validate_filter_activation S demo_worker (filter_survey f) p (permissions f) () \<noteq> Inr ())"
proof -
  have t: "json_text demo_services broad = Inr ''broad''"
    by (simp_all add: demo_services_def broad_def)
  show ?thesis
    by (rule exI [of _ "[demo_filter_at False ''broad'' [demo_version_of ''narrow'' ''narrow'', demo_version_of ''broad'' ''broad'']]"],
        rule exI [of _ "[demo_filter_at True ''broad'' [demo_version_of ''narrow'' ''narrow'', demo_version_of ''broad'' ''broad'']]"],
        rule exI [of _ "demo_filter_at True ''broad'' [demo_version_of ''narrow'' ''narrow'', demo_version_of ''broad'' ''broad'']"])
      (simp add: Let_def version_checks_def patch_checks_def version_write_def patch_write_def own_filter_def
        list_coll_def first_by_def demo_filter_at_def demo_version_of_def widen_def activate_def set_active_def
        demo_tested add_version_def set_fields_def nonempty_def or_keep_def needs_check_def sets_nothing_def
        find_version_def stored_pipeline_def and_then_Inr_left map_err_def demo_activation demo_parsed t demo_checked demo_user_def)
qed

end
