(* ===== verification/Api_Projection.thy ===== *)
theory Api_Projection
  imports Filter_Build
begin

text \<open>
  What a find query's projection asks for of the geometry of solar-system objects
  (\<open>src/src/api/routes/queries/find.rs\<close>): the geometry is derived when a document is read, from the
  designation and the epoch, so a projection that asks for it without these has them added, and the
  answer has them removed again.
\<close>

definition ZTF_ALERTS :: string where "ZTF_ALERTS = ''ZTF_alerts''"

definition GEOMETRY_FIELDS :: "string list" where
  "GEOMETRY_FIELDS = [''helio_dist'', ''topo_dist'', ''phase_angle'', ''true_anomaly'', ''perihelion_time'']"

definition GEOMETRY_INPUTS :: "string list" where
  "GEOMETRY_INPUTS = [''properties.sso.designation'', ''candidate.jd'']"

section \<open>Reading a projection\<close>

fun is_included :: "'x bval \<Rightarrow> bool" where
  "is_included (BOther (Bool b)) = b"
| "is_included (BOther (Int32 i)) = (i \<noteq> 0)"
| "is_included (BOther (Int64 i)) = (i \<noteq> 0)"
| "is_included (BOther (Double d)) = (d \<noteq> 0)"
| "is_included _ = True"

fun excludes :: "'x bval \<Rightarrow> bool" where
  "excludes (BDocument sub) = list_all (\<lambda>(k, v). k = ''_id'' \<or> excludes v) sub"
| "excludes v = (\<not> is_included v)"

definition is_exclusion :: "'x stage \<Rightarrow> bool" where
  "is_exclusion projection = excludes (BDocument projection)"

definition strip_prefix_path :: "string \<Rightarrow> string \<Rightarrow> string option" where
  "strip_prefix_path path key =
     (if path = key then Some []
      else case strip_prefix key path of None \<Rightarrow> None | Some rest \<Rightarrow> strip_prefix ''.'' rest)"

function projected :: "'x stage \<Rightarrow> string \<Rightarrow> bool option" where
  "projected [] path = None"
| "projected ((k, v) # kvs) path =
     (case strip_prefix_path path k of
        None \<Rightarrow> projected kvs path
      | Some rest \<Rightarrow>
          (case v of
             BDocument sub \<Rightarrow> if rest \<noteq> [] then projected sub rest else Some True
           | other \<Rightarrow> Some (is_included other)))"
  by pat_completeness auto

termination
  by (relation "measure (\<lambda>(kvs, _). size_list (size_prod (\<lambda>_. 0) size) kvs)") auto

definition requested_geometry :: "'x stage option \<Rightarrow> string list" where
  "requested_geometry projection =
     (case projection of
        None \<Rightarrow> GEOMETRY_FIELDS
      | Some p \<Rightarrow>
          filter (\<lambda>field. case projected p (''properties.sso.'' @ field) of
                    Some b \<Rightarrow> b | None \<Rightarrow> is_exclusion p) GEOMETRY_FIELDS)"

section \<open>Adding the inputs and removing them\<close>

text \<open>The paths added, and the projection to send.\<close>

definition inject_geometry_inputs ::
  "string \<Rightarrow> 'x stage option \<Rightarrow> string list \<times> 'x stage option" where
  "inject_geometry_inputs collection_name projection =
     (if collection_name \<noteq> ZTF_ALERTS \<or> requested_geometry projection = [] then ([], projection)
      else case projection of
        None \<Rightarrow> ([], projection)
      | Some p \<Rightarrow>
          if is_exclusion p then ([], projection)
          else
            let missing = filter (\<lambda>path. projected p path \<noteq> Some True) GEOMETRY_INPUTS
            in if missing = [] then ([], projection)
               else (missing, Some (foldl (\<lambda>d path. obj_insert path (BInt 1) d) p missing)))"

fun split_path :: "string \<Rightarrow> string list" where
  "split_path [] = [[]]"
| "split_path (c # cs) =
     (if c = CHR ''.'' then [] # split_path cs
      else case split_path cs of [] \<Rightarrow> [[c]] | w # ws \<Rightarrow> (c # w) # ws)"

definition obj_remove :: "string \<Rightarrow> 'x stage \<Rightarrow> 'x stage" where
  "obj_remove k d = filter (\<lambda>(k', _). k' \<noteq> k) d"

fun sub_document :: "string list \<Rightarrow> 'x stage \<Rightarrow> 'x stage option" where
  "sub_document [] d = Some d"
| "sub_document (p # ps) d =
     (case map_of d p of Some (BDocument s) \<Rightarrow> sub_document ps s | _ \<Rightarrow> None)"

fun change_sub :: "string list \<Rightarrow> ('x stage \<Rightarrow> 'x stage) \<Rightarrow> 'x stage \<Rightarrow> 'x stage" where
  "change_sub [] f d = f d"
| "change_sub (p # ps) f d =
     (case map_of d p of Some (BDocument s) \<Rightarrow> obj_insert p (BDocument (change_sub ps f s)) d | _ \<Rightarrow> d)"

definition remove_one :: "'x stage \<Rightarrow> string \<Rightarrow> 'x stage" where
  "remove_one d path =
     (let parts = split_path path; leaf = last parts; parents = butlast parts
      in case sub_document parents d of
           None \<Rightarrow> d
         | Some parent \<Rightarrow>
             let d = change_sub parents (obj_remove leaf) d
             in if obj_remove leaf parent = [] \<and> length parents = 1 then obj_remove (hd parents) d else d)"

definition remove_injected :: "string list \<Rightarrow> 'x stage \<Rightarrow> 'x stage" where
  "remove_injected injected d = foldl remove_one d injected"

section \<open>What is removed\<close>

text \<open>The value at a path.\<close>

fun value_at :: "string list \<Rightarrow> 'x stage \<Rightarrow> 'x bval option" where
  "value_at [] d = Some (BDocument d)"
| "value_at (p # ps) d =
     (case map_of d p of
        Some (BDocument s) \<Rightarrow> value_at ps s
      | other \<Rightarrow> if ps = [] then other else None)"

lemma map_of_obj_remove: "map_of (obj_remove k d) k' = (if k' = k then None else map_of d k')"
  by (induction d) (auto simp: obj_remove_def)

lemma value_at_obj_remove:
  "value_at (q # qs) (obj_remove k d) = (if q = k then None else value_at (q # qs) d)"
  by (simp add: map_of_obj_remove)

lemma change_sub_removes:
  "value_at (parents @ [leaf]) (change_sub parents (obj_remove leaf) d) = None"
proof (induction parents arbitrary: d)
  case Nil
  show ?case
    using value_at_obj_remove [of leaf "[]" leaf d] by simp
next
  case (Cons p ps)
  then show ?case
    by (auto simp: map_of_obj_insert split: option.splits bson.splits)
qed

lemma change_sub_keeps:
  "\<not> prefix (parents @ [leaf]) q \<Longrightarrow> \<not> prefix q (parents @ [leaf]) \<Longrightarrow>
   value_at q (change_sub parents (obj_remove leaf) d) = value_at q d"
proof (induction parents arbitrary: d q)
  case Nil
  then show ?case
    by (cases q) (auto simp: map_of_obj_remove)
next
  case (Cons p ps)
  then obtain r rs where q: "q = r # rs" by (cases q) auto
  show ?case
  proof (cases "r = p")
    case True
    with Cons q show ?thesis
      by (auto simp: map_of_obj_insert split: option.splits bson.splits)
  next
    case False
    with q show ?thesis
      by (auto simp: map_of_obj_insert split: option.splits bson.splits)
  qed
qed

lemma sub_document_value: "sub_document ps d = Some s \<Longrightarrow> value_at ps d = Some (BDocument s)"
  by (induction ps arbitrary: d) (auto split: option.splits bson.splits)

lemma sub_document_None: "sub_document ps d = None \<Longrightarrow> value_at (ps @ [leaf]) d = None"
proof (induction ps arbitrary: d)
  case (Cons p ps)
  then show ?case
    by (auto split: option.splits bson.splits)
qed simp

lemma value_at_below:
  "sub_document ps d = Some s \<Longrightarrow> value_at (ps @ qs) d = value_at qs s"
  by (induction ps arbitrary: d) (auto split: option.splits bson.splits)

lemma sub_document_change:
  "sub_document ps d = Some s \<Longrightarrow> sub_document ps (change_sub ps f d) = Some (f s)"
  by (induction ps arbitrary: d) (auto simp: map_of_obj_insert split: option.splits bson.splits)

lemma remove_one_removes: "split_path path \<noteq> [] \<Longrightarrow> value_at (split_path path) (remove_one d path) = None"
proof -
  assume ne: "split_path path \<noteq> []"
  define ps leaf where "ps = butlast (split_path path)" and "leaf = last (split_path path)"
  have path: "split_path path = ps @ [leaf]"
    using ne by (simp add: ps_def leaf_def)
  show ?thesis
  proof (cases "sub_document ps d")
    case None
    then show ?thesis
      using sub_document_None [of ps d leaf] by (simp add: remove_one_def path)
  next
    case (Some s)
    have "value_at (ps @ [leaf]) (obj_remove (hd ps) d') = None" if "length ps = 1" for d'
      using that by (cases ps) (auto simp: map_of_obj_remove)
    with Some change_sub_removes [of ps leaf d] show ?thesis
      by (auto simp: remove_one_def path Let_def)
  qed
qed

lemma remove_one_keeps:
  assumes "split_path path \<noteq> []" "\<not> prefix (split_path path) q" "\<not> prefix q (split_path path)"
  shows "value_at q (remove_one d path) = value_at q d"
proof -
  define ps leaf where "ps = butlast (split_path path)" and "leaf = last (split_path path)"
  have path: "split_path path = ps @ [leaf]"
    using assms(1) by (simp add: ps_def leaf_def)
  show ?thesis
  proof (cases "sub_document ps d")
    case None
    then show ?thesis
      by (simp add: remove_one_def path)
  next
    case (Some s)
    have kept: "value_at q (change_sub ps (obj_remove leaf) d) = value_at q d"
      using change_sub_keeps assms(2,3) path by metis
    have "value_at q (obj_remove p (change_sub ps (obj_remove leaf) d)) = value_at q d"
      if "ps = [p]" "obj_remove leaf s = []" for p
    proof -
      obtain r rs where q: "q = r # rs"
        using assms(3) by (cases q) auto
      show ?thesis
      proof (cases "r = p")
        case True
        with assms(3) path that q have "rs \<noteq> []" by auto
        have "sub_document [p] (change_sub ps (obj_remove leaf) d) = Some []"
          using sub_document_change [OF Some, of "obj_remove leaf"] that by simp
        from value_at_below [OF this, of rs] True q \<open>rs \<noteq> []\<close> kept show ?thesis
          by (cases rs) (auto simp: map_of_obj_remove)
      next
        case False
        with kept q show ?thesis
          by (simp add: map_of_obj_remove)
      qed
    qed
    moreover have "\<exists>p. ps = [p]" if "length ps = 1"
      using that by (cases ps) auto
    ultimately show ?thesis
      using Some kept by (auto simp: remove_one_def path Let_def)
  qed
qed

definition DESIGNATION :: "string list" where "DESIGNATION = [''properties'', ''sso'', ''designation'']"
definition EPOCH :: "string list" where "EPOCH = [''candidate'', ''jd'']"

lemma split_inputs:
  "split_path ''properties.sso.designation'' = DESIGNATION" "split_path ''candidate.jd'' = EPOCH"
  by (simp_all add: DESIGNATION_def EPOCH_def)

lemma apart: "\<not> prefix DESIGNATION EPOCH" "\<not> prefix EPOCH DESIGNATION"
  by (simp_all add: DESIGNATION_def EPOCH_def)

lemma missing_inputs:
  "fst (inject_geometry_inputs c p) \<in> {[], [''properties.sso.designation''], [''candidate.jd''],
     [''properties.sso.designation'', ''candidate.jd'']}"
  by (auto simp: inject_geometry_inputs_def GEOMETRY_INPUTS_def Let_def split: option.splits)

lemma input_removed:
  "value_at DESIGNATION (remove_one d ''properties.sso.designation'') = None"
  "value_at EPOCH (remove_one d ''candidate.jd'') = None"
  "value_at DESIGNATION (remove_one d ''candidate.jd'') = value_at DESIGNATION d"
  using remove_one_removes [of "''properties.sso.designation''" d] remove_one_removes [of "''candidate.jd''" d]
    remove_one_keeps [of "''candidate.jd''" DESIGNATION d] apart
  unfolding split_inputs by (simp_all add: DESIGNATION_def EPOCH_def del: value_at.simps)

lemma removed_at:
  assumes "fst (inject_geometry_inputs c p) = missing" "path \<in> set missing"
  shows "value_at (split_path path) (remove_injected missing d) = None"
proof -
  consider "missing = [''properties.sso.designation'']" | "missing = [''candidate.jd'']"
    | "missing = [''properties.sso.designation'', ''candidate.jd'']"
    using missing_inputs [of c p] assms by auto
  then show ?thesis
    using assms(2) by cases (auto simp: remove_injected_def split_inputs input_removed simp del: value_at.simps split_path.simps)
qed

lemma kept_at:
  "list_all (\<lambda>path. split_path path \<noteq> [] \<and> \<not> prefix (split_path path) q \<and> \<not> prefix q (split_path path)) missing \<Longrightarrow>
   value_at q (remove_injected missing d) = value_at q d"
proof (induction missing arbitrary: d)
  case (Cons path missing)
  then show ?case
    using Cons.IH [of "remove_one d path"] remove_one_keeps [of path q d] by (simp add: remove_injected_def)
qed (simp add: remove_injected_def)

text \<open>
  What is added to a projection for the geometry does not show in the answer: every path that
  was added is gone from a document, and every other value is where it was (unless it lies on the
  way to an added path).
\<close>

theorem injected_inputs_are_removed:
  assumes "inject_geometry_inputs c p = (missing, sent)"
  shows "(path \<in> set missing \<longrightarrow> value_at (split_path path) (remove_injected missing d) = None) \<and>
    ((\<forall>path\<in>set missing. \<not> prefix (split_path path) q \<and> \<not> prefix q (split_path path)) \<longrightarrow>
       value_at q (remove_injected missing d) = value_at q d)"
proof -
  have "fst (inject_geometry_inputs c p) = missing"
    using assms by simp
  moreover have "list_all (\<lambda>path. split_path path \<noteq> []) missing"
    using missing_inputs [of c p] assms by (auto simp: split_inputs DESIGNATION_def EPOCH_def)
  ultimately show ?thesis
    using removed_at [of c p missing path d] kept_at [of q missing d] by (auto simp: list_all_iff)
qed

definition geometry_projection :: "unit stage" where
  "geometry_projection = [(''properties.sso.helio_dist'', BInt 1), (''objectId'', BInt 1)]"

theorem injected_inputs_are_removed_witness:
  "value_at [''candidate'', ''jd''] (remove_injected [''properties.sso.designation'', ''candidate.jd'']
     [(''objectId'', BString ''ZTF1''), (''candidate'', BDocument [(''jd'', BInt 5)])]) = (None :: unit bval option) \<and>
   value_at [''objectId''] (remove_injected [''properties.sso.designation'', ''candidate.jd'']
     [(''objectId'', BString ''ZTF1''), (''candidate'', BDocument [(''jd'', BInt 5)])])
     = Some (BString ''ZTF1'' :: unit bval)"
proof -
  obtain sent where "inject_geometry_inputs ''ZTF_alerts'' (Some geometry_projection)
      = ([''properties.sso.designation'', ''candidate.jd''], sent)"
    by (simp add: inject_geometry_inputs_def requested_geometry_def GEOMETRY_FIELDS_def GEOMETRY_INPUTS_def
        ZTF_ALERTS_def geometry_projection_def is_exclusion_def strip_prefix_path_def strip_prefix_def prefix_def)
  from injected_inputs_are_removed [OF this, of "''candidate.jd''"
      "[(''objectId'', BString ''ZTF1''), (''candidate'', BDocument [(''jd'', BInt 5)])]" "[''objectId'']"]
  show ?thesis by simp
qed

end
