(* ===== verification/Api_Queries.thy ===== *)
theory Api_Queries
  imports Api_Catalogs Api_Projection
begin

text \<open>
  The query routes (\<open>src/src/api/routes/queries/\<close>, \<open>src/src/api/filters.rs\<close>, \<open>src/src/api/limits.rs\<close>):
  a user's filter or aggregation pipeline runs on a collection as the user wrote it, after the
  collections it reads have been checked.  The database answers queries, the bson library turns
  JSON into documents, and the semaphore of large queries gives a slot or does not.  Geometry of
  solar-system objects (\<open>fill_sso_geometry\<close>) is a function of the orbits collection.
\<close>

section \<open>The database as the routes see it\<close>

text \<open>\<open>ErrorKind::Command\<close> carries a code; any other failure its text.\<close>

datatype query_failure = Command_Failure int string | Other_Failure string

text \<open>A cursor is what advancing it gives, one document at a time: the bytes of the next document
  and what they read as, or a failure.\<close>

datatype 'x cursor_step = Advance_Fails query_failure | Advance_Gives nat "(query_failure, 'x stage) result"

record 'x find_options =
  projection_option :: "'x stage option"
  limit_option :: "int option"
  skip_option :: "nat option"
  sort_option :: "'x stage option"
  max_time :: duration

record ('db, 'x) query_server =
  list_collection_names :: "'db \<Rightarrow> (mongo_error, string list) result"
  json_document :: "json \<Rightarrow> (string, 'x stage) result"
  aggregate_on ::
    "string \<Rightarrow> 'x stage list \<Rightarrow> duration \<Rightarrow> 'db \<Rightarrow> (query_failure, 'x cursor_step list) result"
  find_on ::
    "string \<Rightarrow> 'x stage \<Rightarrow> 'x find_options \<Rightarrow> 'db \<Rightarrow> (query_failure, 'x cursor_step list) result"
  count_on :: "string \<Rightarrow> 'x stage \<Rightarrow> 'db \<Rightarrow> (query_failure, nat) result"
  error_text :: "query_failure \<Rightarrow> string"
  estimated_count_on :: "string \<Rightarrow> 'db \<Rightarrow> (query_failure, nat) result"
  fill_sso_geometry :: "string \<Rightarrow> 'x stage option \<Rightarrow> 'x stage list \<Rightarrow> 'db \<Rightarrow> 'x stage list"

section \<open>Limits and errors\<close>

definition MAX_RESULT_BYTES :: nat where "MAX_RESULT_BYTES = 256 * 1024 * 1024"
definition DEFAULT_QUERY_MAX_TIME :: duration where "DEFAULT_QUERY_MAX_TIME = from_secs 30"
definition MAX_TIME_MS_EXPIRED :: int where "MAX_TIME_MS_EXPIRED = 50"
definition MAX_CONE_SEARCH_COORDINATES :: nat where "MAX_CONE_SEARCH_COORDINATES = 10000"

datatype result_error = TooLarge | Database query_failure

definition too_large :: "'a response" where
  "too_large = BadRequest (''Results exceed '' @ dec (MAX_RESULT_BYTES div (1024 * 1024))
     @ '' MB; add a limit and paginate with skip, narrow the query or project fewer fields'')"

definition no_slot :: "'a response" where
  "no_slot = ServiceUnavailable ''Too many large queries are running; retry in a minute''"

fun query_error :: "query_failure \<Rightarrow> string \<Rightarrow> 'a response" where
  "query_error (Command_Failure code m) ctx =
     (if code = MAX_TIME_MS_EXPIRED
      then RequestTimeout ''query exceeded max_time_ms: narrow the filter, add a limit, or raise the budget''
      else BadRequest (ctx @ '': '' @ m))"
| "query_error (Other_Failure m) ctx = InternalError (ctx @ '': '' @ m)"

text \<open>\<open>next_result\<close> until the cursor ends; \<open>bytes_read\<close> runs on over the cursors of a request.\<close>

fun next_result ::
  "'x cursor_step list \<Rightarrow> nat \<Rightarrow> (result_error, ('x stage \<times> 'x cursor_step list) option) result \<times> nat" where
  "next_result [] bytes_read = (Inr None, bytes_read)"
| "next_result (Advance_Fails e # steps) bytes_read = (Inl (Database e), bytes_read)"
| "next_result (Advance_Gives n r # steps) bytes_read =
     (let bytes_read = bytes_read + n
      in if MAX_RESULT_BYTES < bytes_read then (Inl TooLarge, bytes_read)
         else (case r of Inl e \<Rightarrow> Inl (Database e) | Inr d \<Rightarrow> Inr (Some (d, steps)), bytes_read))"

lemma next_result_shorter:
  "next_result steps b = (Inr (Some (d, steps')), b') \<Longrightarrow> length steps' < length steps"
  by (induction steps b rule: next_result.induct) (auto simp: Let_def split: if_splits sum.splits)

function collect_docs ::
  "'x cursor_step list \<Rightarrow> nat \<Rightarrow> (result_error, 'x stage list) result \<times> nat" where
  "collect_docs steps bytes_read =
     (case next_result steps bytes_read of
        (Inl e, b) \<Rightarrow> (Inl e, b)
      | (Inr None, b) \<Rightarrow> (Inr [], b)
      | (Inr (Some (d, steps)), b) \<Rightarrow>
          (case collect_docs steps b of (r, b) \<Rightarrow> (and_then r (\<lambda>ds. Inr (d # ds)), b)))"
  by pat_completeness auto

termination
  by (relation "measure (\<lambda>(steps, _). length steps)") (auto dest!: next_result_shorter [OF sym])

declare collect_docs.simps [simp del]

definition answer_docs :: "string \<Rightarrow> (result_error, 'x stage list) result \<Rightarrow> ('x stage list \<Rightarrow> 'a response) \<Rightarrow> 'a response" where
  "answer_docs ctx r ok =
     (case r of Inl TooLarge \<Rightarrow> too_large | Inl (Database e) \<Rightarrow> query_error e ctx | Inr ds \<Rightarrow> ok ds)"

section \<open>Reading a query\<close>

definition parse_filter :: "('db, 'x) query_server \<Rightarrow> json \<Rightarrow> (string, 'x stage) result" where
  "parse_filter S v =
     (case v of
        JObject _ \<Rightarrow> map_err (\<lambda>e. ''Invalid MongoDB Filter: '' @ e) (json_document S v)
      | _ \<Rightarrow> Inl ''MongoDB Filter must be a JSON object'')"

definition parse_optional_filter :: "('db, 'x) query_server \<Rightarrow> json option \<Rightarrow> (string, 'x stage) result" where
  "parse_optional_filter S v = (case v of Some f \<Rightarrow> parse_filter S f | None \<Rightarrow> Inr [])"

definition parse_pipeline :: "('db, 'x) query_server \<Rightarrow> json \<Rightarrow> (string, 'x stage list) result" where
  "parse_pipeline S v =
     (case v of JArray stages \<Rightarrow> collect_results (parse_filter S) stages | _ \<Rightarrow> Inl ''Pipeline must be a JSON array'')"

definition time_budget :: "nat option \<Rightarrow> duration" where
  "time_budget ms = (case ms of Some n \<Rightarrow> from_millis n | None \<Rightarrow> DEFAULT_QUERY_MAX_TIME)"

definition no_catalog :: "string \<Rightarrow> 'a response" where
  "no_catalog name = NotFound (''Catalog '' @ name @ '' does not exist'')"

section \<open>Pipelines\<close>

record pipeline_query =
  pipeline_catalog :: string
  pipeline_stages :: json
  pipeline_max_time_ms :: "nat option"

definition writes :: "'x stage \<Rightarrow> bool" where
  "writes stage \<longleftrightarrow> map_of stage ''$out'' \<noteq> None \<or> map_of stage ''$merge'' \<noteq> None"

definition post_pipeline_query ::
  "('db, 'x) query_server \<Rightarrow> crossmatch_config \<Rightarrow> user option \<Rightarrow> bool \<Rightarrow> pipeline_query \<Rightarrow> 'db \<Rightarrow> 'x stage list response"
where
  "post_pipeline_query S crossmatch current_user slot body db =
     (case current_user of
        None \<Rightarrow> Unauthorized ''Unauthorized''
      | Some u \<Rightarrow>
          if \<not> slot then no_slot
          else
            let name = str_trim (pipeline_catalog body)
            in if \<not> catalog_accessible crossmatch (list_collection_names S db) u name then no_catalog name
               else
                 (case parse_pipeline S (pipeline_stages body) of
                    Inl e \<Rightarrow> BadRequest (''Invalid filter: '' @ e)
                  | Inr pipeline \<Rightarrow>
                      if list_ex writes pipeline then BadRequest ''$out and $merge stages are not allowed''
                      else
                        (case joined_collections (pipeline_stages body) of
                           Inl e \<Rightarrow> BadRequest (''Invalid pipeline: '' @ e)
                         | Inr joined \<Rightarrow>
                             (case find (\<lambda>n. \<not> is_catalog_queryable crossmatch u n) joined of
                                Some n \<Rightarrow> no_catalog n
                              | None \<Rightarrow>
                                  (case aggregate_on S name pipeline (time_budget (pipeline_max_time_ms body)) db of
                                     Inl e \<Rightarrow> query_error e ''Error executing pipeline''
                                   | Inr cursor \<Rightarrow>
                                       answer_docs ''Error executing pipeline'' (fst (collect_docs cursor 0))
                                         (Success ''success''))))))"

section \<open>Finding and counting\<close>

definition to_find_options ::
  "('db, 'x) query_server \<Rightarrow> json option \<Rightarrow> int option \<Rightarrow> nat option \<Rightarrow> json option \<Rightarrow> nat option \<Rightarrow>
   (string, 'x find_options) result"
where
  "to_find_options S projection lim_n skip_n sort_by max_time_ms =
     and_then (case projection of
         None \<Rightarrow> Inr None
       | Some p \<Rightarrow> map_err (\<lambda>e. ''Error converting projection to BSON document: '' @ e)
           (and_then (json_document S p) (\<lambda>d. Inr (Some d)))) (\<lambda>projection.
     and_then (case sort_by of
         None \<Rightarrow> Inr None
       | Some s \<Rightarrow> map_err (\<lambda>e. ''Error converting sort to BSON document: '' @ e)
           (and_then (json_document S s) (\<lambda>d. Inr (Some d)))) (\<lambda>sort_by.
     Inr \<lparr>projection_option = projection, limit_option = lim_n, skip_option = skip_n, sort_option = sort_by,
          max_time = time_budget max_time_ms\<rparr>))"

record find_query =
  find_catalog :: string
  find_filter :: json
  find_projection :: "json option"
  find_limit :: "int option"
  find_skip :: "nat option"
  find_sort :: "json option"
  find_max_time_ms :: "nat option"

definition post_find_query ::
  "('db, 'x) query_server \<Rightarrow> crossmatch_config \<Rightarrow> user option \<Rightarrow> bool \<Rightarrow> find_query \<Rightarrow> 'db \<Rightarrow> 'x stage list response"
where
  "post_find_query S crossmatch current_user slot body db =
     (case current_user of
        None \<Rightarrow> Unauthorized ''Unauthorized''
      | Some u \<Rightarrow>
          if \<not> slot then no_slot
          else
            let name = str_trim (find_catalog body)
            in if \<not> catalog_accessible crossmatch (list_collection_names S db) u name then no_catalog name
               else
                 (case parse_filter S (find_filter body) of
                    Inl e \<Rightarrow> BadRequest (''Invalid filter: '' @ e)
                  | Inr f \<Rightarrow>
                      (case to_find_options S (find_projection body) (find_limit body) (find_skip body)
                              (find_sort body) (find_max_time_ms body) of
                         Inl e \<Rightarrow> BadRequest (''Invalid find options: '' @ e)
                       | Inr options \<Rightarrow>
                           let projection = projection_option options;
                               (injected, sent) = inject_geometry_inputs name projection
                           in (case find_on S name f (options\<lparr>projection_option := sent\<rparr>) db of
                                 Inl e \<Rightarrow> query_error e ''Error finding documents''
                               | Inr cursor \<Rightarrow>
                                   answer_docs ''Error retrieving documents'' (fst (collect_docs cursor 0))
                                     (\<lambda>ds. Success ''success''
                                       (map (remove_injected injected)
                                         (fill_sso_geometry S name projection ds db)))))))"

record count_query =
  count_catalog :: string
  count_filter :: json

definition post_count_query ::
  "('db, 'x) query_server \<Rightarrow> crossmatch_config \<Rightarrow> user option \<Rightarrow> count_query \<Rightarrow> 'db \<Rightarrow> nat response"
where
  "post_count_query S crossmatch current_user body db =
     (case current_user of
        None \<Rightarrow> Unauthorized ''Unauthorized''
      | Some u \<Rightarrow>
          let name = str_trim (count_catalog body)
          in if \<not> catalog_accessible crossmatch (list_collection_names S db) u name then no_catalog name
             else
               (case parse_filter S (count_filter body) of
                  Inl e \<Rightarrow> BadRequest (''Invalid filter: '' @ e)
                | Inr f \<Rightarrow>
                    (case count_on S name f db of
                       Inl e \<Rightarrow> query_error e ''Error counting documents''
                     | Inr n \<Rightarrow> Success ''success'' n)))"

definition post_estimated_count_query ::
  "('db, 'x) query_server \<Rightarrow> crossmatch_config \<Rightarrow> user option \<Rightarrow> string \<Rightarrow> 'db \<Rightarrow> nat response"
where
  "post_estimated_count_query S crossmatch current_user body db =
     (case current_user of
        None \<Rightarrow> Unauthorized ''Unauthorized''
      | Some u \<Rightarrow>
          let name = str_trim body
          in if \<not> catalog_accessible crossmatch (list_collection_names S db) u name then no_catalog name
             else
               (case estimated_count_on S name db of
                  Inl e \<Rightarrow> InternalError (''Error counting documents: '' @ error_text S e)
                | Inr n \<Rightarrow> Success ''success'' n))"

section \<open>Cone searches\<close>

text \<open>Angles are reals: the rounding of the conversion is left out.\<close>

datatype angle_unit = Degrees | Radians | Arcseconds | Arcminutes

definition to_radians :: "real \<Rightarrow> real" where "to_radians a = a * (pi / 180)"

fun radius_in_radians :: "angle_unit \<Rightarrow> real \<Rightarrow> real" where
  "radius_in_radians Degrees r = to_radians r"
| "radius_in_radians Arcseconds r = to_radians r / 3600"
| "radius_in_radians Arcminutes r = to_radians r / 60"
| "radius_in_radians Radians r = r"

record cone_search_query =
  cone_catalog :: string
  cone_filter :: "json option"
  cone_projection :: "json option"
  cone_radius :: real
  cone_unit :: angle_unit
  object_coordinates :: "(string \<times> real \<times> real) list"
  cone_limit :: "int option"
  cone_skip :: "nat option"
  cone_sort :: "json option"
  cone_max_time_ms :: "nat option"

definition cone_condition :: "real \<Rightarrow> real \<Rightarrow> real \<Rightarrow> 'x bval" where
  "cone_condition ra decl radius =
     BDocument [(''$geoWithin'', BDocument [(''$centerSphere'',
       BArray [BArray [BOther (Double (ra - 180)), BOther (Double decl)], BOther (Double radius)])])]"

text \<open>One query per object, the bytes read counted over all of them.\<close>

fun cone_search_each ::
  "('db, 'x) query_server \<Rightarrow> string \<Rightarrow> 'x stage \<Rightarrow> 'x find_options \<Rightarrow> real \<Rightarrow> 'db \<Rightarrow>
   (string \<times> real \<times> real) list \<Rightarrow> nat \<Rightarrow> (string \<times> 'x stage list) list \<Rightarrow> string \<Rightarrow>
   (string \<times> 'x stage list) list response"
where
  "cone_search_each S name f options radius db [] bytes_read found message = Success message found"
| "cone_search_each S name f options radius db ((object_name, ra, decl) # coords) bytes_read found message =
     (if ra < 0 \<or> 360 \<le> ra
      then BadRequest (''Invalid RA for object '' @ object_name @ '': must be in [0, 360)'')
      else if decl < - 90 \<or> 90 < decl
      then BadRequest (''Invalid Dec for object '' @ object_name @ '': must be in [-90, 90]'')
      else
        (case find_on S name (obj_insert ''coordinates.radec_geojson'' (cone_condition ra decl radius) f) options db of
           Inl e \<Rightarrow> query_error e ''Error finding documents''
         | Inr cursor \<Rightarrow>
             (case collect_docs cursor bytes_read of
                (Inl TooLarge, _) \<Rightarrow> too_large
              | (Inl (Database e), _) \<Rightarrow> query_error e ''Error collecting documents''
              | (Inr ds, bytes_read) \<Rightarrow>
                  cone_search_each S name f options radius db coords bytes_read (obj_insert object_name ds found)
                    message)))"

definition post_cone_search_query ::
  "('db, 'x) query_server \<Rightarrow> crossmatch_config \<Rightarrow> user option \<Rightarrow> bool \<Rightarrow> cone_search_query \<Rightarrow> 'db \<Rightarrow>
   (string \<times> 'x stage list) list response"
where
  "post_cone_search_query S crossmatch current_user slot body db =
     (case current_user of
        None \<Rightarrow> Unauthorized ''Unauthorized''
      | Some u \<Rightarrow>
          if \<not> slot then no_slot
          else
            let name = str_trim (cone_catalog body)
            in if \<not> is_cone_searchable crossmatch name
               then BadRequest (''Catalog '' @ name @ '' does not support cone search'')
               else if \<not> catalog_accessible crossmatch (list_collection_names S db) u name then no_catalog name
               else
                 (case to_find_options S (cone_projection body) (cone_limit body) (cone_skip body)
                         (cone_sort body) (cone_max_time_ms body) of
                    Inl e \<Rightarrow> BadRequest (''Invalid find options: '' @ e)
                  | Inr options \<Rightarrow>
                      if MAX_CONE_SEARCH_COORDINATES < length (object_coordinates body)
                      then BadRequest (''object_coordinates holds more than '' @ dec MAX_CONE_SEARCH_COORDINATES
                             @ '' entries; split the request'')
                      else
                        (case parse_optional_filter S (cone_filter body) of
                           Inl e \<Rightarrow> BadRequest (''Invalid filter: '' @ e)
                         | Inr f \<Rightarrow>
                             cone_search_each S name f options (radius_in_radians (cone_unit body) (cone_radius body))
                               db (object_coordinates body) 0 []
                               (''Cone Search on '' @ name @ '' completed''))))"

section \<open>What a query reads\<close>

text \<open>The collections a specification of a joining stage names, and whether it names them by strings.\<close>

fun spec_names :: "json \<Rightarrow> string list" where
  "spec_names (JObject kvs) =
     List.map_filter (\<lambda>k. Option.bind (map_of kvs k) as_str) [''from'', ''coll'']"
| "spec_names (JString n) = [n]"
| "spec_names _ = []"

fun names_by_string :: "json \<Rightarrow> bool" where
  "names_by_string (JObject kvs) =
     list_all (\<lambda>k. pred_option (\<lambda>v. as_str v \<noteq> None) (map_of kvs k)) [''from'', ''coll'']"
| "names_by_string (JString n) = True"
| "names_by_string _ = False"

definition names_in :: "json \<Rightarrow> string list" where
  "names_in pipeline = concat (map spec_names (join_specs pipeline))"

lemma join_targets_names:
  "join_targets k v = Inr ns \<Longrightarrow> set ns = set (spec_names v) \<and> names_by_string v"
  by (cases v) (auto simp: join_targets_def map_filter_simps and_then_Inr ok_or_def as_str.simps
      split: option.splits if_splits)

lemma collect_results_Inr:
  "collect_results f xs = Inr ys \<longleftrightarrow> list_all2 (\<lambda>x y. f x = Inr y) xs ys"
proof (induction xs arbitrary: ys)
  case (Cons x xs)
  then show ?case
    by (cases ys) (auto simp: and_then_Inr)
qed auto

lemma concat_names:
  "list_all2 (\<lambda>x ns. f x = Inr ns) xs nss \<Longrightarrow>
   (\<And>x ns. x \<in> set xs \<Longrightarrow> f x = Inr ns \<Longrightarrow> set ns = names x \<and> ok x) \<Longrightarrow>
   set (concat nss) = \<Union> (names ` set xs) \<and> (\<forall>x\<in>set xs. ok x)"
  by (induction rule: list_all2_induct) auto

lemma joined_collections_names:
  "joined_collections v = Inr ns \<Longrightarrow> set ns = set (names_in v) \<and> list_all names_by_string (join_specs v)"
proof (induction v arbitrary: ns rule: json_induct)
  case (array xs)
  then obtain nss where nss: "list_all2 (\<lambda>x ns. joined_collections x = Inr ns) xs nss" and ns: "ns = concat nss"
    by (auto simp: and_then_Inr collect_results_Inr)
  from concat_names [OF nss, of "\<lambda>x. set (names_in x)" "\<lambda>x. list_all names_by_string (join_specs x)"] array.IH
  show ?case
    by (auto simp: ns names_in_def list_all_iff)
next
  case (object kvs)
  define f where "f = (\<lambda>(k, v). and_then (if k \<in> set JOIN_STAGES then join_targets k v else Inr []) (\<lambda>ns.
      and_then (joined_collections v) (\<lambda>ms. Inr (ns @ ms))))"
  define specs where "specs = (\<lambda>(k, v). (if k \<in> set JOIN_STAGES then [v] else []) @ join_specs v)"
  obtain nss where nss: "list_all2 (\<lambda>x ns. f x = Inr ns) kvs nss" and ns: "ns = concat nss"
    using object.prems by (auto simp: and_then_Inr collect_results_Inr f_def)
  have each: "set ns = (\<Union>v\<in>set (specs kv). set (spec_names v)) \<and> list_all names_by_string (specs kv)"
    if "kv \<in> set kvs" "f kv = Inr ns" for kv ns
  proof -
    obtain k v where kv: "kv = (k, v)" by fastforce
    from that(2) obtain ns1 ms where 1: "(if k \<in> set JOIN_STAGES then join_targets k v else Inr []) = Inr ns1"
      and 2: "joined_collections v = Inr ms" and "ns = ns1 @ ms"
      by (auto simp: f_def kv and_then_Inr)
    moreover have "set ms = set (names_in v) \<and> list_all names_by_string (join_specs v)"
      using object.IH [OF that(1)] 2 kv by simp
    ultimately show ?thesis
      using join_targets_names [of k v ns1] by (auto simp: specs_def kv names_in_def split: if_splits)
  qed
  have "join_specs (JObject kvs) = concat (map specs kvs)"
    by (simp add: specs_def JOIN_STAGES_iff)
  moreover from concat_names [OF nss, of "\<lambda>kv. \<Union>v\<in>set (specs kv). set (spec_names v)" "\<lambda>kv. list_all names_by_string (specs kv)"] each
  have "set ns = (\<Union>kv\<in>set kvs. \<Union>v\<in>set (specs kv). set (spec_names v)) \<and>
      (\<forall>kv\<in>set kvs. list_all names_by_string (specs kv))"
    unfolding ns by blast
  ultimately show ?case
    by (auto simp: names_in_def list_all_iff)
qed (auto simp: names_in_def)

section \<open>The database behind the routes\<close>

text \<open>
  What the routes rely on: a query reads the collection it is sent to, and an aggregation that does
  not write reads besides it the collections its joining stages name, where they name them; the
  listing names the collections there are.  \<open>view\<close> is the content of a collection, \<^const>\<open>None\<close> where
  there is none.
\<close>

definition ORBITS_COLLECTION :: string where "ORBITS_COLLECTION = ''MPC_orbits''"

locale query_db =
  fixes S :: "('db, 'x) query_server" and view :: "'db \<Rightarrow> string \<Rightarrow> 'c option"
  assumes names_law: "list_collection_names S db = Inr ns \<Longrightarrow> n \<in> set ns \<longleftrightarrow> view db n \<noteq> None"
    and find_law: "view db n = view db' n \<Longrightarrow> find_on S n f opts db = find_on S n f opts db'"
    and count_law: "view db n = view db' n \<Longrightarrow> count_on S n f db = count_on S n f db'"
    and estimate_law: "view db n = view db' n \<Longrightarrow> estimated_count_on S n db = estimated_count_on S n db'"
    and geometry_law: "view db ORBITS_COLLECTION = view db' ORBITS_COLLECTION \<Longrightarrow>
      fill_sso_geometry S n proj ds db = fill_sso_geometry S n proj ds db'"
    and aggregate_law: "parse_pipeline S v = Inr p \<Longrightarrow> \<not> list_ex writes p \<Longrightarrow>
      list_all names_by_string (join_specs v) \<Longrightarrow> view db n = view db' n \<Longrightarrow>
      (\<forall>m\<in>set (names_in v). view db m = view db' m) \<Longrightarrow> aggregate_on S n p t db = aggregate_on S n p t db'"
begin

text \<open>Two databases a user cannot tell apart: they agree on what the user may query, on the orbits, and
  on whether the listing answers.\<close>

definition alike :: "crossmatch_config \<Rightarrow> user \<Rightarrow> 'db \<Rightarrow> 'db \<Rightarrow> bool" where
  "alike crossmatch u db db' \<longleftrightarrow>
     (\<forall>n. is_catalog_queryable crossmatch u n \<or> n = ORBITS_COLLECTION \<longrightarrow> view db n = view db' n) \<and>
     isl (list_collection_names S db) = isl (list_collection_names S db')"

lemma accessible_alike:
  "alike crossmatch u db db' \<Longrightarrow>
   catalog_accessible crossmatch (list_collection_names S db) u n =
   catalog_accessible crossmatch (list_collection_names S db') u n"
  unfolding alike_def catalog_accessible_def collection_exists_def list_ex_iff
  by (cases "list_collection_names S db"; cases "list_collection_names S db'") (auto simp: names_law)

lemma accessible_view:
  "alike crossmatch u db db' \<Longrightarrow> catalog_accessible crossmatch listed u n \<Longrightarrow> view db n = view db' n"
  by (simp add: alike_def catalog_accessible_def)

lemma alike_orbits: "alike crossmatch u db db' \<Longrightarrow> view db ORBITS_COLLECTION = view db' ORBITS_COLLECTION"
  by (simp add: alike_def)

lemma find_alike:
  assumes "alike crossmatch u db db'"
  shows "post_find_query S crossmatch (Some u) slot q db = post_find_query S crossmatch (Some u) slot q db'"
proof (cases "catalog_accessible crossmatch (list_collection_names S db) u (str_trim (find_catalog q))")
  case True
  note view = accessible_view [OF assms True]
  show ?thesis
    unfolding post_find_query_def Let_def option.case accessible_alike [OF assms] find_law [OF view] geometry_law [OF alike_orbits [OF assms]] ..
next
  case False
  then show ?thesis
    using accessible_alike [OF assms] by (simp add: post_find_query_def Let_def)
qed

lemma count_alike:
  assumes "alike crossmatch u db db'"
  shows "post_count_query S crossmatch (Some u) q db = post_count_query S crossmatch (Some u) q db'"
proof (cases "catalog_accessible crossmatch (list_collection_names S db) u (str_trim (count_catalog q))")
  case True
  note view = accessible_view [OF assms True]
  show ?thesis
    unfolding post_count_query_def Let_def option.case accessible_alike [OF assms] count_law [OF view] ..
next
  case False
  then show ?thesis
    using accessible_alike [OF assms] by (simp add: post_count_query_def Let_def)
qed

lemma estimate_alike:
  assumes "alike crossmatch u db db'"
  shows "post_estimated_count_query S crossmatch (Some u) n db = post_estimated_count_query S crossmatch (Some u) n db'"
proof (cases "catalog_accessible crossmatch (list_collection_names S db) u (str_trim n)")
  case True
  note view = accessible_view [OF assms True]
  show ?thesis
    unfolding post_estimated_count_query_def Let_def option.case accessible_alike [OF assms] estimate_law [OF view] ..
next
  case False
  then show ?thesis
    using accessible_alike [OF assms] by (simp add: post_estimated_count_query_def Let_def)
qed

lemma cone_each_alike:
  "view db n = view db' n \<Longrightarrow>
   cone_search_each S n f opts r db coords b found msg = cone_search_each S n f opts r db' coords b found msg"
proof (induction coords arbitrary: b found)
  case (Cons c coords)
  obtain name ra decl where "c = (name, ra, decl)" by (cases c) auto
  with Cons find_law [of db n db'] show ?case
    by (auto split: sum.splits prod.splits result_error.splits)
qed simp

lemma cone_alike:
  assumes "alike crossmatch u db db'"
  shows "post_cone_search_query S crossmatch (Some u) slot q db = post_cone_search_query S crossmatch (Some u) slot q db'"
proof (cases "catalog_accessible crossmatch (list_collection_names S db) u (str_trim (cone_catalog q))")
  case True
  note view = accessible_view [OF assms True]
  show ?thesis
    unfolding post_cone_search_query_def Let_def option.case accessible_alike [OF assms] cone_each_alike [OF view] ..
next
  case False
  then show ?thesis
    using accessible_alike [OF assms] by (simp add: post_cone_search_query_def Let_def)
qed

lemma pipeline_alike:
  assumes "alike crossmatch u db db'"
  shows "post_pipeline_query S crossmatch (Some u) slot q db = post_pipeline_query S crossmatch (Some u) slot q db'"
proof -
  have "aggregate_on S n p t db = aggregate_on S n p t db'"
    if "catalog_accessible crossmatch (list_collection_names S db') u n" "parse_pipeline S (pipeline_stages q) = Inr p"
      "\<not> list_ex writes p" "joined_collections (pipeline_stages q) = Inr joined"
      "find (\<lambda>n. \<not> is_catalog_queryable crossmatch u n) joined = None" for n p t joined
  proof -
    have "view db m = view db' m" if "m \<in> set joined" for m
      using that assms \<open>find _ joined = None\<close> by (auto simp: alike_def find_None_iff)
    with joined_collections_names [OF that(4)] aggregate_law [OF that(2,3)] accessible_view [OF assms that(1)]
    show ?thesis by blast
  qed
  then show ?thesis
    using accessible_alike [OF assms] unfolding post_pipeline_query_def Let_def
    by (auto split: sum.split option.split)
qed

end

section \<open>A database in memory\<close>

text \<open>Collections as lists of documents; of an aggregation it executes the unions.\<close>

type_synonym 'x memory_db = "(string \<times> 'x stage list) list"

definition docs_of :: "'x memory_db \<Rightarrow> string \<Rightarrow> 'x stage list" where
  "docs_of db n = (case map_of db n of Some ds \<Rightarrow> ds | None \<Rightarrow> [])"

definition memory_value :: "json \<Rightarrow> 'x bval" where
  "memory_value v = (case v of JString s \<Rightarrow> BString s | _ \<Rightarrow> BOther Null)"

lemma memory_value_BString: "memory_value v = BString s \<longleftrightarrow> v = JString s"
  by (cases v) (auto simp: memory_value_def)

definition memory_document :: "json \<Rightarrow> (string, 'x stage) result" where
  "memory_document v =
     (case v of
        JObject kvs \<Rightarrow> Inr (map (\<lambda>(k, v). (k, memory_value v)) kvs)
      | _ \<Rightarrow> Inl ''not an object'')"

definition union_of :: "'x memory_db \<Rightarrow> 'x stage \<Rightarrow> 'x stage list" where
  "union_of db stage = (case map_of stage ''$unionWith'' of Some (BString m) \<Rightarrow> docs_of db m | _ \<Rightarrow> [])"

definition memory_cursor :: "'x stage list \<Rightarrow> (query_failure, 'x cursor_step list) result" where
  "memory_cursor ds = Inr (map (\<lambda>d. Advance_Gives 100 (Inr d)) ds)"

definition memory_server :: "('x memory_db, 'x) query_server" where
  "memory_server = \<lparr>list_collection_names = (\<lambda>db. Inr (map fst db)), json_document = memory_document,
     aggregate_on = (\<lambda>n p _ db. memory_cursor (docs_of db n @ concat (map (union_of db) p))),
     find_on = (\<lambda>n _ _ db. memory_cursor (docs_of db n)), count_on = (\<lambda>n _ db. Inr (length (docs_of db n))),
     error_text = (\<lambda>_. ''error''), estimated_count_on = (\<lambda>n db. Inr (length (docs_of db n))),
     fill_sso_geometry = (\<lambda>_ _ ds _. ds)\<rparr>"

lemma collect_results_source:
  "collect_results f xs = Inr ys \<Longrightarrow> y \<in> set ys \<Longrightarrow> \<exists>x\<in>set xs. f x = Inr y"
  by (induction xs arbitrary: ys) (auto simp: and_then_Inr)

lemma memory_union_named:
  assumes "parse_filter memory_server v = Inr stage" "map_of stage ''$unionWith'' = Some (BString m)"
  shows "m \<in> set (names_in v)"
proof -
  obtain kvs where v: "v = JObject kvs"
    using assms(1) by (cases v) (auto simp: parse_filter_def)
  then have "stage = map (\<lambda>(k, v). (k, memory_value v)) kvs"
    using assms(1) by (simp add: parse_filter_def memory_server_def memory_document_def)
  then have "map_of kvs ''$unionWith'' = Some (JString m)"
    using assms(2) by (simp add: map_of_map memory_value_BString)
  then have "(''$unionWith'', JString m) \<in> set kvs"
    by (rule map_of_SomeD)
  then have "JString m \<in> set (join_specs v)"
    unfolding v by (auto simp: JOIN_STAGES_def intro!: bexI [of _ "(''$unionWith'', JString m)"])
  then show ?thesis
    by (force simp: names_in_def)
qed

lemma memory_pipeline_named:
  assumes "parse_pipeline memory_server v = Inr p" "\<forall>m\<in>set (names_in v). map_of db m = map_of db' m" "stage \<in> set p"
  shows "union_of db stage = union_of db' stage"
proof -
  obtain stages where v: "v = JArray stages" and p: "collect_results (parse_filter memory_server) stages = Inr p"
    using assms(1) by (cases v) (auto simp: parse_pipeline_def)
  then obtain x where x: "x \<in> set stages" "parse_filter memory_server x = Inr stage"
    using collect_results_source [OF p assms(3)] by blast
  have "docs_of db m = docs_of db' m" if "map_of stage ''$unionWith'' = Some (BString m)" for m
  proof -
    have "m \<in> set (names_in v)"
      using memory_union_named [OF x(2) that] x(1) by (auto simp: v names_in_def)
    with assms(2) show ?thesis
      by (simp add: docs_of_def)
  qed
  then show ?thesis
    by (auto simp: union_of_def split: option.split bson.split)
qed

interpretation memory_db: query_db memory_server map_of
proof (unfold_locales, goal_cases)
  case (1 db ns n)
  then show ?case
    by (force simp: memory_server_def map_of_eq_None_iff)
next
  case (6 v p db n db' t)
  then show ?case
    using memory_pipeline_named [of v p db db'] by (auto simp: memory_server_def docs_of_def cong: map_cong)
qed (simp_all add: memory_server_def docs_of_def)

section \<open>What the routes show\<close>

text \<open>
  C4: The query routes show a user nothing but the collections the user may query: two databases
  that agree on these (and on the orbits that geometry is derived from) and differ in any other
  way, in accounts, sessions, other users' watchlists or anything else, give the same answer to every
  pipeline, find, count and cone search the user can send, whatever collections it names.
\<close>

theorem queries_show_only_what_is_allowed:
  assumes "query_db S view"
    and "\<forall>n. is_catalog_queryable crossmatch u n \<or> n = ORBITS_COLLECTION \<longrightarrow> view db n = view db' n"
    and "isl (list_collection_names S db) = isl (list_collection_names S db')"
  shows "post_pipeline_query S crossmatch (Some u) slot pq db = post_pipeline_query S crossmatch (Some u) slot pq db' \<and>
    post_find_query S crossmatch (Some u) slot fq db = post_find_query S crossmatch (Some u) slot fq db' \<and>
    post_count_query S crossmatch (Some u) cq db = post_count_query S crossmatch (Some u) cq db' \<and>
    post_estimated_count_query S crossmatch (Some u) eq db = post_estimated_count_query S crossmatch (Some u) eq db' \<and>
    post_cone_search_query S crossmatch (Some u) slot sq db = post_cone_search_query S crossmatch (Some u) slot sq db'"
proof -
  have "query_db.alike S view crossmatch u db db'"
    using assms(2,3) by (simp add: query_db.alike_def [OF assms(1)])
  note same = query_db.pipeline_alike [OF assms(1) this] query_db.find_alike [OF assms(1) this]
    query_db.count_alike [OF assms(1) this] query_db.estimate_alike [OF assms(1) this]
    query_db.cone_alike [OF assms(1) this]
  show ?thesis
    by (intro conjI same)
qed

definition plain_user :: user where
  "plain_user = \<lparr>uid = ''u'', login = ''u'', email = ''u@x'', password = ''h'', is_admin_user = False,
     watchlist_access = []\<rparr>"

definition union_query :: pipeline_query where
  "union_query = \<lparr>pipeline_catalog = '' ZTF_alerts '',
     pipeline_stages = JArray [JObject [(''$unionWith'', JString ''watchlist_a'')]], pipeline_max_time_ms = None\<rparr>"

text \<open>The same survey beside two contents of someone else's watchlist.\<close>

definition two_watchlists :: "unit stage list \<Rightarrow> unit memory_db" where
  "two_watchlists ds = [(''ZTF_alerts'', []), (''watchlist_a'', ds)]"

theorem queries_show_only_what_is_allowed_witness:
  "post_pipeline_query memory_server (\<lambda>_. None) (Some plain_user) True union_query (two_watchlists [[]]) =
   post_pipeline_query memory_server (\<lambda>_. None) (Some plain_user) True union_query (two_watchlists [])"
proof -
  have "\<forall>n. is_catalog_queryable (\<lambda>_. None) plain_user n \<or> n = ORBITS_COLLECTION \<longrightarrow>
      map_of (two_watchlists [[]]) n = map_of (two_watchlists []) n"
    by (simp add: queryable_iff two_watchlists_def plain_user_def ORBITS_COLLECTION_def)
  moreover have "isl (list_collection_names memory_server (two_watchlists [[]])) =
      isl (list_collection_names memory_server (two_watchlists []))"
    by (simp add: memory_server_def)
  ultimately show ?thesis
    using queries_show_only_what_is_allowed [OF memory_db.query_db_axioms, of "\<lambda>_. None" plain_user
        "two_watchlists [[]]" "two_watchlists []" True union_query] by blast
qed

section \<open>How much is read\<close>

definition step_bytes :: "'x cursor_step \<Rightarrow> nat" where
  "step_bytes st = (case st of Advance_Gives n _ \<Rightarrow> n | Advance_Fails _ \<Rightarrow> 0)"

definition cursor_bytes :: "'x cursor_step list \<Rightarrow> nat" where
  "cursor_bytes steps = sum_list (map step_bytes steps)"

definition gives :: "'x cursor_step \<Rightarrow> 'x stage \<Rightarrow> bool" where
  "gives st d \<longleftrightarrow> (case st of Advance_Gives _ r \<Rightarrow> r = Inr d | Advance_Fails _ \<Rightarrow> False)"

lemma collect_docs_ok:
  "collect_docs steps b = (Inr ds, b') \<Longrightarrow>
   list_all2 gives steps ds \<and> b' = b + cursor_bytes steps \<and> (b \<le> MAX_RESULT_BYTES \<longrightarrow> b' \<le> MAX_RESULT_BYTES)"
proof (induction steps arbitrary: b ds)
  case Nil
  then show ?case
    by (simp add: collect_docs.simps [of "[]"] cursor_bytes_def)
next
  case (Cons st steps)
  from Cons.prems obtain n d ds1 where st: "st = Advance_Gives n (Inr d)" "\<not> MAX_RESULT_BYTES < b + n"
    and rest: "collect_docs steps (b + n) = (Inr ds1, b')" "ds = d # ds1"
    by (cases st) (auto simp: collect_docs.simps [of "x # xs" for x xs] Let_def and_then_Inr split: if_splits sum.splits prod.splits)
  with Cons.IH [OF rest(1)] show ?case
    by (simp add: gives_def cursor_bytes_def step_bytes_def)
qed

lemma answer_docs_Success:
  "answer_docs ctx r ok = Success m x \<Longrightarrow> (\<And>e c. query_error e c \<noteq> (Success m x :: 'a response)) \<Longrightarrow>
   \<exists>ds. r = Inr ds \<and> ok ds = Success m x"
  by (auto simp: answer_docs_def too_large_def split: sum.splits result_error.splits)

lemma query_error_no_success: "query_error e c \<noteq> Success m x"
  by (cases e) auto

text \<open>
  C25: The answer to a pipeline is everything the database gave for it, in order, and never more than
  256 MB of documents: the handler holds no more than that, however large the result would be.
\<close>

theorem pipeline_answers_are_bounded:
  assumes "post_pipeline_query S crossmatch current_user slot body db = Success m ds"
  shows "\<exists>p t cursor. aggregate_on S (str_trim (pipeline_catalog body)) p t db = Inr cursor \<and>
    parse_pipeline S (pipeline_stages body) = Inr p \<and> list_all2 gives cursor ds \<and>
    cursor_bytes cursor \<le> 268435456"
proof -
  from assms obtain p t cursor where agg: "aggregate_on S (str_trim (pipeline_catalog body)) p t db = Inr cursor"
    and p: "parse_pipeline S (pipeline_stages body) = Inr p"
    and ans: "answer_docs ''Error executing pipeline'' (fst (collect_docs cursor 0)) (Success ''success'') = Success m ds"
    by (auto simp: post_pipeline_query_def Let_def no_slot_def no_catalog_def query_error_no_success
        split: option.splits if_splits sum.splits)
  then obtain b where "collect_docs cursor 0 = (Inr ds, b)"
    using answer_docs_Success [OF ans query_error_no_success] by (cases "collect_docs cursor 0") auto
  from collect_docs_ok [OF this] agg p show ?thesis
    by (intro exI [of _ p] exI [of _ t] exI [of _ cursor]) (simp add: MAX_RESULT_BYTES_def)
qed

theorem pipeline_answers_are_bounded_witness:
  "\<exists>p t cursor. aggregate_on memory_server ''ZTF_alerts'' p t [(''ZTF_alerts'', [[]])] = Inr cursor \<and>
    parse_pipeline memory_server (JArray []) = Inr p \<and> list_all2 gives cursor [[] :: unit stage] \<and>
    cursor_bytes cursor \<le> 268435456"
proof -
  have trim: "str_trim ''ZTF_alerts'' = ''ZTF_alerts''"
    by code_simp
  have "is_catalog_queryable (\<lambda>_. None) plain_user ''ZTF_alerts''"
    by (simp add: queryable_iff PROTECTED_COLLECTION_NAMES_def SURVEYS_def SURVEY_COLLECTION_SUFFIXES_def)
  then have "post_pipeline_query memory_server (\<lambda>_. None) (Some plain_user) True
      \<lparr>pipeline_catalog = ''ZTF_alerts'', pipeline_stages = JArray [], pipeline_max_time_ms = None\<rparr>
      [(''ZTF_alerts'', [[]])] = Success ''success'' [[] :: unit stage]"
    by (simp add: post_pipeline_query_def trim catalog_accessible_def collection_exists_def memory_server_def
        parse_pipeline_def docs_of_def memory_cursor_def answer_docs_def collect_docs.simps MAX_RESULT_BYTES_def)
  from pipeline_answers_are_bounded [OF this] trim show ?thesis
    by simp
qed

end
