(* ===== verification/Cutout_Routes.thy ===== *)
theory Cutout_Routes
  imports Cutout_Histories Api_Response
begin

text \<open>
  The cutout routes (\<open>src/src/api/cutouts.rs\<close>, \<open>src/src/api/routes/surveys/cutouts.rs\<close>): the stamps
  of one alert, of one alert of an object, or of a batch of alerts.  The encoding of stamps in base
  64 and of answers in JSON is left out; an answer carries the cutouts and the time of the alert.
\<close>

text \<open>What the routes read of an alert; \<open>alert_mag\<close> by the name of the magnitude field.\<close>

record alert_document =
  alert_candid :: i64
  alert_object :: string
  alert_jd :: real
  alert_mag :: "string \<Rightarrow> real"
  alert_band :: string

datatype which_cutouts = First | Last | Brightest | Faintest

record cutout_query =
  query_candid :: "i64 option"
  query_object :: "string option"
  query_which :: "which_cutouts option"
  query_band :: "string option"

type_synonym cutout_answer = "alert_cutout \<times> real option"

section \<open>Batches\<close>

definition MAX_BATCH_CUTOUTS :: nat where "MAX_BATCH_CUTOUTS = 100"

fun first_seen :: "i64 set \<Rightarrow> i64 list \<Rightarrow> i64 list" where
  "first_seen seen [] = []"
| "first_seen seen (c # cs) = (if c \<in> seen then first_seen seen cs else c # first_seen (insert c seen) cs)"

definition validate_batch_candids :: "i64 list \<Rightarrow> (string, i64 list) result" where
  "validate_batch_candids candids =
     (let unique = first_seen {} candids
      in if unique = [] \<or> MAX_BATCH_CUTOUTS < length unique
         then Inl (''must provide between 1 and '' @ dec MAX_BATCH_CUTOUTS @ '' candids'')
         else Inr unique)"

definition fetch_alert_jds ::
  "('adb, alert_document) collection \<Rightarrow> i64 list \<Rightarrow> (alert_document \<Rightarrow> bool) \<Rightarrow> 'adb \<Rightarrow> (mongo_error, (i64 \<times> real) list) result"
where
  "fetch_alert_jds A candids matches adb =
     and_then (find_docs A (\<lambda>a. matches a \<and> alert_candid a \<in> set candids) None None adb) (\<lambda>alerts.
       Inr (fold (\<lambda>a. AList.update (alert_candid a) (alert_jd a)) alerts []))"

text \<open>The cutouts found, taken out one by one in the order of the request, and the candids without.\<close>

fun batch_entries ::
  "i64 list \<Rightarrow> (i64 \<times> alert_cutout) list \<Rightarrow> (i64 \<times> real) list \<Rightarrow> cutout_answer list \<times> i64 list" where
  "batch_entries [] found jds = ([], [])"
| "batch_entries (c # cs) found jds =
     (let (cutouts, missing) = batch_entries cs (AList.delete c found) jds
      in case map_of found c of
           Some x \<Rightarrow> ((x, map_of jds c) # cutouts, missing)
         | None \<Rightarrow> (cutouts, c # missing))"

definition retrieve_batch_cutouts ::
  "('s, 'r, 'db) cutout_storage \<Rightarrow> i64 list \<Rightarrow> (i64 \<times> real) list \<Rightarrow> ('s, 'r, 'db) cutout_state \<Rightarrow>
   (cutout_storage_error, cutout_answer list \<times> i64 list) result \<times> ('s, 'r, 'db) cutout_state"
where
  "retrieve_batch_cutouts W candids jds st =
     (case retrieve_multiple_cutouts W candids False st of
        (Inl e, st) \<Rightarrow> (Inl e, st)
      | (Inr found, st) \<Rightarrow> (Inr (batch_entries candids found jds), st))"

definition NO_STORAGE :: string where "NO_STORAGE = ''cutout storage not available for this survey''"
definition NOT_RETRIEVED :: string where "NOT_RETRIEVED = ''error retrieving cutouts from storage''"
definition NO_DOCUMENTS :: string where "NO_DOCUMENTS = ''error getting documents: ''"

definition get_batch_cutouts ::
  "('s, 'r, 'db) cutout_storage option \<Rightarrow> ('adb, alert_document) collection \<Rightarrow> i64 list \<Rightarrow> 'adb \<Rightarrow>
   ('s, 'r, 'db) cutout_state \<Rightarrow> (cutout_answer list \<times> i64 list) response \<times> ('s, 'r, 'db) cutout_state"
where
  "get_batch_cutouts storage A body adb st =
     (case storage of
        None \<Rightarrow> (InternalError NO_STORAGE, st)
      | Some W \<Rightarrow>
          (case validate_batch_candids body of
             Inl message \<Rightarrow> (BadRequest message, st)
           | Inr candids \<Rightarrow>
               (case fetch_alert_jds A candids (\<lambda>_. True) adb of
                  Inl e \<Rightarrow> (InternalError (NO_DOCUMENTS @ mongo_text e), st)
                | Inr jds \<Rightarrow>
                    (case retrieve_batch_cutouts W candids jds st of
                       (Inr data, st) \<Rightarrow> (Success (''cutouts retrieved for '' @ dec (length candids) @ '' candids'') data, st)
                     | (Inl _, st) \<Rightarrow> (InternalError NOT_RETRIEVED, st)))))"

section \<open>One alert\<close>

definition mag_field :: "survey \<Rightarrow> string" where
  "mag_field survey = (if survey = Decam then ''candidate.magap'' else ''candidate.magpsf'')"

fun sort_by_which :: "survey \<Rightarrow> which_cutouts \<Rightarrow> alert_document \<Rightarrow> real" where
  "sort_by_which survey First a = alert_jd a"
| "sort_by_which survey Last a = - alert_jd a"
| "sort_by_which survey Brightest a = alert_mag a (mag_field survey)"
| "sort_by_which survey Faintest a = - alert_mag a (mag_field survey)"

definition cutouts_of_candid ::
  "('s, 'r, 'db) cutout_storage \<Rightarrow> ('adb, alert_document) collection \<Rightarrow> i64 \<Rightarrow> 'adb \<Rightarrow> ('s, 'r, 'db) cutout_state \<Rightarrow>
   cutout_answer response \<times> ('s, 'r, 'db) cutout_state"
where
  "cutouts_of_candid W A c adb st =
     (case retrieve_cutouts W c False st of
        (Inl CutoutsNotFound, st) \<Rightarrow> (NotFound (''no cutouts found for candid '' @ int_text (sint c)), st)
      | (Inl _, st) \<Rightarrow> (InternalError NOT_RETRIEVED, st)
      | (Inr cutouts, st) \<Rightarrow>
          (case find_one A (\<lambda>a. alert_candid a = c) None adb of
             Inl e \<Rightarrow> (InternalError (NO_DOCUMENTS @ mongo_text e), st)
           | Inr a \<Rightarrow> (Success (''cutouts found for candid: '' @ int_text (sint c)) (cutouts, map_option alert_jd a), st)))"

definition cutouts_of_object ::
  "('s, 'r, 'db) cutout_storage \<Rightarrow> ('adb, alert_document) collection \<Rightarrow> survey \<Rightarrow> string \<Rightarrow> which_cutouts \<Rightarrow> string option \<Rightarrow>
   'adb \<Rightarrow> ('s, 'r, 'db) cutout_state \<Rightarrow> cutout_answer response \<times> ('s, 'r, 'db) cutout_state"
where
  "cutouts_of_object W A survey oid which band adb st =
     (case find_one A (\<lambda>a. alert_object a = oid \<and> pred_option (\<lambda>b. alert_band a = b) band)
             (Some (sort_by_which survey which)) adb of
        Inl e \<Rightarrow> (InternalError (NO_DOCUMENTS @ mongo_text e), st)
      | Inr None \<Rightarrow> (NotFound (''no alerts found for objectId '' @ oid), st)
      | Inr (Some a) \<Rightarrow>
          (case retrieve_cutouts W (alert_candid a) False st of
             (Inl CutoutsNotFound, st) \<Rightarrow>
               (NotFound (''no cutouts found for objectId '' @ oid @ '' (candid: '' @ int_text (sint (alert_candid a)) @ '')''), st)
           | (Inl _, st) \<Rightarrow> (InternalError NOT_RETRIEVED, st)
           | (Inr cutouts, st) \<Rightarrow> (Success (''cutouts found for objectId: '' @ oid) (cutouts, Some (alert_jd a)), st)))"

definition get_cutouts ::
  "('s, 'r, 'db) cutout_storage option \<Rightarrow> ('adb, alert_document) collection \<Rightarrow> survey \<Rightarrow> cutout_query \<Rightarrow> 'adb \<Rightarrow>
   ('s, 'r, 'db) cutout_state \<Rightarrow> cutout_answer response \<times> ('s, 'r, 'db) cutout_state"
where
  "get_cutouts storage A survey query adb st =
     (case storage of
        None \<Rightarrow> (InternalError NO_STORAGE, st)
      | Some W \<Rightarrow>
          (case (query_candid query, query_object query) of
             (Some c, _) \<Rightarrow> cutouts_of_candid W A c adb st
           | (None, Some oid) \<Rightarrow>
               cutouts_of_object W A survey oid (case query_which query of None \<Rightarrow> Brightest | Some w \<Rightarrow> w)
                 (query_band query) adb st
           | (None, None) \<Rightarrow> (BadRequest ''candid or objectId query parameter must be provided'', st)))"

section \<open>What a batch answers\<close>

lemma first_seen_set: "set (first_seen seen cs) = set cs - seen \<and> distinct (first_seen seen cs)"
  by (induction seen cs rule: first_seen.induct) auto

lemma first_seen_subseq: "subseq (first_seen seen cs) cs"
  by (induction seen cs rule: first_seen.induct) auto

lemma batch_entries_split:
  assumes "distinct cs"
  shows "map (\<lambda>(x, jd). (Some x, jd)) (fst (batch_entries cs found jds)) =
      map (\<lambda>c. (map_of found c, map_of jds c)) (filter (\<lambda>c. map_of found c \<noteq> None) cs) \<and>
    snd (batch_entries cs found jds) = filter (\<lambda>c. map_of found c = None) cs"
  using assms
proof (induction cs arbitrary: found)
  case (Cons c cs)
  have same: "map_of (AList.delete c found) c' = map_of found c'" if "c' \<in> set cs" for c'
    using Cons.prems that by (auto simp: delete_conv')
  then have "filter (\<lambda>c'. map_of (AList.delete c found) c' \<noteq> None) cs = filter (\<lambda>c'. map_of found c' \<noteq> None) cs"
    "filter (\<lambda>c'. map_of (AList.delete c found) c' = None) cs = filter (\<lambda>c'. map_of found c' = None) cs"
    by (auto intro!: filter_cong)
  with Cons.IH [of "AList.delete c found"] Cons.prems same show ?case
    by (auto split: option.splits prod.splits)
qed simp

text \<open>
  C29: A batch that is answered asks for each distinct candid once, in the order of the request, and
  answers every one of them either with its cutouts, as they were inserted, or as missing; and
  as long as its document can be read back, only what was never stored, or was deleted, is missing.
\<close>

theorem batch_answers_every_candid:
  assumes "cutout_world W" "empty_storage W st0"
    and "get_batch_cutouts (Some W) A body adb (cutout_run W ops st0) = (Success m (cutouts, missing), st')"
  shows "\<exists>cs. distinct cs \<and> subseq cs body \<and> set cs = set body \<and> length cs \<in> {1..100} \<and>
    map (candid \<circ> fst) cutouts = filter (\<lambda>c. c \<notin> set missing) cs \<and> subseq missing cs \<and>
    (\<forall>(x, jd)\<in>set cutouts. Insert x \<in> set ops) \<and>
    (\<forall>c\<in>set missing. readable W c (cutout_run W ops st0) \<longrightarrow> \<not> holds_cutouts W c (cutout_run W ops st0))"
proof -
  let ?st = "cutout_run W ops st0" and ?cs = "first_seen {} body"
  note sound = empty_run_sound [OF assms(1,2), of ops]
  from assms(3) obtain jds found where
    len: "length ?cs \<in> {1..100}" and
    r: "retrieve_multiple_cutouts W ?cs False ?st = (Inr found, st')" and
    e: "batch_entries ?cs found jds = (cutouts, missing)"
    by (auto simp: get_batch_cutouts_def validate_batch_candids_def retrieve_batch_cutouts_def Let_def MAX_BATCH_CUTOUTS_def
        Suc_le_eq split: sum.splits prod.splits if_splits)
  have cs: "distinct ?cs" "set ?cs = set body"
    using first_seen_set [of "{}" body] by auto
  note split = batch_entries_split [OF cs(1), of found jds, unfolded e fst_conv snd_conv]
  have found: "c \<in> set ?cs \<and> x \<in> {x. Insert x \<in> set ops} \<and> candid x = c" if "map_of found c = Some x" for c x
    using cutout_world.retrieve_multiple_sound [OF assms(1) sound r] map_of_SomeD [OF that] by blast
  have pair: "map_of found c = Some x"
    if "(Some x, jd) = (map_of found c, map_of jds c)" for c x jd
    using that by simp
  have "map (map_option candid \<circ> fst) (map (\<lambda>(x, jd). (Some x, jd)) cutouts) =
      map (map_option candid \<circ> fst) (map (\<lambda>c. (map_of found c, map_of jds c)) (filter (\<lambda>c. map_of found c \<noteq> None) ?cs))"
    using split by simp
  also have "\<dots> = map Some (filter (\<lambda>c. map_of found c \<noteq> None) ?cs)"
    using found by (auto simp: comp_def)
  finally have "map Some (map (candid \<circ> fst) cutouts) = map Some (filter (\<lambda>c. map_of found c \<noteq> None) ?cs)"
    by (simp add: comp_def case_prod_beta)
  then have "map (candid \<circ> fst) cutouts = filter (\<lambda>c. map_of found c \<noteq> None) ?cs"
    by (simp only: inj_map_eq_map inj_Some)
  also have "\<dots> = filter (\<lambda>c. c \<notin> set missing) ?cs"
    using split by (auto intro!: filter_cong)
  finally have ids: "map (candid \<circ> fst) cutouts = filter (\<lambda>c. c \<notin> set missing) ?cs" .
  have "Insert x \<in> set ops" if "(x, jd) \<in> set cutouts" for x jd
  proof -
    have "(Some x, jd) \<in> set (map (\<lambda>(x, jd). (Some x, jd)) cutouts)"
      using that by force
    with split obtain c where "map_of found c = Some x" by auto
    with found show ?thesis by blast
  qed
  moreover have "\<not> holds_cutouts W c ?st" if "readable W c ?st" "c \<in> set missing" for c
  proof -
    have "c \<in> set ?cs" "c \<notin> fst ` set found"
      using that(2) split by (auto simp: map_of_eq_None_iff)
    with cutout_world.retrieve_multiple_sound [OF assms(1) sound r] that(1) show ?thesis by blast
  qed
  ultimately show ?thesis
    using cs len ids split first_seen_subseq [of "{}" body] by (intro exI [of _ ?cs]) auto
qed

lemma empty_mongo: "empty_storage memory_storage (Mongo [])"
  by (simp add: memory_storage_def list_coll_def)

lemma batch_answered:
  "get_batch_cutouts (Some memory_storage) (list_coll (\<lambda>_. None)) [7, 8, 7] [] (cutout_run memory_storage [Insert demo_cutout] (Mongo [])) =
     (Success (''cutouts retrieved for '' @ dec 2 @ '' candids'') ([(demo_cutout, None)], [8]), Mongo [demo_cutout])"
  by (simp add: get_batch_cutouts_def validate_batch_candids_def MAX_BATCH_CUTOUTS_def fetch_alert_jds_def
      retrieve_batch_cutouts_def cutout_run_def mongo_insert_def mongo_retrieve_multiple_def memory_storage_def
      list_coll_def sort_docs_def limit_docs_def demo_cutout_def numeral_2_eq_2)

theorem batch_answers_every_candid_witness:
  "\<exists>cs. distinct cs \<and> subseq cs [7, 8, 7 :: i64] \<and> set cs = set [7, 8, 7] \<and> length cs \<in> {1..100} \<and>
    map (candid \<circ> fst) [(demo_cutout, None :: real option)] = filter (\<lambda>c. c \<notin> set [8]) cs \<and> subseq [8] cs \<and>
    (\<forall>(x, jd)\<in>set [(demo_cutout, None :: real option)]. Insert x \<in> set [Insert demo_cutout]) \<and>
    (\<forall>c\<in>set [8]. readable memory_storage c (cutout_run memory_storage [Insert demo_cutout] (Mongo [])) \<longrightarrow>
       \<not> holds_cutouts memory_storage c (cutout_run memory_storage [Insert demo_cutout] (Mongo [])))"
  by (rule batch_answers_every_candid [OF memory_cutouts.cutout_world_axioms empty_mongo batch_answered])

end
