(* ===== verification/Detection_Histories.thy ===== *)
theory Detection_Histories
  imports Ztf_Photometry
begin

text \<open>
  What the enrichment writes about an object's past (\<open>src/src/utils/lightcurves.rs\<close>): counts and dates of
  its detections, the nights and episodes they fall into, and the non-detections around them.  A
  date is a finite float, the real it denotes; \<open>rnd\<close> rounds the result of a subtraction.  The counts
  are \<open>i32\<close> in the code and natural numbers here, which agree below \<open>2 ^ 31\<close> points.
\<close>

section \<open>Histories\<close>

record detection_history =
  n_det :: nat
  n_pos :: nat
  n_neg :: nat
  first_neg_jd :: "real option"
  last_neg_jd :: "real option"
  n_pos_30d :: nat
  n_neg_30d :: nat
  first_activity_jd :: "real option"
  last_detection_jd :: "real option"
  n_forced_detections :: nat
  first_pos_jd :: "real option"
  first_forced_jd :: "real option"
  n_nights :: nat
  last_nondet_jd :: "real option"
  last_nondet_maglim :: "f32 option"
  prediscovery_nondet_jd :: "real option"
  prediscovery_nondet_maglim :: "f32 option"

definition no_history :: detection_history where
  "no_history = \<lparr>n_det = 0, n_pos = 0, n_neg = 0, first_neg_jd = None, last_neg_jd = None, n_pos_30d = 0, n_neg_30d = 0,
     first_activity_jd = None, last_detection_jd = None, n_forced_detections = 0, first_pos_jd = None,
     first_forced_jd = None, n_nights = 0, last_nondet_jd = None, last_nondet_maglim = None,
     prediscovery_nondet_jd = None, prediscovery_nondet_maglim = None\<rparr>"

text \<open>\<open>Some(acc.map_or(jd, |j| j.min(jd)))\<close>, and with \<open>max\<close>.\<close>

definition or_less :: "real option \<Rightarrow> real \<Rightarrow> real option" where
  "or_less acc jd = Some (case acc of None \<Rightarrow> jd | Some j \<Rightarrow> min j jd)"

definition or_more :: "real option \<Rightarrow> real \<Rightarrow> real option" where
  "or_more acc jd = Some (case acc of None \<Rightarrow> jd | Some j \<Rightarrow> max j jd)"

definition span_to :: "real \<Rightarrow> detection_history \<Rightarrow> detection_history" where
  "span_to jd d = d\<lparr>first_activity_jd := or_less (first_activity_jd d) jd, last_detection_jd := or_more (last_detection_jd d) jd\<rparr>"

section \<open>Episodes\<close>

record episode_history =
  n_episodes :: nat
  gap_days :: real
  last_gap_days :: "real option"
  prev_gap_days :: "real option"
  longest_quiet_days :: "real option"
  first_episode_jd :: "real option"
  last_episode_jd :: "real option"

definition EPISODE_GAP_DAYS :: real where "EPISODE_GAP_DAYS = 30"

text \<open>The last episode, as start and end, is extended or a new one begins.\<close>

definition add_epoch :: "(real \<Rightarrow> real) \<Rightarrow> real \<Rightarrow> real \<Rightarrow> (real \<times> real) list \<Rightarrow> (real \<times> real) list" where
  "add_epoch rnd gap jd episodes =
     (case last episodes of (s, e) \<Rightarrow>
        if gap < rnd (jd - e) then episodes @ [(jd, jd)] else butlast episodes @ [(s, jd)])"

definition quiet_gaps :: "(real \<Rightarrow> real) \<Rightarrow> (real \<times> real) list \<Rightarrow> real list" where
  "quiet_gaps rnd episodes = map (\<lambda>(a, b). rnd (fst b - snd a)) (zip episodes (tl episodes))"

definition from_positive_epochs :: "(real \<Rightarrow> real) \<Rightarrow> real list \<Rightarrow> real \<Rightarrow> episode_history" where
  "from_positive_epochs rnd jds gap =
     (case sort jds of
        [] \<Rightarrow> \<lparr>n_episodes = 0, gap_days = gap, last_gap_days = None, prev_gap_days = None, longest_quiet_days = None,
               first_episode_jd = None, last_episode_jd = None\<rparr>
      | first # rest \<Rightarrow>
          (let episodes = fold (add_epoch rnd gap) rest [(first, first)];
               gaps = quiet_gaps rnd episodes
           in \<lparr>n_episodes = length episodes, gap_days = gap,
               last_gap_days = (if gaps = [] then None else Some (last gaps)),
               prev_gap_days = (if 2 \<le> length gaps then Some (gaps ! (length gaps - 2)) else None),
               longest_quiet_days = fold (\<lambda>g acc. or_more acc g) gaps None,
               first_episode_jd = Some (fst (hd episodes)), last_episode_jd = Some (fst (last episodes))\<rparr>))"

definition episodes_from_points ::
  "(real \<Rightarrow> real) \<Rightarrow> (real \<times> bool option) list \<Rightarrow> real \<Rightarrow> real \<Rightarrow> episode_history" where
  "episodes_from_points rnd points ref_jd gap =
     from_positive_epochs rnd (map fst (filter (\<lambda>(jd, is_negative). jd \<le> ref_jd \<and> is_negative = Some False) points)) gap"

section \<open>The summary\<close>

definition STATIONARY_MIN_FORCED_SNR :: real where "STATIONARY_MIN_FORCED_SNR = 5"

definition night_of :: "(real \<Rightarrow> real) \<Rightarrow> real \<Rightarrow> int" where
  "night_of rnd jd = max (- (2 ^ 63)) (min (2 ^ 63 - 1) \<lfloor>rnd (jd - 1 / 4)\<rfloor>)"

definition count_forced :: "real \<Rightarrow> real \<times> f64 option \<Rightarrow> detection_history \<Rightarrow> detection_history" where
  "count_forced ref_jd p d =
     (case p of (jd, snr) \<Rightarrow>
        if ref_jd < jd then d
        else let d = span_to jd (d\<lparr>n_forced_detections := n_forced_detections d + 1\<rparr>)
             in if snr \<noteq> None \<and> f64_le (Num STATIONARY_MIN_FORCED_SNR) (the snr)
                then d\<lparr>first_forced_jd := or_less (first_forced_jd d) jd\<rparr> else d)"

definition count_point ::
  "real \<Rightarrow> real \<Rightarrow> real \<times> bool option \<Rightarrow> detection_history \<times> real list \<Rightarrow> detection_history \<times> real list" where
  "count_point ref_jd cutoff p acc =
     (case (p, acc) of ((jd, sign), (d, positives)) \<Rightarrow>
        if ref_jd < jd then (d, positives)
        else case sign of
          None \<Rightarrow> (d, positives)
        | Some is_negative \<Rightarrow>
            (let d = span_to jd d; d = d\<lparr>n_det := n_det d + 1\<rparr>; recent = (cutoff \<le> jd)
             in if is_negative
                then (d\<lparr>n_neg := n_neg d + 1, n_neg_30d := n_neg_30d d + (if recent then 1 else 0),
                       first_neg_jd := or_less (first_neg_jd d) jd, last_neg_jd := or_more (last_neg_jd d) jd\<rparr>, positives)
                else (d\<lparr>n_pos := n_pos d + 1, n_pos_30d := n_pos_30d d + (if recent then 1 else 0)\<rparr>, positives @ [jd])))"

definition summarise_detections ::
  "(real \<Rightarrow> real) \<Rightarrow> (real \<times> bool option) list \<Rightarrow> (real \<times> f64 option) list \<Rightarrow> real \<Rightarrow> real \<Rightarrow>
   detection_history \<times> episode_history" where
  "summarise_detections rnd points forced ref_jd gap =
     (let cutoff = rnd (ref_jd - 30);
          d = fold (count_forced ref_jd) forced no_history;
          (d, positives) = fold (count_point ref_jd cutoff) points (d, []);
          nights = remdups_adj (sort (map (night_of rnd) positives))
      in (d\<lparr>first_pos_jd := fold (\<lambda>jd acc. or_less acc jd) positives None, n_nights := length nights\<rparr>,
          from_positive_epochs rnd positives gap))"

definition detections_from_points ::
  "(real \<Rightarrow> real) \<Rightarrow> (real \<times> bool option) list \<Rightarrow> real \<Rightarrow> detection_history" where
  "detections_from_points rnd points ref_jd = fst (summarise_detections rnd points [] ref_jd EPISODE_GAP_DAYS)"

definition add_nondetection :: "real \<Rightarrow> real \<times> f32 \<Rightarrow> detection_history \<Rightarrow> detection_history" where
  "add_nondetection ref_jd p d =
     (case p of (jd, maglim) \<Rightarrow>
        if ref_jd < jd \<or> \<not> f32_finite maglim then d
        else
          let d = (if pred_option (\<lambda>j. j < jd) (last_nondet_jd d)
                   then d\<lparr>last_nondet_jd := Some jd, last_nondet_maglim := Some maglim\<rparr> else d);
              before_first = (\<exists>first. first_pos_jd d = Some first \<and> jd < first)
          in if before_first \<and> pred_option (\<lambda>j. j < jd) (prediscovery_nondet_jd d)
             then d\<lparr>prediscovery_nondet_jd := Some jd, prediscovery_nondet_maglim := Some maglim\<rparr> else d)"

definition add_nondetections :: "real \<Rightarrow> (real \<times> f32) list \<Rightarrow> detection_history \<Rightarrow> detection_history" where
  "add_nondetections ref_jd nondetections d = fold (add_nondetection ref_jd) nondetections d"

text \<open>\<open>f64::MAX\<close> and \<open>f64::MIN\<close> as start values: \<open>biggest\<close> is the largest finite float.\<close>

definition is_stationary :: "(real \<Rightarrow> real) \<Rightarrow> real \<Rightarrow> real list \<Rightarrow> bool" where
  "is_stationary rnd biggest epochs =
     (let (first, last) = fold (\<lambda>t (lo, hi). (min lo t, max hi t)) epochs (biggest, - biggest)
      in 1 / 100 < rnd (last - first))"

section \<open>What the summary says\<close>

text \<open>A reference that reads each entry off the points.\<close>

definition least_of :: "real list \<Rightarrow> real option" where
  "least_of xs = (if xs = [] then None else Some (Min (set xs)))"

definition greatest_of :: "real list \<Rightarrow> real option" where
  "greatest_of xs = (if xs = [] then None else Some (Max (set xs)))"

definition of_sign :: "bool \<Rightarrow> real \<Rightarrow> (real \<times> bool option) list \<Rightarrow> real list" where
  "of_sign negative ref_jd points = map fst (filter (\<lambda>(jd, sign). jd \<le> ref_jd \<and> sign = Some negative) points)"

definition forced_until :: "real \<Rightarrow> (real \<times> f64 option) list \<Rightarrow> (real \<times> f64 option) list" where
  "forced_until ref_jd forced = filter (\<lambda>(jd, _). jd \<le> ref_jd) forced"

definition summary_of ::
  "(real \<Rightarrow> real) \<Rightarrow> (real \<times> bool option) list \<Rightarrow> (real \<times> f64 option) list \<Rightarrow> real \<Rightarrow> detection_history" where
  "summary_of rnd points forced ref_jd =
     (let pos = of_sign False ref_jd points; neg = of_sign True ref_jd points; fs = forced_until ref_jd forced;
          recent = (\<lambda>jd. rnd (ref_jd - 30) \<le> jd); dates = map fst fs @ pos @ neg
      in no_history\<lparr>n_det := length pos + length neg, n_pos := length pos, n_neg := length neg,
           first_neg_jd := least_of neg, last_neg_jd := greatest_of neg,
           n_pos_30d := length (filter recent pos), n_neg_30d := length (filter recent neg),
           first_activity_jd := least_of dates, last_detection_jd := greatest_of dates,
           n_forced_detections := length fs, first_pos_jd := least_of pos,
           first_forced_jd := least_of (map fst (filter (\<lambda>(_, snr). snr \<noteq> None \<and> f64_le (Num 5) (the snr)) fs)),
           n_nights := card (night_of rnd ` set pos)\<rparr>)"

lemma or_less_least: "or_less (least_of xs) jd = least_of (xs @ [jd])"
  by (simp add: or_less_def least_of_def min.commute)

lemma or_more_greatest: "or_more (greatest_of xs) jd = greatest_of (xs @ [jd])"
  by (simp add: or_more_def greatest_of_def max.commute)

lemma least_of_cong: "set xs = set ys \<Longrightarrow> least_of xs = least_of ys"
  by (cases xs; cases ys) (auto simp: least_of_def)

lemma greatest_of_cong: "set xs = set ys \<Longrightarrow> greatest_of xs = greatest_of ys"
  by (cases xs; cases ys) (auto simp: greatest_of_def)

lemma fold_or_less: "fold (\<lambda>jd acc. or_less acc jd) xs (least_of ys) = least_of (ys @ xs)"
  by (induction xs arbitrary: ys) (simp_all add: or_less_least)

lemma fold_or_more: "fold (\<lambda>jd acc. or_more acc jd) xs (greatest_of ys) = greatest_of (ys @ xs)"
  by (induction xs arbitrary: ys) (simp_all add: or_more_greatest)

lemma distinct_remdups_sorted: "sorted (xs :: int list) \<Longrightarrow> distinct (remdups_adj xs)"
  by (induction xs rule: remdups_adj.induct) auto

lemma length_remdups_sorted: "sorted (xs :: int list) \<Longrightarrow> length (remdups_adj xs) = card (set xs)"
  by (metis remdups_adj_set distinct_card distinct_remdups_sorted)

definition with_sign :: "real \<Rightarrow> (real \<times> bool option) list \<Rightarrow> real list" where
  "with_sign ref_jd points = map fst (filter (\<lambda>(jd, sign). jd \<le> ref_jd \<and> sign \<noteq> None) points)"

abbreviation "lows xs acc \<equiv> fold (\<lambda>jd acc. or_less acc jd) xs acc"
abbreviation "highs xs acc \<equiv> fold (\<lambda>jd acc. or_more acc jd) xs acc"

definition strong_forced :: "(real \<times> f64 option) list \<Rightarrow> real list" where
  "strong_forced fs = map fst (filter (\<lambda>(_, snr). snr \<noteq> None \<and> f64_le (Num 5) (the snr)) fs)"

lemma fold_count_forced:
  "fold (count_forced ref_jd) forced d =
     d\<lparr>n_forced_detections := n_forced_detections d + length (forced_until ref_jd forced),
       first_activity_jd := lows (map fst (forced_until ref_jd forced)) (first_activity_jd d),
       last_detection_jd := highs (map fst (forced_until ref_jd forced)) (last_detection_jd d),
       first_forced_jd := lows (strong_forced (forced_until ref_jd forced)) (first_forced_jd d)\<rparr>"
  by (induction forced arbitrary: d)
    (auto simp: count_forced_def forced_until_def strong_forced_def span_to_def STATIONARY_MIN_FORCED_SNR_def Let_def)

lemma of_sign_Cons [simp]:
  "of_sign negative ref_jd ((jd, sign) # points) =
     (if jd \<le> ref_jd \<and> sign = Some negative then [jd] else []) @ of_sign negative ref_jd points"
  by (simp add: of_sign_def)

lemma with_sign_Cons [simp]:
  "with_sign ref_jd ((jd, sign) # points) =
     (if jd \<le> ref_jd \<and> sign \<noteq> None then [jd] else []) @ with_sign ref_jd points"
  by (simp add: with_sign_def)

lemma signs_Nil [simp]: "of_sign negative ref_jd [] = []" "with_sign ref_jd [] = []"
  by (simp_all add: of_sign_def with_sign_def)

lemma count_point_None [simp]: "count_point ref_jd cutoff (jd, None) acc = acc"
  by (simp add: count_point_def split: prod.split)

lemma count_point_late: "ref_jd < jd \<Longrightarrow> count_point ref_jd cutoff (jd, sign) acc = acc"
  by (simp add: count_point_def split: prod.split)

lemma count_point_negative:
  "jd \<le> ref_jd \<Longrightarrow> count_point ref_jd cutoff (jd, Some True) (d, positives) =
     (d\<lparr>first_activity_jd := or_less (first_activity_jd d) jd, last_detection_jd := or_more (last_detection_jd d) jd,
        n_det := n_det d + 1, n_neg := n_neg d + 1, n_neg_30d := n_neg_30d d + (if cutoff \<le> jd then 1 else 0),
        first_neg_jd := or_less (first_neg_jd d) jd, last_neg_jd := or_more (last_neg_jd d) jd\<rparr>, positives)"
  by (simp add: count_point_def span_to_def Let_def)

lemma count_point_positive:
  "jd \<le> ref_jd \<Longrightarrow> count_point ref_jd cutoff (jd, Some False) (d, positives) =
     (d\<lparr>first_activity_jd := or_less (first_activity_jd d) jd, last_detection_jd := or_more (last_detection_jd d) jd,
        n_det := n_det d + 1, n_pos := n_pos d + 1, n_pos_30d := n_pos_30d d + (if cutoff \<le> jd then 1 else 0)\<rparr>,
      positives @ [jd])"
  by (simp add: count_point_def span_to_def Let_def)

lemmas count_point_steps = count_point_late count_point_negative count_point_positive

lemma fold_count_point:
  "fold (count_point ref_jd cutoff) points (d, ps) =
     (d\<lparr>n_det := n_det d + length (with_sign ref_jd points),
        n_pos := n_pos d + length (of_sign False ref_jd points),
        n_neg := n_neg d + length (of_sign True ref_jd points),
        first_neg_jd := lows (of_sign True ref_jd points) (first_neg_jd d),
        last_neg_jd := highs (of_sign True ref_jd points) (last_neg_jd d),
        n_pos_30d := n_pos_30d d + length (filter ((\<le>) cutoff) (of_sign False ref_jd points)),
        n_neg_30d := n_neg_30d d + length (filter ((\<le>) cutoff) (of_sign True ref_jd points)),
        first_activity_jd := lows (with_sign ref_jd points) (first_activity_jd d),
        last_detection_jd := highs (with_sign ref_jd points) (last_detection_jd d)\<rparr>,
      ps @ of_sign False ref_jd points)"
proof (induction points arbitrary: d ps)
  case Nil
  then show ?case by simp
next
  case (Cons p points)
  obtain jd sign where p: "p = (jd, sign)" by (cases p)
  show ?case
  proof (cases sign)
    case (Some negative)
    then show ?thesis
      by (cases negative; cases "ref_jd < jd") (simp_all add: p Cons.IH count_point_steps)
  qed (simp add: p Cons.IH)
qed

lemma with_sign_length:
  "length (with_sign ref_jd points) = length (of_sign False ref_jd points) + length (of_sign True ref_jd points)"
proof (induction points)
  case (Cons p points)
  obtain jd sign where "p = (jd, sign)" by (cases p)
  with Cons.IH show ?case by (cases sign) auto
qed simp

lemma with_sign_set: "set (with_sign ref_jd points) = set (of_sign False ref_jd points) \<union> set (of_sign True ref_jd points)"
proof (induction points)
  case (Cons p points)
  obtain jd sign where p: "p = (jd, sign)" by (cases p)
  consider "sign = None" | "sign = Some True" | "sign = Some False" by (cases sign) auto
  then show ?case by cases (simp_all add: p Cons.IH Un_ac)
qed simp

lemma lows_None: "lows xs None = least_of xs"
  using fold_or_less [of xs "[]"] by (simp add: least_of_def)

lemma highs_None: "highs xs None = greatest_of xs"
  using fold_or_more [of xs "[]"] by (simp add: greatest_of_def)

lemma of_sign_episodes: "episodes_from_points rnd points ref_jd gap = from_positive_epochs rnd (of_sign False ref_jd points) gap"
  by (simp add: episodes_from_points_def of_sign_def)

text \<open>
  C31: one pass over the points computes what the documentation of each entry says: the counts, first
  and last dates of the detections of each sign up to the alert, those of the 30 days before it, the
  span of all activity with the forced epochs, the first strong forced epoch and the number of
  different nights, and beside them the episodes \<open>EpisodeHistory::from_points\<close> computes.
\<close>

theorem summaries_are_exact:
  "summarise_detections rnd points forced ref_jd gap =
     (summary_of rnd points forced ref_jd, episodes_from_points rnd points ref_jd gap)"
proof -
  let ?pos = "of_sign False ref_jd points" and ?neg = "of_sign True ref_jd points"
  let ?fs = "map fst (forced_until ref_jd forced)"
  have lo: "lows (with_sign ref_jd points) (least_of ?fs) = least_of (?fs @ ?pos @ ?neg)"
    unfolding fold_or_less by (rule least_of_cong) (simp add: with_sign_set)
  have hi: "highs (with_sign ref_jd points) (greatest_of ?fs) = greatest_of (?fs @ ?pos @ ?neg)"
    unfolding fold_or_more by (rule greatest_of_cong) (simp add: with_sign_set)
  have nights: "length (remdups_adj (sort (map (night_of rnd) ?pos))) = card (night_of rnd ` set ?pos)"
    by (simp add: length_remdups_sorted)
  show ?thesis
    by (simp add: summarise_detections_def fold_count_forced fold_count_point lows_None highs_None lo hi nights
        with_sign_length of_sign_episodes summary_of_def no_history_def strong_forced_def Let_def)
qed

section \<open>Episodes are the runs of detections without a longer gap\<close>

definition close_epochs :: "(real \<Rightarrow> real) \<Rightarrow> real \<Rightarrow> real \<Rightarrow> real \<Rightarrow> bool" where
  "close_epochs rnd gap x y = (\<not> gap < rnd (y - x))"

definition quiet_between :: "(real \<Rightarrow> real) \<Rightarrow> real list \<Rightarrow> real list \<Rightarrow> real" where
  "quiet_between rnd r r' = rnd (hd r' - last r)"

definition episode_runs :: "(real \<Rightarrow> real) \<Rightarrow> real \<Rightarrow> real list list \<Rightarrow> bool" where
  "episode_runs rnd gap runs =
     (list_all (\<lambda>r. r \<noteq> [] \<and> successively (close_epochs rnd gap) r) runs \<and>
      successively (\<lambda>r r'. gap < quiet_between rnd r r') runs)"

definition gaps_between :: "(real \<Rightarrow> real) \<Rightarrow> real list list \<Rightarrow> real list" where
  "gaps_between rnd runs = map (\<lambda>(r, r'). quiet_between rnd r r') (zip runs (tl runs))"

definition history_of_runs :: "(real \<Rightarrow> real) \<Rightarrow> real \<Rightarrow> real list list \<Rightarrow> episode_history" where
  "history_of_runs rnd gap runs =
     \<lparr>n_episodes = length runs, gap_days = gap,
      last_gap_days = (if length runs < 2 then None
                       else Some (quiet_between rnd (runs ! (length runs - 2)) (runs ! (length runs - 1)))),
      prev_gap_days = (if length runs < 3 then None
                       else Some (quiet_between rnd (runs ! (length runs - 3)) (runs ! (length runs - 2)))),
      longest_quiet_days = greatest_of (gaps_between rnd runs),
      first_episode_jd = (if runs = [] then None else Some (hd (hd runs))),
      last_episode_jd = (if runs = [] then None else Some (hd (last runs)))\<rparr>"

definition run_ends :: "real list \<Rightarrow> real \<times> real" where
  "run_ends r = (hd r, last r)"

definition add_to_runs :: "(real \<Rightarrow> real) \<Rightarrow> real \<Rightarrow> real \<Rightarrow> real list list \<Rightarrow> real list list" where
  "add_to_runs rnd gap jd runs =
     (if close_epochs rnd gap (last (last runs)) jd then butlast runs @ [last runs @ [jd]] else runs @ [[jd]])"

lemma add_to_runs:
  assumes "episode_runs rnd gap runs" and "runs \<noteq> []"
  shows "episode_runs rnd gap (add_to_runs rnd gap jd runs) \<and> add_to_runs rnd gap jd runs \<noteq> [] \<and>
    concat (add_to_runs rnd gap jd runs) = concat runs @ [jd] \<and>
    map run_ends (add_to_runs rnd gap jd runs) = add_epoch rnd gap jd (map run_ends runs)"
proof -
  obtain before r where runs: "runs = before @ [r]" using assms(2) by (cases runs rule: rev_cases) auto
  have r: "r \<noteq> []" using assms(1) by (simp add: runs episode_runs_def)
  show ?thesis
    using assms(1) r
    by (auto simp: runs add_to_runs_def add_epoch_def episode_runs_def successively_append_iff close_epochs_def
        quiet_between_def run_ends_def)
qed

lemma fold_add_epoch:
  assumes "episode_runs rnd gap runs" and "runs \<noteq> []"
  shows "\<exists>runs'. episode_runs rnd gap runs' \<and> runs' \<noteq> [] \<and> concat runs' = concat runs @ jds \<and>
    map run_ends runs' = fold (add_epoch rnd gap) jds (map run_ends runs)"
  using assms
proof (induction jds arbitrary: runs)
  case (Cons jd jds)
  note step = add_to_runs [OF Cons.prems, of jd]
  from Cons.IH [of "add_to_runs rnd gap jd runs"] step show ?case by auto
qed auto

lemma quiet_gaps_runs: "quiet_gaps rnd (map run_ends runs) = gaps_between rnd runs"
  by (simp add: quiet_gaps_def gaps_between_def zip_map_map split_def run_ends_def quiet_between_def comp_def flip: map_tl)

lemma gaps_between_nth:
  "i < length runs - 1 \<Longrightarrow> gaps_between rnd runs ! i = quiet_between rnd (runs ! i) (runs ! Suc i)"
  by (simp add: gaps_between_def nth_tl)

lemma length_gaps_between [simp]: "length (gaps_between rnd runs) = length runs - 1"
  by (simp add: gaps_between_def)

text \<open>
  C32: the episodes of an object are the runs into which its positive detections, in the order of time,
  fall when they are cut wherever two neighbours are more than the gap apart: every detection is in a
  run, no run is empty or has such a gap inside, and such a gap separates each run from the next.  The
  record says of these runs how many there are, when the first and the last begin, and of the quiet
  intervals between them the last, the one before and the longest.
\<close>

theorem episodes_are_the_runs:
  "\<exists>runs. concat runs = sort jds \<and> episode_runs rnd gap runs \<and>
     from_positive_epochs rnd jds gap = history_of_runs rnd gap runs"
proof (cases "sort jds")
  case Nil
  then show ?thesis
    by (intro exI [of _ "[]"])
      (simp add: episode_runs_def from_positive_epochs_def history_of_runs_def gaps_between_def greatest_of_def)
next
  case (Cons first rest)
  have "episode_runs rnd gap [[first]]" by (simp add: episode_runs_def)
  from fold_add_epoch [OF this, of rest] obtain runs where
    runs: "episode_runs rnd gap runs" "runs \<noteq> []" "concat runs = first # rest"
      and ends: "map run_ends runs = fold (add_epoch rnd gap) rest [(first, first)]"
    by (auto simp: run_ends_def)
  have some: "gaps_between rnd runs = [] \<longleftrightarrow> length runs < 2"
    by (simp flip: length_0_conv) (use runs(2) in \<open>cases runs; auto\<close>)
  have "from_positive_epochs rnd jds gap = history_of_runs rnd gap runs"
    using runs(2)
    by (auto simp: from_positive_epochs_def Cons Let_def highs_None history_of_runs_def quiet_gaps_runs some last_conv_nth
        gaps_between_nth hd_map last_map run_ends_def numeral_2_eq_2 numeral_3_eq_3 Suc_diff_Suc simp flip: ends)
      (subgoal_tac "length runs = Suc (Suc 0)"; simp)
  then show ?thesis using runs Cons by auto
qed

text \<open>A reported quiet interval is longer than the gap.\<close>

lemma gaps_between_long: "episode_runs rnd gap runs \<Longrightarrow> g \<in> set (gaps_between rnd runs) \<Longrightarrow> gap < g"
  by (auto simp: episode_runs_def gaps_between_def successively_conv_nth set_zip nth_tl)

section \<open>Non-detections\<close>

definition latest_of :: "(real \<times> 'a) list \<Rightarrow> (real \<times> 'a) option" where
  "latest_of xs = find (\<lambda>p. fst p = Max (set (map fst xs))) xs"

definition usable_limits :: "real \<Rightarrow> (real \<times> f32) list \<Rightarrow> (real \<times> f32) list" where
  "usable_limits ref_jd xs = filter (\<lambda>(jd, maglim). jd \<le> ref_jd \<and> f32_finite maglim) xs"

definition limits_before :: "real option \<Rightarrow> (real \<times> f32) list \<Rightarrow> (real \<times> f32) list" where
  "limits_before first xs = filter (\<lambda>(jd, _). pred_option (\<lambda>j. jd < j) first \<and> first \<noteq> None) xs"

lemma latest_of_Nil [simp]: "latest_of [] = None"
  by (simp add: latest_of_def)

lemma find_append: "find P (xs @ ys) = (case find P xs of None \<Rightarrow> find P ys | Some x \<Rightarrow> Some x)"
  by (induction xs) auto

lemma latest_of_some:
  assumes "xs \<noteq> []"
  shows "\<exists>p. latest_of xs = Some p \<and> fst p = Max (set (map fst xs))"
proof -
  have "Max (set (map fst xs)) \<in> set (map fst xs)" using assms by (intro Max_in) auto
  then obtain q where "q \<in> set xs" "fst q = Max (set (map fst xs))" by auto
  then have "latest_of xs \<noteq> None" unfolding latest_of_def find_None_iff by blast
  then obtain p where "latest_of xs = Some p" by blast
  moreover from this have "fst p = Max (set (map fst xs))" unfolding latest_of_def find_Some_iff by blast
  ultimately show ?thesis by blast
qed

lemma latest_of_snoc:
  "latest_of (xs @ [p]) = (if pred_option (\<lambda>q. fst q < fst p) (latest_of xs) then Some p else latest_of xs)"
proof (cases "xs = []")
  case False
  then obtain q where q: "latest_of xs = Some q" "fst q = Max (set (map fst xs))" using latest_of_some by blast
  have upper: "\<forall>r\<in>set xs. fst r \<le> fst q" using q(2) by simp
  have max: "Max (set (map fst (xs @ [p]))) = max (fst p) (fst q)" using False by (simp add: q(2))
  show ?thesis
  proof (cases "fst q < fst p")
    case True
    then have "find (\<lambda>r. fst r = fst p) xs = None" using upper by (auto simp: find_None_iff)
    then show ?thesis using True unfolding latest_of_def [of "xs @ [p]"] max by (simp add: find_append q(1))
  next
    case False
    have "find (\<lambda>r. fst r = fst q) xs = Some q" using q unfolding latest_of_def by simp
    then show ?thesis using False unfolding latest_of_def [of "xs @ [p]"] max by (simp add: find_append q(1))
  qed
qed (simp add: latest_of_def)

definition knows_limits :: "(real \<times> f32) list \<Rightarrow> detection_history \<Rightarrow> detection_history" where
  "knows_limits xs d =
     d\<lparr>last_nondet_jd := map_option fst (latest_of xs), last_nondet_maglim := map_option snd (latest_of xs),
       prediscovery_nondet_jd := map_option fst (latest_of (limits_before (first_pos_jd d) xs)),
       prediscovery_nondet_maglim := map_option snd (latest_of (limits_before (first_pos_jd d) xs))\<rparr>"

lemma add_nondetection_knows:
  "add_nondetection ref_jd p (knows_limits xs d) = knows_limits (xs @ usable_limits ref_jd [p]) d"
  by (cases p; cases "latest_of xs"; cases "first_pos_jd d"; cases "latest_of (limits_before (first_pos_jd d) xs)")
    (auto simp: add_nondetection_def knows_limits_def usable_limits_def limits_before_def latest_of_snoc)

lemma add_nondetections_knows:
  "add_nondetections ref_jd nondetections (knows_limits xs d) = knows_limits (xs @ usable_limits ref_jd nondetections) d"
proof (induction nondetections arbitrary: xs)
  case (Cons p nondetections)
  have "usable_limits ref_jd (p # nondetections) = usable_limits ref_jd [p] @ usable_limits ref_jd nondetections"
    by (simp add: usable_limits_def)
  with Cons.IH [of "xs @ usable_limits ref_jd [p]"] show ?case
    by (simp add: add_nondetections_def add_nondetection_knows)
qed (simp add: add_nondetections_def usable_limits_def)

text \<open>
  added to the history of the points, the non-detections with a finite limit up to the alert leave
  their latest with its limit, and the latest of those before the first positive detection; where two
  share that date the first of them stays, and without a positive detection there is none before it.
\<close>

theorem latest_limits_are_kept:
  "add_nondetections ref_jd nondetections (fst (summarise_detections rnd points forced ref_jd gap)) =
     (let d = fst (summarise_detections rnd points forced ref_jd gap); all = usable_limits ref_jd nondetections;
          early = limits_before (first_pos_jd d) all
      in d\<lparr>last_nondet_jd := map_option fst (latest_of all), last_nondet_maglim := map_option snd (latest_of all),
           prediscovery_nondet_jd := map_option fst (latest_of early),
           prediscovery_nondet_maglim := map_option snd (latest_of early)\<rparr>)"
proof -
  let ?d = "fst (summarise_detections rnd points forced ref_jd gap)"
  have "?d = knows_limits [] ?d"
    by (simp add: knows_limits_def limits_before_def summarise_detections_def
        fold_count_forced fold_count_point no_history_def Let_def)
  then have "add_nondetections ref_jd nondetections ?d = knows_limits (usable_limits ref_jd nondetections) ?d"
    by (metis add_nondetections_knows append_Nil)
  then show ?thesis by (simp add: knows_limits_def Let_def)
qed

end
