(* ===== verification/Light_Curve_Fits.thy ===== *)
theory Light_Curve_Fits
  imports Detection_Histories Ztf_Packet "HOL-Library.Product_Lexorder" "HOL-Library.Multiset"
begin

text \<open>
  The per-band features of a light curve (\<open>src/src/utils/lightcurves.rs\<close>): sorting and
  de-duplication of the points, the weighted line fits on both sides of the brightest point, over
  the whole curve and over recent windows, and the extremes over all bands.  Dates are finite;
  \<open>rnd\<close> rounds their differences.
\<close>

section \<open>Points in the order of time and band\<close>

record photometry_mag =
  m_time :: real
  m_mag :: f32
  m_mag_err :: f32
  m_band :: band

text \<open>The derived order of the bands, and \<open>f32::total_cmp\<close>.\<close>

fun band_index :: "band \<Rightarrow> nat" where
  "band_index G = 0" | "band_index R = 1" | "band_index I = 2" | "band_index Z = 3" | "band_index Y = 4"
| "band_index U = 5" | "band_index J = 6" | "band_index H = 7" | "band_index K = 8"

definition f32_total_key :: "f32 \<Rightarrow> int" where
  "f32_total_key x = (if x AND 0x80000000 = 0 then uint x else - uint (f32_abs x) - 1)"

definition photometry_key :: "photometry_mag \<Rightarrow> real \<times> nat \<times> int" where
  "photometry_key p = (m_time p, band_index (m_band p), f32_total_key (m_mag_err p))"

definition same_epoch :: "photometry_mag \<Rightarrow> photometry_mag \<Rightarrow> bool" where
  "same_epoch a b \<longleftrightarrow> m_time a = m_time b \<and> m_band a = m_band b"

definition prepare_photometry :: "photometry_mag list \<Rightarrow> photometry_mag list" where
  "prepare_photometry ps = dedup_by same_epoch (sort_key photometry_key ps)"

section \<open>The line fit\<close>

text \<open>The arithmetic of the fit: that of \<open>f32\<close> in the code, and the exact one it approximates.\<close>

record 'n arith =
  n_add :: "'n \<Rightarrow> 'n \<Rightarrow> 'n"
  n_sub :: "'n \<Rightarrow> 'n \<Rightarrow> 'n"
  n_mul :: "'n \<Rightarrow> 'n \<Rightarrow> 'n"
  n_div :: "'n \<Rightarrow> 'n \<Rightarrow> 'n"
  n_square :: "'n \<Rightarrow> 'n"
  n_sqrt :: "'n \<Rightarrow> 'n"
  n_abs :: "'n \<Rightarrow> 'n"
  n_lit :: "real \<Rightarrow> 'n"
  n_less :: "'n \<Rightarrow> 'n \<Rightarrow> bool"
  n_le :: "'n \<Rightarrow> 'n \<Rightarrow> bool"
  n_finite :: "'n \<Rightarrow> bool"

record 'n band_rate =
  rate :: 'n
  rate_error :: 'n
  chi2 :: "'n option"
  dof :: "nat option"
  red_chi2 :: "'n option"
  rate_nb_data :: nat
  rate_dt :: 'n

text \<open>The weights, or nothing where an uncertainty is unusable; the loops add in the order of the points.\<close>

definition weight :: "'n arith \<Rightarrow> 'n \<Rightarrow> 'n" where
  "weight A s = n_div A (n_lit A 1) (n_mul A s s)"

definition usable_sigma :: "'n arith \<Rightarrow> 'n \<Rightarrow> bool" where
  "usable_sigma A s \<longleftrightarrow> \<not> (n_le A s (n_lit A 0) \<or> \<not> n_finite A s) \<and> n_finite A (weight A s)"

definition sum_of :: "'n arith \<Rightarrow> 'n list \<Rightarrow> 'n" where
  "sum_of A xs = fold (\<lambda>x acc. n_add A acc x) xs (n_lit A 0)"

definition weighted_least_squares_centered :: "'n arith \<Rightarrow> 'n list \<Rightarrow> 'n list \<Rightarrow> 'n list \<Rightarrow> 'n band_rate option" where
  "weighted_least_squares_centered A x y sigma =
     (let n = length x in
      if n < 2 \<or> length y \<noteq> n \<or> length sigma \<noteq> n then None
      else if \<not> list_all (usable_sigma A) sigma then None
      else
        let w = map (weight A) sigma;
            sum_w = sum_of A w;
            x_mean = n_div A (sum_of A (map2 (n_mul A) w x)) sum_w;
            y_mean = n_div A (sum_of A (map2 (n_mul A) w y)) sum_w;
            dx = map (\<lambda>v. n_sub A v x_mean) x;
            dy = map (\<lambda>v. n_sub A v y_mean) y;
            w_dx = map2 (n_mul A) w dx;
            sxx = sum_of A (map2 (n_mul A) w_dx dx);
            sxy = sum_of A (map2 (n_mul A) w_dx dy)
        in if n_less A (n_abs A sxx) (n_lit A (1 / 10 ^ 10)) then None
           else
             let a = n_div A sxy sxx;
                 b = n_sub A y_mean (n_mul A a x_mean);
                 a_err = n_sqrt A (n_div A (n_lit A 1) sxx);
                 residuals = map2 (\<lambda>yi xi. n_sub A yi (n_add A (n_mul A a xi) b)) y x;
                 chi2 = sum_of A (map2 (\<lambda>r s. n_square A (n_div A r s)) residuals sigma);
                 dof = n - 2
             in Some \<lparr>rate = a, rate_error = a_err, chi2 = Some chi2, dof = Some dof,
                      red_chi2 = (if 0 < dof then Some (n_div A chi2 (n_lit A (real dof))) else None),
                      rate_nb_data = n, rate_dt = n_sub A (x ! (n - 1)) (x ! 0)\<rparr>)"

definition f32_less :: "f32 \<Rightarrow> f32 \<Rightarrow> bool" where
  "f32_less x y = (case (f32_place x, f32_place y) of (Some p, Some q) \<Rightarrow> p < q | _ \<Rightarrow> False)"

definition f32_le :: "f32 \<Rightarrow> f32 \<Rightarrow> bool" where
  "f32_le x y = (case (f32_place x, f32_place y) of (Some p, Some q) \<Rightarrow> p \<le> q | _ \<Rightarrow> False)"

definition f32_arith :: "float_unit \<Rightarrow> f32 arith" where
  "f32_arith F = \<lparr>n_add = f_add F, n_sub = f_sub F, n_mul = f_mul F, n_div = f_div F, n_square = f_square F, n_sqrt = f_sqrt F,
     n_abs = f32_abs, n_lit = f_lit F, n_less = f32_less, n_le = f32_le, n_finite = f32_finite\<rparr>"

section \<open>Segments and windows\<close>

definition brightest_index :: "photometry_mag list \<Rightarrow> nat option" where
  "brightest_index mags =
     (if mags = [] then None
      else Some (fold (\<lambda>i best. if f32_less (m_mag (mags ! i)) (m_mag (mags ! best)) then i else best) [0..<length mags] 0))"

definition F32_INFINITY :: f32 where "F32_INFINITY = 0x7F800000"

definition widest_pair :: "(f32 \<Rightarrow> f32 \<Rightarrow> bool) \<Rightarrow> f32 \<Rightarrow> photometry_mag list \<Rightarrow> f32 \<times> f32" where
  "widest_pair beyond start segment =
     fold (\<lambda>m (v, e). if beyond (m_mag m) v then (m_mag m, m_mag_err m) else (v, e)) segment (start, start)"

definition fit_segment :: "float_unit \<Rightarrow> (real \<Rightarrow> real) \<Rightarrow> photometry_mag list \<Rightarrow> f32 band_rate option" where
  "fit_segment F rnd segment =
     (if length segment < 2 then None
      else
        let t0 = m_time (segment ! 0) in
        if rnd (m_time (last segment) - t0) \<le> 1 / 100 then None
        else
          let time = map (\<lambda>m. as_f32 F (Num (rnd (m_time m - t0)))) segment;
              (min_mag, min_mag_err) = widest_pair f32_less F32_INFINITY segment;
              (max_mag, max_mag_err) = widest_pair (\<lambda>a b. f32_less b a) (f32_neg F32_INFINITY) segment
          in if f32_le (f_sub F max_mag max_mag_err) (f_add F min_mag min_mag_err) then None
             else weighted_least_squares_centered (f32_arith F) time (map m_mag segment) (map m_mag_err segment))"

definition fit_rising_and_fading ::
  "float_unit \<Rightarrow> (real \<Rightarrow> real) \<Rightarrow> photometry_mag list \<Rightarrow> f32 band_rate option \<times> f32 band_rate option" where
  "fit_rising_and_fading F rnd mags =
     (case brightest_index mags of
        None \<Rightarrow> (None, None)
      | Some peak \<Rightarrow> (fit_segment F rnd (take (peak + 1) mags), fit_segment F rnd (drop peak mags)))"

record recent_properties =
  window_days :: f32
  recent_nb_data :: nat
  recent_peak_jd :: real
  recent_peak_mag :: f32
  recent_rising :: "f32 band_rate option"
  recent_fading :: "f32 band_rate option"

definition RECENT_WINDOW_DAYS :: real where "RECENT_WINDOW_DAYS = 30"
definition LAST_DAY_WINDOW_DAYS :: real where "LAST_DAY_WINDOW_DAYS = 1"

definition window_properties ::
  "float_unit \<Rightarrow> (real \<Rightarrow> real) \<Rightarrow> photometry_mag list \<Rightarrow> real \<Rightarrow> real \<Rightarrow> recent_properties option" where
  "window_properties F rnd mags last_jd days =
     (let cutoff = rnd (last_jd - days); window = filter (\<lambda>m. cutoff \<le> m_time m) mags
      in map_option (\<lambda>peak.
           (case fit_rising_and_fading F rnd window of (rising, fading) \<Rightarrow>
              \<lparr>window_days = as_f32 F (Num days), recent_nb_data = length window, recent_peak_jd = m_time (window ! peak),
               recent_peak_mag = m_mag (window ! peak), recent_rising = rising, recent_fading = fading\<rparr>))
         (brightest_index window))"

section \<open>All bands of a light curve\<close>

record band_properties =
  b_peak_jd :: real
  b_peak_mag :: f32
  b_peak_mag_err :: f32
  b_dt :: f32
  b_rising :: "f32 band_rate option"
  b_fading :: "f32 band_rate option"
  b_recent :: "recent_properties option"
  b_last_day :: "recent_properties option"
  b_nb_data :: nat

text \<open>A field for each band.\<close>

type_synonym per_band_properties = "band \<Rightarrow> band_properties option"

record all_bands_properties =
  a_peak_jd :: real
  a_peak_mag :: f32
  a_peak_mag_err :: f32
  a_peak_band :: band
  a_faintest_jd :: real
  a_faintest_mag :: f32
  a_faintest_mag_err :: f32
  a_faintest_band :: band
  a_first_jd :: real
  a_last_jd :: real
  days_since_peak_g :: "f32 option"
  days_to_peak_g :: "f32 option"
  peakmag_g :: "f32 option"
  maxmag_g :: "f32 option"
  days_since_peak_r :: "f32 option"
  days_to_peak_r :: "f32 option"
  peakmag_r :: "f32 option"
  maxmag_r :: "f32 option"
  n_photometry_total :: f32
  n_photometry_g :: f32
  n_photometry_r :: f32

definition no_photometry :: all_bands_properties where
  "no_photometry = \<lparr>a_peak_jd = 0, a_peak_mag = 0, a_peak_mag_err = 0, a_peak_band = G, a_faintest_jd = 0, a_faintest_mag = 0,
     a_faintest_mag_err = 0, a_faintest_band = G, a_first_jd = 0, a_last_jd = 0, days_since_peak_g = None,
     days_to_peak_g = None, peakmag_g = None, maxmag_g = None, days_since_peak_r = None, days_to_peak_r = None,
     peakmag_r = None, maxmag_r = None, n_photometry_total = 0, n_photometry_g = 0, n_photometry_r = 0\<rparr>"

definition extreme_indices :: "photometry_mag list \<Rightarrow> nat \<times> nat" where
  "extreme_indices mags =
     fold (\<lambda>i (peak, faintest).
         if f32_less (m_mag (mags ! i)) (m_mag (mags ! peak)) then (i, faintest)
         else if f32_less (m_mag (mags ! faintest)) (m_mag (mags ! i)) then (peak, i)
         else (peak, faintest)) [0..<length mags] (0, 0)"

definition of_band :: "band \<Rightarrow> photometry_mag list \<Rightarrow> photometry_mag list" where
  "of_band b ps = filter (\<lambda>m. m_band m = b) ps"

definition band_properties_of ::
  "float_unit \<Rightarrow> (real \<Rightarrow> real) \<Rightarrow> real \<Rightarrow> photometry_mag list \<Rightarrow> band_properties" where
  "band_properties_of F rnd last_jd mags =
     (let peak = mags ! fst (extreme_indices mags);
          dt = as_f32 F (Num (rnd (m_time (last mags) - m_time (hd mags))));
          (rising, fading) = fit_rising_and_fading F rnd mags
      in \<lparr>b_peak_jd = m_time peak, b_peak_mag = m_mag peak, b_peak_mag_err = m_mag_err peak, b_dt = dt,
          b_rising = rising, b_fading = fading,
          b_recent = window_properties F rnd mags last_jd RECENT_WINDOW_DAYS,
          b_last_day = window_properties F rnd mags last_jd LAST_DAY_WINDOW_DAYS,
          b_nb_data = length mags\<rparr>)"

text \<open>
  What the loop over the bands carries: the brightest and the faintest point so far (date, magnitude,
  error and band are those of one point) and the properties of the bands.
\<close>

record analysis =
  brightest :: photometry_mag
  faintest :: photometry_mag
  band_results :: per_band_properties

definition analyze_band ::
  "float_unit \<Rightarrow> (real \<Rightarrow> real) \<Rightarrow> real \<Rightarrow> photometry_mag list \<Rightarrow> band \<Rightarrow> analysis \<Rightarrow> analysis" where
  "analyze_band F rnd last_jd ps band a =
     (let mags = of_band band ps;
          peak = mags ! fst (extreme_indices mags);
          faint = mags ! snd (extreme_indices mags)
      in a\<lparr>brightest := (if f32_less (m_mag peak) (m_mag (brightest a)) then peak else brightest a),
           faintest := (if f32_less (m_mag (faintest a)) (m_mag faint) then faint else faintest a),
           band_results := (band_results a)(band \<mapsto> band_properties_of F rnd last_jd mags)\<rparr>)"

text \<open>
  The entries reported for the bands g and r again: the code sets them in the turn of the band, from
  the values that turn has.  \<open>order\<close> is the order in which the hash map of the bands is iterated.
\<close>

definition since_peak :: "float_unit \<Rightarrow> (real \<Rightarrow> real) \<Rightarrow> real \<Rightarrow> band_properties option \<Rightarrow> f32 option" where
  "since_peak F rnd last_jd b = map_option (\<lambda>b. as_f32 F (Num (rnd (last_jd - b_peak_jd b)))) b"

definition to_peak :: "float_unit \<Rightarrow> (real \<Rightarrow> real) \<Rightarrow> photometry_mag list \<Rightarrow> band_properties option \<Rightarrow> f32 option" where
  "to_peak F rnd mags b = map_option (\<lambda>b. as_f32 F (Num (rnd (b_peak_jd b - m_time (hd mags))))) b"

definition max_mag :: "photometry_mag list \<Rightarrow> band_properties option \<Rightarrow> f32 option" where
  "max_mag mags b = map_option (\<lambda>_. m_mag (mags ! snd (extreme_indices mags))) b"

definition analyze_photometry ::
  "float_unit \<Rightarrow> (real \<Rightarrow> real) \<Rightarrow> real \<Rightarrow> band list \<Rightarrow> photometry_mag list \<Rightarrow>
   per_band_properties \<times> all_bands_properties \<times> bool" where
  "analyze_photometry F rnd biggest order ps =
     (if ps = [] then (\<lambda>_. None, no_photometry, False)
      else
        let last_jd = m_time (last ps);
            a = fold (analyze_band F rnd last_jd ps) order \<lparr>brightest = hd ps, faintest = hd ps, band_results = (\<lambda>_. None)\<rparr>;
            g = band_results a G; r = band_results a R; g_mags = of_band G ps; r_mags = of_band R ps;
            peak = brightest a; faint = faintest a
        in (band_results a,
            \<lparr>a_peak_jd = m_time peak, a_peak_mag = m_mag peak, a_peak_mag_err = m_mag_err peak, a_peak_band = m_band peak,
             a_faintest_jd = m_time faint, a_faintest_mag = m_mag faint, a_faintest_mag_err = m_mag_err faint,
             a_faintest_band = m_band faint, a_first_jd = m_time (hd ps), a_last_jd = last_jd,
             days_since_peak_g = since_peak F rnd last_jd g, days_to_peak_g = to_peak F rnd g_mags g,
             peakmag_g = map_option b_peak_mag g, maxmag_g = max_mag g_mags g,
             days_since_peak_r = since_peak F rnd last_jd r, days_to_peak_r = to_peak F rnd r_mags r,
             peakmag_r = map_option b_peak_mag r, maxmag_r = max_mag r_mags r,
             n_photometry_total = f_lit F (real (length ps)), n_photometry_g = f_lit F (real (length g_mags)),
             n_photometry_r = f_lit F (real (length r_mags))\<rparr>,
            is_stationary rnd biggest (map m_time ps)))"

section \<open>Sorting and removing duplicates\<close>

definition epoch_key :: "photometry_mag \<Rightarrow> real \<times> nat" where
  "epoch_key p = (m_time p, band_index (m_band p))"

lemma band_index_inj [simp]: "band_index a = band_index b \<longleftrightarrow> a = b"
  by (cases a; cases b; simp)

lemma same_epoch_key: "same_epoch a b \<longleftrightarrow> epoch_key a = epoch_key b"
  by (auto simp: same_epoch_def epoch_key_def)

lemma photometry_key_le:
  "photometry_key p \<le> photometry_key q \<longleftrightarrow>
     epoch_key p < epoch_key q \<or> epoch_key p = epoch_key q \<and> f32_total_key (m_mag_err p) \<le> f32_total_key (m_mag_err q)"
  by (auto simp: photometry_key_def epoch_key_def less_prod_def less_eq_prod_def)

lemma dedup_by_head: "xs \<noteq> [] \<Longrightarrow> dedup_by same xs \<noteq> [] \<and> hd (dedup_by same xs) = hd xs"
  by (induction same xs rule: dedup_by.induct) auto

text \<open>On sorted points: the kept ones are in strict order, and each point has one of its epoch, with no larger error, among them.\<close>

lemma dedup_strict:
  "sorted (map photometry_key xs) \<Longrightarrow> sorted_wrt (\<lambda>p q. epoch_key p < epoch_key q) (dedup_by same_epoch xs)"
proof (induction same_epoch xs rule: dedup_by.induct)
  case (1 x y r)
  show ?case
  proof (cases "same_epoch y x")
    case True
    with 1 show ?thesis by simp
  next
    case False
    have "epoch_key x < epoch_key z" if "z \<in> set (dedup_by same_epoch (y # r))" for z
    proof -
      have z: "z \<in> set (y # r)" using that set_dedup_by by fastforce
      have "photometry_key x \<le> photometry_key y" using 1(3) by simp
      moreover have "photometry_key y \<le> photometry_key z" using 1(3) z by auto
      moreover have "epoch_key x \<noteq> epoch_key y" using False by (auto simp: same_epoch_key)
      ultimately show ?thesis by (auto simp: photometry_key_le)
    qed
    with False 1 show ?thesis by simp
  qed
qed simp_all

lemma dedup_best:
  "sorted (map photometry_key xs) \<Longrightarrow> p \<in> set xs \<Longrightarrow>
   \<exists>q\<in>set (dedup_by same_epoch xs). same_epoch p q \<and> f32_total_key (m_mag_err q) \<le> f32_total_key (m_mag_err p)"
proof (induction same_epoch xs arbitrary: p rule: dedup_by.induct)
  case (1 x y r)
  show ?case
  proof (cases "same_epoch y x")
    case True
    have sorted: "sorted (map photometry_key (x # r))" using 1(3) by simp
    have x: "\<exists>q\<in>set (dedup_by same_epoch (x # r)). same_epoch x q \<and>
        f32_total_key (m_mag_err q) \<le> f32_total_key (m_mag_err x)"
      by (rule 1(1) [OF True sorted]) simp
    have "f32_total_key (m_mag_err x) \<le> f32_total_key (m_mag_err y)"
      using 1(3) True by (auto simp: photometry_key_le same_epoch_key)
    with x True have "\<exists>q\<in>set (dedup_by same_epoch (x # r)). same_epoch y q \<and>
        f32_total_key (m_mag_err q) \<le> f32_total_key (m_mag_err y)"
      by (force simp: same_epoch_key)
    with 1(1) [OF True sorted] 1(4) True x show ?thesis by auto
  next
    case False
    have sorted: "sorted (map photometry_key (y # r))" using 1(3) by simp
    show ?thesis
    proof (cases "p = x")
      case True
      then show ?thesis using False by (auto simp: same_epoch_def)
    next
      case p: False
      with 1(4) have "p \<in> set (y # r)" by simp
      from 1(2) [OF False sorted this] show ?thesis using False by auto
    qed
  qed
qed (auto simp: same_epoch_def)

text \<open>
  a prepared light curve consists of points of the given one in strictly increasing order of date
  and band; of the points of one band at one date it keeps one with the least error.
\<close>

theorem prepared_curves_are_in_order:
  "sorted_wrt (\<lambda>p q. epoch_key p < epoch_key q) (prepare_photometry ps) \<and>
   set (prepare_photometry ps) \<subseteq> set ps \<and>
   list_all (\<lambda>p. list_ex (\<lambda>q. same_epoch p q \<and> f32_total_key (m_mag_err q) \<le> f32_total_key (m_mag_err p))
     (prepare_photometry ps)) ps"
  unfolding prepare_photometry_def
  using dedup_strict dedup_best [of "sort_key photometry_key ps"] set_dedup_by [of same_epoch "sort_key photometry_key ps"]
  by (auto simp: list_all_iff list_ex_iff)

section \<open>The fit is the least-squares line\<close>

definition exact_arith :: "real arith" where
  "exact_arith = \<lparr>n_add = (+), n_sub = (-), n_mul = (*), n_div = (/), n_square = (\<lambda>v. v * v), n_sqrt = sqrt, n_abs = abs,
     n_lit = (\<lambda>v. v), n_less = (<), n_le = (\<le>), n_finite = (\<lambda>_. True)\<rparr>"

text \<open>Chi-square of the line \<open>a * x + b\<close>.\<close>

definition line_chi2 :: "real list \<Rightarrow> real list \<Rightarrow> real list \<Rightarrow> real \<Rightarrow> real \<Rightarrow> real" where
  "line_chi2 x y sigma a b = (\<Sum>i<length x. ((y ! i - (a * x ! i + b)) / sigma ! i)\<^sup>2)"

lemma sum_of_exact: "sum_of exact_arith xs = sum_list xs"
proof -
  have "fold (\<lambda>v acc. acc + v) xs acc = acc + sum_list xs" for acc :: real
    by (induction xs arbitrary: acc) simp_all
  then show ?thesis by (simp add: sum_of_def exact_arith_def)
qed

lemma sum_list_map2:
  "length xs = n \<Longrightarrow> length ys = n \<Longrightarrow> sum_list (map2 f xs ys) = (\<Sum>i<n. f (xs ! i) (ys ! i) :: real)"
  by (simp add: sum_list_sum_nth atLeast0LessThan)

lemma best_line:
  fixes n :: nat and w x y :: "nat \<Rightarrow> real"
  defines "W \<equiv> \<Sum>i<n. w i"
  defines "xm \<equiv> (\<Sum>i<n. w i * x i) / W" and "ym \<equiv> (\<Sum>i<n. w i * y i) / W"
  defines "sxx \<equiv> \<Sum>i<n. w i * (x i - xm) * (x i - xm)" and "sxy \<equiv> \<Sum>i<n. w i * (x i - xm) * (y i - ym)"
  defines "a \<equiv> sxy / sxx" and "b \<equiv> ym - sxy / sxx * xm"
  assumes pos: "\<And>i. i < n \<Longrightarrow> 0 < w i" and W: "W \<noteq> 0" and sxx: "sxx \<noteq> 0"
  shows "(\<Sum>i<n. w i * (y i - (a * x i + b))\<^sup>2) \<le> (\<Sum>i<n. w i * (y i - (a' * x i + b'))\<^sup>2)"
proof -
  define e where "e i = y i - (a * x i + b)" for i
  define k where "k i = (a - a') * x i + (b - b')" for i
  have e: "e i = (y i - ym) - a * (x i - xm)" for i by (simp add: e_def a_def b_def algebra_simps)
  have center: "(\<Sum>i<n. w i * (v i - c)) = (\<Sum>i<n. w i * v i) - W * c" for v :: "nat \<Rightarrow> real" and c
    by (simp add: right_diff_distrib sum_subtractf sum_distrib_right W_def)
  have x0: "(\<Sum>i<n. w i * (x i - xm)) = 0" and y0: "(\<Sum>i<n. w i * (y i - ym)) = 0"
    using W by (simp_all add: center xm_def ym_def)
  have "(\<Sum>i<n. w i * e i) = (\<Sum>i<n. w i * (y i - ym)) - a * (\<Sum>i<n. w i * (x i - xm))"
    by (simp add: e sum_distrib_left algebra_simps flip: sum_subtractf)
  then have e0: "(\<Sum>i<n. w i * e i) = 0" by (simp add: x0 y0)
  have "(\<Sum>i<n. w i * e i * (x i - xm)) = sxy - a * sxx"
    by (simp add: e sxx_def sxy_def sum_distrib_left algebra_simps flip: sum_subtractf)
  then have ex: "(\<Sum>i<n. w i * e i * (x i - xm)) = 0" using sxx by (simp add: a_def)
  have "(\<Sum>i<n. w i * e i * k i) =
      (a - a') * (\<Sum>i<n. w i * e i * (x i - xm)) + ((a - a') * xm + (b - b')) * (\<Sum>i<n. w i * e i)"
    by (simp add: k_def sum_distrib_left algebra_simps flip: sum.distrib)
  then have cross: "(\<Sum>i<n. w i * e i * k i) = 0" by (simp add: e0 ex)
  have "(\<Sum>i<n. w i * (y i - (a' * x i + b'))\<^sup>2) = (\<Sum>i<n. w i * (e i + k i)\<^sup>2)"
    by (simp add: e_def k_def algebra_simps)
  also have "\<dots> = (\<Sum>i<n. w i * (e i)\<^sup>2) + 2 * (\<Sum>i<n. w i * e i * k i) + (\<Sum>i<n. w i * (k i)\<^sup>2)"
    by (simp add: power2_sum sum_distrib_left algebra_simps flip: sum.distrib)
  finally have split: "(\<Sum>i<n. w i * (y i - (a' * x i + b'))\<^sup>2) =
      (\<Sum>i<n. w i * (e i)\<^sup>2) + 2 * (\<Sum>i<n. w i * e i * k i) + (\<Sum>i<n. w i * (k i)\<^sup>2)" .
  have "0 \<le> (\<Sum>i<n. w i * (k i)\<^sup>2)" by (rule sum_nonneg) (simp add: pos less_imp_le)
  with split cross show ?thesis by (simp add: e_def)
qed

lemma exact_simps [simp]:
  "n_add exact_arith = (+)" "n_sub exact_arith = (-)" "n_mul exact_arith = (*)" "n_div exact_arith = (/)"
  "n_square exact_arith v = v * v" "n_sqrt exact_arith = sqrt" "n_abs exact_arith = abs" "n_lit exact_arith v = v"
  "n_less exact_arith = (<)" "n_le exact_arith = (\<le>)" "n_finite exact_arith v"
  "weight exact_arith = (\<lambda>s. 1 / (s * s))"
  by (simp_all add: exact_arith_def weight_def fun_eq_iff)

lemma exact_fit:
  assumes "weighted_least_squares_centered exact_arith x y sigma = Some r"
  shows "\<exists>b. chi2 r = Some (line_chi2 x y sigma (rate r) b) \<and>
    (\<forall>a' b'. line_chi2 x y sigma (rate r) b \<le> line_chi2 x y sigma a' b') \<and> (\<exists>i<length x. x ! i \<noteq> c)"
proof -
  let ?n = "length x"
  define w where "w i = 1 / (sigma ! i * sigma ! i)" for i
  define W where "W = (\<Sum>i<?n. w i)"
  define xm where "xm = (\<Sum>i<?n. w i * x ! i) / W"
  define ym where "ym = (\<Sum>i<?n. w i * y ! i) / W"
  define sxx where "sxx = (\<Sum>i<?n. w i * (x ! i - xm) * (x ! i - xm))"
  define sxy where "sxy = (\<Sum>i<?n. w i * (x ! i - xm) * (y ! i - ym))"
  note folds = w_def W_def xm_def ym_def sxx_def sxy_def
  have len: "2 \<le> ?n" "length y = ?n" "length sigma = ?n" and sigma: "\<And>i. i < ?n \<Longrightarrow> 0 < sigma ! i"
    using assms by (auto simp: weighted_least_squares_centered_def Let_def list_all_length usable_sigma_def split: if_splits)
  have nonzero: "sxx \<noteq> 0" and rate: "rate r = sxy / sxx"
    and chi2: "chi2 r = Some (line_chi2 x y sigma (sxy / sxx) (ym - sxy / sxx * xm))"
    using assms len
    by (auto simp: weighted_least_squares_centered_def Let_def sum_of_exact sum_list_sum_nth atLeast0LessThan line_chi2_def
        power2_eq_square folds split: if_splits)
  have "0 < W" unfolding W_def using len(1) sigma
    by (intro sum_pos) (auto simp: w_def lessThan_empty_iff)
  then have "W \<noteq> 0" by simp
  moreover have "0 < w i" if "i < ?n" for i using sigma [OF that] by (simp add: w_def)
  ultimately have best: "(\<Sum>i<?n. w i * (y ! i - (rate r * x ! i + (ym - sxy / sxx * xm)))\<^sup>2)
      \<le> (\<Sum>i<?n. w i * (y ! i - (a' * x ! i + b'))\<^sup>2)" for a' b'
    using best_line [of ?n w "(!) x" "(!) y" a' b'] nonzero unfolding rate folds by simp
  have "line_chi2 x y sigma a' b' = (\<Sum>i<?n. w i * (y ! i - (a' * x ! i + b'))\<^sup>2)" for a' b'
    by (simp add: line_chi2_def w_def power2_eq_square)
  moreover have "\<exists>i<?n. x ! i \<noteq> c"
  proof (rule ccontr)
    assume "\<not> ?thesis"
    then have c: "x ! i = c" if "i < ?n" for i using that by blast
    then have "xm = (\<Sum>i<?n. w i * c) / W" by (simp add: xm_def)
    then have "xm = c" using \<open>W \<noteq> 0\<close> by (simp add: W_def flip: sum_distrib_right)
    then have "sxx = 0" by (simp add: sxx_def c)
    with nonzero show False by simp
  qed
  ultimately show ?thesis using best chi2 rate by auto
qed

lemma list_of_two: "length xs = 2 \<Longrightarrow> \<exists>a b. xs = [a, b]"
  by (cases xs; cases "tl xs"; auto)

text \<open>
  C33: in exact arithmetic the fit of a segment is the least-squares line: its chi-square is that of a
  line with the reported rate, and no line has a smaller one; through two points it is zero, with no
  reduced chi-square.  (The code computes with 32-bit floats, where a fit of two points can leave a
  residual.)
\<close>

theorem fit_is_least_squares:
  assumes "weighted_least_squares_centered exact_arith x y sigma = Some r"
  shows "(\<exists>b. chi2 r = Some (line_chi2 x y sigma (rate r) b)) \<and> (\<forall>a b. the (chi2 r) \<le> line_chi2 x y sigma a b) \<and>
    (length x = 2 \<longrightarrow> chi2 r = Some 0 \<and> red_chi2 r = None)"
proof -
  obtain b where b: "chi2 r = Some (line_chi2 x y sigma (rate r) b)"
    and least: "\<And>a' b'. line_chi2 x y sigma (rate r) b \<le> line_chi2 x y sigma a' b'"
    using exact_fit [OF assms] by blast
  have "chi2 r = Some 0 \<and> red_chi2 r = None" if two: "length x = 2"
  proof -
    obtain x0 x1 where x: "x = [x0, x1]" using list_of_two [OF two] by blast
    have "length y = 2" "length sigma = 2"
      using assms two by (auto simp: weighted_least_squares_centered_def Let_def split: if_splits)
    then obtain y0 y1 s0 s1 where y: "y = [y0, y1]" and s: "sigma = [s0, s1]"
      using list_of_two by metis
    have ne: "x0 \<noteq> x1" using exact_fit [OF assms, of x0] by (auto simp: x less_Suc_eq)
    define a where "a = (y1 - y0) / (x1 - x0)"
    have "a * x1 + (y0 - a * x0) = y0 + a * (x1 - x0)" by (simp add: algebra_simps)
    also have "\<dots> = y1" using ne by (simp add: a_def)
    finally have through: "a * x1 + (y0 - a * x0) = y1" .
    then have "line_chi2 x y sigma a (y0 - a * x0) = 0"
      by (simp add: line_chi2_def x y s numeral_2_eq_2)
    moreover have "0 \<le> line_chi2 x y sigma (rate r) b" unfolding line_chi2_def by (rule sum_nonneg) simp
    ultimately have "line_chi2 x y sigma (rate r) b = 0" using least by (metis order_antisym)
    moreover have "red_chi2 r = None"
      using assms two by (auto simp: weighted_least_squares_centered_def Let_def split: if_splits)
    ultimately show ?thesis using b by simp
  qed
  then show ?thesis using b least by auto
qed

theorem fit_is_least_squares_witness:
  "\<exists>r. weighted_least_squares_centered exact_arith [0, 1] [20, 18] [1, 2] = Some r \<and> chi2 r = Some 0"
proof -
  have "weighted_least_squares_centered exact_arith [0, 1] [20, 18] [1, 2] \<noteq> None"
    by (simp add: weighted_least_squares_centered_def sum_of_exact usable_sigma_def Let_def)
  then obtain r where r: "weighted_least_squares_centered exact_arith [0, 1] [20, 18] [1, 2] = Some r" by blast
  then show ?thesis using fit_is_least_squares [OF r] by simp
qed

section \<open>The extremes do not depend on the order of the bands\<close>

definition has_mag :: "photometry_mag \<Rightarrow> bool" where
  "has_mag m \<longleftrightarrow> \<not> f32_nan (m_mag m)"

text \<open>\<open>brighter a b\<close>: the magnitude of \<open>a\<close> is below that of \<open>b\<close>.\<close>

definition brighter :: "photometry_mag \<Rightarrow> photometry_mag \<Rightarrow> bool" where
  "brighter a b = f32_less (m_mag a) (m_mag b)"

lemma brighter_trans: "has_mag b \<Longrightarrow> brighter a c \<Longrightarrow> \<not> brighter b c \<Longrightarrow> brighter a b"
  by (auto simp: brighter_def has_mag_def f32_less_def f32_nan_def split: option.splits)

lemma brighter_irrefl [simp]: "\<not> brighter a a"
  by (auto simp: brighter_def f32_less_def split: option.splits)

lemma brighter_asym: "brighter a b \<Longrightarrow> \<not> brighter b a"
  by (auto simp: brighter_def f32_less_def split: option.splits)

definition extremes_until :: "photometry_mag list \<Rightarrow> nat \<Rightarrow> nat \<times> nat" where
  "extremes_until mags n =
     fold (\<lambda>i (peak, faintest).
         if brighter (mags ! i) (mags ! peak) then (i, faintest)
         else if brighter (mags ! faintest) (mags ! i) then (peak, i)
         else (peak, faintest)) [0..<n] (0, 0)"

lemma extremes_until:
  assumes "\<And>i. i < n \<Longrightarrow> has_mag (mags ! i)" and "0 < n"
  shows "fst (extremes_until mags n) < n \<and> snd (extremes_until mags n) < n \<and>
    (\<forall>i<n. \<not> brighter (mags ! i) (mags ! fst (extremes_until mags n)) \<and>
           \<not> brighter (mags ! snd (extremes_until mags n)) (mags ! i))"
  using assms
proof (induction n)
  case (Suc n)
  obtain p q where pq: "extremes_until mags n = (p, q)" by (cases "extremes_until mags n")
  have step: "extremes_until mags (Suc n) =
      (if brighter (mags ! n) (mags ! p) then (n, q)
       else if brighter (mags ! q) (mags ! n) then (p, n) else (p, q))"
    using pq by (simp add: extremes_until_def)
  show ?case
  proof (cases "n = 0")
    case True
    then have "extremes_until mags (Suc n) = (0, 0)" by (simp add: extremes_until_def)
    then show ?thesis using True by simp
  next
    case False
    then have IH: "p < n" "q < n" "\<And>i. i < n \<Longrightarrow> \<not> brighter (mags ! i) (mags ! p)"
        "\<And>i. i < n \<Longrightarrow> \<not> brighter (mags ! q) (mags ! i)"
      using Suc.IH Suc.prems(1) pq by auto
    have mag: "has_mag (mags ! i)" if "i \<le> n" for i using Suc.prems(1) that by simp
    consider (peak) "brighter (mags ! n) (mags ! p)"
      | (faint) "\<not> brighter (mags ! n) (mags ! p)" "brighter (mags ! q) (mags ! n)"
      | (none) "\<not> brighter (mags ! n) (mags ! p)" "\<not> brighter (mags ! q) (mags ! n)" by blast
    then show ?thesis
    proof cases
      case peak
      have "\<not> brighter (mags ! i) (mags ! n)" if "i < n" for i
        using IH(3) [OF that] peak mag brighter_asym brighter_trans by (metis IH(1) less_imp_le order.refl)
      moreover have "\<not> brighter (mags ! q) (mags ! n)"
        using peak IH(1,4) mag brighter_asym brighter_trans by (metis IH(2) less_imp_le)
      ultimately show ?thesis using peak IH by (auto simp: step less_Suc_eq)
    next
      case faint
      have "\<not> brighter (mags ! n) (mags ! i)" if "i < n" for i
        using IH(4) [OF that] faint mag brighter_asym brighter_trans by (metis IH(2) less_imp_le order.refl that)
      then show ?thesis using faint IH by (auto simp: step less_Suc_eq)
    next
      case none
      then show ?thesis using IH by (auto simp: step less_Suc_eq)
    qed
  qed
qed simp

text \<open>The brightest and the faintest point of a band are points of it.\<close>

lemma extreme_points:
  assumes "of_band b ps \<noteq> []" and "\<And>p. p \<in> set ps \<Longrightarrow> has_mag p"
  defines "peak \<equiv> of_band b ps ! fst (extreme_indices (of_band b ps))"
  defines "faint \<equiv> of_band b ps ! snd (extreme_indices (of_band b ps))"
  shows "peak \<in> set ps" and "faint \<in> set ps" and "m_band peak = b" and "m_band faint = b"
    and "p \<in> set ps \<Longrightarrow> m_band p = b \<Longrightarrow> \<not> brighter p peak \<and> \<not> brighter faint p"
proof -
  let ?mags = "of_band b ps"
  have eq: "extreme_indices ?mags = extremes_until ?mags (length ?mags)"
    unfolding extreme_indices_def extremes_until_def brighter_def ..
  have mag: "has_mag (?mags ! i)" if "i < length ?mags" for i
    using nth_mem [OF that] assms(2) by (auto simp: of_band_def)
  note ex = extremes_until [OF mag, of "length ?mags"]
  have "peak \<in> set ?mags" "faint \<in> set ?mags" using ex assms(1) by (simp_all add: peak_def faint_def eq)
  then show "peak \<in> set ps" "faint \<in> set ps" "m_band peak = b" "m_band faint = b" by (auto simp: of_band_def)
  show "\<not> brighter p peak \<and> \<not> brighter faint p" if "p \<in> set ps" "m_band p = b"
  proof -
    have "p \<in> set ?mags" using that by (simp add: of_band_def)
    then obtain i where "i < length ?mags" "p = ?mags ! i" by (auto simp: in_set_conv_nth)
    then show ?thesis using ex assms(1) by (auto simp: peak_def faint_def eq)
  qed
qed

definition best_so_far :: "photometry_mag list \<Rightarrow> band set \<Rightarrow> analysis \<Rightarrow> bool" where
  "best_so_far ps bands a \<longleftrightarrow> brightest a \<in> set ps \<and> faintest a \<in> set ps \<and>
     (\<forall>p\<in>set ps. m_band p \<in> bands \<longrightarrow> \<not> brighter p (brightest a) \<and> \<not> brighter (faintest a) p)"

lemma analyze_band_best:
  assumes a: "best_so_far ps bands a" and b: "of_band b ps \<noteq> []" and mag: "\<And>p. p \<in> set ps \<Longrightarrow> has_mag p"
  shows "best_so_far ps (insert b bands) (analyze_band F rnd last_jd ps b a)"
proof -
  note ex = extreme_points [OF b mag, simplified]
  let ?peak = "of_band b ps ! fst (extreme_indices (of_band b ps))"
  let ?faint = "of_band b ps ! snd (extreme_indices (of_band b ps))"
  have keep: "\<not> brighter p x" if "p \<in> set ps" "y \<in> set ps" "x \<in> set ps" "\<not> brighter p y" "\<not> brighter y x" for p x y
    using that brighter_trans mag by blast
  have new: "analyze_band F rnd last_jd ps b a = a\<lparr>
      brightest := (if brighter ?peak (brightest a) then ?peak else brightest a),
      faintest := (if brighter (faintest a) ?faint then ?faint else faintest a),
      band_results := (band_results a)(b \<mapsto> band_properties_of F rnd last_jd (of_band b ps))\<rparr>"
    unfolding analyze_band_def brighter_def Let_def ..
  have "\<not> brighter p (if brighter ?peak (brightest a) then ?peak else brightest a)"
    and "\<not> brighter (if brighter (faintest a) ?faint then ?faint else faintest a) p"
    if p: "p \<in> set ps" "m_band p \<in> insert b bands" for p
  proof -
    have old: "brightest a \<in> set ps" "faintest a \<in> set ps" using a unfolding best_so_far_def by simp_all
    have cases: "\<not> brighter p ?peak \<and> \<not> brighter ?faint p \<or> \<not> brighter p (brightest a) \<and> \<not> brighter (faintest a) p"
      using p ex(5) [OF p(1)] a unfolding best_so_far_def by blast
    show "\<not> brighter p (if brighter ?peak (brightest a) then ?peak else brightest a)"
      using cases keep [OF p(1) ex(1) old(1)] keep [OF p(1) old(1) ex(1)]
        brighter_asym [of ?peak "brightest a"] by presburger
    show "\<not> brighter (if brighter (faintest a) ?faint then ?faint else faintest a) p"
      using cases keep [OF old(2) ex(2) p(1)] keep [OF ex(2) old(2) p(1)]
        brighter_asym [of "faintest a" ?faint] by presburger
  qed
  then show ?thesis using a ex(1,2) unfolding new by (simp add: best_so_far_def)
qed

lemma analyze_bands_best:
  assumes "\<And>b. b \<in> set order \<Longrightarrow> of_band b ps \<noteq> []" and "\<And>p. p \<in> set ps \<Longrightarrow> has_mag p"
  shows "best_so_far ps bands a \<Longrightarrow> best_so_far ps (set order \<union> bands) (fold (analyze_band F rnd last_jd ps) order a)"
  using assms(1)
proof (induction order arbitrary: a bands)
  case (Cons b order)
  have "best_so_far ps (insert b bands) (analyze_band F rnd last_jd ps b a)"
    by (rule analyze_band_best) (use Cons.prems assms(2) in auto)
  from Cons.IH [OF this] Cons.prems(2) show ?case by simp
qed simp

lemma analyze_bands_results:
  "band_results (fold (analyze_band F rnd last_jd ps) order a) =
     (\<lambda>b. if b \<in> set order then Some (band_properties_of F rnd last_jd (of_band b ps)) else band_results a b)"
  by (induction order arbitrary: a) (auto simp: analyze_band_def Let_def fun_eq_iff)

text \<open>\<open>order\<close> lists the bands of the points.\<close>

definition bands_listed :: "band list \<Rightarrow> photometry_mag list \<Rightarrow> bool" where
  "bands_listed order ps \<longleftrightarrow> distinct order \<and> set order = m_band ` set ps"

definition analyzed_extremes :: "photometry_mag list \<Rightarrow> all_bands_properties \<Rightarrow> photometry_mag \<Rightarrow> photometry_mag \<Rightarrow> bool" where
  "analyzed_extremes ps all peak faint \<longleftrightarrow> peak \<in> set ps \<and> faint \<in> set ps \<and>
     list_all (\<lambda>p. \<not> brighter p peak \<and> \<not> brighter faint p) ps \<and>
     (a_peak_jd all, a_peak_mag all, a_peak_mag_err all, a_peak_band all) =
       (m_time peak, m_mag peak, m_mag_err peak, m_band peak) \<and>
     (a_faintest_jd all, a_faintest_mag all, a_faintest_mag_err all, a_faintest_band all) =
       (m_time faint, m_mag faint, m_mag_err faint, m_band faint)"

text \<open>
  C34: the peak reported over all bands is a point of the light curve that no point is brighter than, with
  its date, error and band, and the faintest likewise; a band has properties exactly if it has points,
  and they are those of its points alone, in whatever order the hash map lists the bands.
\<close>

theorem analysis_finds_the_extremes:
  assumes "ps \<noteq> []" and order: "bands_listed order ps" and mags: "list_all has_mag ps"
  shows "(\<exists>peak faint. analyzed_extremes ps (fst (snd (analyze_photometry F rnd biggest order ps))) peak faint) \<and>
    fst (analyze_photometry F rnd biggest order ps) b =
      (if of_band b ps = [] then None else Some (band_properties_of F rnd (m_time (last ps)) (of_band b ps)))"
proof (intro conjI)
  let ?a = "fold (analyze_band F rnd (m_time (last ps)) ps) order
    \<lparr>brightest = hd ps, faintest = hd ps, band_results = (\<lambda>_. None)\<rparr>"
  have present: "b \<in> set order \<longleftrightarrow> of_band b ps \<noteq> []" for b
    using order by (auto simp: bands_listed_def of_band_def filter_empty_conv)
  have mag: "has_mag p" if "p \<in> set ps" for p using mags that by (simp add: list_all_iff)
  have "best_so_far ps {} \<lparr>brightest = hd ps, faintest = hd ps, band_results = (\<lambda>_. None)\<rparr>"
    using assms(1) by (simp add: best_so_far_def)
  from analyze_bands_best [OF _ mag this, of order F rnd "m_time (last ps)"]
  have best: "best_so_far ps (set order) ?a" using present by simp
  then have "analyzed_extremes ps (fst (snd (analyze_photometry F rnd biggest order ps))) (brightest ?a) (faintest ?a)"
    using assms(1) order
    by (auto simp: analyzed_extremes_def analyze_photometry_def best_so_far_def bands_listed_def list_all_iff Let_def)
  then show "\<exists>peak faint. analyzed_extremes ps (fst (snd (analyze_photometry F rnd biggest order ps))) peak faint" by blast
  show "fst (analyze_photometry F rnd biggest order ps) b =
      (if of_band b ps = [] then None else Some (band_properties_of F rnd (m_time (last ps)) (of_band b ps)))"
    using assms(1) present by (simp add: analyze_photometry_def analyze_bands_results Let_def)
qed

definition demo_points :: "photometry_mag list" where
  "demo_points = [\<lparr>m_time = 1, m_mag = 0x41A00000, m_mag_err = 0x3DCCCCCD, m_band = G\<rparr>,
     \<lparr>m_time = 2, m_mag = 0x41900000, m_mag_err = 0x3DCCCCCD, m_band = R\<rparr>]"

theorem analysis_finds_the_extremes_witness:
  "fst (analyze_photometry ones (\<lambda>v. v) 0 [R, G] demo_points) K = None"
proof -
  have "demo_points \<noteq> []" and "bands_listed [R, G] demo_points" and "list_all has_mag demo_points"
    by (auto simp: demo_points_def bands_listed_def has_mag_def f32_nan_def f32_place_def Let_def)
  from analysis_finds_the_extremes [OF this, of ones "\<lambda>v. v" 0 K] show ?thesis
    by (simp add: demo_points_def of_band_def)
qed

text \<open>Two points of equal magnitude in different bands: the band of the peak depends on the order.\<close>

lemma peak_band_of_ties:
  "let ps = [\<lparr>m_time = 1, m_mag = 0x41A00000, m_mag_err = 0, m_band = I\<rparr>,
      \<lparr>m_time = 2, m_mag = 0x41900000, m_mag_err = 0, m_band = G\<rparr>,
      \<lparr>m_time = 3, m_mag = 0x41900000, m_mag_err = 0, m_band = R\<rparr>]
   in a_peak_band (fst (snd (analyze_photometry F rnd biggest [G, R, I] ps))) = G \<and>
      a_peak_band (fst (snd (analyze_photometry F rnd biggest [R, G, I] ps))) = R"
  by (simp add: analyze_photometry_def analyze_band_def extreme_indices_def of_band_def f32_less_def f32_place_def Let_def)

end
