(* ===== verification/Sso_Outburst.thy ===== *)
theory Sso_Outburst
  imports Light_Curve_Fits
begin

text \<open>
  The brightness of a moving object against its own past (\<open>src/src/utils/outburst.rs\<close>,
  \<open>src/src/utils/phase_curve.rs\<close> and \<open>Outburst\<close> of \<open>src/src/utils/lightcurves.rs\<close>): the phase function,
  the scaling of a window to the geometry of the point under test, the statistic and its medians,
  the fitted phase curve of an object and the deviation from it.  The computations are written over
  an arithmetic: that of \<open>f64\<close> in the code, and the exact one it approximates.
\<close>

section \<open>The arithmetic\<close>

record 'n fn_arith = "'n arith" +
  n_log10 :: "'n \<Rightarrow> 'n"
  n_powf :: "'n \<Rightarrow> 'n \<Rightarrow> 'n"
  n_radians :: "'n \<Rightarrow> 'n"
  n_max :: "'n \<Rightarrow> 'n \<Rightarrow> 'n"
  n_sort :: "'n list \<Rightarrow> 'n list"

text \<open>
  \<open>sort_by\<close> with a comparison that calls a NaN equal to everything sorts lists without a NaN; for
  others the order it leaves is not specified, and is a function here.
\<close>

definition f64_max :: "f64 \<Rightarrow> f64 \<Rightarrow> f64" where
  "f64_max x y = (if is_nan x then y else if is_nan y then x else if f64_lt x y then y else x)"

fun f64_abs :: "f64 \<Rightarrow> f64" where
  "f64_abs (Num r) = Num \<bar>r\<bar>"
| "f64_abs NegZero = Num 0"
| "f64_abs NegInf = PosInf"
| "f64_abs PosInf = PosInf"
| "f64_abs (NaN _ p) = NaN False p"

definition sort_f64 :: "(f64 list \<Rightarrow> f64 list) \<Rightarrow> f64 list \<Rightarrow> f64 list" where
  "sort_f64 nan_order xs = (if list_ex is_nan xs then nan_order xs else sort_key (\<lambda>x. the (place x)) xs)"

definition f64_arith :: "float_unit \<Rightarrow> (f64 list \<Rightarrow> f64 list) \<Rightarrow> f64 fn_arith" where
  "f64_arith F nan_order =
     \<lparr>n_add = d_add F, n_sub = d_sub F, n_mul = d_mul F, n_div = d_div F, n_square = (\<lambda>x. d_mul F x x), n_sqrt = d_sqrt F,
      n_abs = f64_abs, n_lit = d_lit F, n_less = f64_lt, n_le = f64_le, n_finite = is_finite, n_log10 = d_log10 F,
      n_powf = d_powf F, n_radians = d_radians F, n_max = f64_max, n_sort = sort_f64 nan_order\<rparr>"

definition exact_fn_arith :: "real fn_arith" where
  "exact_fn_arith =
     \<lparr>n_add = (+), n_sub = (-), n_mul = (*), n_div = (/), n_square = (\<lambda>v. v * v), n_sqrt = sqrt, n_abs = abs,
      n_lit = (\<lambda>v. v), n_less = (<), n_le = (\<le>), n_finite = (\<lambda>_. True), n_log10 = log 10,
      n_powf = (powr), n_radians = (\<lambda>v. v * pi / 180), n_max = max, n_sort = sort\<rparr>"

section \<open>The phase function\<close>

text \<open>A clamped cubic spline; the arrays of the tridiagonal system are lists updated by index.\<close>

record 'n spline =
  sp_x :: "'n list"
  sp_y :: "'n list"
  sp_m :: "'n list"
  sp_dy0 :: 'n
  sp_dyn :: 'n

definition widths :: "'n fn_arith \<Rightarrow> 'n list \<Rightarrow> 'n list" where
  "widths A x = map (\<lambda>i. n_sub A (x ! (i + 1)) (x ! i)) [0..<length x - 1]"

text \<open>The rows \<open>a\<close>, \<open>b\<close>, \<open>c\<close> and \<open>d\<close> of the system.\<close>

definition row_a :: "'n fn_arith \<Rightarrow> 'n list \<Rightarrow> nat \<Rightarrow> 'n" where
  "row_a A h i = (if i = 0 then n_lit A 0 else h ! (i - 1))"

definition row_b :: "'n fn_arith \<Rightarrow> 'n list \<Rightarrow> nat \<Rightarrow> 'n" where
  "row_b A h i =
     (if i = 0 then n_mul A (n_lit A 2) (h ! 0)
      else if i < length h then n_mul A (n_lit A 2) (n_add A (h ! (i - 1)) (h ! i))
      else n_mul A (n_lit A 2) (h ! (i - 1)))"

definition row_c :: "'n fn_arith \<Rightarrow> 'n list \<Rightarrow> nat \<Rightarrow> 'n" where
  "row_c A h i = (if i < length h then h ! i else n_lit A 0)"

definition row_d :: "'n fn_arith \<Rightarrow> 'n list \<Rightarrow> 'n list \<Rightarrow> 'n \<Rightarrow> 'n \<Rightarrow> nat \<Rightarrow> 'n" where
  "row_d A h y dy0 dyn i =
     (let slope = \<lambda>i. n_div A (n_sub A (y ! (i + 1)) (y ! i)) (h ! i)
      in n_mul A (n_lit A 6)
           (if i = 0 then n_sub A (slope 0) dy0
            else if i < length h then n_sub A (slope i) (slope (i - 1))
            else n_sub A dyn (slope (i - 1))))"

text \<open>Forward elimination and back substitution.\<close>

definition eliminate :: "'n fn_arith \<Rightarrow> 'n list \<Rightarrow> nat \<Rightarrow> 'n list \<times> 'n list \<Rightarrow> 'n list \<times> 'n list" where
  "eliminate A h i st =
     (case st of (b, d) \<Rightarrow>
        let w = n_div A (row_a A h i) (b ! (i - 1))
        in (b[i := n_sub A (b ! i) (n_mul A w (row_c A h (i - 1)))],
            d[i := n_sub A (d ! i) (n_mul A w (d ! (i - 1)))]))"

definition spline_new :: "'n fn_arith \<Rightarrow> 'n list \<Rightarrow> 'n list \<Rightarrow> 'n \<Rightarrow> 'n \<Rightarrow> 'n spline" where
  "spline_new A x_deg y dy0 dyn =
     (let x = map (n_radians A) x_deg; n = length x; h = widths A x;
          b = map (row_b A h) [0..<n]; d = map (row_d A h y dy0 dyn) [0..<n];
          (b, d) = fold (eliminate A h) [1..<n] (b, d);
          m = (replicate n (n_lit A 0))[n - 1 := n_div A (d ! (n - 1)) (b ! (n - 1))];
          m = fold (\<lambda>i m. m[i := n_div A (n_sub A (d ! i) (n_mul A (row_c A h i) (m ! (i + 1)))) (b ! i)])
                (rev [0..<n - 1]) m
      in \<lparr>sp_x = x, sp_y = y, sp_m = m, sp_dy0 = dy0, sp_dyn = dyn\<rparr>)"

function find_interval :: "('n \<Rightarrow> 'n \<Rightarrow> bool) \<Rightarrow> 'n list \<Rightarrow> 'n \<Rightarrow> nat \<Rightarrow> nat" where
  "find_interval below x t i =
     (if i + 1 < length x - 1 \<and> below (x ! (i + 1)) t then find_interval below x t (i + 1) else i)"
  by pat_completeness auto
termination by (relation "measure (\<lambda>(_, x, _, i). length x - i)") auto

declare find_interval.simps [simp del]

definition spline_eval :: "'n fn_arith \<Rightarrow> 'n spline \<Rightarrow> 'n \<Rightarrow> 'n" where
  "spline_eval A s t =
     (let x = sp_x s; y = sp_y s; m = sp_m s; n = length x; zero = n_lit A 0
      in if n_le A t (x ! 0)
         then n_max A (n_add A (y ! 0) (n_mul A (sp_dy0 s) (n_sub A t (x ! 0)))) zero
         else if n_le A (x ! (n - 1)) t
         then n_max A (n_add A (y ! (n - 1)) (n_mul A (sp_dyn s) (n_sub A t (x ! (n - 1))))) zero
         else
           let i = find_interval (n_less A) x t 0;
               h = n_sub A (x ! (i + 1)) (x ! i);
               a = n_div A (n_sub A (x ! (i + 1)) t) h;
               b = n_div A (n_sub A t (x ! i)) h;
               cube = \<lambda>v. n_sub A (n_mul A (n_mul A v v) v) v;
               bend = n_add A (n_mul A (cube a) (m ! i)) (n_mul A (cube b) (m ! (i + 1)))
           in n_max A (n_add A (n_add A (n_mul A a (y ! i)) (n_mul A b (y ! (i + 1))))
                (n_div A (n_mul A (n_mul A bend h) h) (n_lit A 6))) zero)"

definition PHI12_X_DEG :: "real list" where "PHI12_X_DEG = [7.5, 30, 60, 90, 120, 150]"

definition PHI1_Y :: "real list" where
  "PHI1_Y = [0.75, 0.33486016, 0.1341056, 0.051104756, 0.021465687, 0.0036396989]"

definition PHI2_Y :: "real list" where
  "PHI2_Y = [0.925, 0.62884169, 0.31755495, 0.12716367, 0.022373903, 0.00016505689]"

definition PHI3_X_DEG :: "real list" where "PHI3_X_DEG = [0, 0.3, 1, 2, 4, 8, 12, 20, 30]"

definition PHI3_Y :: "real list" where
  "PHI3_Y = [1, 0.83381185, 0.57735424, 0.42144772, 0.2317423, 0.10348178, 0.061733473, 0.016107006, 0]"

definition bases :: "'n fn_arith \<Rightarrow> 'n spline \<times> 'n spline \<times> 'n spline" where
  "bases A =
     (let lits = map (n_lit A)
      in (spline_new A (lits PHI12_X_DEG) (lits PHI1_Y) (n_lit A (- 1.9098593)) (n_lit A (- 0.091328612)),
          spline_new A (lits PHI12_X_DEG) (lits PHI2_Y) (n_lit A (- 0.5729578)) (n_lit A (- 0.000000086573138)),
          spline_new A (lits PHI3_X_DEG) (lits PHI3_Y) (n_lit A (- 1.0630097)) (n_lit A 0)))"

definition reflectance :: "'n fn_arith \<Rightarrow> 'n \<Rightarrow> 'n \<Rightarrow> 'n" where
  "reflectance A g12 t =
     (let g1 = n_mul A (n_lit A 0.84293649) g12;
          g2 = n_mul A (n_lit A 0.5351335) (n_sub A (n_lit A 1) g12);
          (p1, p2, p3) = bases A
      in n_add A (n_add A (n_mul A g1 (spline_eval A p1 t)) (n_mul A g2 (spline_eval A p2 t)))
           (n_mul A (n_sub A (n_sub A (n_lit A 1) g1) g2) (spline_eval A p3 t)))"

definition hg12 :: "'n fn_arith \<Rightarrow> 'n \<Rightarrow> 'n \<Rightarrow> 'n" where
  "hg12 A phase_deg g12 =
     n_mul A (n_lit A (- 2.5))
       (n_log10 A (n_div A (reflectance A g12 (n_radians A phase_deg)) (reflectance A g12 (n_lit A 0))))"

section \<open>The outburst statistic\<close>

record 'n point =
  pt_rh :: 'n
  pt_delta :: 'n
  pt_phase :: 'n
  pt_mag :: 'n
  pt_mag_err :: 'n
  pt_band :: u8

datatype outburst_error = TooFewPoints nat | NoBandReference | NotFinite

definition RH_SLOPE :: real where "RH_SLOPE = - 2"
definition DELTA_SLOPE :: real where "DELTA_SLOPE = - 2"
definition DEFAULT_G12 :: real where "DEFAULT_G12 = 0.5"

definition scale_by_geometry :: "'n fn_arith \<Rightarrow> 'n point list \<Rightarrow> 'n \<Rightarrow> 'n list" where
  "scale_by_geometry A points g12 =
     (let target = last points
      in map (\<lambda>p.
           n_sub A
             (n_add A
               (n_mul A (n_lit A (- 2.5))
                 (n_log10 A (n_mul A (n_powf A (n_div A (pt_rh target) (pt_rh p)) (n_lit A RH_SLOPE))
                                     (n_powf A (n_div A (pt_delta target) (pt_delta p)) (n_lit A DELTA_SLOPE)))))
               (hg12 A (pt_phase target) g12))
             (hg12 A (pt_phase p) g12)) points)"

definition weighted_mean :: "'n fn_arith \<Rightarrow> ('n \<times> 'n) list \<Rightarrow> 'n option" where
  "weighted_mean A values_errs =
     (let used = filter (\<lambda>(v, e). \<not> (\<not> n_finite A v \<or> \<not> n_finite A e \<or> n_le A e (n_lit A 0))) values_errs;
          w = \<lambda>e. n_div A (n_lit A 1) (n_mul A e e);
          (sum_w, sum_wx) = fold (\<lambda>(v, e) (sw, swx). (n_add A sw (w e), n_add A swx (n_mul A (w e) v))) used
            (n_lit A 0, n_lit A 0)
      in if n_less A (n_lit A 0) sum_w then Some (n_div A sum_wx sum_w) else None)"

definition combined_error :: "'n fn_arith \<Rightarrow> 'n \<Rightarrow> 'n \<Rightarrow> 'n \<Rightarrow> 'n" where
  "combined_error A test_err other_err scatter =
     n_sqrt A (n_add A (n_add A (n_mul A test_err test_err) (n_mul A other_err other_err))
       (n_mul A (n_mul A (n_lit A 2) scatter) scatter))"

definition median :: "'n fn_arith \<Rightarrow> 'n list \<Rightarrow> 'n option" where
  "median A values =
     (if values = [] then None
      else
        let xs = n_sort A values; mid = length xs div 2
        in Some (if odd (length xs) then xs ! mid
                 else n_mul A (n_lit A 0.5) (n_add A (xs ! (mid - 1)) (xs ! mid))))"

definition median_deviation :: "'n fn_arith \<Rightarrow> 'n list \<Rightarrow> 'n \<Rightarrow> 'n option" where
  "median_deviation A xs center =
     map_option (\<lambda>mad. n_mul A (n_lit A 1.4826) mad) (median A (map (\<lambda>v. n_abs A (n_sub A v center)) xs))"

definition window_scatter :: "'n fn_arith \<Rightarrow> 'n point list \<Rightarrow> 'n \<Rightarrow> 'n option" where
  "window_scatter A points g12 =
     (if points = [] then None
      else
        let geom = scale_by_geometry A points g12; band = pt_band (last points);
            scaled = filter (n_finite A) (map (\<lambda>(p, g). n_add A (pt_mag p) g)
              (filter (\<lambda>(p, _). pt_band p = band) (zip points geom)))
        in if length scaled < 5 then None
           else Option.bind (median A scaled) (median_deviation A scaled))"

definition finite_values :: "'n fn_arith \<Rightarrow> 'n point \<Rightarrow> bool" where
  "finite_values A p \<longleftrightarrow> n_finite A (pt_rh p) \<and> n_finite A (pt_delta p) \<and> n_finite A (pt_phase p) \<and> n_finite A (pt_mag p)"

text \<open>The colour of a band: its mean against that of the test point's band, without the test point.\<close>

definition band_mean :: "'n fn_arith \<Rightarrow> 'n point list \<Rightarrow> 'n list \<Rightarrow> u8 \<Rightarrow> 'n option" where
  "band_mean A before scaled band =
     weighted_mean A (map (\<lambda>(p, s). (s, pt_mag_err p)) (filter (\<lambda>(p, _). pt_band p = band) (zip before scaled)))"

definition outburst_statistic ::
  "'n fn_arith \<Rightarrow> 'n point list \<Rightarrow> 'n \<Rightarrow> 'n \<Rightarrow> (outburst_error, 'n list \<times> 'n) result" where
  "outburst_statistic A points g12 scatter =
     (if length points < 2 then Inl (TooFewPoints (length points))
      else if list_ex (\<lambda>p. \<not> finite_values A p) points then Inl NotFinite
      else
        let geom = scale_by_geometry A points g12;
            scaled = map2 (\<lambda>p g. n_add A (pt_mag p) g) points geom;
            test = last points; before = butlast points
        in case band_mean A before scaled (pt_band test) of
             None \<Rightarrow> Inl NoBandReference
           | Some target_mean \<Rightarrow>
               let color = (\<lambda>band. n_sub A (case band_mean A before scaled band of Some m \<Rightarrow> m | None \<Rightarrow> target_mean) target_mean);
                   stats = map2 (\<lambda>p s. n_div A (n_sub A (n_sub A s (color (pt_band p))) (pt_mag test))
                       (combined_error A (pt_mag_err test) (pt_mag_err p) scatter)) before scaled
               in case median A stats of
                    None \<Rightarrow> Inl (TooFewPoints (length points))
                  | Some m \<Rightarrow> Inr (stats, m))"

definition same_band_statistic ::
  "'n fn_arith \<Rightarrow> 'n point list \<Rightarrow> 'n \<Rightarrow> 'n \<Rightarrow> (outburst_error, (nat \<times> 'n) list) result" where
  "same_band_statistic A points g12 scatter =
     (if length points < 2 then Inl (TooFewPoints (length points))
      else if list_ex (\<lambda>p. \<not> finite_values A p) points then Inl NotFinite
      else
        let geom = scale_by_geometry A points g12; test = last points;
            stats = map (\<lambda>(i, p). (i, n_div A (n_sub A (n_add A (pt_mag p) (geom ! i)) (pt_mag test))
                (combined_error A (pt_mag_err test) (pt_mag_err p) scatter)))
              (filter (\<lambda>(_, p). pt_band p = pt_band test) (enumerate 0 (butlast points)))
        in if stats = [] then Inl NoBandReference else Inr stats)"

section \<open>Phase curves\<close>

record 'n phase_curve =
  pc_h :: 'n
  pc_g12 :: 'n
  pc_scatter :: 'n
  pc_n :: nat

definition MIN_POINTS :: nat where "MIN_POINTS = 8"
definition MIN_PHASE_SPAN :: real where "MIN_PHASE_SPAN = 15"
definition MIN_POINTS_FOR_SLOPE :: nat where "MIN_POINTS_FOR_SLOPE = 20"
definition MIN_SCATTER :: real where "MIN_SCATTER = 0.02"
definition CLIP_SIGMA :: real where "CLIP_SIGMA = 3"

definition reduced_magnitude :: "'n fn_arith \<Rightarrow> 'n point \<Rightarrow> 'n" where
  "reduced_magnitude A p = n_sub A (pt_mag p) (n_mul A (n_lit A 5) (n_log10 A (n_mul A (pt_rh p) (pt_delta p))))"

definition residuals_of :: "'n fn_arith \<Rightarrow> ('n \<times> 'n) list \<Rightarrow> 'n \<Rightarrow> 'n list" where
  "residuals_of A kept g12 = map (\<lambda>(reduced, phase). n_sub A reduced (hg12 A phase g12)) kept"

text \<open>One trial value: the curve it gives, or none.\<close>

definition trial_curve :: "'n fn_arith \<Rightarrow> ('n \<times> 'n) list \<Rightarrow> nat \<Rightarrow> 'n \<Rightarrow> 'n phase_curve option" where
  "trial_curve A kept n g12 =
     (let residuals = residuals_of A kept g12
      in if list_ex (\<lambda>r. \<not> n_finite A r) residuals then None
         else
           case median A residuals of
             None \<Rightarrow> None
           | Some h \<Rightarrow>
               (case median_deviation A residuals h of
                  None \<Rightarrow> None
                | Some scatter \<Rightarrow>
                    if \<not> n_finite A scatter then None
                    else Some \<lparr>pc_h = h, pc_g12 = g12, pc_scatter = scatter, pc_n = n\<rparr>))"

definition keep_better :: "'n fn_arith \<Rightarrow> 'n phase_curve option \<Rightarrow> 'n phase_curve option \<Rightarrow> 'n phase_curve option" where
  "keep_better A new best =
     (case new of
        None \<Rightarrow> best
      | Some c \<Rightarrow> if pred_option (\<lambda>b. n_less A (pc_scatter c) (pc_scatter b)) best then Some c else best)"

definition scan :: "'n fn_arith \<Rightarrow> 'n list \<Rightarrow> ('n \<times> 'n) list \<Rightarrow> nat \<Rightarrow> 'n phase_curve option" where
  "scan A candidates kept n = fold (\<lambda>g12 best. keep_better A (trial_curve A kept n g12) best) candidates None"

definition usable_point :: "'n fn_arith \<Rightarrow> 'n point \<Rightarrow> bool" where
  "usable_point A p \<longleftrightarrow> finite_values A p \<and> n_less A (n_lit A 0) (pt_rh p) \<and> n_less A (n_lit A 0) (pt_delta p)"

definition phase_span :: "'n fn_arith \<Rightarrow> 'n list \<Rightarrow> 'n" where
  "phase_span A phases =
     (let most = fold (\<lambda>p m. n_max A m p) (tl phases) (hd phases);
          least = fold (\<lambda>p m. if n_less A p m then p else m) (tl phases) (hd phases)
      in n_sub A most least)"

definition slope_candidates :: "'n fn_arith \<Rightarrow> 'n list \<Rightarrow> 'n list" where
  "slope_candidates A phases =
     (if n_le A (n_lit A MIN_PHASE_SPAN) (phase_span A phases) \<and> MIN_POINTS_FOR_SLOPE \<le> length phases
      then map (\<lambda>i. n_div A (n_lit A (real i)) (n_lit A 100)) [0..<101]
      else [n_lit A DEFAULT_G12])"

definition surviving_points :: "'n fn_arith \<Rightarrow> 'n phase_curve \<Rightarrow> ('n \<times> 'n) list \<Rightarrow> ('n \<times> 'n) list" where
  "surviving_points A curve kept =
     filter (\<lambda>(reduced, phase).
       n_le A (n_abs A (n_sub A (n_sub A reduced (hg12 A phase (pc_g12 curve))) (pc_h curve)))
         (n_mul A (n_lit A CLIP_SIGMA) (pc_scatter curve))) kept"

definition fit_curve :: "'n fn_arith \<Rightarrow> 'n point list \<Rightarrow> 'n phase_curve option" where
  "fit_curve A points =
     (let usable = filter (usable_point A) points
      in if length usable < MIN_POINTS then None
         else
           let pairs = map (\<lambda>p. (reduced_magnitude A p, pt_phase p)) usable;
               candidates = slope_candidates A (map pt_phase usable);
               first = scan A candidates pairs (length usable);
               best = (case first of
                   None \<Rightarrow> None
                 | Some curve \<Rightarrow>
                     let surviving = surviving_points A curve pairs
                     in if length surviving < MIN_POINTS \<or> length surviving = length pairs then first
                        else scan A candidates surviving (length usable))
           in map_option (\<lambda>c. c\<lparr>pc_scatter := n_max A (pc_scatter c) (n_lit A MIN_SCATTER)\<rparr>) best)"

definition deviation :: "'n fn_arith \<Rightarrow> 'n phase_curve \<Rightarrow> 'n point \<Rightarrow> 'n option" where
  "deviation A curve p =
     (if \<not> finite_values A p then None
      else if n_le A (pt_rh p) (n_lit A 0) \<or> n_le A (pt_delta p) (n_lit A 0) then None
      else
        let expected = n_add A (pc_h curve) (hg12 A (pt_phase p) (pc_g12 curve));
            brighter_by = n_sub A expected (reduced_magnitude A p);
            denominator = n_sqrt A (n_add A (n_mul A (pt_mag_err p) (pt_mag_err p))
              (n_mul A (pc_scatter curve) (pc_scatter curve)))
        in if n_less A (n_lit A 0) denominator \<and> n_finite A brighter_by then Some (n_div A brighter_by denominator) else None)"

section \<open>The score of a detection\<close>

record outburst_point =
  op_jd :: f64
  op_sigma :: f32

record outburst =
  d7 :: "f32 option"
  d14 :: "f32 option"
  d30 :: "f32 option"
  o_points :: "outburst_point list"
  o_scatter :: "f32 option"
  o_baseline :: "f32 option"

definition no_outburst :: outburst where
  "no_outburst = \<lparr>d7 = None, d14 = None, d30 = None, o_points = [], o_scatter = None, o_baseline = None\<rparr>"

text \<open>The median over the window of the given number of days before the test point.\<close>

definition median_within ::
  "float_unit \<Rightarrow> f64 fn_arith \<Rightarrow> (f64 \<times> f64 point) list \<Rightarrow> f64 point \<Rightarrow> f64 \<Rightarrow> f64 \<Rightarrow> f64 \<Rightarrow> real \<Rightarrow> f32 option" where
  "median_within F A history test test_jd g12 scatter days =
     (let window = map snd (filter (\<lambda>(jd, _). n_le A (n_sub A test_jd (n_lit A days)) jd) history)
      in if window = [] then None
         else case outburst_statistic A (window @ [test]) g12 scatter of
                Inl _ \<Rightarrow> None
              | Inr (_, m) \<Rightarrow> if f32_finite (as_f32 F m) then Some (as_f32 F m) else None)"

definition from_history ::
  "float_unit \<Rightarrow> f64 fn_arith \<Rightarrow> (f64 \<times> f64 point) list \<Rightarrow> f64 point \<Rightarrow> f64 \<Rightarrow> f64 phase_curve option \<Rightarrow> outburst option" where
  "from_history F A history test test_jd curve =
     (let baseline = Option.bind curve (\<lambda>c. Option.bind (deviation A c test)
            (\<lambda>s. if n_finite A s then Some (as_f32 F s) else None));
          g12 = (case curve of None \<Rightarrow> n_lit A DEFAULT_G12 | Some c \<Rightarrow> pc_g12 c)
      in if history = [] then
           map_option (\<lambda>b. no_outburst\<lparr>o_baseline := Some b, o_scatter := map_option (\<lambda>c. as_f32 F (pc_scatter c)) curve\<rparr>) baseline
         else
           let every = map snd history @ [test];
               scatter = (case curve of
                   Some c \<Rightarrow> pc_scatter c
                 | None \<Rightarrow> (case window_scatter A every g12 of Some s \<Rightarrow> s | None \<Rightarrow> n_lit A 0));
               over = median_within F A history test test_jd g12 scatter;
               sigmas = (case same_band_statistic A every g12 scatter of Inl _ \<Rightarrow> [] | Inr ss \<Rightarrow> ss);
               points = map (\<lambda>(i, sigma). \<lparr>op_jd = fst (history ! i), op_sigma = as_f32 F sigma\<rparr>)
                 (filter (\<lambda>(_, sigma). n_finite A sigma) sigmas);
               outburst = \<lparr>d7 = over 7, d14 = over 14, d30 = over 30, o_points = points,
                 o_scatter = Some (as_f32 F scatter), o_baseline = baseline\<rparr>
           in if d30 outburst \<noteq> None \<or> o_points outburst \<noteq> [] \<or> o_baseline outburst \<noteq> None
              then Some outburst else None)"

section \<open>What the fit and the median promise\<close>

lemma exact_fn_simps [simp]:
  "n_add exact_fn_arith = (+)" "n_sub exact_fn_arith = (-)" "n_mul exact_fn_arith = (*)" "n_div exact_fn_arith = (/)"
  "n_sqrt exact_fn_arith = sqrt" "n_abs exact_fn_arith = abs" "n_lit exact_fn_arith v = v"
  "n_less exact_fn_arith = (<)" "n_le exact_fn_arith = (\<le>)" "n_finite exact_fn_arith v"
  "n_max exact_fn_arith = max" "n_sort exact_fn_arith = sort"
  by (simp_all add: exact_fn_arith_def)

text \<open>At least half of the values are at most the median, and at least half at least it.\<close>

lemma sorted_half:
  assumes "sorted xs" and "\<And>i. i \<in> S \<Longrightarrow> i < length xs \<and> P (xs ! i)"
  shows "card S \<le> length (filter P xs)"
proof -
  have "S \<subseteq> {i. i < length xs \<and> P (xs ! i)}" using assms(2) by blast
  then show ?thesis unfolding length_filter_conv_card by (rule card_mono [rotated]) simp
qed

lemma median_halves:
  assumes "median exact_fn_arith xs = Some m"
  shows "length xs \<le> 2 * length (filter (\<lambda>v. v \<le> m) xs) \<and> length xs \<le> 2 * length (filter (\<lambda>v. m \<le> v) xs)"
proof -
  let ?ys = "sort xs"
  let ?n = "length xs"
  let ?mid = "?n div 2"
  have ne: "0 < ?n" using assms by (auto simp: median_def split: if_splits)
  have count: "length (filter P ?ys) = length (filter P xs)" for P :: "real \<Rightarrow> bool"
    by (metis filter_sort length_sort)
  have mono: "?ys ! i \<le> ?ys ! j" if "i \<le> j" "j < ?n" for i j using that by (simp add: sorted_nth_mono)
  have m: "m = (if odd ?n then ?ys ! ?mid else (?ys ! (?mid - 1) + ?ys ! ?mid) / 2)"
    using assms by (auto simp: median_def Let_def split: if_splits)
  have low: "?ys ! i \<le> m" if "i < ?n - ?mid" for i
  proof (cases "odd ?n")
    case True
    then have "?n - ?mid = ?mid + 1" by (auto elim!: oddE)
    then show ?thesis using that mono [of i ?mid] True m ne by simp
  next
    case False
    then have "?n - ?mid = ?mid" "0 < ?mid" using ne by presburger+
    then have "i \<le> ?mid - 1" "?mid - 1 < ?n" "?mid < ?n" using that by presburger+
    then show ?thesis using mono [of i "?mid - 1"] mono [of "?mid - 1" ?mid] False m by simp
  qed
  have high: "m \<le> ?ys ! i" if "?mid \<le> i" "i < ?n" for i
    using mono [OF that] mono [of "?mid - 1" ?mid] ne m by (auto simp: field_simps)
  have "card {0..<?n - ?mid} \<le> length (filter (\<lambda>v. v \<le> m) ?ys)"
    by (rule sorted_half) (use low in auto)
  moreover have "card {?mid..<?n} \<le> length (filter (\<lambda>v. m \<le> v) ?ys)"
    by (rule sorted_half) (use high in auto)
  ultimately show ?thesis by (simp only: count card_atLeastLessThan) linarith
qed

text \<open>
  What a fit is to choose, said on the real numbers: the residuals of the points at a trial value,
  their median and 1.4826 times the median distance from it; of the trial values the one with the
  least spread, the first of those that tie.
\<close>

definition spread :: "(real \<times> real) list \<Rightarrow> real \<Rightarrow> (real \<times> real) option" where
  "spread kept g =
     (let residuals = map (\<lambda>(reduced, phase). reduced - hg12 exact_fn_arith phase g) kept
      in Option.bind (median exact_fn_arith residuals) (\<lambda>h.
           map_option (\<lambda>d. (h, 1.4826 * d)) (median exact_fn_arith (map (\<lambda>r. \<bar>r - h\<bar>) residuals))))"

definition fitted_on :: "(real \<times> real) list \<Rightarrow> real list \<Rightarrow> real phase_curve \<Rightarrow> bool" where
  "fitted_on kept candidates c \<longleftrightarrow>
     (\<exists>earlier later. candidates = earlier @ pc_g12 c # later \<and>
        spread kept (pc_g12 c) = Some (pc_h c, pc_scatter c) \<and>
        list_all (\<lambda>g. pred_option (\<lambda>(h, s). pc_scatter c < s) (spread kept g)) earlier \<and>
        list_all (\<lambda>g. pred_option (\<lambda>(h, s). pc_scatter c \<le> s) (spread kept g)) later)"

lemma trial_curve_spread:
  "trial_curve exact_fn_arith kept n g =
     map_option (\<lambda>(h, s). \<lparr>pc_h = h, pc_g12 = g, pc_scatter = s, pc_n = n\<rparr>) (spread kept g)"
  by (auto simp: trial_curve_def spread_def residuals_of_def median_deviation_def Let_def list_ex_iff case_prod_beta
      split: option.splits)

lemma scan_fitted:
  "(case scan exact_fn_arith candidates kept n of
      None \<Rightarrow> list_all (\<lambda>g. spread kept g = None) candidates
    | Some c \<Rightarrow> fitted_on kept candidates c \<and> pc_n c = n)"
proof (induction candidates rule: rev_induct)
  case (snoc g candidates)
  show ?case
  proof (cases "spread kept g")
    case None
    then have same: "scan exact_fn_arith (candidates @ [g]) kept n = scan exact_fn_arith candidates kept n"
      by (simp add: scan_def keep_better_def trial_curve_spread)
    show ?thesis
      using snoc None unfolding same
      by (cases "scan exact_fn_arith candidates kept n") (fastforce simp: fitted_on_def)+
  next
    case (Some hs)
    obtain h s where hs: "hs = (h, s)" by fastforce
    let ?new = "\<lparr>pc_h = h, pc_g12 = g, pc_scatter = s, pc_n = n\<rparr>"
    have step: "scan exact_fn_arith (candidates @ [g]) kept n =
        (if pred_option (\<lambda>b. s < pc_scatter b) (scan exact_fn_arith candidates kept n) then Some ?new
         else scan exact_fn_arith candidates kept n)"
      by (simp add: scan_def keep_better_def trial_curve_spread Some hs)
    show ?thesis
    proof (cases "scan exact_fn_arith candidates kept n")
      case None
      with snoc have "list_all (\<lambda>g. spread kept g = None) candidates" by simp
      then have "fitted_on kept (candidates @ [g]) ?new"
        unfolding fitted_on_def using Some hs
        by (intro exI [of _ candidates] exI [of _ "[]"]) (auto simp: list_all_iff)
      with None step show ?thesis by simp
    next
      case (Some b)
      with snoc obtain earlier later where b: "candidates = earlier @ pc_g12 b # later"
        "spread kept (pc_g12 b) = Some (pc_h b, pc_scatter b)"
        "list_all (\<lambda>g. pred_option (\<lambda>(h, s). pc_scatter b < s) (spread kept g)) earlier"
        "list_all (\<lambda>g. pred_option (\<lambda>(h, s). pc_scatter b \<le> s) (spread kept g)) later" "pc_n b = n"
        by (auto simp: fitted_on_def)
      note g = \<open>spread kept g = Some hs\<close> [unfolded hs]
      show ?thesis
      proof (cases "s < pc_scatter b")
        case True
        have "list_all (\<lambda>g. pred_option (\<lambda>(h, s'). s < s') (spread kept g)) candidates"
          using b(2-4) True unfolding b(1) by (fastforce simp: list_all_iff pred_option_def)
        then have "fitted_on kept (candidates @ [g]) ?new"
          unfolding fitted_on_def using g by (intro exI [of _ candidates] exI [of _ "[]"]) simp
        with Some True step show ?thesis by simp
      next
        case False
        then have "fitted_on kept (candidates @ [g]) b"
          unfolding fitted_on_def using b g
          by (intro exI [of _ earlier] exI [of _ "later @ [g]"]) simp
        with Some False step b(5) show ?thesis by simp
      qed
    qed
  qed
qed (simp add: scan_def)

text \<open>
  C35: In exact arithmetic, the phase curve of an object's usable points, at least eight, is found in two
  passes.  A first curve is fitted to all of them; the points within three times its scatter of it
  are kept, unless fewer than eight are; and the curve stored is fitted to the points kept.  To fit
  a curve is to take, of the trial slopes, the first that leaves the least scatter, and as
  magnitude the median residual there.  The scatter stored is at least the floor, and the number
  of points stored is that of all usable points, kept or not.
\<close>

theorem fitted_curves_are_best:
  assumes "fit_curve exact_fn_arith points = Some c"
  defines "usable \<equiv> filter (usable_point exact_fn_arith) points"
  defines "pairs \<equiv> map (\<lambda>p. (reduced_magnitude exact_fn_arith p, pt_phase p)) usable"
  defines "candidates \<equiv> slope_candidates exact_fn_arith (map pt_phase usable)"
  shows "8 \<le> length usable \<and> pc_n c = length usable \<and>
    (\<exists>first final. fitted_on pairs candidates first \<and>
      (let core = filter (\<lambda>(reduced, phase).
             \<bar>reduced - hg12 exact_fn_arith phase (pc_g12 first) - pc_h first\<bar> \<le> 3 * pc_scatter first) pairs
       in fitted_on (if length core < 8 then pairs else core) candidates final) \<and>
      c = final\<lparr>pc_scatter := max (pc_scatter final) 0.02\<rparr>)"
proof -
  let ?n = "length usable"
  let ?scan = "\<lambda>kept. scan exact_fn_arith candidates kept ?n"
  have scanned: "fitted_on kept candidates d \<and> pc_n d = ?n" if "?scan kept = Some d" for kept d
    using scan_fitted [where candidates = candidates and kept = kept and n = ?n] that by simp
  have enough: "8 \<le> ?n"
    using assms(1) by (auto simp: fit_curve_def usable_def MIN_POINTS_def Let_def split: if_splits)
  obtain final first where first: "?scan pairs = Some first"
    and final: "(let surviving = surviving_points exact_fn_arith first pairs
        in if length surviving < 8 \<or> length surviving = length pairs then Some first else ?scan surviving) = Some final"
    and c: "c = final\<lparr>pc_scatter := max (pc_scatter final) 0.02\<rparr>"
    using assms(1) unfolding fit_curve_def Let_def usable_def [symmetric] pairs_def [symmetric] candidates_def [symmetric]
    by (auto simp: MIN_POINTS_def MIN_SCATTER_def split: if_splits option.splits)
  define core where "core = filter (\<lambda>(reduced, phase).
    \<bar>reduced - hg12 exact_fn_arith phase (pc_g12 first) - pc_h first\<bar> \<le> 3 * pc_scatter first) pairs"
  have surviving: "surviving_points exact_fn_arith first pairs = core"
    by (simp add: surviving_points_def core_def CLIP_SIGMA_def)
  have "?scan (if length core < 8 then pairs else core) = Some final"
  proof (cases "length core = length pairs")
    case True
    then have "core = pairs"
      unfolding core_def by (metis subseq_filter_left subseq_same_length)
    with final first show ?thesis by (simp add: surviving Let_def)
  next
    case False
    with final first show ?thesis by (auto simp: surviving Let_def)
  qed
  from scanned [OF this] scanned [OF first] have
    "fitted_on (if length core < 8 then pairs else core) candidates final" "pc_n final = ?n" "fitted_on pairs candidates first"
    by blast+
  with enough c show ?thesis
    unfolding core_def Let_def by (intro conjI exI [of _ first] exI [of _ final]) simp_all
qed

lemma fit_of_equal_points:
  "fit_curve exact_fn_arith (replicate 8 \<lparr>pt_rh = 1, pt_delta = 1, pt_phase = 0, pt_mag = 18, pt_mag_err = 0.1, pt_band = 1\<rparr>) \<noteq> None"
proof -
  have sort: "sort (replicate n v) = replicate n v" for n and v :: real
    by (simp add: sorted_sort_id)
  have med: "median exact_fn_arith (replicate (Suc (Suc n)) v) = Some v" for n v
    by (auto simp: median_def sort Let_def simp del: replicate.simps)
  show ?thesis
    using med [of 6]
    by (simp add: fit_curve_def scan_def slope_candidates_def phase_span_def trial_curve_def keep_better_def residuals_of_def
        median_deviation_def MIN_POINTS_def MIN_PHASE_SPAN_def MIN_POINTS_FOR_SLOPE_def Let_def usable_point_def
        finite_values_def surviving_points_def eval_nat_numeral)
qed

theorem fitted_curves_are_best_witness:
  "\<exists>c. fit_curve exact_fn_arith
      (replicate 8 \<lparr>pt_rh = 1, pt_delta = 1, pt_phase = 0, pt_mag = 18, pt_mag_err = 0.1, pt_band = 1\<rparr>) = Some c \<and> 8 \<le> pc_n c"
proof -
  obtain c where c: "fit_curve exact_fn_arith
      (replicate 8 \<lparr>pt_rh = 1, pt_delta = 1, pt_phase = 0, pt_mag = 18, pt_mag_err = 0.1, pt_band = 1\<rparr>) = Some c"
    using fit_of_equal_points by blast
  from fitted_curves_are_best [OF c] have "pc_n c = 8"
    by (auto simp: usable_point_def finite_values_def filter_replicate)
  with c show ?thesis by auto
qed

end
