(* ===== verification/Sso_Baselines.thy ===== *)
theory Sso_Baselines
  imports Sso_Outburst Task_Context Task_Registry
begin

text \<open>
  Stored phase curves (\<open>src/src/utils/phase_curve.rs\<close>, the documents) and the task that fits them
  (\<open>src/src/tasks/sso_baselines.rs\<close>): the pass over the detections sorted by object, its batches of
  writes, its limit, cancellation and ledger entry.  The cursor and the bulk write are parameters.
\<close>

section \<open>Documents\<close>

datatype scalar = SDouble f64 | SInt32 i32 | SInt64 i64 | SNull

type_synonym bdoc = "scalar bson_document"

definition bson_number :: "float_unit \<Rightarrow> scalar bson \<Rightarrow> f64 option" where
  "bson_number F v =
     (case v of
        BOther (SDouble x) \<Rightarrow> Some x
      | BOther (SInt32 i) \<Rightarrow> Some (d_lit F (real_of_int (sint i)))
      | BOther (SInt64 i) \<Rightarrow> Some (d_lit F (real_of_int (sint i)))
      | _ \<Rightarrow> None)"

definition get_document :: "string \<Rightarrow> bdoc \<Rightarrow> bdoc option" where
  "get_document k d = (case map_of d k of Some (BDocument e) \<Rightarrow> Some e | _ \<Rightarrow> None)"

definition get_str :: "string \<Rightarrow> bdoc \<Rightarrow> string option" where
  "get_str k d = (case map_of d k of Some (BString s) \<Rightarrow> Some s | _ \<Rightarrow> None)"

definition number_at :: "float_unit \<Rightarrow> string \<Rightarrow> bdoc \<Rightarrow> f64 option" where
  "number_at F k d = Option.bind (map_of d k) (bson_number F)"

text \<open>The casts from a float truncate and saturate, a NaN is 0.\<close>

definition f64_as_nat :: "nat \<Rightarrow> f64 \<Rightarrow> nat" where
  "f64_as_nat biggest x =
     (case x of Num r \<Rightarrow> min biggest (nat \<lfloor>r\<rfloor>) | PosInf \<Rightarrow> biggest | _ \<Rightarrow> 0)"

text \<open>\<open>str::parse\<close> of a \<open>u8\<close>.\<close>

definition parse_u8 :: "string \<Rightarrow> u8 option" where
  "parse_u8 s =
     (let ds = (case s of c # cs \<Rightarrow> if c = CHR ''+'' then cs else s | [] \<Rightarrow> [])
      in if ds \<noteq> [] \<and> list_all is_digit ds \<and> digits_value ds < 256 then Some (of_nat (digits_value ds)) else None)"

definition BASELINES_COLLECTION :: string where "BASELINES_COLLECTION = ''ZTF_sso_baselines''"

definition curve_from_entry :: "float_unit \<Rightarrow> string \<times> scalar bson \<Rightarrow> (u8 \<times> f64 phase_curve) option" where
  "curve_from_entry F kv =
     (case kv of
        (band, BDocument entry) \<Rightarrow>
          (case (parse_u8 band, number_at F ''h'' entry, number_at F ''g12'' entry, number_at F ''scatter'' entry,
                 number_at F ''n'' entry) of
             (Some b, Some h, Some g12, Some scatter, Some n) \<Rightarrow>
               Some (b, \<lparr>pc_h = h, pc_g12 = g12, pc_scatter = scatter, pc_n = f64_as_nat (2 ^ 64 - 1) n\<rparr>)
           | _ \<Rightarrow> None)
      | _ \<Rightarrow> None)"

text \<open>Collecting into a hash map: a later entry replaces an earlier one.\<close>

definition curves_from_document :: "float_unit \<Rightarrow> bdoc \<Rightarrow> (u8 \<rightharpoonup> f64 phase_curve)" where
  "curves_from_document F d =
     (case get_document ''bands'' d of
        None \<Rightarrow> Map.empty
      | Some bands \<Rightarrow> map_of (rev (List.map_filter (curve_from_entry F) bands)))"

definition curve_entry :: "u8 \<times> f64 phase_curve \<Rightarrow> string \<times> scalar bson" where
  "curve_entry bc =
     (case bc of (band, c) \<Rightarrow>
        (dec (unat band),
         BDocument [(''h'', BOther (SDouble (pc_h c))), (''g12'', BOther (SDouble (pc_g12 c))),
           (''scatter'', BOther (SDouble (pc_scatter c))), (''n'', BOther (SInt64 (of_nat (pc_n c))))]))"

text \<open>\<open>curves\<close> lists the hash map in the order it is iterated in.\<close>

definition baseline_document :: "string \<Rightarrow> (u8 \<times> f64 phase_curve) list \<Rightarrow> f64 \<Rightarrow> bdoc" where
  "baseline_document designation curves now =
     [(''_id'', BString designation), (''bands'', BDocument (map curve_entry curves)), (''updated_at'', BOther (SDouble now))]"

section \<open>The task\<close>

record sso_baselines_params =
  bp_batch_size :: nat
  bp_dry_run :: bool
  bp_limit :: "nat option"

definition default_batch_size :: nat where "default_batch_size = 1000"
definition MAX_BATCH_SIZE :: nat where "MAX_BATCH_SIZE = 100000"

definition validate_baseline_params :: "sso_baselines_params \<Rightarrow> (string, unit) result" where
  "validate_baseline_params p =
     (if bp_batch_size p = 0 \<or> MAX_BATCH_SIZE < bp_batch_size p
      then Inl (''batch_size must be between 1 and '' @ dec MAX_BATCH_SIZE)
      else if bp_limit p = Some 0 then Inl ''limit must be greater than zero''
      else Inr ())"

definition point_from :: "float_unit \<Rightarrow> bdoc \<Rightarrow> (string \<times> f64 point) option" where
  "point_from F d =
     (case (get_document ''candidate'' d, Option.bind (get_document ''properties'' d) (get_document ''sso'')) of
        (Some cand, Some sso) \<Rightarrow>
          (case (get_str ''ssnamenr'' cand, number_at F ''helio_dist'' sso, number_at F ''topo_dist'' sso,
                 number_at F ''phase_angle'' sso, number_at F ''magpsf'' cand, number_at F ''sigmapsf'' cand,
                 number_at F ''fid'' cand) of
             (Some name, Some rh, Some delta, Some phase, Some mag, Some mag_err, Some fid) \<Rightarrow>
               Some (name, \<lparr>pt_rh = rh, pt_delta = delta, pt_phase = phase, pt_mag = mag, pt_mag_err = mag_err,
                 pt_band = of_nat (f64_as_nat 255 fid)\<rparr>)
           | _ \<Rightarrow> None)
      | _ \<Rightarrow> None)"

text \<open>The calls of a run: what the cursor yields, the bulk write with the count of its result, the polls of the
  cancellation flag and the clocks.  \<open>be_order\<close> is the order in which a hash map of bands is iterated.\<close>

record ('b, 't, 'l, 'm) baselines_env =
  be_float :: float_unit
  be_arith :: "f64 fn_arith"
  be_order :: "u8 list \<Rightarrow> u8 list"
  be_cursor :: "(string, (string, bdoc) result list) result"
  be_bulk :: "bdoc list \<Rightarrow> 'b \<Rightarrow> (string, nat) result \<times> 'b"
  be_driver :: "('t, 'l, 'm, scalar) driver"
  be_canceled :: "nat \<Rightarrow> bool"
  be_db_name :: string
  be_now :: f64
  be_ts :: real
  be_uuid :: string
  be_code_version :: "scalar bson"

record ('b, 't, 'l, 'm) baselines_state =
  bs_ctx :: task_context
  bs_world :: "('t, 'l, 'm) world"
  bs_store :: 'b
  bs_pending :: "bdoc list"
  bs_objects :: nat
  bs_fitted :: nat
  bs_written :: nat
  bs_current :: "(string \<times> f64 point list) option"
  bs_done :: bool
  bs_polls :: nat

definition fit_bands :: "('b, 't, 'l, 'm) baselines_env \<Rightarrow> f64 point list \<Rightarrow> (u8 \<times> f64 phase_curve) list" where
  "fit_bands E points =
     List.map_filter (\<lambda>b. map_option (Pair b) (fit_curve (be_arith E) (filter (\<lambda>p. pt_band p = b) points)))
       (be_order E (remdups (map pt_band points)))"

text \<open>The object before the boundary is fitted and its document queued.\<close>

definition close_object ::
  "('b, 't, 'l, 'm) baselines_env \<Rightarrow> sso_baselines_params \<Rightarrow> string \<times> f64 point list \<Rightarrow>
   ('b, 't, 'l, 'm) baselines_state \<Rightarrow> ('b, 't, 'l, 'm) baselines_state" where
  "close_object E P c st =
     (case c of (name, points) \<Rightarrow>
        let objects = bs_objects st + 1; curves = fit_bands E points;
            st = st\<lparr>bs_current := None, bs_objects := objects\<rparr>;
            st = (if curves = [] then st
                  else st\<lparr>bs_fitted := bs_fitted st + 1,
                          bs_pending := bs_pending st @ [baseline_document name curves (be_now E)]\<rparr>)
        in if pred_option (\<lambda>limit. limit \<le> objects) (bp_limit P) \<and> bp_limit P \<noteq> None then st\<lparr>bs_done := True\<rparr> else st)"

definition is_boundary :: "(string \<times> f64 point list) option \<Rightarrow> (string \<times> f64 point) option \<Rightarrow> bool \<Rightarrow> bool" where
  "is_boundary current incoming exhausted =
     (case (current, incoming) of
        (Some (name, _), Some (next_name, _)) \<Rightarrow> name \<noteq> next_name
      | (Some _, None) \<Rightarrow> exhausted
      | _ \<Rightarrow> False)"

definition progress_text :: "('b, 't, 'l, 'm) baselines_state \<Rightarrow> string" where
  "progress_text st =
     dec (bs_objects st) @ '' objects, '' @ dec (bs_fitted st) @ '' fitted, '' @ dec (bs_written st) @ '' written''"

definition flush_pending ::
  "('b, 't, 'l, 'm) baselines_env \<Rightarrow> sso_baselines_params \<Rightarrow> bool \<Rightarrow> ('b, 't, 'l, 'm) baselines_state \<Rightarrow>
   (task_fault, unit) result \<times> ('b, 't, 'l, 'm) baselines_state" where
  "flush_pending E P exhausted st =
     (if bp_batch_size P \<le> length (bs_pending st) \<or> (bs_done st \<or> exhausted) \<and> bs_pending st \<noteq> [] then
        let report = \<lambda>st. st\<lparr>bs_world := ctx_progress (be_driver E) (of_nat (bs_objects st))
              (of_nat (case bp_limit P of Some n \<Rightarrow> n | None \<Rightarrow> bs_objects st)) (progress_text st) (bs_ctx st) (bs_world st)\<rparr>
        in if bp_dry_run P
           then (Inr (), report (st\<lparr>bs_written := bs_written st + length (bs_pending st), bs_pending := []\<rparr>))
           else case be_bulk E (bs_pending st) (bs_store st) of
                  (Inr n, b) \<Rightarrow> (Inr (), report (st\<lparr>bs_store := b, bs_written := bs_written st + n, bs_pending := []\<rparr>))
                | (Inl e, b) \<Rightarrow> (Inl (ErrFailed (''bulk write failed: '' @ e)), st\<lparr>bs_store := b, bs_pending := []\<rparr>)
      else (Inr (), st))"

definition add_incoming ::
  "(string \<times> f64 point) option \<Rightarrow> ('b, 't, 'l, 'm) baselines_state \<Rightarrow> ('b, 't, 'l, 'm) baselines_state" where
  "add_incoming incoming st =
     (case incoming of
        None \<Rightarrow> st
      | Some (name, point) \<Rightarrow>
          (case bs_current st of
             Some (current_name, points) \<Rightarrow>
               if current_name = name then st\<lparr>bs_current := Some (name, points @ [point])\<rparr>
               else st\<lparr>bs_current := Some (name, [point])\<rparr>
           | None \<Rightarrow> st\<lparr>bs_current := Some (name, [point])\<rparr>))"

datatype pass_turn = PassEnds "(task_fault, unit) result" | PassGoes

text \<open>One turn of the loop, for the document the cursor yields or its end.\<close>

definition pass_turn ::
  "('b, 't, 'l, 'm) baselines_env \<Rightarrow> sso_baselines_params \<Rightarrow> bdoc option \<Rightarrow> ('b, 't, 'l, 'm) baselines_state \<Rightarrow>
   pass_turn \<times> ('b, 't, 'l, 'm) baselines_state" where
  "pass_turn E P next_doc st =
     (let exhausted = (next_doc = None);
          incoming = Option.bind next_doc (point_from (be_float E));
          st = (if is_boundary (bs_current st) incoming exhausted \<or> exhausted \<and> bs_current st \<noteq> None
                then case bs_current st of Some c \<Rightarrow> close_object E P c st | None \<Rightarrow> st
                else st)
      in case flush_pending E P exhausted st of
           (Inl e, st) \<Rightarrow> (PassEnds (Inl e), st)
         | (Inr _, st) \<Rightarrow>
             let polled = st\<lparr>bs_polls := bs_polls st + 1\<rparr>
             in if be_canceled E (bs_polls st)
                then (PassEnds (Inl ErrCanceled),
                      polled\<lparr>bs_ctx := ctx_warn (be_ts E) (''canceled after '' @ dec (bs_objects st) @ '' objects'') (bs_ctx st)\<rparr>)
                else if bs_done st \<or> exhausted then (PassEnds (Inr ()), polled)
                else (PassGoes, add_incoming incoming polled))"

fun baseline_pass ::
  "('b, 't, 'l, 'm) baselines_env \<Rightarrow> sso_baselines_params \<Rightarrow> (string, bdoc) result list \<Rightarrow>
   ('b, 't, 'l, 'm) baselines_state \<Rightarrow> (task_fault, unit) result \<times> ('b, 't, 'l, 'm) baselines_state" where
  "baseline_pass E P [] st =
     (case pass_turn E P None st of (PassEnds r, st) \<Rightarrow> (r, st) | (PassGoes, st) \<Rightarrow> (Inr (), st))"
| "baseline_pass E P (Inl e # ds) st = (Inl (ErrFailed (''failed to read ZTF_alerts: '' @ e)), st)"
| "baseline_pass E P (Inr d # ds) st =
     (case pass_turn E P (Some d) st of
        (PassEnds r, st) \<Rightarrow> (r, st)
      | (PassGoes, st) \<Rightarrow> baseline_pass E P ds st)"

definition baseline_details :: "('b, 't, 'l, 'm) baselines_env \<Rightarrow> ('b, 't, 'l, 'm) baselines_state \<Rightarrow> bdoc" where
  "baseline_details E st =
     [(''objects_scanned'', BOther (SInt64 (of_nat (bs_objects st)))), (''objects_fitted'', BOther (SInt64 (of_nat (bs_fitted st)))),
      (''baselines_written'', BOther (SInt64 (of_nat (bs_written st)))), (''code_version'', be_code_version E)]"

definition run_sso_baselines ::
  "('b, 't, 'l, 'm) baselines_env \<Rightarrow> sso_baselines_params \<Rightarrow> task_context \<Rightarrow> ('t, 'l, 'm) world \<Rightarrow> 'b \<Rightarrow>
   (task_fault, json) result \<times> ('b, 't, 'l, 'm) baselines_state" where
  "run_sso_baselines E P ctx w b =
     (let st = \<lparr>bs_ctx = ctx, bs_world = w, bs_store = b, bs_pending = [], bs_objects = 0, bs_fitted = 0, bs_written = 0,
                bs_current = None, bs_done = False, bs_polls = 0\<rparr>
      in case be_cursor E of
           Inl e \<Rightarrow> (Inl (ErrFailed (''failed to query ZTF_alerts: '' @ e)), st)
         | Inr ds \<Rightarrow>
             (case baseline_pass E P ds st of
                (Inl e, st) \<Rightarrow> (Inl e, st)
              | (Inr _, st) \<Rightarrow>
                  let st = st\<lparr>bs_ctx := ctx_info (be_ts E) (''finished: '' @ progress_text st @ '' (dry_run='' @
                        (if bp_dry_run P then ''true'' else ''false'') @ '')'') (bs_ctx st)\<rparr>;
                      st = (if \<not> bp_dry_run P \<and> 0 < bs_written st
                            then (case record_mutation (be_driver E) (be_uuid E) (be_ts E) (be_ts E)
                                \<lparr>target_database = be_db_name E, target_collection = BASELINES_COLLECTION, target_catalog = None,
                                 target_survey = Some ''ztf''\<rparr> Recompute (baseline_details E st) (bs_ctx st, bs_world st) of
                                (c, w) \<Rightarrow> st\<lparr>bs_ctx := c, bs_world := w\<rparr>)
                            else st)
                  in (Inr (JObject [(''collection'', JString BASELINES_COLLECTION),
                        (''objects_scanned'', JNumber (PosInt (bs_objects st))), (''objects_fitted'', JNumber (PosInt (bs_fitted st))),
                        (''baselines_written'', JNumber (PosInt (bs_written st))), (''dry_run'', JBool (bp_dry_run P))]), st)))"

section \<open>A document is read back as it was written\<close>

lemma parse_u8_dec: "parse_u8 (dec (unat b)) = Some (b :: u8)"
proof -
  obtain c cs where c: "dec (unat b) = c # cs" "is_digit c" using dec_first_digit by blast
  have "unat b < 256" using unsigned_less [of b] by simp
  moreover have "list_all is_digit (dec (unat b))" "digits_value (dec (unat b)) = unat b" using dec_digits by auto
  ultimately show ?thesis using c not_sign [OF c(2)] by (auto simp: parse_u8_def Let_def)
qed

definition exact_counts :: "float_unit \<Rightarrow> bool" where
  "exact_counts F \<longleftrightarrow> (\<forall>n < 2 ^ 53. d_lit F (real n) = Num (real n))"

lemma curve_from_entry_back:
  assumes "exact_counts F" and "pc_n c < 2 ^ 53"
  shows "curve_from_entry F (curve_entry (b, c)) = Some (b, c)"
proof -
  have n: "sint (word_of_nat (pc_n c) :: i64) = int (pc_n c)"
    using assms(2) by (simp add: signed_of_nat signed_take_bit_int_eq_self)
  show ?thesis
    using assms
    by (simp add: curve_from_entry_def curve_entry_def parse_u8_dec number_at_def bson_number_def n exact_counts_def f64_as_nat_def)
qed

lemma map_of_rev_keys: "distinct (map fst xs) \<Longrightarrow> map_of (rev xs) = map_of xs"
proof
  fix k
  assume d: "distinct (map fst xs)"
  then have "distinct (map fst (rev xs))" by (simp flip: rev_map)
  with d have "map_of (rev xs) k = Some v \<longleftrightarrow> map_of xs k = Some v" for v
    by (simp add: map_of_eq_Some_iff)
  then show "map_of (rev xs) k = map_of xs k" by (metis option.exhaust)
qed

text \<open>
  the curves of an object are read back from its stored document: for the same bands, with the
  same values, if no curve rests on \<open>2 ^ 53\<close> points and smaller numbers are floats exactly.
\<close>

theorem baselines_round_trip:
  assumes "exact_counts F" and "distinct (map fst curves)" and "list_all (\<lambda>(_, c). pc_n c < 2 ^ 53) curves"
  shows "curves_from_document F (baseline_document designation curves now) = map_of curves"
proof -
  have "List.map_filter (curve_from_entry F) (map curve_entry curves) = curves"
    using assms(1,3)
    by (induction curves) (auto simp: map_filter_simps curve_from_entry_back)
  then have "curves_from_document F (baseline_document designation curves now) = map_of (rev curves)"
    by (simp add: curves_from_document_def baseline_document_def get_document_def)
  also have "\<dots> = map_of curves" using assms(2) by (rule map_of_rev_keys)
  finally show ?thesis .
qed

section \<open>A full pass writes every object's curves once\<close>

text \<open>The objects of a pass: runs of detections with the same designation.\<close>

definition extend_object :: "string \<times> 'p list \<Rightarrow> (string \<times> 'p list) list \<Rightarrow> (string \<times> 'p list) list" where
  "extend_object o1 gs =
     (case gs of
        (n, ps) # gs' \<Rightarrow> if fst o1 = n then (n, snd o1 @ ps) # gs' else o1 # gs
      | [] \<Rightarrow> [o1])"

fun group_objects :: "(string \<times> 'p) list \<Rightarrow> (string \<times> 'p list) list" where
  "group_objects [] = []"
| "group_objects ((n, p) # r) = extend_object (n, [p]) (group_objects r)"

definition objects_from :: "(string \<times> 'p list) option \<Rightarrow> (string \<times> 'p) list \<Rightarrow> (string \<times> 'p list) list" where
  "objects_from current r =
     (case current of None \<Rightarrow> group_objects r | Some o1 \<Rightarrow> extend_object o1 (group_objects r))"

lemma extend_extend:
  "extend_object (n, ps) (extend_object (n', [p]) gs) =
     (if n = n' then extend_object (n, ps @ [p]) gs else (n, ps) # extend_object (n', [p]) gs)"
  by (cases gs) (auto simp: extend_object_def)

lemma objects_from_Cons:
  "objects_from (Some (n, ps)) ((n', p) # r) =
     (if n = n' then objects_from (Some (n, ps @ [p])) r else (n, ps) # objects_from (Some (n', [p])) r)"
  by (simp add: objects_from_def extend_extend)

lemma objects_from_start [simp]:
  "objects_from None ((n, p) # r) = objects_from (Some (n, [p])) r"
  "objects_from None [] = []" "objects_from (Some o1) [] = [o1]"
  by (simp_all add: objects_from_def extend_object_def)

definition object_document :: "('b, 't, 'l, 'm) baselines_env \<Rightarrow> string \<times> f64 point list \<Rightarrow> bdoc option" where
  "object_document E g =
     (case g of (name, points) \<Rightarrow>
        let curves = fit_bands E points in if curves = [] then None else Some (baseline_document name curves (be_now E)))"

definition limited_to :: "nat option \<Rightarrow> nat \<Rightarrow> 'a list \<Rightarrow> 'a list" where
  "limited_to limit objects xs = (case limit of None \<Rightarrow> xs | Some n \<Rightarrow> take (n - objects) xs)"

text \<open>The collection holds one document for an id; a bulk write is a sequence of \<open>ReplaceOne\<close>s with
  \<open>upsert\<close>, each keyed by the designation the document has as its id.\<close>

definition upsert :: "bdoc \<Rightarrow> (string \<rightharpoonup> bdoc) \<Rightarrow> (string \<rightharpoonup> bdoc)" where
  "upsert d m = (case get_str ''_id'' d of None \<Rightarrow> m | Some k \<Rightarrow> m(k \<mapsto> d))"

definition accepts_writes :: "('b, 't, 'l, 'm) baselines_env \<Rightarrow> ('b \<Rightarrow> string \<rightharpoonup> bdoc) \<Rightarrow> bool" where
  "accepts_writes E view \<longleftrightarrow> (\<forall>ds b. \<exists>n b'. be_bulk E ds b = (Inr n, b') \<and> view b' = fold upsert ds (view b))"

definition under_limit :: "sso_baselines_params \<Rightarrow> ('b, 't, 'l, 'm) baselines_state \<Rightarrow> bool" where
  "under_limit P st \<longleftrightarrow> \<not> bs_done st \<and> pred_option (\<lambda>n. bs_objects st < n) (bp_limit P)"

abbreviation sent :: "('b \<Rightarrow> string \<rightharpoonup> bdoc) \<Rightarrow> ('b, 't, 'l, 'm) baselines_state \<Rightarrow> (string \<rightharpoonup> bdoc)" where
  "sent view st \<equiv> fold upsert (bs_pending st) (view (bs_store st))"

lemma flush_pending_ok:
  assumes "accepts_writes E view" and "\<not> bp_dry_run P" and "0 < bp_batch_size P"
  shows "\<exists>st'. flush_pending E P ex st = (Inr (), st') \<and> sent view st' = sent view st \<and>
    bs_current st' = bs_current st \<and> bs_objects st' = bs_objects st \<and> bs_fitted st' = bs_fitted st \<and>
    bs_done st' = bs_done st \<and> (bs_done st \<or> ex \<longrightarrow> bs_pending st' = [])"
proof (cases "bp_batch_size P \<le> length (bs_pending st) \<or> (bs_done st \<or> ex) \<and> bs_pending st \<noteq> []")
  case True
  obtain n b' where "be_bulk E (bs_pending st) (bs_store st) = (Inr n, b')" "view b' = fold upsert (bs_pending st) (view (bs_store st))"
    using assms(1) by (auto simp: accepts_writes_def) metis
  with True assms(2) show ?thesis by (simp add: flush_pending_def Let_def)
next
  case False
  then show ?thesis by (auto simp: flush_pending_def)
qed

lemma close_object_sent:
  "sent view (close_object E P c st) = fold upsert (case object_document E c of None \<Rightarrow> [] | Some d \<Rightarrow> [d]) (sent view st)"
  "bs_current (close_object E P c st) = None"
  "bs_objects (close_object E P c st) = bs_objects st + 1"
  "bs_fitted (close_object E P c st) = bs_fitted st + (if object_document E c = None then 0 else 1)"
  "bs_done (close_object E P c st) \<longleftrightarrow> bs_done st \<or> (\<exists>n. bp_limit P = Some n \<and> n \<le> bs_objects st + 1)"
  by (cases c; cases "bp_limit P"; simp add: close_object_def object_document_def Let_def)+

definition never_canceled :: "('b, 't, 'l, 'm) baselines_env \<Rightarrow> bool" where
  "never_canceled E \<longleftrightarrow> (\<forall>k. \<not> be_canceled E k)"

definition plain_pass :: "('b, 't, 'l, 'm) baselines_env \<Rightarrow> sso_baselines_params \<Rightarrow> ('b \<Rightarrow> string \<rightharpoonup> bdoc) \<Rightarrow> bool" where
  "plain_pass E P view \<longleftrightarrow> accepts_writes E view \<and> never_canceled E \<and> \<not> bp_dry_run P \<and> 0 < bp_batch_size P"

definition next_current :: "(string \<times> 'p list) option \<Rightarrow> (string \<times> 'p) option \<Rightarrow> (string \<times> 'p list) option" where
  "next_current current incoming =
     (case incoming of
        None \<Rightarrow> current
      | Some (name, p) \<Rightarrow>
          (case current of
             Some (n, ps) \<Rightarrow> if n = name then Some (name, ps @ [p]) else Some (name, [p])
           | None \<Rightarrow> Some (name, [p])))"

lemma add_incoming_fields [simp]:
  "bs_store (add_incoming inc st) = bs_store st" "bs_pending (add_incoming inc st) = bs_pending st"
  "bs_objects (add_incoming inc st) = bs_objects st" "bs_fitted (add_incoming inc st) = bs_fitted st"
  "bs_done (add_incoming inc st) = bs_done st" "bs_current (add_incoming inc st) = next_current (bs_current st) inc"
  by (simp_all add: add_incoming_def next_current_def split: option.split)

text \<open>A turn that closes no object.\<close>

lemma pass_turn_goes:
  assumes "plain_pass E P view" and "under_limit P st"
    and "\<not> is_boundary (bs_current st) (point_from (be_float E) d) False"
  shows "\<exists>st'. pass_turn E P (Some d) st = (PassGoes, st') \<and> under_limit P st' \<and> sent view st' = sent view st \<and>
    bs_objects st' = bs_objects st \<and> bs_fitted st' = bs_fitted st \<and>
    bs_current st' = next_current (bs_current st) (point_from (be_float E) d)"
proof -
  obtain st' where st': "flush_pending E P False st = (Inr (), st')" "sent view st' = sent view st"
      "bs_current st' = bs_current st" "bs_objects st' = bs_objects st" "bs_fitted st' = bs_fitted st" "bs_done st' = bs_done st"
    using flush_pending_ok [of E view P False st] assms(1) by (auto simp: plain_pass_def)
  have "\<not> bs_done st'" using assms(2) st'(6) by (simp add: under_limit_def)
  then have "pass_turn E P (Some d) st =
      (PassGoes, add_incoming (point_from (be_float E) d) (st'\<lparr>bs_polls := bs_polls st' + 1\<rparr>))"
    using assms(1,3) st'(1) by (simp add: pass_turn_def Let_def plain_pass_def never_canceled_def)
  then show ?thesis using assms(2) st' by (simp add: under_limit_def)
qed

text \<open>A turn that closes one, because the next detection is of another or there is none.\<close>

lemma pass_turn_closes:
  assumes "plain_pass E P view" and "under_limit P st" and "bs_current st = Some c"
    and "is_boundary (bs_current st) (Option.bind next_doc (point_from (be_float E))) (next_doc = None)"
  defines "added \<equiv> (case object_document E c of None \<Rightarrow> [] | Some d \<Rightarrow> [d])"
  shows "\<exists>t st'. pass_turn E P next_doc st = (t, st') \<and> sent view st' = fold upsert added (sent view st) \<and>
    bs_objects st' = bs_objects st + 1 \<and> bs_fitted st' = bs_fitted st + length added \<and>
    (if bp_limit P = Some (bs_objects st + 1) \<or> next_doc = None then t = PassEnds (Inr ()) \<and> bs_pending st' = []
     else t = PassGoes \<and> under_limit P st' \<and>
       bs_current st' = map_option (\<lambda>(n, p). (n, [p])) (Option.bind next_doc (point_from (be_float E))))"
proof -
  let ?st = "close_object E P c st"
  note closed = close_object_sent(1) [where view = view and E = E and P = P and c = c and st = st] close_object_sent(2-5) [of E P c st]
  obtain st' where st': "flush_pending E P (next_doc = None) ?st = (Inr (), st')" "sent view st' = sent view ?st"
      "bs_current st' = bs_current ?st" "bs_objects st' = bs_objects ?st" "bs_fitted st' = bs_fitted ?st"
      "bs_done st' = bs_done ?st" "bs_done ?st \<or> next_doc = None \<longrightarrow> bs_pending st' = []"
    using flush_pending_ok [of E view P "next_doc = None" ?st] assms(1) by (auto simp: plain_pass_def)
  have finished: "bs_done ?st \<longleftrightarrow> bp_limit P = Some (bs_objects st + 1)"
    using assms(2) closed(5) by (cases "bp_limit P") (auto simp: under_limit_def)
  have turn: "pass_turn E P next_doc st =
      (let polled = st'\<lparr>bs_polls := bs_polls st' + 1\<rparr>
       in if bs_done st' \<or> next_doc = None then (PassEnds (Inr ()), polled)
          else (PassGoes, add_incoming (Option.bind next_doc (point_from (be_float E))) polled))"
    using assms(1,3,4) st'(1) by (simp add: pass_turn_def Let_def plain_pass_def never_canceled_def)
  have added: "length added = (if object_document E c = None then 0 else 1)" by (auto simp: added_def split: option.split)
  have sent: "sent view st' = fold upsert added (sent view st)" using st'(2) closed(1) by (simp add: added_def)
  show ?thesis
  proof (cases "bp_limit P = Some (bs_objects st + 1) \<or> next_doc = None")
    case True
    then have "pass_turn E P next_doc st = (PassEnds (Inr ()), st'\<lparr>bs_polls := bs_polls st' + 1\<rparr>)"
      using st'(6) finished by (auto simp: turn Let_def)
    then show ?thesis using True sent st'(4,5,7) closed(3,4) finished added by auto
  next
    case False
    then have "pass_turn E P next_doc st =
        (PassGoes, add_incoming (Option.bind next_doc (point_from (be_float E))) (st'\<lparr>bs_polls := bs_polls st' + 1\<rparr>))"
      using st'(6) finished by (auto simp: turn Let_def)
    moreover have "under_limit P st'"
      using False assms(2) st'(4,6) closed(3) finished by (cases "bp_limit P") (auto simp: under_limit_def)
    ultimately show ?thesis
      using False sent st'(3,4,5) closed(2,3,4) added
      by (auto simp: under_limit_def next_current_def split: option.split)
  qed
qed

definition documents_of :: "('b, 't, 'l, 'm) baselines_env \<Rightarrow> (string \<times> f64 point list) list \<Rightarrow> bdoc list" where
  "documents_of E gs = List.map_filter (object_document E) gs"

lemma documents_of_Cons: "documents_of E (g # gs) = (case object_document E g of None \<Rightarrow> [] | Some d \<Rightarrow> [d]) @ documents_of E gs"
  by (simp add: documents_of_def map_filter_simps split: option.split)

definition detections :: "('b, 't, 'l, 'm) baselines_env \<Rightarrow> bdoc list \<Rightarrow> (string \<times> f64 point) list" where
  "detections E ds = List.map_filter (point_from (be_float E)) ds"

lemma detections_Cons:
  "detections E (d # ds) = (case point_from (be_float E) d of None \<Rightarrow> [] | Some p \<Rightarrow> [p]) @ detections E ds"
  by (simp add: detections_def map_filter_simps split: option.split)

lemma not_boundary_same_objects:
  assumes "\<not> is_boundary current incoming False"
  shows "objects_from current ((case incoming of None \<Rightarrow> [] | Some p \<Rightarrow> [p]) @ r) = objects_from (next_current current incoming) r"
  using assms by (auto simp: is_boundary_def next_current_def objects_from_Cons split: option.splits)

lemma boundary_next_object:
  assumes "is_boundary (Some c) incoming False"
  shows "objects_from (Some c) ((case incoming of None \<Rightarrow> [] | Some p \<Rightarrow> [p]) @ r) =
    c # objects_from (map_option (\<lambda>(n, p). (n, [p])) incoming) r"
  using assms by (auto simp: is_boundary_def objects_from_Cons split: option.splits prod.splits)

lemma limited_to_step:
  "pred_option (\<lambda>n. k < n) limit \<Longrightarrow> limited_to limit k (x # xs) = x # limited_to limit (k + 1) xs"
  by (cases limit) (auto simp: limited_to_def take_Cons')

lemma baseline_pass_sends:
  assumes "plain_pass E P view"
  shows "under_limit P st \<Longrightarrow>
    \<exists>st'. baseline_pass E P (map Inr ds) st = (Inr (), st') \<and>
      (let objs = limited_to (bp_limit P) (bs_objects st) (objects_from (bs_current st) (detections E ds))
       in view (bs_store st') = fold upsert (documents_of E objs) (sent view st) \<and> bs_objects st' = bs_objects st + length objs \<and>
          bs_fitted st' = bs_fitted st + length (documents_of E objs))"
proof (induction ds arbitrary: st)
  case Nil
  show ?case
  proof (cases "bs_current st")
    case None
    obtain st' where st': "flush_pending E P True st = (Inr (), st')" "sent view st' = sent view st"
        "bs_objects st' = bs_objects st" "bs_fitted st' = bs_fitted st" "bs_pending st' = []"
      using flush_pending_ok [of E view P True st] assms by (auto simp: plain_pass_def)
    then have "pass_turn E P None st = (PassEnds (Inr ()), st'\<lparr>bs_polls := bs_polls st' + 1\<rparr>)"
      using assms None by (simp add: pass_turn_def Let_def is_boundary_def plain_pass_def never_canceled_def)
    then show ?thesis using st' None
      by (simp add: detections_def limited_to_def documents_of_def map_filter_simps split: option.split)
  next
    case (Some c)
    then have "is_boundary (bs_current st) (Option.bind None (point_from (be_float E))) (None = None)"
      by (cases c) (simp add: is_boundary_def)
    from pass_turn_closes [OF assms Nil.prems Some this] obtain st' where
      "pass_turn E P None st = (PassEnds (Inr ()), st')" "bs_pending st' = []"
      "sent view st' = fold upsert (case object_document E c of None \<Rightarrow> [] | Some d \<Rightarrow> [d]) (sent view st)"
      "bs_objects st' = bs_objects st + 1"
      "bs_fitted st' = bs_fitted st + length (case object_document E c of None \<Rightarrow> [] | Some d \<Rightarrow> [d])"
      by auto
    moreover have "limited_to (bp_limit P) (bs_objects st) [c] = [c]"
      using Nil.prems limited_to_step [of "bs_objects st" "bp_limit P" c "[]"]
      by (simp add: under_limit_def limited_to_def split: option.split)
    ultimately show ?thesis using Some by (simp add: detections_def map_filter_simps documents_of_Cons) (simp add: documents_of_def map_filter_simps)
  qed
next
  case (Cons d ds)
  let ?inc = "point_from (be_float E) d"
  have split: "detections E (d # ds) = (case ?inc of None \<Rightarrow> [] | Some p \<Rightarrow> [p]) @ detections E ds" by (rule detections_Cons)
  show ?case
  proof (cases "is_boundary (bs_current st) ?inc False")
    case False
    from pass_turn_goes [OF assms Cons.prems False] obtain st' where
      st': "pass_turn E P (Some d) st = (PassGoes, st')" "under_limit P st'" "sent view st' = sent view st"
        "bs_objects st' = bs_objects st" "bs_fitted st' = bs_fitted st" "bs_current st' = next_current (bs_current st) ?inc"
      by blast
    from Cons.IH [OF st'(2)] st' show ?thesis
      unfolding split not_boundary_same_objects [OF False] by simp
  next
    case True
    then obtain c where c: "bs_current st = Some c" by (auto simp: is_boundary_def split: option.splits)
    let ?added = "case object_document E c of None \<Rightarrow> [] | Some d \<Rightarrow> [d]"
    have "is_boundary (bs_current st) (Option.bind (Some d) (point_from (be_float E))) (Some d = None)" using True by simp
    from pass_turn_closes [OF assms Cons.prems c this] obtain t st' where
      st': "pass_turn E P (Some d) st = (t, st')" "sent view st' = fold upsert ?added (sent view st)" "bs_objects st' = bs_objects st + 1"
        "bs_fitted st' = bs_fitted st + length ?added"
        "if bp_limit P = Some (bs_objects st + 1) then t = PassEnds (Inr ()) \<and> bs_pending st' = []
         else t = PassGoes \<and> under_limit P st' \<and> bs_current st' = map_option (\<lambda>(n, p). (n, [p])) ?inc"
      by auto
    have objs: "limited_to (bp_limit P) (bs_objects st) (objects_from (bs_current st) (detections E (d # ds))) =
        c # limited_to (bp_limit P) (bs_objects st + 1) (objects_from (map_option (\<lambda>(n, p). (n, [p])) ?inc) (detections E ds))"
      using True Cons.prems unfolding split c
      by (simp add: boundary_next_object limited_to_step under_limit_def)
    show ?thesis
    proof (cases "bp_limit P = Some (bs_objects st + 1)")
      case True
      then have "limited_to (bp_limit P) (bs_objects st + 1) xs = []" for xs :: "'x list" by (simp add: limited_to_def)
      then show ?thesis unfolding objs using st' True
        by (simp add: documents_of_Cons) (simp add: documents_of_def map_filter_simps limited_to_def)
    next
      case False
      with st'(5) have goes: "t = PassGoes" "under_limit P st'" "bs_current st' = map_option (\<lambda>(n, p). (n, [p])) ?inc" by auto
      from Cons.IH [OF goes(2)] show ?thesis
        unfolding objs using st' goes by (auto simp: Let_def documents_of_Cons)
    qed
  qed
qed

text \<open>When the detections of an object arrive together, its run holds all of them.\<close>

definition arrive_together :: "(string \<times> 'p) list \<Rightarrow> bool" where
  "arrive_together r \<longleftrightarrow> distinct (map fst (group_objects r))"

lemma extend_object_names: "fst ` set (extend_object o1 gs) = insert (fst o1) (fst ` set gs)"
proof (cases gs)
  case (Cons g gs')
  then show ?thesis by (cases g; cases "fst o1 = fst g") (auto simp: extend_object_def)
qed (simp add: extend_object_def)

lemma group_objects_names: "fst ` set (group_objects r) = fst ` set r"
  by (induction r rule: group_objects.induct) (simp_all add: extend_object_names)

lemma group_objects_all:
  "arrive_together r \<Longrightarrow> (n, ps) \<in> set (group_objects r) \<Longrightarrow> ps = map snd (filter (\<lambda>d. fst d = n) r)"
proof (induction r arbitrary: n ps rule: group_objects.induct)
  case (2 m p r)
  show ?case
  proof (cases "group_objects r")
    case Nil
    then have "r = []" using group_objects_names [of r] by auto
    with 2 show ?thesis by (simp add: extend_object_def)
  next
    case (Cons g gs)
    obtain m' qs where g: "g = (m', qs)" by (cases g)
    show ?thesis
    proof (cases "m = m'")
      case True
      then have "arrive_together r" using 2(2) Cons g by (simp add: arrive_together_def extend_object_def)
      then show ?thesis using 2(1) [of m' qs] 2(1) [of n ps] 2(2,3) Cons g True
        by (force simp: extend_object_def arrive_together_def)
    next
      case False
      then have together: "arrive_together r" and fresh: "m \<notin> fst ` set r"
        using 2(2) Cons g group_objects_names [of r] by (auto simp: arrive_together_def extend_object_def)
      then have "filter (\<lambda>d. fst d = m) r = []" by (auto simp: filter_empty_conv)
      then show ?thesis using 2(1) [OF together, of n ps] 2(3) Cons g False fresh group_objects_names [of r]
        by (force simp: extend_object_def)
    qed
  qed
qed simp

text \<open>What the documents of distinct objects leave in the collection.\<close>

lemma object_document_id: "object_document E (n, ps) = Some d \<Longrightarrow> get_str ''_id'' d = Some n"
  by (auto simp: object_document_def Let_def baseline_document_def get_str_def split: if_splits)

lemma upserted_objects:
  "distinct (map fst objs) \<Longrightarrow>
   fold upsert (documents_of E objs) m name =
     (case Option.bind (map_of objs name) (\<lambda>points. object_document E (name, points)) of
        None \<Rightarrow> m name | Some d \<Rightarrow> Some d)"
proof (induction objs arbitrary: m)
  case Nil
  then show ?case by (simp add: documents_of_def map_filter_simps)
next
  case (Cons g objs)
  obtain n ps where g: "g = (n, ps)" by fastforce
  have fresh: "map_of objs n = None" using Cons.prems g by (simp add: map_of_eq_None_iff)
  show ?case
  proof (cases "object_document E (n, ps)")
    case None
    then show ?thesis using Cons fresh g by (auto simp: documents_of_Cons)
  next
    case (Some d)
    have "upsert d m = m(n \<mapsto> d)" using object_document_id [OF Some] by (simp add: upsert_def)
    then show ?thesis using Cons fresh g Some by (auto simp: documents_of_Cons split: option.split)
  qed
qed

text \<open>
  C36: A pass that is neither cancelled nor refused a write nor a dry run takes the objects one by one, up to
  the limit, each with all of its usable detections if the cursor yields an object's detections
  together, and ends.  Afterwards the collection holds for every object it took that has a band
  with a curve the document with its curves; every other object's stored document, that of an object
  whose bands all have too few usable points included, is what it was before.  This does not
  depend on the batch size.
\<close>

theorem full_pass_writes_every_object:
  assumes "be_cursor E = Inr (map Inr ds)" and "plain_pass E P view" and "bp_limit P \<noteq> Some 0"
    and "arrive_together (detections E ds)"
  shows "\<exists>result st objs. run_sso_baselines E P ctx w b = (Inr result, st) \<and>
    objs = (case bp_limit P of None \<Rightarrow> group_objects (detections E ds) | Some n \<Rightarrow> take n (group_objects (detections E ds))) \<and>
    bs_objects st = length objs \<and>
    list_all (\<lambda>(n, ps). ps = map snd (filter (\<lambda>d. fst d = n) (detections E ds))) objs \<and>
    (\<forall>name. view (bs_store st) name =
       (case map_of objs name of
          None \<Rightarrow> view b name
        | Some points \<Rightarrow>
            if fit_bands E points = [] then view b name
            else Some (baseline_document name (fit_bands E points) (be_now E))))"
proof -
  let ?st = "\<lparr>bs_ctx = ctx, bs_world = w, bs_store = b, bs_pending = [], bs_objects = 0, bs_fitted = 0, bs_written = 0,
                bs_current = None, bs_done = False, bs_polls = 0\<rparr>"
  define objs where "objs = limited_to (bp_limit P) 0 (group_objects (detections E ds))"
  have objs: "objs = (case bp_limit P of None \<Rightarrow> group_objects (detections E ds) | Some n \<Rightarrow> take n (group_objects (detections E ds)))"
    by (cases "bp_limit P") (simp_all add: objs_def limited_to_def)
  have "under_limit P ?st" using assms(3) by (cases "bp_limit P") (auto simp: under_limit_def)
  from baseline_pass_sends [OF assms(2) this, of ds] obtain st' where
    pass: "baseline_pass E P (map Inr ds) ?st = (Inr (), st')"
    and sent: "view (bs_store st') = fold upsert (documents_of E objs) (view b)"
    and objects: "bs_objects st' = length objs"
    by (auto simp: Let_def objects_from_def objs_def)
  have all: "list_all (\<lambda>(n, ps). ps = map snd (filter (\<lambda>d. fst d = n) (detections E ds))) objs"
    using group_objects_all [OF assms(4)]
    by (cases "bp_limit P") (auto simp: objs list_all_iff dest!: in_set_takeD)
  have "distinct (map fst objs)"
    using assms(4) by (cases "bp_limit P") (simp_all add: objs arrive_together_def distinct_take flip: take_map)
  from upserted_objects [OF this, of E "view b"] have store: "view (bs_store st') name =
      (case map_of objs name of
          None \<Rightarrow> view b name
        | Some points \<Rightarrow>
            if fit_bands E points = [] then view b name
            else Some (baseline_document name (fit_bands E points) (be_now E)))" for name
    unfolding sent by (auto simp: object_document_def Let_def split: option.split)
  obtain result st where run: "run_sso_baselines E P ctx w b = (Inr result, st)" "bs_store st = bs_store st'" "bs_objects st = bs_objects st'"
    using pass assms(1) by (auto simp: run_sso_baselines_def Let_def split: prod.split)
  show ?thesis
    by (intro exI [of _ result] exI [of _ st] exI [of _ objs] conjI allI)
      (use run objs objects all store in simp_all)
qed

section \<open>Only a pass that ends well leaves an entry in the ledger\<close>

lemma ctx_progress_mutations [simp]: "mutations (ctx_progress D dn tot msg c s) = mutations s"
  by (simp add: ctx_progress_def)

lemma close_object_world [simp]: "bs_world (close_object E P c st) = bs_world st"
  by (cases c) (simp add: close_object_def Let_def)

lemma flush_pending_mutations: "flush_pending E P ex st = (r, st') \<Longrightarrow> mutations (bs_world st') = mutations (bs_world st)"
  by (auto simp: flush_pending_def Let_def split: if_splits prod.splits sum.splits)

lemma add_incoming_world [simp]: "bs_world (add_incoming inc st) = bs_world st"
  by (simp add: add_incoming_def split: option.split)

lemma pass_turn_mutations:
  assumes "pass_turn E P next_doc st = (t, st')"
  shows "mutations (bs_world st') = mutations (bs_world st)"
proof -
  let ?inc = "Option.bind next_doc (point_from (be_float E))"
  let ?st = "if is_boundary (bs_current st) ?inc (next_doc = None) \<or> next_doc = None \<and> bs_current st \<noteq> None
    then case bs_current st of Some c \<Rightarrow> close_object E P c st | None \<Rightarrow> st else st"
  obtain r st1 where f: "flush_pending E P (next_doc = None) ?st = (r, st1)" by (cases "flush_pending E P (next_doc = None) ?st")
  have "mutations (bs_world st1) = mutations (bs_world ?st)" by (rule flush_pending_mutations [OF f])
  moreover have "bs_world ?st = bs_world st" by (simp split: option.split)
  moreover have "bs_world st' = bs_world st1"
    using assms f by (cases r) (auto simp: pass_turn_def Let_def split: if_splits)
  ultimately show ?thesis by simp
qed

lemma baseline_pass_mutations: "baseline_pass E P ds st = (r, st') \<Longrightarrow> mutations (bs_world st') = mutations (bs_world st)"
proof (induction E P ds st rule: baseline_pass.induct)
  case (1 E P st)
  then show ?case by (auto dest: pass_turn_mutations split: prod.splits pass_turn.splits)
next
  case (2 E P e ds st)
  then show ?case by simp
next
  case (3 E P d ds st)
  obtain t st1 where t: "pass_turn E P (Some d) st = (t, st1)" by (cases "pass_turn E P (Some d) st")
  with 3 pass_turn_mutations [OF t] show ?case by (cases t) auto
qed

text \<open>
  a pass that fails or is cancelled leaves no entry in the ledger of mutations, although the batches
  before it have been written.
\<close>

theorem stopped_pass_leaves_no_entry:
  assumes "run_sso_baselines E P ctx w b = (Inl e, st)"
  shows "mutations (bs_world st) = mutations w"
  using assms baseline_pass_mutations
  by (fastforce simp: run_sso_baselines_def Let_def split: sum.splits prod.splits)

section \<open>A pass to evaluate on\<close>

text \<open>Arithmetic in which every result is one and every comparison holds.\<close>

definition flat_arith :: "f64 fn_arith" where
  "flat_arith = \<lparr>n_add = (\<lambda>_ _. Num 1), n_sub = (\<lambda>_ _. Num 1), n_mul = (\<lambda>_ _. Num 1), n_div = (\<lambda>_ _. Num 1),
     n_square = (\<lambda>_. Num 1), n_sqrt = (\<lambda>_. Num 1), n_abs = (\<lambda>_. Num 1), n_lit = (\<lambda>_. Num 1), n_less = (\<lambda>_ _. True),
     n_le = (\<lambda>_ _. True), n_finite = (\<lambda>_. True), n_log10 = (\<lambda>_. Num 1), n_powf = (\<lambda>_ _. Num 1),
     n_radians = (\<lambda>_. Num 1), n_max = (\<lambda>_ _. Num 1), n_sort = (\<lambda>xs. xs)\<rparr>"

definition demo_detection :: "string \<Rightarrow> bdoc" where
  "demo_detection name =
     [(''candidate'', BDocument [(''ssnamenr'', BString name), (''magpsf'', BOther (SDouble (Num 18))),
        (''sigmapsf'', BOther (SDouble (Num 1))), (''fid'', BOther (SDouble (Num 1)))]),
      (''properties'', BDocument [(''sso'', BDocument [(''helio_dist'', BOther (SDouble (Num 1))),
        (''topo_dist'', BOther (SDouble (Num 1))), (''phase_angle'', BOther (SDouble (Num 1)))])])]"

definition demo_pass :: "(nat \<Rightarrow> bool) \<Rightarrow> (bdoc list, task list, task_log_chunk list, scalar mutation_record list) baselines_env" where
  "demo_pass canceled =
     \<lparr>be_float = ones, be_arith = flat_arith, be_order = (\<lambda>bs. bs),
      be_cursor = Inr (map Inr (replicate 8 (demo_detection ''1'') @ [demo_detection ''2''])),
      be_bulk = (\<lambda>ds b. (Inr (length ds), b @ ds)), be_driver = list_driver, be_canceled = canceled, be_db_name = ''boom'',
      be_now = Num 0, be_ts = 0, be_uuid = ''u'', be_code_version = BOther SNull\<rparr>"

definition demo_params :: sso_baselines_params where
  "demo_params = \<lparr>bp_batch_size = 1, bp_dry_run = False, bp_limit = None\<rparr>"

definition empty_world :: "(task list, task_log_chunk list, scalar mutation_record list) world" where
  "empty_world = \<lparr>runs = [], run_logs = [], mutations = []\<rparr>"

lemma demo_point: "point_from ones (demo_detection n) =
    Some (n, \<lparr>pt_rh = Num 1, pt_delta = Num 1, pt_phase = Num 1, pt_mag = Num 18, pt_mag_err = Num 1, pt_band = 1\<rparr>)"
  by (simp add: point_from_def demo_detection_def get_document_def get_str_def number_at_def bson_number_def f64_as_nat_def)

lemma flat_simps [simp]:
  "n_less flat_arith x y" "n_le flat_arith x y" "n_finite flat_arith x" "n_sort flat_arith xs = xs"
  by (simp_all add: flat_arith_def)

lemma flat_trial: "kept \<noteq> [] \<Longrightarrow> \<exists>c. trial_curve flat_arith kept n g = Some c"
  by (cases kept) (simp_all add: trial_curve_def residuals_of_def median_def median_deviation_def Let_def list_ex_iff)

lemma flat_scan: "kept \<noteq> [] \<Longrightarrow> candidates \<noteq> [] \<Longrightarrow> \<exists>c. scan flat_arith candidates kept n = Some c"
proof -
  assume kept: "kept \<noteq> []"
  have step: "\<exists>c. keep_better flat_arith (trial_curve flat_arith kept n g) best = Some c" for g best
    using flat_trial [OF kept, of n g] by (cases best) (auto simp: keep_better_def)
  have "\<exists>c. fold (\<lambda>g12 best. keep_better flat_arith (trial_curve flat_arith kept n g12) best) gs (Some b) = Some c" for gs b
    by (induction gs arbitrary: b) (use step in \<open>auto; metis\<close>)+
  then show "\<exists>c. scan flat_arith candidates kept n = Some c" if "candidates \<noteq> []"
    using that step by (cases candidates) (auto simp: scan_def; metis)+
qed

lemma flat_fit:
  assumes "8 \<le> length ps"
  shows "fit_curve flat_arith ps \<noteq> None"
proof -
  let ?pairs = "map (\<lambda>p. (reduced_magnitude flat_arith p, pt_phase p)) ps"
  have all: "filter (usable_point flat_arith) ps = ps" by (simp add: usable_point_def finite_values_def)
  have "slope_candidates flat_arith (map pt_phase ps) \<noteq> []" by (simp add: slope_candidates_def)
  moreover have "?pairs \<noteq> []" using assms by auto
  ultimately obtain c where "scan flat_arith (slope_candidates flat_arith (map pt_phase ps)) ?pairs (length ps) = Some c"
    using flat_scan by blast
  moreover have "surviving_points flat_arith c ?pairs = ?pairs" for c
    unfolding surviving_points_def by (rule filter_True) (auto simp: split_def)
  ultimately show ?thesis using assms by (simp add: fit_curve_def all MIN_POINTS_def Let_def)
qed

theorem full_pass_writes_every_object_witness:
  "\<exists>result st. run_sso_baselines (demo_pass (\<lambda>_. False)) demo_params detached_context empty_world [] = (Inr result, st) \<and>
     bs_objects st = 2 \<and> fold upsert (bs_store st) Map.empty ''1'' \<noteq> None \<and> fold upsert (bs_store st) Map.empty ''2'' = None"
proof -
  let ?ds = "replicate 8 (demo_detection ''1'') @ [demo_detection ''2'']"
  let ?p = "\<lparr>pt_rh = Num 1, pt_delta = Num 1, pt_phase = Num 1, pt_mag = Num 18, pt_mag_err = Num 1, pt_band = 1\<rparr> :: f64 point"
  have seen: "detections (demo_pass (\<lambda>_. False)) ?ds = replicate 8 (''1'', ?p) @ [(''2'', ?p)]"
    by (simp add: detections_def demo_pass_def demo_point map_filter_simps eval_nat_numeral)
  have groups: "group_objects (detections (demo_pass (\<lambda>_. False)) ?ds) = [(''1'', replicate 8 ?p), (''2'', [?p])]"
    unfolding seen by (simp add: extend_object_def eval_nat_numeral)
  have cursor: "be_cursor (demo_pass (\<lambda>_. False)) = Inr (map Inr ?ds)" by (simp add: demo_pass_def)
  have plain: "plain_pass (demo_pass (\<lambda>_. False)) demo_params (\<lambda>b. fold upsert b Map.empty)"
    by (simp add: plain_pass_def accepts_writes_def never_canceled_def demo_pass_def demo_params_def)
  have limit: "bp_limit demo_params \<noteq> Some 0" by (simp add: demo_params_def)
  have together: "arrive_together (detections (demo_pass (\<lambda>_. False)) ?ds)" by (simp add: arrive_together_def groups)
  have fit: "fit_bands (demo_pass (\<lambda>_. False)) (replicate 8 ?p) \<noteq> []"
    using flat_fit [of "replicate 8 ?p"]
    by (auto simp: fit_bands_def demo_pass_def map_filter_simps filter_replicate eval_nat_numeral)
  have unfit: "fit_bands (demo_pass (\<lambda>_. False)) [?p] = []"
    by (simp add: fit_bands_def demo_pass_def map_filter_simps fit_curve_def MIN_POINTS_def usable_point_def finite_values_def)
  obtain result st objs where "run_sso_baselines (demo_pass (\<lambda>_. False)) demo_params detached_context empty_world [] = (Inr result, st)"
    "objs = [(''1'', replicate 8 ?p), (''2'', [?p])]" "bs_objects st = length objs"
    "\<forall>name. fold upsert (bs_store st) Map.empty name =
       (case map_of objs name of
          None \<Rightarrow> None
        | Some points \<Rightarrow>
            if fit_bands (demo_pass (\<lambda>_. False)) points = [] then None
            else Some (baseline_document name (fit_bands (demo_pass (\<lambda>_. False)) points) (be_now (demo_pass (\<lambda>_. False)))))"
    using full_pass_writes_every_object [OF cursor plain limit together, of detached_context empty_world "[]"]
    unfolding groups by (auto simp: demo_params_def)
  with fit unfit show ?thesis by auto
qed

text \<open>A pass cancelled after its first write.\<close>

abbreviation "demo_pt \<equiv>
  \<lparr>pt_rh = Num 1, pt_delta = Num 1, pt_phase = Num 1, pt_mag = Num 18, pt_mag_err = Num 1, pt_band = 1\<rparr> :: f64 point"

lemma demo_turn:
  assumes "bs_pending st = []" and "\<not> bs_done st" and "\<not> canceled (bs_polls st)"
    and "pred_option (\<lambda>c. fst c = ''1'') (bs_current st)"
  shows "pass_turn (demo_pass canceled) demo_params (Some (demo_detection ''1'')) st =
    (PassGoes, st\<lparr>bs_polls := bs_polls st + 1,
       bs_current := Some (''1'', (case bs_current st of None \<Rightarrow> [] | Some (_, ps) \<Rightarrow> ps) @ [demo_pt])\<rparr>)"
proof -
  have f: "flush_pending (demo_pass canceled) demo_params False st = (Inr (), st)"
    using assms(1,2) by (simp add: flush_pending_def demo_params_def)
  have stay: "\<not> is_boundary (bs_current st) (Some (''1'', demo_pt)) False"
    using assms(4) by (auto simp: is_boundary_def split: option.split)
  have fields: "point_from (be_float (demo_pass canceled)) (demo_detection ''1'') = Some (''1'', demo_pt)"
      "be_canceled (demo_pass canceled) = canceled"
    by (simp_all add: demo_pass_def demo_point)
  have "pass_turn (demo_pass canceled) demo_params (Some (demo_detection ''1'')) st =
      (PassGoes, add_incoming (Some (''1'', demo_pt)) (st\<lparr>bs_polls := bs_polls st + 1\<rparr>))"
    using assms(2,3) stay by (simp add: pass_turn_def fields f)
  then show ?thesis using assms(4) by (cases "bs_current st") (auto simp: add_incoming_def)
qed

lemma demo_turns:
  assumes "\<And>k. k < bs_polls st + n \<Longrightarrow> \<not> canceled k"
  shows "bs_pending st = [] \<Longrightarrow> \<not> bs_done st \<Longrightarrow> bs_current st = Some (''1'', ps) \<Longrightarrow>
    baseline_pass (demo_pass canceled) demo_params (map Inr (replicate n (demo_detection ''1'')) @ r) st =
    baseline_pass (demo_pass canceled) demo_params r
      (st\<lparr>bs_polls := bs_polls st + n, bs_current := Some (''1'', ps @ replicate n demo_pt)\<rparr>)"
  using assms
proof (induction n arbitrary: st ps)
  case (Suc n)
  let ?st = "st\<lparr>bs_polls := bs_polls st + 1, bs_current := Some (''1'', ps @ [demo_pt])\<rparr>"
  have "pass_turn (demo_pass canceled) demo_params (Some (demo_detection ''1'')) st = (PassGoes, ?st)"
    using demo_turn [of st canceled] Suc.prems by simp
  moreover have "baseline_pass (demo_pass canceled) demo_params (map Inr (replicate n (demo_detection ''1'')) @ r) ?st =
      baseline_pass (demo_pass canceled) demo_params r
        (?st\<lparr>bs_polls := bs_polls ?st + n, bs_current := Some (''1'', (ps @ [demo_pt]) @ replicate n demo_pt)\<rparr>)"
    by (rule Suc.IH) (use Suc.prems in auto)
  ultimately show ?case by simp
next
  case 0
  then show ?case by (cases st) simp
qed

lemma canceled_after_a_write:
  "\<exists>st. run_sso_baselines (demo_pass (\<lambda>k. k = 8)) demo_params detached_context empty_world [] = (Inl ErrCanceled, st) \<and>
     bs_store st \<noteq> []"
proof -
  let ?E = "demo_pass (\<lambda>k. k = 8)"
  let ?st0 = "\<lparr>bs_ctx = detached_context, bs_world = empty_world, bs_store = [] :: bdoc list, bs_pending = [], bs_objects = 0,
    bs_fitted = 0, bs_written = 0, bs_current = None, bs_done = False, bs_polls = 0\<rparr>"
  let ?st1 = "?st0\<lparr>bs_polls := 1, bs_current := Some (''1'', [demo_pt])\<rparr>"
  let ?st8 = "?st0\<lparr>bs_polls := 8, bs_current := Some (''1'', replicate 8 demo_pt)\<rparr>"
  have fit: "fit_bands ?E (replicate 8 demo_pt) \<noteq> []"
    using flat_fit [of "replicate 8 demo_pt"]
    by (auto simp: fit_bands_def demo_pass_def map_filter_simps filter_replicate eval_nat_numeral)
  have "pass_turn ?E demo_params (Some (demo_detection ''1'')) ?st0 = (PassGoes, ?st1)"
    using demo_turn [of ?st0 "\<lambda>k. k = 8"] by simp
  then have "baseline_pass ?E demo_params (map Inr (replicate 8 (demo_detection ''1'') @ [demo_detection ''2''])) ?st0 =
      baseline_pass ?E demo_params (map Inr (replicate 7 (demo_detection ''1'')) @ [Inr (demo_detection ''2'')]) ?st1"
    by (simp add: eval_nat_numeral)
  also have "\<dots> = baseline_pass ?E demo_params [Inr (demo_detection ''2'')] ?st8"
    using demo_turns [of ?st1 7 "\<lambda>k. k = 8" "[demo_pt]" "[Inr (demo_detection ''2'')]"] by (simp add: eval_nat_numeral)
  finally have run: "baseline_pass ?E demo_params (map Inr (replicate 8 (demo_detection ''1'') @ [demo_detection ''2''])) ?st0 =
      baseline_pass ?E demo_params [Inr (demo_detection ''2'')] ?st8" .
  have fields: "point_from (be_float ?E) (demo_detection ''2'') = Some (''2'', demo_pt)" "be_canceled ?E = (\<lambda>k. k = 8)"
      "be_bulk ?E = (\<lambda>ds b. (Inr (length ds), b @ ds))" "be_driver ?E = list_driver"
      "be_cursor ?E = Inr (map Inr (replicate 8 (demo_detection ''1'') @ [demo_detection ''2'']))"
    by (simp_all add: demo_pass_def demo_point)
  let ?doc = "baseline_document ''1'' (fit_bands ?E (replicate 8 demo_pt)) (be_now ?E)"
  let ?closed = "?st8\<lparr>bs_current := None, bs_objects := 1, bs_fitted := 1, bs_pending := [?doc]\<rparr>"
  have closed: "close_object ?E demo_params (''1'', replicate 8 demo_pt) ?st8 = ?closed"
    using fit by (simp add: close_object_def demo_params_def)
  obtain st where flushed: "flush_pending ?E demo_params False ?closed = (Inr (), st)" "bs_store st = [?doc]" "bs_polls st = 8"
    by (simp add: flush_pending_def demo_params_def fields)
  have "\<exists>st'. pass_turn ?E demo_params (Some (demo_detection ''2'')) ?st8 = (PassEnds (Inl ErrCanceled), st') \<and> bs_store st' = [?doc]"
    using closed flushed by (simp add: pass_turn_def fields is_boundary_def)
  then show ?thesis unfolding run_sso_baselines_def Let_def fields(5) sum.case run by auto
qed

theorem stopped_pass_leaves_no_entry_witness:
  "\<exists>st. run_sso_baselines (demo_pass (\<lambda>k. k = 8)) demo_params detached_context empty_world [] = (Inl ErrCanceled, st) \<and>
     bs_store st \<noteq> [] \<and> mutations (bs_world st) = []"
proof -
  obtain st where st: "run_sso_baselines (demo_pass (\<lambda>k. k = 8)) demo_params detached_context empty_world [] = (Inl ErrCanceled, st)"
      "bs_store st \<noteq> []"
    using canceled_after_a_write by blast
  from stopped_pass_leaves_no_entry [OF st(1)] st show ?thesis by (simp add: empty_world_def)
qed

theorem baselines_round_trip_witness:
  "curves_from_document (ones\<lparr>d_lit := Num\<rparr>)
     (baseline_document ''1'' [(1, \<lparr>pc_h = Num 15, pc_g12 = Num 0, pc_scatter = Num 1, pc_n = 120\<rparr>)] (Num 0)) 1 =
   Some \<lparr>pc_h = Num 15, pc_g12 = Num 0, pc_scatter = Num 1, pc_n = 120\<rparr>"
proof -
  have "exact_counts (ones\<lparr>d_lit := Num\<rparr>)" by (simp add: exact_counts_def)
  from baselines_round_trip [OF this, of "[(1, \<lparr>pc_h = Num 15, pc_g12 = Num 0, pc_scatter = Num 1, pc_n = 120\<rparr>)]"]
  show ?thesis by simp
qed

end
