(* ===== verification/Ztf_Enrichment.thy ===== *)
theory Ztf_Enrichment
  imports Sso_Baselines Stage_Workers
begin

text \<open>
  The enrichment of ZTF alerts (\<open>src/src/enrichment/ztf.rs\<close>): the photometry read from the database and its
  conversions, the properties computed for an alert, and the batch from the queued ids to the texts
  handed on.  The points of other surveys come from \<open>src/src/enrichment/lsst.rs\<close> and \<open>decam.rs\<close>.  The
  geometry of an orbit, the classifiers and the database are parameters.  Dates are finite.
\<close>

section \<open>Photometry\<close>

record ztf_photometry =
  z_jd :: real
  z_magpsf :: "f64 option"
  z_sigmapsf :: "f64 option"
  z_diffmaglim :: f64
  z_flux :: "f64 option"
  z_flux_err :: f64
  z_band :: band
  z_ra :: "f64 option"
  z_dec :: "f64 option"
  z_snr_psf :: "f64 option"
  z_programid :: i32

record ztf_alert_photometry =
  za_jd :: real
  za_magpsf :: "f64 option"
  za_sigmapsf :: "f64 option"
  za_diffmaglim :: f64
  za_flux :: "f64 option"
  za_flux_err :: f64
  za_band :: band
  za_ra :: "f64 option"
  za_dec :: "f64 option"
  za_snr_psf :: "f64 option"
  za_snr_legacy :: "f64 option"
  za_programid :: i32

record ztf_forced_photometry =
  zf_jd :: real
  zf_magpsf :: "f64 option"
  zf_sigmapsf :: "f64 option"
  zf_diffmaglim :: f64
  zf_flux :: "f64 option"
  zf_flux_err :: f64
  zf_band :: band
  zf_magzpsci :: "f64 option"
  zf_ra :: "f64 option"
  zf_dec :: "f64 option"
  zf_snr_psf :: "f64 option"
  zf_snr_legacy :: "f64 option"
  zf_programid :: i32
  zf_procstatus :: "string option"

definition or_else :: "'a option \<Rightarrow> 'a option \<Rightarrow> 'a option" where
  "or_else a b = (case a of Some x \<Rightarrow> Some x | None \<Rightarrow> b)"

definition photometry_of_alert :: "ztf_alert_photometry \<Rightarrow> (enrichment_worker_error, ztf_photometry) result" where
  "photometry_of_alert p =
     Inr \<lparr>z_jd = za_jd p, z_magpsf = za_magpsf p, z_sigmapsf = za_sigmapsf p, z_diffmaglim = za_diffmaglim p,
       z_flux = za_flux p, z_flux_err = za_flux_err p, z_band = za_band p, z_ra = za_ra p, z_dec = za_dec p,
       z_snr_psf = or_else (za_snr_psf p) (za_snr_legacy p), z_programid = za_programid p\<rparr>"

definition missing_value :: "f64 \<Rightarrow> bool" where
  "missing_value x \<longleftrightarrow> f64_eq x (Num (- 99999)) \<or> is_nan x"

definition photometry_of_forced ::
  "float_unit \<Rightarrow> ztf_forced_photometry \<Rightarrow> (enrichment_worker_error, ztf_photometry) result" where
  "photometry_of_forced F p =
     (case zf_procstatus p of
        None \<Rightarrow> Inl (Serialization ''missing procstatus'')
      | Some procstatus \<Rightarrow>
          if procstatus \<noteq> ''0'' then Inl (BadProcstatus procstatus)
          else
            case zf_magzpsci p of
              None \<Rightarrow> Inl MissingMagZPSci
            | Some magzpsci \<Rightarrow>
                let scaling = d_powf F (d_lit F 10) (d_div F (d_sub F (as_f64 F (ZTF_ZP F)) magzpsci) (d_lit F (5 / 2)));
                    to_njy = \<lambda>f. d_mul F (d_mul F f (d_lit F (10 ^ 9))) scaling
                in if missing_value (zf_flux_err p) then Inl MissingFluxPSF
                   else Inr \<lparr>z_jd = zf_jd p, z_magpsf = zf_magpsf p, z_sigmapsf = zf_sigmapsf p,
                     z_diffmaglim = zf_diffmaglim p,
                     z_flux = Option.bind (zf_flux p) (\<lambda>f. if missing_value f then None else Some (to_njy f)),
                     z_flux_err = to_njy (zf_flux_err p), z_band = zf_band p, z_ra = zf_ra p, z_dec = zf_dec p,
                     z_snr_psf = or_else (zf_snr_psf p) (zf_snr_legacy p), z_programid = zf_programid p\<rparr>)"

text \<open>Points that cannot be converted are dropped (with a log line), a missing list is empty.\<close>

definition convert_photometry ::
  "('p \<Rightarrow> (enrichment_worker_error, ztf_photometry) result) \<Rightarrow> 'p list option \<Rightarrow> ztf_photometry list" where
  "convert_photometry conv points =
     List.map_filter (\<lambda>p. case conv p of Inr z \<Rightarrow> Some z | Inl _ \<Rightarrow> None)
       (case points of Some ps \<Rightarrow> ps | None \<Rightarrow> [])"

definition ztf_alert_lightcurve :: "ztf_alert_photometry list option \<Rightarrow> ztf_photometry list" where
  "ztf_alert_lightcurve = convert_photometry photometry_of_alert"

definition ztf_forced_lightcurve :: "float_unit \<Rightarrow> ztf_forced_photometry list option \<Rightarrow> ztf_photometry list" where
  "ztf_forced_lightcurve F = convert_photometry (photometry_of_forced F)"

definition below_snr :: "f64 \<Rightarrow> f64 option \<Rightarrow> bool" where
  "below_snr snr min_snr = (case min_snr of Some thresh \<Rightarrow> f64_lt (f64_abs snr) thresh | None \<Rightarrow> False)"

definition ztf_to_photometry_mag :: "float_unit \<Rightarrow> f64 option \<Rightarrow> ztf_photometry \<Rightarrow> photometry_mag option" where
  "ztf_to_photometry_mag F min_snr z =
     (case (z_snr_psf z, z_magpsf z, z_sigmapsf z) of
        (Some snr, Some mag, Some sig) \<Rightarrow>
          if below_snr snr min_snr then None
          else Some \<lparr>m_time = z_jd z, m_mag = as_f32 F mag, m_mag_err = as_f32 F sig, m_band = z_band z\<rparr>
      | _ \<Rightarrow> None)"

record lsst_photometry =
  l_jd :: real
  l_magpsf :: "f32 option"
  l_sigmapsf :: "f32 option"
  l_diffmaglim :: f32
  l_flux :: "f64 option"
  l_flux_err :: f64
  l_band :: band
  l_ra :: "f64 option"
  l_dec :: "f64 option"
  l_snr_psf :: "f64 option"

definition lsst_to_photometry_mag :: "f64 option \<Rightarrow> lsst_photometry \<Rightarrow> photometry_mag option" where
  "lsst_to_photometry_mag min_snr l =
     (case (l_snr_psf l, l_magpsf l, l_sigmapsf l) of
        (Some snr, Some mag, Some sig) \<Rightarrow>
          if below_snr snr min_snr then None
          else Some \<lparr>m_time = l_jd l, m_mag = mag, m_mag_err = sig, m_band = l_band l\<rparr>
      | _ \<Rightarrow> None)"

record decam_photometry =
  dc_time :: real
  dc_mag :: f32
  dc_mag_err :: f32
  dc_band :: band
  dc_snr :: "f64 option"

definition decam_to_photometry_mag :: "decam_photometry \<Rightarrow> photometry_mag" where
  "decam_to_photometry_mag p = \<lparr>m_time = dc_time p, m_mag = dc_mag p, m_mag_err = dc_mag_err p, m_band = dc_band p\<rparr>"

record lsst_match =
  lm_object_id :: string
  lm_ra :: f64
  lm_dec :: f64
  lm_prv_candidates :: "lsst_photometry list"
  lm_fp_hists :: "lsst_photometry list"

record decam_match =
  dm_prv_candidates :: "decam_photometry list"
  dm_fp_hists :: "decam_photometry list"

definition decam_lightcurve :: "real \<Rightarrow> decam_match \<Rightarrow> photometry_mag list" where
  "decam_lightcurve jd m =
     map decam_to_photometry_mag (filter (\<lambda>p. dc_time p \<le> jd) (dm_prv_candidates m @ dm_fp_hists m))"

fun f64_neg :: "f64 \<Rightarrow> f64" where
  "f64_neg (Num r) = (if r = 0 then NegZero else Num (- r))"
| "f64_neg NegZero = Num 0"
| "f64_neg PosInf = NegInf"
| "f64_neg NegInf = PosInf"
| "f64_neg (NaN s p) = NaN (\<not> s) p"

definition signed_snr :: "f64 option \<Rightarrow> f64 option \<Rightarrow> f64 option" where
  "signed_snr snr flux = map_option (\<lambda>s. if pred_option (\<lambda>f. f64_lt f (Num 0)) flux \<and> flux \<noteq> None then f64_neg s else s) snr"

section \<open>Solar system objects\<close>

record sso_geometry =
  g_helio_dist :: f64
  g_topo_dist :: f64
  g_phase_angle :: f64
  g_true_anomaly :: f64
  g_perihelion_time :: f64

record ztf_sso_association =
  so_is_sso :: bool
  so_designation :: "string option"
  so_separation_arcsec :: "f32 option"
  so_predicted_mag :: "f32 option"
  so_source :: "string option"
  so_helio_dist :: "f32 option"
  so_topo_dist :: "f32 option"
  so_phase_angle :: "f32 option"
  so_true_anomaly :: "f32 option"
  so_perihelion_time :: "f64 option"

definition not_negative :: "f32 option \<Rightarrow> f32 option" where
  "not_negative x = (case x of Some v \<Rightarrow> if f32_le 0 v then Some v else None | None \<Rightarrow> None)"

definition from_ipac :: "string option \<Rightarrow> f32 option \<Rightarrow> f32 option \<Rightarrow> ztf_sso_association" where
  "from_ipac designation ssdistnr ssmagnr =
     \<lparr>so_is_sso = designation \<noteq> None, so_designation = designation, so_separation_arcsec = not_negative ssdistnr,
      so_predicted_mag = not_negative ssmagnr, so_source = (if designation \<noteq> None then Some ''ipac'' else None),
      so_helio_dist = None, so_topo_dist = None, so_phase_angle = None, so_true_anomaly = None, so_perihelion_time = None\<rparr>"

text \<open>What enriching an alert needs besides it; \<open>ee_bands\<close> is the order in which a hash map of bands is iterated.\<close>

record 'o enrich_env =
  ee_float :: float_unit
  ee_arith :: "f64 fn_arith"
  ee_rnd :: "real \<Rightarrow> real"
  ee_biggest :: real
  ee_geometry :: "'o \<Rightarrow> f64 \<Rightarrow> sso_geometry"
  ee_bands :: "photometry_mag list \<Rightarrow> band list"
  orbits :: "string \<rightharpoonup> 'o"
  sso_history :: "string \<rightharpoonup> (f64 \<times> f64 point) list"
  baselines :: "string \<rightharpoonup> (u8 \<rightharpoonup> f64 phase_curve)"

definition with_geometry :: "'o enrich_env \<Rightarrow> 'o option \<Rightarrow> f64 \<Rightarrow> ztf_sso_association \<Rightarrow> ztf_sso_association" where
  "with_geometry E elements jd a =
     (case elements of
        None \<Rightarrow> a
      | Some el \<Rightarrow>
          let g = ee_geometry E el jd; cast = as_f32 (ee_float E)
          in a\<lparr>so_helio_dist := Some (cast (g_helio_dist g)), so_topo_dist := Some (cast (g_topo_dist g)),
               so_phase_angle := Some (cast (g_phase_angle g)), so_true_anomaly := Some (cast (g_true_anomaly g)),
               so_perihelion_time := Some (g_perihelion_time g)\<rparr>)"

definition MAX_SEPARATION :: real where "MAX_SEPARATION = 20"

definition outburst_for :: "'o enrich_env \<Rightarrow> ztf_sso_association \<Rightarrow> candidate \<Rightarrow> outburst option" where
  "outburst_for E sso c =
     (case (so_separation_arcsec sso, so_helio_dist sso, so_topo_dist sso, so_phase_angle sso, so_designation sso) of
        (Some sep, Some rh, Some delta, Some phase, Some name) \<Rightarrow>
          let F = ee_float E;
              test = \<lparr>pt_rh = as_f64 F rh, pt_delta = as_f64 F delta, pt_phase = as_f64 F phase, pt_mag = as_f64 F (c_magpsf c),
                      pt_mag_err = as_f64 F (c_sigmapsf c), pt_band = ucast (c_fid c)\<rparr>;
              history = filter (\<lambda>(jd, _). f64_lt jd (c_jd c)) (case sso_history E name of Some ps \<Rightarrow> ps | None \<Rightarrow> []);
              curve = Option.bind (baselines E name) (\<lambda>b. b (pt_band test))
          in if f64_le (Num MAX_SEPARATION) (as_f64 F sep) then None
             else from_history F (ee_arith E) history test (c_jd c) curve
      | _ \<Rightarrow> None)"

section \<open>Activity\<close>

record activity_metrics =
  aperture_excess :: "f32 option"
  am_outburst :: "outburst option"

definition from_excess :: "f32 option \<Rightarrow> activity_metrics" where
  "from_excess e = \<lparr>aperture_excess = (case e of Some x \<Rightarrow> if f32_finite x then Some x else None | None \<Rightarrow> None), am_outburst = None\<rparr>"

definition from_magnitudes :: "float_unit \<Rightarrow> f32 option \<Rightarrow> f32 option \<Rightarrow> activity_metrics" where
  "from_magnitudes F magpsf magap =
     from_excess (case (magpsf, magap) of
       (Some psf, Some ap) \<Rightarrow> if f32_finite psf \<and> f32_finite ap then Some (f_sub F psf ap) else None
     | _ \<Rightarrow> None)"

text \<open>\<open>signum\<close> is the sign bit, and a NaN for a NaN.\<close>

definition same_signum :: "f32 \<Rightarrow> f32 \<Rightarrow> bool" where
  "same_signum x y \<longleftrightarrow> \<not> f32_nan x \<and> \<not> f32_nan y \<and> x AND 0x80000000 = y AND 0x80000000"

definition f32_zero :: "f32 \<Rightarrow> bool" where
  "f32_zero x \<longleftrightarrow> f32_place x = Some (0, 0)"

definition from_fluxes :: "float_unit \<Rightarrow> f32 option \<Rightarrow> f32 option \<Rightarrow> activity_metrics" where
  "from_fluxes F psf_flux ap_flux =
     from_excess (case (psf_flux, ap_flux) of
       (Some psf, Some ap) \<Rightarrow>
         if \<not> f32_zero psf \<and> \<not> f32_zero ap \<and> same_signum psf ap
         then Some (f_mul F (f_lit F (5 / 2)) (f_log10 F (f_div F ap psf))) else None
     | _ \<Rightarrow> None)"

section \<open>The properties of an alert\<close>

text \<open>
  \<open>ea_host\<close> is the association, if there is one, with its best host, if there is one; \<open>ea_lsst\<close> the
  points of the matched LSST object.
\<close>

record 'h ztf_alert_for_enrichment =
  ea_candid :: i64
  ea_object_id :: string
  ea_candidate :: ztf_candidate
  ea_prv_candidates :: "ztf_photometry list"
  ea_prv_nondetections :: "ztf_photometry list"
  ea_fp_hists :: "ztf_photometry list"
  ea_host :: "'h option option"
  ea_lsst :: "lsst_match option"
  ea_decam :: "decam_match option"

record ztf_alert_properties =
  zr_rock :: bool
  zr_star :: bool
  zr_near_brightstar :: bool
  zr_hosted :: "bool option"
  zr_stationary :: bool
  zr_photstats :: per_band_properties
  zr_multisurvey_photstats :: "per_band_properties option"
  zr_sso :: "ztf_sso_association option"
  zr_activity :: "activity_metrics option"
  zr_detection_history :: "detection_history option"
  zr_episode_history :: "episode_history option"

definition or_value :: "f32 \<Rightarrow> f32 option \<Rightarrow> f32" where
  "or_value d x = (case x of Some v \<Rightarrow> v | None \<Rightarrow> d)"

definition between :: "f32 \<Rightarrow> f32 \<Rightarrow> f32 \<Rightarrow> bool" where
  "between lo hi x \<longleftrightarrow> f32_le lo x \<and> f32_le x hi"

definition is_rock :: "float_unit \<Rightarrow> candidate \<Rightarrow> bool" where
  "is_rock F c =
     (let ssdistnr = or_value F32_INFINITY (c_ssdistnr c); ssmagnr = or_value F32_INFINITY (c_ssmagnr c)
      in f32_le 0 ssdistnr \<and> f32_less ssdistnr (f_lit F 12) \<and> f32_le 0 ssmagnr)"

definition is_star :: "float_unit \<Rightarrow> candidate \<Rightarrow> bool" where
  "is_star F c =
     (let sgscore1 = or_value 0 (c_sgscore1 c); dist = or_value F32_INFINITY (c_distpsnr1 c);
          srmag1 = or_value F32_INFINITY (c_srmag1 c); simag1 = or_value F32_INFINITY (c_simag1 c);
          szmag1 = or_value F32_INFINITY (c_szmag1 c);
          redder = \<lambda>m. f32_less 0 m \<and> f32_less (f_lit F 3) (f_sub F srmag1 m)
      in f32_less (f_lit F 0.76) sgscore1 \<and> between 0 (f_lit F 2) dist \<or>
         f32_less (f_lit F 0.2) sgscore1 \<and> between 0 (f_lit F 1) dist \<and> f32_less 0 srmag1 \<and> (redder szmag1 \<or> redder simag1))"

definition bright_neighbour :: "float_unit \<Rightarrow> f32 option \<Rightarrow> f32 option \<Rightarrow> f32 option \<Rightarrow> bool" where
  "bright_neighbour F sgscore distpsnr srmag =
     (let s = or_value 0 sgscore; d = or_value F32_INFINITY distpsnr; m = or_value F32_INFINITY srmag
      in f32_less (f_lit F 0.49) s \<and> f32_le d (f_lit F 20) \<and> f32_less 0 m \<and> f32_le m (f_lit F 15))"

definition is_near_brightstar :: "float_unit \<Rightarrow> candidate \<Rightarrow> bool" where
  "is_near_brightstar F c =
     (let gaia = or_value F32_INFINITY (c_neargaiabright c); maggaia = or_value F32_INFINITY (c_maggaiabright c);
          score = or_value 0 (c_sgscore1 c); dist = or_value F32_INFINITY (c_distpsnr1 c);
          bright = \<lambda>m. f32_less (or_value F32_INFINITY m) (f_lit F 17)
      in between 0 (f_lit F 20) gaia \<and> f32_less 0 maggaia \<and> f32_le maggaia (f_lit F 12) \<or>
         bright_neighbour F (c_sgscore1 c) (c_distpsnr1 c) (c_srmag1 c) \<or>
         bright_neighbour F (c_sgscore2 c) (c_distpsnr2 c) (c_srmag2 c) \<or>
         bright_neighbour F (c_sgscore3 c) (c_distpsnr3 c) (c_srmag3 c) \<or>
         between (f_lit F 0.5) (f_lit F 0.5) score \<and> f32_less dist (f_lit F 0.5) \<and>
           (bright (c_sgmag1 c) \<or> bright (c_srmag1 c) \<or> bright (c_simag1 c)))"

definition date :: "f64 \<Rightarrow> real" where
  "date x = (case num_value x of Some r \<Rightarrow> r | None \<Rightarrow> 0)"

definition alert_jd :: "'h ztf_alert_for_enrichment \<Rightarrow> real" where
  "alert_jd a = date (c_jd (candidate (ea_candidate a)))"

definition mags_until :: "real \<Rightarrow> ('p \<Rightarrow> real) \<Rightarrow> ('p \<Rightarrow> photometry_mag option) \<Rightarrow> 'p list \<Rightarrow> photometry_mag list" where
  "mags_until jd tm conv ps = List.map_filter conv (filter (\<lambda>p. tm p \<le> jd) ps)"

definition analyze_with :: "'o enrich_env \<Rightarrow> photometry_mag list \<Rightarrow> per_band_properties \<times> all_bands_properties \<times> bool" where
  "analyze_with E lc = analyze_photometry (ee_float E) (ee_rnd E) (ee_biggest E) (ee_bands E lc) lc"

definition get_alert_properties ::
  "'o enrich_env \<Rightarrow> 'h ztf_alert_for_enrichment \<Rightarrow>
   (enrichment_worker_error,
    ztf_alert_properties \<times> all_bands_properties \<times> i32 \<times> photometry_mag list \<times> photometry_mag list) result" where
  "get_alert_properties E a =
     (let F = ee_float E; c = candidate (ea_candidate a); jd = alert_jd a;
          activity = from_magnitudes F (Some (c_magpsf c)) (c_magap c);
          sso = with_geometry E (Option.bind (c_ssnamenr c) (orbits E)) (c_jd c) (from_ipac (c_ssnamenr c) (c_ssdistnr c) (c_ssmagnr c));
          activity = activity\<lparr>am_outburst := outburst_for E sso c\<rparr>;
          mags = \<lambda>min_snr ps. mags_until jd z_jd (ztf_to_photometry_mag F min_snr) ps;
          ztf_lc = prepare_photometry (mags None (ea_prv_candidates a) @ mags None (ea_fp_hists a))
      in if ztf_lc = [] then Inl (EmptyLightcurve (ea_candid a))
         else
           let (photstats, all_bands, _) = analyze_with E ztf_lc;
               stationary = is_stationary (ee_rnd E) (ee_biggest E) (map m_time
                 (mags None (ea_prv_candidates a) @ mags (Some (Num STATIONARY_MIN_FORCED_SNR)) (ea_fp_hists a)));
               lightcurve = (case ea_lsst a of
                   None \<Rightarrow> ztf_lc
                 | Some m \<Rightarrow> prepare_photometry (ztf_lc @
                     mags_until jd l_jd (lsst_to_photometry_mag None) (lm_prv_candidates m @ lm_fp_hists m)));
               multi = (if ea_lsst a = None then photstats else fst (analyze_with E lightcurve));
               decam_lc = (case ea_decam a of None \<Rightarrow> [] | Some m \<Rightarrow> decam_lightcurve jd m);
               multi = (if decam_lc = [] then multi else fst (analyze_with E (prepare_photometry (lightcurve @ decam_lc))));
               (detections, episodes) = summarise_detections (ee_rnd E)
                 (map (\<lambda>p. (z_jd p, case z_flux p of Some f \<Rightarrow> if is_nan f then None else Some (f64_lt f (Num 0)) | None \<Rightarrow> None))
                   (ea_prv_candidates a))
                 (map (\<lambda>p. (z_jd p, signed_snr (z_snr_psf p) (z_flux p))) (filter (\<lambda>p. z_magpsf p \<noteq> None) (ea_fp_hists a)))
                 jd EPISODE_GAP_DAYS;
               detections = add_nondetections jd (map (\<lambda>p. (z_jd p, as_f32 F (z_diffmaglim p))) (ea_prv_nondetections a)) detections
           in Inr (\<lparr>zr_rock = is_rock F c, zr_star = is_star F c, zr_near_brightstar = is_near_brightstar F c,
                    zr_hosted = map_option (\<lambda>best. best \<noteq> None) (ea_host a), zr_stationary = stationary,
                    zr_photstats = photstats, zr_multisurvey_photstats = Some multi, zr_sso = Some sso,
                    zr_activity = Some activity, zr_detection_history = Some detections, zr_episode_history = Some episodes\<rparr>,
                   all_bands, c_programid c, lightcurve, ztf_lc))"

section \<open>Only what was known at the alert counts\<close>

text \<open>
  What the alert's date leaves of its light curves, and of the histories of solar system objects.
\<close>

definition lsst_until :: "real \<Rightarrow> lsst_match \<Rightarrow> lsst_match" where
  "lsst_until jd m =
     m\<lparr>lm_prv_candidates := filter (\<lambda>p. l_jd p \<le> jd) (lm_prv_candidates m),
       lm_fp_hists := filter (\<lambda>p. l_jd p \<le> jd) (lm_fp_hists m)\<rparr>"

definition decam_until :: "real \<Rightarrow> decam_match \<Rightarrow> decam_match" where
  "decam_until jd m =
     m\<lparr>dm_prv_candidates := filter (\<lambda>p. dc_time p \<le> jd) (dm_prv_candidates m),
       dm_fp_hists := filter (\<lambda>p. dc_time p \<le> jd) (dm_fp_hists m)\<rparr>"

definition alert_until :: "real \<Rightarrow> 'h ztf_alert_for_enrichment \<Rightarrow> 'h ztf_alert_for_enrichment" where
  "alert_until jd a =
     a\<lparr>ea_prv_candidates := filter (\<lambda>p. z_jd p \<le> jd) (ea_prv_candidates a),
       ea_prv_nondetections := filter (\<lambda>p. z_jd p \<le> jd) (ea_prv_nondetections a),
       ea_fp_hists := filter (\<lambda>p. z_jd p \<le> jd) (ea_fp_hists a),
       ea_lsst := map_option (lsst_until jd) (ea_lsst a),
       ea_decam := map_option (decam_until jd) (ea_decam a)\<rparr>"

definition history_until :: "f64 \<Rightarrow> 'o enrich_env \<Rightarrow> 'o enrich_env" where
  "history_until jd E =
     E\<lparr>sso_history := (\<lambda>name. map_option (filter (\<lambda>(t, _). f64_lt t jd)) (sso_history E name))\<rparr>"

lemma history_until_simps [simp]:
  "ee_float (history_until jd E) = ee_float E" "ee_arith (history_until jd E) = ee_arith E"
  "ee_rnd (history_until jd E) = ee_rnd E" "ee_biggest (history_until jd E) = ee_biggest E"
  "ee_geometry (history_until jd E) = ee_geometry E" "ee_bands (history_until jd E) = ee_bands E"
  "orbits (history_until jd E) = orbits E" "baselines (history_until jd E) = baselines E"
  by (simp_all add: history_until_def)

lemma fold_count_points_until:
  "fold (count_point ref_jd cutoff) (filter (\<lambda>p. fst p \<le> ref_jd) points) acc = fold (count_point ref_jd cutoff) points acc"
  by (induction points arbitrary: acc) (auto simp: count_point_late)

lemma fold_count_forced_until:
  "fold (count_forced ref_jd) (filter (\<lambda>p. fst p \<le> ref_jd) forced) d = fold (count_forced ref_jd) forced d"
  by (induction forced arbitrary: d) (auto simp: count_forced_def)

lemma summarise_until:
  "summarise_detections rnd (filter (\<lambda>p. fst p \<le> ref_jd) points) (filter (\<lambda>p. fst p \<le> ref_jd) forced) ref_jd gap =
   summarise_detections rnd points forced ref_jd gap"
  by (simp add: summarise_detections_def fold_count_points_until fold_count_forced_until)

lemma add_nondetections_until:
  "add_nondetections ref_jd (filter (\<lambda>p. fst p \<le> ref_jd) ps) d = add_nondetections ref_jd ps d"
  unfolding add_nondetections_def
  by (induction ps arbitrary: d) (auto simp: add_nondetection_def)

lemma mags_until_filter [simp]: "mags_until jd tm conv (filter (\<lambda>p. tm p \<le> jd) ps) = mags_until jd tm conv ps"
  by (simp add: mags_until_def)

lemma mags_until_append: "mags_until jd tm conv (ps @ qs) = mags_until jd tm conv ps @ mags_until jd tm conv qs"
  by (simp add: mags_until_def List.map_filter_def)

lemma map_until: "map (\<lambda>p. (tm p, f p)) (filter (\<lambda>p. tm p \<le> jd) ps) = filter (\<lambda>p. fst p \<le> jd) (map (\<lambda>p. (tm p, f p)) ps)"
  by (simp add: filter_map comp_def)

lemma filter_until_swap:
  "filter (\<lambda>p. P p) (filter (\<lambda>p. tm p \<le> (jd::real)) ps) = filter (\<lambda>p. tm p \<le> jd) (filter (\<lambda>p. P p) ps)"
  by (simp add: filter_filter conj_commute)

lemma decam_lightcurve_until [simp]: "decam_lightcurve jd (decam_until jd m) = decam_lightcurve jd m"
  by (simp add: decam_lightcurve_def decam_until_def)

lemma outburst_until [simp]: "outburst_for (history_until (c_jd c) E) sso c = outburst_for E sso c"
  by (auto simp: outburst_for_def history_until_def Let_def split: option.splits)

lemma lsst_mags_until [simp]:
  "mags_until jd l_jd conv (lm_prv_candidates (lsst_until jd m) @ lm_fp_hists (lsst_until jd m)) =
   mags_until jd l_jd conv (lm_prv_candidates m @ lm_fp_hists m)"
  by (simp add: mags_until_append lsst_until_def)

lemma alert_until_simps [simp]:
  "ea_candid (alert_until jd a) = ea_candid a" "ea_candidate (alert_until jd a) = ea_candidate a"
  "ea_host (alert_until jd a) = ea_host a" "alert_jd (alert_until jd a) = alert_jd a"
  "ea_prv_candidates (alert_until jd a) = filter (\<lambda>p. z_jd p \<le> jd) (ea_prv_candidates a)"
  "ea_prv_nondetections (alert_until jd a) = filter (\<lambda>p. z_jd p \<le> jd) (ea_prv_nondetections a)"
  "ea_fp_hists (alert_until jd a) = filter (\<lambda>p. z_jd p \<le> jd) (ea_fp_hists a)"
  "ea_lsst (alert_until jd a) = map_option (lsst_until jd) (ea_lsst a)"
  "ea_decam (alert_until jd a) = map_option (decam_until jd) (ea_decam a)"
  by (simp_all add: alert_until_def alert_jd_def)

lemma with_geometry_until [simp]: "with_geometry (history_until t E) el jd sso = with_geometry E el jd sso"
  by (cases el) (simp_all add: with_geometry_def)

lemma analyze_until [simp]: "analyze_with (history_until t E) = analyze_with E"
  by (simp add: analyze_with_def fun_eq_iff)

lemma lsst_case_until:
  "(case map_option (lsst_until jd) x of None \<Rightarrow> lc
    | Some m \<Rightarrow> prepare_photometry (lc @ mags_until jd l_jd conv (lm_prv_candidates m @ lm_fp_hists m))) =
   (case x of None \<Rightarrow> lc
    | Some m \<Rightarrow> prepare_photometry (lc @ mags_until jd l_jd conv (lm_prv_candidates m @ lm_fp_hists m)))"
  by (simp split: option.split)

lemma decam_case_until:
  "(case map_option (decam_until jd) x of None \<Rightarrow> [] | Some m \<Rightarrow> decam_lightcurve jd m) =
   (case x of None \<Rightarrow> [] | Some m \<Rightarrow> decam_lightcurve jd m)"
  by (simp split: option.split)

text \<open>
  C37: The properties computed for a ZTF alert depend only on what was observed up to its date: dropping
  every later point of its detections, limits and forced photometry, of the matched LSST and DECam
  light curves, and of the histories of solar system objects gives the same properties, the same
  light curves and the same error.
\<close>

theorem later_points_change_nothing:
  "get_alert_properties (history_until (c_jd (candidate (ea_candidate a))) E) (alert_until (alert_jd a) a) =
   get_alert_properties E a"
  unfolding get_alert_properties_def Let_def alert_until_simps history_until_simps with_geometry_until
    analyze_until outburst_until mags_until_filter lsst_case_until decam_case_until filter_until_swap
    map_until summarise_until add_nondetections_until option.map_disc_iff map_option_is_None
  by (rule refl)

end
