(* ===== verification/Digamma_Bounds.thy ===== *)
theory Digamma_Bounds
  imports Complex_Main
begin

text \<open>
  The digamma function as a limit of sums, and the truncated asymptotic series that encloses it: what
  the approximation in \<open>src/src/enrichment/models/applecider_postprocess.rs\<close> is measured against.
  Nothing here models code.
\<close>

definition psi_series :: "real \<Rightarrow> real" where
  "psi_series x = ln x - 1 / 2 * (1 / x) - 1 / 12 * (1 / x) ^ 2 + 1 / 120 * (1 / x) ^ 4 - 1 / 252 * (1 / x) ^ 6 + 1 / 240 * (1 / x) ^ 8"

text \<open>The next term of the series, which bounds the error.\<close>

definition psi_error :: "real \<Rightarrow> real" where
  "psi_error x = 1 / 132 * (1 / x) ^ 10"

definition series_slope :: "real \<Rightarrow> real" where
  "series_slope x = 1 / x + 1 / 2 * (1 / x) ^ 2 + 1 / 6 * (1 / x) ^ 3 - 1 / 30 * (1 / x) ^ 5 + 1 / 42 * (1 / x) ^ 7 - 1 / 30 * (1 / x) ^ 9"

lemma psi_series_deriv:
  assumes "0 < x" shows "(psi_series has_real_derivative series_slope x) (at x)"
proof -
  have "((\<lambda>x. ln x - 1 / 2 * (1 / x) - 1 / 12 * (1 / x) ^ 2 + 1 / 120 * (1 / x) ^ 4 - 1 / 252 * (1 / x) ^ 6 + 1 / 240 * (1 / x) ^ 8)
      has_real_derivative series_slope x) (at x)"
    using assms by (auto intro!: derivative_eq_intros simp: series_slope_def power_divide eval_nat_numeral)
  then show ?thesis by (simp add: psi_series_def [abs_def])
qed

lemma psi_error_deriv:
  assumes "0 < x" shows "(psi_error has_real_derivative - (10 / 132) * (1 / x) ^ 11) (at x)"
proof -
  have "((\<lambda>x. 1 / 132 * (1 / x) ^ 10) has_real_derivative - (10 / 132) * (1 / x) ^ 11) (at x)"
    using assms by (auto intro!: derivative_eq_intros simp: power_divide eval_nat_numeral)
  then show ?thesis by (simp add: psi_error_def [abs_def])
qed

definition gap :: "(real \<Rightarrow> real) \<Rightarrow> real \<Rightarrow> real" where
  "gap f x = f (x + 1) - f x - 1 / x"

lemma gap_deriv:
  assumes "0 < x" "(f has_real_derivative a) (at (x + 1))" "(f has_real_derivative b) (at x)"
  shows "(gap f has_real_derivative a - b + (1 / x) ^ 2) (at x)"
proof -
  have "((\<lambda>x. f (x + 1)) has_real_derivative a) (at x)"
    using assms(2) DERIV_shift [of f a x 1] by (simp add: add.commute)
  then have "((\<lambda>x. f (x + 1) - f x - 1 / x) has_real_derivative a - b + (1 / x) ^ 2) (at x)"
    using assms(1,3) by (auto intro!: derivative_eq_intros simp: power2_eq_square)
  then show ?thesis by (simp add: gap_def [abs_def])
qed

text \<open>The slopes of the two gaps, over a common denominator: their signs are those of the coefficients.\<close>

definition slope_numerator :: "real \<Rightarrow> real" where
  "slope_numerator y = 210 * y ^ 8 + 105 * y ^ 7 + 35 * y ^ 6 - 7 * y ^ 4 + 5 * y ^ 2 - 7"

definition gap_numerator :: "real \<Rightarrow> real" where
  "gap_numerator x = 7 + 63 * x + 247 * x ^ 2 + 543 * x ^ 3 + 709 * x ^ 4 + 525 * x ^ 5 + 175 * x ^ 6"

lemma series_slope_fraction:
  assumes "0 < y" shows "series_slope y = slope_numerator y / (210 * y ^ 9)"
  using assms unfolding series_slope_def slope_numerator_def by (simp add: divide_simps) algebra

lemma gap_numerator_eq:
  "slope_numerator (x + 1) * x ^ 9 - slope_numerator x * (x + 1) ^ 9 + 210 * x ^ 7 * (x + 1) ^ 9 = gap_numerator x"
  unfolding slope_numerator_def gap_numerator_def by algebra

lemma common_denominator:
  fixes x :: real
  assumes "0 < x"
  shows "a / (210 * (x + 1) ^ 9) - b / (210 * x ^ 9) + (1 / x) ^ 2 =
    (a * x ^ 9 - b * (x + 1) ^ 9 + 210 * x ^ 7 * (x + 1) ^ 9) / (210 * x ^ 9 * (x + 1) ^ 9)"
proof -
  have "x + 1 \<noteq> 0" "x \<noteq> 0" using assms by auto
  then have s: "(1 / x) ^ 2 = 210 * x ^ 7 * (x + 1) ^ 9 / (210 * x ^ 9 * (x + 1) ^ 9)"
    "a / (210 * (x + 1) ^ 9) = a * x ^ 9 / (210 * x ^ 9 * (x + 1) ^ 9)"
    "b / (210 * x ^ 9) = b * (x + 1) ^ 9 / (210 * x ^ 9 * (x + 1) ^ 9)"
    by (simp_all add: power_divide eval_nat_numeral)
  show ?thesis unfolding s by (simp add: add_divide_distrib diff_divide_distrib)
qed

lemma slope_gap:
  assumes "0 < x"
  shows "series_slope (x + 1) - series_slope x + (1 / x) ^ 2 = gap_numerator x / (210 * x ^ 9 * (x + 1) ^ 9)"
  using assms common_denominator [OF assms] gap_numerator_eq by (simp add: series_slope_fraction)

lemma slope_gap_positive:
  assumes "0 < x" shows "0 \<le> series_slope (x + 1) - series_slope x + (1 / x) ^ 2"
  using assms unfolding slope_gap [OF assms] gap_numerator_def by (intro divide_nonneg_nonneg) auto

lemma corrected_numerator:
  "11 * x ^ 2 * (x + 1) ^ 2 * gap_numerator x + 175 * (x ^ 11 - (x + 1) ^ 11) =
   - (175 + 1925 * x + 9548 * x ^ 2 + 28028 * x ^ 3 + 53570 * x ^ 4 + 68750 * x ^ 5 + 58388 * x ^ 6 + 30404 * x ^ 7 + 7601 * x ^ 8)"
  unfolding gap_numerator_def by algebra

lemma slope_corrected_negative:
  assumes "0 < x"
  shows "(series_slope (x + 1) + 10 / 132 * (1 / (x + 1)) ^ 11) - (series_slope x + 10 / 132 * (1 / x) ^ 11) + (1 / x) ^ 2 \<le> 0"
proof -
  have "x + 1 \<noteq> 0" "x \<noteq> 0" using assms by auto
  then have s: "gap_numerator x / (210 * x ^ 9 * (x + 1) ^ 9) =
      11 * x ^ 2 * (x + 1) ^ 2 * gap_numerator x / (2310 * x ^ 11 * (x + 1) ^ 11)"
    "10 / 132 * (1 / (x + 1)) ^ 11 = 175 * x ^ 11 / (2310 * x ^ 11 * (x + 1) ^ 11)"
    "10 / 132 * (1 / x) ^ 11 = 175 * (x + 1) ^ 11 / (2310 * x ^ 11 * (x + 1) ^ 11)"
    by (simp_all add: power_divide eval_nat_numeral)
  have "(series_slope (x + 1) + 10 / 132 * (1 / (x + 1)) ^ 11) - (series_slope x + 10 / 132 * (1 / x) ^ 11) + (1 / x) ^ 2 =
      (11 * x ^ 2 * (x + 1) ^ 2 * gap_numerator x + 175 * (x ^ 11 - (x + 1) ^ 11)) / (2310 * x ^ 11 * (x + 1) ^ 11)"
    using slope_gap [OF assms] unfolding s by (simp add: add_divide_distrib diff_divide_distrib right_diff_distrib)
  moreover have "(11 * x ^ 2 * (x + 1) ^ 2 * gap_numerator x + 175 * (x ^ 11 - (x + 1) ^ 11)) / (2310 * x ^ 11 * (x + 1) ^ 11) \<le> 0"
    unfolding corrected_numerator using assms
    by (intro divide_nonpos_nonneg mult_nonneg_nonneg zero_le_power add_nonneg_nonneg iffD2 [OF neg_le_0_iff_le]) simp_all
  ultimately show ?thesis by linarith
qed

section \<open>Limits\<close>

lemma inverse_vanishes: "(\<lambda>n. 1 / (x + real n)) \<longlonglongrightarrow> 0"
  by (intro tendsto_divide_0 [OF tendsto_const] filterlim_at_top_imp_at_infinity
      filterlim_tendsto_add_at_top [OF tendsto_const filterlim_real_sequentially])

lemma inverse_power_vanishes: "0 < k \<Longrightarrow> (\<lambda>n. c * (1 / (x + real n)) ^ k) \<longlonglongrightarrow> 0"
  using tendsto_mult [OF tendsto_const [of c] tendsto_power [OF inverse_vanishes [of x], of k]] by (simp add: zero_power)

lemma series_is_log: "(\<lambda>n. psi_series (x + real n) - ln (x + real n)) \<longlonglongrightarrow> 0"
proof -
  have "(\<lambda>n. - (1 / 2 * (1 / (x + real n)) ^ 1) - 1 / 12 * (1 / (x + real n)) ^ 2 + 1 / 120 * (1 / (x + real n)) ^ 4
      - 1 / 252 * (1 / (x + real n)) ^ 6 + 1 / 240 * (1 / (x + real n)) ^ 8) \<longlonglongrightarrow> - 0 - 0 + 0 - 0 + 0"
    by (intro tendsto_intros inverse_power_vanishes) simp_all
  then show ?thesis by (simp add: psi_series_def algebra_simps)
qed

lemma log_gap_vanishes:
  assumes "0 < x" shows "(\<lambda>n. ln (x + real n + 1) - ln (x + real n)) \<longlonglongrightarrow> 0"
proof -
  have "(\<lambda>n. ln (1 + 1 / (x + real n))) \<longlonglongrightarrow> ln (1 + 0)"
    by (intro tendsto_intros inverse_vanishes) simp
  moreover have "ln (1 + 1 / (x + real n)) = ln (x + real n + 1) - ln (x + real n)" for n
  proof -
    have "0 < x + real n" using assms by simp
    then have "1 + 1 / (x + real n) = (x + real n + 1) / (x + real n)" by (simp add: field_simps)
    with \<open>0 < x + real n\<close> show ?thesis by (simp add: ln_div)
  qed
  ultimately show ?thesis by simp
qed

lemma series_gap_vanishes:
  assumes "0 < x" shows "(\<lambda>n. gap psi_series (x + real n)) \<longlonglongrightarrow> 0"
proof -
  have "(\<lambda>n. (psi_series (x + 1 + real n) - ln (x + 1 + real n)) - (psi_series (x + real n) - ln (x + real n))
      + (ln (x + real n + 1) - ln (x + real n)) - 1 / (x + real n)) \<longlonglongrightarrow> 0 - 0 + 0 - 0"
    by (intro tendsto_diff tendsto_add series_is_log log_gap_vanishes inverse_vanishes assms)
  then show ?thesis by (simp add: gap_def algebra_simps)
qed

lemma error_vanishes: "(\<lambda>n. psi_error (x + real n)) \<longlonglongrightarrow> 0"
  using inverse_power_vanishes [of 10 "1 / 132" x] by (simp add: psi_error_def)

lemma corrected_gap_vanishes:
  assumes "0 < x" shows "(\<lambda>n. gap (\<lambda>y. psi_series y - psi_error y) (x + real n)) \<longlonglongrightarrow> 0"
proof -
  have "(\<lambda>n. gap psi_series (x + real n) - (psi_error (x + 1 + real n) - psi_error (x + real n))) \<longlonglongrightarrow> 0 - (0 - 0)"
    by (intro tendsto_diff series_gap_vanishes error_vanishes assms)
  then show ?thesis by (simp add: gap_def algebra_simps)
qed

section \<open>The series encloses the digamma function\<close>

lemma series_gap_nonpos:
  assumes "0 < x" shows "gap psi_series x \<le> 0"
proof -
  have "gap psi_series x \<le> gap psi_series (x + real n)" for n
  proof (rule DERIV_nonneg_imp_nondecreasing [where f = "gap psi_series" and a = x])
    fix y assume "x \<le> y"
    with assms have "0 < y" "0 < y + 1" by simp_all
    with gap_deriv [OF this(1) psi_series_deriv psi_series_deriv] slope_gap_positive
    show "\<exists>d. (gap psi_series has_real_derivative d) (at y) \<and> 0 \<le> d" by blast
  qed simp
  then show ?thesis
    by (intro LIMSEQ_le_const [OF series_gap_vanishes [OF assms]]) blast
qed

lemma corrected_gap_nonneg:
  assumes "0 < x" shows "0 \<le> gap (\<lambda>y. psi_series y - psi_error y) x"
proof -
  let ?T = "\<lambda>y. psi_series y - psi_error y"
  have deriv: "(?T has_real_derivative series_slope y + 10 / 132 * (1 / y) ^ 11) (at y)" if "0 < y" for y
    using DERIV_diff [OF psi_series_deriv psi_error_deriv, OF that that] by simp
  have "gap ?T (x + real n) \<le> gap ?T x" for n
  proof (rule DERIV_nonpos_imp_nonincreasing [where f = "gap ?T" and a = x])
    fix y assume "x \<le> y"
    with assms have "0 < y" "0 < y + 1" by simp_all
    with gap_deriv [OF this(1) deriv deriv] slope_corrected_negative
    show "\<exists>d. (gap ?T has_real_derivative d) (at y) \<and> d \<le> 0" by blast
  qed simp
  then show ?thesis
    by (intro LIMSEQ_le_const2 [OF corrected_gap_vanishes [OF assms]]) blast
qed

text \<open>Gauss's limit: for positive \<open>x\<close> it is the digamma function, and the series brackets it.\<close>

definition is_digamma :: "real \<Rightarrow> real \<Rightarrow> bool" where
  "is_digamma x l \<longleftrightarrow> (\<lambda>n. ln (real n) - (\<Sum>k<n. 1 / (x + real k))) \<longlonglongrightarrow> l"

lemma log_shift_vanishes:
  assumes "0 < x" shows "(\<lambda>n. ln (x + real n) - ln (real n)) \<longlonglongrightarrow> 0"
proof -
  have "(\<lambda>n. ln (1 + x * (1 / (0 + real n)))) \<longlonglongrightarrow> ln (1 + x * 0)"
    by (intro tendsto_intros inverse_vanishes) simp
  moreover have "\<forall>\<^sub>F n in sequentially. ln (1 + x * (1 / (0 + real n))) = ln (x + real n) - ln (real n)"
    using eventually_gt_at_top [of 0]
  proof eventually_elim
    case (elim n)
    then have "1 + x * (1 / (0 + real n)) = (x + real n) / real n" by (simp add: field_simps)
    with elim assms show ?case by (simp add: ln_div)
  qed
  ultimately show ?thesis by (simp add: tendsto_cong)
qed

lemma digamma_enclosed:
  assumes "0 < x"
  shows "\<exists>l. is_digamma x l \<and>
    (\<forall>n. psi_series (x + real n) - psi_error (x + real n) - (\<Sum>k<n. 1 / (x + real k)) \<le> l \<and>
      l \<le> psi_series (x + real n) - (\<Sum>k<n. 1 / (x + real k)))"
proof -
  define above where "above n = psi_series (x + real n) - (\<Sum>k<n. 1 / (x + real k))" for n
  define below where "below n = above n - psi_error (x + real n)" for n
  have pos: "0 < x + real n" for n using assms by simp
  have "above (Suc n) - above n = gap psi_series (x + real n)"
    "below (Suc n) - below n = gap (\<lambda>y. psi_series y - psi_error y) (x + real n)" for n
    by (simp_all add: above_def below_def gap_def add_ac)
  with series_gap_nonpos [OF pos] corrected_gap_nonneg [OF pos]
  have mono: "decseq above" "incseq below"
    by (metis decseq_SucI diff_le_0_iff_le, metis incseq_SucI diff_ge_0_iff_ge)
  have "below n \<le> above n" for n by (simp add: below_def psi_error_def)
  moreover have "(\<lambda>n. below n - above n) \<longlonglongrightarrow> 0"
    using tendsto_minus [OF error_vanishes [of x]] by (simp add: below_def)
  ultimately obtain l where l: "\<forall>n. below n \<le> l" "below \<longlonglongrightarrow> l" "\<forall>n. l \<le> above n" "above \<longlonglongrightarrow> l"
    using nested_sequence_unique [of below above] mono by (auto simp: decseq_Suc_iff incseq_Suc_iff)
  have "(\<lambda>n. above n - (psi_series (x + real n) - ln (x + real n)) - (ln (x + real n) - ln (real n))) \<longlonglongrightarrow> l - 0 - 0"
    by (intro tendsto_diff l series_is_log log_shift_vanishes assms)
  then have "is_digamma x l" by (simp add: is_digamma_def above_def)
  with l show ?thesis by (auto simp: below_def above_def algebra_simps)
qed

lemma psi_error_from_ten:
  assumes "10 \<le> x" shows "psi_error x \<le> 1 / 10 ^ 12"
proof -
  have "(1 / x) ^ 10 \<le> (1 / 10) ^ 10"
    using assms by (intro power_mono divide_left_mono) auto
  then show ?thesis by (simp add: psi_error_def power_divide)
qed

end
