(* ===== verification/Applecider.thy ===== *)
theory Applecider
  imports Sso_Outburst Digamma_Bounds
begin

text \<open>
  What is derived from the output of the AppleCiDER classifier
  (\<open>src/src/enrichment/models/applecider_postprocess.rs\<close>): the calibrated class probabilities, the levels
  of the class hierarchy with their gates, the scores of uncertainty, and the decision, for one alert
  and for the rows of a batch.  The arithmetic is a parameter, as in the statistics of solar system
  objects.  A function whose value depends on the loop of \<open>digamma\<close> returns an option: \<open>None\<close> stands for
  a loop that does not end.
\<close>

section \<open>Constants\<close>

record 'n uq_arith = "'n fn_arith" +
  q_ln :: "'n \<Rightarrow> 'n"
  q_total_le :: "'n \<Rightarrow> 'n \<Rightarrow> bool"
  q_of_f32 :: "f32 \<Rightarrow> 'n"
  q_as_f32 :: "'n \<Rightarrow> f32"

definition exact_uq_arith :: "(f32 \<Rightarrow> real) \<Rightarrow> (real \<Rightarrow> f32) \<Rightarrow> real uq_arith" where
  "exact_uq_arith of_f as_f =
     fn_arith.extend exact_fn_arith (uq_arith.fields ln (\<le>) of_f as_f)"

datatype uncertainty_score = Vacuity | Entropy | ExpectedEntropy | MutualInformation | TraceUncertainty

fun score_name :: "uncertainty_score \<Rightarrow> string" where
  "score_name Vacuity = ''vacuity''"
| "score_name Entropy = ''entropy''"
| "score_name ExpectedEntropy = ''expected_entropy''"
| "score_name MutualInformation = ''mi''"
| "score_name TraceUncertainty = ''trace_uncertainty''"

definition MODEL_NAME :: string where "MODEL_NAME = ''cider_mid''"
definition MODEL_VERSION :: string where "MODEL_VERSION = ''prod8_mid''"
definition TAXONOMY_VERSION :: string where "TAXONOMY_VERSION = ''cider_8class_v1''"
definition HORIZON_DAYS :: real where "HORIZON_DAYS = 100"

definition CLASS_NAMES :: "string list" where
  "CLASS_NAMES = [''AGN-like'', ''Accreting WD Var'', ''Other Stellar Var'', ''TDE'', ''Ia-like SN'',
     ''Stripped Envelope SN'', ''H-rich CCSN'', ''Superluminous SN'']"

definition TEMPERATURE :: real where "TEMPERATURE = 0.2931840121746063"

definition PI_TRAIN :: "real list" where
  "PI_TRAIN = [0.4695878762943153, 0.05252691490091202, 0.04909826510320236, 0.0036343687855722416,
     0.3187958581910444, 0.026400603442364397, 0.07563601453747515, 0.004320098745114174]"

definition PI_DEPLOY :: "real list" where
  "PI_DEPLOY = [0.48938948743062355, 0.050299270867341386, 0.04903689193601045, 0.0037218413320274243,
     0.3011862008923713, 0.026270540864076614, 0.07565567526390249, 0.004440091413646752]"

definition FUSION_MEDIANS :: "real list" where
  "FUSION_MEDIANS = [0.14666756987571716, 0.6707055568695068, 0.6144042015075684, 0.05465555191040039, 0.06863231211900711]"

definition FUSION_SCALES :: "real list" where
  "FUSION_SCALES = [0.08299863871335983, 0.38957943967580794, 0.3540520219802856, 0.0315231148481369, 0.04369819862768054]"

definition FUSION_WEIGHTS :: "real list" where
  "FUSION_WEIGHTS = [0.2750530067932444, 0.29647147438488697, 0.29675419110223855, 0.27750650613299166, 0.292766940096312]"

definition OOD_CENTER :: "real list" where
  "OOD_CENTER = [0.1231747530400753, 0.5559840202331543, 0.5100808143615723, 0.045643746852874756,
     0.055803922936320305, - 0.28759790405295893]"

definition OOD_SCALE :: "real list" where
  "OOD_SCALE = [0.05655655253604054, 0.22673382863402367, 0.20485197448432443, 0.02110972261726856,
     0.026231652719154952, 0.6282843149275595]"

definition OOD_FEATURE_THRESHOLDS :: "real list" where
  "OOD_FEATURE_THRESHOLDS = [0.322670423090458, 1.4301585376262664, 1.3277344697713855, 0.12120104849338532,
     0.15064530313014984, 1.8899948008175884]"

definition OOD_SCORE_THRESHOLD :: real where "OOD_SCORE_THRESHOLD = 8.63369142811076"
definition OOD_MIN_VOTES :: nat where "OOD_MIN_VOTES = 2"

definition DOMAIN_NODES :: "string list" where "DOMAIN_NODES = [''Variable'', ''Transient'']"
definition DOMAIN_LEAF_TO_NODE :: "nat list" where "DOMAIN_LEAF_TO_NODE = [0, 0, 0, 1, 1, 1, 1, 1]"
definition DOMAIN_GATE_SCORE :: uncertainty_score where "DOMAIN_GATE_SCORE = TraceUncertainty"
definition DOMAIN_GATE_THRESHOLDS :: "real list" where
  "DOMAIN_GATE_THRESHOLDS = [0.06626571267843247, 0.07595909982919694]"

definition FAMILY_NODES :: "string list" where
  "FAMILY_NODES = [''NuclearVariable'', ''StellarVariable'', ''NuclearTransient'', ''Supernova'']"
definition FAMILY_LEAF_TO_NODE :: "nat list" where "FAMILY_LEAF_TO_NODE = [0, 1, 1, 2, 3, 3, 3, 3]"
definition FAMILY_GATE_SCORE :: uncertainty_score where "FAMILY_GATE_SCORE = ExpectedEntropy"
definition FAMILY_GATE_THRESHOLDS :: "real list" where
  "FAMILY_GATE_THRESHOLDS = [0.5290095567703247, 0.6950922012329102, 0.912900173664093, 0.4874100387096405]"

definition CLASS_NODES :: "string list" where "CLASS_NODES = CLASS_NAMES"
definition CLASS_LEAF_TO_NODE :: "nat list" where "CLASS_LEAF_TO_NODE = [0, 1, 2, 3, 4, 5, 6, 7]"
definition CLASS_GATE_SCORE :: uncertainty_score where "CLASS_GATE_SCORE = ExpectedEntropy"
definition CLASS_GATE_THRESHOLDS :: "real list" where
  "CLASS_GATE_THRESHOLDS = [0.6441427230834962, 1.152501106262207, 1.1866893768310547, 1.1013262748718262,
     1.2202317714691162, 1.3987396717071534, 1.357124924659729, 1.3397242069244384]"

section \<open>Scores\<close>

partial_function (option) digamma_loop :: "('n, 'm) uq_arith_scheme \<Rightarrow> 'n \<Rightarrow> 'n \<Rightarrow> ('n \<times> 'n) option" where
  "digamma_loop A x acc =
     (if n_less A x (n_lit A 10)
      then digamma_loop A (n_add A x (n_lit A 1)) (n_sub A acc (n_div A (n_lit A 1) x))
      else Some (x, acc))"

definition digamma_series :: "('n, 'm) uq_arith_scheme \<Rightarrow> 'n \<Rightarrow> 'n \<Rightarrow> 'n" where
  "digamma_series A x acc =
     (let inv = n_div A (n_lit A 1) x; inv2 = n_mul A inv inv; frac = \<lambda>k. n_div A (n_lit A 1) (n_lit A k)
      in n_sub A (n_sub A (n_add A acc (q_ln A x)) (n_mul A (n_lit A 0.5) inv))
           (n_mul A inv2 (n_sub A (frac 12) (n_mul A inv2 (n_sub A (frac 120)
             (n_mul A inv2 (n_sub A (frac 252) (n_div A inv2 (n_lit A 240)))))))))"

definition digamma :: "('n, 'm) uq_arith_scheme \<Rightarrow> 'n \<Rightarrow> 'n option" where
  "digamma A x = map_option (\<lambda>(x, acc). digamma_series A x acc) (digamma_loop A x (n_lit A 0))"

record 'n uncertainties =
  s_vacuity :: 'n
  s_entropy :: 'n
  s_expected_entropy :: 'n
  s_mi :: 'n
  s_trace :: 'n

fun get_score :: "'n uncertainties \<Rightarrow> uncertainty_score \<Rightarrow> 'n" where
  "get_score s Vacuity = s_vacuity s"
| "get_score s Entropy = s_entropy s"
| "get_score s ExpectedEntropy = s_expected_entropy s"
| "get_score s MutualInformation = s_mi s"
| "get_score s TraceUncertainty = s_trace s"

definition sum_up :: "('n, 'm) uq_arith_scheme \<Rightarrow> 'n list \<Rightarrow> 'n" where
  "sum_up A xs = fold (\<lambda>x s. n_add A s x) xs (n_lit A 0)"

fun score_sums ::
  "('n, 'm) uq_arith_scheme \<Rightarrow> 'n \<Rightarrow> 'n \<Rightarrow> 'n list \<Rightarrow> 'n \<times> 'n \<times> 'n \<Rightarrow> ('n \<times> 'n \<times> 'n) option" where
  "score_sums A s digamma_s1 [] acc = Some acc"
| "score_sums A s digamma_s1 (a # alpha) (entropy, expected, var_sum) =
     Option.bind (digamma A (n_add A a (n_lit A 1))) (\<lambda>digamma_a1.
       let p = n_div A a s
       in score_sums A s digamma_s1 alpha
            (n_sub A entropy (n_mul A p (q_ln A (n_max A p (n_lit A (1 / 10 ^ 12))))),
             n_sub A expected (n_mul A p (n_sub A digamma_a1 digamma_s1)),
             n_add A var_sum (n_div A (n_mul A a (n_sub A s a))
               (n_mul A (n_mul A s s) (n_add A s (n_lit A 1))))))"

definition scores :: "('n, 'm) uq_arith_scheme \<Rightarrow> 'n list \<Rightarrow> 'n uncertainties option" where
  "scores A alpha =
     (let s = sum_up A alpha; k = n_lit A (real (length alpha)); zero = n_lit A 0
      in Option.bind (digamma A (n_add A s (n_lit A 1))) (\<lambda>digamma_s1.
           map_option (\<lambda>(entropy, expected, var_sum).
               \<lparr>s_vacuity = n_div A k s, s_entropy = entropy, s_expected_entropy = expected,
                s_mi = n_sub A entropy expected, s_trace = n_sqrt A (n_max A var_sum zero)\<rparr>)
             (score_sums A s digamma_s1 alpha (zero, zero, zero))))"

section \<open>Probabilities\<close>

definition calibrate_alpha :: "('n, 'm) uq_arith_scheme \<Rightarrow> 'n list \<Rightarrow> 'n list" where
  "calibrate_alpha A alpha =
     map (\<lambda>a. n_add A (n_div A (n_max A (n_sub A a (n_lit A 1)) (n_lit A 0)) (n_lit A TEMPERATURE)) (n_lit A 1)) alpha"

definition adjust_for_priors :: "('n, 'm) uq_arith_scheme \<Rightarrow> 'n list \<Rightarrow> 'n list" where
  "adjust_for_priors A probs =
     (let pad = \<lambda>q. n_add A (n_lit A q) (n_lit A (1 / 10 ^ 12));
          weighted = map (\<lambda>(i, p). n_div A (n_mul A p (pad (PI_DEPLOY ! i))) (pad (PI_TRAIN ! i))) (List.enumerate 0 probs);
          total_weight = sum_up A weighted
      in map (\<lambda>w. n_div A w total_weight) weighted)"

definition normalize_alpha :: "('n, 'm) uq_arith_scheme \<Rightarrow> 'n list \<Rightarrow> 'n list" where
  "normalize_alpha A alpha = (let s = sum_up A alpha in map (\<lambda>a. n_div A a s) alpha)"

definition group_leaves :: "('n, 'm) uq_arith_scheme \<Rightarrow> 'n list \<Rightarrow> nat list \<Rightarrow> nat \<Rightarrow> 'n list" where
  "group_leaves A leaf leaf_to_node n_nodes =
     fold (\<lambda>(i, v) out. out[leaf_to_node ! i := n_add A (out ! (leaf_to_node ! i)) v]) (List.enumerate 0 leaf)
       (replicate n_nodes (n_lit A 0))"

text \<open>\<open>max_by\<close> keeps the last of equal maxima.\<close>

definition argmax :: "('n, 'm) uq_arith_scheme \<Rightarrow> 'n list \<Rightarrow> nat" where
  "argmax A values =
     (case List.enumerate 0 values of
        [] \<Rightarrow> 0
      | p # ps \<Rightarrow> fst (fold (\<lambda>q best. if q_total_le A (snd best) (snd q) then q else best) ps p))"

section \<open>Fused uncertainty and novelty\<close>

definition fused_uncertainty :: "('n, 'm) uq_arith_scheme \<Rightarrow> 'n uncertainties \<Rightarrow> 'n" where
  "fused_uncertainty A s =
     (let base = [s_vacuity s, s_entropy s, s_expected_entropy s, s_mi s, s_trace s];
          (num, den) = fold (\<lambda>i (num, den).
              (n_add A num (n_mul A (n_lit A (FUSION_WEIGHTS ! i))
                 (n_div A (n_sub A (base ! i) (n_lit A (FUSION_MEDIANS ! i))) (n_lit A (FUSION_SCALES ! i)))),
               n_add A den (n_lit A (FUSION_WEIGHTS ! i)))) [0..<5] (n_lit A 0, n_lit A 0)
      in n_div A num den)"

definition ood :: "('n, 'm) uq_arith_scheme \<Rightarrow> 'n uncertainties \<Rightarrow> 'n \<Rightarrow> 'n \<times> nat \<times> bool" where
  "ood A s fused =
     (let features = [s_vacuity s, s_entropy s, s_expected_entropy s, s_mi s, s_trace s, fused];
          (sum_sq, votes) = fold (\<lambda>(i, f) (sum_sq, votes).
              let z = n_div A (n_sub A f (n_lit A (OOD_CENTER ! i)))
                        (n_max A (n_lit A (OOD_SCALE ! i)) (n_lit A (1 / 10 ^ 8)))
              in (n_add A sum_sq (n_mul A z z),
                  if n_less A (n_lit A (OOD_FEATURE_THRESHOLDS ! i)) f then votes + 1 else votes))
            (List.enumerate 0 features) (n_lit A 0, 0);
          score = n_sqrt A sum_sq
      in (score, votes, n_less A (n_lit A OOD_SCORE_THRESHOLD) score \<or> OOD_MIN_VOTES \<le> votes))"

section \<open>One level of the hierarchy\<close>

record 'n hierarchy_level =
  lv_pred :: nat
  lv_probs :: "'n list"
  lv_gate :: uncertainty_score
  lv_gate_value :: 'n
  lv_gate_threshold :: 'n
  lv_kept :: bool

definition resolve_level ::
  "('n, 'm) uq_arith_scheme \<Rightarrow> 'n list \<Rightarrow> 'n list \<Rightarrow> nat list \<Rightarrow> nat \<Rightarrow> uncertainty_score \<Rightarrow> real list \<Rightarrow>
   'n hierarchy_level option" where
  "resolve_level A alpha probs_final leaf_to_node n_nodes gate thresholds =
     (let floor = n_add A (n_lit A 1) (n_lit A (1 / 10 ^ 6));
          alpha_level = map (\<lambda>a. n_max A a floor) (group_leaves A alpha leaf_to_node n_nodes);
          probs = group_leaves A probs_final leaf_to_node n_nodes;
          pred = argmax A probs; threshold = n_lit A (thresholds ! pred)
      in map_option (\<lambda>s.
             \<lparr>lv_pred = pred, lv_probs = probs, lv_gate = gate, lv_gate_value = get_score s gate,
              lv_gate_threshold = threshold, lv_kept = n_le A (get_score s gate) threshold\<rparr>)
           (scores A alpha_level))"

section \<open>The stored documents\<close>

record class_probs =
  agn_like :: f32
  accreting_wd_var :: f32
  other_stellar_var :: f32
  tde :: f32
  ia_like_sn :: f32
  stripped_envelope_sn :: f32
  h_rich_ccsn :: f32
  superluminous_sn :: f32

definition from_probs :: "f32 list \<Rightarrow> class_probs option" where
  "from_probs p =
     (if length p < 8 then None
      else Some \<lparr>agn_like = p ! 0, accreting_wd_var = p ! 1, other_stellar_var = p ! 2, tde = p ! 3, ia_like_sn = p ! 4,
             stripped_envelope_sn = p ! 5, h_rich_ccsn = p ! 6, superluminous_sn = p ! 7\<rparr>)"

definition from_slice_f64 :: "('n, 'm) uq_arith_scheme \<Rightarrow> 'n list \<Rightarrow> class_probs option" where
  "from_slice_f64 A p = from_probs (map (q_as_f32 A) p)"

record domain_probs =
  variable :: f32
  transient :: f32

record family_probs =
  nuclear_variable :: f32
  stellar_variable :: f32
  nuclear_transient :: f32
  supernova :: f32

text \<open>The three documents of a level differ only in the type of \<open>probs\<close>.\<close>

record 'p level_document =
  ld_pred :: string
  ld_prob :: f32
  ld_probs :: 'p
  ld_gate_name :: string
  ld_gate :: f32
  ld_gate_threshold :: f32
  ld_kept :: bool

record modalities =
  mo_photometry :: bool
  mo_science_stamp :: bool
  mo_reference_stamp :: bool
  mo_metadata :: bool
  mo_redshift :: bool

record class_decision =
  cd_label :: "string option"
  cd_level :: "string option"
  cd_probability :: "f32 option"
  cd_abstain_completely :: bool

record fusion_document =
  decision_label :: "string option"
  decision_level :: "string option"
  decision_probability :: "f32 option"
  abstain_completely :: bool
  class_probabilities :: class_probs

record uncertainty_document =
  ud_vacuity :: f32
  ud_epistemic :: f32
  ud_aleatoric :: f32
  ud_entropy :: f32
  ud_trace :: f32
  ud_fused :: f32

record ood_document =
  ood_score :: f32
  ood_votes :: nat
  ood_flag :: bool

record outputs_document =
  out_model :: string
  out_model_version :: string
  out_taxonomy_version :: string
  out_alpha :: class_probs
  out_evidence_total :: f32
  out_domain :: "domain_probs level_document"
  out_family :: "family_probs level_document"
  out_class :: "class_probs level_document"
  out_decision :: class_decision
  out_uncertainty :: uncertainty_document
  out_ood :: ood_document
  out_modalities_used :: modalities
  out_n_detections_used :: nat
  out_horizon_days :: real

definition level_document ::
  "('n, 'm) uq_arith_scheme \<Rightarrow> string list \<Rightarrow> 'n hierarchy_level \<Rightarrow> 'p \<Rightarrow> 'p level_document" where
  "level_document A nodes l probs =
     \<lparr>ld_pred = nodes ! lv_pred l, ld_prob = q_as_f32 A (lv_probs l ! lv_pred l), ld_probs = probs,
      ld_gate_name = score_name (lv_gate l), ld_gate = q_as_f32 A (lv_gate_value l),
      ld_gate_threshold = q_as_f32 A (lv_gate_threshold l), ld_kept = lv_kept l\<rparr>"

definition reported ::
  "'n hierarchy_level \<Rightarrow> 'n hierarchy_level \<Rightarrow> 'n hierarchy_level \<Rightarrow> (string \<times> string \<times> 'n) option" where
  "reported dlevel family cls =
     (if lv_kept cls then Some (CLASS_NODES ! lv_pred cls, ''class'', lv_probs cls ! lv_pred cls)
      else if lv_kept family then Some (FAMILY_NODES ! lv_pred family, ''family'', lv_probs family ! lv_pred family)
      else if lv_kept dlevel then Some (DOMAIN_NODES ! lv_pred dlevel, ''domain'', lv_probs dlevel ! lv_pred dlevel)
      else None)"

definition documents_of ::
  "('n, 'm) uq_arith_scheme \<Rightarrow> 'n list \<Rightarrow> 'n list \<Rightarrow> nat \<Rightarrow> modalities \<Rightarrow> 'n uncertainties \<Rightarrow>
   'n hierarchy_level \<Rightarrow> 'n hierarchy_level \<Rightarrow> 'n hierarchy_level \<Rightarrow> (fusion_document \<times> outputs_document) option" where
  "documents_of A alpha probs_final n_detections_used modalities leaf_scores dlevel family cls =
     (let fused = fused_uncertainty A leaf_scores;
         (novelty, votes, flag) = ood A leaf_scores fused;
         decided = reported dlevel family cls;
         label = map_option fst decided; level = map_option (\<lambda>d. fst (snd d)) decided;
         probability = map_option (\<lambda>d. q_as_f32 A (snd (snd d))) decided;
         f = q_as_f32 A
     in case (from_slice_f64 A probs_final, from_slice_f64 A alpha) of
          (Some leaf_probs, Some evidence) \<Rightarrow>
            Some (\<lparr>decision_label = label, decision_level = level, decision_probability = probability,
                   abstain_completely = (label = None), class_probabilities = leaf_probs\<rparr>,
                  \<lparr>out_model = MODEL_NAME, out_model_version = MODEL_VERSION,
                   out_taxonomy_version = TAXONOMY_VERSION, out_alpha = evidence,
                   out_evidence_total = f (sum_up A alpha),
                   out_domain = level_document A DOMAIN_NODES dlevel
                     \<lparr>variable = f (lv_probs dlevel ! 0), transient = f (lv_probs dlevel ! 1)\<rparr>,
                   out_family = level_document A FAMILY_NODES family
                     \<lparr>nuclear_variable = f (lv_probs family ! 0), stellar_variable = f (lv_probs family ! 1),
                      nuclear_transient = f (lv_probs family ! 2), supernova = f (lv_probs family ! 3)\<rparr>,
                   out_class = level_document A CLASS_NODES cls leaf_probs,
                   out_decision = \<lparr>cd_label = label, cd_level = level, cd_probability = probability,
                     cd_abstain_completely = (label = None)\<rparr>,
                   out_uncertainty = \<lparr>ud_vacuity = f (s_vacuity leaf_scores), ud_epistemic = f (s_mi leaf_scores),
                     ud_aleatoric = f (s_expected_entropy leaf_scores), ud_entropy = f (s_entropy leaf_scores),
                     ud_trace = f (s_trace leaf_scores), ud_fused = f fused\<rparr>,
                   out_ood = \<lparr>ood_score = f novelty, ood_votes = votes, ood_flag = flag\<rparr>,
                   out_modalities_used = modalities, out_n_detections_used = n_detections_used,
                   out_horizon_days = HORIZON_DAYS\<rparr>)
        | _ \<Rightarrow> None)"

definition build ::
  "('n, 'm) uq_arith_scheme \<Rightarrow> f32 list \<Rightarrow> nat \<Rightarrow> modalities \<Rightarrow> (fusion_document \<times> outputs_document) option option" where
  "build A alpha_raw n_detections_used modalities =
     (if length alpha_raw \<noteq> 8 then Some None
      else
        let alpha = map (q_of_f32 A) alpha_raw;
            probs_final = adjust_for_priors A (normalize_alpha A (calibrate_alpha A alpha))
        in Option.bind (scores A alpha) (\<lambda>leaf_scores.
           Option.bind (resolve_level A alpha probs_final DOMAIN_LEAF_TO_NODE (length DOMAIN_NODES)
             DOMAIN_GATE_SCORE DOMAIN_GATE_THRESHOLDS) (\<lambda>dlevel.
           Option.bind (resolve_level A alpha probs_final FAMILY_LEAF_TO_NODE (length FAMILY_NODES)
             FAMILY_GATE_SCORE FAMILY_GATE_THRESHOLDS) (\<lambda>family.
           map_option (documents_of A alpha probs_final n_detections_used modalities leaf_scores dlevel family)
             (resolve_level A alpha probs_final CLASS_LEAF_TO_NODE (length CLASS_NODES)
               CLASS_GATE_SCORE CLASS_GATE_THRESHOLDS)))))"

definition derive ::
  "('n, 'm) uq_arith_scheme \<Rightarrow> f32 list \<Rightarrow> nat \<Rightarrow> modalities \<Rightarrow> (fusion_document \<times> outputs_document) option option" where
  "derive A alpha n modalities = build A alpha n modalities"

fun chunks_exact :: "nat \<Rightarrow> nat \<Rightarrow> 'a list \<Rightarrow> 'a list list" where
  "chunks_exact n 0 xs = []"
| "chunks_exact n (Suc k) xs = take n xs # chunks_exact n k (drop n xs)"

fun derive_rows ::
  "('n, 'm) uq_arith_scheme \<Rightarrow> modalities \<Rightarrow> (f32 list \<times> nat) list \<Rightarrow>
   (fusion_document \<times> outputs_document) list option option" where
  "derive_rows A modalities [] = Some (Some [])"
| "derive_rows A modalities ((row, n) # rows) =
     Option.bind (derive A row n modalities) (\<lambda>d. case d of
       None \<Rightarrow> Some None
     | Some x \<Rightarrow> map_option (map_option (Cons x)) (derive_rows A modalities rows))"

definition derive_batch ::
  "('n, 'm) uq_arith_scheme \<Rightarrow> f32 list \<Rightarrow> nat list \<Rightarrow> modalities \<Rightarrow>
   (fusion_document \<times> outputs_document) list option option" where
  "derive_batch A alpha_batch ns modalities =
     (let n_rows = length ns
      in if n_rows = 0 \<or> length alpha_batch \<noteq> n_rows * length CLASS_NAMES then Some None
         else derive_rows A modalities
                (zip (chunks_exact (length CLASS_NAMES) (length alpha_batch div length CLASS_NAMES) alpha_batch) ns))"

definition calibrated_probs :: "('n, 'm) uq_arith_scheme \<Rightarrow> f32 list \<Rightarrow> f32 list option" where
  "calibrated_probs A alpha_raw =
     (if length alpha_raw \<noteq> 8 then None
      else Some (map (q_as_f32 A) (adjust_for_priors A (normalize_alpha A (calibrate_alpha A (map (q_of_f32 A) alpha_raw))))))"

section \<open>In exact arithmetic the loop ends\<close>

lemma exact_uq_simps [simp]:
  "n_add (exact_uq_arith of_f as_f) = (+)" "n_sub (exact_uq_arith of_f as_f) = (-)"
  "n_mul (exact_uq_arith of_f as_f) = (*)" "n_div (exact_uq_arith of_f as_f) = (/)"
  "n_sqrt (exact_uq_arith of_f as_f) = sqrt" "n_lit (exact_uq_arith of_f as_f) v = v"
  "n_less (exact_uq_arith of_f as_f) = (<)" "n_le (exact_uq_arith of_f as_f) = (\<le>)"
  "n_max (exact_uq_arith of_f as_f) = max" "q_ln (exact_uq_arith of_f as_f) = ln"
  "q_total_le (exact_uq_arith of_f as_f) = (\<le>)" "q_of_f32 (exact_uq_arith of_f as_f) = of_f"
  "q_as_f32 (exact_uq_arith of_f as_f) = as_f"
  by (simp_all add: exact_uq_arith_def fn_arith.extend_def uq_arith.fields_def exact_fn_arith_def)

lemma exact_sum_up [simp]: "sum_up (exact_uq_arith of_f as_f) xs = sum_list xs"
proof -
  have "fold (\<lambda>x s. s + x) xs c = c + sum_list xs" for c :: real
    by (induction xs arbitrary: c) simp_all
  then show ?thesis by (simp add: sum_up_def)
qed

definition steps_to_ten :: "real \<Rightarrow> nat" where
  "steps_to_ten x = nat \<lceil>10 - x\<rceil>"

lemma steps_to_ten_Suc:
  assumes "x < 10" shows "steps_to_ten x = Suc (steps_to_ten (x + 1))"
proof -
  have "\<lceil>10 - x\<rceil> = \<lceil>10 - (x + 1)\<rceil> + 1"
    by (metis add_diff_cancel_right' ceiling_add_one diff_add_cancel diff_diff_eq)
  with assms show ?thesis
    unfolding steps_to_ten_def by linarith
qed

lemma digamma_loop_exact:
  "digamma_loop (exact_uq_arith of_f as_f) x acc =
     Some (x + real (steps_to_ten x), acc - (\<Sum>i\<in>{..<steps_to_ten x}. 1 / (x + real i)))"
proof (induction "steps_to_ten x" arbitrary: x acc)
  case 0
  then have "\<not> x < 10" by (simp add: steps_to_ten_def)
  with 0 show ?case by (simp add: digamma_loop.simps [of _ x])
next
  case (Suc k)
  then have "x < 10" by (auto simp: steps_to_ten_def intro: ccontr)
  note steps = steps_to_ten_Suc [OF this]
  have "(\<Sum>i\<in>{..<steps_to_ten x}. 1 / (x + real i)) = 1 / x + (\<Sum>i\<in>{..<k}. 1 / (x + 1 + real i))"
    unfolding Suc.hyps(2) [symmetric] by (simp add: sum.lessThan_Suc_shift add.assoc del: sum.lessThan_Suc)
  with \<open>x < 10\<close> Suc.hyps(1) [of "x + 1" "acc - 1 / x"] Suc.hyps(2) steps show ?case
    by (simp add: digamma_loop.simps [of _ x])
qed

lemma digamma_exact:
  "digamma (exact_uq_arith of_f as_f) x =
     Some (digamma_series (exact_uq_arith of_f as_f) (x + real (steps_to_ten x))
       (- (\<Sum>i\<in>{..<steps_to_ten x}. 1 / (x + real i))))"
  by (simp add: digamma_def digamma_loop_exact)

lemma digamma_series_acc:
  "digamma_series (exact_uq_arith of_f as_f) x acc = acc + digamma_series (exact_uq_arith of_f as_f) x 0"
  by (simp add: digamma_series_def Let_def)

lemma score_sums_exact: "\<exists>r. score_sums (exact_uq_arith of_f as_f) s d alpha acc = Some r"
proof (induction alpha arbitrary: acc)
  case (Cons a alpha)
  obtain e x v where "acc = (e, x, v)" by (cases acc)
  with Cons.IH show ?case by (simp add: digamma_exact Let_def)
next
  case Nil
  show ?case by (cases acc) simp
qed

lemma scores_exact: "\<exists>r. scores (exact_uq_arith of_f as_f) alpha = Some r"
  using score_sums_exact [of of_f as_f "sum_list alpha"] by (fastforce simp: scores_def digamma_exact Let_def)

lemma resolve_level_exact:
  "\<exists>l. resolve_level (exact_uq_arith of_f as_f) alpha probs groups n gate ts = Some l"
  using scores_exact by (fastforce simp: resolve_level_def Let_def)

lemma resolve_level_fields:
  "resolve_level A alpha probs groups n gate ts = Some l \<Longrightarrow>
   lv_probs l = group_leaves A probs groups n \<and> lv_pred l = argmax A (lv_probs l) \<and>
   (lv_kept l \<longleftrightarrow> n_le A (lv_gate_value l) (n_lit A (ts ! lv_pred l)))"
  by (auto simp: resolve_level_def Let_def)

lemma digamma_series_exact:
  "digamma_series (exact_uq_arith of_f as_f) x acc = acc + psi_series x"
  by (simp add: digamma_series_def psi_series_def Let_def power_divide eval_nat_numeral algebra_simps)

text \<open>
  C40: In exact arithmetic \<open>digamma\<close> computes the digamma function: for every positive \<open>x\<close> its loop
  ends, and the result is at most \<open>1e-12\<close> above Gauss's limit of \<open>ln n - (1/x + \<dots> + 1/(x + n - 1))\<close>,
  which exists, and never below it.  The rounding of \<open>f64\<close> is not covered.
\<close>

theorem digamma_is_accurate:
  assumes "0 < x"
  shows "\<exists>y l. digamma (exact_uq_arith of_f as_f) x = Some y \<and>
    (\<lambda>n. ln (real n) - (\<Sum>k<n. 1 / (x + real k))) \<longlonglongrightarrow> l \<and> l \<le> y \<and> y \<le> l + 1 / 10 ^ 12"
proof -
  obtain l where l: "is_digamma x l"
    "\<forall>n. psi_series (x + real n) - psi_error (x + real n) - (\<Sum>k<n. 1 / (x + real k)) \<le> l \<and>
      l \<le> psi_series (x + real n) - (\<Sum>k<n. 1 / (x + real k))"
    using digamma_enclosed [OF assms] by blast
  have "10 \<le> x + real (steps_to_ten x)"
    unfolding steps_to_ten_def by linarith
  from psi_error_from_ten [OF this] l(2) [rule_format, of "steps_to_ten x"]
  have "l \<le> psi_series (x + real (steps_to_ten x)) - (\<Sum>k\<in>{..<steps_to_ten x}. 1 / (x + real k))"
    "psi_series (x + real (steps_to_ten x)) - (\<Sum>k\<in>{..<steps_to_ten x}. 1 / (x + real k)) \<le> l + 1 / 10 ^ 12"
    by linarith+
  with l(1) show ?thesis
    unfolding digamma_exact digamma_series_exact is_digamma_def by (intro exI conjI) (assumption | simp)+
qed

theorem digamma_is_accurate_witness:
  "\<exists>y l. digamma (exact_uq_arith (\<lambda>w. real (unat w)) (\<lambda>_. 0)) (1 :: real) = Some y \<and>
    (\<lambda>n. ln (real n) - (\<Sum>k<n. 1 / (1 + real k))) \<longlonglongrightarrow> l \<and> l \<le> y \<and> y \<le> l + 1 / 10 ^ 12"
  using digamma_is_accurate [of 1] by simp

text \<open>
  With an arithmetic in which adding one leaves a number below ten unchanged, as that of \<open>f64\<close> does
  below \<open>-2^53\<close> and at the negative infinity, the loop does not end.
\<close>

lemma digamma_may_not_end:
  assumes "n_less A x (n_lit A 10)" "n_add A x (n_lit A 1) = x"
  shows "digamma A x = None"
proof -
  have "\<not> (y = x \<and> digamma_loop A y acc = Some r)" for y acc r
  proof
    assume *: "y = x \<and> digamma_loop A y acc = Some r"
    have step: "A' = A \<longrightarrow> z \<noteq> x"
      if "\<And>B z acc r. f B z acc = Some r \<Longrightarrow> B = A \<longrightarrow> z \<noteq> x"
        "(if n_less A' z (n_lit A' 10) then f A' (n_add A' z (n_lit A' 1)) (n_sub A' b (n_div A' (n_lit A' 1) z)) else Some (z, b)) = Some q"
      for f A' z b q
      using that(2) assms that(1) [of A x "n_sub A b (n_div A (n_lit A 1) x)" q] by (auto split: if_splits)
    have "(case ((A, y), acc) of (u, v) \<Rightarrow> (case u of (B, z) \<Rightarrow> \<lambda>acc r. B = A \<longrightarrow> z \<noteq> x) v) r"
    proof (rule digamma_loop.raw_induct [where P = "\<lambda>B z acc r. B = A \<longrightarrow> z \<noteq> x"])
      show "(case ((A, y), acc) of (u, v) \<Rightarrow> (case u of (B, z) \<Rightarrow> digamma_loop B z) v) = Some r" using conjunct2 [OF *] by simp
    qed (rule step)
    with * show False by simp
  qed
  then have "digamma_loop A x (n_lit A 0) = None" by (cases "digamma_loop A x (n_lit A 0)") auto
  then show ?thesis by (simp add: digamma_def)
qed

section \<open>The levels of the hierarchy\<close>

lemma list8: "length xs = 8 \<Longrightarrow> \<exists>a b c d e f g h. xs = [a, b, c, d, e, f, g, h]"
  by (auto simp: numeral_eq_Suc length_Suc_conv)

lemma group_leaves_exact:
  fixes of_f as_f
  defines "A \<equiv> exact_uq_arith of_f as_f"
  shows "group_leaves A [a, b, c, d, e, f, g, h] CLASS_LEAF_TO_NODE 8 = [a, b, c, d, e, f, g, h]"
    and "group_leaves A [a, b, c, d, e, f, g, h] FAMILY_LEAF_TO_NODE 4 = [a, b + c, d, e + f + g + h]"
    and "group_leaves A [a, b, c, d, e, f, g, h] DOMAIN_LEAF_TO_NODE 2 = [a + b + c, d + e + f + g + h]"
  by (simp_all add: A_def group_leaves_def CLASS_LEAF_TO_NODE_def FAMILY_LEAF_TO_NODE_def DOMAIN_LEAF_TO_NODE_def
      numeral_eq_Suc)

lemma argmax_exact:
  fixes vals :: "real list"
  assumes "vals \<noteq> []"
  shows "argmax (exact_uq_arith of_f as_f) vals < length vals \<and>
    (\<forall>v \<in> set vals. v \<le> vals ! argmax (exact_uq_arith of_f as_f) vals)"
proof -
  let ?step = "\<lambda>q best. if snd best \<le> snd q then q else (best :: nat \<times> real)"
  have fold: "fold ?step ps p \<in> set (p # ps) \<and> (\<forall>q \<in> set (p # ps). snd q \<le> snd (fold ?step ps p))" for p ps
    by (induction ps arbitrary: p) (auto, (smt (verit))+)
  obtain v vs where vs: "vals = v # vs" using assms by (cases vals) auto
  let ?best = "fold ?step (List.enumerate 1 vs) (0, v)"
  have e: "List.enumerate 0 vals = (0, v) # List.enumerate 1 vs" by (simp add: vs)
  from fold [of "List.enumerate 1 vs" "(0, v)"]
  have best: "?best \<in> set (List.enumerate 0 vals)" "\<forall>q \<in> set (List.enumerate 0 vals). snd q \<le> snd ?best"
    by (simp_all add: e)
  then have "fst ?best < length vals" "snd ?best = vals ! fst ?best"
    by (auto simp: in_set_enumerate_eq)
  moreover have "v \<in> snd ` set (List.enumerate 0 vals)" if "v \<in> set vals" for v
    using that by (metis map_snd_enumerate set_map)
  moreover have "argmax (exact_uq_arith of_f as_f) vals = fst ?best"
    by (simp add: argmax_def e)
  ultimately show ?thesis using best(2) by fastforce
qed

lemma calibrated_above_one:
  "\<forall>a \<in> set (calibrate_alpha (exact_uq_arith of_f as_f) alpha). 1 \<le> a"
  by (auto simp: calibrate_alpha_def TEMPERATURE_def)

lemma normalized_positive:
  assumes "\<forall>a \<in> set alpha. 1 \<le> a"
  shows "\<forall>p \<in> set (normalize_alpha (exact_uq_arith of_f as_f) alpha). 0 < p"
proof
  fix p assume "p \<in> set (normalize_alpha (exact_uq_arith of_f as_f) alpha)"
  then obtain a where a: "a \<in> set alpha" "p = a / sum_list alpha" by (auto simp: normalize_alpha_def Let_def)
  have "\<forall>b \<in> set alpha. 0 \<le> b" using assms by force
  with a assms have "0 < a" "a \<le> sum_list alpha"
    by (force, auto intro: member_le_sum_list)
  with a show "0 < p" by simp
qed

lemma shares_of_a_whole:
  fixes ws :: "real list"
  assumes "ws \<noteq> []" "\<forall>w \<in> set ws. 0 < w"
  shows "sum_list (map (\<lambda>w. w / sum_list ws) ws) = 1 \<and> (\<forall>p \<in> set (map (\<lambda>w. w / sum_list ws) ws). 0 < p)"
proof -
  have divide: "sum_list (map (\<lambda>w. w / c) xs) = sum_list xs / c" for xs and c :: real
    by (induction xs) (simp_all add: add_divide_distrib)
  have "0 \<le> sum_list xs" if "set xs \<subseteq> set ws" for xs
    using that assms(2) by (induction xs) (auto simp: less_imp_le add_nonneg_nonneg)
  with assms have "0 < sum_list ws" by (cases ws) (force intro: add_pos_nonneg)+
  with assms(2) show ?thesis by (auto simp: divide)
qed

lemma adjusted_priors:
  fixes of_f as_f
  defines "A \<equiv> exact_uq_arith of_f as_f"
  assumes "length ps = 8" "\<forall>p \<in> set ps. 0 < p"
  shows "length (adjust_for_priors A ps) = 8 \<and> sum_list (adjust_for_priors A ps) = 1 \<and>
    (\<forall>p \<in> set (adjust_for_priors A ps). 0 < p)"
proof -
  let ?w = "map (\<lambda>(i, p). p * (PI_DEPLOY ! i + 1 / 10 ^ 12) / (PI_TRAIN ! i + 1 / 10 ^ 12)) (List.enumerate 0 ps)"
  have adjust: "adjust_for_priors A ps = map (\<lambda>w. w / sum_list ?w) ?w"
    by (simp add: adjust_for_priors_def A_def Let_def)
  obtain a b c d e f g h where ps: "ps = [a, b, c, d, e, f, g, h]"
    using list8 [OF assms(2)] by blast
  with assms(3) have positive: "\<forall>w \<in> set ?w. 0 < w"
    by (simp add: PI_DEPLOY_def PI_TRAIN_def)
  from ps have "?w \<noteq> []" by (simp only: map_is_Nil_conv) simp
  note share = shares_of_a_whole [OF this positive]
  have "length (map (\<lambda>w. w / sum_list ?w) ?w) = 8" using assms(2) by (simp only: length_map length_enumerate)
  with share show ?thesis unfolding adjust by blast
qed

text \<open>
  C38: In exact arithmetic the three levels reported for an alert tell one story: whatever eight real
  numbers the network answers, the probabilities of the classes are positive and sum to one, those of the
  families are the sums over their classes, those of the domains the sums over their families, so each
  level sums to one, and each level predicts a node that exists and that no other node of the level
  exceeds.  Infinite outputs and the rounding of \<open>f64\<close> are not covered.
\<close>

theorem class_hierarchy_adds_up:
  fixes of_f as_f and alpha :: "real list"
  defines "A \<equiv> exact_uq_arith of_f as_f"
  defines "probs \<equiv> adjust_for_priors A (normalize_alpha A (calibrate_alpha A alpha))"
  assumes "length alpha = 8"
  shows "\<exists>c f d.
    resolve_level A alpha probs CLASS_LEAF_TO_NODE (length CLASS_NODES) CLASS_GATE_SCORE CLASS_GATE_THRESHOLDS = Some c \<and>
    resolve_level A alpha probs FAMILY_LEAF_TO_NODE (length FAMILY_NODES) FAMILY_GATE_SCORE FAMILY_GATE_THRESHOLDS = Some f \<and>
    resolve_level A alpha probs DOMAIN_LEAF_TO_NODE (length DOMAIN_NODES) DOMAIN_GATE_SCORE DOMAIN_GATE_THRESHOLDS = Some d \<and>
    (\<forall>p \<in> set (lv_probs c). 0 < p) \<and> sum_list (lv_probs c) = 1 \<and> length (lv_probs c) = 8 \<and>
    lv_probs f = [lv_probs c ! 0, lv_probs c ! 1 + lv_probs c ! 2, lv_probs c ! 3,
      lv_probs c ! 4 + lv_probs c ! 5 + lv_probs c ! 6 + lv_probs c ! 7] \<and>
    lv_probs d = [lv_probs f ! 0 + lv_probs f ! 1, lv_probs f ! 2 + lv_probs f ! 3] \<and>
    sum_list (lv_probs f) = 1 \<and> sum_list (lv_probs d) = 1 \<and>
    (\<forall>l \<in> {c, f, d}. lv_pred l < length (lv_probs l) \<and> (\<forall>p \<in> set (lv_probs l). p \<le> lv_probs l ! lv_pred l))"
proof -
  obtain c f d where
    c: "resolve_level A alpha probs CLASS_LEAF_TO_NODE (length CLASS_NODES) CLASS_GATE_SCORE CLASS_GATE_THRESHOLDS = Some c" and
    f: "resolve_level A alpha probs FAMILY_LEAF_TO_NODE (length FAMILY_NODES) FAMILY_GATE_SCORE FAMILY_GATE_THRESHOLDS = Some f" and
    d: "resolve_level A alpha probs DOMAIN_LEAF_TO_NODE (length DOMAIN_NODES) DOMAIN_GATE_SCORE DOMAIN_GATE_THRESHOLDS = Some d"
    unfolding A_def using resolve_level_exact by metis
  have "length (normalize_alpha A (calibrate_alpha A alpha)) = 8"
    using assms(3) by (simp add: normalize_alpha_def calibrate_alpha_def Let_def)
  moreover have "\<forall>p \<in> set (normalize_alpha A (calibrate_alpha A alpha)). 0 < p"
    unfolding A_def by (rule normalized_positive [OF calibrated_above_one])
  ultimately have probs: "length probs = 8" "sum_list probs = 1" "\<forall>p \<in> set probs. 0 < p"
    unfolding probs_def A_def by (simp_all add: adjusted_priors)
  obtain p0 p1 p2 p3 p4 p5 p6 p7 where eight: "probs = [p0, p1, p2, p3, p4, p5, p6, p7]"
    using list8 [OF probs(1)] by blast
  note fields = resolve_level_fields [OF c] resolve_level_fields [OF f] resolve_level_fields [OF d]
  have nodes: "length CLASS_NODES = 8" "length FAMILY_NODES = 4" "length DOMAIN_NODES = 2"
    by (simp_all add: CLASS_NODES_def CLASS_NAMES_def FAMILY_NODES_def DOMAIN_NODES_def)
  have levels: "lv_probs c = [p0, p1, p2, p3, p4, p5, p6, p7]" "lv_probs f = [p0, p1 + p2, p3, p4 + p5 + p6 + p7]"
    "lv_probs d = [p0 + p1 + p2, p3 + p4 + p5 + p6 + p7]"
    using fields unfolding nodes eight A_def by (simp_all only: group_leaves_exact)
  have preds: "\<forall>l \<in> {c, f, d}. lv_pred l < length (lv_probs l) \<and> (\<forall>p \<in> set (lv_probs l). p \<le> lv_probs l ! lv_pred l)"
  proof -
    have "lv_probs c \<noteq> []" "lv_probs f \<noteq> []" "lv_probs d \<noteq> []" by (simp_all add: levels)
    with fields have "\<forall>l \<in> {c, f, d}. lv_pred l = argmax (exact_uq_arith of_f as_f) (lv_probs l) \<and> lv_probs l \<noteq> []"
      unfolding A_def by blast
    then show ?thesis using argmax_exact by metis
  qed
  from probs(2,3) have sums: "p0 + (p1 + (p2 + (p3 + (p4 + (p5 + (p6 + p7)))))) = 1"
    and positive: "\<forall>p \<in> set (lv_probs c). 0 < p"
    unfolding eight levels by simp_all
  show ?thesis
    by (intro exI [of _ c] exI [of _ f] exI [of _ d] conjI preds c f d positive) (use sums in \<open>simp_all add: levels\<close>)
qed

theorem class_hierarchy_adds_up_witness:
  "\<exists>c. resolve_level (exact_uq_arith (\<lambda>w. real (unat w)) (\<lambda>_. 0)) (replicate 8 (2 :: real))
      (adjust_for_priors (exact_uq_arith (\<lambda>w. real (unat w)) (\<lambda>_. 0)) (normalize_alpha (exact_uq_arith (\<lambda>w. real (unat w)) (\<lambda>_. 0))
        (calibrate_alpha (exact_uq_arith (\<lambda>w. real (unat w)) (\<lambda>_. 0)) (replicate 8 2))))
      CLASS_LEAF_TO_NODE (length CLASS_NODES) CLASS_GATE_SCORE CLASS_GATE_THRESHOLDS = Some c \<and> sum_list (lv_probs c) = 1"
  using class_hierarchy_adds_up [of "replicate 8 2" "\<lambda>w. real (unat w)" "\<lambda>_. 0"] by auto

section \<open>The decision, and the rows of a batch\<close>

lemma build_exact:
  assumes "length alpha = 8"
  shows "\<exists>r. build (exact_uq_arith of_f as_f) alpha n m = Some (Some r)"
proof -
  let ?A = "exact_uq_arith of_f as_f"
  have long: "length (adjust_for_priors ?A (normalize_alpha ?A (calibrate_alpha ?A (map of_f alpha)))) = 8"
    using assms by (simp add: adjust_for_priors_def normalize_alpha_def calibrate_alpha_def Let_def)
  obtain s where s: "scores ?A (map of_f alpha) = Some s" using scores_exact by blast
  let ?level = "resolve_level ?A (map of_f alpha)
    (adjust_for_priors ?A (normalize_alpha ?A (calibrate_alpha ?A (map of_f alpha))))"
  obtain d f c where
    "?level DOMAIN_LEAF_TO_NODE (length DOMAIN_NODES) DOMAIN_GATE_SCORE DOMAIN_GATE_THRESHOLDS = Some d"
    "?level FAMILY_LEAF_TO_NODE (length FAMILY_NODES) FAMILY_GATE_SCORE FAMILY_GATE_THRESHOLDS = Some f"
    "?level CLASS_LEAF_TO_NODE (length CLASS_NODES) CLASS_GATE_SCORE CLASS_GATE_THRESHOLDS = Some c"
    using resolve_level_exact by metis
  with s long assms show ?thesis
    by (simp add: build_def documents_of_def Let_def from_slice_f64_def from_probs_def split: prod.split)
qed

lemma documents_of_parts:
  assumes "documents_of A alpha probs n m s dlevel family cls = Some (fusion, outputs)"
  shows "decision_label fusion = map_option fst (reported dlevel family cls)"
    "decision_level fusion = map_option (\<lambda>d. fst (snd d)) (reported dlevel family cls)"
    "decision_probability fusion = map_option (\<lambda>d. q_as_f32 A (snd (snd d))) (reported dlevel family cls)"
    "abstain_completely fusion \<longleftrightarrow> decision_label fusion = None"
    "out_decision outputs = \<lparr>cd_label = decision_label fusion, cd_level = decision_level fusion,
       cd_probability = decision_probability fusion, cd_abstain_completely = abstain_completely fusion\<rparr>"
    "out_class outputs = level_document A CLASS_NODES cls (class_probabilities fusion)"
    "\<exists>p. out_family outputs = level_document A FAMILY_NODES family p"
    "\<exists>p. out_domain outputs = level_document A DOMAIN_NODES dlevel p"
  using assms by (auto simp: documents_of_def Let_def split: option.split_asm prod.split_asm)

text \<open>
  The label of an alert is that of the deepest level whose gate holds, with the probability the
  documents give for that level; there is no label exactly when no gate holds; and the summary
  says what the full document says.
\<close>

theorem decision_is_the_deepest_kept_level:
  assumes "build A alpha n modalities = Some (Some (fusion, outputs))"
  shows "(if ld_kept (out_class outputs)
      then decision_label fusion = Some (ld_pred (out_class outputs)) \<and> decision_level fusion = Some ''class'' \<and>
        decision_probability fusion = Some (ld_prob (out_class outputs))
      else if ld_kept (out_family outputs)
      then decision_label fusion = Some (ld_pred (out_family outputs)) \<and> decision_level fusion = Some ''family'' \<and>
        decision_probability fusion = Some (ld_prob (out_family outputs))
      else if ld_kept (out_domain outputs)
      then decision_label fusion = Some (ld_pred (out_domain outputs)) \<and> decision_level fusion = Some ''domain'' \<and>
        decision_probability fusion = Some (ld_prob (out_domain outputs))
      else decision_label fusion = None \<and> decision_level fusion = None \<and> decision_probability fusion = None) \<and>
    (abstain_completely fusion \<longleftrightarrow> \<not> ld_kept (out_class outputs) \<and> \<not> ld_kept (out_family outputs) \<and> \<not> ld_kept (out_domain outputs)) \<and>
    out_decision outputs = \<lparr>cd_label = decision_label fusion, cd_level = decision_level fusion,
      cd_probability = decision_probability fusion, cd_abstain_completely = abstain_completely fusion\<rparr> \<and>
    class_probabilities fusion = ld_probs (out_class outputs)"
proof -
  from assms obtain probs raw s dlevel family cls where
    documents: "documents_of A raw probs n modalities s dlevel family cls = Some (fusion, outputs)"
    by (auto simp: build_def Let_def bind_eq_Some_conv split: if_split_asm)
  note parts = documents_of_parts [OF documents]
  from parts(7,8) obtain p q where "out_family outputs = level_document A FAMILY_NODES family p"
    "out_domain outputs = level_document A DOMAIN_NODES dlevel q" by blast
  with parts(1-6) show ?thesis by (simp add: reported_def level_document_def)
qed

theorem decision_is_the_deepest_kept_level_witness:
  "\<exists>fusion outputs. build (exact_uq_arith (\<lambda>w. real (unat w)) (\<lambda>_. 0)) (replicate 8 7) 3
      \<lparr>mo_photometry = True, mo_science_stamp = True, mo_reference_stamp = True, mo_metadata = True, mo_redshift = False\<rparr>
      = Some (Some (fusion, outputs)) \<and>
     (abstain_completely fusion \<longleftrightarrow> \<not> ld_kept (out_class outputs) \<and> \<not> ld_kept (out_family outputs) \<and> \<not> ld_kept (out_domain outputs))"
proof -
  let ?m = "\<lparr>mo_photometry = True, mo_science_stamp = True, mo_reference_stamp = True, mo_metadata = True, mo_redshift = False\<rparr>"
  obtain fusion outputs where
    r: "build (exact_uq_arith (\<lambda>w. real (unat w)) (\<lambda>_. 0)) (replicate 8 7) 3 ?m = Some (Some (fusion, outputs))"
    using build_exact [of "replicate 8 7"] by fastforce
  from decision_is_the_deepest_kept_level [OF r] r show ?thesis by blast
qed

lemma chunks_exact_concat:
  "\<forall>row \<in> set rows. length row = n \<Longrightarrow> chunks_exact n (length rows) (concat rows) = rows"
  by (induction rows) simp_all

lemma concat_length: "\<forall>row \<in> set rows. length row = n \<Longrightarrow> length (concat rows) = length rows * n"
  by (induction rows) simp_all

lemma derive_rows_all:
  "\<forall>(row, n) \<in> set rows. derive A row n m = Some (Some (f row n)) \<Longrightarrow>
   derive_rows A m rows = Some (Some (map (\<lambda>(row, n). f row n) rows))"
  by (induction rows) auto

text \<open>
  C39: A batch of classifier outputs gives every alert the documents of its own row: the flattened rows
  derive as each does alone, in order; a buffer that is not one row of eight values per alert, or no
  alert at all, gives nothing.
\<close>

theorem batch_gives_each_alert_its_row:
  fixes of_f as_f
  defines "A \<equiv> exact_uq_arith of_f as_f"
  shows "(ns = [] \<or> length alpha \<noteq> 8 * length ns \<longrightarrow> derive_batch A alpha ns m = Some None) \<and>
    (\<forall>rows. rows \<noteq> [] \<and> (\<forall>row \<in> set rows. length row = 8) \<and> length ns = length rows \<longrightarrow>
      derive_batch A (concat rows) ns m =
        Some (Some (map (\<lambda>(row, n). the (the (derive A row n m))) (zip rows ns))))"
proof (intro conjI allI impI)
  assume "ns = [] \<or> length alpha \<noteq> 8 * length ns"
  then show "derive_batch A alpha ns m = Some None" by (auto simp: derive_batch_def CLASS_NAMES_def)
next
  fix rows :: "f32 list list"
  assume rows: "rows \<noteq> [] \<and> (\<forall>row \<in> set rows. length row = 8) \<and> length ns = length rows"
  have "derive A row n m = Some (Some (the (the (derive A row n m))))" if "(row, n) \<in> set (zip rows ns)" for row n
    using build_exact [of row of_f as_f n m] rows that by (auto simp: derive_def A_def dest!: set_zip_leftD)
  moreover have classes: "length CLASS_NAMES = 8" by (simp add: CLASS_NAMES_def)
  ultimately have "derive_rows A m (zip rows ns) = Some (Some (map (\<lambda>(row, n). the (the (derive A row n m))) (zip rows ns)))"
    by (intro derive_rows_all) auto
  with rows show "derive_batch A (concat rows) ns m =
      Some (Some (map (\<lambda>(row, n). the (the (derive A row n m))) (zip rows ns)))"
    using chunks_exact_concat [of rows 8] concat_length [of rows 8] classes
    by (auto simp: derive_batch_def simp del: One_nat_def)
qed

theorem batch_gives_each_alert_its_row_witness:
  "\<exists>documents. derive_batch (exact_uq_arith (\<lambda>w. real (unat w)) (\<lambda>_. 0)) (concat [replicate 8 7, replicate 8 3]) [4, 5]
      \<lparr>mo_photometry = True, mo_science_stamp = True, mo_reference_stamp = True, mo_metadata = True, mo_redshift = False\<rparr>
      = Some (Some documents) \<and> length documents = 2"
  using conjunct2 [OF batch_gives_each_alert_its_row [of "[4, 5]" "[]" "\<lambda>w. real (unat w)" "\<lambda>_. 0"],
    rule_format, of "[replicate 8 7, replicate 8 3]"] by simp

end
