(* ===== verification/Spec2Isabelle.thy ===== *)
theory Spec2Isabelle
  imports Task_Routes Alert_Flow Filter_Ztf Filter_Activation Api_Queries Cutout_Routes Ztf_Enrichment Applecider
begin

text \<open>
  A verification library for BOOM, the broker of astronomical alerts.

  \<^bold>\<open>The program.\<close>  Alerts arrive as Avro packets on lists of a Redis server.  A pool of alert workers
  takes them, decodes them, stores alerts and merges their light curves into one auxiliary
  document per object in MongoDB, and hands the ids to the enrichment workers, which hand
  enriched alerts to the filter workers, which send matches to Kafka.  A scheduler starts the
  pools and restarts threads that die.  Next to this stream stands the task system: admins submit
  long-running jobs through the API, task workers claim them from a queue collection under a
  lease, log into a collection the admin page tails, and record what they change in a ledger.

  \<^bold>\<open>Theories.\<close>
  \<^item> \<open>Prelude\<close>, \<open>Json\<close>, \<open>Doc_Store\<close>: the machine types, result type and string operations of Rust;
    JSON and BSON values; a MongoDB collection as a record of the driver's calls, with the locale
    \<open>doc_store\<close> for what the sources rely on and a list of documents as its interpretation.
  \<^item> \<open>Retry\<close> (\<open>utils/retry.rs\<close>) and \<open>Work_Queue\<close>: the retry loop with the waits it takes, and the
    Redis lists as a record of commands with the locale \<open>redis_store\<close>; a command that reports an
    error may have been executed.
  \<^item> \<open>Avro_Header\<close> (\<open>alert/base.rs\<close>, lines 82-180 and 600-633): the container header and the
    schema cache.  The header reader inverts a reference encoder of containers and never reads
    outside the packet; the cache never changes an answer.
  \<^item> \<open>Alert_Timeseries\<close> (the trait \<open>TimeSeries\<close>; \<open>utils/db.rs\<close>): validation, sanitising and merging of
    light curves, and the update pipeline that does the same in the database.
  \<^item> \<open>Alert_Aux\<close> (the auxiliary updates of \<open>alert/base.rs\<close> and \<open>alert/ztf.rs\<close>): the version-checked
    push and its fallback, and the interleavings of several workers on one object.
  \<^item> \<open>Alert_Queue\<close>, \<open>Stage_Workers\<close>: the main loops of the three stages, turn by turn, and the
    recovery of a dead worker's queue.
  \<^item> \<open>Ztf_Photometry\<close>, \<open>Ztf_Packet\<close> (\<open>alert/ztf.rs\<close>, \<open>utils/lightcurves.rs\<close>): the points of a ZTF packet
    with every field, their conversion to fluxes and bands, and the custom deserialisers.
  \<^item> \<open>Alert_Process\<close> (\<open>process_alert\<close> of \<open>alert/ztf.rs\<close> with its helpers of \<open>alert/base.rs\<close>),
    \<open>Alert_Histories\<close>, \<open>Alert_Flow\<close>: the processing of an alert as the code's function and as its
    calls one by one (\<open>work\<close>), with a bridge lemma between the two; histories interleave the calls of
    many workers over the stores of the locale \<open>alert_stores\<close>.  \<open>Alert_Flow\<close> puts the processing into the
    main loop of \<open>Alert_Queue\<close>: a packet leaves the queues only when it was processed itself, and a
    turn that fails between the database and the output queue costs the alert its enrichment.
  \<^item> \<open>Filter_Pipeline\<close> (\<open>filter/base.rs\<close>, \<open>api/filters.rs\<close>): the validation of a filter's pipeline and the
    scans for the fields it uses; the validator equals a reference predicate with joining stages and
    discarded joins listed on its own.
  \<^item> \<open>Filter_Build\<close> (\<open>filter/{ztf,lsst,decam,winter}.rs\<close>, \<open>utils/db.rs\<close>): the pipelines built around the
    user's stages.  One function, \<open>build_around\<close>, holds what the four builders repeat, with a
    table of the fields each survey fills in.  The stages it adds are measured against MongoDB documents
    spelled out without its helpers: the tables of histories and the conditions on their points
    (\<open>own_sources\<close>, \<open>aux_sources\<close>, \<open>point_conditions\<close>), what an expression may read (\<open>may_read\<close>), and
    the lookup and the field that a use asks for (\<open>joins\<close>, \<open>fills\<close>).
  \<^item> \<open>Filter_Loading\<close> (\<open>filter/base.rs\<close>) and \<open>Filter_Ztf\<close> (\<open>filter/ztf.rs\<close>): stored filters, how they
    are loaded and run, and the batch of the ZTF worker from the queued texts to the results.
  \<^item> \<open>Api_Response\<close> (\<open>api/models/response.rs\<close>), \<open>Api_Catalogs\<close> (\<open>api/catalogs.rs\<close>): the answers of routes, and
    which collections a user may query.
  \<^item> \<open>Api_Projection\<close>, \<open>Api_Queries\<close> (\<open>api/routes/queries/\<close>, \<open>api/limits.rs\<close>, \<open>api/filters.rs\<close>): pipelines,
    finds, counts and cone searches.  The locale \<open>query_db\<close> states what a query on a collection may
    depend on; its interpretation is a database in memory that runs \<open>$unionWith\<close>.
  \<^item> \<open>Filter_Routes\<close> (\<open>api/routes/filters.rs\<close>), \<open>Filter_Histories\<close>, \<open>Filter_Activation\<close>: creating, extending,
    changing and deleting filters.  A request that changes a filter is a check and a write, and
    \<open>filter_step\<close> interleaves the halves of many requests.
  \<^item> \<open>Cutout_Codec\<close>, \<open>Cutouts\<close> (\<open>utils/cutouts.rs\<close>), \<open>Cutout_Histories\<close>, \<open>Cutout_Routes\<close> (\<open>api/cutouts.rs\<close>,
    \<open>api/routes/surveys/cutouts.rs\<close>): the image stamps of alerts, in a bucket behind a cache or in a
    collection.  The locale \<open>cutout_world\<close> states what the services promise: a write that reports an
    error may have happened, an entry of the cache may vanish at any time, a stored document may be
    unreadable (\<open>readable\<close> where a statement needs it not to be).
  \<^item> \<open>Detection_Histories\<close>, \<open>Light_Curve_Fits\<close> (\<open>utils/lightcurves.rs\<close>), \<open>Sso_Outburst\<close> (\<open>utils/outburst.rs\<close>,
    \<open>utils/phase_curve.rs\<close>): what the enrichment computes from a light curve, over a record of rounded
    arithmetic; the statements about fits, the two passes of a phase curve among them, are in exact
    arithmetic.  The counters of histories are \<open>i32\<close> in the code and numbers here.  \<open>Sso_Baselines\<close>
    (\<open>tasks/sso_baselines.rs\<close>) is the body of the task that stores the phase curves, over a store of
    documents that are replaced or inserted under their designation.
  \<^item> \<open>Ztf_Enrichment\<close> (\<open>enrichment/ztf.rs\<close>, with the points of \<open>lsst.rs\<close> and \<open>decam.rs\<close> beside it):
    \<open>get_alert_properties\<close>, everything the enrichment computes for one ZTF alert; \<open>Applecider\<close>
    (\<open>enrichment/models/applecider_postprocess.rs\<close>): what is derived from the output of the fusion classifier.
    \<open>Digamma_Bounds\<close> holds no code: the digamma function as a limit, and the series that encloses it.
  \<^item> \<open>Supervisor\<close> (\<open>scheduler/base.rs\<close>, \<open>utils/worker.rs\<close>, \<open>utils/enums.rs\<close>): the pools.
  \<^item> \<open>Task_Models\<close>, \<open>Task_Registry\<close>, \<open>Task_Redact\<close>, \<open>Task_Logs\<close>, \<open>Task_Queue\<close>, \<open>Task_Ledger\<close>,
    \<open>Task_Context\<close>, \<open>Task_Worker\<close> (\<open>tasks/*.rs\<close>, \<open>bin/task_worker.rs\<close>) and \<open>Task_Routes\<close>
    (\<open>api/routes/tasks.rs\<close>, \<open>api/admin.rs\<close>): the task system.  In the histories of the queue an
    operation is one step, also where the code makes several calls; every call may fail in it.

  A Rust struct is a record and an enum a datatype with the source's fields and constructors, a
  \<open>Result\<close> is a sum whose left side is the error, an early return is a branch; state that the code
  mutates is passed through and returned.  A \<open>usize\<close> counter is a natural number where it cannot
  wrap, with the wrap written out where it can.

  \<^bold>\<open>What the lemmas show.\<close>  The queue operations refine a life cycle of runs given as a step relation, from
  which exclusive claims, final outcomes and renewed leases follow; the log keeps its numbering
  and a tail misses nothing while the last number can be read back; a run's outcome is recorded unless that
  very write fails; masking equals a reference scanner.  On the alert side a light curve
  stays sorted and duplicate-free and keeps acknowledged points under any interleaving of
  workers; an alert in the database implies its object's document and its cutouts, and a queued
  packet stays queued until it was processed and its alert is stored, whatever calls fail; every worker obeys a
  termination command.  What is inserted into a filter's pipeline stands right in front of the stages
  that use it, with the lookup it reads from, and reads only what the filter's permissions allow; results come from permitted
  filters only; the queue text of an alert is read back.  A query shows nothing but what its user may
  query and stays within the byte limit; stored filters stay well formed and change only by their
  owners and admins, in every interleaving of requests; the check of an activation is exact, and can
  be raced.  Cutouts that are read are ones that were inserted for that alert, and inserted ones are
  found, whatever the cache does.  The one-pass summaries of a light curve equal references read off
  its points, the fits are least-squares lines and least-scatter curves in exact arithmetic, and a full
  pass over the archive stores the curves of every object that has any, and changes no other document,
  for every batch size.  The properties of an alert do not
  depend on what was observed after it; in exact arithmetic the levels of the class hierarchy add up and the digamma
  routine is accurate, and a batch of
  classifier outputs gives each alert its own row.  The places where the code does not do what its comments say are stated as
  theorems about what it does.

  \<^bold>\<open>Parameters.\<close>  MongoDB, Redis, Kafka, the Avro library, the JSON and BSON codecs, clocks, fresh ids and
  the answers of command channels are arguments: records of functions, readings indexed by the
  call, or lists.  Their laws are the locales \<open>doc_store\<close>, \<open>redis_store\<close>, \<open>query_db\<close>, \<open>cutout_world\<close> and \<open>alert_stores\<close> and named hypotheses;
  each is interpreted on lists in memory, on which the witnesses evaluate.

  \<^bold>\<open>Fuel.\<close>  The main loops are meant to run forever: \<open>alert_loop\<close>, \<open>enrichment_loop\<close> and \<open>filter_loop\<close>
  take a number of turns and answer \<open>None\<close> when they are still running after it; \<open>worker_loop\<close>
  runs one turn for each element of its list of clock readings.  \<open>workers_obey_terminate\<close> gives the number of turns that suffices to end them.  The loop of \<open>digamma\<close> is a partial
  function, which ends for exact reals and need not end in \<open>f64\<close> (\<open>digamma_may_not_end\<close>).  All other
  recursion is structural or has a measure.

  \<^bold>\<open>Not modelled.\<close>  The decoding of the packets of LSST, DECam and WINTER; the enrichment's batches, the
  classifiers' inputs and inference, the properties of the alerts of LSST, DECam and WINTER; cross-matches and the astronomy under \<open>utils\<close>, which are floating-point
  numerics; the bodies of the other tasks; the API routes other than tasks, queries,
  filters and cutouts, among them authentication and mail, and of the filters the test runs with sky maps; Kafka consumers and producers; configuration loading; metrics, logging and waits.
\<close>

section \<open>The workers stop\<close>

text \<open>
  C23: A worker of any of the three stages obeys a termination command: while its channel says so
  at every poll, its main loop ends within one turn more than its countdown, whatever the queues,
  the processing and the producer answer.
\<close>

theorem workers_obey_terminate:
  assumes "\<And>k. should_terminate (receiver W k)" "\<And>k. should_terminate (e_receiver E k)"
    and "\<And>k. should_terminate (f_receiver F k)"
    and "command_check_countdown a < n" "e_countdown e < n" "f_countdown f < n"
  shows "fst (alert_loop W n a) \<noteq> None \<and> fst (enrichment_loop E n e) \<noteq> None \<and>
    fst (filter_loop F n f) \<noteq> None"
  using assms loop_terminates enrichment_terminates filter_terminates by blast

theorem workers_obey_terminate_witness:
  "let W = demo_setup\<lparr>receiver := \<lambda>_. Received Term_Cmd\<rparr>;
       E = failing_enrichment\<lparr>e_receiver := \<lambda>_. Received Term_Cmd\<rparr>;
       F = no_filters_setup\<lparr>f_receiver := \<lambda>_. Disconnected\<rparr>
   in fst (alert_loop W 101 (start_worker W demo_lists ())) \<noteq> None \<and>
      fst (enrichment_loop E 101 busy_enrichment) \<noteq> None \<and>
      fst (filter_loop F 101 idle_filter_worker) \<noteq> None"
  unfolding Let_def
  by (rule workers_obey_terminate)
    (simp_all add: demo_setup_def failing_enrichment_def no_filters_setup_def
      start_worker_def busy_enrichment_def idle_filter_worker_def)

end
